(* ===== verification/Drv_Prelude.thy ===== *)
theory Drv_Prelude
  imports Main "HOL-Library.Word" "HOL-Library.Monad_Syntax"
begin

text \<open>
  Shared vocabulary of the development: the C integer types of
  \<open>include/basic_types.h\<close> as words, byte buffers with checked access (a
  read or write outside the buffer is undefined behaviour in C and is the value
  \<open>None\<close> here), loops that may fault, the little-endian layout of 32-bit and
  16-bit values, and the generic lemmas that every component uses.
\<close>

unbundle bit_operations_syntax

type_synonym u8 = "8 word"
type_synonym u16 = "16 word"
type_synonym u32 = "32 word"
type_synonym u64 = "64 word"
type_synonym bytes = "8 word list"

named_theorems mem_simps \<open>laws of checked buffer access\<close>
named_theorems len_simps \<open>lengths of the blocks the routines build\<close>

section \<open>Checked access to a byte buffer\<close>

definition mem_rd :: "'a list \<Rightarrow> nat \<Rightarrow> nat \<Rightarrow> 'a list option" where
  "mem_rd m off n = (if off + n \<le> length m then Some (take n (drop off m)) else None)"

definition mem_wr :: "'a list \<Rightarrow> nat \<Rightarrow> 'a list \<Rightarrow> 'a list option" where
  "mem_wr m off bs =
     (if off + length bs \<le> length m
      then Some (take off m @ bs @ drop (off + length bs) m) else None)"

definition mem_get :: "'a list \<Rightarrow> int \<Rightarrow> 'a option" where
  "mem_get m i = (if 0 \<le> i \<and> i < int (length m) then Some (m ! nat i) else None)"

text \<open>
  The interface the frame routines rely on: a store of bytes with checked
  block read and block write.
\<close>

locale byte_store =
  fixes rd :: "'m \<Rightarrow> nat \<Rightarrow> nat \<Rightarrow> 'b list option"
    and wr :: "'m \<Rightarrow> nat \<Rightarrow> 'b list \<Rightarrow> 'm option"
    and sz :: "'m \<Rightarrow> nat"
  assumes rd_some: "off + n \<le> sz m \<Longrightarrow> \<exists>bs. rd m off n = Some bs \<and> length bs = n"
    and wr_some: "off + length bs \<le> sz m \<Longrightarrow> \<exists>m'. wr m off bs = Some m'"
    and wr_sz: "wr m off bs = Some m' \<Longrightarrow> sz m' = sz m"
    and wr_bound: "wr m off bs = Some m' \<Longrightarrow> off + length bs \<le> sz m"
    and rd_wr_same: "wr m off bs = Some m' \<Longrightarrow> rd m' off (length bs) = Some bs"
    and rd_wr_other: "wr m off bs = Some m' \<Longrightarrow>
          off2 + n \<le> off \<or> off + length bs \<le> off2 \<Longrightarrow> rd m' off2 n = rd m off2 n"
    and rd_split: "rd m off (a + b) = Some bs \<longleftrightarrow>
          rd m off a = Some (take a bs) \<and> rd m (off + a) b = Some (drop a bs) \<and> length bs = a + b"
begin

text \<open>
  Rewriting a block through a function that keeps its length, and doing so again
  through an inverse of that function, leaves the block as it was.
\<close>

lemma rewrite_twice:
  assumes "rd m off n = Some bs" and "off + n \<le> sz m"
    and "length (f bs) = n" and "g (f bs) = bs"
    and "wr m off (f bs) = Some m'"
  shows "rd m' off n = Some (f bs) \<and> map_option g (rd m' off n) = rd m off n"
  using rd_wr_same [OF assms(5)] assms by simp

lemma adjacent_writes:
  assumes "wr m off a = Some m1" and "wr m1 (off + length a) b = Some m2"
  shows "rd m2 off (length a + length b) = Some (a @ b)"
proof -
  have "rd m2 off (length a) = Some a"
    using rd_wr_other [OF assms(2), of off "length a"] rd_wr_same [OF assms(1)] by simp
  moreover have "rd m2 (off + length a) (length b) = Some b"
    using rd_wr_same [OF assms(2)] .
  ultimately show ?thesis by (simp add: rd_split)
qed

end

lemma mem_rd_wr_same [mem_simps]: "mem_wr m off bs = Some m' \<Longrightarrow> mem_rd m' off (length bs) = Some bs"
  by (auto simp: mem_wr_def mem_rd_def split: if_splits)

lemma mem_rd_wr_other:
  assumes "mem_wr m off bs = Some m'" and "off2 + n \<le> off \<or> off + length bs \<le> off2"
  shows "mem_rd m' off2 n = mem_rd m off2 n"
proof -
  have m': "m' = take off m @ bs @ drop (off + length bs) m"
    and fit: "off + length bs \<le> length m"
    using assms(1) by (auto simp: mem_wr_def split: if_splits)
  have len: "length m' = length m" using m' fit by simp
  have "off2 + n \<le> length m \<Longrightarrow> take n (drop off2 m') = take n (drop off2 m)"
  proof (rule nth_equalityI)
    show "off2 + n \<le> length m \<Longrightarrow> length (take n (drop off2 m')) = length (take n (drop off2 m))"
      by (simp add: len)
  next
    fix i
    assume "off2 + n \<le> length m" and "i < length (take n (drop off2 m'))"
    then have i: "i < n" "off2 + i < length m" using len by auto
    show "take n (drop off2 m') ! i = take n (drop off2 m) ! i"
    proof (cases "off2 + n \<le> off")
      case True
      then show ?thesis using i fit by (simp add: m' nth_append)
    next
      case False
      then have "off + length bs \<le> off2" using assms(2) by simp
      then show ?thesis using i fit by (simp add: m' nth_append)
    qed
  qed
  then show ?thesis by (simp add: mem_rd_def len)
qed

interpretation buf: byte_store mem_rd mem_wr length
proof
  fix m :: "'a list" and off a b :: nat and bs
  show "mem_rd m off (a + b) = Some bs \<longleftrightarrow>
          mem_rd m off a = Some (take a bs) \<and> mem_rd m (off + a) b = Some (drop a bs) \<and> length bs = a + b"
  proof
    assume "mem_rd m off (a + b) = Some bs"
    then show "mem_rd m off a = Some (take a bs) \<and> mem_rd m (off + a) b = Some (drop a bs) \<and> length bs = a + b"
      by (auto simp: mem_rd_def drop_take add.commute split: if_splits)
  next
    assume *: "mem_rd m off a = Some (take a bs) \<and> mem_rd m (off + a) b = Some (drop a bs) \<and> length bs = a + b"
    then have t: "take a bs = take a (drop off m)" and d: "drop a bs = take b (drop (off + a) m)"
      and fit: "off + a + b \<le> length m"
      by (auto simp: mem_rd_def split: if_splits)
    have "bs = take a (drop off m) @ take b (drop (off + a) m)"
      using t d by (metis append_take_drop_id)
    also have "\<dots> = take (a + b) (drop off m)" by (simp add: take_add add.commute)
    finally show "mem_rd m off (a + b) = Some bs" using fit by (simp add: mem_rd_def)
  qed
next
  fix m m' :: "'a list" and off off2 n :: nat and bs
  assume "mem_wr m off bs = Some m'" and "off2 + n \<le> off \<or> off + length bs \<le> off2"
  then show "mem_rd m' off2 n = mem_rd m off2 n" by (rule mem_rd_wr_other)
qed (auto simp: mem_simps, auto simp: mem_rd_def mem_wr_def split: if_splits)

lemma mem_wr_Some: "off + length bs \<le> length m \<Longrightarrow>
    mem_wr m off bs = Some (take off m @ bs @ drop (off + length bs) m)"
  by (simp add: mem_wr_def)

lemma mem_rd_Some: "off + n \<le> length m \<Longrightarrow> mem_rd m off n = Some (take n (drop off m))"
  by (simp add: mem_rd_def)

lemma mem_rd_length [len_simps]: "mem_rd m off n = Some bs \<Longrightarrow> length bs = n"
  by (auto simp: mem_rd_def split: if_splits)

lemma mem_rd_drop: "off \<le> length m \<Longrightarrow> mem_rd (drop off m) j c = mem_rd m (off + j) c"
  by (auto simp: mem_rd_def add.commute)

lemma mem_rd_prefix:
  assumes "take h m = take h m'" and "length m = length m'" and "a + c \<le> h"
  shows "mem_rd m a c = mem_rd m' a c"
proof -
  have "take (a + c) m = take (a + c) m'"
    using arg_cong [OF assms(1), of "take (a + c)"] assms(3) by (simp add: min_def)
  then show ?thesis using assms(2) by (simp add: mem_rd_def take_drop add.commute)
qed

section \<open>Loops that may fault\<close>

fun opt_fold :: "('s \<Rightarrow> 'x \<Rightarrow> 's option) \<Rightarrow> 's \<Rightarrow> 'x list \<Rightarrow> 's option" where
  "opt_fold f s [] = Some s"
| "opt_fold f s (x # xs) = (case f s x of None \<Rightarrow> None | Some s' \<Rightarrow> opt_fold f s' xs)"

lemma opt_fold_append:
  "opt_fold f s (xs @ ys) = (case opt_fold f s xs of None \<Rightarrow> None | Some s' \<Rightarrow> opt_fold f s' ys)"
  by (induction xs arbitrary: s) (auto split: option.splits)

lemma opt_fold_inv:
  assumes "opt_fold f s xs = Some t" and "P s"
    and "\<And>s x s'. x \<in> set xs \<Longrightarrow> P s \<Longrightarrow> f s x = Some s' \<Longrightarrow> P s'"
  shows "P t"
  using assms
proof (induction xs arbitrary: s)
  case Nil
  then show ?case by simp
next
  case (Cons x xs)
  then obtain s1 where s1: "f s x = Some s1" and rest: "opt_fold f s1 xs = Some t"
    by (auto split: option.splits)
  have "P s1" using Cons.prems(3) [of x s s1] Cons.prems(2) s1 by simp
  from rest this show ?case
  proof (rule Cons.IH)
    fix y u u'
    assume "y \<in> set xs" "P u" "f u y = Some u'"
    then show "P u'" using Cons.prems(3) [of y u u'] by simp
  qed
qed

lemma opt_fold_total:
  assumes "P s" and "\<And>s x. x \<in> set xs \<Longrightarrow> P s \<Longrightarrow> \<exists>s'. f s x = Some s' \<and> P s'"
  shows "\<exists>t. opt_fold f s xs = Some t \<and> P t"
  using assms
proof (induction xs arbitrary: s)
  case Nil
  then show ?case by simp
next
  case (Cons x xs)
  from Cons.prems obtain s1 where s1: "f s x = Some s1" "P s1" by auto
  then obtain t where "opt_fold f s1 xs = Some t" "P t" using Cons.IH [of s1] Cons.prems(2) by auto
  with s1 show ?case by simp
qed

lemma foldl_inv:
  assumes "P s" and "\<And>s x. x \<in> set xs \<Longrightarrow> P s \<Longrightarrow> P (f s x)"
  shows "P (foldl f s xs)"
  using assms by (induction xs arbitrary: s) auto

section \<open>Byte order\<close>

definition le32_bytes :: "u32 \<Rightarrow> bytes" where
  "le32_bytes v = [ucast v, ucast (drop_bit 8 v), ucast (drop_bit 16 v), ucast (drop_bit 24 v)]"

lemma length_le32_bytes [simp, len_simps]: "length (le32_bytes v) = 4"
  by (simp add: le32_bytes_def)

section \<open>Exclusive or of blocks\<close>

definition xor_bytes :: "bytes \<Rightarrow> bytes \<Rightarrow> bytes" where
  "xor_bytes a b = map2 (XOR) a b"

lemma length_xor_bytes [simp, len_simps]: "length (xor_bytes a b) = min (length a) (length b)"
  by (simp add: xor_bytes_def)

lemma xor_bytes_cancel: "length a = length b \<Longrightarrow> xor_bytes a (xor_bytes a b) = b"
  by (induction a b rule: list_induct2) (simp_all add: xor_bytes_def flip: xor.assoc)

section \<open>Word facts\<close>

lemma u8_u32_u8 [simp]: "(ucast (ucast (x :: u8) :: u32) :: u8) = x"
  by (rule bit_word_eqI) (simp add: bit_simps)

lemma u8_u16_u8 [simp]: "(ucast (ucast (x :: u8) :: u16) :: u8) = x"
  by (rule bit_word_eqI) (simp add: bit_simps)

lemma mask_255: "(0xff :: 'a::len word) = mask 8"
  by (simp add: mask_eq_exp_minus_1)

lemma ucast_and_255 [simp]: "(ucast (v AND 255 :: u32) :: u8) = ucast v"
  by (rule bit_word_eqI) (simp add: bit_simps mask_255)

lemma unat_u8_lt [simp]: "unat (x :: u8) < 256"
  using unsigned_less [of x] by simp

lemma unat_u32_lt: "unat (x :: u32) < 4294967296"
  using unsigned_less [of x] by simp

lemma u32_below_4: "unat (w :: u32) < 4 \<Longrightarrow> w = 0 \<or> w = 1 \<or> w = 2 \<or> w = 3"
  unfolding word_unat_eq_iff by simp arith

lemma unat_and_255 [simp]: "unat ((x :: u32) AND 255) < 256"
  using word_and_le1 [of x 255] by (simp add: word_le_nat_alt)

lemma mem_get_nat: "n < length m \<Longrightarrow> mem_get m (int n) = Some (m ! n)"
  by (simp add: mem_get_def)

lemma sint_small:
  assumes "unat (w :: u32) = n" and "n < 2 ^ 31"
  shows "sint w = int n"
proof -
  have "uint w = int n" using assms(1) uint_nat [of w] by simp
  moreover have "signed_take_bit 31 (int n) = int n"
    by (rule signed_take_bit_int_eq_self) (use assms(2) in simp_all)
  ultimately show ?thesis by (simp add: sint_uint)
qed

lemma unat_ucast_up:
  assumes "LENGTH('a) \<le> LENGTH('b)"
  shows "unat (ucast (x :: 'a::len word) :: 'b::len word) = unat x"
proof -
  have "unat x < 2 ^ LENGTH('a)" by simp
  also have "\<dots> \<le> (2 :: nat) ^ LENGTH('b)" using assms by (rule power_increasing) simp
  finally show ?thesis by (simp add: unsigned_ucast_eq take_bit_nat_eq_self)
qed

lemma unat_ucast_ups [simp]:
  "unat (ucast (x :: u8) :: u32) = unat x"
  "unat (ucast (y :: u16) :: u32) = unat y"
  "unat (ucast (x :: u8) :: u16) = unat x"
  by (simp_all add: unat_ucast_up)

lemma unat_sub_exact:
  assumes "unat (t :: 'a::len word) = unat h + n"
  shows "unat (t - h) = n"
  using assms by (subst unat_sub) (auto simp: word_le_nat_alt)

end
