(* ===== verification/Mac_Id.thy ===== *)
theory Mac_Id
  imports Drv_Prelude
begin

text \<open>
  The firmware MAC-ID table shared by the interfaces (\<open>struct macid_ctl_t\<close> of
  \<open>include/drv_types.h\<close>; \<open>rtw_macid_*\<close>, \<open>rtw_alloc_macid\<close>,
  \<open>rtw_release_macid\<close>, \<open>rtw_search_max_mac_id\<close> of
  \<open>core/rtw_wlan_util.c\<close>), built with \<open>MACID_NUM_SW_LIMIT\<close> 32, so a
  \<open>struct macid_bmp\<close> is one 32-bit word. A station is named by its slot in the
  station table. The lemmas show that an allocated id is free before and owned after.
\<close>

definition ETH_ALEN :: nat where "ETH_ALEN = 6"
definition bc_addr :: bytes where "bc_addr = [0xff, 0xff, 0xff, 0xff, 0xff, 0xff]"

definition eth_eq :: "bytes \<Rightarrow> bytes \<Rightarrow> bool" where
  "eth_eq a b \<longleftrightarrow> take ETH_ALEN a = take ETH_ALEN b"

definition IS_MCAST :: "bytes \<Rightarrow> bool" where
  "IS_MCAST a \<longleftrightarrow> a ! 0 AND 0x01 \<noteq> 0"

definition IFACE_ID_MAX :: nat where "IFACE_ID_MAX = 4"
definition MACID_NUM_SW_LIMIT :: nat where "MACID_NUM_SW_LIMIT = 32"

type_synonym macid_bmp = u32

record macid_ctl_t =
  macid_num :: u8
  macid_used :: macid_bmp
  macid_bmc :: macid_bmp
  macid_if_g :: "macid_bmp list"
  macid_ch_g :: "macid_bmp list"
  macid_h2c_msr :: bytes
  macid_sta :: "nat option list"

section \<open>Bitmaps\<close>

definition rtw_macid_is_set :: "macid_bmp \<Rightarrow> u8 \<Rightarrow> bool" where
  "rtw_macid_is_set m i = (if i < 32 then m AND push_bit (unat i) 1 \<noteq> 0 else False)"

definition rtw_macid_map_set :: "macid_bmp \<Rightarrow> u8 \<Rightarrow> macid_bmp" where
  "rtw_macid_map_set m i = (if i < 32 then m OR push_bit (unat i) 1 else m)"

definition rtw_macid_map_clr :: "macid_bmp \<Rightarrow> u8 \<Rightarrow> macid_bmp" where
  "rtw_macid_map_clr m i = (if i < 32 then m AND NOT (push_bit (unat i) 1) else m)"

definition rtw_macid_is_used :: "macid_ctl_t \<Rightarrow> u8 \<Rightarrow> bool" where
  "rtw_macid_is_used ctl i = rtw_macid_is_set (macid_used ctl) i"

definition rtw_macid_is_bmc :: "macid_ctl_t \<Rightarrow> u8 \<Rightarrow> bool" where
  "rtw_macid_is_bmc ctl i = rtw_macid_is_set (macid_bmc ctl) i"

text \<open>The first position of a list of maps that holds the id, or -1.\<close>

fun first_set :: "macid_bmp list \<Rightarrow> u8 \<Rightarrow> int \<Rightarrow> int" where
  "first_set [] i k = -1"
| "first_set (m # ms) i k = (if rtw_macid_is_set m i then k else first_set ms i (k + 1))"

definition rtw_macid_get_if_g :: "macid_ctl_t \<Rightarrow> u8 \<Rightarrow> int" where
  "rtw_macid_get_if_g ctl i = (if rtw_macid_is_bmc ctl i then -1 else first_set (macid_if_g ctl) i 0)"

definition rtw_macid_get_ch_g :: "macid_ctl_t \<Rightarrow> u8 \<Rightarrow> int" where
  "rtw_macid_get_ch_g ctl i = first_set (macid_ch_g ctl) i 0"

section \<open>Allocation\<close>

text \<open>
  The search loop: id 1 is the shared broadcast id and is skipped; the result is the
  value of \<open>i\<close> when the loop is left. \<open>last_id\<close> is always 0.
\<close>

function macid_scan :: "macid_ctl_t \<Rightarrow> nat \<Rightarrow> nat" where
  "macid_scan ctl i =
     (if i < unat (macid_num ctl)
      then if i = 1 then macid_scan ctl (i + 1)
           else if \<not> rtw_macid_is_used ctl (of_nat i) then i
           else macid_scan ctl (i + 1)
      else i)"
  by auto
termination by (relation "measure (\<lambda>(ctl, i). unat (macid_num ctl) - i)") auto

declare macid_scan.simps [simp del]

definition if_g_set :: "macid_ctl_t \<Rightarrow> nat \<Rightarrow> u8 \<Rightarrow> macid_ctl_t" where
  "if_g_set ctl iface i =
     ctl\<lparr>macid_if_g := (macid_if_g ctl)[iface := rtw_macid_map_set (macid_if_g ctl ! iface) i]\<rparr>"

text \<open>
  Returns the table and the new \<open>mac_id\<close> of the station. \<open>self\<close> is
  \<open>adapter_mac_addr(padapter)\<close> and \<open>iface\<close> is \<open>padapter->iface_id\<close>.
\<close>

definition rtw_alloc_macid ::
    "bytes \<Rightarrow> nat \<Rightarrow> macid_ctl_t \<Rightarrow> nat \<Rightarrow> bytes \<Rightarrow> macid_ctl_t \<times> u32" where
  "rtw_alloc_macid self iface ctl psta hwaddr =
     (if eth_eq hwaddr self then (ctl, ucast (macid_num ctl))
      else if eth_eq hwaddr bc_addr
      then let ctl = ctl\<lparr>macid_used := rtw_macid_map_set (macid_used ctl) 1\<rparr>;
               ctl = ctl\<lparr>macid_bmc := rtw_macid_map_set (macid_bmc ctl) 1\<rparr>;
               ctl = foldl (\<lambda>ctl i. if_g_set ctl iface 1) ctl [0..<IFACE_ID_MAX];
               ctl = ctl\<lparr>macid_sta := (macid_sta ctl)[1 := Some psta]\<rparr>
           in (ctl, 1)
      else let i = macid_scan ctl 0
           in if i < unat (macid_num ctl)
              then let ctl = ctl\<lparr>macid_used := rtw_macid_map_set (macid_used ctl) (of_nat i)\<rparr>;
                       ctl = (if eth_eq hwaddr bc_addr
                              then ctl\<lparr>macid_bmc := rtw_macid_map_set (macid_bmc ctl) (of_nat i)\<rparr> else ctl);
                       ctl = if_g_set ctl iface (of_nat i);
                       ctl = ctl\<lparr>macid_sta := (macid_sta ctl)[i := Some psta]\<rparr>
                   in (ctl, of_nat i)
              else (ctl, ucast (macid_num ctl)))"

text \<open>Returns the table and the \<open>mac_id\<close> the station is left with.\<close>

definition rtw_release_macid ::
    "bytes \<Rightarrow> macid_ctl_t \<Rightarrow> bytes \<Rightarrow> u32 \<Rightarrow> macid_ctl_t \<times> u32" where
  "rtw_release_macid self ctl hwaddr mac_id =
     (if eth_eq hwaddr self then (ctl, mac_id)
      else if eth_eq hwaddr bc_addr then (ctl, mac_id)
      else if mac_id = 1 then (ctl, mac_id)
      else
        (if mac_id < ucast (macid_num ctl)
         then ctl\<lparr>macid_used := rtw_macid_map_clr (macid_used ctl) (ucast mac_id),
                  macid_bmc := rtw_macid_map_clr (macid_bmc ctl) (ucast mac_id),
                  macid_if_g := map (\<lambda>m. rtw_macid_map_clr m (ucast mac_id)) (macid_if_g ctl),
                  macid_ch_g := map (\<lambda>m. rtw_macid_map_clr m (ucast mac_id)) (macid_ch_g ctl),
                  macid_sta := (macid_sta ctl)[unat mac_id := None]\<rparr>
         else ctl,
         ucast (macid_num ctl)))"

text \<open>The loop from the top downwards, left at the first id that is not in use.\<close>

fun max_scan :: "macid_ctl_t \<Rightarrow> nat \<Rightarrow> nat" where
  "max_scan ctl 0 = 0"
| "max_scan ctl (Suc i) = (if \<not> rtw_macid_is_used ctl (of_nat (Suc i)) then Suc i else max_scan ctl i)"

definition rtw_search_max_mac_id :: "macid_ctl_t \<Rightarrow> u8" where
  "rtw_search_max_mac_id ctl = of_nat (max_scan ctl (unat (macid_num ctl) - 1))"

definition rtw_macid_ctl_set_h2c_msr :: "macid_ctl_t \<Rightarrow> u8 \<Rightarrow> u8 \<Rightarrow> macid_ctl_t" where
  "rtw_macid_ctl_set_h2c_msr ctl i h2c_msr =
     (if i \<ge> macid_num ctl then ctl
      else ctl\<lparr>macid_h2c_msr := (macid_h2c_msr ctl)[unat i := h2c_msr]\<rparr>)"

section \<open>Bitmap laws\<close>

lemma and_single_bit: "m AND push_bit n 1 \<noteq> 0 \<longleftrightarrow> bit m n" if "n < LENGTH('a)" for m :: "'a::len word"
proof -
  have "m AND push_bit n 1 = 0 \<longleftrightarrow> \<not> bit m n"
  proof
    assume "m AND push_bit n 1 = 0"
    then have "\<not> bit (m AND push_bit n 1) n" by simp
    then show "\<not> bit m n" using that by (simp add: bit_simps)
  next
    assume "\<not> bit m n"
    then show "m AND push_bit n 1 = 0" by (auto intro!: bit_word_eqI simp: bit_simps)
  qed
  then show ?thesis by simp
qed

lemma u8_lt_32: "(i :: u8) < 32 \<longleftrightarrow> unat i < 32"
  by (simp add: word_less_nat_alt)

lemma is_set_iff: "rtw_macid_is_set m i \<longleftrightarrow> unat i < 32 \<and> bit m (unat i)"
  using and_single_bit [of "unat i" m] by (auto simp: rtw_macid_is_set_def u8_lt_32)

lemma map_set_bit: "bit (rtw_macid_map_set m i) n \<longleftrightarrow> bit m n \<or> (n = unat i \<and> n < 32)"
  by (auto simp: rtw_macid_map_set_def u8_lt_32 bit_simps)

lemma map_clr_bit: "bit (rtw_macid_map_clr m i) n \<longleftrightarrow> bit m n \<and> n \<noteq> unat i"
  by (auto simp: rtw_macid_map_clr_def u8_lt_32 bit_simps dest: bit_imp_le_length)

section \<open>The table invariant\<close>

definition macid_ok :: "macid_ctl_t \<Rightarrow> bool" where
  "macid_ok ctl \<longleftrightarrow>
     1 < unat (macid_num ctl) \<and> unat (macid_num ctl) \<le> MACID_NUM_SW_LIMIT \<and>
     length (macid_sta ctl) = MACID_NUM_SW_LIMIT \<and> length (macid_if_g ctl) = IFACE_ID_MAX \<and>
     length (macid_ch_g ctl) = 2 \<and>
     (\<forall>n < MACID_NUM_SW_LIMIT. bit (macid_used ctl) n \<longleftrightarrow> macid_sta ctl ! n \<noteq> None)"

lemma unat_of_nat_u8: "n < 256 \<Longrightarrow> unat (of_nat n :: u8) = n"
  by (simp add: unat_of_nat take_bit_nat_eq_self)

lemma is_used_iff:
  "n < 32 \<Longrightarrow> rtw_macid_is_used ctl (of_nat n) \<longleftrightarrow> bit (macid_used ctl) n"
  by (simp add: rtw_macid_is_used_def is_set_iff unat_of_nat_u8)

text \<open>
  What the search promises: the least id from \<open>i\<close> on that is neither 1 nor in
  use, or the end of the table when every one is taken.
\<close>

definition scan_result :: "macid_ctl_t \<Rightarrow> nat \<Rightarrow> nat \<Rightarrow> bool" where
  "scan_result ctl i r \<longleftrightarrow>
     i \<le> r \<and> r \<le> unat (macid_num ctl) \<and>
     (r < unat (macid_num ctl) \<longrightarrow> r \<noteq> 1 \<and> \<not> bit (macid_used ctl) r) \<and>
     (\<forall>j. i \<le> j \<and> j < r \<and> j \<noteq> 1 \<longrightarrow> bit (macid_used ctl) j)"

lemma scan_result_step:
  assumes "scan_result ctl (i + 1) r" and "i = 1 \<or> bit (macid_used ctl) i"
  shows "scan_result ctl i r"
proof -
  have "bit (macid_used ctl) j" if "i \<le> j" "j < r" "j \<noteq> 1" for j
    using that assms by (cases "j = i") (auto simp: scan_result_def)
  then show ?thesis using assms by (simp add: scan_result_def)
qed

lemma macid_scan_found:
  assumes "unat (macid_num ctl) \<le> 32" and "i \<le> unat (macid_num ctl)"
  shows "scan_result ctl i (macid_scan ctl i)"
  using assms
proof (induction ctl i rule: macid_scan.induct)
  case (1 ctl i)
  show ?case
  proof (cases "i < unat (macid_num ctl)")
    case False
    then have "macid_scan ctl i = i" by (subst macid_scan.simps) simp
    then show ?thesis using "1.prems" False by (auto simp: scan_result_def)
  next
    case True
    then have i: "i < 32" using "1.prems" by simp
    show ?thesis
    proof (cases "i \<noteq> 1 \<and> \<not> bit (macid_used ctl) i")
      case hit: True
      then have "macid_scan ctl i = i" using True i by (subst macid_scan.simps) (simp add: is_used_iff)
      then show ?thesis using hit "1.prems" by (auto simp: scan_result_def)
    next
      case skip: False
      then have step: "macid_scan ctl i = macid_scan ctl (i + 1)"
        using True i by (subst macid_scan.simps) (auto simp: is_used_iff)
      have "scan_result ctl (i + 1) (macid_scan ctl (i + 1))"
      proof (cases "i = 1")
        case one: True
        show ?thesis by (rule "1.IH"(1)) (use True one "1.prems" in auto)
      next
        case False
        show ?thesis by (rule "1.IH"(2)) (use True False skip i "1.prems" in \<open>auto simp: is_used_iff\<close>)
      qed
      then show ?thesis using skip unfolding step by (auto intro: scan_result_step)
    qed
  qed
qed

lemma if_g_set_fields [simp]:
  "macid_num (if_g_set ctl f i) = macid_num ctl"
  "macid_used (if_g_set ctl f i) = macid_used ctl"
  "macid_sta (if_g_set ctl f i) = macid_sta ctl"
  "macid_ch_g (if_g_set ctl f i) = macid_ch_g ctl"
  "length (macid_if_g (if_g_set ctl f i)) = length (macid_if_g ctl)"
  by (simp_all add: if_g_set_def)

lemma if_g_sets_fields [simp]:
  "macid_num (foldl (\<lambda>ctl i. if_g_set ctl f j) ctl is) = macid_num ctl"
  "macid_used (foldl (\<lambda>ctl i. if_g_set ctl f j) ctl is) = macid_used ctl"
  "macid_sta (foldl (\<lambda>ctl i. if_g_set ctl f j) ctl is) = macid_sta ctl"
  "macid_ch_g (foldl (\<lambda>ctl i. if_g_set ctl f j) ctl is) = macid_ch_g ctl"
  "length (macid_if_g (foldl (\<lambda>ctl i. if_g_set ctl f j) ctl is)) = length (macid_if_g ctl)"
  by (induction "is" arbitrary: ctl) simp_all

lemma alloc_macid_num [simp]: "macid_num (fst (rtw_alloc_macid self f ctl p hw)) = macid_num ctl"
  by (simp add: rtw_alloc_macid_def Let_def)

lemma release_macid_num [simp]: "macid_num (fst (rtw_release_macid self ctl hw m)) = macid_num ctl"
  by (simp add: rtw_release_macid_def)

lemma alloc_macid_self:
  "eth_eq hw self \<Longrightarrow> rtw_alloc_macid self f ctl p hw = (ctl, ucast (macid_num ctl))"
  by (simp add: rtw_alloc_macid_def)

lemma alloc_macid_bc:
  assumes "macid_ok ctl" and "\<not> eth_eq hw self" and "eth_eq hw bc_addr"
  shows "snd (rtw_alloc_macid self f ctl p hw) = 1"
    and "macid_sta (fst (rtw_alloc_macid self f ctl p hw)) = (macid_sta ctl)[1 := Some p]"
    and "macid_ok (fst (rtw_alloc_macid self f ctl p hw))"
  using assms
  by (auto simp: rtw_alloc_macid_def Let_def macid_ok_def map_set_bit nth_list_update MACID_NUM_SW_LIMIT_def)

lemma alloc_macid_unicast:
  assumes "macid_ok ctl" and "\<not> eth_eq hw self" and "\<not> eth_eq hw bc_addr"
  obtains (free) i where "i < unat (macid_num ctl)" "i \<noteq> 1" "macid_sta ctl ! i = None"
      "snd (rtw_alloc_macid self f ctl p hw) = of_nat i"
      "macid_sta (fst (rtw_alloc_macid self f ctl p hw)) = (macid_sta ctl)[i := Some p]"
      "macid_ok (fst (rtw_alloc_macid self f ctl p hw))"
    | (full) "rtw_alloc_macid self f ctl p hw = (ctl, ucast (macid_num ctl))"
      "\<forall>i < unat (macid_num ctl). i \<noteq> 1 \<longrightarrow> macid_sta ctl ! i \<noteq> None"
proof -
  let ?i = "macid_scan ctl 0"
  have lim: "unat (macid_num ctl) \<le> 32" using assms(1) by (simp add: macid_ok_def MACID_NUM_SW_LIMIT_def)
  then have scan: "scan_result ctl 0 ?i" by (intro macid_scan_found) simp_all
  show thesis
  proof (cases "?i < unat (macid_num ctl)")
    case True
    then have i: "?i < 32" "unat (of_nat ?i :: u8) = ?i" using lim by (simp_all add: unat_of_nat_u8)
    have free_i: "?i \<noteq> 1" "macid_sta ctl ! ?i = None"
      using scan True assms(1) i by (auto simp: scan_result_def macid_ok_def MACID_NUM_SW_LIMIT_def)
    show thesis
    proof (rule free [of ?i])
      show "macid_ok (fst (rtw_alloc_macid self f ctl p hw))"
        using assms True i
        by (auto simp: rtw_alloc_macid_def Let_def macid_ok_def map_set_bit nth_list_update
            MACID_NUM_SW_LIMIT_def)
    qed (use assms(2,3) True free_i in \<open>simp_all add: rtw_alloc_macid_def Let_def\<close>)
  next
    case False
    show thesis
    proof (rule full)
      show "rtw_alloc_macid self f ctl p hw = (ctl, ucast (macid_num ctl))"
        using assms(2,3) False by (simp add: rtw_alloc_macid_def Let_def)
      show "\<forall>i < unat (macid_num ctl). i \<noteq> 1 \<longrightarrow> macid_sta ctl ! i \<noteq> None"
        using scan False assms(1) lim by (auto simp: scan_result_def macid_ok_def MACID_NUM_SW_LIMIT_def)
    qed
  qed
qed

lemma release_macid_own:
  assumes "macid_ok ctl" and "\<not> eth_eq hw self" and "\<not> eth_eq hw bc_addr" and "m \<noteq> 1"
    and "unat m < unat (macid_num ctl)"
  shows "macid_sta (fst (rtw_release_macid self ctl hw m)) = (macid_sta ctl)[unat m := None]"
    and "snd (rtw_release_macid self ctl hw m) = ucast (macid_num ctl)"
    and "macid_ok (fst (rtw_release_macid self ctl hw m))"
proof -
  have lim: "unat (macid_num ctl) \<le> 32" using assms(1) by (simp add: macid_ok_def MACID_NUM_SW_LIMIT_def)
  have lt: "m < ucast (macid_num ctl)" using assms(5) by (simp add: word_less_nat_alt)
  have "unat (ucast m :: u8) = unat m"
    using assms(5) lim by (simp add: unsigned_ucast_eq take_bit_nat_eq_self)
  then show "macid_ok (fst (rtw_release_macid self ctl hw m))"
    using assms lt
    by (auto simp: rtw_release_macid_def macid_ok_def map_clr_bit nth_list_update MACID_NUM_SW_LIMIT_def)
  show "macid_sta (fst (rtw_release_macid self ctl hw m)) = (macid_sta ctl)[unat m := None]"
    and "snd (rtw_release_macid self ctl hw m) = ucast (macid_num ctl)"
    using assms lt by (simp_all add: rtw_release_macid_def)
qed

lemma release_macid_none:
  assumes "\<not> unat m < unat (macid_num ctl)"
  shows "fst (rtw_release_macid self ctl hw m) = ctl"
  using assms by (simp add: rtw_release_macid_def word_less_nat_alt)

lemma release_macid_shared:
  "eth_eq hw self \<or> eth_eq hw bc_addr \<or> m = 1 \<Longrightarrow> rtw_release_macid self ctl hw m = (ctl, m)"
  by (auto simp: rtw_release_macid_def)

section \<open>Properties\<close>

text \<open>
  On a consistent table a unicast station is given an id that was free, is not the
  broadcast id 1 and is recorded as its own, and releasing it afterwards makes exactly
  the owners that were there before; when no id is left the station gets the
  out-of-range value \<open>num\<close> and the table is unchanged.
\<close>

theorem macid_alloc_release:
  assumes "macid_ok ctl" and "\<not> eth_eq hw self" and "\<not> eth_eq hw bc_addr"
    and "rtw_alloc_macid self f ctl p hw = (ctl1, m)"
  shows "macid_ok ctl1 \<and>
    (if unat m < unat (macid_num ctl)
     then m \<noteq> 1 \<and> macid_sta ctl ! unat m = None \<and> macid_sta ctl1 = (macid_sta ctl)[unat m := Some p] \<and>
          macid_ok (fst (rtw_release_macid self ctl1 hw m)) \<and>
          macid_sta (fst (rtw_release_macid self ctl1 hw m)) = macid_sta ctl
     else ctl1 = ctl \<and> m = ucast (macid_num ctl) \<and>
          (\<forall>i < unat (macid_num ctl). i \<noteq> 1 \<longrightarrow> macid_sta ctl ! i \<noteq> None))"
  using assms(1-3)
proof (cases rule: alloc_macid_unicast [where f = f and p = p])
  case (free i)
  have lim: "unat (macid_num ctl) \<le> 32" using assms(1) by (simp add: macid_ok_def MACID_NUM_SW_LIMIT_def)
  have m: "m = of_nat i" "unat m = i" using free(1,4) assms(4) lim by (simp_all add: unat_of_nat take_bit_nat_eq_self)
  have ctl1: "macid_ok ctl1" "macid_sta ctl1 = (macid_sta ctl)[i := Some p]" "macid_num ctl1 = macid_num ctl"
    using free(5,6) assms(4) alloc_macid_num [of self f ctl p hw] by simp_all
  have "m \<noteq> 1" using m(2) free(2) by auto
  then show ?thesis
    using release_macid_own [OF ctl1(1) assms(2,3), of m] ctl1 free(1,3) m
    by (simp add: list_update_id [of "macid_sta ctl" i, unfolded free(3)])
next
  case full
  then show ?thesis using assms(1,4) by simp
qed

definition macid_ex :: macid_ctl_t where
  "macid_ex = \<lparr>macid_num = 16, macid_used = 1, macid_bmc = 0, macid_if_g = [1, 0, 0, 0],
     macid_ch_g = [0, 0], macid_h2c_msr = [], macid_sta = Some 3 # replicate 31 None\<rparr>"

lemma macid_ex_ok: "macid_ok macid_ex"
  by (auto simp: macid_ok_def macid_ex_def MACID_NUM_SW_LIMIT_def IFACE_ID_MAX_def bit_1_iff nth_Cons
      split: nat.splits)

lemma addr_ex:
  "\<not> eth_eq [4, 4, 4, 4, 4, 4] [2, 2, 2, 2, 2, 2]" "\<not> eth_eq [4, 4, 4, 4, 4, 4] bc_addr"
  by (simp_all add: eth_eq_def bc_addr_def ETH_ALEN_def)

theorem macid_alloc_release_witness:
  "\<exists>ctl1. rtw_alloc_macid [2, 2, 2, 2, 2, 2] 0 macid_ex 9 [4, 4, 4, 4, 4, 4] = (ctl1, 2) \<and>
     macid_ok ctl1 \<and> macid_sta ctl1 = (macid_sta macid_ex)[2 := Some 9] \<and>
     macid_sta (fst (rtw_release_macid [2, 2, 2, 2, 2, 2] ctl1 [4, 4, 4, 4, 4, 4] 2)) = macid_sta macid_ex"
proof -
  obtain ctl1 m where a: "rtw_alloc_macid [2, 2, 2, 2, 2, 2] 0 macid_ex 9 [4, 4, 4, 4, 4, 4] = (ctl1, m)"
    by fastforce
  have "macid_scan macid_ex 0 = 2"
    by (simp add: macid_scan.simps rtw_macid_is_used_def is_set_iff macid_ex_def)
  then have m: "m = 2" using a addr_ex by (auto simp: rtw_alloc_macid_def Let_def macid_ex_def)
  have n: "macid_num macid_ex = 16" by (simp add: macid_ex_def)
  show ?thesis using macid_alloc_release [OF macid_ex_ok addr_ex a] a m by (simp add: n)
qed

end
