(* ===== verification/St_Ctl.thy ===== *)
theory St_Ctl
  imports Drv_Prelude
begin

text \<open>
  The per-station session tracker registry (\<open>struct st_ctl_t\<close> of
  \<open>include/sta_info.h\<close>; \<open>rtw_st_ctl_*\<close> of \<open>core/rtw_sta_mgt.c\<close>): which
  protocols are tracked, by which match rule, and the queue of tracked sessions. A match
  rule is a function pointer of the driver, so it is a function here, of the adapter's
  Wi-Fi Display state (all that a rule of the driver reads of the adapter) and of the four
  address arguments.
\<close>

record wifi_display_info =
  rtsp_ctrlport :: u16
  tdls_rtsp_ctrlport :: u16
  peer_rtsp_ctrlport :: u16
  wfd_op_mode :: u8

type_synonym st_match_rule =
  "wifi_display_info \<Rightarrow> bytes \<Rightarrow> bytes \<Rightarrow> bytes \<Rightarrow> bytes \<Rightarrow> bool"

definition SESSION_TRACKER_REG_ID_NUM :: nat where "SESSION_TRACKER_REG_ID_NUM = 1"

record st_register =
  s_proto :: u8
  rule :: "st_match_rule option"

record session_tracker =
  local_naddr :: u32
  local_port :: u16
  remote_naddr :: u32
  remote_port :: u16
  set_time :: u32
  status :: u8

record st_ctl_t =
  st_reg :: "st_register list"
  tracker_q :: "session_tracker list"

definition st_register_zero :: st_register where
  "st_register_zero = \<lparr>s_proto = 0, rule = None\<rparr>"

definition rtw_st_ctl_init :: st_ctl_t where
  "rtw_st_ctl_init =
     \<lparr>st_reg = replicate SESSION_TRACKER_REG_ID_NUM st_register_zero, tracker_q = []\<rparr>"

definition rtw_st_ctl_clear_tracker_q :: "st_ctl_t \<Rightarrow> st_ctl_t" where
  "rtw_st_ctl_clear_tracker_q ctl = ctl\<lparr>tracker_q := []\<rparr>"

definition rtw_st_ctl_deinit :: "st_ctl_t \<Rightarrow> st_ctl_t" where
  "rtw_st_ctl_deinit ctl = rtw_st_ctl_clear_tracker_q ctl"

definition rtw_st_ctl_register :: "st_ctl_t \<Rightarrow> u8 \<Rightarrow> st_register \<Rightarrow> st_ctl_t" where
  "rtw_st_ctl_register ctl i r =
     (if SESSION_TRACKER_REG_ID_NUM \<le> unat i then ctl
      else ctl\<lparr>st_reg := (st_reg ctl)[unat i := \<lparr>s_proto = s_proto r, rule = rule r\<rparr>]\<rparr>)"

definition rtw_st_ctl_unregister :: "st_ctl_t \<Rightarrow> u8 \<Rightarrow> st_ctl_t" where
  "rtw_st_ctl_unregister ctl i =
     (if SESSION_TRACKER_REG_ID_NUM \<le> unat i then ctl
      else let ctl = ctl\<lparr>st_reg := (st_reg ctl)[unat i := \<lparr>s_proto = 0, rule = None\<rparr>]\<rparr>
           in if list_all (\<lambda>r. s_proto r = 0) (st_reg ctl)
              then rtw_st_ctl_clear_tracker_q ctl else ctl)"

definition rtw_st_ctl_chk_reg_s_proto :: "st_ctl_t \<Rightarrow> u8 \<Rightarrow> bool" where
  "rtw_st_ctl_chk_reg_s_proto ctl p = list_ex (\<lambda>r. s_proto r = p) (st_reg ctl)"

definition rtw_st_ctl_chk_reg_rule ::
    "st_ctl_t \<Rightarrow> wifi_display_info \<Rightarrow> bytes \<Rightarrow> bytes \<Rightarrow> bytes \<Rightarrow> bytes \<Rightarrow> bool" where
  "rtw_st_ctl_chk_reg_rule ctl wfd la lp ra rp =
     list_ex (\<lambda>r. case rule r of None \<Rightarrow> False | Some f \<Rightarrow> f wfd la lp ra rp) (st_reg ctl)"

text \<open>\<open>ntohs\<close> of a port stored in network order.\<close>

definition ntohs_bytes :: "bytes \<Rightarrow> u16" where
  "ntohs_bytes p = push_bit 8 (ucast (p ! 0)) OR ucast (p ! 1)"

definition test_st_match_rule :: st_match_rule where
  "test_st_match_rule wfd la lp ra rp \<longleftrightarrow> ntohs_bytes lp = 5001 \<or> ntohs_bytes rp = 5001"

definition test_st_reg :: st_register where
  "test_st_reg = \<lparr>s_proto = 6, rule = Some test_st_match_rule\<rparr>"

text \<open>The rule of the Wi-Fi Display session (\<open>core/rtw_mlme.c\<close>).\<close>

definition wfd_st_match_rule :: st_match_rule where
  "wfd_st_match_rule wfd la lp ra rp \<longleftrightarrow>
     ntohs_bytes lp = rtsp_ctrlport wfd \<or> ntohs_bytes lp = tdls_rtsp_ctrlport wfd \<or>
     ntohs_bytes rp = peer_rtsp_ctrlport wfd"

definition wfd_st_reg :: st_register where
  "wfd_st_reg = \<lparr>s_proto = 6, rule = Some wfd_st_match_rule\<rparr>"

definition rtw_wfd_st_switch :: "st_ctl_t \<Rightarrow> bool \<Rightarrow> st_ctl_t" where
  "rtw_wfd_st_switch ctl on =
     (if on then rtw_st_ctl_register ctl 0 wfd_st_reg else rtw_st_ctl_unregister ctl 0)"

definition st_ctl_ok :: "st_ctl_t \<Rightarrow> bool" where
  "st_ctl_ok ctl \<longleftrightarrow> length (st_reg ctl) = SESSION_TRACKER_REG_ID_NUM \<and>
     (list_all (\<lambda>r. s_proto r = 0) (st_reg ctl) \<longrightarrow> tracker_q ctl = [])"

lemma st_ctl_init_ok: "st_ctl_ok rtw_st_ctl_init"
  by (simp add: st_ctl_ok_def rtw_st_ctl_init_def)

text \<open>Leaving no protocol registered never leaves sessions behind.\<close>

lemma st_ctl_unregister_ok: "st_ctl_ok ctl \<Longrightarrow> st_ctl_ok (rtw_st_ctl_unregister ctl i)"
  by (auto simp: st_ctl_ok_def rtw_st_ctl_unregister_def rtw_st_ctl_clear_tracker_q_def Let_def)

lemma st_ctl_register_ok:
  "st_ctl_ok ctl \<Longrightarrow> s_proto r \<noteq> 0 \<Longrightarrow> st_ctl_ok (rtw_st_ctl_register ctl i r)"
  by (cases "unat i") (auto simp: st_ctl_ok_def rtw_st_ctl_register_def SESSION_TRACKER_REG_ID_NUM_def
      length_Suc_conv)

end
