(* ===== verification/Sta_Mgt.thy ===== *)
theory Sta_Mgt
  imports Mac_Id St_Ctl
begin

text \<open>
  The station table (\<open>core/rtw_sta_mgt.c\<close>, \<open>struct sta_info\<close> and
  \<open>struct sta_priv\<close> of \<open>include/sta_info.h\<close>): 32 preallocated slots, a free
  queue, and 32 hash buckets by MAC address. A \<open>struct sta_info *\<close> is the number of
  its slot, which is what \<open>rtw_stainfo_offset\<close> computes; a list of the kernel is the
  list of the slots linked on it, so \<open>rtw_list_delete\<close> (\<open>list_del_init\<close>)
  removes a slot from whichever list of that kind holds it. Calls into the timers, the frame
  pools, the OS queues and the DM layer leave an entry in \<open>drv_calls\<close>; spinlocks are
  not modelled, every operation is one critical section.
\<close>

section \<open>Data\<close>

definition NUM_STA :: nat where "NUM_STA = 32"
definition TID_NUM :: nat where "TID_NUM = 16"
definition FW_LINKED :: u32 where "FW_LINKED = 0x1"
definition WIFI_AP_STATE :: u32 where "WIFI_AP_STATE = 0x10"
definition RX_AMPDU_SIZE_INVALID :: u8 where "RX_AMPDU_SIZE_INVALID = 0xFF"

record tx_servq =
  sta_pending :: "nat list"
  qcnt :: int

record sta_xmit_priv =
  be_q :: tx_servq
  bk_q :: tx_servq
  vi_q :: tx_servq
  vo_q :: tx_servq

record sta_recv_priv =
  defrag_q :: "nat list"
  tid_rxseq :: "u16 list"

record recv_reorder_ctrl =
  ro_enable :: u8
  indicate_seq :: u16
  wend_b :: u16
  wsize_b :: u8
  ampdu_size :: u8
  pending_recvframe_queue :: "nat list"
  bReorderWaiting :: u8

record stainfo_stats =
  st_rx_data_pkts :: u64
  st_rx_bytes :: u64
  st_rx_data_qos_pkts :: "u64 list"

record sta_info =
  sta_xmitpriv :: sta_xmit_priv
  sta_recvpriv :: sta_recv_priv
  sleep_frames :: "nat list"
  sleepq_len :: u32
  st_state :: u32
  aid :: u32
  mac_id :: u32
  qos_option :: u32
  hwaddr :: bytes
  ra_rpt_linked :: u8
  ieee8021x_blocked :: u32
  dot118021XPrivacy :: u32
  tkiprxmickey :: bytes
  UncstKey :: bytes
  sta_stats :: stainfo_stats
  recvreorder_ctrl :: "recv_reorder_ctrl list"
  sta_expire_to :: u32
  sta_flags :: u32
  sta_capability :: u16
  bpairwise_key_installed :: u8
  nonerp_set :: u8
  no_short_slot_time_set :: u8
  no_short_preamble_set :: u8
  no_ht_gf_set :: u8
  no_ht_set :: u8
  ht_20mhz_set :: u8
  ht_40mhz_intolerant :: u8
  qos_info :: u8
  max_sp_len :: u8
  uapsd_bk :: u8
  uapsd_be :: u8
  uapsd_vi :: u8
  uapsd_vo :: u8
  has_legacy_ac :: u8
  sleepq_ac_len :: u32
  op_wfd_mode :: u8
  under_exist_checking :: u8
  keep_alive_trycnt :: u8
  UndecoratedSmoothedPWDB :: int
  UndecoratedSmoothedCCK :: int
  RxMgmtFrameSeqNum :: u16
  st_ctl :: st_ctl_t

record acl_node =
  acl_addr :: bytes
  acl_valid :: bool

record sta_priv =
  pstainfo_buf :: "sta_info list"
  free_sta_queue :: "nat list"
  sta_hash :: "nat list list"
  asoc_sta_count :: int
  stas_sleep_q :: "nat list"
  wakeup_q :: "nat list"
  adhoc_expire_to :: u32
  asoc_list :: "nat list"
  auth_list :: "nat list"
  asoc_list_cnt :: u8
  auth_list_cnt :: u8
  auth_to :: u32
  assoc_to :: u32
  expire_to :: u32
  sta_aid :: "nat option list"
  sta_dz_bitmap :: u16
  tim_bitmap :: u16
  max_num_sta :: u16
  acl_mode :: int
  acl_node_q :: "acl_node list"

datatype drv_call =
    Init_addba_retry_timer nat
  | Init_recv_timer nat nat
  | Cancel_addba_retry_timer nat
  | Cancel_reordering_timer nat nat
  | Free_xmitframe nat
  | Free_recvframe nat
  | Wake_queue_at_free_stainfo "int list"
  | Odm_sta_info nat bool
  | Sta_media_status_rpt nat
  | Issue_deauth bytes
  | Stop_sta_xmit nat
  | Wakeup_sta_to_xmit nat
  | Xmit_delivery_enabled_frames nat
  | Issue_qos_nulldata bytes u16
  | Handle_tkip_mic_err nat bool
  | Recv_other_frame nat
  | Recv_frame_monitor nat
  | Mp_recv_frame nat
  | Led_control_rx

text \<open>
  The parts of the adapter (and of the device object behind it) that these operations
  touch. The four hardware queues are in the order vo, vi, be, bk.
\<close>

record adapter =
  mac_addr :: bytes
  iface_id :: nat
  stapriv :: sta_priv
  macid_ctl :: macid_ctl_t
  hw_pending :: "nat list list"
  hw_accnt :: "int list"
  drv_calls :: "drv_call list"

definition call :: "drv_call \<Rightarrow> adapter \<Rightarrow> adapter" where
  "call c s = s\<lparr>drv_calls := drv_calls s @ [c]\<rparr>"

definition calls :: "drv_call list \<Rightarrow> adapter \<Rightarrow> adapter" where
  "calls cs s = s\<lparr>drv_calls := drv_calls s @ cs\<rparr>"

definition sta_of :: "sta_priv \<Rightarrow> nat \<Rightarrow> sta_info" where
  "sta_of sp i = pstainfo_buf sp ! i"

definition upd_sta :: "nat \<Rightarrow> (sta_info \<Rightarrow> sta_info) \<Rightarrow> sta_priv \<Rightarrow> sta_priv" where
  "upd_sta i f sp = sp\<lparr>pstainfo_buf := (pstainfo_buf sp)[i := f (sta_of sp i)]\<rparr>"

definition on_stapriv :: "(sta_priv \<Rightarrow> sta_priv) \<Rightarrow> adapter \<Rightarrow> adapter" where
  "on_stapriv f s = s\<lparr>stapriv := f (stapriv s)\<rparr>"

section \<open>Initial values\<close>

definition init_txservq :: tx_servq where
  "init_txservq = \<lparr>sta_pending = [], qcnt = 0\<rparr>"

definition rtw_init_sta_xmit_priv :: sta_xmit_priv where
  "rtw_init_sta_xmit_priv =
     \<lparr>be_q = init_txservq, bk_q = init_txservq, vi_q = init_txservq, vo_q = init_txservq\<rparr>"

definition rtw_init_sta_recv_priv :: sta_recv_priv where
  "rtw_init_sta_recv_priv = \<lparr>defrag_q = [], tid_rxseq = replicate 16 0\<rparr>"

definition reorder_zero :: recv_reorder_ctrl where
  "reorder_zero = \<lparr>ro_enable = 0, indicate_seq = 0, wend_b = 0, wsize_b = 0, ampdu_size = 0,
     pending_recvframe_queue = [], bReorderWaiting = 0\<rparr>"

text \<open>Everything is cleared first; the explicit assignments of the code repeat that.\<close>

definition rtw_init_stainfo :: sta_info where
  "rtw_init_stainfo =
     \<lparr>sta_xmitpriv = rtw_init_sta_xmit_priv, sta_recvpriv = rtw_init_sta_recv_priv,
      sleep_frames = [], sleepq_len = 0, st_state = 0, aid = 0, mac_id = 0,
      qos_option = 0, hwaddr = replicate ETH_ALEN 0, ra_rpt_linked = 0, ieee8021x_blocked = 0,
      dot118021XPrivacy = 0, tkiprxmickey = replicate 16 0, UncstKey = replicate 16 0,
      sta_stats = \<lparr>st_rx_data_pkts = 0, st_rx_bytes = 0, st_rx_data_qos_pkts = replicate TID_NUM 0\<rparr>,
      recvreorder_ctrl = replicate TID_NUM reorder_zero, sta_expire_to = 0, sta_flags = 0,
      sta_capability = 0, bpairwise_key_installed = 0, nonerp_set = 0, no_short_slot_time_set = 0,
      no_short_preamble_set = 0, no_ht_gf_set = 0, no_ht_set = 0, ht_20mhz_set = 0,
      ht_40mhz_intolerant = 0, qos_info = 0, max_sp_len = 0, uapsd_bk = 0, uapsd_be = 0,
      uapsd_vi = 0, uapsd_vo = 0, has_legacy_ac = 0, sleepq_ac_len = 0, op_wfd_mode = 0,
      under_exist_checking = 0,
      keep_alive_trycnt = 0, UndecoratedSmoothedPWDB = 0, UndecoratedSmoothedCCK = 0,
      RxMgmtFrameSeqNum = 0, st_ctl = rtw_st_ctl_init\<rparr>"

text \<open>\<open>None\<close> when the slots cannot be allocated.\<close>

definition rtw_init_sta_priv :: "bool \<Rightarrow> sta_priv \<Rightarrow> sta_priv option" where
  "rtw_init_sta_priv malloc_ok sp =
     (if \<not> malloc_ok then None
      else Some
        (let sp = sp\<lparr>free_sta_queue := [], asoc_sta_count := 0, stas_sleep_q := [], wakeup_q := [],
                     pstainfo_buf := replicate NUM_STA rtw_init_stainfo\<rparr>;
             sp = foldl (\<lambda>sp i. (upd_sta i (\<lambda>_. rtw_init_stainfo) sp)
                           \<lparr>sta_hash := (sta_hash sp)[i := []],
                            free_sta_queue := free_sta_queue sp @ [i]\<rparr>) sp [0..<NUM_STA]
         in sp\<lparr>adhoc_expire_to := 4, sta_dz_bitmap := 0, tim_bitmap := 0, asoc_list := [],
               auth_list := [], asoc_list_cnt := 0, auth_list_cnt := 0, auth_to := 3, assoc_to := 3,
               expire_to := 60, max_num_sta := of_nat NUM_STA\<rparr>))"

definition stainfo_offset_valid :: "int \<Rightarrow> bool" where
  "stainfo_offset_valid off \<longleftrightarrow> off < int NUM_STA \<and> off \<ge> 0"

section \<open>Lookup\<close>

definition wifi_mac_hash :: "bytes \<Rightarrow> u32" where
  "wifi_mac_hash mac =
     (let x = ucast (mac ! 0);
          x = push_bit 2 x XOR ucast (mac ! 1);
          x = push_bit 2 x XOR ucast (mac ! 2);
          x = push_bit 2 x XOR ucast (mac ! 3);
          x = push_bit 2 x XOR ucast (mac ! 4);
          x = push_bit 2 x XOR ucast (mac ! 5);
          x = x XOR drop_bit 8 x
      in x AND (of_nat NUM_STA - 1))"

text \<open>
  All multicast addresses are looked up under the broadcast address. The walk of the
  bucket stops at the first match.
\<close>

definition lookup_addr :: "bytes \<Rightarrow> bytes" where
  "lookup_addr a = (if IS_MCAST a then bc_addr else a)"

definition rtw_get_stainfo :: "sta_priv \<Rightarrow> bytes option \<Rightarrow> nat option" where
  "rtw_get_stainfo sp hw =
     (case hw of
        None \<Rightarrow> None
      | Some a \<Rightarrow>
          (let addr = lookup_addr a
           in List.find (\<lambda>i. eth_eq (hwaddr (sta_of sp i)) addr)
                (sta_hash sp ! unat (wifi_mac_hash addr))))"

definition rtw_get_bcmc_stainfo :: "adapter \<Rightarrow> nat option" where
  "rtw_get_bcmc_stainfo s = rtw_get_stainfo (stapriv s) (Some bc_addr)"

section \<open>Allocation\<close>

definition init_reorder_ctrl :: "nat \<Rightarrow> adapter \<Rightarrow> nat \<Rightarrow> adapter" where
  "init_reorder_ctrl i s t =
     call (Init_recv_timer i t)
       (on_stapriv (upd_sta i (\<lambda>p. p\<lparr>recvreorder_ctrl := (recvreorder_ctrl p)[t :=
          (recvreorder_ctrl p ! t)
            \<lparr>ro_enable := 0, indicate_seq := 0xffff, wend_b := 0xffff, wsize_b := 64,
             ampdu_size := RX_AMPDU_SIZE_INVALID, pending_recvframe_queue := []\<rparr>]\<rparr>)) s)"

definition alloc_macid_for :: "nat \<Rightarrow> adapter \<Rightarrow> adapter" where
  "alloc_macid_for i s =
     (let (ctl, m) = rtw_alloc_macid (mac_addr s) (iface_id s) (macid_ctl s) i
                       (hwaddr (sta_of (stapriv s) i))
      in (on_stapriv (upd_sta i (\<lambda>p. p\<lparr>mac_id := m\<rparr>)) s)\<lparr>macid_ctl := ctl\<rparr>)"

definition rtw_alloc_stainfo :: "adapter \<Rightarrow> bytes \<Rightarrow> adapter \<times> nat option" where
  "rtw_alloc_stainfo s hw =
     (case free_sta_queue (stapriv s) of
        [] \<Rightarrow> (s, None)
      | i # q \<Rightarrow>
          (let s = on_stapriv (\<lambda>sp. sp\<lparr>free_sta_queue := q\<rparr>) s;
               s = on_stapriv (upd_sta i (\<lambda>_. rtw_init_stainfo\<lparr>hwaddr := take ETH_ALEN hw\<rparr>)) s;
               index = unat (wifi_mac_hash hw)
           in if NUM_STA \<le> index then (s, None)
              else
               (let s = on_stapriv (\<lambda>sp. sp\<lparr>sta_hash := (sta_hash sp)[index := sta_hash sp ! index @ [i]],
                                           asoc_sta_count := asoc_sta_count sp + 1\<rparr>) s;
                    s = on_stapriv (upd_sta i (\<lambda>p. p\<lparr>sta_recvpriv :=
                          (sta_recvpriv p)\<lparr>tid_rxseq := replicate 16 0xffff\<rparr>\<rparr>)) s;
                    s = call (Init_addba_retry_timer i) s;
                    s = foldl (init_reorder_ctrl i) s [0..<16];
                    s = on_stapriv (upd_sta i (\<lambda>p. p\<lparr>UndecoratedSmoothedPWDB := -1,
                          UndecoratedSmoothedCCK := -1, RxMgmtFrameSeqNum := 0xffff,
                          ra_rpt_linked := 0\<rparr>)) s;
                    s = alloc_macid_for i s
                in (s, Some i))))"

text \<open>The result is always \<open>_SUCCESS\<close>, whether the allocation worked or not.\<close>

definition rtw_init_bcmc_stainfo :: "adapter \<Rightarrow> adapter \<times> bool" where
  "rtw_init_bcmc_stainfo s = (fst (rtw_alloc_stainfo s bc_addr), True)"

section \<open>Release\<close>

text \<open>The frames waiting on one access category and its share of the hardware queue.\<close>

definition free_servq :: "nat \<Rightarrow> nat \<Rightarrow> tx_servq \<Rightarrow> adapter \<Rightarrow> adapter" where
  "free_servq k i q s =
     (calls (map Free_xmitframe (sta_pending q)) s)
       \<lparr>hw_pending := (hw_pending s)[k := removeAll i (hw_pending s ! k)],
        hw_accnt := (hw_accnt s)[k := hw_accnt s ! k - qcnt q]\<rparr>"

definition free_sta_queues :: "nat \<Rightarrow> adapter \<Rightarrow> adapter" where
  "free_sta_queues i s =
     (let p = sta_of (stapriv s) i;
          x = sta_xmitpriv p;
          s = calls (map Free_xmitframe (sleep_frames p)) s;
          s = free_servq 0 i (vo_q x) s;
          s = free_servq 1 i (vi_q x) s;
          s = free_servq 2 i (be_q x) s;
          s = free_servq 3 i (bk_q x) s;
          s = on_stapriv (upd_sta i (\<lambda>p. p\<lparr>sleep_frames := [], sleepq_len := 0,
                sta_xmitpriv := rtw_init_sta_xmit_priv\<rparr>)) s
      in call (Wake_queue_at_free_stainfo [qcnt (vo_q x), qcnt (vi_q x), qcnt (be_q x), qcnt (bk_q x)]) s)"

definition free_reorder_ctrl :: "nat \<Rightarrow> adapter \<Rightarrow> nat \<Rightarrow> adapter" where
  "free_reorder_ctrl i s t =
     (let r = recvreorder_ctrl (sta_of (stapriv s) i) ! t;
          s = call (Cancel_reordering_timer i t) s;
          s = calls (map Free_recvframe (pending_recvframe_queue r)) s
      in on_stapriv (upd_sta i (\<lambda>p. p\<lparr>recvreorder_ctrl :=
           (recvreorder_ctrl p)[t := r\<lparr>pending_recvframe_queue := []\<rparr>]\<rparr>)) s)"

definition release_macid_for :: "nat \<Rightarrow> adapter \<Rightarrow> adapter" where
  "release_macid_for i s =
     (let p = sta_of (stapriv s) i;
          (ctl, m) = rtw_release_macid (mac_addr s) (macid_ctl s) (hwaddr p) (mac_id p)
      in (on_stapriv (upd_sta i (\<lambda>p. p\<lparr>mac_id := m\<rparr>)) s)\<lparr>macid_ctl := ctl\<rparr>)"

definition BIT16 :: "u32 \<Rightarrow> u16" where "BIT16 n = ucast (push_bit (unat n) 1 :: u32)"

definition free_ap_state :: "nat \<Rightarrow> sta_priv \<Rightarrow> sta_priv" where
  "free_ap_state i sp =
     (let sp = (if i \<in> set (auth_list sp)
                then sp\<lparr>auth_list := removeAll i (auth_list sp), auth_list_cnt := auth_list_cnt sp - 1\<rparr>
                else sp);
          sp = upd_sta i (\<lambda>p. p\<lparr>sta_expire_to := 0, sleepq_ac_len := 0, qos_info := 0, max_sp_len := 0,
                 uapsd_bk := 0, uapsd_be := 0, uapsd_vi := 0, uapsd_vo := 0, has_legacy_ac := 0\<rparr>) sp;
          a = aid (sta_of sp i);
          sp = sp\<lparr>sta_dz_bitmap := sta_dz_bitmap sp AND NOT (BIT16 a),
                  tim_bitmap := tim_bitmap sp AND NOT (BIT16 a)\<rparr>;
          sp = (if 0 < a \<and> sta_aid sp ! (unat a - 1) = Some i
                then upd_sta i (\<lambda>p. p\<lparr>aid := 0\<rparr>) (sp\<lparr>sta_aid := (sta_aid sp)[unat a - 1 := None]\<rparr>)
                else sp)
      in upd_sta i (\<lambda>p. p\<lparr>under_exist_checking := 0\<rparr>) sp)"

definition rtw_free_stainfo :: "adapter \<Rightarrow> nat option \<Rightarrow> adapter" where
  "rtw_free_stainfo s psta =
     (case psta of
        None \<Rightarrow> s
      | Some i \<Rightarrow>
          (let s = on_stapriv (\<lambda>sp. sp\<lparr>sta_hash := map (removeAll i) (sta_hash sp),
                                      asoc_sta_count := asoc_sta_count sp - 1\<rparr>) s;
               s = on_stapriv (upd_sta i (\<lambda>p. p\<lparr>st_state := st_state p AND NOT FW_LINKED\<rparr>)) s;
               s = free_sta_queues i s;
               s = call (Cancel_addba_retry_timer i) s;
               s = foldl (free_reorder_ctrl i) s [0..<16];
               s = (if st_state (sta_of (stapriv s) i) AND WIFI_AP_STATE = 0
                    then call (Odm_sta_info i False) s else s);
               s = release_macid_for i s;
               s = on_stapriv (free_ap_state i) s;
               s = on_stapriv (upd_sta i (\<lambda>p. p\<lparr>st_ctl := rtw_st_ctl_deinit (st_ctl p)\<rparr>)) s
           in on_stapriv (\<lambda>sp. sp\<lparr>free_sta_queue := free_sta_queue sp @ [i]\<rparr>) s))"

text \<open>One station of the walk: unlinked and noted for release, unless it is the bc/mc one.\<close>

definition free_all_collect :: "nat option \<Rightarrow> adapter \<times> nat list \<Rightarrow> nat \<Rightarrow> adapter \<times> nat list" where
  "free_all_collect bcmc acc i =
     (case acc of (s, lst) \<Rightarrow>
        if bcmc = Some i then (s, lst)
        else (on_stapriv (\<lambda>sp. sp\<lparr>sta_hash := map (removeAll i) (sta_hash sp)\<rparr>) s,
              if stainfo_offset_valid (int i) then lst @ [i] else lst))"

definition rtw_free_all_stainfo :: "adapter \<Rightarrow> adapter" where
  "rtw_free_all_stainfo s =
     (let bcmc = rtw_get_bcmc_stainfo s
      in if asoc_sta_count (stapriv s) = 1 then s
         else
           (let (s, lst) = foldl (\<lambda>acc index. foldl (free_all_collect bcmc) acc
                                     (sta_hash (stapriv (fst acc)) ! index)) (s, []) [0..<NUM_STA]
            in foldl (\<lambda>s i. rtw_free_stainfo s (Some i)) s lst))"

definition cancel_all_reorder_timers :: "adapter \<Rightarrow> adapter" where
  "cancel_all_reorder_timers s =
     foldl (\<lambda>s index. foldl (\<lambda>s i. foldl (\<lambda>s t. call (Cancel_reordering_timer i t) s) s [0..<16])
        s (sta_hash (stapriv s) ! index)) s [0..<NUM_STA]"

section \<open>Access control\<close>

definition rtw_access_ctrl :: "sta_priv \<Rightarrow> bytes \<Rightarrow> bool" where
  "rtw_access_ctrl sp mac =
     (let found = list_ex (\<lambda>n. eth_eq (acl_addr n) mac \<and> acl_valid n) (acl_node_q sp)
      in if acl_mode sp = 1 then \<not> found
         else if acl_mode sp = 2 then found
         else True)"

end
