(* ===== verification/Sta_Table.thy ===== *)
theory Sta_Table
  imports Sta_Mgt
begin

text \<open>
  The contract of the station table. \<open>abs_table\<close> forgets everything of the adapter
  but the free queue, the buckets, the addresses and the MAC ids; the operations of
  \<open>core/rtw_sta_mgt.c\<close> refine three short operations on that view. A consistent table
  partitions its slots between the free queue and the buckets and owns its MAC ids; the
  locale \<open>station_table\<close> states what a caller relies on (what a lookup finds after an
  allocation and after a release).
\<close>

record sta_table =
  t_free :: "nat list"
  t_hash :: "nat list list"
  t_count :: int
  t_len :: nat
  t_addr :: "nat \<Rightarrow> bytes"
  t_mid :: "nat \<Rightarrow> u32"
  t_ctl :: macid_ctl_t
  t_self :: bytes
  t_iface :: nat

definition abs_table :: "adapter \<Rightarrow> sta_table" where
  "abs_table s =
     \<lparr>t_free = free_sta_queue (stapriv s), t_hash = sta_hash (stapriv s),
      t_count = asoc_sta_count (stapriv s), t_len = length (pstainfo_buf (stapriv s)),
      t_addr = (\<lambda>i. hwaddr (sta_of (stapriv s) i)), t_mid = (\<lambda>i. mac_id (sta_of (stapriv s) i)),
      t_ctl = macid_ctl s, t_self = mac_addr s, t_iface = iface_id s\<rparr>"

definition t_lookup :: "sta_table \<Rightarrow> bytes \<Rightarrow> nat option" where
  "t_lookup t a = List.find (\<lambda>i. eth_eq (t_addr t i) (lookup_addr a))
                    (t_hash t ! unat (wifi_mac_hash (lookup_addr a)))"

definition t_alloc :: "sta_table \<Rightarrow> bytes \<Rightarrow> sta_table \<times> nat option" where
  "t_alloc t a =
     (case t_free t of
        [] \<Rightarrow> (t, None)
      | i # q \<Rightarrow>
          (let h = unat (wifi_mac_hash a);
               (ctl, m) = rtw_alloc_macid (t_self t) (t_iface t) (t_ctl t) i (take ETH_ALEN a)
           in (t\<lparr>t_free := q, t_hash := (t_hash t)[h := t_hash t ! h @ [i]], t_count := t_count t + 1,
                 t_addr := (t_addr t)(i := take ETH_ALEN a), t_mid := (t_mid t)(i := m),
                 t_ctl := ctl\<rparr>, Some i)))"

definition t_release :: "sta_table \<Rightarrow> nat \<Rightarrow> sta_table" where
  "t_release t i =
     (let (ctl, m) = rtw_release_macid (t_self t) (t_ctl t) (t_addr t i) (t_mid t i)
      in t\<lparr>t_free := t_free t @ [i], t_hash := map (removeAll i) (t_hash t), t_count := t_count t - 1,
           t_mid := (t_mid t)(i := m), t_ctl := ctl\<rparr>)"

section \<open>The code refines the table\<close>

named_theorems table_simps \<open>what an operation does to the view of the table\<close>

lemma sta_of_upd_sta:
  "sta_of (upd_sta i f sp) j = (if i = j \<and> i < length (pstainfo_buf sp) then f (sta_of sp i) else sta_of sp j)"
  by (cases "i = j"; cases "i < length (pstainfo_buf sp)") (auto simp: sta_of_def upd_sta_def list_update_beyond)

lemma upd_sta_struct [simp]:
  "length (pstainfo_buf (upd_sta i f sp)) = length (pstainfo_buf sp)"
  "free_sta_queue (upd_sta i f sp) = free_sta_queue sp"
  "sta_hash (upd_sta i f sp) = sta_hash sp"
  "asoc_sta_count (upd_sta i f sp) = asoc_sta_count sp"
  "auth_list (upd_sta i f sp) = auth_list sp"
  "sta_aid (upd_sta i f sp) = sta_aid sp"
  by (simp_all add: upd_sta_def)

lemma sta_of_other [simp]:
  "sta_of (sp\<lparr>auth_list := a, auth_list_cnt := b\<rparr>) j = sta_of sp j"
  "sta_of (sp\<lparr>sta_dz_bitmap := c, tim_bitmap := d\<rparr>) j = sta_of sp j"
  "sta_of (sp\<lparr>sta_aid := e\<rparr>) j = sta_of sp j"
  "sta_of (sp\<lparr>free_sta_queue := f\<rparr>) j = sta_of sp j"
  "sta_of (sp\<lparr>sta_hash := g\<rparr>) j = sta_of sp j"
  "sta_of (sp\<lparr>sta_hash := g, asoc_sta_count := h\<rparr>) j = sta_of sp j"
  by (simp_all add: sta_of_def)

lemma table_upd_sta:
  assumes "\<And>p. hwaddr (f p) = hwaddr p" and "\<And>p. mac_id (f p) = mac_id p"
  shows "abs_table (on_stapriv (upd_sta i f) s) = abs_table s"
  using assms by (auto simp: abs_table_def on_stapriv_def sta_of_upd_sta fun_eq_iff)

lemma table_call [table_simps]:
  "abs_table (call c s) = abs_table s" "abs_table (calls cs s) = abs_table s"
  "stapriv (call c s) = stapriv s" "stapriv (calls cs s) = stapriv s"
  by (simp_all add: abs_table_def call_def calls_def)

lemma table_free_servq [table_simps]: "abs_table (free_servq k i q s) = abs_table s"
  by (simp add: abs_table_def free_servq_def calls_def)

lemma table_free_sta_queues [table_simps]: "abs_table (free_sta_queues i s) = abs_table s"
  by (simp add: free_sta_queues_def Let_def table_simps table_upd_sta)

lemma table_free_reorder [table_simps]:
  "abs_table (foldl (free_reorder_ctrl i) s ts) = abs_table s"
  by (induction ts arbitrary: s) (simp_all add: free_reorder_ctrl_def Let_def table_upd_sta table_simps)

lemma table_init_reorder [table_simps]:
  "abs_table (foldl (init_reorder_ctrl i) s ts) = abs_table s"
  by (induction ts arbitrary: s) (simp_all add: init_reorder_ctrl_def table_upd_sta table_simps)

lemma table_free_ap [table_simps]: "abs_table (on_stapriv (free_ap_state i) s) = abs_table s"
  by (auto simp: abs_table_def on_stapriv_def free_ap_state_def Let_def sta_of_upd_sta fun_eq_iff)

lemma table_alloc_macid:
  "i < length (pstainfo_buf (stapriv s)) \<Longrightarrow>
   abs_table (alloc_macid_for i s) =
     (abs_table s)\<lparr>t_mid := (t_mid (abs_table s))(i := snd (rtw_alloc_macid (mac_addr s) (iface_id s)
          (macid_ctl s) i (hwaddr (sta_of (stapriv s) i)))),
        t_ctl := fst (rtw_alloc_macid (mac_addr s) (iface_id s) (macid_ctl s) i
          (hwaddr (sta_of (stapriv s) i)))\<rparr>"
  by (auto simp: abs_table_def alloc_macid_for_def on_stapriv_def sta_of_upd_sta fun_eq_iff
      Let_def split_beta)

lemma table_release_macid:
  "i < length (pstainfo_buf (stapriv s)) \<Longrightarrow>
   abs_table (release_macid_for i s) =
     (abs_table s)\<lparr>t_mid := (t_mid (abs_table s))(i := snd (rtw_release_macid (mac_addr s)
          (macid_ctl s) (hwaddr (sta_of (stapriv s) i)) (mac_id (sta_of (stapriv s) i)))),
        t_ctl := fst (rtw_release_macid (mac_addr s) (macid_ctl s)
          (hwaddr (sta_of (stapriv s) i)) (mac_id (sta_of (stapriv s) i)))\<rparr>"
  by (auto simp: abs_table_def release_macid_for_def on_stapriv_def sta_of_upd_sta fun_eq_iff
      Let_def split_beta)

lemma abs_table_fields:
  "abs_table s = t \<Longrightarrow> free_sta_queue (stapriv s) = t_free t \<and> sta_hash (stapriv s) = t_hash t \<and>
     asoc_sta_count (stapriv s) = t_count t \<and> length (pstainfo_buf (stapriv s)) = t_len t \<and>
     (\<forall>i. hwaddr (sta_of (stapriv s) i) = t_addr t i) \<and> (\<forall>i. mac_id (sta_of (stapriv s) i) = t_mid t i) \<and>
     macid_ctl s = t_ctl t \<and> mac_addr s = t_self t \<and> iface_id s = t_iface t"
  by (auto simp: abs_table_def)

lemma wifi_mac_hash_lt [simp]: "unat (wifi_mac_hash a) < 32"
proof -
  have "x AND 31 < (32 :: u32)" for x :: u32
    using word_and_le1 [of x 31] by (simp add: word_less_nat_alt word_le_nat_alt)
  then show ?thesis by (simp add: wifi_mac_hash_def Let_def NUM_STA_def word_less_nat_alt)
qed

text \<open>The branch that loses the slot is dead: the hash is always in range.\<close>

lemma hash_in_range: "\<not> NUM_STA \<le> unat (wifi_mac_hash a)"
  using wifi_mac_hash_lt [of a] by (simp add: NUM_STA_def del: wifi_mac_hash_lt)

lemma get_stainfo_table: "rtw_get_stainfo (stapriv s) (Some a) = t_lookup (abs_table s) a"
  by (simp add: rtw_get_stainfo_def t_lookup_def abs_table_def Let_def)

lemma alloc_refines:
  assumes "\<forall>i \<in> set (free_sta_queue (stapriv s)). i < length (pstainfo_buf (stapriv s))"
  shows "(case rtw_alloc_stainfo s a of (s', r) \<Rightarrow> (abs_table s', r)) = t_alloc (abs_table s) a"
proof (cases "free_sta_queue (stapriv s)")
  case Nil
  then show ?thesis by (simp add: rtw_alloc_stainfo_def t_alloc_def abs_table_def)
next
  case (Cons i q)
  then have i: "i < length (pstainfo_buf (stapriv s))" using assms by simp
  let ?h = "unat (wifi_mac_hash a)"
  define s1 where "s1 = on_stapriv (\<lambda>sp. sp\<lparr>sta_hash := (sta_hash sp)[?h := sta_hash sp ! ?h @ [i]],
      asoc_sta_count := asoc_sta_count sp + 1\<rparr>)
     (on_stapriv (upd_sta i (\<lambda>_. rtw_init_stainfo\<lparr>hwaddr := take ETH_ALEN a\<rparr>))
       (on_stapriv (\<lambda>sp. sp\<lparr>free_sta_queue := q\<rparr>) s))"
  have t1: "\<exists>m. abs_table s1 = (abs_table s)\<lparr>t_free := q, t_hash := (t_hash (abs_table s))[?h := t_hash (abs_table s) ! ?h @ [i]],
      t_count := t_count (abs_table s) + 1, t_addr := (t_addr (abs_table s))(i := take ETH_ALEN a),
      t_mid := (t_mid (abs_table s))(i := m)\<rparr>"
    using i by (intro exI [of _ 0]) (auto simp: s1_def abs_table_def on_stapriv_def upd_sta_def
        sta_of_def nth_list_update fun_eq_iff rtw_init_stainfo_def)
  define s2 where "s2 = on_stapriv (upd_sta i (\<lambda>p. p\<lparr>UndecoratedSmoothedPWDB := -1,
        UndecoratedSmoothedCCK := -1, RxMgmtFrameSeqNum := 0xffff, ra_rpt_linked := 0\<rparr>))
     (foldl (init_reorder_ctrl i) (call (Init_addba_retry_timer i)
       (on_stapriv (upd_sta i (\<lambda>p. p\<lparr>sta_recvpriv := (sta_recvpriv p)\<lparr>tid_rxseq := replicate 16 0xffff\<rparr>\<rparr>)) s1)) [0..<16])"
  have t2: "abs_table s2 = abs_table s1"
    by (simp add: s2_def table_upd_sta table_simps)
  have r: "rtw_alloc_stainfo s a = (alloc_macid_for i s2, Some i)"
    unfolding rtw_alloc_stainfo_def Cons s2_def s1_def
    by (simp only: list.case Let_def hash_in_range if_False)
  obtain m where m: "abs_table s2 = (abs_table s)\<lparr>t_free := q,
      t_hash := (t_hash (abs_table s))[?h := t_hash (abs_table s) ! ?h @ [i]],
      t_count := t_count (abs_table s) + 1, t_addr := (t_addr (abs_table s))(i := take ETH_ALEN a),
      t_mid := (t_mid (abs_table s))(i := m)\<rparr>" using t1 t2 by auto
  have f: "mac_addr s2 = mac_addr s" "iface_id s2 = iface_id s" "macid_ctl s2 = macid_ctl s"
     "hwaddr (sta_of (stapriv s2) i) = take ETH_ALEN a"
    using abs_table_fields [OF m] by (auto simp: abs_table_def)
  have len: "i < length (pstainfo_buf (stapriv s2))"
    using abs_table_fields [OF m] i by (simp add: abs_table_def)
  have t: "t_free (abs_table s) = i # q" "t_self (abs_table s) = mac_addr s"
    "t_iface (abs_table s) = iface_id s" "t_ctl (abs_table s) = macid_ctl s"
    using Cons by (simp_all add: abs_table_def)
  show ?thesis
    unfolding r t_alloc_def t list.case Let_def split_beta
    by (simp add: table_alloc_macid [OF len] m f)
qed

lemma release_refines:
  assumes "i < length (pstainfo_buf (stapriv s))"
  shows "abs_table (rtw_free_stainfo s (Some i)) = t_release (abs_table s) i"
proof -
  define s1 where "s1 = on_stapriv (\<lambda>sp. sp\<lparr>sta_hash := map (removeAll i) (sta_hash sp),
      asoc_sta_count := asoc_sta_count sp - 1\<rparr>) s"
  define s2 where "s2 = foldl (free_reorder_ctrl i) (call (Cancel_addba_retry_timer i) (free_sta_queues i
      (on_stapriv (upd_sta i (\<lambda>p. p\<lparr>st_state := st_state p AND NOT FW_LINKED\<rparr>)) s1))) [0..<16]"
  define s3 where "s3 = (if st_state (sta_of (stapriv s2) i) AND WIFI_AP_STATE = 0
      then call (Odm_sta_info i False) s2 else s2)"
  define s4 where "s4 = on_stapriv (upd_sta i (\<lambda>p. p\<lparr>st_ctl := rtw_st_ctl_deinit (st_ctl p)\<rparr>))
      (on_stapriv (free_ap_state i) (release_macid_for i s3))"
  have t3: "abs_table s3 = (abs_table s)\<lparr>t_hash := map (removeAll i) (t_hash (abs_table s)),
      t_count := t_count (abs_table s) - 1\<rparr>"
    by (simp add: s3_def s2_def table_upd_sta table_simps) (simp add: s1_def on_stapriv_def abs_table_def)
  have r: "rtw_free_stainfo s (Some i) = on_stapriv (\<lambda>sp. sp\<lparr>free_sta_queue := free_sta_queue sp @ [i]\<rparr>) s4"
    unfolding rtw_free_stainfo_def s4_def s3_def s2_def s1_def by (simp only: option.case Let_def)
  have f: "i < length (pstainfo_buf (stapriv s3))" "mac_addr s3 = mac_addr s" "macid_ctl s3 = macid_ctl s"
    "hwaddr (sta_of (stapriv s3) i) = t_addr (abs_table s) i" "mac_id (sta_of (stapriv s3) i) = t_mid (abs_table s) i"
    using abs_table_fields [OF t3] assms by (auto simp: abs_table_def)
  have t4: "abs_table s4 = abs_table (release_macid_for i s3)"
    by (simp add: s4_def table_upd_sta table_simps)
  have last: "abs_table (on_stapriv (\<lambda>sp. sp\<lparr>free_sta_queue := free_sta_queue sp @ [i]\<rparr>) s4) =
     (abs_table s4)\<lparr>t_free := t_free (abs_table s4) @ [i]\<rparr>"
    by (simp add: abs_table_def on_stapriv_def sta_of_def)
  show ?thesis
    by (simp add: r last t4 table_release_macid [OF f(1)] f(2-) t3 t_release_def split_beta Let_def)
       (simp add: abs_table_def)
qed

section \<open>Consistent tables\<close>

definition hashed :: "sta_table \<Rightarrow> nat \<Rightarrow> bool" where
  "hashed t i \<longleftrightarrow> i \<in> set (t_hash t ! unat (wifi_mac_hash (t_addr t i)))"

text \<open>
  \<open>D\<close> are the slots in transit: out of the buckets but not yet in the free queue.
\<close>

definition slots_ok :: "nat set \<Rightarrow> sta_table \<Rightarrow> bool" where
  "slots_ok D t \<longleftrightarrow>
     t_len t = NUM_STA \<and> length (t_hash t) = NUM_STA \<and> distinct (t_free t) \<and>
     (\<forall>k < NUM_STA. distinct (t_hash t ! k) \<and>
        (\<forall>i \<in> set (t_hash t ! k). unat (wifi_mac_hash (t_addr t i)) = k \<and> length (t_addr t i) = ETH_ALEN)) \<and>
     (\<forall>i. i < NUM_STA \<longleftrightarrow> i \<in> set (t_free t) \<or> i \<in> D \<or> hashed t i) \<and>
     (\<forall>i. i \<in> set (t_free t) \<longrightarrow> i \<notin> D \<and> \<not> hashed t i) \<and> (\<forall>i \<in> D. \<not> hashed t i) \<and>
     t_count t = int NUM_STA - int (length (t_free t))"

definition mid_ok :: "sta_table \<Rightarrow> nat \<Rightarrow> bool" where
  "mid_ok t i \<longleftrightarrow>
     (let m = unat (t_mid t i); num = unat (macid_num (t_ctl t))
      in if eth_eq (t_addr t i) (t_self t) then m = num
         else if eth_eq (t_addr t i) bc_addr then m = 1
         else m = num \<or> (m < num \<and> m \<noteq> 1 \<and> macid_sta (t_ctl t) ! m = Some i))"

definition mids_ok :: "nat set \<Rightarrow> sta_table \<Rightarrow> bool" where
  "mids_ok D t \<longleftrightarrow>
     macid_ok (t_ctl t) \<and> (\<forall>i. hashed t i \<or> i \<in> D \<longrightarrow> mid_ok t i) \<and>
     (\<forall>n < MACID_NUM_SW_LIMIT. \<forall>i. n \<noteq> 1 \<and> macid_sta (t_ctl t) ! n = Some i \<longrightarrow>
        (hashed t i \<or> i \<in> D) \<and> unat (t_mid t i) = n \<and> n < unat (macid_num (t_ctl t)))"

definition unique_addr :: "sta_table \<Rightarrow> bool" where
  "unique_addr t \<longleftrightarrow> (\<forall>i j. hashed t i \<and> hashed t j \<and> eth_eq (t_addr t i) (t_addr t j) \<longrightarrow> i = j)"

definition table_ok :: "nat set \<Rightarrow> sta_table \<Rightarrow> bool" where
  "table_ok D t \<longleftrightarrow> slots_ok D t \<and> mids_ok D t \<and> unique_addr t"

definition addr_ok :: "bytes \<Rightarrow> bool" where
  "addr_ok a \<longleftrightarrow> length a = ETH_ALEN \<and> (IS_MCAST a \<longrightarrow> a = bc_addr)"

lemma hash_lt_NUM [simp]: "unat (wifi_mac_hash a) < NUM_STA"
  by (simp add: NUM_STA_def)

lemma hash_take [simp]: "wifi_mac_hash (take ETH_ALEN a) = wifi_mac_hash a"
  by (simp add: wifi_mac_hash_def ETH_ALEN_def)

lemma hash_eth_eq: "eth_eq a b \<Longrightarrow> wifi_mac_hash a = wifi_mac_hash b"
  unfolding eth_eq_def using hash_take [of a] hash_take [of b] by metis

lemma in_bucket:
  assumes "slots_ok D t" and "k < NUM_STA" and "i \<in> set (t_hash t ! k)"
  shows "hashed t i" and "unat (wifi_mac_hash (t_addr t i)) = k" and "i < NUM_STA"
  using assms by (auto simp: slots_ok_def hashed_def)

lemma find_unique:
  "(\<And>x y. x \<in> set xs \<Longrightarrow> y \<in> set xs \<Longrightarrow> P x \<Longrightarrow> P y \<Longrightarrow> x = y) \<Longrightarrow>
     List.find P xs = Some x \<longleftrightarrow> x \<in> set xs \<and> P x"
  by (induction xs) auto

lemma lookup_iff:
  assumes "table_ok D t"
  shows "t_lookup t a = Some i \<longleftrightarrow> hashed t i \<and> eth_eq (t_addr t i) (lookup_addr a)"
proof -
  let ?k = "unat (wifi_mac_hash (lookup_addr a))"
  have "t_lookup t a = Some i \<longleftrightarrow> i \<in> set (t_hash t ! ?k) \<and> eth_eq (t_addr t i) (lookup_addr a)"
    unfolding t_lookup_def
  proof (rule find_unique)
    fix x y
    assume "x \<in> set (t_hash t ! ?k)" "y \<in> set (t_hash t ! ?k)"
      "eth_eq (t_addr t x) (lookup_addr a)" "eth_eq (t_addr t y) (lookup_addr a)"
    then show "x = y"
      using assms in_bucket(1) [of D t ?k] by (auto simp: table_ok_def unique_addr_def eth_eq_def)
  qed
  moreover have "hashed t i \<longleftrightarrow> i \<in> set (t_hash t ! ?k)" if "eth_eq (t_addr t i) (lookup_addr a)"
    using hash_eth_eq [OF that] by (simp add: hashed_def)
  ultimately show ?thesis by blast
qed

lemma lookup_None_iff:
  "table_ok D t \<Longrightarrow> t_lookup t a = None \<longleftrightarrow> (\<forall>i. hashed t i \<longrightarrow> \<not> eth_eq (t_addr t i) (lookup_addr a))"
  using lookup_iff [of D t a] by (cases "t_lookup t a") fastforce+

section \<open>Allocation\<close>

lemma alloc_shape:
  assumes "t_free t = i # q"
  shows "t_alloc t a =
     (t\<lparr>t_free := q, t_hash := (t_hash t)[unat (wifi_mac_hash a) := t_hash t ! unat (wifi_mac_hash a) @ [i]],
        t_count := t_count t + 1, t_addr := (t_addr t)(i := take ETH_ALEN a),
        t_mid := (t_mid t)(i := snd (rtw_alloc_macid (t_self t) (t_iface t) (t_ctl t) i (take ETH_ALEN a))),
        t_ctl := fst (rtw_alloc_macid (t_self t) (t_iface t) (t_ctl t) i (take ETH_ALEN a))\<rparr>, Some i)"
  using assms by (simp add: t_alloc_def Let_def split_beta)

lemma bucket_append:
  assumes "length H = NUM_STA"
  shows "H[unat (wifi_mac_hash a) := H ! unat (wifi_mac_hash a) @ [i]] ! k =
     (if k = unat (wifi_mac_hash a) then H ! k @ [i] else H ! k)"
  using assms by (auto simp: nth_list_update)

lemma hashed_alloc:
  assumes "slots_ok D t" and "t_free t = i # q"
  shows "hashed (fst (t_alloc t a)) j \<longleftrightarrow> hashed t j \<or> j = i"
proof -
  have len: "length (t_hash t) = NUM_STA" and free: "i \<in> set (t_free t)"
    using assms by (auto simp: slots_ok_def)
  have "i \<notin> set (t_hash t ! k)" if "k < NUM_STA" for k
    using in_bucket(1) [OF assms(1) that, of i] assms(1) free by (auto simp: slots_ok_def)
  then show ?thesis
    using len by (auto simp: alloc_shape [OF assms(2)] hashed_def bucket_append)
qed

lemma alloc_slots:
  assumes "slots_ok D t" and "t_free t = i # q" and "length a = ETH_ALEN"
  shows "slots_ok D (fst (t_alloc t a))"
proof -
  note h = hashed_alloc [OF assms(1,2), of a]
  have free: "i \<in> set (t_free t)" "i \<notin> set q" "distinct q" using assms(1,2) by (auto simp: slots_ok_def)
  have notin: "i \<notin> set (t_hash t ! k)" if "k < NUM_STA" for k
    using in_bucket(1) [OF assms(1) that, of i] assms(1) free by (auto simp: slots_ok_def)
  have len: "length (t_hash t) = NUM_STA" using assms(1) by (simp add: slots_ok_def)
  show ?thesis
    unfolding slots_ok_def h
  proof (intro conjI)
    show "\<forall>k < NUM_STA. distinct (t_hash (fst (t_alloc t a)) ! k) \<and>
        (\<forall>j \<in> set (t_hash (fst (t_alloc t a)) ! k).
           unat (wifi_mac_hash (t_addr (fst (t_alloc t a)) j)) = k \<and>
           length (t_addr (fst (t_alloc t a)) j) = ETH_ALEN)"
      using assms(1,3) notin len
      by (auto simp: alloc_shape [OF assms(2)] bucket_append slots_ok_def)
  qed (use assms free in \<open>auto simp: alloc_shape [OF assms(2)] slots_ok_def\<close>)
qed

lemma update_keep: "xs ! k = Some j \<Longrightarrow> xs ! n \<noteq> Some j \<Longrightarrow> xs[n := v] ! k = Some j"
  by (cases "k = n") auto

lemma mid_ok_other:
  assumes "mid_ok t j" and "t_addr t' j = t_addr t j" and "t_mid t' j = t_mid t j" and "t_self t' = t_self t"
    and "macid_num (t_ctl t') = macid_num (t_ctl t)"
    and "\<And>m. m < unat (macid_num (t_ctl t)) \<Longrightarrow> m \<noteq> 1 \<Longrightarrow> macid_sta (t_ctl t) ! m = Some j \<Longrightarrow> m = unat (t_mid t j) \<Longrightarrow>
      macid_sta (t_ctl t') ! m = Some j"
  shows "mid_ok t' j"
  using assms by (auto simp: mid_ok_def Let_def split: if_splits)

lemma unat_ucast_num: "unat (ucast (macid_num c) :: u32) = unat (macid_num c)"
  by simp

lemma macid_num_le: "macid_ok c \<Longrightarrow> unat (macid_num c) \<le> 32"
  by (simp add: macid_ok_def MACID_NUM_SW_LIMIT_def)

lemma alloc_mids:
  assumes "slots_ok D t" and "mids_ok D t" and "t_free t = i # q"
  shows "mids_ok D (fst (t_alloc t a))"
proof -
  let ?hw = "take ETH_ALEN a" and ?t = "fst (t_alloc t a)"
  let ?A = "rtw_alloc_macid (t_self t) (t_iface t) (t_ctl t) i ?hw"
  note h = hashed_alloc [OF assms(1,3), of a]
  have mo: "macid_ok (t_ctl t)" using assms(2) by (simp add: mids_ok_def)
  have ni: "\<not> hashed t i" "i \<notin> D" using assms(1,3) by (auto simp: slots_ok_def)
  have shape: "t_addr ?t = (t_addr t)(i := ?hw)" "t_mid ?t = (t_mid t)(i := snd ?A)" "t_ctl ?t = fst ?A"
    "t_self ?t = t_self t" by (simp_all add: alloc_shape [OF assms(3)])
  have owner: "(hashed t j \<or> j \<in> D) \<and> unat (t_mid t j) = n \<and> n < unat (macid_num (t_ctl t))"
    if "n < MACID_NUM_SW_LIMIT" "n \<noteq> 1" "macid_sta (t_ctl t) ! n = Some j" for n j
    using assms(2) that by (simp add: mids_ok_def)
  have old: "mid_ok t j" "j \<noteq> i" if "hashed t j \<or> j \<in> D" for j
    using assms(2) that ni by (auto simp: mids_ok_def)
  consider (self) "eth_eq ?hw (t_self t)" | (bc) "\<not> eth_eq ?hw (t_self t)" "eth_eq ?hw bc_addr"
    | (uni) "\<not> eth_eq ?hw (t_self t)" "\<not> eth_eq ?hw bc_addr" by blast
  then show ?thesis
  proof cases
    case self
    then have A: "?A = (t_ctl t, ucast (macid_num (t_ctl t)))" by (rule alloc_macid_self)
    have "mid_ok ?t j" if "hashed t j \<or> j \<in> D \<or> j = i" for j
    proof (cases "j = i")
      case True
      then show ?thesis using self by (simp add: mid_ok_def shape A)
    next
      case False
      then have j: "hashed t j \<or> j \<in> D" using that by simp
      show ?thesis by (rule mid_ok_other [OF old(1) [OF j]]) (use False in \<open>simp_all add: shape A\<close>)
    qed
    then show ?thesis using mo owner ni by (auto simp: mids_ok_def h shape A)
  next
    case bc
    note b = alloc_macid_bc [OF mo bc, of "t_iface t" i]
    have "mid_ok ?t j" if "hashed t j \<or> j \<in> D \<or> j = i" for j
    proof (cases "j = i")
      case True
      then show ?thesis using bc by (simp add: mid_ok_def shape b(1))
    next
      case False
      then have j: "hashed t j \<or> j \<in> D" using that by simp
      show ?thesis by (rule mid_ok_other [OF old(1) [OF j]]) (use False in \<open>simp_all add: shape b(2)\<close>)
    qed
    then show ?thesis using ni by (auto simp: mids_ok_def h shape b dest: owner)
  next
    case uni
    from mo uni show ?thesis
    proof (cases rule: alloc_macid_unicast [where f = "t_iface t" and p = i])
      case (free n)
      have n: "unat (of_nat n :: u32) = n" "n < 32"
        using free(1) macid_num_le [OF mo] by (simp_all add: unat_of_nat take_bit_nat_eq_self)
      have len: "length (macid_sta (t_ctl t)) = 32" using mo by (simp add: macid_ok_def MACID_NUM_SW_LIMIT_def)
      have "mid_ok ?t j" if "hashed t j \<or> j \<in> D \<or> j = i" for j
      proof (cases "j = i")
        case True
        then show ?thesis using uni free(1,2) n len by (simp add: mid_ok_def shape free(4,5))
      next
        case False
        then have j: "hashed t j \<or> j \<in> D" using that by simp
        show ?thesis
          by (rule mid_ok_other [OF old(1) [OF j]]) (use False free(3) in \<open>auto simp: shape free(4,5) intro!: update_keep\<close>)
      qed
      then show ?thesis
        using owner ni free(1,6) n len
        by (auto simp: mids_ok_def h shape free(4,5) nth_list_update MACID_NUM_SW_LIMIT_def)
    next
      case full
      have "mid_ok ?t j" if "hashed t j \<or> j \<in> D \<or> j = i" for j
      proof (cases "j = i")
        case True
        then show ?thesis using uni by (simp add: mid_ok_def shape full(1))
      next
        case False
        then have j: "hashed t j \<or> j \<in> D" using that by simp
        show ?thesis by (rule mid_ok_other [OF old(1) [OF j]]) (use False in \<open>simp_all add: shape full(1)\<close>)
      qed
      then show ?thesis using mo owner ni by (auto simp: mids_ok_def h shape full(1))
    qed
  qed
qed

section \<open>Release\<close>

lemma release_shape:
  "t_release t i = t\<lparr>t_free := t_free t @ [i], t_hash := map (removeAll i) (t_hash t), t_count := t_count t - 1,
     t_mid := (t_mid t)(i := snd (rtw_release_macid (t_self t) (t_ctl t) (t_addr t i) (t_mid t i))),
     t_ctl := fst (rtw_release_macid (t_self t) (t_ctl t) (t_addr t i) (t_mid t i))\<rparr>"
  by (simp add: t_release_def Let_def split_beta)

lemma hashed_unlink:
  assumes "length (t_hash t) = NUM_STA" and "t_hash t' = map (removeAll i) (t_hash t)" and "t_addr t' = t_addr t"
  shows "hashed t' j \<longleftrightarrow> hashed t j \<and> j \<noteq> i"
  using assms by (auto simp: hashed_def)

lemma hashed_release:
  "slots_ok D t \<Longrightarrow> hashed (t_release t i) j \<longleftrightarrow> hashed t j \<and> j \<noteq> i"
  by (rule hashed_unlink) (simp_all add: slots_ok_def release_shape)

lemma release_slots:
  assumes "slots_ok D t" and "hashed t i \<or> i \<in> D"
  shows "slots_ok (D - {i}) (t_release t i)"
proof -
  note h = hashed_release [OF assms(1), of i]
  have i: "i \<notin> set (t_free t)" "i < NUM_STA" using assms by (auto simp: slots_ok_def)
  have len: "length (t_hash t) = NUM_STA" using assms(1) by (simp add: slots_ok_def)
  show ?thesis
    unfolding slots_ok_def h
  proof (intro conjI)
    show "\<forall>k < NUM_STA. distinct (t_hash (t_release t i) ! k) \<and>
        (\<forall>j \<in> set (t_hash (t_release t i) ! k).
           unat (wifi_mac_hash (t_addr (t_release t i) j)) = k \<and> length (t_addr (t_release t i) j) = ETH_ALEN)"
      using assms(1) len by (auto simp: release_shape slots_ok_def distinct_removeAll)
  qed (use assms i in \<open>auto simp: release_shape slots_ok_def\<close>)
qed

lemma release_mids:
  assumes "slots_ok D t" and "mids_ok D t" and "hashed t i \<or> i \<in> D"
  shows "mids_ok (D - {i}) (t_release t i)"
proof -
  let ?t = "t_release t i" and ?m = "unat (t_mid t i)"
  let ?R = "rtw_release_macid (t_self t) (t_ctl t) (t_addr t i) (t_mid t i)"
  note h = hashed_release [OF assms(1), of i]
  have mo: "macid_ok (t_ctl t)" and mid: "mid_ok t i" using assms(2,3) by (auto simp: mids_ok_def)
  have shape: "t_addr ?t = t_addr t" "t_mid ?t = (t_mid t)(i := snd ?R)" "t_ctl ?t = fst ?R" "t_self ?t = t_self t"
    by (simp_all add: release_shape)
  have owner: "(hashed t j \<or> j \<in> D) \<and> unat (t_mid t j) = n \<and> n < unat (macid_num (t_ctl t))"
    if "n < MACID_NUM_SW_LIMIT" "n \<noteq> 1" "macid_sta (t_ctl t) ! n = Some j" for n j
    using assms(2) that by (simp add: mids_ok_def)
  have old: "mid_ok t j" if "hashed t j \<or> j \<in> D" for j using assms(2) that by (auto simp: mids_ok_def)
  consider (own) "\<not> eth_eq (t_addr t i) (t_self t)" "\<not> eth_eq (t_addr t i) bc_addr" "t_mid t i \<noteq> 1"
      "?m < unat (macid_num (t_ctl t))" "macid_sta (t_ctl t) ! ?m = Some i"
    | (none) "fst ?R = t_ctl t" "?m = 1 \<or> ?m = unat (macid_num (t_ctl t))"
  proof (cases "eth_eq (t_addr t i) (t_self t) \<or> eth_eq (t_addr t i) bc_addr")
    case True
    then show thesis
      using mid by (intro none) (auto simp: release_macid_shared mid_ok_def Let_def dest: owner split: if_splits)
  next
    case False
    show thesis
    proof (cases "?m = unat (macid_num (t_ctl t))")
      case True
      then show thesis
        by (intro none) (auto simp: release_macid_none dest: owner)
    next
      case m: False
      then show thesis using False mid by (intro own) (auto simp: mid_ok_def Let_def)
    qed
  qed
  then show ?thesis
  proof cases
    case own
    note r = release_macid_own [OF mo own(1-4)]
    have len: "length (macid_sta (t_ctl t)) = 32" using mo by (simp add: macid_ok_def MACID_NUM_SW_LIMIT_def)
    have "mid_ok ?t j" if "hashed t j \<and> j \<noteq> i \<or> j \<in> D \<and> j \<noteq> i" for j
    proof -
      have j: "hashed t j \<or> j \<in> D" "j \<noteq> i" using that by auto
      show ?thesis
        by (rule mid_ok_other [OF old [OF j(1)]])
           (use j own(5) in \<open>auto simp: shape r(1) intro!: update_keep\<close>)
    qed
    then show ?thesis
      using r(3) own(4) macid_num_le [OF mo] len
      by (auto simp: mids_ok_def h shape r(1) nth_list_update MACID_NUM_SW_LIMIT_def
          dest: owner [unfolded MACID_NUM_SW_LIMIT_def] split: if_splits)
  next
    case none
    have "mid_ok ?t j" if "hashed t j \<and> j \<noteq> i \<or> j \<in> D \<and> j \<noteq> i" for j
    proof -
      have j: "hashed t j \<or> j \<in> D" "j \<noteq> i" using that by auto
      show ?thesis by (rule mid_ok_other [OF old [OF j(1)]]) (use j none(1) in \<open>simp_all add: shape\<close>)
    qed
    moreover have "macid_sta (t_ctl t) ! n \<noteq> Some i" if "n < MACID_NUM_SW_LIMIT" "n \<noteq> 1" for n
      using owner [OF that, of i] none(2) that by auto
    ultimately show ?thesis
      using none(1) mo by (auto simp: mids_ok_def h shape dest: owner)
  qed
qed

lemma release_ok:
  assumes "table_ok D t" and "hashed t i \<or> i \<in> D"
  shows "table_ok (D - {i}) (t_release t i)"
proof -
  have "slots_ok D t" "mids_ok D t" and u: "unique_addr t" using assms(1) by (simp_all add: table_ok_def)
  note r = release_slots [OF this(1) assms(2)] release_mids [OF this(1,2) assms(2)] hashed_release [OF this(1), of i]
  have "t_addr (t_release t i) = t_addr t" by (simp add: release_shape)
  then have "unique_addr (t_release t i)" using u by (simp add: unique_addr_def r(3))
  then show ?thesis using r(1,2) by (simp add: table_ok_def)
qed

lemma release_lookup:
  assumes "table_ok D t" and "hashed t i \<or> i \<in> D"
  shows "t_lookup (t_release t i) b = (if t_lookup t b = Some i then None else t_lookup t b)"
proof -
  have s: "slots_ok D t" using assms(1) by (simp add: table_ok_def)
  have "t_lookup (t_release t i) b = Some j \<longleftrightarrow> t_lookup t b = Some j \<and> j \<noteq> i" for j
    unfolding lookup_iff [OF release_ok [OF assms]] lookup_iff [OF assms(1)] hashed_release [OF s]
    by (auto simp: release_shape)
  then show ?thesis by (metis not_None_eq)
qed

lemma alloc_ok:
  assumes "table_ok D t" and "addr_ok a" and "t_lookup t a = None"
  shows "table_ok D (fst (t_alloc t a))"
proof (cases "t_free t")
  case Nil
  then show ?thesis using assms(1) by (simp add: t_alloc_def)
next
  case (Cons i q)
  have sm: "slots_ok D t" "mids_ok D t" and u: "unique_addr t" using assms(1) by (simp_all add: table_ok_def)
  have len: "length a = ETH_ALEN" and la: "lookup_addr a = a"
    using assms(2) by (auto simp: addr_ok_def lookup_addr_def)
  have new: "\<not> eth_eq (t_addr t j) a" if "hashed t j" for j
    using assms(1,3) that la lookup_None_iff by metis
  have ni: "\<not> hashed t i" using sm(1) Cons by (auto simp: slots_ok_def)
  have "unique_addr (fst (t_alloc t a))"
    unfolding unique_addr_def hashed_alloc [OF sm(1) Cons]
    using u new ni len by (auto simp: alloc_shape [OF Cons] unique_addr_def eth_eq_def)
  then show ?thesis
    using alloc_slots [OF sm(1) Cons len] alloc_mids [OF sm Cons] by (simp add: table_ok_def)
qed

lemma alloc_lookup:
  assumes "table_ok D t" and "addr_ok a" and "t_lookup t a = None" and "t_alloc t a = (t', Some i)"
  shows "t_lookup t' b = (if eth_eq a (lookup_addr b) then Some i else t_lookup t b)"
proof -
  obtain q where Cons: "t_free t = i # q" using assms(4) by (cases "t_free t") (auto simp: t_alloc_def Let_def split_beta)
  have s: "slots_ok D t" using assms(1) by (simp add: table_ok_def)
  have t': "t' = fst (t_alloc t a)" using assms(4) by simp
  have ok': "table_ok D t'" unfolding t' by (rule alloc_ok [OF assms(1-3)])
  have la: "lookup_addr a = a" using assms(2) by (auto simp: addr_ok_def lookup_addr_def)
  have new: "\<not> eth_eq (t_addr t j) a" if "hashed t j" for j
    using assms(1,3) that la lookup_None_iff by metis
  have ni: "\<not> hashed t i" using s Cons by (auto simp: slots_ok_def)
  have addr: "t_addr t' = (t_addr t)(i := take ETH_ALEN a)" by (simp add: t' alloc_shape [OF Cons])
  have h: "hashed t' j \<longleftrightarrow> hashed t j \<or> j = i" for j unfolding t' by (rule hashed_alloc [OF s Cons])
  have "t_lookup t' b = Some j \<longleftrightarrow> (if eth_eq a (lookup_addr b) then j = i else t_lookup t b = Some j)" for j
    unfolding lookup_iff [OF ok'] lookup_iff [OF assms(1)] h addr
    using ni new by (auto simp: eth_eq_def)
  then show ?thesis by (metis not_None_eq)
qed

lemma alloc_addr: "t_alloc t a = (t', Some i) \<Longrightarrow> t_addr t' i = take ETH_ALEN a"
  by (cases "t_free t") (auto simp: t_alloc_def Let_def split_beta)

section \<open>The contract\<close>

text \<open>
  What a caller of the station table relies on: \<open>enter\<close> is tried only for addresses
  that are not there, and what a lookup finds changes by exactly the one station.
\<close>

locale station_table =
  fixes good :: "'s \<Rightarrow> bool"
    and valid :: "'a \<Rightarrow> bool"
    and same :: "'a \<Rightarrow> 'a \<Rightarrow> bool"
    and find_sta :: "'s \<Rightarrow> 'a \<Rightarrow> 'i option"
    and room :: "'s \<Rightarrow> bool"
    and enter :: "'s \<Rightarrow> 'a \<Rightarrow> 's \<times> 'i option"
    and leave :: "'s \<Rightarrow> 'i \<Rightarrow> 's"
  assumes enter_good: "good s \<Longrightarrow> valid a \<Longrightarrow> find_sta s a = None \<Longrightarrow> enter s a = (s', r) \<Longrightarrow> good s'"
    and enter_room: "good s \<Longrightarrow> room s \<Longrightarrow> \<exists>s' i. enter s a = (s', Some i)"
    and enter_full: "\<not> room s \<Longrightarrow> enter s a = (s, None)"
    and enter_find: "good s \<Longrightarrow> valid a \<Longrightarrow> find_sta s a = None \<Longrightarrow> enter s a = (s', Some i) \<Longrightarrow>
          find_sta s' b = (if same a b then Some i else find_sta s b)"
    and valid_same: "valid a \<Longrightarrow> same a a"
    and same_find: "good s \<Longrightarrow> valid a \<Longrightarrow> same a b \<Longrightarrow> find_sta s b = find_sta s a"
    and enter_fresh: "good s \<Longrightarrow> valid a \<Longrightarrow> find_sta s a = None \<Longrightarrow> enter s a = (s', Some i) \<Longrightarrow>
          find_sta s b \<noteq> Some i"
    and leave_good: "good s \<Longrightarrow> find_sta s a = Some i \<Longrightarrow> good (leave s i)"
    and leave_room: "good s \<Longrightarrow> find_sta s a = Some i \<Longrightarrow> room (leave s i)"
    and leave_find: "good s \<Longrightarrow> find_sta s a = Some i \<Longrightarrow>
          find_sta (leave s i) b = (if find_sta s b = Some i then None else find_sta s b)"
begin

lemma enter_leave:
  assumes "good s" "valid a" "find_sta s a = None" "enter s a = (s', Some i)"
  shows "find_sta s' a = Some i \<and> good s' \<and> (\<forall>b. find_sta (leave s' i) b = find_sta s b)"
proof -
  have g: "good s'" by (rule enter_good [OF assms])
  have f: "find_sta s' b = (if same a b then Some i else find_sta s b)" for b by (rule enter_find [OF assms])
  then have fa: "find_sta s' a = Some i" using valid_same [OF assms(2)] by simp
  have "find_sta (leave s' i) b = find_sta s b" for b
  proof (cases "same a b")
    case True
    then show ?thesis
      using leave_find [OF g fa, of b] f [of b] same_find [OF assms(1,2) True] assms(3) by simp
  next
    case False
    then show ?thesis using leave_find [OF g fa, of b] f [of b] enter_fresh [OF assms, of b] by simp
  qed
  then show ?thesis using fa g by simp
qed

lemma leave_enter:
  assumes "good s" and "find_sta s a = Some i" and "valid a"
  shows "\<exists>s' j. enter (leave s i) a = (s', Some j) \<and> good s' \<and> find_sta s' a = Some j"
proof -
  have g: "good (leave s i)" and r: "room (leave s i)"
    using leave_good leave_room assms(1,2) by blast+
  have n: "find_sta (leave s i) a = None" using leave_find [OF assms(1,2), of a] assms(2) by simp
  obtain s' j where e: "enter (leave s i) a = (s', Some j)" using enter_room [OF g r, of a] by blast
  then show ?thesis using enter_leave [OF g assms(3) n e] by blast
qed

end

definition good_table :: "adapter \<Rightarrow> bool" where
  "good_table s \<longleftrightarrow> table_ok {} (abs_table s)"

definition has_free_slot :: "adapter \<Rightarrow> bool" where
  "has_free_slot s \<longleftrightarrow> free_sta_queue (stapriv s) \<noteq> []"

lemma good_free_slots:
  "good_table s \<Longrightarrow> \<forall>i \<in> set (free_sta_queue (stapriv s)). i < length (pstainfo_buf (stapriv s))"
  by (auto simp: good_table_def table_ok_def slots_ok_def abs_table_def)

lemma alloc_table:
  "good_table s \<Longrightarrow> rtw_alloc_stainfo s a = (s', r) \<Longrightarrow> t_alloc (abs_table s) a = (abs_table s', r)"
  using alloc_refines [OF good_free_slots, of s a] by simp

lemma found_slot:
  assumes "good_table s" and "rtw_get_stainfo (stapriv s) (Some a) = Some i"
  shows "hashed (abs_table s) i" and "i < length (pstainfo_buf (stapriv s))"
proof -
  show h: "hashed (abs_table s) i"
    using assms lookup_iff [of "{}" "abs_table s" a i] by (simp add: good_table_def get_stainfo_table)
  then have "i < NUM_STA" "t_len (abs_table s) = NUM_STA"
    using assms(1) by (auto simp: good_table_def table_ok_def slots_ok_def)
  then show "i < length (pstainfo_buf (stapriv s))" by (simp add: abs_table_def)
qed

interpretation sta: station_table good_table addr_ok "\<lambda>a b. eth_eq a (lookup_addr b)"
  "\<lambda>s a. rtw_get_stainfo (stapriv s) (Some a)" has_free_slot rtw_alloc_stainfo
  "\<lambda>s i. rtw_free_stainfo s (Some i)"
proof
  fix s s' a b r i
  assume g: "good_table s" and a: "addr_ok a" and n: "rtw_get_stainfo (stapriv s) (Some a) = None"
  note ok = g [unfolded good_table_def] and n' = n [unfolded get_stainfo_table]
  show "rtw_alloc_stainfo s a = (s', r) \<Longrightarrow> good_table s'"
    using alloc_ok [OF ok a n'] alloc_table [OF g, of a s' r] by (simp add: good_table_def)
  assume e: "rtw_alloc_stainfo s a = (s', Some i)"
  note t = alloc_table [OF g e]
  show "rtw_get_stainfo (stapriv s') (Some b) =
      (if eth_eq a (lookup_addr b) then Some i else rtw_get_stainfo (stapriv s) (Some b))"
    unfolding get_stainfo_table by (rule alloc_lookup [OF ok a n' t])
  have "i \<in> set (t_free (abs_table s))"
    using t by (cases "t_free (abs_table s)") (auto simp: t_alloc_def Let_def split_beta)
  then have "\<not> hashed (abs_table s) i" using ok by (auto simp: table_ok_def slots_ok_def)
  then show "rtw_get_stainfo (stapriv s) (Some b) \<noteq> Some i"
    unfolding get_stainfo_table using lookup_iff [OF ok] by blast
next
  fix s a
  show "good_table s \<Longrightarrow> has_free_slot s \<Longrightarrow> \<exists>s' i. rtw_alloc_stainfo s a = (s', Some i)"
    by (cases "free_sta_queue (stapriv s)")
      (auto simp: has_free_slot_def rtw_alloc_stainfo_def Let_def hash_in_range)
  show "\<not> has_free_slot s \<Longrightarrow> rtw_alloc_stainfo s a = (s, None)"
    by (simp add: has_free_slot_def rtw_alloc_stainfo_def)
  show "addr_ok a \<Longrightarrow> eth_eq a (lookup_addr a)"
    by (auto simp: addr_ok_def lookup_addr_def eth_eq_def)
next
  fix s a b
  assume "good_table s" "addr_ok a" and same: "eth_eq a (lookup_addr b)"
  then have ok: "table_ok {} (abs_table s)" and la: "lookup_addr a = a"
    by (auto simp: good_table_def addr_ok_def lookup_addr_def)
  have "t_lookup (abs_table s) b = Some j \<longleftrightarrow> t_lookup (abs_table s) a = Some j" for j
    unfolding lookup_iff [OF ok] la using same by (simp add: eth_eq_def)
  then show "rtw_get_stainfo (stapriv s) (Some b) = rtw_get_stainfo (stapriv s) (Some a)"
    unfolding get_stainfo_table by (metis not_None_eq)
next
  fix s a b i
  assume g: "good_table s" and f: "rtw_get_stainfo (stapriv s) (Some a) = Some i"
  note i = found_slot [OF g f]
  note r = release_refines [OF i(2)]
  show "good_table (rtw_free_stainfo s (Some i))"
    using release_ok [OF g [unfolded good_table_def], of i] i(1) by (simp add: good_table_def r)
  have "t_free (abs_table (rtw_free_stainfo s (Some i))) \<noteq> []" by (simp add: r release_shape)
  then show "has_free_slot (rtw_free_stainfo s (Some i))" by (simp add: has_free_slot_def abs_table_def)
  show "rtw_get_stainfo (stapriv (rtw_free_stainfo s (Some i))) (Some b) =
     (if rtw_get_stainfo (stapriv s) (Some b) = Some i then None else rtw_get_stainfo (stapriv s) (Some b))"
    unfolding get_stainfo_table r by (rule release_lookup [OF g [unfolded good_table_def]]) (simp add: i(1))
qed

end
