(* ===== verification/Sta_Safe.thy ===== *)
theory Sta_Safe
  imports Sta_Table
begin

text \<open>
  The station table as a whole: the state after initialisation, the release of all
  stations, every state the driver can reach by allocating and releasing, and the
  properties of \<open>core/rtw_sta_mgt.c\<close>.
\<close>

section \<open>Initialisation\<close>

lemma init_loop:
  assumes "length (sta_hash sp) = NUM_STA" and "length (pstainfo_buf sp) = NUM_STA" and "n \<le> NUM_STA"
    and "\<forall>i. sta_of sp i = rtw_init_stainfo \<or> NUM_STA \<le> i" and "free_sta_queue sp = []"
    and "sp' = foldl (\<lambda>sp i. (upd_sta i (\<lambda>_. rtw_init_stainfo) sp)
                 \<lparr>sta_hash := (sta_hash sp)[i := []], free_sta_queue := free_sta_queue sp @ [i]\<rparr>) sp [0..<n]"
  shows "length (sta_hash sp') = NUM_STA \<and> length (pstainfo_buf sp') = NUM_STA \<and>
     (\<forall>k < n. sta_hash sp' ! k = []) \<and> free_sta_queue sp' = [0..<n] \<and> asoc_sta_count sp' = asoc_sta_count sp"
  using assms
proof (induction n arbitrary: sp')
  case 0
  then show ?case by simp
next
  case (Suc n)
  define u where "u = foldl (\<lambda>sp i. (upd_sta i (\<lambda>_. rtw_init_stainfo) sp)
      \<lparr>sta_hash := (sta_hash sp)[i := []], free_sta_queue := free_sta_queue sp @ [i]\<rparr>) sp [0..<n]"
  have ih: "length (sta_hash u) = NUM_STA \<and> length (pstainfo_buf u) = NUM_STA \<and>
     (\<forall>k < n. sta_hash u ! k = []) \<and> free_sta_queue u = [0..<n] \<and> asoc_sta_count u = asoc_sta_count sp"
    by (rule Suc.IH) (use Suc.prems u_def in auto)
  have "sp' = (upd_sta n (\<lambda>_. rtw_init_stainfo) u)
      \<lparr>sta_hash := (sta_hash u)[n := []], free_sta_queue := free_sta_queue u @ [n]\<rparr>"
    using Suc.prems(6) by (simp add: u_def)
  then show ?case using ih Suc.prems(3) by (auto simp: nth_list_update less_Suc_eq upd_sta_def)
qed

text \<open>The adapter with its station table set up and no MAC id given out.\<close>

definition booted :: "adapter \<Rightarrow> bool" where
  "booted s \<longleftrightarrow>
     (\<exists>sp. length (sta_hash sp) = NUM_STA \<and> rtw_init_sta_priv True sp = Some (stapriv s)) \<and>
     macid_ok (macid_ctl s) \<and> (\<forall>n < MACID_NUM_SW_LIMIT. macid_sta (macid_ctl s) ! n = None)"

lemma booted_slots:
  assumes "booted s"
  shows "length (pstainfo_buf (stapriv s)) = NUM_STA" "length (sta_hash (stapriv s)) = NUM_STA"
    "\<forall>k < NUM_STA. sta_hash (stapriv s) ! k = []" "free_sta_queue (stapriv s) = [0..<NUM_STA]"
    "asoc_sta_count (stapriv s) = 0"
proof -
  obtain sp where len: "length (sta_hash sp) = NUM_STA" and i: "rtw_init_sta_priv True sp = Some (stapriv s)"
    using assms by (auto simp: booted_def)
  let ?sp = "sp\<lparr>free_sta_queue := [], asoc_sta_count := 0, stas_sleep_q := [], wakeup_q := [],
      pstainfo_buf := replicate NUM_STA rtw_init_stainfo\<rparr>"
  define l where "l = foldl (\<lambda>sp i. (upd_sta i (\<lambda>_. rtw_init_stainfo) sp)
      \<lparr>sta_hash := (sta_hash sp)[i := []], free_sta_queue := free_sta_queue sp @ [i]\<rparr>) ?sp [0..<NUM_STA]"
  have l: "length (sta_hash l) = NUM_STA \<and> length (pstainfo_buf l) = NUM_STA \<and>
     (\<forall>k < NUM_STA. sta_hash l ! k = []) \<and> free_sta_queue l = [0..<NUM_STA] \<and>
     asoc_sta_count l = asoc_sta_count ?sp"
    by (rule init_loop [where sp = ?sp, OF _ _ order.refl _ _ l_def]) (auto simp: len sta_of_def)
  have "stapriv s = l\<lparr>adhoc_expire_to := 4, sta_dz_bitmap := 0, tim_bitmap := 0, asoc_list := [],
      auth_list := [], asoc_list_cnt := 0, auth_list_cnt := 0, auth_to := 3, assoc_to := 3,
      expire_to := 60, max_num_sta := of_nat NUM_STA\<rparr>"
    using i unfolding rtw_init_sta_priv_def Let_def l_def by simp
  then show "length (pstainfo_buf (stapriv s)) = NUM_STA" "length (sta_hash (stapriv s)) = NUM_STA"
    "\<forall>k < NUM_STA. sta_hash (stapriv s) ! k = []" "free_sta_queue (stapriv s) = [0..<NUM_STA]"
    "asoc_sta_count (stapriv s) = 0"
    using l by simp_all
qed

lemma booted_good: "booted s \<Longrightarrow> good_table s"
proof -
  assume b: "booted s"
  note bs = booted_slots [OF b]
  have nh: "\<not> hashed (abs_table s) i" for i
    using bs(3) hash_lt_NUM by (auto simp: hashed_def abs_table_def)
  have "slots_ok {} (abs_table s)"
    unfolding slots_ok_def using nh bs by (auto simp: abs_table_def)
  moreover have "mids_ok {} (abs_table s)"
    unfolding mids_ok_def using nh b by (auto simp: abs_table_def booted_def)
  moreover have "unique_addr (abs_table s)" by (simp add: unique_addr_def nh)
  ultimately show ?thesis by (simp add: good_table_def table_ok_def)
qed

section \<open>Release of all stations\<close>

lemma unlink_ok:
  assumes "table_ok D t" and "hashed t i" and "t' = t\<lparr>t_hash := map (removeAll i) (t_hash t)\<rparr>"
  shows "table_ok (insert i D) t'" and "hashed t' j \<longleftrightarrow> hashed t j \<and> j \<noteq> i"
proof -
  have len: "length (t_hash t) = NUM_STA" using assms(1) by (simp add: table_ok_def slots_ok_def)
  have h: "hashed t' j \<longleftrightarrow> hashed t j \<and> j \<noteq> i" for j
    by (rule hashed_unlink) (simp_all add: len assms(3))
  show "hashed t' j \<longleftrightarrow> hashed t j \<and> j \<noteq> i" by (rule h)
  have "slots_ok (insert i D) t'"
    unfolding slots_ok_def h
  proof (intro conjI)
    show "\<forall>k < NUM_STA. distinct (t_hash t' ! k) \<and> (\<forall>j \<in> set (t_hash t' ! k).
        unat (wifi_mac_hash (t_addr t' j)) = k \<and> length (t_addr t' j) = ETH_ALEN)"
      using assms(1) len by (auto simp: assms(3) table_ok_def slots_ok_def distinct_removeAll)
  qed (use assms(1,2) in \<open>auto simp: assms(3) table_ok_def slots_ok_def\<close>)
  moreover have "mid_ok t' j = mid_ok t j" for j by (simp add: mid_ok_def assms(3))
  then have "mids_ok (insert i D) t'"
    using assms(1,2) by (auto simp: table_ok_def mids_ok_def h) (auto simp: assms(3))
  moreover have "unique_addr t'"
    using assms(1) by (simp add: table_ok_def unique_addr_def h) (simp add: assms(3))
  ultimately show "table_ok (insert i D) t'" by (simp add: table_ok_def)
qed

lemma collect_table:
  "abs_table (fst (free_all_collect bcmc (s, l) i)) =
     (if bcmc = Some i then abs_table s
      else (abs_table s)\<lparr>t_hash := map (removeAll i) (t_hash (abs_table s))\<rparr>)"
  by (simp add: free_all_collect_def abs_table_def on_stapriv_def)

lemma collect_list:
  "i < NUM_STA \<Longrightarrow> snd (free_all_collect bcmc (s, l) i) = (if bcmc = Some i then l else l @ [i])"
  by (simp add: free_all_collect_def stainfo_offset_valid_def)

text \<open>One bucket: every station of it except the bc/mc one is now in transit.\<close>

lemma collect_bucket:
  assumes "table_ok (set l) (abs_table s)" and "distinct l" and "distinct is"
    and "\<forall>j \<in> set is. hashed (abs_table s) j" and "foldl (free_all_collect bcmc) (s, l) is = (s', l')"
  shows "table_ok (set l') (abs_table s') \<and> distinct l' \<and> t_addr (abs_table s') = t_addr (abs_table s) \<and>
     (\<forall>j. hashed (abs_table s') j \<longleftrightarrow> hashed (abs_table s) j \<and> (j \<notin> set is \<or> bcmc = Some j))"
  using assms
proof (induction "is" arbitrary: s l)
  case Nil
  then show ?case by simp
next
  case (Cons i rest)
  obtain s1 l1 where c: "free_all_collect bcmc (s, l) i = (s1, l1)" by fastforce
  have hi: "hashed (abs_table s) i" using Cons.prems(4) by simp
  then have lt: "i < NUM_STA" and nl: "i \<notin> set l"
    using Cons.prems(1) by (auto simp: table_ok_def slots_ok_def)
  have t1: "abs_table s1 = (if bcmc = Some i then abs_table s
      else (abs_table s)\<lparr>t_hash := map (removeAll i) (t_hash (abs_table s))\<rparr>)"
    using collect_table [of bcmc s l i] c by simp
  have l1: "l1 = (if bcmc = Some i then l else l @ [i])"
    using collect_list [OF lt, of bcmc s l] c by simp
  have ok1: "table_ok (set l1) (abs_table s1)"
    and h1: "\<And>j. hashed (abs_table s1) j \<longleftrightarrow> hashed (abs_table s) j \<and> (j \<noteq> i \<or> bcmc = Some i)"
    using unlink_ok [OF Cons.prems(1) hi refl] Cons.prems(1) by (auto simp: t1 l1)
  have a1: "t_addr (abs_table s1) = t_addr (abs_table s)" by (simp add: t1)
  have "table_ok (set l') (abs_table s') \<and> distinct l' \<and> t_addr (abs_table s') = t_addr (abs_table s1) \<and>
     (\<forall>j. hashed (abs_table s') j \<longleftrightarrow> hashed (abs_table s1) j \<and> (j \<notin> set rest \<or> bcmc = Some j))"
  proof (rule Cons.IH [OF ok1])
    show "distinct l1" "distinct rest" using Cons.prems(2,3) nl by (auto simp: l1)
    show "\<forall>j \<in> set rest. hashed (abs_table s1) j" using Cons.prems(3,4) by (auto simp: h1)
    show "foldl (free_all_collect bcmc) (s1, l1) rest = (s', l')" using Cons.prems(5) c by simp
  qed
  then show ?case using a1 h1 Cons.prems(3) by auto
qed

lemma collect_all:
  assumes "table_ok {} (abs_table s)" and "n \<le> NUM_STA"
    and "foldl (\<lambda>acc index. foldl (free_all_collect bcmc) acc (sta_hash (stapriv (fst acc)) ! index))
           (s, []) [0..<n] = (s', l')"
  shows "table_ok (set l') (abs_table s') \<and> distinct l' \<and> t_addr (abs_table s') = t_addr (abs_table s) \<and>
     (\<forall>j. hashed (abs_table s') j \<longleftrightarrow> hashed (abs_table s) j \<and>
        (n \<le> unat (wifi_mac_hash (t_addr (abs_table s) j)) \<or> bcmc = Some j))"
  using assms(2,3)
proof (induction n arbitrary: s' l')
  case 0
  then show ?case using assms(1) by simp
next
  case (Suc n)
  obtain s1 l1 where f: "foldl (\<lambda>acc index. foldl (free_all_collect bcmc) acc (sta_hash (stapriv (fst acc)) ! index))
      (s, []) [0..<n] = (s1, l1)" by fastforce
  have n: "n < NUM_STA" using Suc.prems(1) by simp
  have ih: "table_ok (set l1) (abs_table s1) \<and> distinct l1 \<and> t_addr (abs_table s1) = t_addr (abs_table s) \<and>
     (\<forall>j. hashed (abs_table s1) j \<longleftrightarrow> hashed (abs_table s) j \<and>
        (n \<le> unat (wifi_mac_hash (t_addr (abs_table s) j)) \<or> bcmc = Some j))"
    by (rule Suc.IH) (use n f in auto)
  then have sl: "slots_ok (set l1) (abs_table s1)" by (simp add: table_ok_def)
  let ?b = "sta_hash (stapriv s1) ! n"
  have b: "?b = t_hash (abs_table s1) ! n" by (simp add: abs_table_def)
  have last: "foldl (free_all_collect bcmc) (s1, l1) ?b = (s', l')" using Suc.prems(2) f by simp
  have inb: "j \<in> set ?b \<longleftrightarrow> hashed (abs_table s1) j \<and> unat (wifi_mac_hash (t_addr (abs_table s1) j)) = n" for j
    using in_bucket [OF sl n, of j] by (auto simp: b hashed_def)
  have "table_ok (set l') (abs_table s') \<and> distinct l' \<and> t_addr (abs_table s') = t_addr (abs_table s1) \<and>
     (\<forall>j. hashed (abs_table s') j \<longleftrightarrow> hashed (abs_table s1) j \<and> (j \<notin> set ?b \<or> bcmc = Some j))"
  proof (rule collect_bucket [OF _ _ _ _ last])
    show "distinct ?b" using sl n by (simp add: slots_ok_def b)
  qed (use ih inb in auto)
  then show ?case using ih inb by auto
qed

lemma release_list:
  assumes "table_ok (set l) (abs_table s)" and "distinct l"
  shows "table_ok {} (abs_table (foldl (\<lambda>s i. rtw_free_stainfo s (Some i)) s l)) \<and>
     (\<forall>j. hashed (abs_table (foldl (\<lambda>s i. rtw_free_stainfo s (Some i)) s l)) j \<longleftrightarrow> hashed (abs_table s) j) \<and>
     t_addr (abs_table (foldl (\<lambda>s i. rtw_free_stainfo s (Some i)) s l)) = t_addr (abs_table s)"
  using assms
proof (induction l arbitrary: s)
  case Nil
  then show ?case by simp
next
  case (Cons i l)
  have sl: "slots_ok (set (i # l)) (abs_table s)" using Cons.prems(1) by (simp add: table_ok_def)
  have "t_len (abs_table s) = NUM_STA" and "i < NUM_STA" and ni: "\<not> hashed (abs_table s) i"
    using sl by (auto simp: slots_ok_def)
  then have "i < length (pstainfo_buf (stapriv s))" by (simp add: abs_table_def)
  note r = release_refines [OF this]
  have "table_ok (set (i # l) - {i}) (abs_table (rtw_free_stainfo s (Some i)))"
    unfolding r by (rule release_ok [OF Cons.prems(1)]) simp
  then have ok: "table_ok (set l) (abs_table (rtw_free_stainfo s (Some i)))"
    using Cons.prems(2) by (simp add: insert_Diff_if)
  have h: "hashed (abs_table (rtw_free_stainfo s (Some i))) j \<longleftrightarrow> hashed (abs_table s) j" for j
    unfolding r hashed_release [OF sl] using ni by auto
  have a: "t_addr (abs_table (rtw_free_stainfo s (Some i))) = t_addr (abs_table s)"
    unfolding r by (simp add: release_shape)
  show ?case using Cons.IH [OF ok] Cons.prems(2) h a by simp
qed

lemma free_all_ok:
  assumes "good_table s" and "asoc_sta_count (stapriv s) \<noteq> 1"
  shows "good_table (rtw_free_all_stainfo s) \<and> t_addr (abs_table (rtw_free_all_stainfo s)) = t_addr (abs_table s) \<and>
     (\<forall>j. hashed (abs_table (rtw_free_all_stainfo s)) j \<longleftrightarrow>
        hashed (abs_table s) j \<and> rtw_get_bcmc_stainfo s = Some j)"
proof -
  obtain s' l where c: "foldl (\<lambda>acc index. foldl (free_all_collect (rtw_get_bcmc_stainfo s)) acc
      (sta_hash (stapriv (fst acc)) ! index)) (s, []) [0..<NUM_STA] = (s', l)" by fastforce
  have r: "rtw_free_all_stainfo s = foldl (\<lambda>s i. rtw_free_stainfo s (Some i)) s' l"
    using assms(2) c by (simp add: rtw_free_all_stainfo_def Let_def)
  note col = collect_all [OF assms(1) [unfolded good_table_def] order.refl c]
  have "hashed (abs_table s') j \<longleftrightarrow> hashed (abs_table s) j \<and> rtw_get_bcmc_stainfo s = Some j" for j
    using col hash_lt_NUM [of "t_addr (abs_table s) j"] by (auto simp del: hash_lt_NUM)
  then show ?thesis
    using release_list [of l s'] col by (simp add: r good_table_def)
qed

lemma one_station:
  assumes "good_table s" and "asoc_sta_count (stapriv s) = 1" and "hashed (abs_table s) i" and "hashed (abs_table s) j"
  shows "i = j"
proof (rule ccontr)
  assume "i \<noteq> j"
  have sl: "slots_ok {} (abs_table s)" using assms(1) by (simp add: good_table_def table_ok_def)
  have "set (t_free (abs_table s)) \<subseteq> {..<NUM_STA} - {i, j}" and ij: "i < NUM_STA" "j < NUM_STA"
    using sl assms(3,4) by (auto simp: slots_ok_def)
  then have "card (set (t_free (abs_table s))) \<le> card ({..<NUM_STA} - {i, j})" by (intro card_mono) auto
  also have "\<dots> = NUM_STA - 2" using ij \<open>i \<noteq> j\<close> by (simp add: card_Diff_subset)
  finally have "length (t_free (abs_table s)) \<le> NUM_STA - 2"
    using sl by (simp add: slots_ok_def distinct_card)
  moreover have "t_count (abs_table s) = 1" using assms(2) by (simp add: abs_table_def)
  ultimately show False using sl by (simp add: slots_ok_def NUM_STA_def)
qed

section \<open>Reachable states\<close>

text \<open>
  What the rest of the driver does with the table: a station is allocated after a lookup
  has failed, released after it was found, or all are released on a mode change; in
  between, the records of stations may change in every field but the ones the table owns.
\<close>

inductive sta_reachable :: "adapter \<Rightarrow> bool" where
  boot: "booted s \<Longrightarrow> sta_reachable s"
| alloc: "sta_reachable s \<Longrightarrow> addr_ok a \<Longrightarrow> rtw_get_stainfo (stapriv s) (Some a) = None \<Longrightarrow>
    sta_reachable (fst (rtw_alloc_stainfo s a))"
| release: "sta_reachable s \<Longrightarrow> rtw_get_stainfo (stapriv s) (Some a) = Some i \<Longrightarrow>
    sta_reachable (rtw_free_stainfo s (Some i))"
| release_all: "sta_reachable s \<Longrightarrow> sta_reachable (rtw_free_all_stainfo s)"
| other: "sta_reachable s \<Longrightarrow> abs_table s' = abs_table s \<Longrightarrow> sta_reachable s'"

lemma reachable_good: "sta_reachable s \<Longrightarrow> good_table s"
proof (induction rule: sta_reachable.induct)
  case (boot s)
  then show ?case by (rule booted_good)
next
  case (alloc s a)
  obtain s' r where e: "rtw_alloc_stainfo s a = (s', r)" by fastforce
  show ?case using sta.enter_good [OF alloc.IH alloc.hyps(2,3) e] e by simp
next
  case (release s a i)
  then show ?case using sta.leave_good by blast
next
  case (release_all s)
  show ?case
  proof (cases "asoc_sta_count (stapriv s) = 1")
    case True
    then show ?thesis using release_all by (simp add: rtw_free_all_stainfo_def Let_def)
  next
    case False
    then show ?thesis using free_all_ok release_all by blast
  qed
next
  case (other s s')
  then show ?case by (simp add: good_table_def)
qed

section \<open>An example adapter\<close>

definition sta_boot :: adapter where
  "sta_boot = \<lparr>mac_addr = [2, 2, 2, 2, 2, 2], iface_id = 0,
     stapriv = the (rtw_init_sta_priv True
       \<lparr>pstainfo_buf = [], free_sta_queue = [], sta_hash = replicate 32 [], asoc_sta_count = 0,
        stas_sleep_q = [], wakeup_q = [], adhoc_expire_to = 0, asoc_list = [], auth_list = [],
        asoc_list_cnt = 0, auth_list_cnt = 0, auth_to = 0, assoc_to = 0, expire_to = 0,
        sta_aid = replicate 32 None, sta_dz_bitmap = 0, tim_bitmap = 0, max_num_sta = 0,
        acl_mode = 0, acl_node_q = []\<rparr>),
     macid_ctl = \<lparr>macid_num = 16, macid_used = 0, macid_bmc = 0, macid_if_g = replicate 4 0,
       macid_ch_g = [0, 0], macid_h2c_msr = replicate 32 0, macid_sta = replicate 32 None\<rparr>,
     hw_pending = replicate 4 [], hw_accnt = replicate 4 0, drv_calls = []\<rparr>"

definition sta_ex :: "bytes \<Rightarrow> adapter" where
  "sta_ex a = fst (rtw_alloc_stainfo sta_boot a)"

lemma sta_boot_booted: "booted sta_boot"
proof -
  have "rtw_init_sta_priv True sp \<noteq> None" for sp by (simp add: rtw_init_sta_priv_def)
  then show ?thesis
    by (auto simp: booted_def sta_boot_def macid_ok_def MACID_NUM_SW_LIMIT_def IFACE_ID_MAX_def NUM_STA_def
        intro!: exI)
qed

lemma sta_boot_none: "rtw_get_stainfo (stapriv sta_boot) (Some a) = None"
  using booted_slots(3) [OF sta_boot_booted] hash_lt_NUM
  by (simp add: rtw_get_stainfo_def Let_def)

lemma sta_ex_alloc: "rtw_alloc_stainfo sta_boot a = (sta_ex a, Some 0)"
proof -
  have "free_sta_queue (stapriv sta_boot) = 0 # [Suc 0..<NUM_STA]"
    using booted_slots(4) [OF sta_boot_booted] by (simp add: NUM_STA_def upt_conv_Cons)
  then show ?thesis by (simp add: sta_ex_def rtw_alloc_stainfo_def Let_def hash_in_range)
qed

lemma sta_ex_reachable: "addr_ok a \<Longrightarrow> sta_reachable (sta_ex a)"
  unfolding sta_ex_def using sta_reachable.alloc [OF sta_reachable.boot [OF sta_boot_booted] _ sta_boot_none] .

lemma sta_ex_found: "addr_ok a \<Longrightarrow> rtw_get_stainfo (stapriv (sta_ex a)) (Some a) = Some 0"
  using sta.enter_leave [OF booted_good [OF sta_boot_booted] _ sta_boot_none sta_ex_alloc] by blast

lemma sta_ex_mac_id: "mac_id (sta_of (stapriv (sta_ex [4, 4, 4, 4, 4, 4])) 0) = 0"
  "macid_num (macid_ctl (sta_ex [4, 4, 4, 4, 4, 4])) = 16"
proof -
  let ?a = "[4, 4, 4, 4, 4, 4] :: bytes"
  note t = alloc_table [OF booted_good [OF sta_boot_booted] sta_ex_alloc [of ?a]]
  have "t_free (abs_table sta_boot) = 0 # [Suc 0..<NUM_STA]"
    using booted_slots(4) [OF sta_boot_booted] by (simp add: abs_table_def NUM_STA_def upt_conv_Cons)
  note sh = alloc_shape [OF this, of ?a]
  have c: "t_ctl (abs_table sta_boot) = macid_ctl sta_boot" "t_self (abs_table sta_boot) = [2, 2, 2, 2, 2, 2]"
    by (simp_all add: abs_table_def sta_boot_def)
  have "macid_scan (macid_ctl sta_boot) 0 = 0"
    by (subst macid_scan.simps) (simp add: sta_boot_def rtw_macid_is_used_def is_set_iff)
  then have "snd (rtw_alloc_macid [2, 2, 2, 2, 2, 2] f (macid_ctl sta_boot) 0 ?a) = 0" for f
    using addr_ex by (simp add: rtw_alloc_macid_def Let_def) (simp add: sta_boot_def)
  then have "t_mid (abs_table (sta_ex ?a)) 0 = 0" "macid_num (t_ctl (abs_table (sta_ex ?a))) = 16"
    using t sh c by (auto simp: ETH_ALEN_def numeral_eq_Suc dest!: sym [of _ "abs_table (sta_ex ?a)"])
      (simp_all add: sta_boot_def)
  then show "mac_id (sta_of (stapriv (sta_ex ?a)) 0) = 0" "macid_num (macid_ctl (sta_ex ?a)) = 16"
    by (simp_all add: abs_table_def)
qed

lemma addr_ok_ex: "addr_ok bc_addr" "addr_ok [4, 4, 4, 4, 4, 4]"
  by (simp_all add: addr_ok_def bc_addr_def ETH_ALEN_def IS_MCAST_def)

section \<open>Properties\<close>

text \<open>
  C2: in every state reachable from initialisation by allocations, releases and
  the release of all stations, each of the 32 slots is either in the free queue or linked
  exactly once, in the bucket of its own address; the station count is the number
  of slots not free; and no two linked stations have the same address.
\<close>

theorem sta_slots_partition:
  assumes "sta_reachable s"
  shows "length (pstainfo_buf (stapriv s)) = 32 \<and> distinct (free_sta_queue (stapriv s)) \<and>
    asoc_sta_count (stapriv s) = 32 - int (length (free_sta_queue (stapriv s))) \<and>
    (\<forall>i < 32. i \<in> set (free_sta_queue (stapriv s)) \<longleftrightarrow>
       (\<forall>k < 32. i \<notin> set (sta_hash (stapriv s) ! k))) \<and>
    (\<forall>k < 32. distinct (sta_hash (stapriv s) ! k)) \<and>
    (\<forall>k < 32. \<forall>i \<in> set (sta_hash (stapriv s) ! k).
       i < 32 \<and> unat (wifi_mac_hash (hwaddr (sta_of (stapriv s) i))) = k) \<and>
    (\<forall>k < 32. \<forall>i \<in> set (sta_hash (stapriv s) ! k). \<forall>j \<in> set (sta_hash (stapriv s) ! k).
       hwaddr (sta_of (stapriv s) i) = hwaddr (sta_of (stapriv s) j) \<longrightarrow> i = j)"
proof -
  have ok: "slots_ok {} (abs_table s)" and u: "unique_addr (abs_table s)"
    using reachable_good [OF assms] by (simp_all add: good_table_def table_ok_def)
  have f: "t_hash (abs_table s) = sta_hash (stapriv s)" "t_free (abs_table s) = free_sta_queue (stapriv s)"
    "t_addr (abs_table s) i = hwaddr (sta_of (stapriv s) i)"
    "t_count (abs_table s) = asoc_sta_count (stapriv s)" "t_len (abs_table s) = length (pstainfo_buf (stapriv s))" for i
    by (simp_all add: abs_table_def)
  have b: "hashed (abs_table s) i \<and> i < 32 \<and> unat (wifi_mac_hash (hwaddr (sta_of (stapriv s) i))) = k"
    if "k < 32" "i \<in> set (sta_hash (stapriv s) ! k)" for i k
    using in_bucket [OF ok, of k i] that by (simp add: f NUM_STA_def)
  have h: "\<exists>k < 32. i \<in> set (sta_hash (stapriv s) ! k)" if "hashed (abs_table s) i" for i
    using that wifi_mac_hash_lt unfolding hashed_def f by blast
  have fr: "i \<in> set (free_sta_queue (stapriv s)) \<longleftrightarrow> i < 32 \<and> \<not> hashed (abs_table s) i" for i
    using ok unfolding slots_ok_def f NUM_STA_def by blast
  have "\<forall>i < 32. i \<in> set (free_sta_queue (stapriv s)) \<longleftrightarrow> (\<forall>k < 32. i \<notin> set (sta_hash (stapriv s) ! k))"
    using fr b h by blast
  moreover have "hwaddr (sta_of (stapriv s) i) = hwaddr (sta_of (stapriv s) j) \<Longrightarrow> i = j"
    if "k < 32" "i \<in> set (sta_hash (stapriv s) ! k)" "j \<in> set (sta_hash (stapriv s) ! k)" for i j k
    using u b that unfolding unique_addr_def f eth_eq_def by metis
  moreover have "length (pstainfo_buf (stapriv s)) = 32" "distinct (free_sta_queue (stapriv s))"
    "asoc_sta_count (stapriv s) = 32 - int (length (free_sta_queue (stapriv s)))"
    "\<forall>k < 32. distinct (sta_hash (stapriv s) ! k)"
    using ok unfolding slots_ok_def f NUM_STA_def by simp_all
  ultimately show ?thesis using b by blast
qed

theorem sta_slots_partition_witness:
  "length (pstainfo_buf (stapriv (sta_ex bc_addr))) = 32 \<and>
   asoc_sta_count (stapriv (sta_ex bc_addr)) = 32 - int (length (free_sta_queue (stapriv (sta_ex bc_addr)))) \<and>
   distinct (sta_hash (stapriv (sta_ex bc_addr)) ! 5)"
  using sta_slots_partition [OF sta_ex_reachable [OF addr_ok_ex(1)]] by simp



text \<open>
  C4: allocating a station for an address that is not in the table succeeds exactly when a
  slot is free; the address, and every multicast address for the broadcast station, then
  finds the new slot, every other address finds what it found before, and
  releasing the slot brings every lookup back.
\<close>

theorem sta_alloc_release:
  assumes "sta_reachable s" and "addr_ok a" and "rtw_get_stainfo (stapriv s) (Some a) = None"
  shows "(case rtw_alloc_stainfo s a of
       (s', None) \<Rightarrow> s' = s \<and> free_sta_queue (stapriv s) = []
     | (s', Some i) \<Rightarrow> free_sta_queue (stapriv s) \<noteq> [] \<and> hwaddr (sta_of (stapriv s') i) = a \<and>
         (\<forall>b. rtw_get_stainfo (stapriv s') (Some b) =
            (if eth_eq a (lookup_addr b) then Some i else rtw_get_stainfo (stapriv s) (Some b))) \<and>
         (\<forall>b. rtw_get_stainfo (stapriv (rtw_free_stainfo s' (Some i))) (Some b) =
            rtw_get_stainfo (stapriv s) (Some b)))"
proof -
  have g: "good_table s" by (rule reachable_good [OF assms(1)])
  show ?thesis
  proof (cases "has_free_slot s")
    case False
    then show ?thesis using sta.enter_full [of s a] by (simp add: has_free_slot_def)
  next
    case True
    obtain s' i where e: "rtw_alloc_stainfo s a = (s', Some i)" using sta.enter_room [OF g True] by blast
    have "t_addr (abs_table s') i = take ETH_ALEN a"
      using alloc_table [OF g e] by (rule alloc_addr)
    then have "hwaddr (sta_of (stapriv s') i) = a" using assms(2) by (simp add: abs_table_def addr_ok_def)
    then show ?thesis
      using sta.enter_leave [OF g assms(2,3) e] sta.enter_find [OF g assms(2,3) e] True
      by (simp add: e has_free_slot_def)
  qed
qed

theorem sta_alloc_release_witness:
  "\<exists>s' i. rtw_alloc_stainfo sta_boot bc_addr = (s', Some i) \<and> hwaddr (sta_of (stapriv s') i) = bc_addr \<and>
     (\<forall>b. rtw_get_stainfo (stapriv (rtw_free_stainfo s' (Some i))) (Some b) =
        rtw_get_stainfo (stapriv sta_boot) (Some b))"
  using sta_alloc_release [OF sta_reachable.boot [OF sta_boot_booted] addr_ok_ex(1) sta_boot_none] sta_ex_alloc
  by simp

text \<open>
  Releasing all stations leaves exactly the broadcast station: its lookup is
  unchanged and no unicast address is found any more.
\<close>

theorem sta_free_all:
  assumes "sta_reachable s" and "rtw_get_bcmc_stainfo s = Some i"
  shows "rtw_get_stainfo (stapriv (rtw_free_all_stainfo s)) (Some b) =
           (if rtw_get_stainfo (stapriv s) (Some b) = Some i then Some i else None)"
proof -
  have g: "good_table s" by (rule reachable_good [OF assms(1)])
  have hi: "hashed (abs_table s) i" by (rule found_slot(1) [OF g]) (use assms(2) in \<open>simp add: rtw_get_bcmc_stainfo_def\<close>)
  have r: "good_table (rtw_free_all_stainfo s) \<and> t_addr (abs_table (rtw_free_all_stainfo s)) = t_addr (abs_table s) \<and>
     (\<forall>j. hashed (abs_table (rtw_free_all_stainfo s)) j \<longleftrightarrow> j = i)"
  proof (cases "asoc_sta_count (stapriv s) = 1")
    case True
    then show ?thesis
      using g hi one_station [OF g True] by (auto simp: rtw_free_all_stainfo_def Let_def)
  next
    case False
    then show ?thesis using free_all_ok [OF g False] assms(2) hi by auto
  qed
  note ok = g [unfolded good_table_def] and ok' = conjunct1 [OF r, unfolded good_table_def]
  have "t_lookup (abs_table (rtw_free_all_stainfo s)) b = Some j \<longleftrightarrow>
      t_lookup (abs_table s) b = Some i \<and> j = i" for j
    unfolding lookup_iff [OF ok'] lookup_iff [OF ok] using r hi by auto
  then show ?thesis unfolding get_stainfo_table by (metis not_None_eq)
qed

theorem sta_free_all_witness:
  "rtw_get_stainfo (stapriv (rtw_free_all_stainfo (sta_ex bc_addr))) (Some bc_addr) = Some 0"
  using sta_free_all [OF sta_ex_reachable [OF addr_ok_ex(1)], of 0 bc_addr] sta_ex_found [OF addr_ok_ex(1)]
  by (simp add: rtw_get_bcmc_stainfo_def)

text \<open>
  The result of \<open>rtw_init_bcmc_stainfo\<close> says nothing: with no slot left it reports
  success and the table has no broadcast station.
\<close>

lemma init_bcmc_hides_failure:
  assumes "free_sta_queue (stapriv s) = []"
  shows "rtw_init_bcmc_stainfo s = (s, True)"
  using assms by (simp add: rtw_init_bcmc_stainfo_def rtw_alloc_stainfo_def)

end
