(* ===== verification/Sec_Aes.thy ===== *)
theory Sec_Aes
  imports Drv_Prelude
begin

text \<open>
  The byte-oriented AES-128 of \<open>core/rtw_security.c\<close> (\<open>aes128k128d\<close> and the
  steps it is made of), on blocks and keys as lists of 16 bytes. The lemmas relate its
  steps to the arithmetic of GF(2^8) that defines them: the S-box is the affine image of
  the inverse, \<open>mix_column\<close> the product with the fixed polynomial.
\<close>

section \<open>The steps\<close>

definition sbox_table :: bytes where
  "sbox_table = [
     0x63, 0x7c, 0x77, 0x7b, 0xf2, 0x6b, 0x6f, 0xc5,
     0x30, 0x01, 0x67, 0x2b, 0xfe, 0xd7, 0xab, 0x76,
     0xca, 0x82, 0xc9, 0x7d, 0xfa, 0x59, 0x47, 0xf0,
     0xad, 0xd4, 0xa2, 0xaf, 0x9c, 0xa4, 0x72, 0xc0,
     0xb7, 0xfd, 0x93, 0x26, 0x36, 0x3f, 0xf7, 0xcc,
     0x34, 0xa5, 0xe5, 0xf1, 0x71, 0xd8, 0x31, 0x15,
     0x04, 0xc7, 0x23, 0xc3, 0x18, 0x96, 0x05, 0x9a,
     0x07, 0x12, 0x80, 0xe2, 0xeb, 0x27, 0xb2, 0x75,
     0x09, 0x83, 0x2c, 0x1a, 0x1b, 0x6e, 0x5a, 0xa0,
     0x52, 0x3b, 0xd6, 0xb3, 0x29, 0xe3, 0x2f, 0x84,
     0x53, 0xd1, 0x00, 0xed, 0x20, 0xfc, 0xb1, 0x5b,
     0x6a, 0xcb, 0xbe, 0x39, 0x4a, 0x4c, 0x58, 0xcf,
     0xd0, 0xef, 0xaa, 0xfb, 0x43, 0x4d, 0x33, 0x85,
     0x45, 0xf9, 0x02, 0x7f, 0x50, 0x3c, 0x9f, 0xa8,
     0x51, 0xa3, 0x40, 0x8f, 0x92, 0x9d, 0x38, 0xf5,
     0xbc, 0xb6, 0xda, 0x21, 0x10, 0xff, 0xf3, 0xd2,
     0xcd, 0x0c, 0x13, 0xec, 0x5f, 0x97, 0x44, 0x17,
     0xc4, 0xa7, 0x7e, 0x3d, 0x64, 0x5d, 0x19, 0x73,
     0x60, 0x81, 0x4f, 0xdc, 0x22, 0x2a, 0x90, 0x88,
     0x46, 0xee, 0xb8, 0x14, 0xde, 0x5e, 0x0b, 0xdb,
     0xe0, 0x32, 0x3a, 0x0a, 0x49, 0x06, 0x24, 0x5c,
     0xc2, 0xd3, 0xac, 0x62, 0x91, 0x95, 0xe4, 0x79,
     0xe7, 0xc8, 0x37, 0x6d, 0x8d, 0xd5, 0x4e, 0xa9,
     0x6c, 0x56, 0xf4, 0xea, 0x65, 0x7a, 0xae, 0x08,
     0xba, 0x78, 0x25, 0x2e, 0x1c, 0xa6, 0xb4, 0xc6,
     0xe8, 0xdd, 0x74, 0x1f, 0x4b, 0xbd, 0x8b, 0x8a,
     0x70, 0x3e, 0xb5, 0x66, 0x48, 0x03, 0xf6, 0x0e,
     0x61, 0x35, 0x57, 0xb9, 0x86, 0xc1, 0x1d, 0x9e,
     0xe1, 0xf8, 0x98, 0x11, 0x69, 0xd9, 0x8e, 0x94,
     0x9b, 0x1e, 0x87, 0xe9, 0xce, 0x55, 0x28, 0xdf,
     0x8c, 0xa1, 0x89, 0x0d, 0xbf, 0xe6, 0x42, 0x68,
     0x41, 0x99, 0x2d, 0x0f, 0xb0, 0x54, 0xbb, 0x16]"

definition xor_128 :: "bytes \<Rightarrow> bytes \<Rightarrow> bytes" where
  "xor_128 a b = map (\<lambda>i. a ! i XOR b ! i) [0..<16]"

definition xor_32 :: "bytes \<Rightarrow> bytes \<Rightarrow> bytes" where
  "xor_32 a b = map (\<lambda>i. a ! i XOR b ! i) [0..<4]"

definition sbox :: "u8 \<Rightarrow> u8" where "sbox a = sbox_table ! unat a"

definition rcon_table :: bytes where
  "rcon_table = [0x01, 0x02, 0x04, 0x08, 0x10, 0x20, 0x40, 0x80, 0x1b, 0x36, 0x36, 0x36]"

text \<open>The round key is overwritten word by word, each word using the one before it.\<close>

definition next_key :: "bytes \<Rightarrow> nat \<Rightarrow> bytes" where
  "next_key key round =
     (let sbox_key = [sbox (key ! 13), sbox (key ! 14), sbox (key ! 15), sbox (key ! 12)];
          rcon = rcon_table ! round;
          k0 = xor_32 (take 4 key) sbox_key;
          k0 = k0[0 := k0 ! 0 XOR rcon];
          k1 = xor_32 (take 4 (drop 4 key)) k0;
          k2 = xor_32 (take 4 (drop 8 key)) k1;
          k3 = xor_32 (take 4 (drop 12 key)) k2
      in k0 @ k1 @ k2 @ k3)"

definition byte_sub :: "bytes \<Rightarrow> bytes" where
  "byte_sub inp = map (\<lambda>i. sbox (inp ! i)) [0..<16]"

definition shift_row :: "bytes \<Rightarrow> bytes" where
  "shift_row inp =
     [inp ! 0, inp ! 5, inp ! 10, inp ! 15, inp ! 4, inp ! 9, inp ! 14, inp ! 3,
      inp ! 8, inp ! 13, inp ! 2, inp ! 7, inp ! 12, inp ! 1, inp ! 6, inp ! 11]"

text \<open>
  The shift of the four bytes as one number, from the last byte down; the top bits were
  cleared, so nothing is carried between the bytes.
\<close>

definition shift_left_step :: "bytes \<Rightarrow> nat \<Rightarrow> bytes" where
  "shift_left_step andf7 i =
     (let andf7 = andf7[i := push_bit 1 (andf7 ! i)]
      in if andf7 ! (i - 1) AND 0x80 = 0x80 then andf7[i := andf7 ! i OR 0x01] else andf7)"

definition mix_column :: "bytes \<Rightarrow> bytes" where
  "mix_column inp =
     (let add1b = map (\<lambda>i. if inp ! i AND 0x80 = 0x80 then 0x1b else 0x00) [0..<4];
          swap_halfs = [inp ! 2, inp ! 3, inp ! 0, inp ! 1];
          rotl = [inp ! 3, inp ! 0, inp ! 1, inp ! 2];
          andf7 = [inp ! 0 AND 0x7f, inp ! 1 AND 0x7f, inp ! 2 AND 0x7f, inp ! 3 AND 0x7f];
          andf7 = foldl shift_left_step andf7 [3, 2, 1];
          andf7 = andf7[0 := push_bit 1 (andf7 ! 0)];
          andf7 = andf7[0 := andf7 ! 0 AND 0xfe];
          add1bf7 = xor_32 add1b andf7;
          rotr = xor_32 inp add1bf7;
          rotr = [rotr ! 1, rotr ! 2, rotr ! 3, rotr ! 0];
          temp = xor_32 add1bf7 rotr;
          tempb = xor_32 swap_halfs rotl
      in xor_32 temp tempb)"

definition aes_round :: "bytes \<Rightarrow> bytes \<times> bytes \<Rightarrow> nat \<Rightarrow> bytes \<times> bytes" where
  "aes_round data s round = (case s of (ciphertext, round_key) \<Rightarrow>
     if round = 0 then (xor_128 round_key data, next_key round_key round)
     else if round = 10
     then (xor_128 (shift_row (byte_sub ciphertext)) round_key, round_key)
     else
       (let b = shift_row (byte_sub ciphertext);
            a = mix_column (take 4 b) @ mix_column (take 4 (drop 4 b)) @
                mix_column (take 4 (drop 8 b)) @ mix_column (take 4 (drop 12 b))
        in (xor_128 a round_key, next_key round_key round)))"

text \<open>The output buffer is written before it is read.\<close>

definition aes128k128d :: "bytes \<Rightarrow> bytes \<Rightarrow> bytes" where
  "aes128k128d key data =
     fst (foldl (aes_round data) (replicate 16 0, take 16 key) [0..<11])"

section \<open>Lengths\<close>

lemma length_xor_128 [simp, len_simps]: "length (xor_128 a b) = 16"
  by (simp add: xor_128_def)

lemma length_xor_32 [simp, len_simps]: "length (xor_32 a b) = 4"
  by (simp add: xor_32_def)

lemma length_next_key [simp, len_simps]: "length (next_key k r) = 16"
  by (simp add: next_key_def Let_def)

lemma length_byte_sub [simp, len_simps]: "length (byte_sub a) = 16"
  by (simp add: byte_sub_def)

lemma length_shift_row [simp, len_simps]: "length (shift_row a) = 16"
  by (simp add: shift_row_def)

lemma length_mix_column [simp, len_simps]: "length (mix_column a) = 4"
  by (simp add: mix_column_def Let_def)

lemma length_aes_round [simp]: "length (fst (aes_round d s r)) = 16"
  by (simp add: aes_round_def Let_def split: prod.split)

lemma length_aes128k128d [simp, len_simps]: "length (aes128k128d key data) = 16"
proof -
  have "[0..<11] = [0..<10] @ [10 :: nat]" by code_simp
  then show ?thesis unfolding aes128k128d_def by (simp only: foldl_append foldl.simps length_aes_round)
qed

section \<open>GF(2^8)\<close>

text \<open>
  Bytes as polynomials over GF(2), modulo x^8 + x^4 + x^3 + x + 1: \<open>xtime\<close> is the
  product with x, \<open>gf_mul\<close> the product by shift and add.
\<close>

definition xtime :: "u8 \<Rightarrow> u8" where
  "xtime b = push_bit 1 b XOR (if bit b 7 then 0x1b else 0)"

fun gf_mul_n :: "nat \<Rightarrow> u8 \<Rightarrow> u8 \<Rightarrow> u8" where
  "gf_mul_n 0 a b = 0"
| "gf_mul_n (Suc n) a b = (if bit b 0 then a else 0) XOR gf_mul_n n (xtime a) (drop_bit 1 b)"

definition gf_mul :: "u8 \<Rightarrow> u8 \<Rightarrow> u8" where "gf_mul a b = gf_mul_n 8 a b"

text \<open>The affine map of the S-box, and its inverse.\<close>

definition rotl8 :: "nat \<Rightarrow> u8 \<Rightarrow> u8" where "rotl8 n b = push_bit n b OR drop_bit (8 - n) b"

definition sbox_affine :: "u8 \<Rightarrow> u8" where
  "sbox_affine b = b XOR rotl8 1 b XOR rotl8 2 b XOR rotl8 3 b XOR rotl8 4 b XOR 0x63"

definition sbox_affine_inv :: "u8 \<Rightarrow> u8" where
  "sbox_affine_inv b = rotl8 1 b XOR rotl8 3 b XOR rotl8 6 b XOR 0x05"

definition sbox_entry_ok :: "u8 \<Rightarrow> u8 \<Rightarrow> bool" where
  "sbox_entry_ok x y \<longleftrightarrow>
     (let z = sbox_affine_inv y
      in y = sbox_affine z \<and> (if x = 0 then z = 0 else gf_mul x z = 1))"

fun sbox_entries_ok :: "nat \<Rightarrow> bytes \<Rightarrow> bool" where
  "sbox_entries_ok x [] \<longleftrightarrow> True"
| "sbox_entries_ok x (y # ys) \<longleftrightarrow> sbox_entry_ok (of_nat x) y \<and> sbox_entries_ok (Suc x) ys"

lemma gf_mul_steps:
  "gf_mul a b =
     (let a1 = xtime a; a2 = xtime a1; a3 = xtime a2; a4 = xtime a3; a5 = xtime a4; a6 = xtime a5; a7 = xtime a6
      in (if bit b 0 then a else 0) XOR ((if bit b 1 then a1 else 0) XOR ((if bit b 2 then a2 else 0) XOR
         ((if bit b 3 then a3 else 0) XOR ((if bit b 4 then a4 else 0) XOR ((if bit b 5 then a5 else 0) XOR
         ((if bit b 6 then a6 else 0) XOR (if bit b 7 then a7 else 0))))))))"
  by (simp add: gf_mul_def eval_nat_numeral Let_def bit_simps del: push_bit_Suc drop_bit_Suc)

lemma sbox_entries_nth:
  "sbox_entries_ok x ys \<Longrightarrow> i < length ys \<Longrightarrow> sbox_entry_ok (of_nat (x + i)) (ys ! i)"
proof (induction ys arbitrary: x i)
  case Nil
  then show ?case by simp
next
  case (Cons y ys)
  then show ?case using Cons.IH [of "Suc x" "i - 1"] by (cases i) simp_all
qed

lemma sbox_entries_append:
  "sbox_entries_ok x (ys @ zs) \<longleftrightarrow> sbox_entries_ok x ys \<and> sbox_entries_ok (x + length ys) zs"
  by (induction ys arbitrary: x) auto

lemmas gf_eval = sbox_entry_ok_def gf_mul_steps xtime_def sbox_affine_def sbox_affine_inv_def rotl8_def

lemma sbox_table_0: "sbox_entries_ok 0 (take 64 sbox_table)"
  by (simp add: gf_eval sbox_table_def)

lemma sbox_table_64: "sbox_entries_ok 64 (take 64 (drop 64 sbox_table))"
  by (simp add: gf_eval sbox_table_def)

lemma sbox_table_128: "sbox_entries_ok 128 (take 64 (drop 128 sbox_table))"
  by (simp add: gf_eval sbox_table_def)

lemma sbox_table_192: "sbox_entries_ok 192 (drop 192 sbox_table)"
  by (simp add: gf_eval sbox_table_def)

lemma length_sbox_table [simp]: "length sbox_table = 256"
  by (simp add: sbox_table_def)

lemma sbox_table_ok: "sbox_entries_ok 0 sbox_table"
proof -
  have "sbox_table = take 64 sbox_table @ take 64 (drop 64 sbox_table) @ take 64 (drop 128 sbox_table) @
      drop 192 sbox_table"
    by (simp add: sbox_table_def)
  moreover have "sbox_entries_ok 0 (take 64 sbox_table @ take 64 (drop 64 sbox_table) @
      take 64 (drop 128 sbox_table) @ drop 192 sbox_table)"
    using sbox_table_0 sbox_table_64 sbox_table_128 sbox_table_192 by (simp add: sbox_entries_append)
  ultimately show ?thesis by (simp only:)
qed

lemma xtime_code: "(if a AND 0x80 = 0x80 then 0x1b else 0) XOR push_bit 1 (a AND 0x7f) = xtime (a :: u8)"
proof -
  have m: "(0x7f :: u8) = mask 7" by (simp add: mask_eq_exp_minus_1)
  have "(a AND 0x80 = 0x80) = bit a 7"
  proof
    assume "a AND 0x80 = 0x80"
    then have "bit (a AND 0x80) 7" by simp
    then show "bit a 7" by (simp add: bit_simps)
  next
    assume "bit a 7"
    then show "a AND 0x80 = 0x80"
      by (intro bit_word_eqI) (auto simp: bit_simps less_Suc_eq numeral_eq_Suc)
  qed
  moreover have "push_bit 1 (a AND 0x7f) = push_bit 1 a"
    by (rule bit_word_eqI) (auto simp: bit_simps m simp del: push_bit_Suc)
  ultimately show ?thesis by (simp only: xtime_def xor.commute)
qed

lemma upt_4: "[0..<4] = [0, 1, 2, 3 :: nat]"
  by code_simp

lemma and_7f_80: "(a AND 0x7f) AND 0x80 = (0 :: u8)"
  by (simp add: and.assoc)

lemma xtime_masked:
  "xtime a = (if a AND 0x80 = 0x80 then 0x1b else 0) XOR (push_bit 1 a AND 0xfe)"
proof -
  have f: "(0xfe :: u8) = push_bit 1 (mask 7)" by (simp add: mask_eq_exp_minus_1)
  have m: "(0x7f :: u8) = mask 7" by (simp add: mask_eq_exp_minus_1)
  have "push_bit 1 a AND 0xfe = push_bit 1 (a AND 0x7f)"
    unfolding f m by (rule bit_word_eqI) (auto simp: bit_simps simp del: push_bit_Suc)
  then show ?thesis using xtime_code [of a] by simp
qed

lemma mix_column_shift:
  "foldl shift_left_step [a AND 0x7f, b AND 0x7f, c AND 0x7f, d AND 0x7f] [3, 2, 1] =
     [a AND 0x7f, push_bit 1 (b AND 0x7f), push_bit 1 (c AND 0x7f), push_bit 1 (d AND 0x7f)]"
  by (simp add: shift_left_step_def Let_def and_7f_80 del: push_bit_Suc)

text \<open>The column times the polynomial 3x^3 + x^2 + x + 2, where 3b is \<open>xtime b\<close> plus b.\<close>

lemma mix_column_list:
  "mix_column [a, b, c, d] =
     [xtime a XOR (xtime b XOR b) XOR c XOR d, xtime b XOR (xtime c XOR c) XOR d XOR a,
      xtime c XOR (xtime d XOR d) XOR a XOR b, xtime d XOR (xtime a XOR a) XOR b XOR c]"
proof -
  have s: "foldl shift_left_step [[a, b, c, d] ! 0 AND 0x7f, [a, b, c, d] ! 1 AND 0x7f,
      [a, b, c, d] ! 2 AND 0x7f, [a, b, c, d] ! 3 AND 0x7f] [3, 2, 1] =
      [a AND 0x7f, push_bit 1 (b AND 0x7f), push_bit 1 (c AND 0x7f), push_bit 1 (d AND 0x7f)]"
    using mix_column_shift [of a b c d] by simp
  show ?thesis
    unfolding mix_column_def Let_def s
    by (simp add: xor_32_def upt_4 xtime_masked ac_simps del: push_bit_Suc)
qed

section \<open>Properties\<close>

text \<open>
  C16: the S-box of the driver is the one AES defines: every entry is the affine image of
  the inverse of its index in GF(2^8), with 0 for 0.
\<close>

theorem sbox_is_inverse:
  "\<exists>z. sbox x = sbox_affine z \<and> (if x = 0 then z = 0 else gf_mul x z = 1)"
proof -
  have "sbox_entry_ok (of_nat (0 + unat x)) (sbox_table ! unat x)"
    by (rule sbox_entries_nth [OF sbox_table_ok]) simp
  then have "sbox_entry_ok x (sbox x)" by (simp add: sbox_def)
  then show ?thesis unfolding sbox_entry_ok_def Let_def by blast
qed

text \<open>
  \<open>mix_column\<close>, written in the driver with masks and a shift of the whole
  column, is the product with the AES matrix over GF(2^8).
\<close>

theorem mix_column_matrix:
  "mix_column [a, b, c, d] =
     [gf_mul a 2 XOR gf_mul b 3 XOR c XOR d, a XOR gf_mul b 2 XOR gf_mul c 3 XOR d,
      a XOR b XOR gf_mul c 2 XOR gf_mul d 3, gf_mul a 3 XOR b XOR c XOR gf_mul d 2]"
  by (simp add: mix_column_list gf_mul_steps Let_def ac_simps)

end
