(* ===== verification/Sec_Arc4.thy ===== *)
theory Sec_Arc4
  imports Drv_Prelude "HOL-Library.Multiset"
begin

text \<open>
  The ARC4 stream cipher of \<open>core/rtw_security.c\<close> (\<open>struct arc4context\<close>,
  \<open>arcfour_init\<close>, \<open>arcfour_byte\<close>, \<open>arcfour_encrypt\<close>), which the WEP and TKIP
  routines call. The lemmas show that the S-box of a context is a permutation of
  all byte values from initialisation on, that every table index is in range, and
  that encryption with a fresh context undoes itself.
\<close>

record arc4context =
  arc_x :: u32
  arc_y :: u32
  arc_state :: bytes

section \<open>Key scheduling\<close>

definition arcfour_identity :: bytes where
  "arcfour_identity = map of_nat [0..<256]"

fun arcfour_init_step ::
    "bytes \<Rightarrow> u32 \<Rightarrow> u32 \<times> u32 \<times> bytes \<Rightarrow> nat \<Rightarrow> u32 \<times> u32 \<times> bytes" where
  "arcfour_init_step key key_len (keyindex, stateindex, state) counter =
     (let t = ucast (state ! counter) :: u32;
          stateindex = (stateindex + ucast (key ! unat keyindex) + t) AND 0xff;
          u = ucast (state ! unat stateindex) :: u32;
          state = state[unat stateindex := ucast t];
          state = state[counter := ucast u];
          keyindex = keyindex + 1;
          keyindex = (if keyindex \<ge> key_len then 0 else keyindex)
      in (keyindex, stateindex, state))"

definition arcfour_init :: "bytes \<Rightarrow> u32 \<Rightarrow> arc4context" where
  "arcfour_init key key_len =
     (let (keyindex, stateindex, state) =
            foldl (arcfour_init_step key key_len) (0, 0, arcfour_identity) [0..<256]
      in \<lparr>arc_x = 0, arc_y = 0, arc_state = state\<rparr>)"

section \<open>Key stream\<close>

definition arcfour_byte :: "arc4context \<Rightarrow> u32 \<times> arc4context" where
  "arcfour_byte ctx =
     (let state = arc_state ctx;
          x = (arc_x ctx + 1) AND 0xff;
          sx = ucast (state ! unat x) :: u32;
          y = (sx + arc_y ctx) AND 0xff;
          sy = ucast (state ! unat y) :: u32;
          state = state[unat y := ucast sx];
          state = state[unat x := ucast sy]
      in (ucast (state ! unat ((sx + sy) AND 0xff)),
          \<lparr>arc_x = x, arc_y = y, arc_state = state\<rparr>))"

fun arcfour_encrypt :: "arc4context \<Rightarrow> bytes \<Rightarrow> bytes \<times> arc4context" where
  "arcfour_encrypt ctx [] = ([], ctx)"
| "arcfour_encrypt ctx (b # src) =
     (let (k, ctx1) = arcfour_byte ctx;
          (dest, ctx2) = arcfour_encrypt ctx1 src
      in ((b XOR ucast k) # dest, ctx2))"

section \<open>The S-box stays a permutation\<close>

definition sbox_perm :: "bytes \<Rightarrow> bool" where
  "sbox_perm st \<longleftrightarrow> mset st = mset arcfour_identity"

definition arc4_ok :: "arc4context \<Rightarrow> bool" where
  "arc4_ok ctx \<longleftrightarrow> sbox_perm (arc_state ctx) \<and> unat (arc_x ctx) < 256 \<and> unat (arc_y ctx) < 256"

lemma sbox_perm_length: "sbox_perm st \<Longrightarrow> length st = 256"
  unfolding sbox_perm_def by (metis arcfour_identity_def diff_zero length_map length_upt size_mset)

lemma sbox_perm_swap:
  assumes "sbox_perm st" and "i < 256" and "j < 256"
  shows "sbox_perm (st[j := st ! i, i := st ! j])"
  using assms sbox_perm_length [OF assms(1)] by (simp add: sbox_perm_def mset_swap)

lemma distinct_identity: "distinct arcfour_identity"
  by (auto simp: arcfour_identity_def distinct_map inj_on_def word_of_nat_eq_iff take_bit_eq_mod)

lemma sbox_perm_distinct: "sbox_perm st \<Longrightarrow> distinct st"
  unfolding sbox_perm_def using distinct_identity by (metis mset_eq_imp_distinct_iff)

lemma arcfour_init_step_inv:
  assumes "sbox_perm st" and "unat si < 256" and "counter < 256"
    and "arcfour_init_step key key_len (ki, si, st) counter = (ki', si', st')"
  shows "sbox_perm st' \<and> unat si' < 256"
  using assms sbox_perm_swap [OF assms(1) assms(3)] by (auto simp: Let_def)

lemma arcfour_init_ok: "arc4_ok (arcfour_init key key_len)"
proof -
  let ?P = "\<lambda>(ki :: u32, si :: u32, st). sbox_perm st \<and> unat si < 256"
  have "?P (foldl (arcfour_init_step key key_len) (0, 0, arcfour_identity) [0..<256])"
  proof (rule foldl_inv)
    show "?P (0, 0, arcfour_identity)" by (simp add: sbox_perm_def)
  next
    fix s :: "u32 \<times> u32 \<times> bytes" and c
    assume "c \<in> set [0..<256]" and "?P s"
    moreover obtain ki si st where "s = (ki, si, st)" by (cases s) auto
    moreover obtain ki' si' st' where "arcfour_init_step key key_len (ki, si, st) c = (ki', si', st')"
      using prod_cases3 by blast
    ultimately show "?P (arcfour_init_step key key_len s c)"
      using arcfour_init_step_inv [of st si c key key_len ki ki' si' st'] by simp
  qed
  then show ?thesis by (auto simp: arcfour_init_def arc4_ok_def split: prod.splits)
qed

text \<open>The key is only read below \<open>key_len\<close>: the key index is reduced as it grows.\<close>

lemma arcfour_init_keyindex:
  assumes "0 < key_len" and "n \<le> 256"
    and "foldl (arcfour_init_step key key_len) (0, 0, st) [0..<n] = (ki, si, st')"
  shows "ki < key_len"
proof -
  let ?P = "\<lambda>(ki :: u32, si :: u32, st :: bytes). ki < key_len"
  have "?P (foldl (arcfour_init_step key key_len) (0, 0, st) [0..<n])"
    by (rule foldl_inv) (use assms(1) in \<open>auto simp: Let_def not_le split: prod.splits\<close>)
  then show ?thesis using assms(3) by simp
qed

lemma arcfour_byte_ok: "arc4_ok ctx \<Longrightarrow> arc4_ok (snd (arcfour_byte ctx))"
  unfolding arc4_ok_def arcfour_byte_def Let_def by (simp add: sbox_perm_swap)

lemma arcfour_encrypt_ok: "arc4_ok ctx \<Longrightarrow> arc4_ok (snd (arcfour_encrypt ctx src))"
  by (induction ctx src rule: arcfour_encrypt.induct)
     (auto dest: arcfour_byte_ok simp: Let_def split: prod.splits)

section \<open>Encryption undoes itself\<close>

lemma arcfour_encrypt_length [simp, len_simps]: "length (fst (arcfour_encrypt ctx src)) = length src"
  by (induction ctx src rule: arcfour_encrypt.induct) (auto simp: Let_def split: prod.splits)

lemma arcfour_encrypt_append:
  "arcfour_encrypt ctx (a @ b) =
     (let (da, ctx1) = arcfour_encrypt ctx a; (db, ctx2) = arcfour_encrypt ctx1 b in (da @ db, ctx2))"
  by (induction a arbitrary: ctx) (auto simp: Let_def split: prod.splits)

lemma arcfour_encrypt_ctx: "length a = length b \<Longrightarrow>
    snd (arcfour_encrypt ctx a) = snd (arcfour_encrypt ctx b)"
  by (induction a b arbitrary: ctx rule: list_induct2)
     (auto simp: Let_def split: prod.splits, metis prod.sel(2))

lemma arcfour_encrypt_involution:
  "fst (arcfour_encrypt ctx (fst (arcfour_encrypt ctx src))) = src"
  by (induction src arbitrary: ctx)
     (auto simp: Let_def xor.assoc split: prod.splits, metis prod.sel(1))

text \<open>
  The interface the frame encapsulation of WEP and TKIP relies on: a keyed
  stream cipher whose second application restores the text.
\<close>

locale stream_cipher =
  fixes crypt :: "'key \<Rightarrow> bytes \<Rightarrow> bytes"
  assumes crypt_length: "length (crypt k src) = length src"
    and crypt_involution: "crypt k (crypt k src) = src"
begin

lemma crypt_inj: "crypt k a = crypt k b \<Longrightarrow> a = b"
  by (metis crypt_involution)

lemma crypt_split:
  assumes "crypt k (a @ b) = c"
  shows "crypt k c = a @ b \<and> take (length a) (crypt k c) = a"
  using assms by (auto simp: crypt_involution)

end

definition arc4_crypt :: "bytes \<times> u32 \<Rightarrow> bytes \<Rightarrow> bytes" where
  "arc4_crypt k src = fst (arcfour_encrypt (arcfour_init (fst k) (snd k)) src)"

interpretation arc4: stream_cipher arc4_crypt
  by unfold_locales (simp_all add: arc4_crypt_def arcfour_encrypt_involution)

section \<open>Properties\<close>

text \<open>
  The ARC4 key schedule, for any key and any length (also a length of 0), leaves
  a permutation of all 256 byte values in the S-box, and generating any number of key
  stream bytes keeps it one, with both counters below 256: no table access of
  \<open>arcfour_byte\<close> is out of range and the key stream never degenerates.
\<close>

theorem arc4_state_permutation:
  "arc4_ok (arcfour_init key key_len) \<and>
   arc4_ok (snd (arcfour_encrypt (arcfour_init key key_len) src)) \<and>
   distinct (arc_state (snd (arcfour_encrypt (arcfour_init key key_len) src)))"
  using arcfour_encrypt_ok [OF arcfour_init_ok] arcfour_init_ok sbox_perm_distinct
  by (auto simp: arc4_ok_def)

end
