(* ===== verification/Sec_Crc32.thy ===== *)
theory Sec_Crc32
  imports Drv_Prelude
begin

text \<open>
  The CRC-32 of \<open>core/rtw_security.c\<close> that WEP and TKIP use as their ICV: the
  lazily built table (\<open>crc32_reverseBit\<close>, \<open>crc32_init\<close>) and the table-driven
  routine \<open>getcrc32\<close>. The reference is the bit-serial CRC with the reflected
  polynomial; the lemmas show that each table entry is eight bit-serial steps and
  that \<open>getcrc32\<close> is the bit-serial CRC of its buffer, whatever was computed before.
\<close>

definition CRC32_POLY :: u32 where
  "CRC32_POLY = 0x04c11db7"

text \<open>The two file-level variables \<open>bcrc32initialized\<close> and \<open>crc32_table\<close>.\<close>

record crc_globals =
  bcrc32initialized :: int
  crc32_table :: "u32 list"

definition crc_boot :: crc_globals where
  "crc_boot = \<lparr>bcrc32initialized = 0, crc32_table = replicate 256 0\<rparr>"

text \<open>The byte is promoted to \<open>int\<close> before it is shifted.\<close>

definition crc32_reverseBit :: "u8 \<Rightarrow> u8" where
  "crc32_reverseBit b =
     (let data = ucast b :: u32
      in ucast (((push_bit 7 data AND 0x80) OR (push_bit 5 data AND 0x40) OR
                 (push_bit 3 data AND 0x20) OR (push_bit 1 data AND 0x10) OR
                 (drop_bit 1 data AND 0x08) OR (drop_bit 3 data AND 0x04) OR
                 (drop_bit 5 data AND 0x02) OR (drop_bit 7 data AND 0x01))))"

text \<open>One turn of the inner loop of \<open>crc32_init\<close>, and the loop.\<close>

definition crc32_shift :: "u32 \<Rightarrow> u32" where
  "crc32_shift c = (if c AND 0x80000000 \<noteq> 0 then push_bit 1 c XOR CRC32_POLY else push_bit 1 c)"

text \<open>
  The bytes \<open>p1[0..3]\<close> of an entry are the reversed bytes \<open>p[3..0]\<close> of
  \<open>c\<close>; both are views of a \<open>u32\<close> in the same byte order.
\<close>

definition crc32_byte :: "u32 \<Rightarrow> nat \<Rightarrow> u8" where
  "crc32_byte c i = ucast (drop_bit (8 * i) c)"

definition crc32_entry :: "nat \<Rightarrow> u32" where
  "crc32_entry i =
     (let k = crc32_reverseBit (of_nat i);
          c = (crc32_shift ^^ 8) (push_bit 24 (ucast k));
          p = crc32_byte c
      in ucast (crc32_reverseBit (p 3)) OR
         push_bit 8 (ucast (crc32_reverseBit (p 2))) OR
         push_bit 16 (ucast (crc32_reverseBit (p 1))) OR
         push_bit 24 (ucast (crc32_reverseBit (p 0))))"

definition crc32_init :: "crc_globals \<Rightarrow> crc_globals" where
  "crc32_init g =
     (if bcrc32initialized g = 1 then g
      else g\<lparr>crc32_table := map crc32_entry [0..<256], bcrc32initialized := 1\<rparr>)"

definition getcrc32_step :: "u32 list \<Rightarrow> u32 \<Rightarrow> u8 \<Rightarrow> u32" where
  "getcrc32_step tbl crc b = (tbl ! unat ((crc XOR ucast b) AND 0xff)) XOR drop_bit 8 crc"

definition getcrc32 :: "crc_globals \<Rightarrow> bytes \<Rightarrow> u32 \<times> crc_globals" where
  "getcrc32 g buf =
     (let g = (if bcrc32initialized g = 0 then crc32_init g else g);
          crc = foldl (getcrc32_step (crc32_table g)) 0xffffffff buf
      in (NOT crc, g))"

section \<open>The reference: the bit-serial reflected CRC\<close>

definition crc_lfsr :: "u32 \<Rightarrow> u32" where
  "crc_lfsr c = (if bit c 0 then drop_bit 1 c XOR 0xEDB88320 else drop_bit 1 c)"

definition crc_bitwise :: "bytes \<Rightarrow> u32" where
  "crc_bitwise buf = NOT (foldl (\<lambda>c b. (crc_lfsr ^^ 8) (c XOR ucast b)) 0xffffffff buf)"

section \<open>Bit reversal\<close>

definition rev32 :: "u32 \<Rightarrow> u32" where
  "rev32 c = ucast (crc32_reverseBit (crc32_byte c 3)) OR
     push_bit 8 (ucast (crc32_reverseBit (crc32_byte c 2))) OR
     push_bit 16 (ucast (crc32_reverseBit (crc32_byte c 1))) OR
     push_bit 24 (ucast (crc32_reverseBit (crc32_byte c 0)))"

lemma less_8_cases: "(n :: nat) < 8 \<Longrightarrow> n = 0 \<or> n = 1 \<or> n = 2 \<or> n = 3 \<or> n = 4 \<or> n = 5 \<or> n = 6 \<or> n = 7"
  by linarith

lemma bit_reverseBit: "n < 8 \<Longrightarrow> bit (crc32_reverseBit x) n = bit x (7 - n)"
  by (drule less_8_cases, elim disjE)
     (simp_all add: crc32_reverseBit_def Let_def bit_simps bit_numeral_rec del: push_bit_Suc)

lemma bit_reverseBit_iff: "bit (crc32_reverseBit x) n \<longleftrightarrow> n < 8 \<and> bit x (7 - n)"
  using bit_reverseBit [of n x] by (cases "n < 8") (auto dest: bit_imp_le_length)

lemma reverseBit_involution [simp]: "crc32_reverseBit (crc32_reverseBit x) = x"
  by (rule bit_word_eqI) (simp add: bit_reverseBit)

lemma bit_rev32: "n < 32 \<Longrightarrow> bit (rev32 c) n = bit c (31 - n)"
proof -
  assume "n < 32"
  then consider "n < 8" | "8 \<le> n \<and> n < 16" | "16 \<le> n \<and> n < 24" | "24 \<le> n \<and> n < 32" by linarith
  then show ?thesis
    by cases (auto simp: rev32_def crc32_byte_def bit_simps bit_reverseBit_iff)
qed

lemma rev32_eqI: "(\<And>n. n < 32 \<Longrightarrow> bit a n = bit (b :: u32) n) \<Longrightarrow> a = b"
  by (rule bit_word_eqI) simp

lemma rev32_xor: "rev32 (a XOR b) = rev32 a XOR rev32 b"
  by (rule rev32_eqI) (simp add: bit_rev32 bit_simps)

lemma rev32_poly: "rev32 CRC32_POLY = 0xEDB88320"
  by (simp add: rev32_def CRC32_POLY_def crc32_byte_def crc32_reverseBit_def Let_def)

lemma rev32_push: "rev32 (push_bit 1 c) = drop_bit 1 (rev32 c)"
proof (rule rev32_eqI)
  fix n :: nat
  assume "n < 32"
  then show "bit (rev32 (push_bit 1 c)) n = bit (drop_bit 1 (rev32 c)) n"
    by (cases "n = 31") (auto simp: bit_rev32 bit_simps simp del: push_bit_Suc dest: bit_imp_le_length)
qed

lemma crc32_shift_rev: "rev32 (crc32_shift c) = crc_lfsr (rev32 c)"
proof -
  have "c AND 0x80000000 \<noteq> 0 \<longleftrightarrow> bit c 31"
    using and_exp_eq_0_iff_not_bit [of c 31] by simp
  moreover have "bit (rev32 c) 0 = bit c 31" using bit_rev32 [of 0 c] by simp
  ultimately show ?thesis
    by (simp only: crc32_shift_def crc_lfsr_def rev32_xor rev32_poly rev32_push if_distrib [of rev32])
qed

lemma crc32_shift_rev_pow: "rev32 ((crc32_shift ^^ n) c) = (crc_lfsr ^^ n) (rev32 c)"
  by (induction n) (simp_all add: crc32_shift_rev)

lemma rev32_top_byte: "rev32 (push_bit 24 (ucast (crc32_reverseBit b))) = ucast b"
proof (rule rev32_eqI)
  fix n :: nat
  assume "n < 32"
  then show "bit (rev32 (push_bit 24 (ucast (crc32_reverseBit b)))) n = bit (ucast b :: u32) n"
    by (cases "n < 8") (auto simp: bit_rev32 bit_simps bit_reverseBit_iff dest: bit_imp_le_length)
qed

lemma crc32_entry_lfsr: "i < 256 \<Longrightarrow> crc32_entry i = (crc_lfsr ^^ 8) (of_nat i)"
proof -
  assume "i < 256"
  then have "(ucast (of_nat i :: u8) :: u32) = of_nat i"
    by (simp add: unsigned_of_nat take_bit_eq_mod)
  moreover have "crc32_entry i =
      rev32 ((crc32_shift ^^ 8) (push_bit 24 (ucast (crc32_reverseBit (of_nat i)))))"
    by (simp only: crc32_entry_def rev32_def Let_def)
  ultimately show ?thesis
    by (simp only: crc32_shift_rev_pow rev32_top_byte)
qed

section \<open>The table-driven step is eight bit-serial steps\<close>

lemma crc_lfsr_xor: "crc_lfsr (a XOR b) = crc_lfsr a XOR crc_lfsr b"
  by (rule bit_word_eqI) (auto simp: crc_lfsr_def bit_simps)

lemma crc_lfsr_pow_xor: "(crc_lfsr ^^ n) (a XOR b) = (crc_lfsr ^^ n) a XOR (crc_lfsr ^^ n) b"
  by (induction n) (simp_all add: crc_lfsr_xor)

lemma crc_lfsr_pow_high: "(\<forall>i < n. \<not> bit c i) \<Longrightarrow> (crc_lfsr ^^ n) c = drop_bit n c"
proof (induction n)
  case 0
  then show ?case by simp
next
  case (Suc n)
  then have "(crc_lfsr ^^ n) c = drop_bit n c" by simp
  moreover have "\<not> bit (drop_bit n c) 0" using Suc.prems by (simp add: bit_simps)
  ultimately have "(crc_lfsr ^^ Suc n) c = drop_bit 1 (drop_bit n c)"
    by (simp add: crc_lfsr_def [of "drop_bit n c"])
  then show ?case by (simp del: funpow.simps)
qed

lemma crc_step_split:
  "(crc_lfsr ^^ 8) (c XOR ucast b) =
     crc32_entry (unat ((c XOR ucast (b :: u8)) AND 0xff)) XOR drop_bit 8 c"
proof -
  let ?x = "c XOR ucast b :: u32"
  have split: "?x = (?x AND 0xff) XOR (?x AND NOT 0xff)"
    by (rule bit_word_eqI) (auto simp: bit_simps)
  have low: "(crc_lfsr ^^ 8) (?x AND 0xff) = crc32_entry (unat (?x AND 0xff))"
    using crc32_entry_lfsr [of "unat (?x AND 0xff)"] by simp
  have zeros: "\<forall>i < 8. \<not> bit (?x AND NOT 0xff) i"
  proof (intro allI impI)
    fix i :: nat
    assume "i < 8"
    then show "\<not> bit (?x AND NOT 0xff) i"
      by (drule_tac less_8_cases, elim disjE) (simp_all add: bit_simps bit_numeral_rec)
  qed
  have m: "(0xff :: u32) = mask 8" by (simp add: mask_eq_exp_minus_1)
  have drop: "drop_bit 8 (?x AND NOT 0xff) = drop_bit 8 c"
    unfolding m by (rule rev32_eqI) (auto simp: bit_simps dest: bit_imp_le_length)
  have "(crc_lfsr ^^ 8) ?x = (crc_lfsr ^^ 8) (?x AND 0xff) XOR (crc_lfsr ^^ 8) (?x AND NOT 0xff)"
    by (subst split) (rule crc_lfsr_pow_xor)
  then show ?thesis
    using low crc_lfsr_pow_high [OF zeros] drop by simp
qed

definition crc_ready :: "crc_globals \<Rightarrow> bool" where
  "crc_ready g \<longleftrightarrow> bcrc32initialized g = 0 \<or>
     (bcrc32initialized g = 1 \<and> crc32_table g = map crc32_entry [0..<256])"

lemma crc_boot_ready [simp]: "crc_ready crc_boot"
  by (simp add: crc_ready_def crc_boot_def)

lemma getcrc32_step_lfsr:
  "getcrc32_step (map crc32_entry [0..<256]) c b = (crc_lfsr ^^ 8) (c XOR ucast b)"
  by (simp only: getcrc32_step_def crc_step_split) simp

lemma getcrc32_fold:
  "foldl (getcrc32_step (map crc32_entry [0..<256])) c buf =
     foldl (\<lambda>c b. (crc_lfsr ^^ 8) (c XOR ucast b)) c buf"
  by (induction buf arbitrary: c) (simp_all add: getcrc32_step_lfsr del: upt_rec_numeral)

lemma getcrc32_bitwise: "crc_ready g \<Longrightarrow> fst (getcrc32 g buf) = crc_bitwise buf"
  by (auto simp: getcrc32_def crc_ready_def crc32_init_def Let_def crc_bitwise_def
        getcrc32_fold simp del: upt_rec_numeral)

lemma getcrc32_ready: "crc_ready g \<Longrightarrow> crc_ready (snd (getcrc32 g buf))"
  by (auto simp: getcrc32_def crc_ready_def crc32_init_def Let_def)

lemma getcrc32_cases:
  assumes "crc_ready g"
  obtains g' where "getcrc32 g buf = (crc_bitwise buf, g')" and "crc_ready g'"
  using getcrc32_bitwise [OF assms, of buf] getcrc32_ready [OF assms, of buf]
  by (cases "getcrc32 g buf") auto

section \<open>Properties\<close>

text \<open>
  The 256-entry table that \<open>crc32_init\<close> builds by reversing bits around a
  most-significant-bit-first division holds, at every index, eight steps of the
  least-significant-bit-first CRC register with the reflected polynomial 0xEDB88320,
  and building it again changes nothing.
\<close>

theorem crc32_table_reflected:
  "i < 256 \<Longrightarrow>
     crc32_table (crc32_init crc_boot) ! i = (crc_lfsr ^^ 8) (of_nat i) \<and>
     crc32_init (crc32_init crc_boot) = crc32_init crc_boot"
  by (simp add: crc32_init_def crc_boot_def crc32_entry_lfsr del: upt_rec_numeral)

theorem crc32_table_reflected_witness:
  "crc32_table (crc32_init crc_boot) ! 1 = (crc_lfsr ^^ 8) 1"
  using crc32_table_reflected [of 1] by simp

text \<open>
  C15: \<open>getcrc32\<close> computes the bit-serial CRC-32 of the buffer, on the first call
  (which builds the table) and on every later one, and leaves the table ready.
\<close>

theorem getcrc32_is_crc:
  "crc_ready g \<Longrightarrow>
     fst (getcrc32 g buf) = crc_bitwise buf \<and> crc_ready (snd (getcrc32 g buf)) \<and>
     fst (getcrc32 (snd (getcrc32 g buf)) buf2) = crc_bitwise buf2"
  by (simp add: getcrc32_bitwise getcrc32_ready)

theorem getcrc32_is_crc_witness:
  "fst (getcrc32 crc_boot [1, 2]) = crc_bitwise [1, 2] \<and>
   crc_ready (snd (getcrc32 crc_boot [1, 2])) \<and>
   fst (getcrc32 (snd (getcrc32 crc_boot [1, 2])) [3]) = crc_bitwise [3]"
  using getcrc32_is_crc [OF crc_boot_ready] by blast

end
