(* ===== verification/Sec_Wep.thy ===== *)
theory Sec_Wep
  imports Sec_Arc4 Sec_Crc32
begin

text \<open>
  WEP on whole frames (\<open>rtw_wep_encrypt\<close>, \<open>rtw_wep_decrypt\<close> of
  \<open>core/rtw_security.c\<close>) and the parts of the driver's structures these read:
  \<open>struct pkt_attrib\<close>, \<open>struct rx_pkt_attrib\<close>, \<open>struct security_priv\<close>, and
  the frame buffer with its address. An access outside a buffer is \<open>None\<close>. The
  sealing and opening of one fragment (\<open>arc4_seal\<close>, \<open>arc4_open\<close>) is the code
  that the WEP and TKIP routines repeat word for word.
\<close>

section \<open>Structures\<close>

record pkt_attrib =
  encrypt :: u8
  nr_frags :: u8
  hdrlen :: u16
  iv_len :: u8
  icv_len :: u8
  last_txcmdsz :: u32
  att_ra :: bytes
  att_ta :: bytes
  att_UncstKey :: bytes

record rx_pkt_attrib =
  rx_encrypt :: u8
  rx_hdrlen :: u8
  rx_iv_len :: u8
  rx_key_index :: u8
  rx_ra :: bytes
  rx_ta :: bytes

record security_priv =
  dot11PrivacyKeyIndex :: u32
  dot11DefKey :: "bytes list"
  dot11DefKeylen :: "u32 list"
  dot118021XGrpKeyid :: u32
  dot118021XGrpKey :: "bytes list"
  binstallGrpkey :: bool

text \<open>
  \<open>buf\<close> holds the bytes from \<open>buf_addr\<close> on; \<open>None\<close> for a null pointer.
\<close>

record xmit_frame =
  buf_addr :: nat
  xbuf :: "bytes option"
  pkt_offset :: "8 word"
  xattrib :: pkt_attrib

definition WEP40 :: u8 where "WEP40 = 0x1"
definition TKIP :: u8 where "TKIP = 0x2"
definition AES :: u8 where "AES = 0x4"
definition WEP104 :: u8 where "WEP104 = 0x5"

text \<open>The address is rounded up to the next multiple of four.\<close>

definition RND4 :: "nat \<Rightarrow> nat" where
  "RND4 x = (x div 4 + (if x mod 4 = 0 then 0 else 1)) * 4"

text \<open>\<open>TXDESC_SIZE + pkt_offset * PACKET_OFFSET_SZ\<close>, kept in a \<open>u8\<close>.\<close>

definition hw_hdr_offset :: "8 word \<Rightarrow> u8" where
  "hw_hdr_offset pkt_off = 40 + pkt_off * 8"

text \<open>The start of the next fragment, as an offset from \<open>buf_addr\<close>.\<close>

definition next_frag :: "nat \<Rightarrow> nat \<Rightarrow> u32 \<Rightarrow> nat" where
  "next_frag base pframe frag_len = RND4 (base + pframe + unat frag_len) - base"

section \<open>One fragment\<close>

text \<open>
  The length is a \<open>sint\<close> for the CRC and a \<open>u32\<close> for the cipher.
\<close>

definition arc4_seal ::
    "crc_globals \<Rightarrow> bytes \<Rightarrow> u32 \<Rightarrow> bytes \<Rightarrow> nat \<Rightarrow> u32 \<Rightarrow> (crc_globals \<times> bytes) option" where
  "arc4_seal g key keylen mem payload len = do {
     plain \<leftarrow> mem_rd mem payload (nat (sint len));
     let (crc, g) = getcrc32 g plain;
     let ctx = arcfour_init key keylen;
     src \<leftarrow> mem_rd mem payload (unat len);
     let (dest, ctx) = arcfour_encrypt ctx src;
     mem \<leftarrow> mem_wr mem payload dest;
     let (dest, ctx) = arcfour_encrypt ctx (le32_bytes crc);
     mem \<leftarrow> mem_wr mem (payload + unat len) dest;
     Some (g, mem) }"

text \<open>
  The last component says whether the four trailing bytes are the CRC of what
  precedes them.
\<close>

definition arc4_open ::
    "crc_globals \<Rightarrow> bytes \<Rightarrow> u32 \<Rightarrow> bytes \<Rightarrow> nat \<Rightarrow> u32 \<Rightarrow> (crc_globals \<times> bytes \<times> bool) option" where
  "arc4_open g key keylen mem payload len = do {
     let ctx = arcfour_init key keylen;
     src \<leftarrow> mem_rd mem payload (unat len);
     let (dest, ctx) = arcfour_encrypt ctx src;
     mem \<leftarrow> mem_wr mem payload dest;
     plain \<leftarrow> mem_rd mem payload (nat (sint (len - 4)));
     let (crc, g) = getcrc32 g plain;
     c3 \<leftarrow> mem_get mem (int payload + sint len - 1);
     c2 \<leftarrow> mem_get mem (int payload + sint len - 2);
     c1 \<leftarrow> mem_get mem (int payload + sint len - 3);
     c0 \<leftarrow> mem_get mem (int payload + sint len - 4);
     Some (g, mem, le32_bytes crc = [c0, c1, c2, c3]) }"

section \<open>WEP\<close>

text \<open>
  The per-packet key: three IV bytes and \<open>keylength\<close> bytes of the default key, in
  a buffer of 16 bytes; the copy faults when it does not fit.
\<close>

definition wep_seed :: "bytes \<Rightarrow> nat \<Rightarrow> security_priv \<Rightarrow> nat \<Rightarrow> (bytes \<times> u32) option" where
  "wep_seed mem iv sec idx = do {
     keylength \<leftarrow> mem_get (dot11DefKeylen sec) (int idx);
     skey \<leftarrow> mem_get (dot11DefKey sec) (int idx);
     iv3 \<leftarrow> mem_rd mem iv 3;
     k \<leftarrow> mem_rd skey 0 (unat keylength);
     wepkey \<leftarrow> mem_wr (replicate 16 0) 0 iv3;
     wepkey \<leftarrow> mem_wr wepkey 3 k;
     Some (wepkey, 3 + keylength) }"

text \<open>The body of the fragment loop; the state carries the offset of the fragment.\<close>

definition wep_encrypt_frag ::
    "security_priv \<Rightarrow> u32 \<Rightarrow> xmit_frame \<Rightarrow> crc_globals \<times> bytes \<times> nat \<Rightarrow> nat \<Rightarrow>
       (crc_globals \<times> bytes \<times> nat) option" where
  "wep_encrypt_frag sec frag_len xf s curfragnum = (case s of (g, mem, pframe) \<Rightarrow> do {
     let pattrib = xattrib xf;
     let iv = pframe + unat (hdrlen pattrib);
     (wepkey, keylen) \<leftarrow> wep_seed mem iv sec (unat (dot11PrivacyKeyIndex sec));
     let payload = pframe + unat (iv_len pattrib) + unat (hdrlen pattrib);
     if curfragnum + 1 = unat (nr_frags pattrib)
     then do {
       let len = last_txcmdsz pattrib - ucast (hdrlen pattrib) - ucast (iv_len pattrib)
                   - ucast (icv_len pattrib);
       (g, mem) \<leftarrow> arc4_seal g wepkey keylen mem payload len;
       Some (g, mem, pframe) }
     else do {
       let len = frag_len - ucast (hdrlen pattrib) - ucast (iv_len pattrib)
                   - ucast (icv_len pattrib);
       (g, mem) \<leftarrow> arc4_seal g wepkey keylen mem payload len;
       Some (g, mem, next_frag (buf_addr xf) pframe frag_len) } })"

text \<open>\<open>frag_len\<close> is the field of \<open>xmit_priv\<close>.\<close>

definition rtw_wep_encrypt ::
    "security_priv \<Rightarrow> u32 \<Rightarrow> crc_globals \<Rightarrow> xmit_frame \<Rightarrow> (crc_globals \<times> xmit_frame) option" where
  "rtw_wep_encrypt sec frag_len g xf =
     (case xbuf xf of
        None \<Rightarrow> Some (g, xf)
      | Some mem \<Rightarrow>
          (let pattrib = xattrib xf;
               pframe = unat (hw_hdr_offset (pkt_offset xf))
           in if encrypt pattrib = WEP40 \<or> encrypt pattrib = WEP104
              then do {
                (g, mem, pframe) \<leftarrow> opt_fold (wep_encrypt_frag sec frag_len xf) (g, mem, pframe)
                                       [0..<unat (nr_frags pattrib)];
                Some (g, xf\<lparr>xbuf := Some mem\<rparr>) }
              else Some (g, xf)))"

text \<open>
  \<open>mem\<close> is the buffer from \<open>rx_data\<close> on and \<open>len\<close> the frame length. An ICV
  mismatch is only traced: the function returns nothing, so the flag is what the
  trace says.
\<close>

definition rtw_wep_decrypt ::
    "security_priv \<Rightarrow> crc_globals \<Rightarrow> rx_pkt_attrib \<Rightarrow> u32 \<Rightarrow> bytes \<Rightarrow>
       (crc_globals \<times> bytes \<times> bool) option" where
  "rtw_wep_decrypt sec g prxattrib len mem =
     (if rx_encrypt prxattrib = WEP40 \<or> rx_encrypt prxattrib = WEP104
      then do {
        let iv = unat (rx_hdrlen prxattrib);
        (wepkey, keylen) \<leftarrow> wep_seed mem iv sec (unat (rx_key_index prxattrib));
        let length = len - ucast (rx_hdrlen prxattrib) - ucast (rx_iv_len prxattrib);
        let payload = unat (rx_iv_len prxattrib) + unat (rx_hdrlen prxattrib);
        arc4_open g wepkey keylen mem payload length }
      else Some (g, mem, True))"

section \<open>Opening undoes sealing\<close>

lemma arc4_seal_Some:
  assumes "crc_ready g" and "payload + unat len + 4 \<le> length mem" and "unat len < 2 ^ 31"
  shows "\<exists>g'. crc_ready g' \<and> arc4_seal g key keylen mem payload len =
           Some (g', take payload mem @
              fst (arcfour_encrypt (arcfour_init key keylen)
                (take (unat len) (drop payload mem) @
                 le32_bytes (crc_bitwise (take (unat len) (drop payload mem))))) @
              drop (payload + unat len + 4) mem)"
proof -
  let ?p = "take (unat len) (drop payload mem)"
  obtain g' where g': "getcrc32 g ?p = (crc_bitwise ?p, g')" "crc_ready g'"
    using getcrc32_cases [OF assms(1)] .
  obtain c1 x1 where c1: "arcfour_encrypt (arcfour_init key keylen) ?p = (c1, x1)" by fastforce
  obtain c2 x2 where c2: "arcfour_encrypt x1 (le32_bytes (crc_bitwise ?p)) = (c2, x2)" by fastforce
  have l1: "length c1 = unat len"
    using arcfour_encrypt_length [of "arcfour_init key keylen" ?p] c1 assms(2) by simp
  have l2: "length c2 = 4"
    using arcfour_encrypt_length [of x1 "le32_bytes (crc_bitwise ?p)"] c2 by simp
  have s: "nat (sint len) = unat len" using sint_small [OF refl assms(3)] by simp
  show ?thesis
    using assms(2) l1 l2
    by (intro exI [of _ g'])
       (simp add: arc4_seal_def s g' c1 c2 mem_rd_Some mem_wr_Some Let_def arcfour_encrypt_append
          add.commute add.left_commute)
qed

lemma arc4_open_Some:
  assumes "crc_ready g" and "payload + n + 4 \<le> length mem" and "n + 4 < 2 ^ 31"
    and "take (n + 4) (drop payload mem) =
           fst (arcfour_encrypt (arcfour_init key keylen) (p @ le32_bytes (crc_bitwise p)))"
    and "length p = n" and "unat len = n + 4"
  shows "\<exists>g'. crc_ready g' \<and> arc4_open g key keylen mem payload len =
           Some (g', take payload mem @ p @ le32_bytes (crc_bitwise p) @
                 drop (payload + n + 4) mem, True)"
proof -
  let ?full = "p @ le32_bytes (crc_bitwise p)"
  let ?m = "take payload mem @ ?full @ drop (payload + n + 4) mem"
  obtain g' where g': "getcrc32 g p = (crc_bitwise p, g')" "crc_ready g'"
    using getcrc32_cases [OF assms(1)] .
  have s: "sint len = int (n + 4)" by (rule sint_small [OF assms(6) assms(3)])
  have "unat (len - 4) = n" using assms(6) by (subst unat_sub) (auto simp: word_le_nat_alt)
  then have s': "sint (len - 4) = int n" by (rule sint_small) (use assms(3) in simp)
  obtain d x where d: "arcfour_encrypt (arcfour_init key keylen) (take (n + 4) (drop payload mem)) = (d, x)"
    by fastforce
  have d': "d = ?full"
    using d assms(4) arcfour_encrypt_involution [of "arcfour_init key keylen" ?full] by (metis fst_conv)
  have rd: "mem_rd ?m payload n = Some p"
    using assms(2,5) by (simp add: mem_rd_Some)
  have tail: "\<And>i. i < 4 \<Longrightarrow> mem_get ?m (int (payload + n + i)) = Some (le32_bytes (crc_bitwise p) ! i)"
    using assms(2,5) by (subst mem_get_nat) (auto simp: nth_append)
  have t: "mem_get ?m (int payload + int (n + 4) - 1) = Some (le32_bytes (crc_bitwise p) ! 3)"
    "mem_get ?m (int payload + int (n + 4) - 2) = Some (le32_bytes (crc_bitwise p) ! 2)"
    "mem_get ?m (int payload + int (n + 4) - 3) = Some (le32_bytes (crc_bitwise p) ! 1)"
    "mem_get ?m (int payload + int (n + 4) - 4) = Some (le32_bytes (crc_bitwise p) ! 0)"
    using tail [of 3] tail [of 2] tail [of 1] tail [of 0] by (simp_all add: algebra_simps)
  have wr: "mem_wr mem payload ?full = Some ?m"
    using assms(2,5) by (simp add: mem_wr_Some add.assoc)
  have rd0: "mem_rd mem payload (unat len) = Some (take (n + 4) (drop payload mem))"
    using assms(2,6) by (simp add: mem_rd_Some)
  have icv: "le32_bytes (crc_bitwise p) = [le32_bytes (crc_bitwise p) ! 0, le32_bytes (crc_bitwise p) ! 1,
      le32_bytes (crc_bitwise p) ! 2, le32_bytes (crc_bitwise p) ! 3]"
    by (simp add: le32_bytes_def)
  have m: "?m = take payload mem @ p @ le32_bytes (crc_bitwise p) @ drop (payload + n + 4) mem"
    by simp
  have "arc4_open g key keylen mem payload len = Some (g', ?m, True)"
    unfolding arc4_open_def Let_def s s'
    by (simp only: rd0 d d' wr rd g' t nat_int Option.bind.bind_lunit prod.case icv [symmetric] simp_thms)
  then show ?thesis using g' unfolding m by blast
qed

section \<open>The key of a frame\<close>

lemma wep_seed_cong: "mem_rd m iv 3 = mem_rd m' iv' 3 \<Longrightarrow> wep_seed m iv sec idx = wep_seed m' iv' sec idx"
  by (simp add: wep_seed_def)

lemma wep_seed_Some:
  assumes "idx < length (dot11DefKey sec)" and "idx < length (dot11DefKeylen sec)"
    and "unat (dot11DefKeylen sec ! idx) \<le> 13" and "13 \<le> length (dot11DefKey sec ! idx)"
    and "iv + 3 \<le> length m"
  shows "\<exists>k l. wep_seed m iv sec idx = Some (k, l)"
  using assms by (simp add: wep_seed_def mem_get_nat mem_rd_Some mem_wr_Some)

text \<open>
  A key of more than 13 bytes does not fit behind the IV in \<open>wepkey\<close>: the copy of
  the code would leave the buffer.
\<close>

lemma wep_seed_overflow:
  assumes "idx < length (dot11DefKeylen sec)" and "13 < unat (dot11DefKeylen sec ! idx)"
  shows "wep_seed m iv sec idx = None"
  using assms
  by (auto simp: wep_seed_def mem_get_nat mem_rd_def mem_wr_def bind_eq_None_conv)

section \<open>Properties\<close>

text \<open>
  What a correct pair of attributes is for one fragment of \<open>n\<close> payload bytes: the
  sender's lengths add up, the buffer holds the frame with its ICV, the default key fits
  the seed, and the receiver parsed the same header, IV length and key index.
\<close>

definition wep_pair ::
    "security_priv \<Rightarrow> xmit_frame \<Rightarrow> rx_pkt_attrib \<Rightarrow> bytes \<Rightarrow> nat \<Rightarrow> bool" where
  "wep_pair sec xf prx mem n =
     (let a = xattrib xf; idx = unat (dot11PrivacyKeyIndex sec)
      in xbuf xf = Some mem \<and> (encrypt a = WEP40 \<or> encrypt a = WEP104) \<and> nr_frags a = 1 \<and>
         icv_len a = 4 \<and> 3 \<le> unat (iv_len a) \<and>
         unat (last_txcmdsz a) = unat (hdrlen a) + unat (iv_len a) + n + 4 \<and>
         unat (last_txcmdsz a) < 2 ^ 31 \<and>
         unat (hw_hdr_offset (pkt_offset xf)) + unat (last_txcmdsz a) \<le> length mem \<and>
         idx < length (dot11DefKey sec) \<and> idx < length (dot11DefKeylen sec) \<and>
         unat (dot11DefKeylen sec ! idx) \<le> 13 \<and> 13 \<le> length (dot11DefKey sec ! idx) \<and>
         rx_encrypt prx = encrypt a \<and> unat (rx_hdrlen prx) = unat (hdrlen a) \<and>
         rx_iv_len prx = iv_len a \<and> unat (rx_key_index prx) = idx)"

lemma seg_len:
  assumes "unat (t :: u32) = unat h + unat i + n + c"
  shows "unat (t - h - i) = n + c" and "unat e = c \<Longrightarrow> unat (t - h - i - e) = n"
proof -
  have 1: "unat (t - h) = unat i + (n + c)"
    by (rule unat_sub_exact) (use assms in simp)
  show 2: "unat (t - h - i) = n + c" by (rule unat_sub_exact) (use 1 in simp)
  show "unat e = c \<Longrightarrow> unat (t - h - i - e) = n" by (rule unat_sub_exact) (use 2 in simp)
qed

text \<open>
  A frame of \<open>hd\<close> header bytes and \<open>iv\<close> IV bytes at \<open>off\<close>, sealed over
  \<open>n\<close> payload bytes: what the receiver reads of header and IV is what the sender
  had there, and opening gives the payload back with a matching ICV.
\<close>

definition sealed :: "bytes \<times> u32 \<Rightarrow> bytes \<Rightarrow> nat \<Rightarrow> nat \<Rightarrow> bytes" where
  "sealed k mem h n =
     (let p = take n (drop h mem)
      in take h mem @ fst (arcfour_encrypt (arcfour_init (fst k) (snd k)) (p @ le32_bytes (crc_bitwise p))) @
         drop (h + n + 4) mem)"

lemma sealed_header:
  assumes "off + hl + iv + n + 4 \<le> length mem" and "j + c \<le> hl + iv"
  shows "mem_rd (drop off (sealed k mem (off + hl + iv) n)) j c = mem_rd mem (off + j) c"
proof -
  let ?s = "sealed k mem (off + hl + iv) n"
  have "length ?s = length mem" using assms(1) by (simp add: sealed_def Let_def)
  moreover have "take (off + hl + iv) ?s = take (off + hl + iv) mem"
    using assms(1) by (simp add: sealed_def Let_def)
  ultimately show ?thesis
    using assms by (simp add: mem_rd_drop) (rule mem_rd_prefix, auto)
qed

lemma sealed_opens:
  assumes "crc_ready g" and fit: "off + hl + iv + n + 4 \<le> length mem" and "n + 4 < 2 ^ 31"
    and "unat len = n + 4"
  shows "\<exists>g' m. crc_ready g' \<and>
     arc4_open g (fst k) (snd k) (drop off (sealed k mem (off + hl + iv) n)) (iv + hl) len = Some (g', m, True) \<and>
     take (hl + iv + n) m = take (hl + iv + n) (drop off mem)"
proof -
  let ?p = "take n (drop (off + hl + iv) mem)"
  let ?m = "drop off (sealed k mem (off + hl + iv) n)"
  let ?ct = "fst (arcfour_encrypt (arcfour_init (fst k) (snd k)) (?p @ le32_bytes (crc_bitwise ?p)))"
  have lct: "length ?ct = n + 4" and lp: "length ?p = n" using fit by simp_all
  have lm: "iv + hl + n + 4 \<le> length ?m" using fit by (simp add: sealed_def Let_def)
  have body: "take (n + 4) (drop (iv + hl) ?m) = ?ct"
    using fit lct by (simp add: sealed_def Let_def add.commute add.left_commute)
  have hdr: "take (iv + hl) ?m = take (hl + iv) (drop off mem)"
    using fit by (simp add: sealed_def Let_def drop_take add.commute add.left_commute)
  obtain g' where g': "crc_ready g'" "arc4_open g (fst k) (snd k) ?m (iv + hl) len =
      Some (g', take (iv + hl) ?m @ ?p @ le32_bytes (crc_bitwise ?p) @ drop (iv + hl + n + 4) ?m, True)"
    using arc4_open_Some [OF assms(1) lm assms(3) body lp assms(4)] by blast
  have "take (hl + iv + n) (take (iv + hl) ?m @ ?p @ le32_bytes (crc_bitwise ?p) @
      drop (iv + hl + n + 4) ?m) = take (hl + iv) (drop off mem) @ ?p"
    unfolding hdr using lp fit by (simp add: add.commute)
  moreover have "take (hl + iv + n) (drop off mem) = take (hl + iv) (drop off mem) @ ?p"
    by (simp only: take_add [of "hl + iv" n] drop_drop) (simp only: ac_simps)
  ultimately show ?thesis using g' by metis
qed

lemma wep_tx:
  assumes "crc_ready g" and "wep_pair sec xf prx mem n"
    and "off = unat (hw_hdr_offset (pkt_offset xf))"
    and "h = off + unat (hdrlen (xattrib xf)) + unat (iv_len (xattrib xf))"
    and "wep_seed mem (off + unat (hdrlen (xattrib xf))) sec (unat (dot11PrivacyKeyIndex sec)) = Some k"
  shows "\<exists>g'. crc_ready g' \<and>
           rtw_wep_encrypt sec frag_len g xf = Some (g', xf\<lparr>xbuf := Some (sealed k mem h n)\<rparr>)"
proof -
  let ?a = "xattrib xf"
  let ?len = "last_txcmdsz ?a - ucast (hdrlen ?a) - ucast (iv_len ?a) - ucast (icv_len ?a)"
  have len: "unat ?len = n"
    by (rule seg_len(2) [where c = 4]) (use assms(2) in \<open>auto simp: wep_pair_def Let_def\<close>)
  have fit: "h + unat ?len + 4 \<le> length mem" and small: "unat ?len < 2 ^ 31"
    using assms(2-4) len by (auto simp: wep_pair_def Let_def)
  obtain g' where g': "crc_ready g'" "arc4_seal g (fst k) (snd k) mem h ?len = Some (g', sealed k mem h n)"
    using arc4_seal_Some [OF assms(1) fit small, of "fst k" "snd k"] len by (auto simp: sealed_def Let_def)
  have pay: "off + unat (iv_len ?a) + unat (hdrlen ?a) = h" using assms(4) by simp
  have "wep_encrypt_frag sec frag_len xf (g, mem, off) 0 = Some (g', sealed k mem h n, off)"
    using assms(2,5) g'(2) by (cases k) (simp add: wep_encrypt_frag_def wep_pair_def Let_def pay)
  then show ?thesis
    using g'(1) assms(2,3) by (auto simp: rtw_wep_encrypt_def wep_pair_def Let_def)
qed

text \<open>
  a WEP frame that \<open>rtw_wep_encrypt\<close> seals (any header and IV of at least three
  bytes, any payload, keys of up to 13 bytes) is opened by \<open>rtw_wep_decrypt\<close> at the
  receiver: no access leaves a buffer, the ICV check succeeds, and header, IV and
  payload are those of the frame before encryption.
\<close>

theorem wep_roundtrip:
  assumes "crc_ready g" and "wep_pair sec xf prx mem n"
  shows "\<exists>g1 mem1 g2 mem2.
     rtw_wep_encrypt sec frag_len g xf = Some (g1, xf\<lparr>xbuf := Some mem1\<rparr>) \<and>
     rtw_wep_decrypt sec g1 prx (last_txcmdsz (xattrib xf))
       (drop (unat (hw_hdr_offset (pkt_offset xf))) mem1) = Some (g2, mem2, True) \<and>
     take (unat (last_txcmdsz (xattrib xf)) - 4) mem2 =
       take (unat (last_txcmdsz (xattrib xf)) - 4) (drop (unat (hw_hdr_offset (pkt_offset xf))) mem)"
proof -
  let ?a = "xattrib xf" and ?idx = "unat (dot11PrivacyKeyIndex sec)"
  define off where "off = unat (hw_hdr_offset (pkt_offset xf))"
  define hl where "hl = unat (hdrlen ?a)"
  define iv where "iv = unat (iv_len ?a)"
  have fit: "off + hl + iv + n + 4 \<le> length mem" and lt: "n + 4 < 2 ^ 31" and iv3: "3 \<le> iv"
    and sz: "unat (last_txcmdsz ?a) = hl + iv + n + 4"
    using assms(2) by (auto simp: wep_pair_def Let_def off_def hl_def iv_def)
  obtain k where seed: "wep_seed mem (off + hl) sec ?idx = Some k"
    using assms(2) fit iv3 wep_seed_Some [of ?idx sec "off + hl" mem]
    by (fastforce simp: wep_pair_def Let_def)
  let ?m = "drop off (sealed k mem (off + hl + iv) n)"
  obtain g1 where g1: "crc_ready g1"
      "rtw_wep_encrypt sec frag_len g xf = Some (g1, xf\<lparr>xbuf := Some (sealed k mem (off + hl + iv) n)\<rparr>)"
    using wep_tx [OF assms off_def _ seed [unfolded hl_def], of _ frag_len] by (auto simp: hl_def iv_def)
  have "mem_rd ?m hl 3 = mem_rd mem (off + hl) 3" by (rule sealed_header) (use fit iv3 in auto)
  then have seed': "wep_seed ?m hl sec ?idx = Some k" using wep_seed_cong seed by metis
  let ?len = "last_txcmdsz ?a - ucast (rx_hdrlen prx) - ucast (rx_iv_len prx)"
  have len: "unat ?len = n + 4"
    by (rule seg_len(1)) (use assms(2) in \<open>auto simp: wep_pair_def Let_def\<close>)
  obtain g2 m where "arc4_open g1 (fst k) (snd k) ?m (iv + hl) ?len = Some (g2, m, True)"
      and m: "take (hl + iv + n) m = take (hl + iv + n) (drop off mem)"
    using sealed_opens [OF g1(1) fit lt len, of k] by blast
  then have "rtw_wep_decrypt sec g1 prx (last_txcmdsz ?a) ?m = Some (g2, m, True)"
    using assms(2) seed'
    by (cases k) (simp add: rtw_wep_decrypt_def wep_pair_def Let_def hl_def iv_def)
  then show ?thesis using g1(2) m sz unfolding off_def by auto
qed

definition wep_ex_sec :: security_priv where
  "wep_ex_sec = \<lparr>dot11PrivacyKeyIndex = 0, dot11DefKey = [replicate 16 7],
     dot11DefKeylen = [5], dot118021XGrpKeyid = 0, dot118021XGrpKey = [], binstallGrpkey = False\<rparr>"

definition wep_ex_frame :: xmit_frame where
  "wep_ex_frame = \<lparr>buf_addr = 0, xbuf = Some (replicate 80 1), pkt_offset = 0,
     xattrib = \<lparr>encrypt = WEP40, nr_frags = 1, hdrlen = 24, iv_len = 4, icv_len = 4,
       last_txcmdsz = 35, att_ra = replicate 6 2, att_ta = replicate 6 4, att_UncstKey = []\<rparr>\<rparr>"

definition wep_ex_rx :: rx_pkt_attrib where
  "wep_ex_rx = \<lparr>rx_encrypt = WEP40, rx_hdrlen = 24, rx_iv_len = 4, rx_key_index = 0,
     rx_ra = replicate 6 2, rx_ta = replicate 6 4\<rparr>"

lemma wep_ex_pair: "wep_pair wep_ex_sec wep_ex_frame wep_ex_rx (replicate 80 1) 3"
  by (simp add: wep_pair_def wep_ex_sec_def wep_ex_frame_def wep_ex_rx_def Let_def hw_hdr_offset_def)

theorem wep_roundtrip_witness:
  "\<exists>g1 mem1 g2 mem2.
     rtw_wep_encrypt wep_ex_sec 2346 crc_boot wep_ex_frame = Some (g1, wep_ex_frame\<lparr>xbuf := Some mem1\<rparr>) \<and>
     rtw_wep_decrypt wep_ex_sec g1 wep_ex_rx 35 (drop 40 mem1) = Some (g2, mem2, True) \<and>
     take 31 mem2 = take 31 (drop 40 (replicate 80 (1 :: u8)))"
  using wep_roundtrip [OF crc_boot_ready wep_ex_pair, of 2346]
  by (simp add: wep_ex_frame_def hw_hdr_offset_def)

end
