(* ===== verification/Sec_Ccmp.thy ===== *)
theory Sec_Ccmp
  imports Sec_Aes Sec_Wep Sta_Mgt "HOL-Library.Signed_Division"
begin

text \<open>
  CCMP (\<open>aes_cipher\<close>, \<open>aes_decipher\<close>, \<open>rtw_aes_encrypt\<close>,
  \<open>rtw_aes_decrypt\<close> of \<open>core/rtw_security.c\<close>) on whole frames in a byte
  buffer; an access outside a buffer is \<open>None\<close>. The three places of the code that
  run the same loop (CBC-MAC over the payload, counter mode over the payload, sealing of a
  frame) are one definition each. Indices are natural numbers: frames are far shorter
  than 2^32 bytes.
\<close>

section \<open>Header blocks\<close>

definition MAX_MSG_SIZE :: nat where "MAX_MSG_SIZE = 2048"
definition WLAN_HDR_A3_LEN :: u32 where "WLAN_HDR_A3_LEN = 24"
definition WLAN_HDR_A3_QOS_LEN :: u32 where "WLAN_HDR_A3_QOS_LEN = 26"
definition WIFI_DATA :: u32 where "WIFI_DATA = 0x08"
definition WIFI_DATA_CFACK :: u32 where "WIFI_DATA_CFACK = 0x18"
definition WIFI_DATA_CFPOLL :: u32 where "WIFI_DATA_CFPOLL = 0x28"
definition WIFI_DATA_CFACKPOLL :: u32 where "WIFI_DATA_CFACKPOLL = 0x38"

definition frame_ctl :: "bytes \<Rightarrow> u32" where
  "frame_ctl pbuf = ucast (pbuf ! 0) OR push_bit 8 (ucast (pbuf ! 1))"

definition GetFrameType :: "bytes \<Rightarrow> u32" where "GetFrameType pbuf = frame_ctl pbuf AND 0x0c"
definition GetFrameSubType :: "bytes \<Rightarrow> u32" where "GetFrameSubType pbuf = frame_ctl pbuf AND 0xfc"

text \<open>\<open>qc_exists\<close>, \<open>a4_exists\<close> and the header length after the adjustment.\<close>

definition ccmp_layout :: "bytes \<Rightarrow> u32 \<Rightarrow> bool \<times> bool \<times> u32" where
  "ccmp_layout pframe hlen =
     (let frtype = GetFrameType pframe;
          frsubtype = drop_bit 4 (GetFrameSubType pframe);
          a4_exists = \<not> (hlen = WLAN_HDR_A3_LEN \<or> hlen = WLAN_HDR_A3_QOS_LEN)
      in if (frtype OR frsubtype) = WIFI_DATA_CFACK \<or> (frtype OR frsubtype) = WIFI_DATA_CFPOLL \<or>
            (frtype OR frsubtype) = WIFI_DATA_CFACKPOLL
         then (True, a4_exists, if hlen \<noteq> WLAN_HDR_A3_QOS_LEN then hlen + 2 else hlen)
         else if frtype = WIFI_DATA \<and> (frsubtype = 0x08 \<or> frsubtype = 0x09 \<or> frsubtype = 0x0a \<or> frsubtype = 0x0b)
         then (True, a4_exists, if hlen \<noteq> WLAN_HDR_A3_QOS_LEN then hlen + 2 else hlen)
         else (False, a4_exists, hlen))"

definition ccmp_pn :: "bytes \<Rightarrow> nat \<Rightarrow> bytes option" where
  "ccmp_pn pframe hlen = do {
     iv \<leftarrow> mem_rd pframe hlen 8;
     Some [iv ! 0, iv ! 1, iv ! 4, iv ! 5, iv ! 6, iv ! 7] }"

definition construct_mic_iv :: "bool \<Rightarrow> bool \<Rightarrow> bytes \<Rightarrow> u32 \<Rightarrow> bytes \<Rightarrow> bytes" where
  "construct_mic_iv qc_exists a4_exists mpdu payload_length pn =
     [0x59,
      if qc_exists \<and> a4_exists then mpdu ! 30 AND 0x0f
      else if qc_exists \<and> \<not> a4_exists then mpdu ! 24 AND 0x0f else 0x00,
      mpdu ! 10, mpdu ! 11, mpdu ! 12, mpdu ! 13, mpdu ! 14, mpdu ! 15,
      pn ! 5, pn ! 4, pn ! 3, pn ! 2, pn ! 1, pn ! 0,
      ucast (payload_length div 256), ucast (payload_length mod 256)]"

definition construct_mic_header1 :: "u32 \<Rightarrow> bytes \<Rightarrow> bytes" where
  "construct_mic_header1 header_length mpdu =
     [of_int ((sint header_length - 2) sdiv 256), of_int ((sint header_length - 2) smod 256),
      mpdu ! 0 AND 0xcf, mpdu ! 1 AND 0xc7,
      mpdu ! 4, mpdu ! 5, mpdu ! 6, mpdu ! 7, mpdu ! 8, mpdu ! 9,
      mpdu ! 10, mpdu ! 11, mpdu ! 12, mpdu ! 13, mpdu ! 14, mpdu ! 15]"

definition construct_mic_header2 :: "bytes \<Rightarrow> bool \<Rightarrow> bool \<Rightarrow> bytes" where
  "construct_mic_header2 mpdu a4_exists qc_exists =
     (let a4 = [mpdu ! 24, mpdu ! 25, mpdu ! 26, mpdu ! 27, mpdu ! 28, mpdu ! 29]
      in [mpdu ! 16, mpdu ! 17, mpdu ! 18, mpdu ! 19, mpdu ! 20, mpdu ! 21, 0x00, 0x00] @
         (if \<not> qc_exists \<and> a4_exists then a4 @ [0, 0]
          else if qc_exists \<and> \<not> a4_exists then [mpdu ! 24 AND 0x0f, mpdu ! 25 AND 0x00, 0, 0, 0, 0, 0, 0]
          else if qc_exists \<and> a4_exists then a4 @ [mpdu ! 30 AND 0x0f, mpdu ! 31 AND 0x00]
          else [0, 0, 0, 0, 0, 0, 0, 0]))"

definition construct_ctr_preload :: "bool \<Rightarrow> bool \<Rightarrow> bytes \<Rightarrow> bytes \<Rightarrow> nat \<Rightarrow> bytes" where
  "construct_ctr_preload a4_exists qc_exists mpdu pn c =
     [0x01,
      if qc_exists \<and> a4_exists then mpdu ! 30 AND 0x0f
      else if qc_exists \<and> \<not> a4_exists then mpdu ! 24 AND 0x0f else 0x00,
      mpdu ! 10, mpdu ! 11, mpdu ! 12, mpdu ! 13, mpdu ! 14, mpdu ! 15,
      pn ! 5, pn ! 4, pn ! 3, pn ! 2, pn ! 1, pn ! 0,
      of_nat (c div 256), of_nat (c mod 256)]"

definition pad16 :: "bytes \<Rightarrow> bytes" where "pad16 p = p @ replicate (16 - length p) 0"

section \<open>CBC-MAC\<close>

definition cbc_block :: "bytes \<Rightarrow> bytes \<Rightarrow> bytes \<times> nat \<Rightarrow> nat \<Rightarrow> (bytes \<times> nat) option" where
  "cbc_block key pframe s i = (case s of (aes_out, payload_index) \<Rightarrow> do {
     blk \<leftarrow> mem_rd pframe payload_index 16;
     Some (aes128k128d key (xor_128 aes_out blk), payload_index + 16) })"

text \<open>The MIC, and the index behind the payload.\<close>

definition ccmp_mic :: "bytes \<Rightarrow> bytes \<Rightarrow> bytes \<Rightarrow> bytes \<Rightarrow> bytes \<Rightarrow> nat \<Rightarrow> nat \<Rightarrow> nat \<Rightarrow> (bytes \<times> nat) option" where
  "ccmp_mic key mic_iv mic_header1 mic_header2 pframe payload_index num_blocks payload_remainder = do {
     let aes_out = aes128k128d key mic_iv;
     let aes_out = aes128k128d key (xor_128 aes_out mic_header1);
     let aes_out = aes128k128d key (xor_128 aes_out mic_header2);
     (aes_out, payload_index) \<leftarrow> opt_fold (cbc_block key pframe) (aes_out, payload_index) [0..<num_blocks];
     (aes_out, payload_index) \<leftarrow>
       (if 0 < payload_remainder
        then do { t \<leftarrow> mem_rd pframe payload_index payload_remainder;
                  Some (aes128k128d key (xor_128 aes_out (pad16 t)), payload_index + payload_remainder) }
        else Some (aes_out, payload_index));
     Some (take 8 aes_out, payload_index) }"

section \<open>Counter mode\<close>

definition ctr_block :: "bytes \<Rightarrow> bool \<Rightarrow> bool \<Rightarrow> bytes \<Rightarrow> bytes \<times> nat \<Rightarrow> nat \<Rightarrow> (bytes \<times> nat) option" where
  "ctr_block key a4 qc pn s i = (case s of (pframe, payload_index) \<Rightarrow> do {
     let aes_out = aes128k128d key (construct_ctr_preload a4 qc pframe pn (i + 1));
     blk \<leftarrow> mem_rd pframe payload_index 16;
     pframe \<leftarrow> mem_wr pframe payload_index (xor_128 aes_out blk);
     Some (pframe, payload_index + 16) })"

definition ccmp_ctr :: "bytes \<Rightarrow> bool \<Rightarrow> bool \<Rightarrow> bytes \<Rightarrow> bytes \<Rightarrow> nat \<Rightarrow> nat \<Rightarrow> nat \<Rightarrow> (bytes \<times> nat) option" where
  "ccmp_ctr key a4 qc pn pframe payload_index num_blocks payload_remainder = do {
     (pframe, payload_index) \<leftarrow> opt_fold (ctr_block key a4 qc pn) (pframe, payload_index) [0..<num_blocks];
     if 0 < payload_remainder
     then do {
       let ctr_preload = construct_ctr_preload a4 qc pframe pn (num_blocks + 1);
       t \<leftarrow> mem_rd pframe payload_index payload_remainder;
       let aes_out = aes128k128d key ctr_preload;
       pframe \<leftarrow> mem_wr pframe payload_index (take payload_remainder (xor_128 aes_out (pad16 t)));
       Some (pframe, payload_index + payload_remainder) }
     else Some (pframe, payload_index) }"

section \<open>Frames\<close>

text \<open>From the MIC to its encryption: all of \<open>aes_cipher\<close> behind the header blocks.\<close>

definition ccmp_seal :: "bytes \<Rightarrow> bool \<Rightarrow> bool \<Rightarrow> u32 \<Rightarrow> bytes \<Rightarrow> u32 \<Rightarrow> bytes \<Rightarrow> bytes option" where
  "ccmp_seal key qc a4 hlen pn plen pframe = do {
     let mic_iv = construct_mic_iv qc a4 pframe plen pn;
     let mic_header1 = construct_mic_header1 hlen pframe;
     let mic_header2 = construct_mic_header2 pframe a4 qc;
     let payload_remainder = unat (plen mod 16);
     let num_blocks = unat (plen div 16);
     (mic, payload_index) \<leftarrow> ccmp_mic key mic_iv mic_header1 mic_header2 pframe (unat hlen + 8)
                               num_blocks payload_remainder;
     pframe \<leftarrow> mem_wr pframe payload_index mic;
     (pframe, payload_index) \<leftarrow> ccmp_ctr key a4 qc pn pframe (unat hlen + 8) num_blocks payload_remainder;
     let ctr_preload = construct_ctr_preload a4 qc pframe pn 0;
     m \<leftarrow> mem_rd pframe (unat hlen + 8 + unat plen) 8;
     let aes_out = aes128k128d key ctr_preload;
     mem_wr pframe payload_index (take 8 (xor_128 aes_out (pad16 m))) }"

definition aes_cipher :: "bytes \<Rightarrow> u32 \<Rightarrow> bytes \<Rightarrow> u32 \<Rightarrow> bytes option" where
  "aes_cipher key hlen pframe plen = do {
     let (qc, a4, hlen) = ccmp_layout pframe hlen;
     pn \<leftarrow> ccmp_pn pframe (unat hlen);
     ccmp_seal key qc a4 hlen pn plen pframe }"

text \<open>
  \<open>message\<close> is the static buffer, which keeps its contents between calls: a frame
  that does not fit is not copied to it. The first component of the result is
  \<open>res = _SUCCESS\<close>.
\<close>

definition aes_decipher :: "bytes \<Rightarrow> u32 \<Rightarrow> bytes \<Rightarrow> bytes \<Rightarrow> u32 \<Rightarrow> (bool \<times> bytes \<times> bytes) option" where
  "aes_decipher key hlen0 message pframe plen = do {
     let num_blocks = unat ((plen - 8) div 16);
     let payload_remainder = unat ((plen - 8) mod 16);
     pn \<leftarrow> ccmp_pn pframe (unat hlen0);
     let (qc, a4, hlen) = ccmp_layout pframe hlen0;
     (pframe, payload_index) \<leftarrow> ccmp_ctr key a4 qc pn pframe (unat hlen + 8) num_blocks payload_remainder;
     message \<leftarrow> (if unat (hlen + plen + 8) \<le> MAX_MSG_SIZE
                 then do { f \<leftarrow> mem_rd pframe 0 (unat (hlen + plen + 8)); mem_wr message 0 f }
                 else Some message);
     pn \<leftarrow> ccmp_pn pframe (unat hlen);
     message \<leftarrow> ccmp_seal key qc a4 hlen pn (plen - 8) message;
     t \<leftarrow> mem_rd pframe (unat hlen + 8 + unat plen - 8) 8;
     m \<leftarrow> mem_rd message (unat hlen + 8 + unat plen - 8) 8;
     Some (t = m, message, pframe) }"

section \<open>Whole frames of the driver\<close>

definition aes_encrypt_frag ::
    "bytes \<Rightarrow> u32 \<Rightarrow> xmit_frame \<Rightarrow> bytes \<times> nat \<Rightarrow> nat \<Rightarrow> (bytes \<times> nat) option" where
  "aes_encrypt_frag prwskey frag_len xf s curfragnum = (case s of (mem, pframe) \<Rightarrow> do {
     let pattrib = xattrib xf;
     let hl = ucast (hdrlen pattrib);
     if curfragnum + 1 = unat (nr_frags pattrib)
     then do {
       let len = last_txcmdsz pattrib - ucast (hdrlen pattrib) - ucast (iv_len pattrib)
                   - ucast (icv_len pattrib);
       f \<leftarrow> aes_cipher prwskey hl (drop pframe mem) len;
       Some (take pframe mem @ f, pframe) }
     else do {
       let len = frag_len - ucast (hdrlen pattrib) - ucast (iv_len pattrib)
                   - ucast (icv_len pattrib);
       f \<leftarrow> aes_cipher prwskey hl (drop pframe mem) len;
       Some (take pframe mem @ f, next_frag (buf_addr xf) pframe frag_len) } })"

definition rtw_aes_encrypt :: "security_priv \<Rightarrow> u32 \<Rightarrow> xmit_frame \<Rightarrow> (bool \<times> xmit_frame) option" where
  "rtw_aes_encrypt sec frag_len xf =
     (case xbuf xf of
        None \<Rightarrow> Some (False, xf)
      | Some mem \<Rightarrow>
          (let pattrib = xattrib xf;
               pframe = unat (hw_hdr_offset (pkt_offset xf))
           in if encrypt pattrib = AES
              then do {
                prwskey \<leftarrow> (if IS_MCAST (att_ra pattrib)
                             then mem_get (dot118021XGrpKey sec) (int (unat (dot118021XGrpKeyid sec)))
                             else Some (att_UncstKey pattrib));
                (mem, pframe) \<leftarrow> opt_fold (aes_encrypt_frag prwskey frag_len xf) (mem, pframe)
                                    [0..<unat (nr_frags pattrib)];
                Some (True, xf\<lparr>xbuf := Some mem\<rparr>) }
              else Some (True, xf)))"

text \<open>
  A group frame is refused when no group key is installed and when its key index is not
  the installed one; the second check comes after the key was fetched.
\<close>

definition aes_rx_key :: "security_priv \<Rightarrow> sta_priv \<Rightarrow> rx_pkt_attrib \<Rightarrow> bytes option option" where
  "aes_rx_key sec sp prxattrib =
     (case rtw_get_stainfo sp (Some (rx_ta prxattrib)) of
        None \<Rightarrow> Some None
      | Some stainfo \<Rightarrow>
          if IS_MCAST (rx_ra prxattrib)
          then if \<not> binstallGrpkey sec then Some None
               else do {
                 key \<leftarrow> mem_get (dot118021XGrpKey sec) (int (unat (rx_key_index prxattrib)));
                 Some (if dot118021XGrpKeyid sec \<noteq> ucast (rx_key_index prxattrib) then None else Some key) }
          else Some (Some (UncstKey (sta_of sp stainfo))))"

definition rtw_aes_decrypt ::
    "security_priv \<Rightarrow> sta_priv \<Rightarrow> bytes \<Rightarrow> rx_pkt_attrib \<Rightarrow> u32 \<Rightarrow> bytes \<Rightarrow> (bool \<times> bytes \<times> bytes) option" where
  "rtw_aes_decrypt sec sp message prxattrib len mem =
     (if rx_encrypt prxattrib = AES
      then do {
        key \<leftarrow> aes_rx_key sec sp prxattrib;
        (case key of
           None \<Rightarrow> Some (False, message, mem)
         | Some prwskey \<Rightarrow>
             (let length = len - ucast (rx_hdrlen prxattrib) - ucast (rx_iv_len prxattrib)
              in aes_decipher prwskey (ucast (rx_hdrlen prxattrib)) message mem length)) }
      else Some (True, message, mem))"

section \<open>Header blocks depend on the header only\<close>

lemma header_cong:
  assumes "32 \<le> length hdr"
  shows "construct_ctr_preload a4 qc (hdr @ r) pn c = construct_ctr_preload a4 qc hdr pn c"
    and "construct_mic_iv qc a4 (hdr @ r) l pn = construct_mic_iv qc a4 hdr l pn"
    and "construct_mic_header1 h (hdr @ r) = construct_mic_header1 h hdr"
    and "construct_mic_header2 (hdr @ r) a4 qc = construct_mic_header2 hdr a4 qc"
proof -
  have "i < 32 \<Longrightarrow> (hdr @ r) ! i = hdr ! i" for i using assms by (simp add: nth_append)
  then show "construct_ctr_preload a4 qc (hdr @ r) pn c = construct_ctr_preload a4 qc hdr pn c"
    and "construct_mic_iv qc a4 (hdr @ r) l pn = construct_mic_iv qc a4 hdr l pn"
    and "construct_mic_header1 h (hdr @ r) = construct_mic_header1 h hdr"
    and "construct_mic_header2 (hdr @ r) a4 qc = construct_mic_header2 hdr a4 qc"
    by (simp_all add: construct_ctr_preload_def construct_mic_iv_def construct_mic_header1_def
        construct_mic_header2_def Let_def)
qed

lemma layout_cong:
  assumes "32 \<le> length hdr"
  shows "ccmp_layout (hdr @ r) h = ccmp_layout hdr h"
proof -
  have "frame_ctl (hdr @ r) = frame_ctl hdr"
    using assms by (auto simp: frame_ctl_def nth_append)
  then show ?thesis by (simp add: ccmp_layout_def GetFrameType_def GetFrameSubType_def)
qed

lemma pn_cong: "h + 8 \<le> length hdr \<Longrightarrow> ccmp_pn (hdr @ r) h = ccmp_pn hdr h"
  by (simp add: ccmp_pn_def mem_rd_def)

text \<open>
  The subtype was shifted down before it is compared with the shifted-up constants, so
  the first branch of the layout is never taken.
\<close>

lemma cf_branch_dead:
  "(GetFrameType p OR drop_bit 4 (GetFrameSubType p)) \<notin> {WIFI_DATA_CFACK, WIFI_DATA_CFPOLL, WIFI_DATA_CFACKPOLL}"
proof -
  let ?w = "GetFrameType p OR drop_bit 4 (GetFrameSubType p)"
  have fc: "(0xfc :: u32) = push_bit 2 (mask 6)" by (simp add: mask_eq_exp_minus_1)
  have c: "(0x0c :: u32) = push_bit 2 (mask 2)" by (simp add: mask_eq_exp_minus_1)
  have "\<not> bit ?w 4" "\<not> bit ?w 5"
    unfolding GetFrameType_def GetFrameSubType_def fc c by (simp_all add: bit_simps)
  then show ?thesis
    by (auto simp: WIFI_DATA_CFACK_def WIFI_DATA_CFPOLL_def WIFI_DATA_CFACKPOLL_def)
qed

section \<open>The loops as functions of the payload\<close>

fun ctr_xor :: "(nat \<Rightarrow> bytes) \<Rightarrow> nat \<Rightarrow> nat \<Rightarrow> bytes \<Rightarrow> bytes" where
  "ctr_xor ks i 0 p = take (length p) (xor_128 (ks i) (pad16 p))"
| "ctr_xor ks i (Suc k) p = xor_128 (ks i) (take 16 p) @ ctr_xor ks (Suc i) k (drop 16 p)"

fun cbc_mac :: "bytes \<Rightarrow> bytes \<Rightarrow> nat \<Rightarrow> bytes \<Rightarrow> bytes" where
  "cbc_mac key a 0 p = (if p = [] then a else aes128k128d key (xor_128 a (pad16 p)))"
| "cbc_mac key a (Suc k) p = cbc_mac key (aes128k128d key (xor_128 a (take 16 p))) k (drop 16 p)"

lemma length_pad16 [simp]: "length p \<le> 16 \<Longrightarrow> length (pad16 p) = 16"
  by (simp add: pad16_def)

lemma xor_128_nth [simp]: "i < 16 \<Longrightarrow> xor_128 a b ! i = a ! i XOR b ! i"
  by (simp add: xor_128_def del: upt_rec_numeral)

lemma xor_128_cancel: "length b = 16 \<Longrightarrow> xor_128 k (xor_128 k b) = b"
  by (rule nth_equalityI) (simp_all flip: xor.assoc)

lemma tail_cancel:
  assumes "length p \<le> 16"
  shows "take (length p) (xor_128 k (pad16 (take (length p) (xor_128 k (pad16 p))))) = p"
  using assms by (intro nth_equalityI) (simp_all add: pad16_def nth_append flip: xor.assoc)

lemma length_ctr_xor [simp]:
  "16 * k \<le> length p \<Longrightarrow> length p \<le> 16 * k + 16 \<Longrightarrow> length (ctr_xor ks i k p) = length p"
  by (induction ks i k p rule: ctr_xor.induct) auto

lemma ctr_xor_cancel:
  "16 * k \<le> length p \<Longrightarrow> length p \<le> 16 * k + 16 \<Longrightarrow> ctr_xor ks i k (ctr_xor ks i k p) = p"
proof (induction ks i k p rule: ctr_xor.induct)
  case (1 ks i p)
  then have "length (take (length p) (xor_128 (ks i) (pad16 p))) = length p" by simp
  then show ?case using 1 tail_cancel [of p "ks i"] by simp
next
  case (2 ks i k p)
  then have "length (take 16 p) = 16" by simp
  then show ?case using 2 xor_128_cancel [of "take 16 p" "ks i"] by simp
qed

lemma upt_shift: "[i..<i + Suc k] = i # [Suc i..<Suc i + k]"
  by (simp add: upt_conv_Cons)

text \<open>The counter loop rewrites the payload in place and leaves the rest of the frame.\<close>

lemma ctr_loop:
  assumes "32 \<le> length hdr" and "16 * k \<le> length p"
    and "ks = (\<lambda>c. aes128k128d key (construct_ctr_preload a4 qc hdr pn c))"
  shows "\<exists>c. length c = length pre + 16 * k \<and>
     opt_fold (ctr_block key a4 qc pn) (hdr @ pre @ p @ r, length (hdr @ pre)) [i..<i + k] =
       Some (hdr @ c @ drop (16 * k) p @ r, length (hdr @ c)) \<and>
     (\<forall>q. pre @ ctr_xor ks (Suc i) k (take (16 * k) p @ q) = c @ ctr_xor ks (Suc i + k) 0 q)"
  using assms(2)
proof (induction k arbitrary: pre p i)
  case 0
  then show ?case by simp
next
  case (Suc k)
  let ?b = "xor_128 (ks (Suc i)) (take 16 p)"
  have rd: "mem_rd (hdr @ pre @ p @ r) (length (hdr @ pre)) 16 = Some (take 16 p)"
    using Suc.prems by (simp add: mem_rd_def)
  have wr: "mem_wr (hdr @ pre @ p @ r) (length (hdr @ pre)) ?b = Some (hdr @ (pre @ ?b) @ drop 16 p @ r)"
    using Suc.prems by (simp add: mem_wr_def)
  have step: "ctr_block key a4 qc pn (hdr @ pre @ p @ r, length (hdr @ pre)) i =
      Some (hdr @ (pre @ ?b) @ drop 16 p @ r, length (hdr @ (pre @ ?b)))"
    using rd wr by (simp add: ctr_block_def header_cong(1) [OF assms(1)] assms(3))
  have "16 * k \<le> length (drop 16 p)" using Suc.prems by simp
  from Suc.IH [OF this, of "pre @ ?b" "Suc i"] obtain c where
      c: "length c = length (pre @ ?b) + 16 * k"
      "opt_fold (ctr_block key a4 qc pn) (hdr @ (pre @ ?b) @ drop 16 p @ r, length (hdr @ (pre @ ?b)))
         [Suc i..<Suc i + k] = Some (hdr @ c @ drop (16 * k) (drop 16 p) @ r, length (hdr @ c))"
      "\<forall>q. (pre @ ?b) @ ctr_xor ks (Suc (Suc i)) k (take (16 * k) (drop 16 p) @ q) =
         c @ ctr_xor ks (Suc (Suc i) + k) 0 q" by blast
  have d: "take (16 * Suc k) p = take 16 p @ take (16 * k) (drop 16 p)"
    using take_add [of 16 "16 * k" p] by simp
  have l: "length (take 16 p) = 16" using Suc.prems by simp
  show ?case
  proof (intro exI [of _ c] conjI allI)
    show "length c = length pre + 16 * Suc k" using c(1) by simp
    show "opt_fold (ctr_block key a4 qc pn) (hdr @ pre @ p @ r, length (hdr @ pre)) [i..<i + Suc k] =
       Some (hdr @ c @ drop (16 * Suc k) p @ r, length (hdr @ c))"
      unfolding upt_shift opt_fold.simps step using c(2) by (simp add: add.commute)
    show "pre @ ctr_xor ks (Suc i) (Suc k) (take (16 * Suc k) p @ q) = c @ ctr_xor ks (Suc i + Suc k) 0 q" for q
      using c(3) l unfolding d by simp
  qed
qed

lemma ccmp_ctr_run:
  assumes "32 \<le> length hdr" and "length p = 16 * k + rem" and "rem < 16"
    and "ks = (\<lambda>c. aes128k128d key (construct_ctr_preload a4 qc hdr pn c))"
  shows "ccmp_ctr key a4 qc pn (hdr @ p @ r) (length hdr) k rem =
     Some (hdr @ ctr_xor ks 1 k p @ r, length hdr + length p)"
proof -
  let ?t = "drop (16 * k) p"
  have t: "length ?t = rem" using assms(2) by simp
  obtain c where c: "length c = 16 * k"
      "opt_fold (ctr_block key a4 qc pn) (hdr @ p @ r, length hdr) [0..<k] = Some (hdr @ c @ ?t @ r, length (hdr @ c))"
      "\<forall>q. ctr_xor ks 1 k (take (16 * k) p @ q) = c @ ctr_xor ks (k + 1) 0 q"
    using ctr_loop [OF assms(1) _ assms(4), of k p "[]" r 0] assms(2) by auto
  have whole: "ctr_xor ks 1 k p = c @ ctr_xor ks (k + 1) 0 ?t"
    using c(3) [rule_format, of ?t] by (simp del: ctr_xor.simps)
  show ?thesis
  proof (cases "rem = 0")
    case True
    then have "?t = []" using t by simp
    then show ?thesis using c True assms(2) whole by (simp add: ccmp_ctr_def)
  next
    case False
    let ?n = "take rem (xor_128 (ks (k + 1)) (pad16 ?t))"
    have rd: "mem_rd (hdr @ c @ ?t @ r) (length (hdr @ c)) rem = Some ?t"
      using t by (simp add: mem_rd_def)
    have wr: "mem_wr (hdr @ c @ ?t @ r) (length (hdr @ c)) ?n = Some (hdr @ c @ ?n @ r)"
      using t assms(3) by (simp add: mem_wr_def)
    have ks: "aes128k128d key (construct_ctr_preload a4 qc (hdr @ c @ ?t @ r) pn (k + 1)) = ks (k + 1)"
      by (simp add: header_cong(1) [OF assms(1)] assms(4))
    show ?thesis
      using False unfolding ccmp_ctr_def c(2) Option.bind.bind_lunit prod.case Let_def ks rd wr whole
      by (simp add: t c(1) assms(2))
  qed
qed

lemma cbc_loop:
  assumes "16 * k \<le> length p"
  shows "\<exists>a'. opt_fold (cbc_block key (hdr @ p @ r)) (a, length hdr) [i..<i + k] =
       Some (a', length hdr + 16 * k) \<and>
     (\<forall>q. cbc_mac key a k (take (16 * k) p @ q) = cbc_mac key a' 0 q)"
  using assms
proof (induction k arbitrary: hdr p i a)
  case 0
  then show ?case by simp
next
  case (Suc k)
  let ?a = "aes128k128d key (xor_128 a (take 16 p))"
  have l: "length (take 16 p) = 16" using Suc.prems by simp
  have sp: "hdr @ p @ r = (hdr @ take 16 p) @ drop 16 p @ r" by simp
  have "mem_rd (hdr @ p @ r) (length hdr) 16 = Some (take 16 p)"
    using Suc.prems by (simp add: mem_rd_def)
  then have step: "cbc_block key (hdr @ p @ r) (a, length hdr) i = Some (?a, length (hdr @ take 16 p))"
    using l by (simp add: cbc_block_def)
  have "16 * k \<le> length (drop 16 p)" using Suc.prems by simp
  from Suc.IH [OF this, of "hdr @ take 16 p" ?a "Suc i"] obtain a' where
      a: "opt_fold (cbc_block key ((hdr @ take 16 p) @ drop 16 p @ r)) (?a, length (hdr @ take 16 p))
         [Suc i..<Suc i + k] = Some (a', length (hdr @ take 16 p) + 16 * k)"
      "\<forall>q. cbc_mac key ?a k (take (16 * k) (drop 16 p) @ q) = cbc_mac key a' 0 q" by blast
  have d: "take (16 * Suc k) p = take 16 p @ take (16 * k) (drop 16 p)"
    using take_add [of 16 "16 * k" p] by simp
  show ?case
  proof (intro exI [of _ a'] conjI allI)
    show "opt_fold (cbc_block key (hdr @ p @ r)) (a, length hdr) [i..<i + Suc k] =
        Some (a', length hdr + 16 * Suc k)"
      unfolding upt_shift opt_fold.simps step option.case using a(1) l unfolding sp by simp
    show "cbc_mac key a (Suc k) (take (16 * Suc k) p @ q) = cbc_mac key a' 0 q" for q
      using a(2) l unfolding d by simp
  qed
qed

definition mic_of :: "bytes \<Rightarrow> bytes \<Rightarrow> bytes \<Rightarrow> bytes \<Rightarrow> nat \<Rightarrow> bytes \<Rightarrow> bytes" where
  "mic_of key iv h1 h2 k p =
     take 8 (cbc_mac key (aes128k128d key (xor_128 (aes128k128d key (xor_128 (aes128k128d key iv) h1)) h2)) k p)"

lemma length_cbc_mac [simp]: "length a = 16 \<Longrightarrow> length (cbc_mac key a k p) = 16"
  by (induction key a k p rule: cbc_mac.induct) auto

lemma length_mic_of [simp]: "length (mic_of key iv h1 h2 k p) = 8"
  by (simp add: mic_of_def)

lemma ccmp_mic_run:
  assumes "length p = 16 * k + rem" and "rem < 16"
  shows "ccmp_mic key iv h1 h2 (hdr @ p @ r) (length hdr) k rem =
     Some (mic_of key iv h1 h2 k p, length hdr + length p)"
proof -
  let ?a = "aes128k128d key (xor_128 (aes128k128d key (xor_128 (aes128k128d key iv) h1)) h2)"
  let ?t = "drop (16 * k) p"
  have t: "length ?t = rem" using assms(1) by simp
  obtain a' where a: "opt_fold (cbc_block key (hdr @ p @ r)) (?a, length hdr) [0..<k] = Some (a', length hdr + 16 * k)"
      "\<forall>q. cbc_mac key ?a k (take (16 * k) p @ q) = cbc_mac key a' 0 q"
    using cbc_loop [of k p key hdr r ?a 0] assms(1) by auto
  have whole: "cbc_mac key ?a k p = cbc_mac key a' 0 ?t"
    using a(2) [rule_format, of ?t] by (simp del: cbc_mac.simps)
  have rd: "mem_rd (hdr @ p @ r) (length hdr + 16 * k) rem = Some ?t"
    using assms(1) by (simp add: mem_rd_def)
  have e: "?t = [] \<longleftrightarrow> rem = 0" using t by (metis length_0_conv)
  show ?thesis
    unfolding ccmp_mic_def Let_def a(1) Option.bind.bind_lunit prod.case rd mic_of_def whole
    using e assms(1) by simp
qed

section \<open>Sealing and opening\<close>

text \<open>The encrypted MIC of a payload under a header.\<close>

definition ccmp_ks :: "bytes \<Rightarrow> bool \<Rightarrow> bool \<Rightarrow> bytes \<Rightarrow> bytes \<Rightarrow> nat \<Rightarrow> bytes" where
  "ccmp_ks key qc a4 pn hdr c = aes128k128d key (construct_ctr_preload a4 qc hdr pn c)"

definition ccmp_tag :: "bytes \<Rightarrow> bool \<Rightarrow> bool \<Rightarrow> u32 \<Rightarrow> bytes \<Rightarrow> bytes \<Rightarrow> bytes \<Rightarrow> bytes" where
  "ccmp_tag key qc a4 h pn hdr p =
     take 8 (xor_128 (ccmp_ks key qc a4 pn hdr 0)
       (pad16 (mic_of key (construct_mic_iv qc a4 hdr (of_nat (length p)) pn) (construct_mic_header1 h hdr)
                 (construct_mic_header2 hdr a4 qc) (length p div 16) p)))"

lemma length_ccmp_tag [simp]: "length (ccmp_tag key qc a4 h pn hdr p) = 8"
  by (simp add: ccmp_tag_def)

lemma unat_div_mod_16: "unat (w div 16 :: u32) = unat w div 16" "unat (w mod 16 :: u32) = unat w mod 16"
  by (simp_all add: unat_div_distrib unat_mod_distrib)

lemma ccmp_seal_run:
  assumes "length hdr = unat h + 8" and "24 \<le> unat h" and "length p = unat n" and "length m = 8"
  shows "ccmp_seal key qc a4 h pn n (hdr @ p @ m @ r) =
     Some (hdr @ ctr_xor (ccmp_ks key qc a4 pn hdr) 1 (unat n div 16) p @ ccmp_tag key qc a4 h pn hdr p @ r)"
proof -
  let ?k = "unat n div 16" and ?rem = "unat n mod 16"
  let ?c = "ctr_xor (ccmp_ks key qc a4 pn hdr) 1 ?k p"
  let ?mic = "mic_of key (construct_mic_iv qc a4 hdr n pn) (construct_mic_header1 h hdr)
      (construct_mic_header2 hdr a4 qc) ?k p"
  have hdr: "32 \<le> length hdr" using assms(1,2) by simp
  have lp: "length p = 16 * ?k + ?rem" "?rem < 16" using assms(3) by simp_all
  have lc: "length ?c = unat n" using lp by simp
  have wr: "mem_wr (hdr @ p @ m @ r) (length hdr + length p) ?mic = Some (hdr @ p @ ?mic @ r)"
    using assms(4) by (simp add: mem_wr_def)
  have ctr: "ccmp_ctr key a4 qc pn (hdr @ p @ ?mic @ r) (length hdr) ?k ?rem =
      Some (hdr @ ?c @ ?mic @ r, length hdr + length p)"
    by (rule ccmp_ctr_run [OF hdr lp]) (simp add: ccmp_ks_def [abs_def])
  have rd: "mem_rd (hdr @ ?c @ ?mic @ r) (length hdr + unat n) 8 = Some ?mic"
    using lc by (simp add: mem_rd_def)
  have nn: "of_nat (length p) = n" using assms(3) by simp
  have wr2: "mem_wr (hdr @ ?c @ ?mic @ r) (length hdr + length p) (ccmp_tag key qc a4 h pn hdr p) =
      Some (hdr @ ?c @ ccmp_tag key qc a4 h pn hdr p @ r)"
    using lc assms(3) by (simp add: mem_wr_def)
  have h8: "unat h + 8 = length hdr" using assms(1) by simp
  show ?thesis
    unfolding ccmp_seal_def Let_def unat_div_mod_16 header_cong [OF hdr] h8
      ccmp_mic_run [OF lp] Option.bind.bind_lunit prod.case wr ctr rd
    using wr2 assms(3) nn by (simp add: ccmp_tag_def ccmp_ks_def)
qed

lemma ccmp_pn_Some: "length hdr = h + 8 \<Longrightarrow> \<exists>pn. ccmp_pn hdr h = Some pn"
  by (simp add: ccmp_pn_def mem_rd_def)

lemma aes_cipher_run:
  assumes "length hdr = unat h + 8" and "24 \<le> unat h" and "length p = unat n" and "length m = 8"
    and "ccmp_layout hdr h = (qc, a4, h)" and "ccmp_pn hdr (unat h) = Some pn"
  shows "aes_cipher key h (hdr @ p @ m @ r) n =
     Some (hdr @ ctr_xor (ccmp_ks key qc a4 pn hdr) 1 (unat n div 16) p @ ccmp_tag key qc a4 h pn hdr p @ r)"
proof -
  have hdr: "32 \<le> length hdr" "unat h + 8 \<le> length hdr" using assms(1,2) by simp_all
  show ?thesis
    unfolding aes_cipher_def Let_def layout_cong [OF hdr(1)] assms(5) prod.case pn_cong [OF hdr(2)] assms(6)
      Option.bind.bind_lunit
    by (rule ccmp_seal_run [OF assms(1-4)])
qed

lemma aes_decipher_run:
  assumes "length hdr = unat h + 8" and "24 \<le> unat h" and "length c = unat n" and "length t = 8"
    and "ccmp_layout hdr h = (qc, a4, h)" and "ccmp_pn hdr (unat h) = Some pn"
    and "plen - 8 = n" and "unat plen = unat n + 8"
    and "unat h + unat plen + 8 \<le> MAX_MSG_SIZE" and "length message = MAX_MSG_SIZE"
    and "pl = ctr_xor (ccmp_ks key qc a4 pn hdr) 1 (unat n div 16) c"
  shows "\<exists>message'. length message' = MAX_MSG_SIZE \<and>
     aes_decipher key h message (hdr @ c @ t @ r) plen =
       Some (t = ccmp_tag key qc a4 h pn hdr pl, message', hdr @ pl @ t @ r)"
proof -
  let ?k = "unat n div 16" and ?rem = "unat n mod 16" and ?ks = "ccmp_ks key qc a4 pn hdr"
  let ?tag = "ccmp_tag key qc a4 h pn hdr pl"
  let ?r = "drop (unat h + unat plen + 8) message"
  have hdr: "32 \<le> length hdr" "unat h + 8 \<le> length hdr" using assms(1,2) by simp_all
  have lc: "length c = 16 * ?k + ?rem" "?rem < 16" using assms(3) by simp_all
  have lp: "length pl = unat n" and c: "ctr_xor ?ks 1 ?k pl = c"
    using lc ctr_xor_cancel [of ?k c ?ks 1] by (simp_all add: assms(11))
  have sz: "unat (h + plen + 8) = unat h + unat plen + 8"
    using assms(9) by (simp add: unat_word_ariths MAX_MSG_SIZE_def)
  have ctr: "ccmp_ctr key a4 qc pn (hdr @ c @ t @ r) (unat h + 8) ?k ?rem =
      Some (hdr @ pl @ t @ r, unat h + 8 + length c)"
    unfolding assms(11) assms(1) [symmetric] by (rule ccmp_ctr_run [OF hdr(1) lc]) (simp add: ccmp_ks_def [abs_def])
  have cp: "mem_rd (hdr @ pl @ t @ r) 0 (unat h + unat plen + 8) = Some (hdr @ pl @ t)"
    using assms(1,4,8) lp by (simp add: mem_rd_def)
  have wr: "mem_wr message 0 (hdr @ pl @ t) = Some (hdr @ pl @ t @ ?r)"
    using assms(1,4,8,9,10) lp by (simp add: mem_wr_def)
  have seal: "ccmp_seal key qc a4 h pn n (hdr @ pl @ t @ ?r) = Some (hdr @ c @ ?tag @ ?r)"
    using ccmp_seal_run [OF assms(1,2) lp assms(4), of key qc a4 pn ?r] c by simp
  have i: "unat h + 8 + unat plen - 8 = length hdr + unat n" using assms(1,8) by simp
  have rd1: "mem_rd (hdr @ pl @ t @ r) (length hdr + unat n) 8 = Some t"
    using assms(4) lp by (simp add: mem_rd_def)
  have rd2: "mem_rd (hdr @ c @ ?tag @ ?r) (length hdr + unat n) 8 = Some ?tag"
    using assms(3) by (simp add: mem_rd_def)
  have "aes_decipher key h message (hdr @ c @ t @ r) plen = Some (t = ?tag, hdr @ c @ ?tag @ ?r, hdr @ pl @ t @ r)"
    unfolding aes_decipher_def Let_def assms(5,7) layout_cong [OF hdr(1)] pn_cong [OF hdr(2)] assms(6)
      Option.bind.bind_lunit prod.case unat_div_mod_16 ctr sz cp wr seal i rd1 rd2
    using assms(9) by (simp add: wr seal rd1 rd2 i)
  moreover have "length (hdr @ c @ ?tag @ ?r) = MAX_MSG_SIZE"
    using assms(1,3,8,9,10) by simp
  ultimately show ?thesis by blast
qed

text \<open>A frame of \<open>n\<close> payload bytes behind a header of \<open>h\<close> bytes and an extended IV.\<close>

lemma frame_split:
  assumes "unat h + 8 + n + 8 \<le> length mem"
  obtains hdr p m r where "mem = hdr @ p @ m @ r" "length hdr = unat h + 8" "length p = n" "length m = 8"
proof
  show "mem = take (unat h + 8) mem @ take n (drop (unat h + 8) mem) @
      take 8 (drop (unat h + 8 + n) mem) @ drop (unat h + 8 + n + 8) mem"
    by (metis append_take_drop_id drop_drop add.commute)
qed (use assms in auto)

section \<open>Properties\<close>

text \<open>
  C3: what \<open>aes_cipher\<close> makes of a frame, \<open>aes_decipher\<close> accepts, and the
  payload comes back: for every key and content, a header of at least 24 bytes
  whose length the frame control does not change (a QoS frame has the 26-byte
  header), and a frame that fits the message buffer. Neither leaves its buffers.
\<close>

theorem ccmp_roundtrip:
  assumes "24 \<le> unat h" and "snd (snd (ccmp_layout mem h)) = h"
    and "unat h + unat n + 16 \<le> length mem" and "unat h + unat n + 16 \<le> MAX_MSG_SIZE"
    and "length message = MAX_MSG_SIZE"
  shows "\<exists>sealed message' mem'.
     aes_cipher key h mem n = Some sealed \<and> length sealed = length mem \<and>
     aes_decipher key h message sealed (n + 8) = Some (True, message', mem') \<and>
     take (unat h + 8 + unat n) mem' = take (unat h + 8 + unat n) mem"
proof -
  obtain hdr p m r where mem: "mem = hdr @ p @ m @ r" "length hdr = unat h + 8" "length p = unat n" "length m = 8"
    by (rule frame_split [of h "unat n" mem]) (use assms(3) in auto)
  have l32: "32 \<le> length hdr" using mem(2) assms(1) by simp
  obtain qc a4 where lay: "ccmp_layout hdr h = (qc, a4, h)"
    using assms(2) layout_cong [OF l32] unfolding mem(1) by (metis prod.collapse)
  obtain pn where pn: "ccmp_pn hdr (unat h) = Some pn" using ccmp_pn_Some [OF mem(2)] by blast
  let ?ks = "ccmp_ks key qc a4 pn hdr"
  let ?c = "ctr_xor ?ks 1 (unat n div 16) p" and ?tag = "ccmp_tag key qc a4 h pn hdr p"
  note enc = aes_cipher_run [OF mem(2) assms(1) mem(3,4) lay pn, of key r]
  have lc: "length ?c = unat n" using mem(3) by simp
  have lt: "length ?tag = 8" by simp
  have undo: "p = ctr_xor ?ks 1 (unat n div 16) ?c"
    using ctr_xor_cancel [of "unat n div 16" p ?ks 1] mem(3) by simp
  have n8: "n + 8 - 8 = n" "unat (n + 8) = unat n + 8"
    using assms(4) by (simp_all add: unat_word_ariths MAX_MSG_SIZE_def)
  have fit: "unat h + unat (n + 8) + 8 \<le> MAX_MSG_SIZE" using assms(4) n8 by simp
  obtain message' where "aes_decipher key h message (hdr @ ?c @ ?tag @ r) (n + 8) =
      Some (True, message', hdr @ p @ ?tag @ r)"
    using aes_decipher_run [OF mem(2) assms(1) lc lt lay pn n8 fit assms(5) undo, of r] by auto
  then show ?thesis using enc mem lc by (simp add: mem(1))
qed

text \<open>
  C1: the MIC check is exact. \<open>aes_decipher\<close> accepts a frame if and only if sealing
  the decrypted frame with \<open>aes_cipher\<close> gives the received frame, bit for bit; header
  and tag are left as received.
\<close>

theorem ccmp_accepts_iff:
  assumes "24 \<le> unat h" and "snd (snd (ccmp_layout mem h)) = h"
    and "unat h + unat n + 16 \<le> length mem" and "unat h + unat n + 16 \<le> MAX_MSG_SIZE"
    and "length message = MAX_MSG_SIZE"
  shows "\<exists>ok message' mem'.
     aes_decipher key h message mem (n + 8) = Some (ok, message', mem') \<and>
     take (unat h + 8) mem' = take (unat h + 8) mem \<and>
     drop (unat h + 8 + unat n) mem' = drop (unat h + 8 + unat n) mem \<and>
     (ok \<longleftrightarrow> aes_cipher key h mem' n = Some mem)"
proof -
  obtain hdr c t r where mem: "mem = hdr @ c @ t @ r" "length hdr = unat h + 8" "length c = unat n" "length t = 8"
    by (rule frame_split [of h "unat n" mem]) (use assms(3) in auto)
  have l32: "32 \<le> length hdr" using mem(2) assms(1) by simp
  obtain qc a4 where lay: "ccmp_layout hdr h = (qc, a4, h)"
    using assms(2) layout_cong [OF l32] unfolding mem(1) by (metis prod.collapse)
  obtain pn where pn: "ccmp_pn hdr (unat h) = Some pn" using ccmp_pn_Some [OF mem(2)] by blast
  let ?ks = "ccmp_ks key qc a4 pn hdr"
  let ?p = "ctr_xor ?ks 1 (unat n div 16) c"
  have lp: "length ?p = unat n" using mem(3) by simp
  have c: "ctr_xor ?ks 1 (unat n div 16) ?p = c" using ctr_xor_cancel [of "unat n div 16" c ?ks 1] mem(3) by simp
  have n8: "n + 8 - 8 = n" "unat (n + 8) = unat n + 8"
    using assms(4) by (simp_all add: unat_word_ariths MAX_MSG_SIZE_def)
  have fit: "unat h + unat (n + 8) + 8 \<le> MAX_MSG_SIZE" using assms(4) n8 by simp
  obtain message' where "aes_decipher key h message mem (n + 8) =
      Some (t = ccmp_tag key qc a4 h pn hdr ?p, message', hdr @ ?p @ t @ r)"
    using aes_decipher_run [OF mem(2) assms(1) mem(3,4) lay pn n8 fit assms(5) refl, where key = key and r = r] unfolding mem(1) by blast
  moreover have "aes_cipher key h (hdr @ ?p @ t @ r) n = Some mem \<longleftrightarrow> t = ccmp_tag key qc a4 h pn hdr ?p"
    unfolding aes_cipher_run [OF mem(2) assms(1) lp mem(4) lay pn] c mem(1) by auto
  ultimately show ?thesis using mem lp by simp
qed

definition ccmp_ex_mem :: bytes where "ccmp_ex_mem = [0x08, 0x01] @ replicate 78 5"

lemma ccmp_ex_layout: "snd (snd (ccmp_layout ccmp_ex_mem 24)) = 24"
  by (simp add: ccmp_layout_def ccmp_ex_mem_def GetFrameType_def GetFrameSubType_def frame_ctl_def
      WIFI_DATA_CFACK_def WIFI_DATA_CFPOLL_def WIFI_DATA_CFACKPOLL_def)

theorem ccmp_roundtrip_witness:
  "\<exists>sealed message' mem'.
     aes_cipher (replicate 16 7) 24 ccmp_ex_mem 33 = Some sealed \<and> length sealed = 80 \<and>
     aes_decipher (replicate 16 7) 24 (replicate 2048 0) sealed 41 = Some (True, message', mem') \<and>
     take 65 mem' = take 65 ccmp_ex_mem"
  using ccmp_roundtrip [of 24 ccmp_ex_mem 33 "replicate 2048 0" "replicate 16 7"] ccmp_ex_layout
  by (simp add: MAX_MSG_SIZE_def) (simp add: ccmp_ex_mem_def)

theorem ccmp_accepts_iff_witness:
  "\<exists>ok message' mem'.
     aes_decipher (replicate 16 7) 24 (replicate 2048 0) ccmp_ex_mem 41 = Some (ok, message', mem') \<and>
     (ok \<longleftrightarrow> aes_cipher (replicate 16 7) 24 mem' 33 = Some ccmp_ex_mem)"
  using ccmp_accepts_iff [of 24 ccmp_ex_mem 33 "replicate 2048 0" "replicate 16 7"] ccmp_ex_layout
  by (simp add: MAX_MSG_SIZE_def) (auto simp: ccmp_ex_mem_def)

end
