(* ===== verification/Sec_Tkip.thy ===== *)
theory Sec_Tkip
  imports Sec_Wep Sta_Safe
begin

text \<open>
  TKIP of \<open>core/rtw_security.c\<close>: the two-phase key mixing (\<open>Sbox1\<close>,
  \<open>phase1\<close>, \<open>phase2\<close>) and whole frames (\<open>rtw_tkip_encrypt\<close>,
  \<open>rtw_tkip_decrypt\<close>).
  Arrays of fixed size that are only read at constant indices (\<open>p1k\<close>, \<open>PPK\<close>)
  are tuples. The lemmas show that the mixing is a keyed permutation, as the comment
  in \<open>phase2\<close> claims: no two packet numbers or transmitters share an RC4 key.
\<close>

section \<open>Tables and macros\<close>

definition Sbox1_0 :: "u16 list" where
  "Sbox1_0 = [
     0xC6A5, 0xF884, 0xEE99, 0xF68D, 0xFF0D, 0xD6BD, 0xDEB1, 0x9154,
     0x6050, 0x0203, 0xCEA9, 0x567D, 0xE719, 0xB562, 0x4DE6, 0xEC9A,
     0x8F45, 0x1F9D, 0x8940, 0xFA87, 0xEF15, 0xB2EB, 0x8EC9, 0xFB0B,
     0x41EC, 0xB367, 0x5FFD, 0x45EA, 0x23BF, 0x53F7, 0xE496, 0x9B5B,
     0x75C2, 0xE11C, 0x3DAE, 0x4C6A, 0x6C5A, 0x7E41, 0xF502, 0x834F,
     0x685C, 0x51F4, 0xD134, 0xF908, 0xE293, 0xAB73, 0x6253, 0x2A3F,
     0x080C, 0x9552, 0x4665, 0x9D5E, 0x3028, 0x37A1, 0x0A0F, 0x2FB5,
     0x0E09, 0x2436, 0x1B9B, 0xDF3D, 0xCD26, 0x4E69, 0x7FCD, 0xEA9F,
     0x121B, 0x1D9E, 0x5874, 0x342E, 0x362D, 0xDCB2, 0xB4EE, 0x5BFB,
     0xA4F6, 0x764D, 0xB761, 0x7DCE, 0x527B, 0xDD3E, 0x5E71, 0x1397,
     0xA6F5, 0xB968, 0x0000, 0xC12C, 0x4060, 0xE31F, 0x79C8, 0xB6ED,
     0xD4BE, 0x8D46, 0x67D9, 0x724B, 0x94DE, 0x98D4, 0xB0E8, 0x854A,
     0xBB6B, 0xC52A, 0x4FE5, 0xED16, 0x86C5, 0x9AD7, 0x6655, 0x1194,
     0x8ACF, 0xE910, 0x0406, 0xFE81, 0xA0F0, 0x7844, 0x25BA, 0x4BE3,
     0xA2F3, 0x5DFE, 0x80C0, 0x058A, 0x3FAD, 0x21BC, 0x7048, 0xF104,
     0x63DF, 0x77C1, 0xAF75, 0x4263, 0x2030, 0xE51A, 0xFD0E, 0xBF6D,
     0x814C, 0x1814, 0x2635, 0xC32F, 0xBEE1, 0x35A2, 0x88CC, 0x2E39,
     0x9357, 0x55F2, 0xFC82, 0x7A47, 0xC8AC, 0xBAE7, 0x322B, 0xE695,
     0xC0A0, 0x1998, 0x9ED1, 0xA37F, 0x4466, 0x547E, 0x3BAB, 0x0B83,
     0x8CCA, 0xC729, 0x6BD3, 0x283C, 0xA779, 0xBCE2, 0x161D, 0xAD76,
     0xDB3B, 0x6456, 0x744E, 0x141E, 0x92DB, 0x0C0A, 0x486C, 0xB8E4,
     0x9F5D, 0xBD6E, 0x43EF, 0xC4A6, 0x39A8, 0x31A4, 0xD337, 0xF28B,
     0xD532, 0x8B43, 0x6E59, 0xDAB7, 0x018C, 0xB164, 0x9CD2, 0x49E0,
     0xD8B4, 0xACFA, 0xF307, 0xCF25, 0xCAAF, 0xF48E, 0x47E9, 0x1018,
     0x6FD5, 0xF088, 0x4A6F, 0x5C72, 0x3824, 0x57F1, 0x73C7, 0x9751,
     0xCB23, 0xA17C, 0xE89C, 0x3E21, 0x96DD, 0x61DC, 0x0D86, 0x0F85,
     0xE090, 0x7C42, 0x71C4, 0xCCAA, 0x90D8, 0x0605, 0xF701, 0x1C12,
     0xC2A3, 0x6A5F, 0xAEF9, 0x69D0, 0x1791, 0x9958, 0x3A27, 0x27B9,
     0xD938, 0xEB13, 0x2BB3, 0x2233, 0xD2BB, 0xA970, 0x0789, 0x33A7,
     0x2DB6, 0x3C22, 0x1592, 0xC920, 0x8749, 0xAAFF, 0x5078, 0xA57A,
     0x038F, 0x59F8, 0x0980, 0x1A17, 0x65DA, 0xD731, 0x84C6, 0xD0B8,
     0x82C3, 0x29B0, 0x5A77, 0x1E11, 0x7BCB, 0xA8FC, 0x6DD6, 0x2C3A]"

definition Sbox1_1 :: "u16 list" where
  "Sbox1_1 = [
     0xA5C6, 0x84F8, 0x99EE, 0x8DF6, 0x0DFF, 0xBDD6, 0xB1DE, 0x5491,
     0x5060, 0x0302, 0xA9CE, 0x7D56, 0x19E7, 0x62B5, 0xE64D, 0x9AEC,
     0x458F, 0x9D1F, 0x4089, 0x87FA, 0x15EF, 0xEBB2, 0xC98E, 0x0BFB,
     0xEC41, 0x67B3, 0xFD5F, 0xEA45, 0xBF23, 0xF753, 0x96E4, 0x5B9B,
     0xC275, 0x1CE1, 0xAE3D, 0x6A4C, 0x5A6C, 0x417E, 0x02F5, 0x4F83,
     0x5C68, 0xF451, 0x34D1, 0x08F9, 0x93E2, 0x73AB, 0x5362, 0x3F2A,
     0x0C08, 0x5295, 0x6546, 0x5E9D, 0x2830, 0xA137, 0x0F0A, 0xB52F,
     0x090E, 0x3624, 0x9B1B, 0x3DDF, 0x26CD, 0x694E, 0xCD7F, 0x9FEA,
     0x1B12, 0x9E1D, 0x7458, 0x2E34, 0x2D36, 0xB2DC, 0xEEB4, 0xFB5B,
     0xF6A4, 0x4D76, 0x61B7, 0xCE7D, 0x7B52, 0x3EDD, 0x715E, 0x9713,
     0xF5A6, 0x68B9, 0x0000, 0x2CC1, 0x6040, 0x1FE3, 0xC879, 0xEDB6,
     0xBED4, 0x468D, 0xD967, 0x4B72, 0xDE94, 0xD498, 0xE8B0, 0x4A85,
     0x6BBB, 0x2AC5, 0xE54F, 0x16ED, 0xC586, 0xD79A, 0x5566, 0x9411,
     0xCF8A, 0x10E9, 0x0604, 0x81FE, 0xF0A0, 0x4478, 0xBA25, 0xE34B,
     0xF3A2, 0xFE5D, 0xC080, 0x8A05, 0xAD3F, 0xBC21, 0x4870, 0x04F1,
     0xDF63, 0xC177, 0x75AF, 0x6342, 0x3020, 0x1AE5, 0x0EFD, 0x6DBF,
     0x4C81, 0x1418, 0x3526, 0x2FC3, 0xE1BE, 0xA235, 0xCC88, 0x392E,
     0x5793, 0xF255, 0x82FC, 0x477A, 0xACC8, 0xE7BA, 0x2B32, 0x95E6,
     0xA0C0, 0x9819, 0xD19E, 0x7FA3, 0x6644, 0x7E54, 0xAB3B, 0x830B,
     0xCA8C, 0x29C7, 0xD36B, 0x3C28, 0x79A7, 0xE2BC, 0x1D16, 0x76AD,
     0x3BDB, 0x5664, 0x4E74, 0x1E14, 0xDB92, 0x0A0C, 0x6C48, 0xE4B8,
     0x5D9F, 0x6EBD, 0xEF43, 0xA6C4, 0xA839, 0xA431, 0x37D3, 0x8BF2,
     0x32D5, 0x438B, 0x596E, 0xB7DA, 0x8C01, 0x64B1, 0xD29C, 0xE049,
     0xB4D8, 0xFAAC, 0x07F3, 0x25CF, 0xAFCA, 0x8EF4, 0xE947, 0x1810,
     0xD56F, 0x88F0, 0x6F4A, 0x725C, 0x2438, 0xF157, 0xC773, 0x5197,
     0x23CB, 0x7CA1, 0x9CE8, 0x213E, 0xDD96, 0xDC61, 0x860D, 0x850F,
     0x90E0, 0x427C, 0xC471, 0xAACC, 0xD890, 0x0506, 0x01F7, 0x121C,
     0xA3C2, 0x5F6A, 0xF9AE, 0xD069, 0x9117, 0x5899, 0x273A, 0xB927,
     0x38D9, 0x13EB, 0xB32B, 0x3322, 0xBBD2, 0x70A9, 0x8907, 0xA733,
     0xB62D, 0x223C, 0x9215, 0x20C9, 0x4987, 0xFFAA, 0x7850, 0x7AA5,
     0x8F03, 0xF859, 0x8009, 0x171A, 0xDA65, 0x31D7, 0xC684, 0xB8D0,
     0xC382, 0xB029, 0x775A, 0x111E, 0xCB7B, 0xFCA8, 0xD66D, 0x3A2C]"

definition RotR1 :: "u16 \<Rightarrow> u16" where
  "RotR1 v = (drop_bit 1 v AND 0x7FFF) XOR push_bit 15 (v AND 1)"

definition Lo8 :: "u16 \<Rightarrow> u8" where "Lo8 v = ucast (v AND 0x00FF)"
definition Hi8 :: "u16 \<Rightarrow> u8" where "Hi8 v = ucast (drop_bit 8 v AND 0x00FF)"
definition Lo16 :: "u32 \<Rightarrow> u16" where "Lo16 v = ucast (v AND 0xFFFF)"
definition Hi16 :: "u32 \<Rightarrow> u16" where "Hi16 v = ucast (drop_bit 16 v AND 0xFFFF)"
definition Mk16 :: "u8 \<Rightarrow> u8 \<Rightarrow> u16" where "Mk16 hi lo = ucast lo XOR push_bit 8 (ucast hi)"

definition TK16 :: "bytes \<Rightarrow> nat \<Rightarrow> u16" where
  "TK16 tk N = Mk16 (tk ! (2 * N + 1)) (tk ! (2 * N))"

definition S_lookup :: "u16 \<Rightarrow> u16" where
  "S_lookup v = Sbox1_0 ! unat (Lo8 v) XOR Sbox1_1 ! unat (Hi8 v)"

type_synonym p1k_t = "u16 \<times> u16 \<times> u16 \<times> u16 \<times> u16"
type_synonym ppk_t = "u16 \<times> u16 \<times> u16 \<times> u16 \<times> u16 \<times> u16"

section \<open>Key mixing\<close>

definition phase1_init :: "bytes \<Rightarrow> u32 \<Rightarrow> p1k_t" where
  "phase1_init ta iv32 =
     (Lo16 iv32, Hi16 iv32, Mk16 (ta ! 1) (ta ! 0), Mk16 (ta ! 3) (ta ! 2), Mk16 (ta ! 5) (ta ! 4))"

fun phase1_round :: "bytes \<Rightarrow> p1k_t \<Rightarrow> nat \<Rightarrow> p1k_t" where
  "phase1_round tk (p0, p1, p2, p3, p4) i =
     (let p0 = p0 + S_lookup (p4 XOR TK16 tk (i mod 2 + 0));
          p1 = p1 + S_lookup (p0 XOR TK16 tk (i mod 2 + 2));
          p2 = p2 + S_lookup (p1 XOR TK16 tk (i mod 2 + 4));
          p3 = p3 + S_lookup (p2 XOR TK16 tk (i mod 2 + 6));
          p4 = p4 + S_lookup (p3 XOR TK16 tk (i mod 2 + 0));
          p4 = p4 + of_nat i
      in (p0, p1, p2, p3, p4))"

definition phase1 :: "bytes \<Rightarrow> bytes \<Rightarrow> u32 \<Rightarrow> p1k_t" where
  "phase1 tk ta iv32 = foldl (phase1_round tk) (phase1_init ta iv32) [0..<8]"

definition phase2_sbox :: "bytes \<Rightarrow> ppk_t \<Rightarrow> ppk_t" where
  "phase2_sbox tk PPK = (case PPK of (p0, p1, p2, p3, p4, p5) \<Rightarrow>
     let p0 = p0 + S_lookup (p5 XOR TK16 tk 0);
         p1 = p1 + S_lookup (p0 XOR TK16 tk 1);
         p2 = p2 + S_lookup (p1 XOR TK16 tk 2);
         p3 = p3 + S_lookup (p2 XOR TK16 tk 3);
         p4 = p4 + S_lookup (p3 XOR TK16 tk 4);
         p5 = p5 + S_lookup (p4 XOR TK16 tk 5)
     in (p0, p1, p2, p3, p4, p5))"

definition phase2_sweep :: "bytes \<Rightarrow> ppk_t \<Rightarrow> ppk_t" where
  "phase2_sweep tk PPK = (case PPK of (p0, p1, p2, p3, p4, p5) \<Rightarrow>
     let p0 = p0 + RotR1 (p5 XOR TK16 tk 6);
         p1 = p1 + RotR1 (p0 XOR TK16 tk 7);
         p2 = p2 + RotR1 p1;
         p3 = p3 + RotR1 p2;
         p4 = p4 + RotR1 p3;
         p5 = p5 + RotR1 p4
     in (p0, p1, p2, p3, p4, p5))"

definition phase2_ppk :: "bytes \<Rightarrow> p1k_t \<Rightarrow> u16 \<Rightarrow> ppk_t" where
  "phase2_ppk tk p1k iv16 = (case p1k of (k0, k1, k2, k3, k4) \<Rightarrow>
     phase2_sweep tk (phase2_sbox tk (k0, k1, k2, k3, k4, k4 + iv16)))"

definition phase2 :: "bytes \<Rightarrow> p1k_t \<Rightarrow> u16 \<Rightarrow> bytes" where
  "phase2 tk p1k iv16 =
     (let (p0, p1, p2, p3, p4, p5) = phase2_ppk tk p1k iv16
      in [Hi8 iv16, (Hi8 iv16 OR 0x20) AND 0x7F, Lo8 iv16, Lo8 (drop_bit 1 (p5 XOR TK16 tk 0)),
          Lo8 p0, Hi8 p0, Lo8 p1, Hi8 p1, Lo8 p2, Hi8 p2, Lo8 p3, Hi8 p3, Lo8 p4, Hi8 p4,
          Lo8 p5, Hi8 p5])"

section \<open>Frames\<close>

text \<open>The packet number of the extended IV: \<open>TSC0\<close> is the lowest byte.\<close>

definition GET_TKIP_PN :: "bytes \<Rightarrow> u64" where
  "GET_TKIP_PN iv =
     ucast (iv ! 2) OR push_bit 8 (ucast (iv ! 0)) OR push_bit 16 (ucast (iv ! 4)) OR
     push_bit 24 (ucast (iv ! 5)) OR push_bit 32 (ucast (iv ! 6)) OR push_bit 40 (ucast (iv ! 7))"

definition tkip_rc4key :: "bytes \<Rightarrow> bytes \<Rightarrow> bytes \<Rightarrow> bytes" where
  "tkip_rc4key tk ta iv =
     (let dot11txpn = GET_TKIP_PN iv;
          pnl = ucast dot11txpn; pnh = ucast (drop_bit 16 dot11txpn);
          ttkey = phase1 tk ta pnh
      in phase2 tk ttkey pnl)"

text \<open>The body of the fragment loop.\<close>

definition tkip_encrypt_frag ::
    "bytes \<Rightarrow> u32 \<Rightarrow> xmit_frame \<Rightarrow> crc_globals \<times> bytes \<times> nat \<Rightarrow> nat \<Rightarrow>
       (crc_globals \<times> bytes \<times> nat) option" where
  "tkip_encrypt_frag prwskey frag_len xf s curfragnum = (case s of (g, mem, pframe) \<Rightarrow> do {
     let pattrib = xattrib xf;
     let payload = pframe + unat (iv_len pattrib) + unat (hdrlen pattrib);
     iv \<leftarrow> mem_rd mem (pframe + unat (hdrlen pattrib)) 8;
     let rc4key = tkip_rc4key prwskey (att_ta pattrib) iv;
     if curfragnum + 1 = unat (nr_frags pattrib)
     then do {
       let len = last_txcmdsz pattrib - ucast (hdrlen pattrib) - ucast (iv_len pattrib)
                   - ucast (icv_len pattrib);
       (g, mem) \<leftarrow> arc4_seal g rc4key 16 mem payload len;
       Some (g, mem, pframe) }
     else do {
       let len = frag_len - ucast (hdrlen pattrib) - ucast (iv_len pattrib)
                   - ucast (icv_len pattrib);
       (g, mem) \<leftarrow> arc4_seal g rc4key 16 mem payload len;
       Some (g, mem, next_frag (buf_addr xf) pframe frag_len) } })"

text \<open>The first component of the result is \<open>res = _SUCCESS\<close>.\<close>

definition rtw_tkip_encrypt ::
    "security_priv \<Rightarrow> u32 \<Rightarrow> crc_globals \<Rightarrow> xmit_frame \<Rightarrow> (bool \<times> crc_globals \<times> xmit_frame) option" where
  "rtw_tkip_encrypt sec frag_len g xf =
     (case xbuf xf of
        None \<Rightarrow> Some (False, g, xf)
      | Some mem \<Rightarrow>
          (let pattrib = xattrib xf;
               pframe = unat (hw_hdr_offset (pkt_offset xf))
           in if encrypt pattrib = TKIP
              then do {
                prwskey \<leftarrow> (if IS_MCAST (att_ra pattrib)
                             then mem_get (dot118021XGrpKey sec) (int (unat (dot118021XGrpKeyid sec)))
                             else Some (att_UncstKey pattrib));
                (g, mem, pframe) \<leftarrow> opt_fold (tkip_encrypt_frag prwskey frag_len xf) (g, mem, pframe)
                                       [0..<unat (nr_frags pattrib)];
                Some (True, g, xf\<lparr>xbuf := Some mem\<rparr>) }
              else Some (True, g, xf)))"

text \<open>
  The receiver's key is the group key of the packet's key index or the pairwise key of the
  transmitting station; \<open>None\<close> in the inner option stands for the paths that fail
  before a key is chosen.
\<close>

definition tkip_rx_key :: "security_priv \<Rightarrow> sta_priv \<Rightarrow> rx_pkt_attrib \<Rightarrow> bytes option option" where
  "tkip_rx_key sec sp prxattrib =
     (case rtw_get_stainfo sp (Some (rx_ta prxattrib)) of
        None \<Rightarrow> Some None
      | Some stainfo \<Rightarrow>
          if IS_MCAST (rx_ra prxattrib)
          then if \<not> binstallGrpkey sec then Some None
               else map_option Some (mem_get (dot118021XGrpKey sec) (int (unat (rx_key_index prxattrib))))
          else Some (Some (UncstKey (sta_of sp stainfo))))"

definition rtw_tkip_decrypt ::
    "security_priv \<Rightarrow> sta_priv \<Rightarrow> crc_globals \<Rightarrow> rx_pkt_attrib \<Rightarrow> u32 \<Rightarrow> bytes \<Rightarrow>
       (bool \<times> crc_globals \<times> bytes) option" where
  "rtw_tkip_decrypt sec sp g prxattrib len mem =
     (if rx_encrypt prxattrib = TKIP
      then do {
        key \<leftarrow> tkip_rx_key sec sp prxattrib;
        (case key of
           None \<Rightarrow> Some (False, g, mem)
         | Some prwskey \<Rightarrow> do {
             let payload = unat (rx_iv_len prxattrib) + unat (rx_hdrlen prxattrib);
             let length = len - ucast (rx_hdrlen prxattrib) - ucast (rx_iv_len prxattrib);
             iv \<leftarrow> mem_rd mem (unat (rx_hdrlen prxattrib)) 8;
             (g, mem, ok) \<leftarrow> arc4_open g (tkip_rc4key prwskey (rx_ta prxattrib) iv) 16 mem payload length;
             Some (ok, g, mem) }) }
      else Some (True, g, mem))"

section \<open>The mixing is a keyed permutation\<close>

lemma bit_Lo8: "bit (Lo8 v) n \<longleftrightarrow> n < 8 \<and> bit v n"
  by (auto simp: Lo8_def mask_255 bit_simps)

lemma bit_Hi8: "bit (Hi8 v) n \<longleftrightarrow> n < 8 \<and> bit v (8 + n)"
  by (auto simp: Hi8_def mask_255 bit_simps)

lemma lo_hi_inj:
  assumes "Lo8 a = Lo8 b" and "Hi8 a = Hi8 b"
  shows "a = b"
proof (rule bit_word_eqI)
  fix n :: nat
  assume "n < LENGTH(16)"
  show "bit a n = bit b n"
  proof (cases "n < 8")
    case True
    then show ?thesis using arg_cong [OF assms(1), of "\<lambda>v. bit v n"] by (simp add: bit_Lo8)
  next
    case False
    then have "8 + (n - 8) = n" and "n - 8 < 8" using \<open>n < LENGTH(16)\<close> by simp_all
    then show ?thesis
      using arg_cong [OF assms(2), of "\<lambda>v. bit v (n - 8)"] by (simp only: bit_Hi8 simp_thms)
  qed
qed

lemma Mk16_inj: "Mk16 h l = Mk16 h' l' \<Longrightarrow> h = h' \<and> l = l'"
proof -
  assume eq: "Mk16 h l = Mk16 h' l'"
  have lo: "Lo8 (Mk16 h l) = l" and hi: "Hi8 (Mk16 h l) = h" for h l
    by (rule bit_word_eqI; auto simp: bit_Lo8 bit_Hi8 Mk16_def bit_simps dest: bit_imp_le_length)+
  show ?thesis using eq lo hi by metis
qed

lemma Lo16_Hi16_inj:
  assumes "Lo16 a = Lo16 b" and "Hi16 a = Hi16 b"
  shows "a = b"
proof (rule bit_word_eqI)
  fix n :: nat
  assume n: "n < LENGTH(32)"
  have m: "(0xFFFF :: u32) = mask 16" by (simp add: mask_eq_exp_minus_1)
  show "bit a n = bit b n"
  proof (cases "n < 16")
    case True
    then show ?thesis
      using arg_cong [OF assms(1), of "\<lambda>v. bit v n"] by (simp add: Lo16_def m bit_simps)
  next
    case False
    then have "16 + (n - 16) = n" and "n - 16 < 16" using n by simp_all
    then show ?thesis
      using arg_cong [OF assms(2), of "\<lambda>v. bit v (n - 16)"] n by (simp add: Hi16_def m bit_simps)
  qed
qed

lemma phase1_round_inj:
  "phase1_round tk s i = phase1_round tk s' i \<Longrightarrow> s = s'"
  by (cases s; cases s') (auto simp: Let_def)

lemma phase1_rounds_inj:
  "foldl (phase1_round tk) s is = foldl (phase1_round tk) s' is \<Longrightarrow> s = s'"
proof (induction "is" arbitrary: s s')
  case Nil
  then show ?case by simp
next
  case (Cons i rest)
  then have "phase1_round tk s i = phase1_round tk s' i" by (simp del: phase1_round.simps)
  then show ?case by (rule phase1_round_inj)
qed

lemma phase1_init_inj:
  "length t = 6 \<Longrightarrow> length t' = 6 \<Longrightarrow> phase1_init t iv = phase1_init t' iv' \<Longrightarrow> t = t' \<and> iv = iv'"
  by (auto simp: phase1_init_def length_Suc_conv numeral_eq_Suc dest!: Mk16_inj dest: Lo16_Hi16_inj)

lemma phase1_inj:
  "length t = 6 \<Longrightarrow> length t' = 6 \<Longrightarrow> phase1 tk t iv = phase1 tk t' iv' \<Longrightarrow> t = t' \<and> iv = iv'"
  unfolding phase1_def by (drule phase1_rounds_inj) (rule phase1_init_inj)

lemma phase2_sbox_inj: "phase2_sbox tk k = phase2_sbox tk k' \<Longrightarrow> k = k'"
  by (cases k; cases k') (auto simp: phase2_sbox_def Let_def)

lemma phase2_sweep_inj: "phase2_sweep tk k = phase2_sweep tk k' \<Longrightarrow> k = k'"
  by (cases k; cases k') (auto simp: phase2_sweep_def Let_def)

lemma phase2_ppk_inj:
  "phase2_ppk tk k iv = phase2_ppk tk k' iv' \<Longrightarrow> k = k' \<and> iv = iv'"
  by (cases k; cases k') (auto simp: phase2_ppk_def dest!: phase2_sweep_inj phase2_sbox_inj)

lemma phase2_inj: "phase2 tk k iv = phase2 tk k' iv' \<Longrightarrow> k = k' \<and> iv = iv'"
proof -
  obtain a b c d e f where p: "phase2_ppk tk k iv = (a, b, c, d, e, f)" by (metis prod.exhaust)
  obtain a' b' c' d' e' f' where p': "phase2_ppk tk k' iv' = (a', b', c', d', e', f')" by (metis prod.exhaust)
  assume "phase2 tk k iv = phase2 tk k' iv'"
  then have "phase2_ppk tk k iv = phase2_ppk tk k' iv'"
    by (simp add: phase2_def p p') (metis lo_hi_inj)
  then show ?thesis by (rule phase2_ppk_inj)
qed

lemma length_phase2 [simp, len_simps]: "length (phase2 tk k iv) = 16"
  by (simp add: phase2_def split: prod.splits)

text \<open>
  C12: under one temporal key, two packets get the same 128-bit RC4 key from
  \<open>phase1\<close> and \<open>phase2\<close> only when transmitter address and all 48 bits of the
  packet number are the same; the key never repeats across packets. The first three
  bytes carry the low 16 bits of the packet number in clear, as the receiver needs.
\<close>

theorem tkip_key_unique:
  "length t = 6 \<Longrightarrow> length t' = 6 \<Longrightarrow>
     phase2 tk (phase1 tk t iv32) iv16 = phase2 tk (phase1 tk t' iv32') iv16' \<longleftrightarrow>
     t = t' \<and> iv32 = iv32' \<and> iv16 = iv16'"
  by (auto dest!: phase2_inj dest: phase1_inj)

theorem tkip_key_unique_witness:
  "phase2 (replicate 16 3) (phase1 (replicate 16 3) [1, 2, 3, 4, 5, 6] 7) 8 =
   phase2 (replicate 16 3) (phase1 (replicate 16 3) [1, 2, 3, 4, 5, 9] 7) 8 \<longleftrightarrow>
   [1, 2, 3, 4, 5, 6 :: u8] = [1, 2, 3, 4, 5, 9] \<and> (7 :: u32) = 7 \<and> (8 :: u16) = 8"
  by (rule tkip_key_unique) simp_all


text \<open>
  The sender's lengths add up, the frame fits its buffer, and sender and
  receiver use the same temporal key and transmitter address.
\<close>

definition tkip_pair ::
    "security_priv \<Rightarrow> sta_priv \<Rightarrow> xmit_frame \<Rightarrow> rx_pkt_attrib \<Rightarrow> bytes \<Rightarrow> bytes \<Rightarrow> nat \<Rightarrow> bool" where
  "tkip_pair sec sp xf prx mem key n =
     (let a = xattrib xf
      in xbuf xf = Some mem \<and> encrypt a = TKIP \<and> nr_frags a = 1 \<and> icv_len a = 4 \<and> 8 \<le> unat (iv_len a) \<and>
         unat (last_txcmdsz a) = unat (hdrlen a) + unat (iv_len a) + n + 4 \<and>
         unat (last_txcmdsz a) < 2 ^ 31 \<and>
         unat (hw_hdr_offset (pkt_offset xf)) + unat (last_txcmdsz a) \<le> length mem \<and>
         (if IS_MCAST (att_ra a)
          then mem_get (dot118021XGrpKey sec) (int (unat (dot118021XGrpKeyid sec))) = Some key
          else att_UncstKey a = key) \<and>
         tkip_rx_key sec sp prx = Some (Some key) \<and> rx_ta prx = att_ta a \<and>
         rx_encrypt prx = TKIP \<and> unat (rx_hdrlen prx) = unat (hdrlen a) \<and> rx_iv_len prx = iv_len a)"

text \<open>
  C11: a TKIP frame sealed by \<open>rtw_tkip_encrypt\<close> (unicast or group, any header, an
  extended IV, any payload) is accepted by \<open>rtw_tkip_decrypt\<close> at a receiver that holds
  the same key for the transmitter: no access leaves a buffer, the ICV matches, and header,
  IV and payload are those before encryption.
\<close>

theorem tkip_roundtrip:
  assumes "crc_ready g" and "tkip_pair sec sp xf prx mem key n"
  shows "\<exists>g1 mem1 g2 mem2.
     rtw_tkip_encrypt sec frag_len g xf = Some (True, g1, xf\<lparr>xbuf := Some mem1\<rparr>) \<and>
     rtw_tkip_decrypt sec sp g1 prx (last_txcmdsz (xattrib xf))
       (drop (unat (hw_hdr_offset (pkt_offset xf))) mem1) = Some (True, g2, mem2) \<and>
     take (unat (last_txcmdsz (xattrib xf)) - 4) mem2 =
       take (unat (last_txcmdsz (xattrib xf)) - 4) (drop (unat (hw_hdr_offset (pkt_offset xf))) mem)"
proof -
  let ?a = "xattrib xf"
  define off where "off = unat (hw_hdr_offset (pkt_offset xf))"
  define hl where "hl = unat (hdrlen ?a)"
  define iv where "iv = unat (iv_len ?a)"
  have fit: "off + hl + iv + n + 4 \<le> length mem" and lt: "n + 4 < 2 ^ 31" and iv8: "8 \<le> iv"
    and sz: "unat (last_txcmdsz ?a) = hl + iv + n + 4"
    using assms(2) by (auto simp: tkip_pair_def Let_def off_def hl_def iv_def)
  obtain ivb where ivb: "mem_rd mem (off + hl) 8 = Some ivb"
    using fit iv8 by (simp add: mem_rd_def)
  let ?k = "(tkip_rc4key key (att_ta ?a) ivb, 16) :: bytes \<times> u32"
  let ?sm = "sealed ?k mem (off + hl + iv) n"
  let ?m = "drop off ?sm"
  let ?len = "last_txcmdsz ?a - ucast (hdrlen ?a) - ucast (iv_len ?a) - ucast (icv_len ?a)"
  have len: "unat ?len = n"
    by (rule seg_len(2) [where c = 4]) (use assms(2) in \<open>auto simp: tkip_pair_def Let_def\<close>)
  have f2: "off + hl + iv + unat ?len + 4 \<le> length mem" and s2: "unat ?len < 2 ^ 31" using fit lt len by simp_all
  obtain g1 where g1: "crc_ready g1" "arc4_seal g (fst ?k) 16 mem (off + hl + iv) ?len = Some (g1, ?sm)"
    using arc4_seal_Some [OF assms(1) f2 s2, of "fst ?k" 16] len by (auto simp: sealed_def Let_def)
  have pay: "off + unat (iv_len ?a) + unat (hdrlen ?a) = off + hl + iv" by (simp add: hl_def iv_def)
  have "tkip_encrypt_frag key frag_len xf (g, mem, off) 0 = Some (g1, ?sm, off)"
    using assms(2) g1(2) ivb [unfolded hl_def]
    by (simp add: tkip_encrypt_frag_def tkip_pair_def Let_def pay)
  then have enc: "rtw_tkip_encrypt sec frag_len g xf = Some (True, g1, xf\<lparr>xbuf := Some ?sm\<rparr>)"
    using assms(2) by (auto simp: rtw_tkip_encrypt_def tkip_pair_def Let_def simp flip: off_def)
  have ivr: "mem_rd ?m hl 8 = Some ivb"
    by (subst sealed_header) (use fit iv8 ivb in auto)
  let ?rlen = "last_txcmdsz ?a - ucast (rx_hdrlen prx) - ucast (rx_iv_len prx)"
  have rlen: "unat ?rlen = n + 4"
    by (rule seg_len(1)) (use assms(2) in \<open>auto simp: tkip_pair_def Let_def\<close>)
  obtain g2 m where "arc4_open g1 (fst ?k) (snd ?k) ?m (iv + hl) ?rlen = Some (g2, m, True)"
      and m: "take (hl + iv + n) m = take (hl + iv + n) (drop off mem)"
    using sealed_opens [OF g1(1) fit lt rlen, of ?k] by blast
  then have "rtw_tkip_decrypt sec sp g1 prx (last_txcmdsz ?a) ?m = Some (True, g2, m)"
    using assms(2) ivr
    by (simp add: rtw_tkip_decrypt_def tkip_pair_def Let_def flip: hl_def iv_def)
  then show ?thesis using enc m sz unfolding off_def by auto
qed

definition tkip_ex_sec :: security_priv where
  "tkip_ex_sec = \<lparr>dot11PrivacyKeyIndex = 0, dot11DefKey = [], dot11DefKeylen = [],
     dot118021XGrpKeyid = 1, dot118021XGrpKey = [[], replicate 16 9], binstallGrpkey = True\<rparr>"

definition tkip_ex_frame :: xmit_frame where
  "tkip_ex_frame = \<lparr>buf_addr = 0, xbuf = Some (replicate 90 1), pkt_offset = 0,
     xattrib = \<lparr>encrypt = TKIP, nr_frags = 1, hdrlen = 24, iv_len = 8, icv_len = 4,
       last_txcmdsz = 39, att_ra = bc_addr, att_ta = [4, 4, 4, 4, 4, 4], att_UncstKey = []\<rparr>\<rparr>"

definition tkip_ex_rx :: rx_pkt_attrib where
  "tkip_ex_rx = \<lparr>rx_encrypt = TKIP, rx_hdrlen = 24, rx_iv_len = 8, rx_key_index = 1,
     rx_ra = bc_addr, rx_ta = [4, 4, 4, 4, 4, 4]\<rparr>"

lemma tkip_ex_pair:
  "tkip_pair tkip_ex_sec (stapriv (sta_ex [4, 4, 4, 4, 4, 4])) tkip_ex_frame tkip_ex_rx (replicate 90 1)
     (replicate 16 9) 3"
  using sta_ex_found [OF addr_ok_ex(2)]
  by (simp add: tkip_pair_def tkip_ex_sec_def tkip_ex_frame_def tkip_ex_rx_def tkip_rx_key_def
      hw_hdr_offset_def IS_MCAST_def bc_addr_def mem_get_def)

theorem tkip_roundtrip_witness:
  "\<exists>g1 mem1 g2 mem2.
     rtw_tkip_encrypt tkip_ex_sec 2346 crc_boot tkip_ex_frame =
       Some (True, g1, tkip_ex_frame\<lparr>xbuf := Some mem1\<rparr>) \<and>
     rtw_tkip_decrypt tkip_ex_sec (stapriv (sta_ex [4, 4, 4, 4, 4, 4])) g1 tkip_ex_rx 39 (drop 40 mem1) =
       Some (True, g2, mem2) \<and>
     take 35 mem2 = take 35 (drop 40 (replicate 90 (1 :: u8)))"
  using tkip_roundtrip [OF crc_boot_ready tkip_ex_pair, of 2346]
  by (simp add: tkip_ex_frame_def hw_hdr_offset_def)

end
