(* ===== verification/Sec_Michael.thy ===== *)
theory Sec_Michael
  imports Drv_Prelude
begin

text \<open>
  The Michael message integrity code of TKIP (\<open>secmicgetuint32\<close> to
  \<open>rtw_seccalctkipmic\<close> of \<open>core/rtw_security.c\<close>, over
  \<open>struct mic_data\<close>). The reference is Michael on a list of 32-bit words; the
  lemmas show that the byte-at-a-time routines compute it over the padded message and
  that the block function loses nothing of the state.
\<close>

record mic_data =
  mic_K0 :: u32
  mic_K1 :: u32
  mic_L :: u32
  mic_R :: u32
  mic_M :: u32
  nBytesInM :: u32

definition ROL32 :: "u32 \<Rightarrow> nat \<Rightarrow> u32" where
  "ROL32 A n = push_bit n A OR (drop_bit (32 - n) A AND (push_bit n 1 - 1))"

definition ROR32 :: "u32 \<Rightarrow> nat \<Rightarrow> u32" where
  "ROR32 A n = ROL32 A (32 - n)"

definition secmicgetuint32 :: "bytes \<Rightarrow> u32" where
  "secmicgetuint32 p = foldl (\<lambda>res i. res OR push_bit (8 * i) (ucast (p ! i))) 0 [0..<4]"

fun secmicputuint32_loop :: "nat \<Rightarrow> u32 \<Rightarrow> bytes" where
  "secmicputuint32_loop 0 val = []"
| "secmicputuint32_loop (Suc n) val = ucast (val AND 0xff) # secmicputuint32_loop n (drop_bit 8 val)"

definition secmicputuint32 :: "u32 \<Rightarrow> bytes" where
  "secmicputuint32 val = secmicputuint32_loop 4 val"

definition secmicclear :: "mic_data \<Rightarrow> mic_data" where
  "secmicclear d = d\<lparr>mic_L := mic_K0 d, mic_R := mic_K1 d, nBytesInM := 0, mic_M := 0\<rparr>"

definition rtw_secmicsetkey :: "mic_data \<Rightarrow> bytes \<Rightarrow> mic_data" where
  "rtw_secmicsetkey d key =
     secmicclear (d\<lparr>mic_K0 := secmicgetuint32 key, mic_K1 := secmicgetuint32 (drop 4 key)\<rparr>)"

text \<open>The block function that \<open>rtw_secmicappendbyte\<close> runs on a full word.\<close>

definition michael_block :: "u32 \<Rightarrow> u32 \<Rightarrow> u32 \<Rightarrow> u32 \<times> u32" where
  "michael_block L R M =
     (let L = L XOR M;
          R = R XOR ROL32 L 17; L = L + R;
          R = R XOR (drop_bit 8 (L AND 0xff00ff00) OR push_bit 8 (L AND 0x00ff00ff)); L = L + R;
          R = R XOR ROL32 L 3; L = L + R;
          R = R XOR ROR32 L 2; L = L + R
      in (L, R))"

definition rtw_secmicappendbyte :: "mic_data \<Rightarrow> u8 \<Rightarrow> mic_data" where
  "rtw_secmicappendbyte d b =
     (let d = d\<lparr>mic_M := mic_M d OR push_bit (8 * unat (nBytesInM d)) (ucast b)\<rparr>;
          d = d\<lparr>nBytesInM := nBytesInM d + 1\<rparr>
      in if nBytesInM d \<ge> 4
         then (let (L, R) = michael_block (mic_L d) (mic_R d) (mic_M d)
               in d\<lparr>mic_L := L, mic_R := R, mic_M := 0, nBytesInM := 0\<rparr>)
         else d)"

definition rtw_secmicappend :: "mic_data \<Rightarrow> bytes \<Rightarrow> mic_data" where
  "rtw_secmicappend d src = foldl rtw_secmicappendbyte d src"

text \<open>The padding loop \<open>while (nBytesInM != 0)\<close>; the byte count is in 1, 2, 3 or wraps.\<close>

lemma nBytesInM_append:
  "nBytesInM (rtw_secmicappendbyte d b) = (if nBytesInM d + 1 \<ge> 4 then 0 else nBytesInM d + 1)"
  by (simp add: rtw_secmicappendbyte_def Let_def split: prod.splits)

function secgetmic_pad :: "mic_data \<Rightarrow> mic_data" where
  "secgetmic_pad d = (if nBytesInM d \<noteq> 0 then secgetmic_pad (rtw_secmicappendbyte d 0) else d)"
  by pat_completeness auto
termination
proof (relation "measure (\<lambda>d. let n = unat (nBytesInM d) in
                    if n = 0 then 0 else if n < 4 then 4 - n else 1)")
  fix d :: mic_data
  assume nz: "nBytesInM d \<noteq> 0"
  define n where "n = unat (nBytesInM d)"
  have "n \<noteq> 0" using nz by (simp add: n_def unat_eq_zero)
  moreover have "unat (nBytesInM d + 1) = (if n + 1 < 2 ^ 32 then n + 1 else 0)"
    using unat_u32_lt [of "nBytesInM d"] by (auto simp: n_def unat_word_ariths mod_if)
  ultimately show "(rtw_secmicappendbyte d 0, d) \<in> measure (\<lambda>d. let n = unat (nBytesInM d) in
                    if n = 0 then 0 else if n < 4 then 4 - n else 1)"
    by (auto simp: nBytesInM_append Let_def n_def [symmetric] word_le_nat_alt split: if_splits)
qed auto

declare secgetmic_pad.simps [simp del]

definition rtw_secgetmic :: "mic_data \<Rightarrow> bytes \<times> mic_data" where
  "rtw_secgetmic d =
     (let d = rtw_secmicappendbyte d 0x5a;
          d = rtw_secmicappendbyte d 0;
          d = rtw_secmicappendbyte d 0;
          d = rtw_secmicappendbyte d 0;
          d = rtw_secmicappendbyte d 0;
          d = secgetmic_pad d
      in (secmicputuint32 (mic_L d) @ secmicputuint32 (mic_R d), secmicclear d))"

text \<open>\<open>header\<close> and \<open>data\<close> are buffers: a read past their end faults.\<close>

definition rtw_seccalctkipmic :: "mic_data \<Rightarrow> bytes \<Rightarrow> bytes \<Rightarrow> bytes \<Rightarrow> nat \<Rightarrow> u8 \<Rightarrow> bytes option" where
  "rtw_seccalctkipmic micdata key header dat data_len pri = do {
     key8 \<leftarrow> mem_rd key 0 8;
     let d = rtw_secmicsetkey micdata key8;
     let priority = [pri, 0, 0, 0];
     h1 \<leftarrow> mem_get header 1;
     d \<leftarrow> (if h1 AND 1 \<noteq> 0
           then do {
             da \<leftarrow> mem_rd header 16 6;
             let d = rtw_secmicappend d da;
             sa \<leftarrow> (if h1 AND 2 \<noteq> 0 then mem_rd header 24 6 else mem_rd header 10 6);
             Some (rtw_secmicappend d sa) }
           else do {
             da \<leftarrow> mem_rd header 4 6;
             let d = rtw_secmicappend d da;
             sa \<leftarrow> (if h1 AND 2 \<noteq> 0 then mem_rd header 16 6 else mem_rd header 10 6);
             Some (rtw_secmicappend d sa) });
     let d = rtw_secmicappend d priority;
     body \<leftarrow> mem_rd dat 0 data_len;
     let d = rtw_secmicappend d body;
     Some (fst (rtw_secgetmic d)) }"

section \<open>The reference\<close>

text \<open>Michael over a list of words, and the words of a padded message.\<close>

fun michael_words :: "u32 \<times> u32 \<Rightarrow> u32 list \<Rightarrow> u32 \<times> u32" where
  "michael_words LR [] = LR"
| "michael_words LR (w # ws) = michael_words (michael_block (fst LR) (snd LR) w) ws"

definition le_word :: "bytes \<Rightarrow> u32" where
  "le_word p = ucast (p ! 0) OR push_bit 8 (ucast (p ! 1)) OR push_bit 16 (ucast (p ! 2)) OR
     push_bit 24 (ucast (p ! 3))"

fun words_of :: "bytes \<Rightarrow> u32 list" where
  "words_of (a # b # c # d # r) = le_word [a, b, c, d] # words_of r"
| "words_of _ = []"

definition michael_padded :: "bytes \<Rightarrow> bytes" where
  "michael_padded m = m @ [0x5a, 0, 0, 0, 0] @ replicate ((4 - (length m + 5) mod 4) mod 4) 0"

definition michael :: "bytes \<Rightarrow> bytes \<Rightarrow> u32 \<times> u32" where
  "michael key m = michael_words (le_word (take 4 key), le_word (drop 4 key)) (words_of (michael_padded m))"

section \<open>Appending bytes is processing words\<close>

lemma appendbyte_part:
  assumes "nBytesInM d + 1 < 4"
  shows "rtw_secmicappendbyte d b =
     d\<lparr>mic_M := mic_M d OR push_bit (8 * unat (nBytesInM d)) (ucast b), nBytesInM := nBytesInM d + 1\<rparr>"
  using assms by (simp add: rtw_secmicappendbyte_def Let_def not_le)

lemma appendbyte_full:
  assumes "nBytesInM d = 3"
  shows "rtw_secmicappendbyte d b =
     (let LR = michael_block (mic_L d) (mic_R d) (mic_M d OR push_bit 24 (ucast b))
      in d\<lparr>mic_L := fst LR, mic_R := snd LR, mic_M := 0, nBytesInM := 0\<rparr>)"
  using assms by (simp add: rtw_secmicappendbyte_def Let_def split: prod.splits)

lemma append_word:
  assumes "nBytesInM d = 0" and "mic_M d = 0"
  shows "rtw_secmicappend d [a, b, c, e] =
     (let LR = michael_block (mic_L d) (mic_R d) (le_word [a, b, c, e])
      in d\<lparr>mic_L := fst LR, mic_R := snd LR\<rparr>)"
proof -
  let ?d1 = "d\<lparr>mic_M := ucast a, nBytesInM := 1\<rparr>"
  let ?d2 = "d\<lparr>mic_M := ucast a OR push_bit 8 (ucast b), nBytesInM := 2\<rparr>"
  let ?d3 = "d\<lparr>mic_M := ucast a OR push_bit 8 (ucast b) OR push_bit 16 (ucast c), nBytesInM := 3\<rparr>"
  have 1: "rtw_secmicappendbyte d a = ?d1" using assms by (simp add: appendbyte_part)
  have 2: "rtw_secmicappendbyte ?d1 b = ?d2" by (simp add: appendbyte_part)
  have 3: "rtw_secmicappendbyte ?d2 c = ?d3" by (simp add: appendbyte_part or.assoc)
  show ?thesis
    using assms by (simp add: rtw_secmicappend_def 1 2 3 appendbyte_full le_word_def Let_def or.assoc)
qed

lemma append_append: "rtw_secmicappend d (a @ b) = rtw_secmicappend (rtw_secmicappend d a) b"
  by (simp add: rtw_secmicappend_def)

lemma append_aligned:
  assumes "nBytesInM d = 0" and "mic_M d = 0" and "length m mod 4 = 0"
  shows "rtw_secmicappend d m =
     d\<lparr>mic_L := fst (michael_words (mic_L d, mic_R d) (words_of m)),
       mic_R := snd (michael_words (mic_L d, mic_R d) (words_of m))\<rparr>"
  using assms
proof (induction m arbitrary: d rule: words_of.induct)
  case (1 a b c e r)
  let ?d = "rtw_secmicappend d [a, b, c, e]"
  have "rtw_secmicappend d (a # b # c # e # r) = rtw_secmicappend ?d r"
    using append_append [of d "[a, b, c, e]" r] by simp
  moreover have "nBytesInM ?d = 0" "mic_M ?d = 0"
    using append_word [OF 1(2,3)] 1(2,3) by (simp_all add: Let_def)
  ultimately show ?case using 1(1) [of ?d] 1(4) append_word [OF 1(2,3), of a b c e] by (simp add: Let_def)
qed (auto simp: rtw_secmicappend_def)

text \<open>The padding loop appends zeros until the byte count is a multiple of four.\<close>

lemma pad_unfold:
  "nBytesInM d = 0 \<Longrightarrow> secgetmic_pad d = d"
  "nBytesInM d \<noteq> 0 \<Longrightarrow> secgetmic_pad d = secgetmic_pad (rtw_secmicappendbyte d 0)"
  by (subst secgetmic_pad.simps, simp)+

lemma pad_replicate:
  "unat (nBytesInM d) < 4 \<Longrightarrow>
     secgetmic_pad d = rtw_secmicappend d (replicate ((4 - unat (nBytesInM d)) mod 4) 0)"
proof (induction d rule: secgetmic_pad.induct)
  case (1 d)
  let ?d = "rtw_secmicappendbyte d 0"
  have rep: "rtw_secmicappend d (replicate (Suc k) 0) = rtw_secmicappend ?d (replicate k 0)" for k
    by (simp add: rtw_secmicappend_def)
  note IH = 1(1) and lt = 1(2)
  consider (a) "nBytesInM d = 0" | (b) "nBytesInM d = 3" | (c) "nBytesInM d = 1" | (d) "nBytesInM d = 2"
    using u32_below_4 [OF lt] by blast
  then show ?case
  proof cases
    case a
    then show ?thesis by (simp only: pad_unfold(1)) (simp add: rtw_secmicappend_def)
  next
    case b
    then have n: "nBytesInM ?d = 0" and nz: "nBytesInM d \<noteq> 0" by (simp_all add: nBytesInM_append)
    have "secgetmic_pad d = ?d" by (simp only: pad_unfold(2) [OF nz] pad_unfold(1) [OF n])
    moreover have "(4 - unat (nBytesInM d)) mod 4 = Suc 0" using b by simp
    ultimately show ?thesis using rep [of 0] by (simp add: rtw_secmicappend_def)
  next
    case c
    then have n: "nBytesInM ?d = 2" and nz: "nBytesInM d \<noteq> 0" by (simp_all add: nBytesInM_append)
    have "secgetmic_pad ?d = rtw_secmicappend ?d (replicate 2 0)" using IH [OF nz] n by simp
    moreover have "(4 - unat (nBytesInM d)) mod 4 = Suc 2" using c by simp
    ultimately show ?thesis by (simp only: pad_unfold(2) [OF nz] rep)
  next
    case d
    then have n: "nBytesInM ?d = 3" and nz: "nBytesInM d \<noteq> 0" by (simp_all add: nBytesInM_append)
    have "secgetmic_pad ?d = rtw_secmicappend ?d (replicate 1 0)" using IH [OF nz] n by simp
    moreover have "(4 - unat (nBytesInM d)) mod 4 = Suc 1" using d by simp
    ultimately show ?thesis by (simp only: pad_unfold(2) [OF nz] rep)
  qed
qed

text \<open>The byte count of a message is its length modulo four.\<close>

lemma append_count1:
  assumes "unat (nBytesInM d) = k" and "k < 4"
  shows "unat (nBytesInM (rtw_secmicappendbyte d b)) = (k + 1) mod 4"
proof -
  have "unat (nBytesInM d + 1) = k + 1" using assms by (simp add: unat_word_ariths)
  then show ?thesis
    using assms(2) by (cases "k = 3") (auto simp: nBytesInM_append word_le_nat_alt)
qed

lemma append_count:
  "unat (nBytesInM d) = k \<Longrightarrow> k < 4 \<Longrightarrow>
     unat (nBytesInM (rtw_secmicappend d m)) = (k + length m) mod 4"
proof (induction m arbitrary: d k)
  case Nil
  then show ?case by (simp add: rtw_secmicappend_def)
next
  case (Cons b m)
  have "unat (nBytesInM (rtw_secmicappend (rtw_secmicappendbyte d b) m)) =
      ((k + 1) mod 4 + length m) mod 4"
    by (rule Cons.IH [OF append_count1 [OF Cons.prems]]) simp
  then show ?case by (simp add: rtw_secmicappend_def mod_simps)
qed

lemma pad_to_4: "(n + (4 - n mod 4) mod 4) mod 4 = (0 :: nat)"
proof -
  have "(n + (4 - n mod 4) mod 4) mod 4 = (n mod 4 + (4 - n mod 4) mod 4) mod 4"
    by (simp add: mod_add_left_eq)
  moreover have "n mod 4 < 4" by simp
  then have "n mod 4 = 0 \<or> n mod 4 = 1 \<or> n mod 4 = 2 \<or> n mod 4 = 3" by linarith
  ultimately show ?thesis by (elim disjE) simp_all
qed

lemma length_michael_padded: "length (michael_padded m) mod 4 = 0"
  using pad_to_4 [of "length m + 5"] by (simp add: michael_padded_def ac_simps)

lemma getmic_append:
  assumes "nBytesInM d = 0"
  shows "fst (rtw_secgetmic (rtw_secmicappend d m)) =
    (let e = rtw_secmicappend d (michael_padded m) in secmicputuint32 (mic_L e) @ secmicputuint32 (mic_R e))"
proof -
  let ?p = "rtw_secmicappend d (m @ [0x5a, 0, 0, 0, 0])"
  have u: "unat (nBytesInM ?p) = (length m + 5) mod 4"
    using append_count [of d 0 "m @ [0x5a, 0, 0, 0, 0]"] assms by (simp add: add.commute)
  have "secgetmic_pad ?p = rtw_secmicappend d (michael_padded m)"
    using pad_replicate [of ?p] u by (simp add: michael_padded_def flip: append_append)
  moreover have "rtw_secgetmic (rtw_secmicappend d m) =
      (secmicputuint32 (mic_L (secgetmic_pad ?p)) @ secmicputuint32 (mic_R (secgetmic_pad ?p)),
       secmicclear (secgetmic_pad ?p))"
    by (simp add: rtw_secgetmic_def rtw_secmicappend_def Let_def)
  ultimately show ?thesis by (simp add: Let_def)
qed

section \<open>The MIC of a frame\<close>

lemma secmicgetuint32_le_word: "secmicgetuint32 p = le_word p"
  by (simp add: secmicgetuint32_def le_word_def upt_rec or.assoc numeral_eq_Suc)

lemma secmicputuint32_le: "secmicputuint32 v = le32_bytes v"
proof -
  have "secmicputuint32_loop (Suc (Suc (Suc (Suc 0)))) v = le32_bytes v"
    by (simp add: le32_bytes_def)
  then show ?thesis by (simp add: secmicputuint32_def numeral_eq_Suc)
qed

text \<open>
  The message that the MIC covers: destination and source taken from the address
  fields that the To DS and From DS bits select, the priority, three zeros, the data.
\<close>

definition mic_addresses :: "bytes \<Rightarrow> bytes" where
  "mic_addresses header =
     (let to_ds = header ! 1 AND 1 \<noteq> 0; from_ds = header ! 1 AND 2 \<noteq> 0
      in take 6 (drop (if to_ds then 16 else 4) header) @
         take 6 (drop (if from_ds then (if to_ds then 24 else 16) else 10) header))"

lemma calctkipmic_michael:
  assumes "8 \<le> length key" and "30 \<le> length header" and "n \<le> length dat"
  shows "rtw_seccalctkipmic d key header dat n pri =
    (let (L, R) = michael (take 8 key) (mic_addresses header @ [pri, 0, 0, 0] @ take n dat)
     in Some (le32_bytes L @ le32_bytes R))"
proof -
  let ?d = "rtw_secmicsetkey d (take 8 key)"
  let ?m = "mic_addresses header @ [pri, 0, 0, 0] @ take n dat"
  have d0: "nBytesInM ?d = 0" "mic_M ?d = 0" and LR: "mic_L ?d = le_word (take 4 (take 8 key))" "mic_R ?d = le_word (drop 4 (take 8 key))"
    by (simp_all add: rtw_secmicsetkey_def secmicclear_def secmicgetuint32_le_word le_word_def)
  have m: "rtw_secmicappend ?d ?m = rtw_secmicappend (rtw_secmicappend
      (rtw_secmicappend ?d (mic_addresses header)) [pri, 0, 0, 0]) (take n dat)"
    by (simp only: append_append)
  have "rtw_seccalctkipmic d key header dat n pri = Some (fst (rtw_secgetmic (rtw_secmicappend ?d ?m)))"
    unfolding m using assms
    by (simp add: rtw_seccalctkipmic_def mem_rd_Some mem_get_def mic_addresses_def Let_def append_append)
  then show ?thesis
    using append_aligned [OF d0 length_michael_padded, of ?m]
    by (simp add: getmic_append [OF d0(1)] Let_def secmicputuint32_le LR michael_def split: prod.splits)
qed

text \<open>
  C13: \<open>rtw_seccalctkipmic\<close> returns the eight bytes of Michael, computed over whole
  32-bit words, of the pseudo header (DA, SA, priority, three zeros) and the data with
  the 0x5a padding, for each of the four To DS / From DS address layouts and whatever
  the uninitialised \<open>mic_data\<close> holds.
\<close>

theorem seccalctkipmic_is_michael:
  assumes "length key = 8" and "30 \<le> length header" and "n \<le> length dat"
  shows "rtw_seccalctkipmic d key header dat n pri =
    (let (L, R) = michael key (mic_addresses header @ [pri, 0, 0, 0] @ take n dat)
     in Some (le32_bytes L @ le32_bytes R))"
  using calctkipmic_michael [of key header n dat d pri] assms by simp

theorem seccalctkipmic_is_michael_witness:
  "rtw_seccalctkipmic \<lparr>mic_K0 = 9, mic_K1 = 9, mic_L = 9, mic_R = 9, mic_M = 9, nBytesInM = 9\<rparr>
     (replicate 8 1) (replicate 30 2) [1, 2, 3] 2 5 =
    (let (L, R) = michael (replicate 8 1) (mic_addresses (replicate 30 2) @ [5, 0, 0, 0] @ take 2 [1, 2, 3])
     in Some (le32_bytes L @ le32_bytes R))"
  by (rule seccalctkipmic_is_michael) simp_all

section \<open>The block function is a bijection of the state\<close>

lemma michael_block_inj: "michael_block L R M = michael_block L' R' M \<Longrightarrow> L = L' \<and> R = R'"
proof -
  have cancel: "a XOR f = b XOR f \<Longrightarrow> a = b" for a b f :: u32
    by (metis xor.right_neutral xor_self_eq xor.assoc)
  assume "michael_block L R M = michael_block L' R' M"
  then show ?thesis
    by (auto simp: michael_block_def Let_def dest!: cancel)
qed

end
