(* ===== verification/St_Cmd.thy ===== *)
theory St_Cmd
  imports Sta_Mgt
begin

text \<open>
  The session tracker at work: the packet inspection that finds TCP sessions on the receive
  path (\<open>rtw_recv_indicatepkt\<close>, \<open>os_dep/linux/recv_linux.c\<close>) and on the transmit path
  (\<open>update_attrib\<close>, \<open>core/rtw_xmit.c\<close>), and the command handler that keeps the
  sessions of a station (\<open>session_tracker_*\<close>, \<open>core/rtw_cmd.c\<close>). A packet is
  the bytes between \<open>skb->data\<close> and \<open>skb->len\<close>; a read outside them, or of a
  stack array that was not filled, is the value \<open>None\<close>. The machine is little-endian, as
  the driver's targets are; \<open>hz\<close> is the kernel's tick rate.
\<close>

section \<open>Fields of network headers\<close>

definition be16_at :: "bytes \<Rightarrow> nat \<Rightarrow> u16 option" where
  "be16_at m off = do {
     a \<leftarrow> mem_get m (int off);
     b \<leftarrow> mem_get m (int off + 1);
     Some (push_bit 8 (ucast a) OR ucast b) }"

definition le16_val :: "bytes \<Rightarrow> u16" where
  "le16_val bs = ucast (bs ! 0) OR push_bit 8 (ucast (bs ! 1))"

definition le32_val :: "bytes \<Rightarrow> u32" where
  "le32_val bs = ucast (bs ! 0) OR push_bit 8 (ucast (bs ! 1)) OR push_bit 16 (ucast (bs ! 2))
     OR push_bit 24 (ucast (bs ! 3))"

definition ntohs :: "u16 \<Rightarrow> u16" where
  "ntohs x = push_bit 8 x OR drop_bit 8 x"

definition GET_IPV4_IHL :: "bytes \<Rightarrow> u8 option" where
  "GET_IPV4_IHL ip = map_option (\<lambda>x. x AND 0xf) (mem_get ip 0)"

definition GET_IPV4_PROTOCOL :: "bytes \<Rightarrow> u8 option" where
  "GET_IPV4_PROTOCOL ip = mem_get ip 9"

definition GET_TCP_FIN :: "bytes \<Rightarrow> bool option" where
  "GET_TCP_FIN tcp = map_option (\<lambda>x. bit x 0) (mem_get tcp 13)"

definition GET_TCP_SYN :: "bytes \<Rightarrow> bool option" where
  "GET_TCP_SYN tcp = map_option (\<lambda>x. bit x 1) (mem_get tcp 13)"

definition GET_TCP_ACK :: "bytes \<Rightarrow> bool option" where
  "GET_TCP_ACK tcp = map_option (\<lambda>x. bit x 4) (mem_get tcp 13)"

section \<open>Commands\<close>

definition ST_STATUS_CHECK :: u8 where "ST_STATUS_CHECK = 1"
definition ST_STATUS_ESTABLISH :: u8 where "ST_STATUS_ESTABLISH = 2"
definition ST_EXPIRE_MS :: int where "ST_EXPIRE_MS = 10 * 1000"
definition ST_CMD_ADD :: u8 where "ST_CMD_ADD = 0"
definition ST_CMD_DEL :: u8 where "ST_CMD_DEL = 1"
definition ST_CMD_CHK :: u8 where "ST_CMD_CHK = 2"
definition MIRACAST_DISABLED :: u8 where "MIRACAST_DISABLED = 0"
definition MIRACAST_SOURCE :: u8 where "MIRACAST_SOURCE = 1"
definition MIRACAST_SINK :: u8 where "MIRACAST_SINK = 2"

definition MIRACAST_MODE_REVERSE :: "u8 \<Rightarrow> u8" where
  "MIRACAST_MODE_REVERSE mode =
     (if mode AND MIRACAST_SOURCE \<noteq> 0 then MIRACAST_SINK else 0) OR
     (if mode AND MIRACAST_SINK \<noteq> 0 then MIRACAST_SOURCE else 0)"

record st_cmd_parm =
  stc_cmd :: u8
  stc_sta :: "nat option"
  stc_local_naddr :: u32
  stc_local_port :: u16
  stc_remote_naddr :: u32
  stc_remote_port :: u16

text \<open>
  The command queued by \<open>session_tracker_cmd\<close>; \<open>mem_ok\<close> says that its three
  allocations succeed, else nothing is queued.
\<close>

definition session_tracker_cmd ::
    "bool \<Rightarrow> u8 \<Rightarrow> nat option \<Rightarrow> bytes \<Rightarrow> bytes \<Rightarrow> bytes \<Rightarrow> bytes \<Rightarrow> st_cmd_parm list" where
  "session_tracker_cmd mem_ok cmd sta la lp ra rp =
     (if \<not> mem_ok then []
      else [if cmd \<noteq> ST_CMD_CHK
            then \<lparr>stc_cmd = cmd, stc_sta = sta, stc_local_naddr = le32_val la,
                  stc_local_port = le16_val lp, stc_remote_naddr = le32_val ra,
                  stc_remote_port = le16_val rp\<rparr>
            else \<lparr>stc_cmd = cmd, stc_sta = sta, stc_local_naddr = 0, stc_local_port = 0,
                  stc_remote_naddr = 0, stc_remote_port = 0\<rparr>])"

definition session_tracker_chk_cmd :: "bool \<Rightarrow> nat option \<Rightarrow> st_cmd_parm list" where
  "session_tracker_chk_cmd mem_ok sta = session_tracker_cmd mem_ok ST_CMD_CHK sta [] [] [] []"

definition session_tracker_add_cmd ::
    "bool \<Rightarrow> nat option \<Rightarrow> bytes \<Rightarrow> bytes \<Rightarrow> bytes \<Rightarrow> bytes \<Rightarrow> st_cmd_parm list" where
  "session_tracker_add_cmd mem_ok sta la lp ra rp = session_tracker_cmd mem_ok ST_CMD_ADD sta la lp ra rp"

definition session_tracker_del_cmd ::
    "bool \<Rightarrow> nat option \<Rightarrow> bytes \<Rightarrow> bytes \<Rightarrow> bytes \<Rightarrow> bytes \<Rightarrow> st_cmd_parm list" where
  "session_tracker_del_cmd mem_ok sta la lp ra rp = session_tracker_cmd mem_ok ST_CMD_DEL sta la lp ra rp"

section \<open>Packet inspection\<close>

text \<open>
  The commands a received packet raises. \<open>p\<close> is the Ethernet packet, \<open>sta\<close> the
  station the frame came from.
\<close>

definition st_rx_inspect ::
    "bool \<Rightarrow> st_ctl_t \<Rightarrow> wifi_display_info \<Rightarrow> nat \<Rightarrow> bytes \<Rightarrow> st_cmd_parm list option" where
  "st_rx_inspect mem_ok ctl wfd sta p = do {
     proto \<leftarrow> be16_at p 12;
     if proto \<noteq> 0x0800 then Some []
     else do {
       let ip = drop 14 p;
       prot \<leftarrow> GET_IPV4_PROTOCOL ip;
       if prot = 6 \<and> rtw_st_ctl_chk_reg_s_proto ctl 6
       then do {
         ihl \<leftarrow> GET_IPV4_IHL ip;
         let tcp = drop (unat ihl * 4) ip;
         dst \<leftarrow> mem_rd ip 16 4;
         dport \<leftarrow> mem_rd tcp 2 2;
         src \<leftarrow> mem_rd ip 12 4;
         sport \<leftarrow> mem_rd tcp 0 2;
         if rtw_st_ctl_chk_reg_rule ctl wfd dst dport src sport
         then do {
           syn \<leftarrow> GET_TCP_SYN tcp;
           ack \<leftarrow> GET_TCP_ACK tcp;
           fin \<leftarrow> GET_TCP_FIN tcp;
           Some ((if syn \<and> ack then session_tracker_add_cmd mem_ok (Some sta) dst dport src sport else [])
             @ (if fin then session_tracker_del_cmd mem_ok (Some sta) dst dport src sport else [])) }
         else Some [] }
       else Some [] } }"

text \<open>The reader of an outgoing packet (\<open>os_dep/linux/xmit_linux.c\<close>).\<close>

record pkt_file =
  pf_pkt :: bytes
  pf_cur :: u32
  pf_buf_len :: u32
  pf_pkt_len :: u32

definition rtw_open_pktfile :: "bytes \<Rightarrow> pkt_file" where
  "rtw_open_pktfile p =
     \<lparr>pf_pkt = p, pf_cur = 0, pf_buf_len = of_nat (length p), pf_pkt_len = of_nat (length p)\<rparr>"

definition rtw_remainder_len :: "pkt_file \<Rightarrow> u32" where
  "rtw_remainder_len f = pf_buf_len f - pf_cur f"

text \<open>The bytes that \<open>skb_copy_bits\<close> stores are the result, as many as were left.\<close>

definition rtw_pktfile_read :: "pkt_file \<Rightarrow> u32 \<Rightarrow> pkt_file \<times> bytes" where
  "rtw_pktfile_read f rlen =
     (let len = rtw_remainder_len f;
          len = (if rlen > len then len else rlen)
      in (f\<lparr>pf_cur := pf_cur f + len, pf_pkt_len := pf_pkt_len f - len\<rparr>,
          take (unat len) (drop (unat (pf_buf_len f - pf_pkt_len f)) (pf_pkt f))))"

record ip_attrib =
  icmp_pkt :: bool
  dhcp_pkt :: bool
  st_cmds :: "st_cmd_parm list"

text \<open>
  The IPv4 part of \<open>update_attrib\<close>, from the point where the Ethernet header has been
  read. The number of option bytes to skip is computed as the code does, in words of 32 bits
  less 20 bytes.
\<close>

definition update_attrib_ip ::
    "bool \<Rightarrow> st_ctl_t \<Rightarrow> wifi_display_info \<Rightarrow> nat \<Rightarrow> pkt_file \<Rightarrow> ip_attrib option" where
  "update_attrib_ip mem_ok ctl wfd sta f = do {
     let pktlen = pf_pkt_len f;
     let (f, ip) = rtw_pktfile_read f 20;
     ihl \<leftarrow> GET_IPV4_IHL ip;
     let f = (if unat ihl * 4 > 20 then fst (rtw_pktfile_read f (ucast ihl - 20)) else f);
     prot \<leftarrow> GET_IPV4_PROTOCOL ip;
     if prot = 1 then Some \<lparr>icmp_pkt = True, dhcp_pkt = False, st_cmds = []\<rparr>
     else if prot = 0x11 then do {
       let (f, udp) = rtw_pktfile_read f 8;
       sp \<leftarrow> be16_at udp 0;
       if sp = 68 \<or> sp = 67 then do {
         dp \<leftarrow> be16_at udp 2;
         let boot = (sp = 68 \<and> dp = 67 \<or> sp = 67 \<and> dp = 68);
         Some \<lparr>icmp_pkt = False, dhcp_pkt = boot \<and> pktlen > 282, st_cmds = []\<rparr> }
       else Some \<lparr>icmp_pkt = False, dhcp_pkt = False, st_cmds = []\<rparr> }
     else if prot = 6 \<and> rtw_st_ctl_chk_reg_s_proto ctl 6 then do {
       let (f, tcp) = rtw_pktfile_read f 20;
       src \<leftarrow> mem_rd ip 12 4;
       sport \<leftarrow> mem_rd tcp 0 2;
       dst \<leftarrow> mem_rd ip 16 4;
       dport \<leftarrow> mem_rd tcp 2 2;
       if rtw_st_ctl_chk_reg_rule ctl wfd src sport dst dport
       then do {
         syn \<leftarrow> GET_TCP_SYN tcp;
         ack \<leftarrow> GET_TCP_ACK tcp;
         fin \<leftarrow> GET_TCP_FIN tcp;
         Some \<lparr>icmp_pkt = False, dhcp_pkt = False, st_cmds =
           (if syn \<and> ack then session_tracker_add_cmd mem_ok (Some sta) src sport src dport else [])
           @ (if fin then session_tracker_del_cmd mem_ok (Some sta) src sport src dport else [])\<rparr> }
       else Some \<lparr>icmp_pkt = False, dhcp_pkt = False, st_cmds = []\<rparr> }
     else Some \<lparr>icmp_pkt = False, dhcp_pkt = False, st_cmds = []\<rparr> }"

section \<open>The handler\<close>

definition rtw_systime_to_ms :: "u32 \<Rightarrow> u32 \<Rightarrow> u32" where
  "rtw_systime_to_ms hz t = t * 1000 div hz"

definition rtw_get_passing_time_ms :: "u32 \<Rightarrow> u32 \<Rightarrow> u32 \<Rightarrow> int" where
  "rtw_get_passing_time_ms hz now start = sint (rtw_systime_to_ms hz (now - start))"

definition tracker_wfd_mode :: "wifi_display_info \<Rightarrow> session_tracker \<Rightarrow> u8" where
  "tracker_wfd_mode wfd st =
     (if ntohs (local_port st) = rtsp_ctrlport wfd then MIRACAST_SINK else 0) OR
     (if ntohs (local_port st) = tdls_rtsp_ctrlport wfd then MIRACAST_SINK else 0) OR
     (if ntohs (remote_port st) = peer_rtsp_ctrlport wfd then MIRACAST_SOURCE else 0)"

definition tracker_expired :: "u32 \<Rightarrow> u32 \<Rightarrow> session_tracker \<Rightarrow> bool" where
  "tracker_expired hz now st \<longleftrightarrow>
     status st \<noteq> ST_STATUS_ESTABLISH \<and> rtw_get_passing_time_ms hz now (set_time st) > ST_EXPIRE_MS"

fun chk_trackers ::
    "u32 \<Rightarrow> u32 \<Rightarrow> wifi_display_info \<Rightarrow> session_tracker list \<Rightarrow> u8 \<Rightarrow> session_tracker list \<times> u8" where
  "chk_trackers hz now wfd [] mode = ([], mode)"
| "chk_trackers hz now wfd (st # q) mode =
     (let dead = tracker_expired hz now st;
          st = (if status st = ST_STATUS_CHECK then st\<lparr>status := ST_STATUS_ESTABLISH\<rparr> else st);
          mode = (if status st \<noteq> ST_STATUS_ESTABLISH then mode else mode OR tracker_wfd_mode wfd st);
          (q', mode) = chk_trackers hz now wfd q mode
      in (if dead then q' else st # q', mode))"

definition session_tracker_chk_for_sta ::
    "u32 \<Rightarrow> u32 \<Rightarrow> wifi_display_info \<Rightarrow> nat \<Rightarrow> adapter \<Rightarrow> adapter" where
  "session_tracker_chk_for_sta hz now wfd i s =
     (let p = sta_of (stapriv s) i in
      if st_state p AND FW_LINKED = 0 then s
      else
        let ctl = st_ctl p;
            (q, op) = (if list_ex (\<lambda>r. s_proto r \<noteq> 0) (st_reg ctl)
                       then chk_trackers hz now wfd (tracker_q ctl) MIRACAST_DISABLED
                       else (tracker_q ctl, MIRACAST_DISABLED));
            s = on_stapriv (upd_sta i (\<lambda>p. p\<lparr>st_ctl := ctl\<lparr>tracker_q := q\<rparr>\<rparr>)) s
        in if op_wfd_mode p \<noteq> op
           then call (Sta_media_status_rpt i)
                  (on_stapriv (upd_sta i (\<lambda>p. p\<lparr>op_wfd_mode := op\<rparr>)) s)
           else s)"

definition session_tracker_chk_for_adapter ::
    "u32 \<Rightarrow> u32 \<Rightarrow> wifi_display_info \<Rightarrow> adapter \<Rightarrow> adapter \<times> wifi_display_info" where
  "session_tracker_chk_for_adapter hz now wfd s =
     (let (s, op) = foldl (\<lambda>(s, op) i.
            let s = session_tracker_chk_for_sta hz now wfd i s
            in (s, op OR op_wfd_mode (sta_of (stapriv s) i)))
          (s, MIRACAST_DISABLED) (concat (sta_hash (stapriv s)))
      in (s, wfd\<lparr>wfd_op_mode := MIRACAST_MODE_REVERSE op\<rparr>))"

definition tracker_is :: "st_cmd_parm \<Rightarrow> session_tracker \<Rightarrow> bool" where
  "tracker_is c st \<longleftrightarrow>
     local_naddr st = stc_local_naddr c \<and> local_port st = stc_local_port c \<and>
     remote_naddr st = stc_remote_naddr c \<and> remote_port st = stc_remote_port c"

definition tracker_new :: "u32 \<Rightarrow> st_cmd_parm \<Rightarrow> session_tracker" where
  "tracker_new now c =
     \<lparr>local_naddr = stc_local_naddr c, local_port = stc_local_port c,
      remote_naddr = stc_remote_naddr c, remote_port = stc_remote_port c,
      set_time = now, status = ST_STATUS_CHECK\<rparr>"

text \<open>Adding and deleting on one station's queue.\<close>

definition tracker_step :: "bool \<Rightarrow> u32 \<Rightarrow> st_cmd_parm \<Rightarrow> session_tracker list \<Rightarrow> session_tracker list" where
  "tracker_step mem_ok now c q =
     (case List.find (tracker_is c) q of
        Some st \<Rightarrow> if stc_cmd c = ST_CMD_DEL then remove1 st q else q
      | None \<Rightarrow> if stc_cmd c = ST_CMD_ADD \<and> mem_ok then q @ [tracker_new now c] else q)"

definition session_tracker_cmd_hdl ::
    "bool \<Rightarrow> u32 \<Rightarrow> u32 \<Rightarrow> st_cmd_parm \<Rightarrow> adapter \<times> wifi_display_info
       \<Rightarrow> (adapter \<times> wifi_display_info) option" where
  "session_tracker_cmd_hdl mem_ok hz now c sw =
     (let (s, wfd) = sw in
      if stc_cmd c = ST_CMD_CHK then
        (case stc_sta c of
           Some i \<Rightarrow> Some (session_tracker_chk_for_sta hz now wfd i s, wfd)
         | None \<Rightarrow> Some (session_tracker_chk_for_adapter hz now wfd s))
      else if stc_cmd c = ST_CMD_ADD \<or> stc_cmd c = ST_CMD_DEL then
        (case stc_sta c of
           None \<Rightarrow> None
         | Some i \<Rightarrow>
             let p = sta_of (stapriv s) i in
             if st_state p AND FW_LINKED = 0 then Some (s, wfd)
             else Some (on_stapriv (upd_sta i (\<lambda>p. p\<lparr>st_ctl := (st_ctl p)
                    \<lparr>tracker_q := tracker_step mem_ok now c (tracker_q (st_ctl p))\<rparr>\<rparr>)) s, wfd))
      else Some (s, wfd))"

section \<open>The queue of a station as a map\<close>

type_synonym st_key = "u32 \<times> u16 \<times> u32 \<times> u16"

definition st_key_of :: "session_tracker \<Rightarrow> st_key" where
  "st_key_of st = (local_naddr st, local_port st, remote_naddr st, remote_port st)"

definition cmd_key :: "st_cmd_parm \<Rightarrow> st_key" where
  "cmd_key c = (stc_local_naddr c, stc_local_port c, stc_remote_naddr c, stc_remote_port c)"

definition st_abs :: "session_tracker list \<Rightarrow> st_key \<rightharpoonup> (u32 \<times> u8)" where
  "st_abs q = map_of (map (\<lambda>st. (st_key_of st, (set_time st, status st))) q)"

definition st_distinct :: "session_tracker list \<Rightarrow> bool" where
  "st_distinct q \<longleftrightarrow> distinct (map st_key_of q)"

text \<open>What the handler promises: a map from address pairs to sessions.\<close>

definition st_spec :: "bool \<Rightarrow> u32 \<Rightarrow> st_cmd_parm \<Rightarrow> (st_key \<rightharpoonup> (u32 \<times> u8)) \<Rightarrow> st_key \<rightharpoonup> (u32 \<times> u8)" where
  "st_spec mem_ok now c m =
     (if stc_cmd c = ST_CMD_DEL then m(cmd_key c := None)
      else if stc_cmd c = ST_CMD_ADD \<and> mem_ok \<and> m (cmd_key c) = None
      then m(cmd_key c \<mapsto> (now, ST_STATUS_CHECK)) else m)"

lemma tracker_is_key: "tracker_is c st \<longleftrightarrow> st_key_of st = cmd_key c"
  by (auto simp: tracker_is_def st_key_of_def cmd_key_def)

lemma tracker_new_key [simp]: "st_key_of (tracker_new now c) = cmd_key c"
  by (simp add: tracker_new_def st_key_of_def cmd_key_def)

lemma st_abs_None: "st_abs q k = None \<longleftrightarrow> k \<notin> st_key_of ` set q"
  by (force simp: st_abs_def map_of_eq_None_iff)

lemma find_tracker_None: "List.find (tracker_is c) q = None \<longleftrightarrow> cmd_key c \<notin> st_key_of ` set q"
  by (force simp: find_None_iff tracker_is_key)

lemma find_tracker_Some:
  assumes "List.find (tracker_is c) q = Some st"
  shows "st \<in> set q" "st_key_of st = cmd_key c"
  using assms by (force simp: find_Some_iff tracker_is_key)+

lemma st_abs_remove1:
  assumes "st_distinct q" and "st \<in> set q"
  shows "st_abs (remove1 st q) = (st_abs q)(st_key_of st := None)"
  using assms
proof (induction q)
  case Nil
  then show ?case by simp
next
  case (Cons x q)
  show ?case
  proof (cases "x = st")
    case True
    then have "st_key_of st \<notin> st_key_of ` set q" using Cons.prems by (simp add: st_distinct_def)
    then have "st_abs q (st_key_of st) = None" by (simp add: st_abs_None)
    then show ?thesis using True by (auto simp: st_abs_def)
  next
    case False
    then have "st \<in> set q" "st_distinct q" using Cons.prems by (auto simp: st_distinct_def)
    moreover have "st_key_of x \<noteq> st_key_of st"
      using Cons.prems calculation(1) by (auto simp: st_distinct_def)
    ultimately have "st_abs (remove1 st (x # q)) k = ((st_abs (x # q))(st_key_of st := None)) k" for k
      using False Cons.IH by (simp add: st_abs_def)
    then show ?thesis by blast
  qed
qed

lemma st_distinct_remove1: "st_distinct q \<Longrightarrow> st_distinct (remove1 st q)"
  unfolding st_distinct_def by (induction q) (auto dest!: set_remove1_subset [THEN subsetD])

lemma st_abs_snoc:
  "st_key_of st \<notin> st_key_of ` set q \<Longrightarrow> st_abs (q @ [st]) = (st_abs q)(st_key_of st \<mapsto> (set_time st, status st))"
  by (induction q) (auto simp: st_abs_def fun_upd_twist)

lemma st_step_refines:
  assumes "st_distinct q"
  shows "st_abs (tracker_step mem_ok now c q) = st_spec mem_ok now c (st_abs q)"
    and "st_distinct (tracker_step mem_ok now c q)"
proof -
  show "st_abs (tracker_step mem_ok now c q) = st_spec mem_ok now c (st_abs q)"
  proof (cases "List.find (tracker_is c) q")
    case None
    then have k: "cmd_key c \<notin> st_key_of ` set q" by (simp add: find_tracker_None)
    then have "st_abs q (cmd_key c) = None" by (simp add: st_abs_None)
    then show ?thesis using None k
      by (auto simp: tracker_step_def st_spec_def st_abs_snoc ST_CMD_DEL_def ST_CMD_ADD_def,
          auto simp: tracker_new_def)
  next
    case (Some st)
    note st = find_tracker_Some [OF Some]
    then have "cmd_key c \<in> st_key_of ` set q" by (metis image_eqI)
    then have "st_abs q (cmd_key c) \<noteq> None" by (simp add: st_abs_None)
    then show ?thesis using Some st assms
      by (auto simp: tracker_step_def st_spec_def st_abs_remove1)
  qed
  show "st_distinct (tracker_step mem_ok now c q)"
    using assms find_tracker_None [of c q]
    by (auto simp: tracker_step_def st_distinct_remove1 split: option.splits)
      (auto simp: st_distinct_def)
qed

section \<open>The check\<close>

definition tracker_promote :: "session_tracker \<Rightarrow> session_tracker" where
  "tracker_promote st =
     (if status st = ST_STATUS_CHECK then st\<lparr>status := ST_STATUS_ESTABLISH\<rparr> else st)"

lemma chk_trackers_queue:
  "fst (chk_trackers hz now wfd q mode) =
     map tracker_promote (filter (\<lambda>st. \<not> tracker_expired hz now st) q)"
  by (induction q arbitrary: mode) (simp_all add: tracker_promote_def Let_def case_prod_beta)

lemma chk_trackers_mode:
  "snd (chk_trackers hz now wfd q mode) =
     foldl (\<lambda>m st. if status (tracker_promote st) = ST_STATUS_ESTABLISH
                    then m OR tracker_wfd_mode wfd st else m) mode q"
  by (induction q arbitrary: mode)
    (simp_all add: tracker_promote_def tracker_wfd_mode_def Let_def case_prod_beta)

lemma tracker_promote_key [simp]: "st_key_of (tracker_promote st) = st_key_of st"
  by (simp add: tracker_promote_def st_key_of_def)

lemma map_promote_key [simp]: "map st_key_of (map tracker_promote q) = map st_key_of q"
  by (induction q) simp_all

lemma st_distinct_chk: "st_distinct q \<Longrightarrow> st_distinct (fst (chk_trackers hz now wfd q mode))"
  by (simp only: st_distinct_def chk_trackers_queue map_promote_key distinct_map_filter)

lemma promote_not_check: "status (tracker_promote st) \<noteq> ST_STATUS_CHECK"
  by (simp add: tracker_promote_def ST_STATUS_CHECK_def ST_STATUS_ESTABLISH_def)

section \<open>Packets\<close>

lemma mem_rd_take: "mem_rd (take n m) off k = (if off + k \<le> n then mem_rd m off k else None)"
  by (simp add: mem_rd_def drop_take)

lemma le32_bytes_val4: "le32_bytes (le32_val [a, b, c, d]) = [a, b, c, d]"
proof -
  have "ucast (le32_val [a, b, c, d]) = a"
    by (rule bit_word_eqI) (simp add: le32_val_def bit_simps)
  moreover have "ucast (drop_bit 8 (le32_val [a, b, c, d])) = b"
    by (rule bit_word_eqI) (auto simp: le32_val_def bit_simps dest: bit_imp_le_length)
  moreover have "ucast (drop_bit 16 (le32_val [a, b, c, d])) = c"
    by (rule bit_word_eqI) (auto simp: le32_val_def bit_simps dest: bit_imp_le_length)
  moreover have "ucast (drop_bit 24 (le32_val [a, b, c, d])) = d"
    by (rule bit_word_eqI) (auto simp: le32_val_def bit_simps dest: bit_imp_le_length)
  ultimately show ?thesis by (simp add: le32_bytes_def)
qed

lemma le32_bytes_val: "length bs = 4 \<Longrightarrow> le32_bytes (le32_val bs) = bs"
  by (auto simp: length_Suc_conv numeral_eq_Suc le32_bytes_val4)

lemma le32_val_inj:
  "length a = 4 \<Longrightarrow> length b = 4 \<Longrightarrow> le32_val a = le32_val b \<Longrightarrow> a = b"
  by (metis le32_bytes_val)

text \<open>The reader positioned after \<open>k\<close> bytes of a packet.\<close>

definition pf_at :: "bytes \<Rightarrow> nat \<Rightarrow> pkt_file" where
  "pf_at p k = \<lparr>pf_pkt = p, pf_cur = of_nat k, pf_buf_len = of_nat (length p),
     pf_pkt_len = of_nat (length p - k)\<rparr>"

lemma open_pf_at: "rtw_open_pktfile p = pf_at p 0"
  by (simp add: rtw_open_pktfile_def pf_at_def)

lemma unat_of_nat_u32: "n < 2 ^ 32 \<Longrightarrow> unat (of_nat n :: u32) = n"
  by (simp add: unat_of_nat take_bit_nat_eq_self)

lemma of_nat_minus: "k \<le> n \<Longrightarrow> (of_nat n :: u32) - of_nat k = of_nat (n - k)"
  by simp

lemma pktfile_read_at:
  assumes "length p < 2 ^ 32" and "k \<le> length p"
  shows "rtw_pktfile_read (pf_at p k) n =
     (pf_at p (k + min (unat n) (length p - k)), take (unat n) (drop k p))"
proof -
  have rem: "rtw_remainder_len (pf_at p k) = of_nat (length p - k)"
    using assms by (simp add: rtw_remainder_len_def pf_at_def)
  have urem: "unat (of_nat (length p - k) :: u32) = length p - k"
    using assms by (intro unat_of_nat_u32) simp
  have "pf_buf_len (pf_at p k) - pf_pkt_len (pf_at p k) = of_nat (length p - (length p - k))"
    by (simp only: pf_at_def pkt_file.simps) (rule of_nat_minus, simp)
  then have start: "unat (pf_buf_len (pf_at p k) - pf_pkt_len (pf_at p k)) = k"
    using assms unat_of_nat_u32 [of k] by simp
  define l where "l = (if rtw_remainder_len (pf_at p k) < n then rtw_remainder_len (pf_at p k) else n)"
  have l: "unat l = min (unat n) (length p - k)"
    using urem by (auto simp: l_def rem word_less_nat_alt simp del: of_nat_diff)
  then have lle: "unat l \<le> length p - k" by simp
  have upd: "(pf_at p k)\<lparr>pf_cur := pf_cur (pf_at p k) + l, pf_pkt_len := pf_pkt_len (pf_at p k) - l\<rparr>
      = pf_at p (k + unat l)"
    using lle assms by (simp add: pf_at_def)
  have "take (unat l) (drop k p) = take (unat n) (drop k p)"
    by (simp add: l min_def)
  moreover have "pf_pkt (pf_at p k) = p" by (simp add: pf_at_def)
  ultimately show ?thesis
    using start upd by (simp add: rtw_pktfile_read_def Let_def l flip: l_def)
qed

lemma cmd_addresses:
  assumes "c \<in> set (session_tracker_cmd mem_ok cmd sta la lp ra rp)" and "cmd \<noteq> ST_CMD_CHK"
  shows "stc_local_naddr c = le32_val la \<and> stc_remote_naddr c = le32_val ra \<and> stc_cmd c = cmd"
  using assms by (auto simp: session_tracker_cmd_def split: if_splits)

lemmas st_cmd_defs = session_tracker_add_cmd_def session_tracker_del_cmd_def
  ST_CMD_ADD_def ST_CMD_DEL_def ST_CMD_CHK_def

lemma tx_cmd_addresses:
  assumes "update_attrib_ip mem_ok ctl wfd i f = Some r" and "a \<in> set (st_cmds r)"
  shows "stc_remote_naddr a = stc_local_naddr a"
  using assms
  by (auto simp: update_attrib_ip_def Let_def st_cmd_defs dest!: cmd_addresses
      split: prod.splits if_splits bind_splits)

lemma rx_cmd_addresses:
  assumes "st_rx_inspect mem_ok ctl wfd i p = Some cs" and "d \<in> set cs"
  shows "\<exists>dst src. mem_rd (drop 14 p) 16 4 = Some dst \<and> mem_rd (drop 14 p) 12 4 = Some src \<and>
           stc_local_naddr d = le32_val dst \<and> stc_remote_naddr d = le32_val src"
  using assms
  by (auto simp: st_rx_inspect_def Let_def st_cmd_defs dest!: cmd_addresses
      split: prod.splits if_splits bind_splits)

section \<open>Properties\<close>

definition st_queue :: "adapter \<Rightarrow> nat \<Rightarrow> session_tracker list" where
  "st_queue s i = tracker_q (st_ctl (sta_of (stapriv s) i))"

lemma st_queue_upd:
  assumes "i < length (pstainfo_buf (stapriv s))"
  shows "st_queue (on_stapriv (upd_sta i f) s) j =
     (if j = i then tracker_q (st_ctl (f (sta_of (stapriv s) i))) else st_queue s j)"
  using assms by (auto simp: st_queue_def on_stapriv_def upd_sta_def sta_of_def)

text \<open>
  C40: The command handler implements a map from connections (local and remote address and
  port) to sessions: an add command inserts the connection with the current time and status
  CHECK unless it is already tracked, a delete command removes it, and the queue of the
  station never holds a connection twice. No other station's queue changes, and neither does
  the Wi-Fi Display state.
\<close>

theorem st_handler_refines_map:
  assumes "session_tracker_cmd_hdl mem_ok hz now c (s, wfd) = Some (s', wfd')"
    and "stc_cmd c \<noteq> ST_CMD_CHK" and "stc_sta c = Some i"
    and "i < length (pstainfo_buf (stapriv s))"
    and "st_state (sta_of (stapriv s) i) AND FW_LINKED \<noteq> 0"
    and "st_distinct (st_queue s i)"
  shows "st_abs (st_queue s' i) = st_spec mem_ok now c (st_abs (st_queue s i)) \<and>
     st_distinct (st_queue s' i) \<and> wfd' = wfd \<and> (j \<noteq> i \<longrightarrow> st_queue s' j = st_queue s j)"
proof (cases "stc_cmd c = ST_CMD_ADD \<or> stc_cmd c = ST_CMD_DEL")
  case True
  then have s': "s' = on_stapriv (upd_sta i (\<lambda>p. p\<lparr>st_ctl := (st_ctl p)
      \<lparr>tracker_q := tracker_step mem_ok now c (tracker_q (st_ctl p))\<rparr>\<rparr>)) s" and "wfd' = wfd"
    using assms by (auto simp: session_tracker_cmd_hdl_def Let_def split: if_splits)
  then show ?thesis
    using st_step_refines [OF assms(6), of mem_ok now c] assms(4)
    by (simp add: st_queue_upd) (simp add: st_queue_def)
next
  case False
  then have "s' = s \<and> wfd' = wfd"
    using assms by (auto simp: session_tracker_cmd_hdl_def Let_def split: if_splits)
  then show ?thesis using False assms(6) by (simp add: st_spec_def)
qed

definition st_ex :: adapter where
  "st_ex = \<lparr>mac_addr = [2, 2, 2, 2, 2, 2], iface_id = 0,
     stapriv = \<lparr>pstainfo_buf = [rtw_init_stainfo\<lparr>st_state := FW_LINKED\<rparr>],
        free_sta_queue = [], sta_hash = replicate 32 [], asoc_sta_count = 1,
        stas_sleep_q = [], wakeup_q = [], adhoc_expire_to = 0, asoc_list = [], auth_list = [],
        asoc_list_cnt = 0, auth_list_cnt = 0, auth_to = 0, assoc_to = 0, expire_to = 0,
        sta_aid = replicate 32 None, sta_dz_bitmap = 0, tim_bitmap = 0, max_num_sta = 0,
        acl_mode = 0, acl_node_q = []\<rparr>,
     macid_ctl = \<lparr>macid_num = 16, macid_used = 0, macid_bmc = 0, macid_if_g = replicate 4 0,
       macid_ch_g = [0, 0], macid_h2c_msr = replicate 32 0, macid_sta = replicate 32 None\<rparr>,
     hw_pending = replicate 4 [], hw_accnt = replicate 4 0, drv_calls = []\<rparr>"

definition wfd_ex :: wifi_display_info where
  "wfd_ex = \<lparr>rtsp_ctrlport = 7236, tdls_rtsp_ctrlport = 0, peer_rtsp_ctrlport = 7236, wfd_op_mode = 0\<rparr>"

definition st_cmd_ex :: "u8 \<Rightarrow> st_cmd_parm" where
  "st_cmd_ex cmd = \<lparr>stc_cmd = cmd, stc_sta = Some 0, stc_local_naddr = 1, stc_local_port = 2,
     stc_remote_naddr = 3, stc_remote_port = 4\<rparr>"

theorem st_handler_refines_map_witness:
  "\<exists>s'. session_tracker_cmd_hdl True 100 7 (st_cmd_ex ST_CMD_ADD) (st_ex, wfd_ex) = Some (s', wfd_ex) \<and>
     st_abs (st_queue s' 0) (1, 2, 3, 4) = Some (7, ST_STATUS_CHECK)"
proof -
  let ?c = "st_cmd_ex ST_CMD_ADD"
  have ex: "stc_cmd ?c = ST_CMD_ADD" "stc_sta ?c = Some 0" "cmd_key ?c = (1, 2, 3, 4)"
    by (simp_all add: st_cmd_ex_def cmd_key_def)
  have s: "0 < length (pstainfo_buf (stapriv st_ex))" "st_queue st_ex 0 = []"
      "st_state (sta_of (stapriv st_ex) 0) AND FW_LINKED \<noteq> 0"
    by (simp_all add: st_ex_def st_queue_def sta_of_def rtw_init_stainfo_def rtw_st_ctl_init_def FW_LINKED_def)
  have ne: "ST_CMD_ADD \<noteq> ST_CMD_CHK" "ST_CMD_ADD \<noteq> ST_CMD_DEL"
    by (simp_all add: ST_CMD_ADD_def ST_CMD_DEL_def ST_CMD_CHK_def)
  obtain s' where run: "session_tracker_cmd_hdl True 100 7 ?c (st_ex, wfd_ex) = Some (s', wfd_ex)"
    using s(3) ne by (auto simp: session_tracker_cmd_hdl_def ex)
  have "st_distinct (st_queue st_ex 0)" by (simp add: s(2) st_distinct_def)
  then have "st_abs (st_queue s' 0) = st_spec True 7 ?c (st_abs (st_queue st_ex 0))"
    using st_handler_refines_map [OF run _ ex(2) s(1,3)] by (simp add: ex(1) ne)
  moreover have "st_abs (st_queue st_ex 0) = Map.empty" by (simp add: s(2) st_abs_def)
  ultimately show ?thesis using run by (auto simp: st_spec_def ex ne)
qed

text \<open>
  A session that the transmit path starts is never ended by the peer: \<open>update_attrib\<close>
  stores the local address in place of the remote one, while the receive path compares the
  sender's address, so the delete command raised by a FIN from the peer leaves the tracked
  session in the queue, whatever ports and match rule are in use.
\<close>

theorem tx_session_outlives_peer_fin:
  assumes "update_attrib_ip mem_ok ctl wfd i f = Some r" and "a \<in> set (st_cmds r)"
    and "st_rx_inspect mem_ok' ctl' wfd' i p = Some cs" and "d \<in> set cs"
    and "stc_cmd d = ST_CMD_DEL"
    and "mem_rd (drop 14 p) 12 4 \<noteq> mem_rd (drop 14 p) 16 4"
  shows "tracker_step m now' d [tracker_new now a] = [tracker_new now a]"
proof -
  have tx: "stc_remote_naddr a = stc_local_naddr a" by (rule tx_cmd_addresses [OF assms(1,2)])
  obtain dst src where rx: "mem_rd (drop 14 p) 16 4 = Some dst" "mem_rd (drop 14 p) 12 4 = Some src"
      "stc_local_naddr d = le32_val dst" "stc_remote_naddr d = le32_val src"
    using rx_cmd_addresses [OF assms(3,4)] by blast
  have "le32_val src \<noteq> le32_val dst"
    using le32_val_inj [of src dst] rx(1,2) assms(6) by (auto simp: mem_rd_length)
  then have "\<not> tracker_is d (tracker_new now a)"
    using tx rx by (auto simp: tracker_is_def tracker_new_def)
  then show ?thesis using assms(5) by (simp add: tracker_step_def ST_CMD_ADD_def ST_CMD_DEL_def)
qed

definition eth_tcp_ex :: "bytes \<Rightarrow> bytes \<Rightarrow> bytes \<Rightarrow> bytes \<Rightarrow> u8 \<Rightarrow> bytes" where
  "eth_tcp_ex src sp dst dp flags = replicate 12 0 @ [8, 0]
     @ [0x45, 0, 0, 40, 0, 0, 0, 0, 64, 6, 0, 0] @ src @ dst
     @ sp @ dp @ [0, 0, 0, 0, 0, 0, 0, 0, 0x50, flags, 0, 0, 0, 0, 0, 0]"

theorem tx_session_outlives_peer_fin_witness:
  "\<exists>r a cs d.
     update_attrib_ip True (rtw_wfd_st_switch rtw_st_ctl_init True) wfd_ex 0
       (pf_at (eth_tcp_ex [10, 0, 0, 1] [0x1c, 0x44] [10, 0, 0, 2] [0x80, 0] 0x12) 14) = Some r \<and>
     st_cmds r = [a] \<and>
     st_rx_inspect True (rtw_wfd_st_switch rtw_st_ctl_init True) wfd_ex 0
       (eth_tcp_ex [10, 0, 0, 2] [0x80, 0] [10, 0, 0, 1] [0x1c, 0x44] 0x11) = Some cs \<and>
     cs = [d] \<and> tracker_step True 9 d [tracker_new 7 a] = [tracker_new 7 a]"
proof -
  let ?ctl = "rtw_wfd_st_switch rtw_st_ctl_init True"
  let ?p = "eth_tcp_ex [10, 0, 0, 1] [0x1c, 0x44] [10, 0, 0, 2] [0x80, 0] 0x12"
  let ?q = "eth_tcp_ex [10, 0, 0, 2] [0x80, 0] [10, 0, 0, 1] [0x1c, 0x44] 0x11"
  have reg: "rtw_st_ctl_chk_reg_s_proto ?ctl 6"
    "rtw_st_ctl_chk_reg_rule ?ctl wfd_ex x [0x1c, 0x44] y z" for x y z
    by (simp_all add: rtw_wfd_st_switch_def rtw_st_ctl_register_def rtw_st_ctl_init_def wfd_st_reg_def
        SESSION_TRACKER_REG_ID_NUM_def rtw_st_ctl_chk_reg_s_proto_def rtw_st_ctl_chk_reg_rule_def
        wfd_st_match_rule_def ntohs_bytes_def wfd_ex_def)
  obtain r a where tx: "update_attrib_ip True ?ctl wfd_ex 0 (pf_at ?p 14) = Some r" "st_cmds r = [a]"
    using reg by (simp add: update_attrib_ip_def pktfile_read_at eth_tcp_ex_def Let_def
        GET_IPV4_IHL_def GET_IPV4_PROTOCOL_def GET_TCP_SYN_def GET_TCP_ACK_def GET_TCP_FIN_def
        mem_get_def mem_rd_def session_tracker_cmd_def st_cmd_defs)
  obtain cs d where rx: "st_rx_inspect True ?ctl wfd_ex 0 ?q = Some cs" "cs = [d]" "stc_cmd d = ST_CMD_DEL"
    using reg by (simp add: st_rx_inspect_def eth_tcp_ex_def Let_def be16_at_def nth_append
        GET_IPV4_IHL_def GET_IPV4_PROTOCOL_def GET_TCP_SYN_def GET_TCP_ACK_def GET_TCP_FIN_def
        mem_get_def mem_rd_def session_tracker_cmd_def st_cmd_defs)
  have "mem_rd (drop 14 ?q) 12 4 \<noteq> mem_rd (drop 14 ?q) 16 4"
    by (simp add: eth_tcp_ex_def mem_rd_def)
  then show ?thesis
    using tx rx tx_session_outlives_peer_fin [OF tx(1) _ rx(1) _ rx(3)] by simp
qed

text \<open>
  An outgoing IPv4 packet with header options is misread: the number of option bytes to
  skip is negative as written and so skips the rest of the packet, and the UDP ports are then
  read from memory that was never written.
\<close>

theorem ip_options_lose_udp_header:
  assumes "34 \<le> length p" and "length p < 2 ^ 32"
    and "unat (p ! 14 AND 0xf) > 5" and "p ! 23 = 0x11"
  shows "update_attrib_ip mem_ok ctl wfd i (fst (rtw_pktfile_read (rtw_open_pktfile p) 14)) = None"
proof -
  define k where "k = unat (p ! 14 AND 0xf)"
  define n where "n = (ucast (p ! 14 AND 0xf) :: u32) - 20"
  have small: "k < 16"
    using word_and_le1 [of "p ! 14" "0xf"] by (simp add: k_def word_le_nat_alt)
  have "uint n = (uint (ucast (p ! 14 AND 0xf) :: u32) - 20) mod 2 ^ 32"
    by (simp add: n_def uint_word_ariths)
  also have "\<dots> = (int k - 20) mod 2 ^ 32" by (simp only: k_def uint_nat unat_ucast_ups)
  also have "\<dots> = int k - 20 + 2 ^ 32"
    using small mod_pos_pos_trivial [of "int k - 20 + 2 ^ 32" "2 ^ 32"]
    by (simp only: mod_add_self2) simp
  finally have big: "unat n = k + 4294967276"
    by (simp only: unat_eq_nat_uint nat_add_distrib) simp
  have read1: "rtw_pktfile_read (rtw_open_pktfile p) 14 = (pf_at p 14, take 14 p)"
    using assms(1,2) by (simp add: open_pf_at pktfile_read_at)
  have read2: "rtw_pktfile_read (pf_at p 14) 20 = (pf_at p 34, take 20 (drop 14 p))"
    using assms(1,2) by (simp add: pktfile_read_at)
  have read3: "fst (rtw_pktfile_read (pf_at p 34) n) = pf_at p (length p)"
    using assms(1,2) big by (simp add: pktfile_read_at)
  have read4: "rtw_pktfile_read (pf_at p (length p)) 8 = (pf_at p (length p), [])"
    using assms(2) by (simp add: pktfile_read_at)
  have ihl: "GET_IPV4_IHL (take 20 (drop 14 p)) = Some (p ! 14 AND 0xf)"
    and prot: "GET_IPV4_PROTOCOL (take 20 (drop 14 p)) = Some 0x11"
    using assms(1,4) by (simp_all add: GET_IPV4_IHL_def GET_IPV4_PROTOCOL_def mem_get_def)
  have opt: "unat (p ! 14 AND 0xf) * 4 > 20" using assms(3) by simp
  have empty: "be16_at [] 0 = None" by (simp add: be16_at_def mem_get_def)
  show ?thesis
    using opt read3
    by (simp add: read1 read2 ihl prot read4 empty update_attrib_ip_def Let_def flip: n_def)
qed

theorem ip_options_lose_udp_header_witness:
  "update_attrib_ip True rtw_st_ctl_init wfd_ex 0
     (fst (rtw_pktfile_read (rtw_open_pktfile
        (replicate 12 0 @ [8, 0, 0x46] @ replicate 8 0 @ [0x11] @ replicate 300 0)) 14)) = None"
  by (rule ip_options_lose_udp_header) (simp_all add: nth_append)

end
