(* ===== verification/Rx_Frame.thy ===== *)
theory Rx_Frame
  imports St_Cmd
begin

text \<open>
  Received frames (\<open>union recv_frame\<close>, \<open>include/rtw_recv.h\<close>): the attributes that the
  receive path reads, the buffer window \<open>rx_head \<le> rx_data \<le> rx_tail \<le> rx_end\<close> with the
  routines that move it, the conversion of a data frame to an Ethernet packet
  (\<open>wlanhdr_to_ethhdr\<close>, \<open>core/rtw_recv.c\<close>) and the splitting of an A-MSDU
  (\<open>amsdu_to_msdu\<close>, with \<open>rtw_os_alloc_msdu_pkt\<close> of \<open>os_dep/linux/recv_linux.c\<close>).

  The buffer is the list of bytes from \<open>rx_head\<close> to \<open>rx_end\<close>; a pointer into it is its
  distance from \<open>rx_head\<close>. An access outside the buffer is the value \<open>None\<close>.
\<close>

section \<open>Data\<close>

definition SNAP_SIZE :: nat where "SNAP_SIZE = 6"
definition ETH_HLEN :: nat where "ETH_HLEN = 14"
definition MAX_SUBFRAME_COUNT :: nat where "MAX_SUBFRAME_COUNT = 64"
definition SNAP_ETH_TYPE_IPX :: bytes where "SNAP_ETH_TYPE_IPX = [0x81, 0x37]"
definition SNAP_ETH_TYPE_APPLETALK_AARP :: bytes where
  "SNAP_ETH_TYPE_APPLETALK_AARP = [0x80, 0xf3]"
definition rtw_rfc1042_header :: bytes where
  "rtw_rfc1042_header = [0xaa, 0xaa, 0x03, 0x00, 0x00, 0x00]"
definition rtw_bridge_tunnel_header :: bytes where
  "rtw_bridge_tunnel_header = [0xaa, 0xaa, 0x03, 0x00, 0x00, 0xf8]"

record rx_pkt_attrib =
  pa_to_fr_ds :: u8
  pa_pw_save :: u8
  pa_mdata :: u8
  pa_order :: u8
  pa_ack_policy :: u8
  pa_bdecrypted :: u8
  pa_key_index :: u8
  pa_hdrlen :: u8
  pa_amsdu :: u8
  pa_qos :: u8
  pa_priority :: u8
  pa_seq_num :: u16
  pa_frag_num :: u8
  pa_mfrag :: u8
  pa_privacy :: u8
  pa_encrypt :: u8
  pa_iv_len :: u8
  pa_icv_len :: u8
  pa_eth_type :: u16
  pa_dst :: bytes
  pa_src :: bytes
  pa_ta :: bytes
  pa_ra :: bytes
  pa_bssid :: bytes

record recv_frame =
  rf_attrib :: rx_pkt_attrib
  rx_mem :: bytes
  rx_data :: int
  rx_tail :: int
  rf_len :: u32
  rf_psta :: "nat option"

definition rx_end :: "recv_frame \<Rightarrow> int" where "rx_end f = int (length (rx_mem f))"

section \<open>Moving the window\<close>

text \<open>Each routine returns the frame and whether the pointer it returns is not NULL.\<close>

definition recvframe_pull :: "recv_frame \<Rightarrow> int \<Rightarrow> recv_frame \<times> bool" where
  "recvframe_pull f sz =
     (if rx_data f + sz > rx_tail f then (f, False)
      else (f\<lparr>rx_data := rx_data f + sz, rf_len := rf_len f - of_int sz\<rparr>, True))"

definition recvframe_push :: "recv_frame \<Rightarrow> int \<Rightarrow> recv_frame \<times> bool" where
  "recvframe_push f sz =
     (if rx_data f - sz < 0 then (f, False)
      else (f\<lparr>rx_data := rx_data f - sz, rf_len := rf_len f + of_int sz\<rparr>, True))"

definition recvframe_put :: "recv_frame \<Rightarrow> int \<Rightarrow> recv_frame \<times> bool" where
  "recvframe_put f sz =
     (if rx_tail f + sz > rx_end f then (f, False)
      else (f\<lparr>rx_tail := rx_tail f + sz, rf_len := rf_len f + of_int sz\<rparr>, True))"

definition recvframe_pull_tail :: "recv_frame \<Rightarrow> int \<Rightarrow> recv_frame \<times> bool" where
  "recvframe_pull_tail f sz =
     (if rx_tail f - sz < rx_data f then (f, False)
      else (f\<lparr>rx_tail := rx_tail f - sz, rf_len := rf_len f - of_int sz\<rparr>, True))"

text \<open>Checked access at a pointer.\<close>

definition rx_rd :: "recv_frame \<Rightarrow> int \<Rightarrow> nat \<Rightarrow> bytes option" where
  "rx_rd f p n = (if p < 0 then None else mem_rd (rx_mem f) (nat p) n)"

definition rx_wr :: "recv_frame \<Rightarrow> int \<Rightarrow> bytes \<Rightarrow> recv_frame option" where
  "rx_wr f p bs =
     (if p < 0 then None else map_option (\<lambda>m. f\<lparr>rx_mem := m\<rparr>) (mem_wr (rx_mem f) (nat p) bs))"

text \<open>The bytes of the window, which are those of \<open>skb->data\<close> and \<open>skb->len\<close> on indication.\<close>

definition rx_payload :: "recv_frame \<Rightarrow> bytes option" where
  "rx_payload f = rx_rd f (rx_data f) (unat (rf_len f))"

definition rx_ok :: "recv_frame \<Rightarrow> bool" where
  "rx_ok f \<longleftrightarrow> 0 \<le> rx_data f \<and> rx_data f \<le> rx_tail f \<and> rx_tail f \<le> rx_end f \<and>
     rx_end f < 2 ^ 31 \<and> int (unat (rf_len f)) = rx_tail f - rx_data f"

section \<open>From an 802.11 header to an Ethernet header\<close>

definition be16_bytes :: "u16 \<Rightarrow> bytes" where
  "be16_bytes v = [ucast (drop_bit 8 v), ucast v]"

definition be16_val :: "bytes \<Rightarrow> u16" where
  "be16_val bs = push_bit 8 (ucast (bs ! 0)) OR ucast (bs ! 1)"

text \<open>The test for an encapsulation header that is removed.\<close>

definition snap_removed :: "recv_frame \<Rightarrow> int \<Rightarrow> bool option" where
  "snap_removed f p = do {
     psnap \<leftarrow> rx_rd f p SNAP_SIZE;
     if psnap = rtw_rfc1042_header
     then do {
       psnap_type \<leftarrow> rx_rd f (p + int SNAP_SIZE) 2;
       Some (psnap_type \<noteq> SNAP_ETH_TYPE_IPX \<and> psnap_type \<noteq> SNAP_ETH_TYPE_APPLETALK_AARP) }
     else Some (psnap = rtw_bridge_tunnel_header) }"

text \<open>The destination and source addresses and, without a removed header, the length.\<close>

definition put_eth_header :: "recv_frame \<Rightarrow> int \<Rightarrow> bool \<Rightarrow> u16 \<Rightarrow> recv_frame option" where
  "put_eth_header f p bsnaphdr len = do {
     f \<leftarrow> rx_wr f p (pa_dst (rf_attrib f));
     f \<leftarrow> rx_wr f (p + int ETH_ALEN) (pa_src (rf_attrib f));
     if bsnaphdr then Some f else rx_wr f (p + 12) (be16_bytes len) }"

definition wlanhdr_to_ethhdr :: "bool \<Rightarrow> recv_frame \<Rightarrow> (recv_frame \<times> bool) option" where
  "wlanhdr_to_ethhdr mp_state f = do {
     let p = rx_data f;
     let f = (if pa_encrypt (rf_attrib f) \<noteq> 0
              then fst (recvframe_pull_tail f (uint (pa_icv_len (rf_attrib f)))) else f);
     let hdr = uint (pa_hdrlen (rf_attrib f)) + uint (pa_iv_len (rf_attrib f));
     bsnaphdr \<leftarrow> snap_removed f (p + hdr);
     let rmv_len = hdr + (if bsnaphdr then int SNAP_SIZE else 0);
     let len = (ucast (rf_len f - of_int rmv_len) :: u16);
     et \<leftarrow> rx_rd f (p + rmv_len) 2;
     let f = f\<lparr>rf_attrib := (rf_attrib f)\<lparr>pa_eth_type := be16_val et\<rparr>\<rparr>;
     if mp_state
     then do {
       f \<leftarrow> rx_wr f (p + rmv_len) [0x87, 0x12];
       let (f, ok) = recvframe_pull f (rmv_len - int ETH_HLEN + 2 - 24);
       if \<not> ok then Some (f, False)
       else do {
         status \<leftarrow> rx_rd f 0 24;
         f \<leftarrow> rx_wr f (rx_data f) status;
         f \<leftarrow> put_eth_header f (rx_data f + 24) bsnaphdr len;
         Some (f, True) } }
     else do {
       let (f, ok) = recvframe_pull f (rmv_len - int ETH_HLEN + (if bsnaphdr then 2 else 0));
       if \<not> ok then Some (f, False)
       else do {
         f \<leftarrow> put_eth_header f (rx_data f) bsnaphdr len;
         Some (f, True) } } }"

section \<open>Splitting an A-MSDU\<close>

text \<open>
  The packet built for one subframe body: the encapsulation header is replaced by the
  addresses of the whole frame, as \<open>rtw_os_alloc_msdu_pkt\<close> does.
\<close>

definition rtw_os_alloc_msdu_pkt :: "rx_pkt_attrib \<Rightarrow> bytes \<Rightarrow> bytes" where
  "rtw_os_alloc_msdu_pkt pa body =
     (if 8 \<le> length body \<and>
         (take SNAP_SIZE body = rtw_rfc1042_header \<and>
            be16_val (drop 6 body) \<noteq> 0x80F3 \<and> be16_val (drop 6 body) \<noteq> 0x8137 \<or>
          take SNAP_SIZE body = rtw_bridge_tunnel_header)
      then pa_dst pa @ pa_src pa @ drop SNAP_SIZE body
      else pa_dst pa @ pa_src pa @ be16_bytes (of_nat (length body)) @ body)"

definition amsdu_padding :: "nat \<Rightarrow> nat" where
  "amsdu_padding n =
     (let padding_len = 4 - (n + ETH_HLEN) mod 4 in if padding_len = 4 then 0 else padding_len)"

text \<open>
  The subframe bodies found in \<open>pdata\<close>. \<open>mem_ok i\<close> says whether a packet can be
  allocated for the \<open>i\<close>-th subframe; parsing stops when it cannot, when a length does not fit,
  and after 64 subframes.
\<close>

function amsdu_subframes :: "(nat \<Rightarrow> bool) \<Rightarrow> nat \<Rightarrow> bytes \<Rightarrow> bytes list" where
  "amsdu_subframes mem_ok nr pdata =
     (if length pdata \<le> ETH_HLEN then []
      else
        let n = unat (be16_val (drop 12 pdata)) in
        if length pdata < ETH_HLEN + n \<or> \<not> mem_ok nr then []
        else
          let body = take n (drop ETH_HLEN pdata);
              rest = drop (ETH_HLEN + n) pdata
          in if nr + 1 \<ge> MAX_SUBFRAME_COUNT then [body]
             else if rest = [] then [body]
             else if length rest < amsdu_padding n then [body]
             else body # amsdu_subframes mem_ok (nr + 1) (drop (amsdu_padding n) rest))"
  by pat_completeness auto
termination
  by (relation "measure (\<lambda>(_, _, pdata). length pdata)") (auto simp: ETH_HLEN_def)

declare amsdu_subframes.simps [simp del]

text \<open>
  The packets that \<open>amsdu_to_msdu\<close> passes up. Neither pull is checked by the code.
\<close>

definition amsdu_to_msdu :: "(nat \<Rightarrow> bool) \<Rightarrow> recv_frame \<Rightarrow> bytes list option" where
  "amsdu_to_msdu mem_ok f = do {
     let f = fst (recvframe_pull f (uint (pa_hdrlen (rf_attrib f))));
     let f = (if pa_iv_len (rf_attrib f) \<noteq> 0
              then fst (recvframe_pull f (uint (pa_iv_len (rf_attrib f)))) else f);
     pdata \<leftarrow> rx_payload f;
     Some (map (rtw_os_alloc_msdu_pkt (rf_attrib f)) (amsdu_subframes mem_ok 0 pdata)) }"

section \<open>The window as a list\<close>

text \<open>
  The view the proofs use: \<open>pre\<close> before the window, \<open>ps\<close> in it, \<open>post\<close> after it.
\<close>

definition rx_view :: "recv_frame \<Rightarrow> bytes \<Rightarrow> bytes \<Rightarrow> bytes \<Rightarrow> bool" where
  "rx_view f pre ps post \<longleftrightarrow> rx_mem f = pre @ ps @ post \<and> rx_data f = int (length pre) \<and>
     rx_tail f = int (length pre + length ps) \<and> rf_len f = of_nat (length ps) \<and>
     length pre + length ps + length post < 2 ^ 31"

lemma rx_view_ok: "rx_view f pre ps post \<Longrightarrow> rx_ok f"
  by (auto simp: rx_view_def rx_ok_def rx_end_def unat_of_nat take_bit_nat_eq_self)

lemma rx_view_payload: "rx_view f pre ps post \<Longrightarrow> rx_payload f = Some ps"
  by (auto simp: rx_view_def rx_payload_def rx_rd_def mem_rd_def unat_of_nat take_bit_nat_eq_self)

lemma view_data: "rx_view f pre ps post \<Longrightarrow> rx_data f = int (length pre)"
  by (simp add: rx_view_def)

lemma rx_view_exists:
  assumes "rx_ok f" and "rx_payload f = Some ps"
  obtains pre post where "rx_view f pre ps post"
proof
  have d: "0 \<le> rx_data f" "rx_data f \<le> rx_tail f" "rx_tail f \<le> int (length (rx_mem f))"
    using assms(1) by (auto simp: rx_ok_def rx_end_def)
  have rd: "mem_rd (rx_mem f) (nat (rx_data f)) (unat (rf_len f)) = Some ps"
    using assms(2) d by (simp add: rx_payload_def rx_rd_def)
  then have len: "length ps = unat (rf_len f)" by (rule mem_rd_length)
  let ?d = "nat (rx_data f)" and ?m = "rx_mem f"
  have fit: "?d + length ps \<le> length ?m" using rd len by (simp add: mem_rd_def split: if_splits)
  have m: "?m = take ?d ?m @ ps @ drop (?d + length ps) ?m"
    using rd len by (simp add: mem_rd_def split: if_splits) (metis append_take_drop_id drop_drop add.commute)
  have "int (unat (rf_len f)) = rx_tail f - rx_data f" using assms(1) by (simp only: rx_ok_def)
  then have t: "rx_tail f = int (?d + length ps)" using d(1) len by simp
  show "rx_view f (take ?d ?m) ps (drop (?d + length ps) ?m)"
    unfolding rx_view_def
  proof (intro conjI)
    show "?m = take ?d ?m @ ps @ drop (?d + length ps) ?m" by (rule m)
    show "rx_data f = int (length (take ?d ?m))" "rx_tail f = int (length (take ?d ?m) + length ps)"
      using d(1) fit t by (auto simp: min_def)
    show "rf_len f = of_nat (length ps)" by (simp add: len)
    show "length (take ?d ?m) + length ps + length (drop (?d + length ps) ?m) < 2 ^ 31"
      using assms(1) fit by (simp add: rx_ok_def rx_end_def)
  qed
qed

lemma rx_ok_iff_view: "rx_ok f \<longleftrightarrow> (\<exists>pre ps post. rx_view f pre ps post)"
proof
  assume ok: "rx_ok f"
  then have "int (nat (rx_data f) + unat (rf_len f)) \<le> int (length (rx_mem f))"
    by (simp add: rx_ok_def rx_end_def)
  then have "nat (rx_data f) + unat (rf_len f) \<le> length (rx_mem f)" by linarith
  then have "rx_payload f \<noteq> None"
    using ok by (simp add: rx_payload_def rx_rd_def mem_rd_def rx_ok_def)
  then show "\<exists>pre ps post. rx_view f pre ps post" using rx_view_exists [OF ok] by (metis not_None_eq)
qed (auto intro: rx_view_ok)

lemma view_pull:
  assumes "rx_view f pre (h @ ps) post"
  shows "\<exists>f'. recvframe_pull f (int (length h)) = (f', True) \<and> rx_view f' (pre @ h) ps post \<and>
     rf_attrib f' = rf_attrib f"
  using assms by (simp add: recvframe_pull_def rx_view_def)

lemma view_pull_tail:
  assumes "rx_view f pre (ps @ t) post"
  shows "\<exists>f'. recvframe_pull_tail f (int (length t)) = (f', True) \<and> rx_view f' pre ps (t @ post) \<and>
     rf_attrib f' = rf_attrib f"
  using assms by (simp add: recvframe_pull_tail_def rx_view_def)

lemma view_push_back:
  assumes "rx_view f (pre @ h) ps post"
  shows "\<exists>f'. recvframe_pull f (- int (length h)) = (f', True) \<and> rx_view f' pre (h @ ps) post \<and>
     rf_attrib f' = rf_attrib f"
  using assms by (simp add: recvframe_pull_def rx_view_def)

lemma view_rd:
  assumes "rx_view f pre (a @ b @ c) post"
  shows "rx_rd f (rx_data f + int (length a)) (length b) = Some b"
proof -
  have "nat (rx_data f + int (length a)) = length pre + length a"
    using assms by (simp add: rx_view_def nat_plus_as_int)
  then show ?thesis using assms by (simp add: rx_view_def rx_rd_def mem_rd_def)
qed

lemma view_wr:
  assumes "rx_view f pre (a @ b @ c) post" and "length b' = length b"
  shows "\<exists>f'. rx_wr f (rx_data f + int (length a)) b' = Some f' \<and> rx_view f' pre (a @ b' @ c) post \<and>
     rf_attrib f' = rf_attrib f"
proof -
  have "nat (rx_data f + int (length a)) = length pre + length a"
    using assms by (simp add: rx_view_def nat_plus_as_int)
  then show ?thesis using assms by (simp add: rx_view_def rx_wr_def mem_wr_def)
qed

lemma view_attrib: "rx_view (f\<lparr>rf_attrib := a\<rparr>) pre ps post \<longleftrightarrow> rx_view f pre ps post"
  by (simp add: rx_view_def)

text \<open>The Ethernet header written over the first bytes of the window.\<close>

lemma view_put_eth_header:
  assumes "rx_view f pre (a @ b @ l @ ps) post"
    and "length a = ETH_ALEN" and "length b = ETH_ALEN" and "length l = (if snap then 0 else 2)"
    and "length (pa_dst (rf_attrib f)) = ETH_ALEN" and "length (pa_src (rf_attrib f)) = ETH_ALEN"
  shows "\<exists>f'. put_eth_header f (rx_data f) snap len = Some f' \<and> rf_attrib f' = rf_attrib f \<and>
     rx_view f' pre (pa_dst (rf_attrib f) @ pa_src (rf_attrib f) @ (if snap then [] else be16_bytes len) @ ps) post"
proof -
  let ?d = "pa_dst (rf_attrib f)" and ?s = "pa_src (rf_attrib f)"
  obtain f1 where f1: "rx_wr f (rx_data f) ?d = Some f1" "rx_view f1 pre (?d @ b @ l @ ps) post"
      "rf_attrib f1 = rf_attrib f"
    using view_wr [where a = "[]" and b = a and b' = ?d] assms(1,2,5) by force
  have d1: "rx_data f1 = rx_data f" using f1(2) assms(1) by (simp add: rx_view_def)
  obtain f2 where f2: "rx_wr f1 (rx_data f1 + int ETH_ALEN) ?s = Some f2" "rx_view f2 pre (?d @ ?s @ l @ ps) post"
      "rf_attrib f2 = rf_attrib f1"
    using view_wr [OF f1(2), of ?s] assms(3,5,6) by auto
  show ?thesis
  proof (cases snap)
    case True
    then show ?thesis using f1 f2 d1 assms(4) by (simp add: put_eth_header_def)
  next
    case False
    have "rx_view f2 pre ((?d @ ?s) @ l @ ps) post" using f2(2) by simp
    from view_wr [OF this, of "be16_bytes len"]
    obtain f3 where "rx_wr f2 (rx_data f2 + int (length (?d @ ?s))) (be16_bytes len) = Some f3"
        "rx_view f3 pre ((?d @ ?s) @ be16_bytes len @ ps) post" "rf_attrib f3 = rf_attrib f2"
      using assms(4) False by (auto simp: be16_bytes_def)
    moreover have "rx_data f2 = rx_data f" using f2(2) assms(1) by (simp add: rx_view_def)
    moreover have "int (length (?d @ ?s)) = 12" using assms(5,6) by (simp add: ETH_ALEN_def)
    ultimately show ?thesis using f1 f2 d1 False by (simp add: put_eth_header_def)
  qed
qed

text \<open>
  The shared shape of a received data frame: 802.11 header, IV, encapsulation header, type,
  body and, when the frame was encrypted, the integrity value.
\<close>

definition data_frame :: "recv_frame \<Rightarrow> bytes \<Rightarrow> bytes \<Rightarrow> bytes \<Rightarrow> bytes \<Rightarrow> bool" where
  "data_frame f hdr iv msdu icv \<longleftrightarrow> rx_ok f \<and> rx_payload f = Some (hdr @ iv @ msdu @ icv) \<and>
     length hdr = unat (pa_hdrlen (rf_attrib f)) \<and> length iv = unat (pa_iv_len (rf_attrib f)) \<and>
     length icv = (if pa_encrypt (rf_attrib f) \<noteq> 0 then unat (pa_icv_len (rf_attrib f)) else 0) \<and>
     length (pa_dst (rf_attrib f)) = ETH_ALEN \<and> length (pa_src (rf_attrib f)) = ETH_ALEN"

lemma data_frame_strip:
  assumes "data_frame f hdr iv msdu icv"
  obtains pre post f1 where
    "(if pa_encrypt (rf_attrib f) \<noteq> 0
      then fst (recvframe_pull_tail f (uint (pa_icv_len (rf_attrib f)))) else f) = f1"
    "rx_view f1 pre (hdr @ iv @ msdu) post" "rf_attrib f1 = rf_attrib f" "rx_data f1 = rx_data f"
proof -
  obtain pre post where v: "rx_view f pre ((hdr @ iv @ msdu) @ icv) post"
    using assms rx_view_exists [of f] by (auto simp: data_frame_def)
  show thesis
  proof (cases "pa_encrypt (rf_attrib f) \<noteq> 0")
    case True
    then have "uint (pa_icv_len (rf_attrib f)) = int (length icv)"
      using assms by (simp add: data_frame_def)
    moreover obtain f' where f': "recvframe_pull_tail f (int (length icv)) = (f', True)"
        "rx_view f' pre (hdr @ iv @ msdu) (icv @ post)" "rf_attrib f' = rf_attrib f"
      using view_pull_tail [OF v] by blast
    moreover have "rx_data f' = rx_data f" using view_data [OF f'(2)] view_data [OF v] by simp
    ultimately show thesis using True by (intro that [OF _ f'(2,3)]) simp_all
  next
    case False
    then have "icv = []" using assms by (simp add: data_frame_def)
    then show thesis using that [of f] v False by auto
  qed
qed

lemma ucast_nat_u16: "(ucast (of_nat n :: u32) :: u16) = of_nat n"
  by (rule bit_word_eqI) (simp add: bit_simps)

lemma view_rmv_len:
  assumes "rx_view f pre (h @ ps) post" and "length h = n"
  shows "unat (ucast (rf_len f - of_nat n) :: u16) = length ps mod 2 ^ 16"
proof -
  have "rf_len f - of_nat n = (of_nat (length ps) :: u32)"
    using assms by (simp add: rx_view_def)
  then show ?thesis
    by (simp add: unsigned_ucast_eq unat_of_nat take_bit_eq_mod mod_mod_cancel)
qed

lemma take_6_6: "take 6 a @ take 6 (drop 6 a) @ drop 12 a @ xs = a @ xs"
proof -
  have "take 6 a @ take 6 (drop 6 a) @ drop 6 (drop 6 a) = a" by (simp only: append_take_drop_id)
  then show ?thesis by (simp flip: append_assoc)
qed

definition msdu_snap :: "bytes \<Rightarrow> bool" where
  "msdu_snap msdu \<longleftrightarrow>
     take 6 msdu = rtw_rfc1042_header \<and> take 2 (drop 6 msdu) \<notin> {SNAP_ETH_TYPE_IPX, SNAP_ETH_TYPE_APPLETALK_AARP}
     \<or> take 6 msdu = rtw_bridge_tunnel_header"

lemma snap_removed_msdu:
  assumes "rx_view f pre (h @ msdu) post" and "8 \<le> length msdu"
  shows "snap_removed f (rx_data f + int (length h)) = Some (msdu_snap msdu)"
proof -
  have r1: "rx_rd f (rx_data f + int (length h)) SNAP_SIZE = Some (take 6 msdu)"
    using view_rd [of f pre h "take 6 msdu" "drop 6 msdu"] assms by (simp add: SNAP_SIZE_def)
  have "take 6 msdu @ take 2 (drop 6 msdu) @ drop 2 (drop 6 msdu) = msdu" by (simp only: append_take_drop_id)
  then have "rx_view f pre ((h @ take 6 msdu) @ take 2 (drop 6 msdu) @ drop 8 msdu) post"
    using assms(1) by simp
  from view_rd [OF this]
  have r2: "rx_rd f (rx_data f + int (length h) + int SNAP_SIZE) 2 = Some (take 2 (drop 6 msdu))"
    using assms(2) by (simp add: SNAP_SIZE_def add_ac)
  have "rtw_bridge_tunnel_header \<noteq> rtw_rfc1042_header"
    by (simp add: rtw_bridge_tunnel_header_def rtw_rfc1042_header_def)
  then show ?thesis using r1 r2 by (auto simp: snap_removed_def msdu_snap_def)
qed

text \<open>The body of the Ethernet packet that a frame body becomes.\<close>

definition eth_tail :: "bytes \<Rightarrow> bytes" where
  "eth_tail msdu = (if msdu_snap msdu then drop 6 msdu else be16_bytes (of_nat (length msdu)) @ msdu)"

lemma wlanhdr_data_frame:
  assumes "data_frame f hdr iv msdu icv" and "8 \<le> length msdu" and "14 \<le> length hdr + length iv"
  shows "\<exists>f'. wlanhdr_to_ethhdr False f = Some (f', True) \<and> rx_ok f' \<and>
     rx_payload f' = Some (pa_dst (rf_attrib f) @ pa_src (rf_attrib f) @ eth_tail msdu) \<and>
     pa_eth_type (rf_attrib f') = be16_val (if msdu_snap msdu then drop 6 msdu else msdu)"
proof -
  obtain pre post f1 where
    f1: "(if pa_encrypt (rf_attrib f) \<noteq> 0
      then fst (recvframe_pull_tail f (uint (pa_icv_len (rf_attrib f)))) else f) = f1"
    "rx_view f1 pre (hdr @ iv @ msdu) post" "rf_attrib f1 = rf_attrib f" "rx_data f1 = rx_data f"
    using data_frame_strip [OF assms(1)] by metis
  define hl where "hl = length hdr + length iv"
  define k where "k = (if msdu_snap msdu then 6 else 0 :: nat)"
  define rest where "rest = drop k msdu"
  have k: "k + 2 \<le> length msdu" "k \<le> 6" using assms(2) by (auto simp: k_def)
  have hl_int: "uint (pa_hdrlen (rf_attrib f)) + uint (pa_iv_len (rf_attrib f)) = int hl"
    using assms(1) by (simp add: data_frame_def hl_def)
  have v0: "rx_view f1 pre ((hdr @ iv) @ msdu) post" using f1(2) by simp
  have snap: "snap_removed f1 (rx_data f + int hl) = Some (msdu_snap msdu)"
    using snap_removed_msdu [OF v0 assms(2)] f1(4) by (simp add: hl_def)
  have rmv: "int hl + (if msdu_snap msdu then int SNAP_SIZE else 0) = int (hl + k)"
    by (simp add: k_def SNAP_SIZE_def)
  have v1: "rx_view f1 pre ((hdr @ iv @ take k msdu) @ rest) post" using f1(2) by (simp add: rest_def)
  have v2: "rx_view f1 pre ((hdr @ iv @ take k msdu) @ take 2 rest @ drop 2 rest) post" using v1 by simp
  have et: "rx_rd f1 (rx_data f + int (hl + k)) 2 = Some (take 2 rest)"
    using view_rd [OF v2] f1(4) k by (simp add: hl_def rest_def add_ac)
  have et_val: "be16_val (take 2 rest) = be16_val rest" by (simp add: be16_val_def)
  define len where "len = (ucast (rf_len f1 - of_int (int (hl + k))) :: u16)"
  define f2 where "f2 = f1\<lparr>rf_attrib := (rf_attrib f1)\<lparr>pa_eth_type := be16_val rest\<rparr>\<rparr>"
  define c where "c = (if msdu_snap msdu then 12 else 14 :: nat)"
  define x where "x = hdr @ iv @ take k msdu"
  have x: "length x = hl + k" "c \<le> hl + k" using k assms(3) by (auto simp: x_def hl_def c_def k_def)
  have v3: "rx_view f2 pre (take (hl + k - c) x @ (drop (hl + k - c) x @ rest)) post"
  proof -
    have "take (hl + k - c) x @ (drop (hl + k - c) x @ rest) = (hdr @ iv @ take k msdu) @ rest"
      by (simp only: append_assoc [symmetric] append_take_drop_id x_def)
    then show ?thesis using v1 by (simp only: f2_def view_attrib)
  qed
  have "length (take (hl + k - c) x) = hl + k - c" using x by simp
  then have "int (hl + k) - int ETH_HLEN + (if msdu_snap msdu then 2 else 0)
      = int (length (take (hl + k - c) x))"
    using x(2) by (auto simp: c_def ETH_HLEN_def)
  then have pull: "recvframe_pull f2 (int (hl + k) - int ETH_HLEN + (if msdu_snap msdu then 2 else 0))
      = recvframe_pull f2 (int (length (take (hl + k - c) x)))" by (simp only:)
  obtain f3 pre' a where f3: "recvframe_pull f2 (int (length (take (hl + k - c) x))) = (f3, True)"
      "rx_view f3 pre' (a @ rest) post" "rf_attrib f3 = rf_attrib f2" "length a = c"
    using view_pull [OF v3] x by auto
  have att: "pa_dst (rf_attrib f3) = pa_dst (rf_attrib f)" "pa_src (rf_attrib f3) = pa_src (rf_attrib f)"
      "pa_eth_type (rf_attrib f3) = be16_val rest"
    by (simp_all add: f3(3) f2_def f1(3))
  have "rx_view f3 pre' (take 6 a @ take 6 (drop 6 a) @ drop 12 a @ rest) post"
    using f3(2) by (simp add: take_6_6)
  moreover have "length (drop 12 a) = (if msdu_snap msdu then 0 else 2)"
    using f3(4) by (simp add: c_def)
  moreover have "length (take 6 a) = ETH_ALEN" "length (take 6 (drop 6 a)) = ETH_ALEN"
    using f3(4) by (auto simp: ETH_ALEN_def c_def)
  moreover have "length (pa_dst (rf_attrib f3)) = ETH_ALEN" "length (pa_src (rf_attrib f3)) = ETH_ALEN"
    using assms(1) att by (auto simp: data_frame_def)
  ultimately have "\<exists>f4. put_eth_header f3 (rx_data f3) (msdu_snap msdu) len = Some f4 \<and>
      rf_attrib f4 = rf_attrib f3 \<and>
      rx_view f4 pre' (pa_dst (rf_attrib f3) @ pa_src (rf_attrib f3) @
         (if msdu_snap msdu then [] else be16_bytes len) @ rest) post"
    by (intro view_put_eth_header)
  then obtain f4 where f4: "put_eth_header f3 (rx_data f3) (msdu_snap msdu) len = Some f4"
      "rf_attrib f4 = rf_attrib f3"
      "rx_view f4 pre' (pa_dst (rf_attrib f) @ pa_src (rf_attrib f) @
         (if msdu_snap msdu then [] else be16_bytes len) @ rest) post"
    unfolding att by blast
  have f2: "f1\<lparr>rf_attrib := (rf_attrib f)\<lparr>pa_eth_type := be16_val rest\<rparr>\<rparr> = f2"
    by (simp add: f2_def f1(3))
  note step = snap et [folded rmv] et_val f2 f3(1) [folded pull] f4(1)
  have run: "wlanhdr_to_ethhdr False f = Some (f4, True)"
  proof (cases "msdu_snap msdu")
    case True
    show ?thesis
      using step unfolding wlanhdr_to_ethhdr_def Let_def f1(1)
      by (simp add: True f1(3) hl_int len_def k_def SNAP_SIZE_def)
  next
    case False
    show ?thesis
      using step unfolding wlanhdr_to_ethhdr_def Let_def f1(1)
      by (simp add: False f1(3) hl_int len_def k_def)
  qed
  have "rf_len f1 - of_nat (length hdr + length iv) = (of_nat (length msdu) :: u32)"
    using f1(2) by (simp add: rx_view_def)
  then have "len = of_nat (length msdu)" if "\<not> msdu_snap msdu"
    using that by (simp add: len_def k_def hl_def) (simp flip: of_nat_add add: ucast_nat_u16)
  then have tail: "(if msdu_snap msdu then [] else be16_bytes len) @ rest = eth_tail msdu"
    by (simp add: eth_tail_def rest_def k_def)
  have "rest = (if msdu_snap msdu then drop 6 msdu else msdu)" by (simp add: rest_def k_def)
  then show ?thesis
    using run rx_view_ok [OF f4(3)] rx_view_payload [OF f4(3), unfolded tail] by (simp add: att(3) f4(2))
qed

text \<open>
  \<open>wlanhdr_to_ethhdr\<close> turns a data frame into the Ethernet packet of the destination
  address, the source address and the body, where an RFC 1042 encapsulation (with a type
  other than IPX and AARP) or a bridge tunnel encapsulation is replaced by its type and any
  other body is preceded by its length. The 802.11 header, the IV and, for an encrypted
  frame, the integrity value are gone, and no byte outside the buffer is touched.
\<close>

theorem wlanhdr_to_ethhdr_packet:
  assumes "data_frame f hdr iv msdu icv" and "8 \<le> length msdu" and "14 \<le> length hdr + length iv"
  shows "\<exists>f'. wlanhdr_to_ethhdr False f = Some (f', True) \<and> rx_ok f' \<and>
     rx_payload f' = Some (pa_dst (rf_attrib f) @ pa_src (rf_attrib f) @ eth_tail msdu) \<and>
     pa_eth_type (rf_attrib f') = be16_val (if msdu_snap msdu then drop 6 msdu else msdu)"
  using wlanhdr_data_frame [OF assms] .

definition pa_ex :: "u8 \<Rightarrow> rx_pkt_attrib" where
  "pa_ex amsdu = \<lparr>pa_to_fr_ds = 1, pa_pw_save = 0, pa_mdata = 0, pa_order = 0, pa_ack_policy = 0,
     pa_bdecrypted = 0, pa_key_index = 0, pa_hdrlen = 24, pa_amsdu = amsdu, pa_qos = 1, pa_priority = 0, pa_seq_num = 0,
     pa_frag_num = 0, pa_mfrag = 0, pa_privacy = 0, pa_encrypt = 0, pa_iv_len = 0, pa_icv_len = 0,
     pa_eth_type = 0, pa_dst = [1, 1, 1, 1, 1, 1], pa_src = [2, 2, 2, 2, 2, 2], pa_ta = [3, 3, 3, 3, 3, 3],
     pa_ra = [1, 1, 1, 1, 1, 1], pa_bssid = [3, 3, 3, 3, 3, 3]\<rparr>"

definition frame_ex :: "rx_pkt_attrib \<Rightarrow> bytes \<Rightarrow> recv_frame" where
  "frame_ex pa ps = \<lparr>rf_attrib = pa, rx_mem = ps, rx_data = 0, rx_tail = int (length ps),
     rf_len = of_nat (length ps), rf_psta = None\<rparr>"

lemma frame_ex_view: "length ps < 2 ^ 31 \<Longrightarrow> rx_view (frame_ex pa ps) [] ps []"
  by (simp add: rx_view_def frame_ex_def)

theorem wlanhdr_to_ethhdr_packet_witness:
  "\<exists>f'. wlanhdr_to_ethhdr False (frame_ex (pa_ex 0)
        (replicate 24 9 @ rtw_rfc1042_header @ [8, 0, 77])) = Some (f', True) \<and>
     rx_payload f' = Some ([1, 1, 1, 1, 1, 1] @ [2, 2, 2, 2, 2, 2] @ [8, 0, 77])"
proof -
  let ?msdu = "rtw_rfc1042_header @ [8, 0, 77]"
  have v: "rx_view (frame_ex (pa_ex 0) (replicate 24 9 @ ?msdu)) [] (replicate 24 9 @ ?msdu) []"
    by (rule frame_ex_view) (simp add: rtw_rfc1042_header_def)
  have "data_frame (frame_ex (pa_ex 0) (replicate 24 9 @ ?msdu)) (replicate 24 9) [] ?msdu []"
    using rx_view_ok [OF v] rx_view_payload [OF v]
    by (simp add: data_frame_def) (simp add: frame_ex_def pa_ex_def ETH_ALEN_def)
  moreover have "eth_tail ?msdu = [8, 0, 77]"
    by (simp add: eth_tail_def msdu_snap_def rtw_rfc1042_header_def SNAP_ETH_TYPE_IPX_def
        SNAP_ETH_TYPE_APPLETALK_AARP_def)
  ultimately show ?thesis
    using wlanhdr_to_ethhdr_packet [of "frame_ex (pa_ex 0) (replicate 24 9 @ ?msdu)"
        "replicate 24 9" "[]" ?msdu "[]"]
    by (auto simp: rtw_rfc1042_header_def frame_ex_def pa_ex_def)
qed

section \<open>A-MSDU\<close>

text \<open>
  An A-MSDU as a sender builds it: each subframe has its addresses, the length of its body,
  the body and, except after the last, padding to a multiple of four.
\<close>

fun amsdu_build :: "(bytes \<times> bytes \<times> bytes \<times> bytes) list \<Rightarrow> bytes" where
  "amsdu_build [] = []"
| "amsdu_build [(da, sa, body, pad)] = da @ sa @ be16_bytes (of_nat (length body)) @ body"
| "amsdu_build ((da, sa, body, pad) # m # ms) =
     da @ sa @ be16_bytes (of_nat (length body)) @ body @ pad @ amsdu_build (m # ms)"

definition subframe_ok :: "bytes \<times> bytes \<times> bytes \<times> bytes \<Rightarrow> bool" where
  "subframe_ok m = (case m of (da, sa, body, pad) \<Rightarrow>
     length da = ETH_ALEN \<and> length sa = ETH_ALEN \<and> body \<noteq> [] \<and> length body < 2 ^ 16 \<and>
     length pad = amsdu_padding (length body))"

lemma be16_bytes_val: "be16_val (be16_bytes v @ xs) = v"
  by (rule bit_word_eqI) (auto simp: be16_val_def be16_bytes_def bit_simps)

lemma be16_of_nat: "n < 2 ^ 16 \<Longrightarrow> unat (be16_val (be16_bytes (of_nat n) @ xs)) = n"
  by (simp add: be16_bytes_val unat_of_nat take_bit_nat_eq_self)

lemma length_be16_bytes [simp]: "length (be16_bytes v) = 2"
  by (simp add: be16_bytes_def)

lemma amsdu_step:
  assumes "length da = ETH_ALEN" "length sa = ETH_ALEN" "body \<noteq> []" "length body < 2 ^ 16" "mem_ok nr"
  shows "amsdu_subframes mem_ok nr (da @ sa @ be16_bytes (of_nat (length body)) @ body @ rest) =
     (if nr + 1 \<ge> MAX_SUBFRAME_COUNT \<or> rest = [] \<or> length rest < amsdu_padding (length body) then [body]
      else body # amsdu_subframes mem_ok (nr + 1) (drop (amsdu_padding (length body)) rest))"
proof -
  define p where "p = da @ sa @ be16_bytes (of_nat (length body)) @ body @ rest"
  have len: "unat (be16_val (drop 12 p)) = length body"
    using assms(1,2,4) be16_of_nat [of "length body"] by (simp add: p_def ETH_ALEN_def)
  have long: "\<not> length p \<le> ETH_HLEN"
    using assms(1-3) by (cases body) (simp_all add: p_def ETH_ALEN_def ETH_HLEN_def)
  have fit: "\<not> length p < ETH_HLEN + length body"
    using assms(1,2) by (simp add: p_def ETH_ALEN_def ETH_HLEN_def)
  have parts: "take (length body) (drop ETH_HLEN p) = body" "drop (ETH_HLEN + length body) p = rest"
    using assms(1,2) by (simp_all add: p_def ETH_ALEN_def ETH_HLEN_def)
  have "amsdu_subframes mem_ok nr p =
     (if nr + 1 \<ge> MAX_SUBFRAME_COUNT \<or> rest = [] \<or> length rest < amsdu_padding (length body) then [body]
      else body # amsdu_subframes mem_ok (nr + 1) (drop (amsdu_padding (length body)) rest))"
    unfolding amsdu_subframes.simps [of mem_ok nr p] Let_def len parts
    using assms(5) long fit by simp
  then show ?thesis by (simp only: p_def)
qed

lemma amsdu_build_nonempty: "subframe_ok m \<Longrightarrow> amsdu_build (m # ms) \<noteq> []"
  by (cases "(m # ms)" rule: amsdu_build.cases) (auto simp: subframe_ok_def ETH_ALEN_def)

lemma amsdu_roundtrip_from:
  assumes "list_all subframe_ok ms" and "length ms + nr \<le> MAX_SUBFRAME_COUNT"
    and "\<And>i. mem_ok i"
  shows "amsdu_subframes mem_ok nr (amsdu_build ms) = map (\<lambda>(da, sa, body, pad). body) ms"
  using assms(1,2)
proof (induction ms arbitrary: nr rule: amsdu_build.induct)
  case 1
  then show ?case by (subst amsdu_subframes.simps) simp
next
  case (2 da sa body pad)
  then show ?case
    using amsdu_step [of da sa body mem_ok nr "[]"] assms(3) [of nr] by (simp add: subframe_ok_def)
next
  case (3 da sa body pad m ms)
  have "subframe_ok m" using "3.prems" by simp
  then have "pad @ amsdu_build (m # ms) \<noteq> []" using amsdu_build_nonempty by simp
  moreover have "length pad = amsdu_padding (length body)" using "3.prems" by (simp add: subframe_ok_def)
  moreover have "\<not> MAX_SUBFRAME_COUNT \<le> nr + 1" using "3.prems" by simp
  ultimately show ?case
    using amsdu_step [of da sa body mem_ok nr "pad @ amsdu_build (m # ms)"] assms(3) [of nr] "3.prems" "3.IH" [of "nr + 1"]
    by (simp add: subframe_ok_def)
qed

lemma amsdu_to_msdu_build:
  assumes "rx_ok f" and "rx_payload f = Some (hdr @ iv @ amsdu_build ms)"
    and "length hdr = unat (pa_hdrlen (rf_attrib f))" and "length iv = unat (pa_iv_len (rf_attrib f))"
    and "list_all subframe_ok ms" and "length ms \<le> MAX_SUBFRAME_COUNT"
    and "\<And>i. mem_ok i"
  shows "amsdu_to_msdu mem_ok f =
     Some (map (\<lambda>(da, sa, body, pad). rtw_os_alloc_msdu_pkt (rf_attrib f) body) ms)"
proof -
  obtain pre post where v: "rx_view f pre (hdr @ iv @ amsdu_build ms) post"
    using rx_view_exists [OF assms(1,2)] .
  obtain f1 where f1: "recvframe_pull f (int (length hdr)) = (f1, True)"
      "rx_view f1 (pre @ hdr) (iv @ amsdu_build ms) post" "rf_attrib f1 = rf_attrib f"
    using view_pull [OF v] by blast
  obtain f2 where f2: "recvframe_pull f1 (int (length iv)) = (f2, True)"
      "rx_view f2 ((pre @ hdr) @ iv) (amsdu_build ms) post" "rf_attrib f2 = rf_attrib f1"
    using view_pull [OF f1(2)] by blast
  have h: "uint (pa_hdrlen (rf_attrib f)) = int (length hdr)"
    "uint (pa_iv_len (rf_attrib f)) = int (length iv)" using assms(3,4) by simp_all
  have pl: "rx_payload (if pa_iv_len (rf_attrib f) \<noteq> 0
      then fst (recvframe_pull f1 (uint (pa_iv_len (rf_attrib f)))) else f1) = Some (amsdu_build ms)"
  proof (cases "pa_iv_len (rf_attrib f) = 0")
    case True
    then have "iv = []" using assms(4) by simp
    then show ?thesis using True rx_view_payload [OF f1(2)] by simp
  next
    case False
    then show ?thesis using h f2(1) rx_view_payload [OF f2(2)] by simp
  qed
  have "map (rtw_os_alloc_msdu_pkt (rf_attrib f)) (map (\<lambda>(da, sa, body, pad). body) ms) =
      map (\<lambda>(da, sa, body, pad). rtw_os_alloc_msdu_pkt (rf_attrib f) body) ms"
    by (simp add: case_prod_beta comp_def)
  then show ?thesis
    using amsdu_roundtrip_from [OF assms(5), of 0 mem_ok] assms(6,7) pl f1 f2 h
    by (auto simp: amsdu_to_msdu_def Let_def split: if_splits)
qed

text \<open>
  C39: A frame carrying up to 64 subframes is split into exactly their bodies, in order,
  whatever the padding bytes hold. Each packet passed up carries the addresses of the whole
  frame: the addresses inside the subframes are not used at all.
\<close>

theorem amsdu_roundtrip:
  assumes "rx_ok f" and "rx_payload f = Some (hdr @ iv @ amsdu_build ms)"
    and "length hdr = unat (pa_hdrlen (rf_attrib f))" and "length iv = unat (pa_iv_len (rf_attrib f))"
    and "list_all subframe_ok ms" and "length ms \<le> MAX_SUBFRAME_COUNT"
    and "\<And>i. mem_ok i"
  shows "amsdu_to_msdu mem_ok f =
     Some (map (\<lambda>(da, sa, body, pad). rtw_os_alloc_msdu_pkt (rf_attrib f) body) ms)"
  using amsdu_to_msdu_build [OF assms] .

theorem amsdu_roundtrip_witness:
  "amsdu_to_msdu (\<lambda>_. True) (frame_ex (pa_ex 1) (replicate 24 9 @ [] @ amsdu_build
      [([4, 4, 4, 4, 4, 4], [5, 5, 5, 5, 5, 5], [6, 7], []),
       ([8, 8, 8, 8, 8, 8], [9, 9, 9, 9, 9, 9], [10], [0])])) =
    Some [[1, 1, 1, 1, 1, 1, 2, 2, 2, 2, 2, 2, 0, 2, 6, 7], [1, 1, 1, 1, 1, 1, 2, 2, 2, 2, 2, 2, 0, 1, 10]]"
proof -
  let ?ms = "[([4, 4, 4, 4, 4, 4], [5, 5, 5, 5, 5, 5], [6, 7], []),
       ([8, 8, 8, 8, 8, 8], [9, 9, 9, 9, 9, 9], [10], [0])] :: (bytes \<times> bytes \<times> bytes \<times> bytes) list"
  have v: "rx_view (frame_ex (pa_ex 1) (replicate 24 9 @ [] @ amsdu_build ?ms)) []
      (replicate 24 9 @ [] @ amsdu_build ?ms) []"
    by (rule frame_ex_view) simp
  have "rf_attrib (frame_ex (pa_ex 1) ps) = pa_ex 1" for ps by (simp add: frame_ex_def)
  then show ?thesis
    using amsdu_roundtrip [OF rx_view_ok [OF v] rx_view_payload [OF v]]
    by (simp add: pa_ex_def subframe_ok_def amsdu_padding_def ETH_ALEN_def ETH_HLEN_def MAX_SUBFRAME_COUNT_def
        rtw_os_alloc_msdu_pkt_def be16_bytes_def)
qed

lemma amsdu_subframes_cases:
  obtains "amsdu_subframes mem_ok nr p = []"
  | body where "amsdu_subframes mem_ok nr p = [body]" "14 + length body \<le> length p"
  | body rest where "amsdu_subframes mem_ok nr p = body # amsdu_subframes mem_ok (nr + 1) rest"
      "nr + 1 < 64" "14 + length body + length rest \<le> length p"
proof -
  define n where "n = unat (be16_val (drop 12 p))"
  define rest where "rest = drop (amsdu_padding n) (drop (ETH_HLEN + n) p)"
  note unf = amsdu_subframes.simps [of mem_ok nr p, unfolded Let_def, folded n_def rest_def]
  have "length (take n (drop ETH_HLEN p)) \<le> n" by simp
  moreover have "length rest \<le> length p - (ETH_HLEN + n)" by (simp add: rest_def)
  ultimately have fit: "14 + length (take n (drop ETH_HLEN p)) + length rest \<le> length p"
    if "ETH_HLEN + n \<le> length p" using that by (simp add: ETH_HLEN_def)
  have "amsdu_subframes mem_ok nr p = [] \<or>
      ETH_HLEN + n \<le> length p \<and> amsdu_subframes mem_ok nr p = [take n (drop ETH_HLEN p)] \<or>
      ETH_HLEN + n \<le> length p \<and> nr + 1 < 64 \<and>
      amsdu_subframes mem_ok nr p = take n (drop ETH_HLEN p) # amsdu_subframes mem_ok (nr + 1) rest"
    unfolding unf by (simp add: MAX_SUBFRAME_COUNT_def not_less not_le)
  then show thesis
    using that(1) that(2) [of "take n (drop ETH_HLEN p)"] that(3) [of "take n (drop ETH_HLEN p)" rest] fit
    by (elim disjE conjE) simp_all
qed

text \<open>
  Whatever bytes are received, the splitting never stores more than the 64 packets its
  array holds, and the bodies and their 14-byte headers lie in disjoint parts of the frame:
  together they are not longer than it.
\<close>

theorem amsdu_bounded:
  "length (amsdu_subframes mem_ok 0 p) \<le> 64 \<and>
   sum_list (map (\<lambda>b. 14 + length b) (amsdu_subframes mem_ok 0 p)) \<le> length p"
proof -
  have "length (amsdu_subframes mem_ok nr p) + nr \<le> 64 \<and>
      sum_list (map (\<lambda>b. 14 + length b) (amsdu_subframes mem_ok nr p)) \<le> length p" if "nr < 64" for nr
    using that
  proof (induction "length p" arbitrary: nr p rule: less_induct)
    case less
    show ?case
    proof (cases rule: amsdu_subframes_cases [of mem_ok nr p])
      case (3 body rest)
      then show ?thesis using less(1) [of rest "nr + 1"] by simp
    qed (use less.prems in simp_all)
  qed
  from this [of 0] show ?thesis by simp
qed

end
