(* ===== verification/Rx_Window.thy ===== *)
theory Rx_Window
  imports Drv_Prelude
begin

text \<open>
  The 12-bit sequence numbers of the reorder buffer, compared as \<open>SN_LESS\<close> does
  (\<open>include/rtw_recv.h\<close>), and the abstract reorder buffer that the driver's code is shown to
  implement: frames are numbered by unbounded positions, \<open>sn\<close> gives the sequence number that
  travels in the frame, and the state is the start of the window with the sorted list of
  positions that wait in it.
\<close>

section \<open>Sequence numbers\<close>

definition SN_LESS :: "u16 \<Rightarrow> u16 \<Rightarrow> bool" where
  "SN_LESS a b \<longleftrightarrow> ((ucast a :: u32) - ucast b) AND 0x800 \<noteq> 0"

definition SN_EQUAL :: "u16 \<Rightarrow> u16 \<Rightarrow> bool" where
  "SN_EQUAL a b \<longleftrightarrow> a = b"

definition sn :: "nat \<Rightarrow> u16" where "sn p = of_nat (p mod 4096)"

lemma unat_sn [simp]: "unat (sn p) = p mod 4096"
proof -
  have "p mod 4096 < 4096" by simp
  then have "p mod 4096 < 65536" by linarith
  then show ?thesis by (simp add: sn_def unat_of_nat take_bit_nat_eq_self)
qed

lemma sn_eq_iff: "sn p = sn q \<longleftrightarrow> p mod 4096 = q mod 4096"
  by (metis unat_sn unsigned_word_eqI)

lemma sn_unat: "unat s < 4096 \<Longrightarrow> sn (unat s) = s"
  unfolding word_unat_eq_iff by simp

lemma and_2048: "(x :: u32) AND 0x800 \<noteq> 0 \<longleftrightarrow> bit x 11"
  using and_exp_eq_0_iff_not_bit [of x 11] by simp

lemma SN_LESS_int: "SN_LESS a b \<longleftrightarrow> odd ((int (unat a) - int (unat b)) div 2048)"
proof -
  have "bit ((ucast a :: u32) - ucast b) 11 \<longleftrightarrow> bit (uint ((ucast a :: u32) - ucast b)) 11"
    by (simp add: bit_uint_iff)
  also have "uint ((ucast a :: u32) - ucast b) = take_bit 32 (int (unat a) - int (unat b))"
    by (simp only: uint_word_ariths take_bit_eq_mod) (simp only: uint_nat unat_ucast_ups, simp)
  also have "bit (take_bit 32 (int (unat a) - int (unat b))) 11 \<longleftrightarrow> bit (int (unat a) - int (unat b)) 11"
    by (simp add: bit_take_bit_iff)
  also have "\<dots> \<longleftrightarrow> odd ((int (unat a) - int (unat b)) div 2048)"
    by (simp add: bit_iff_odd)
  finally show ?thesis by (simp add: SN_LESS_def and_2048)
qed

lemma sn_and: "x AND 0xFFF = sn (unat (x :: u16))"
proof -
  have "x AND 0xFFF = take_bit 12 x" by (simp add: take_bit_eq_mask mask_eq_exp_minus_1)
  moreover have "unat (take_bit 12 x) = unat x mod 4096"
    using take_bit_eq_mod [of 12 "unat x"] by (simp only: unsigned_take_bit_eq) simp
  ultimately show ?thesis unfolding word_unat_eq_iff by (simp only: unat_sn)
qed

lemma sn_add: "(sn w + of_nat k) AND 0xFFF = sn (w + k)"
proof -
  have "unat (sn w + of_nat k) = (w mod 4096 + k) mod 65536"
    by (simp add: unat_word_ariths unat_of_nat take_bit_eq_mod mod_add_right_eq)
  then have "unat (sn w + of_nat k) mod 4096 = (w + k) mod 4096"
    using mod_mod_cancel [of 4096 65536 "w mod 4096 + k"] by (simp add: mod_add_left_eq)
  then show ?thesis by (simp add: sn_and sn_eq_iff)
qed

text \<open>The code's two cases for moving the start back by a window of 64.\<close>

lemma sn_back:
  assumes "63 \<le> s"
  shows "(if uint (sn s) \<ge> uint (64 :: u8) - 1 then sn s + 1 - ucast (64 :: u8)
      else 0xFFF - (ucast (64 :: u8) - (sn s + 1)) + 1) = sn (s + 1 - 64)"
proof -
  define m where "m = s mod 4096"
  have m: "m < 4096" "sn s = of_nat m" by (simp_all add: m_def sn_def)
  have um: "uint (sn s) = int m" unfolding uint_nat unat_sn by (simp add: m_def)
  show ?thesis
  proof (cases "63 \<le> m")
    case True
    have "s - 63 = m - 63 + (s div 4096) * 4096"
      using True div_mult_mod_eq [of s 4096] by (simp add: m_def)
    then have "(s - 63) mod 4096 = m - 63" using m(1) by (simp only: mod_mult_self1) simp
    then have "sn (s + 1 - 64) = of_nat (m - 63)" by (simp add: sn_def)
    also have "\<dots> = of_nat m + 1 - 64" using True by (simp add: algebra_simps)
    finally show ?thesis using True um m(2) by simp
  next
    case False
    have s: "s = m + (s div 4096) * 4096" using div_mult_mod_eq [of s 4096] by (simp add: m_def)
    then have "0 < s div 4096" using False assms by (cases "s div 4096") auto
    then obtain k where "s div 4096 = Suc k" by (cases "s div 4096") auto
    then have "s - 63 = m + 4033 + k * 4096" using s by simp
    then have "(s - 63) mod 4096 = m + 4033" using False by (simp only: mod_mult_self1) simp
    then have "sn (s + 1 - 64) = of_nat m + 4033" by (simp add: sn_def)
    moreover have "a - (b - (x + 1)) + 1 = x + (a - b + 2)" for a b x :: u16 by simp
    from this [of "0xFFF" 64 "of_nat m"]
    have "0xFFF - (64 - (of_nat m + 1)) + 1 = (of_nat m + 4033 :: u16)" by simp
    moreover have "\<not> uint (64 :: u8) - 1 \<le> uint (sn s)" using False um by simp
    moreover have "ucast (64 :: u8) = (64 :: u16)" by simp
    ultimately show ?thesis by (simp only: if_False m(2))
  qed
qed

text \<open>The comparison is right for positions less than half the number space apart.\<close>

lemma SN_LESS_sn:
  assumes "p < q + 2048" and "q \<le> p + 2048"
  shows "SN_LESS (sn p) (sn q) \<longleftrightarrow> p < q"
proof -
  define k where "k = int (p div 4096) - int (q div 4096)"
  have "int (p mod 4096) - int (q mod 4096) = (int p - int q) + (- 2 * k) * 2048"
    unfolding k_def zmod_int zdiv_int by (simp add: minus_mult_div_eq_mod [symmetric])
  then have "(int (p mod 4096) - int (q mod 4096)) div 2048 = (int p - int q) div 2048 + (- 2 * k)"
    by simp
  then have "SN_LESS (sn p) (sn q) \<longleftrightarrow> odd ((int p - int q) div 2048)"
    by (simp add: SN_LESS_int)
  also have "\<dots> \<longleftrightarrow> p < q"
  proof (cases "p < q")
    case True
    then have "(int p - int q) div 2048 = -1" using assms
      by (intro int_div_pos_eq [of _ _ _ "int p - int q + 2048"]) auto
    then show ?thesis using True by simp
  next
    case False
    then have "(int p - int q) div 2048 = 0" using assms by (intro div_pos_pos_trivial) auto
    then show ?thesis using False by simp
  qed
  finally show ?thesis .
qed

lemma SN_EQUAL_sn:
  assumes "p < q + 4096" and "q < p + 4096"
  shows "SN_EQUAL (sn p) (sn q) \<longleftrightarrow> p = q"
proof -
  have "n = m" if "m \<le> n" "n < m + 4096" "n mod 4096 = m mod 4096" for m n :: nat
  proof -
    have "4096 dvd n - m" using that by (simp add: mod_eq_dvd_iff_nat)
    then have "n - m = 0" using that(2) by (auto dest: dvd_imp_le)
    then show ?thesis using that(1) by simp
  qed
  from this [of p q] this [of q p] have "p mod 4096 = q mod 4096 \<longleftrightarrow> p = q"
    using assms by (cases "p \<le> q") auto
  then show ?thesis by (simp add: SN_EQUAL_def sn_eq_iff)
qed

section \<open>Sources that release in order\<close>

text \<open>
  A component that consumes events and emits numbers, and the contract under which everything
  it ever emits is in strictly increasing order: each step emits a strictly increasing list
  between the old and the new value of a mark that never goes back.
\<close>

fun emit_run :: "('e \<Rightarrow> 's \<Rightarrow> 's \<times> nat list) \<Rightarrow> 'e list \<Rightarrow> 's \<Rightarrow> 's \<times> nat list" where
  "emit_run step [] s = (s, [])"
| "emit_run step (e # es) s = (let (s, d) = step e s; (s, ds) = emit_run step es s in (s, d @ ds))"

locale ordered_source =
  fixes step :: "'e \<Rightarrow> 's \<Rightarrow> 's \<times> nat list"
    and ok :: "'s \<Rightarrow> bool"
    and mark :: "'s \<Rightarrow> nat"
  assumes step_ok: "ok s \<Longrightarrow> step e s = (s', d) \<Longrightarrow> ok s'"
    and step_mark: "ok s \<Longrightarrow> step e s = (s', d) \<Longrightarrow> mark s \<le> mark s'"
    and step_sorted: "ok s \<Longrightarrow> step e s = (s', d) \<Longrightarrow> sorted_wrt (<) d"
    and step_between: "ok s \<Longrightarrow> step e s = (s', d) \<Longrightarrow> set d \<subseteq> {mark s..<mark s'}"
begin

lemma run_ordered:
  assumes "ok s" and "emit_run step es s = (s', d)"
  shows "ok s' \<and> mark s \<le> mark s' \<and> sorted_wrt (<) d \<and> set d \<subseteq> {mark s..<mark s'}"
  using assms
proof (induction es arbitrary: s d)
  case Nil
  then show ?case by simp
next
  case (Cons e es)
  obtain s1 d1 where s: "step e s = (s1, d1)" by fastforce
  obtain d2 where t: "emit_run step es s1 = (s', d2)" and d: "d = d1 @ d2"
    using Cons.prems(2) s by (auto split: prod.splits)
  note ok = Cons.prems(1)
  note p1 = step_ok [OF ok s] step_mark [OF ok s] step_sorted [OF ok s] step_between [OF ok s]
  note p2 = Cons.IH [OF p1(1) t]
  have "x < y" if "x \<in> set d1" "y \<in> set d2" for x y
  proof -
    have "x < mark s1" "mark s1 \<le> y" using p1(4) p2 that by auto
    then show ?thesis by simp
  qed
  moreover have "set d1 \<subseteq> {mark s..<mark s'}" "set d2 \<subseteq> {mark s..<mark s'}"
    using p1(2,4) p2 by (auto dest: subsetD)
  ultimately show ?case using p1 p2 d by (auto simp: sorted_wrt_append)
qed

text \<open>Nothing is emitted twice.\<close>

lemma run_distinct: "ok s \<Longrightarrow> emit_run step es s = (s', d) \<Longrightarrow> distinct d"
  using run_ordered strict_sorted_iff by blast

end

section \<open>The abstract reorder buffer\<close>

type_synonym window = "nat \<times> nat list"

text \<open>Releasing from the front: everything behind the start and the consecutive run from it.\<close>

fun win_run :: "nat \<Rightarrow> nat list \<Rightarrow> window \<times> nat list" where
  "win_run w [] = ((w, []), [])"
| "win_run w (q # qs) =
     (if w < q then ((w, q # qs), [])
      else let (r, d) = win_run (if w = q then w + 1 else w) qs in (r, q # d))"

definition win_shift :: "nat \<Rightarrow> nat \<Rightarrow> nat \<Rightarrow> nat" where
  "win_shift n s w = (if s = w then w + 1 else if w + n \<le> s then s + 1 - n else w)"

definition win_recv :: "nat \<Rightarrow> nat \<Rightarrow> window \<Rightarrow> window \<times> nat list" where
  "win_recv n s wq =
     (let (w, q) = wq in
      if s < w then (wq, [])
      else if s \<in> set q then ((win_shift n s w, q), [])
      else win_run (win_shift n s w) (insort s q))"

definition win_timeout :: "window \<Rightarrow> window \<times> nat list" where
  "win_timeout wq = (case snd wq of [] \<Rightarrow> (wq, []) | q # qs \<Rightarrow> win_run q (q # qs))"

definition win_ok :: "nat \<Rightarrow> window \<Rightarrow> bool" where
  "win_ok n wq \<longleftrightarrow> sorted_wrt (<) (snd wq) \<and> (\<forall>q \<in> set (snd wq). fst wq < q \<and> q < fst wq + n)"

datatype win_event = Win_recv nat | Win_timeout

fun win_step :: "nat \<Rightarrow> win_event \<Rightarrow> window \<Rightarrow> window \<times> nat list" where
  "win_step n (Win_recv s) wq = win_recv n s wq"
| "win_step n Win_timeout wq = win_timeout wq"

definition win_steps :: "nat \<Rightarrow> win_event list \<Rightarrow> window \<Rightarrow> window \<times> nat list" where
  "win_steps n = emit_run (win_step n)"

lemma win_steps_simps [simp]:
  "win_steps n [] wq = (wq, [])"
  "win_steps n (e # es) wq = (let (wq, d) = win_step n e wq; (wq, ds) = win_steps n es wq in (wq, d @ ds))"
  by (simp_all add: win_steps_def)

lemma win_run_split:
  assumes "win_run w q = ((w', r), d)" and "sorted_wrt (<) q"
  shows "q = d @ r \<and> w \<le> w' \<and> (\<forall>x \<in> set d. x < w') \<and> (\<forall>x \<in> set r. w' < x) \<and>
     {w..<w'} \<subseteq> set d"
  using assms
proof (induction w q arbitrary: w' r d rule: win_run.induct)
  case (1 w)
  then show ?case by simp
next
  case (2 w q qs)
  show ?case
  proof (cases "w < q")
    case True
    then have "\<forall>x \<in> set (q # qs). w < x" using "2.prems"(2) by (metis set_ConsD less_trans sorted_wrt.simps(2))
    then show ?thesis using "2.prems" True by auto
  next
    case False
    then obtain d' where run: "win_run (if w = q then w + 1 else w) qs = ((w', r), d')" and d: "d = q # d'"
      using "2.prems"(1) by (auto split: prod.splits)
    have sorted: "sorted_wrt (<) qs" using "2.prems"(2) by simp
    note ih = "2.IH" [OF False run sorted]
    have "{w..<w'} \<subseteq> set d"
    proof
      fix x assume x: "x \<in> {w..<w'}"
      show "x \<in> set d"
      proof (cases "x = q")
        case False
        then have "x \<in> {(if w = q then w + 1 else w)..<w'}" using x by auto
        then show ?thesis using ih d by auto
      qed (simp add: d)
    qed
    then show ?thesis using ih d False by (auto split: if_splits)
  qed
qed

lemma sorted_wrt_insort:
  "sorted_wrt (<) q \<Longrightarrow> s \<notin> set q \<Longrightarrow> sorted_wrt (<) (insort (s :: nat) q)"
  using strict_sorted_iff [of q] strict_sorted_iff [of "insort s q"]
  by (simp add: distinct_insort sorted_insort)

lemma win_shift_ge: "0 < n \<Longrightarrow> w \<le> win_shift n s w"
  by (auto simp: win_shift_def)

text \<open>What one event does: the contract of the buffer.\<close>

lemma win_recv_props:
  assumes "win_ok n (w, q)" and "0 < n" and "win_recv n s (w, q) = ((w', q'), d)"
  shows "win_ok n (w', q')" and "w \<le> w'" and "sorted_wrt (<) d" and "set d \<subseteq> {w..<w'}"
    and "set d \<union> set q' = (if w \<le> s then insert s (set q) else set q)"
    and "set d \<inter> set q' = {}"
proof -
  have q: "sorted_wrt (<) q" "\<forall>x \<in> set q. w < x \<and> x < w + n" using assms(1) by (auto simp: win_ok_def)
  have all: "win_ok n (w', q') \<and> w \<le> w' \<and> sorted_wrt (<) d \<and> set d \<subseteq> {w..<w'} \<and>
    set d \<union> set q' = (if w \<le> s then insert s (set q) else set q) \<and> set d \<inter> set q' = {}"
  proof (cases "s < w \<or> s \<in> set q")
    case True
    then have "win_shift n s w = w" if "\<not> s < w" using that q(2) by (auto simp: win_shift_def)
    then show ?thesis using True assms by (auto simp: win_recv_def split: if_splits)
  next
    case False
    then have run: "win_run (win_shift n s w) (insort s q) = ((w', q'), d)"
      using assms(3) by (simp add: win_recv_def)
    have sorted: "sorted_wrt (<) (insort s q)" using sorted_wrt_insort [OF q(1)] False by simp
    note r = win_run_split [OF run sorted]
    have "set (d @ q') = insert s (set q)" using r set_insort_key [of "\<lambda>x. x" s q] by metis
    then have sets: "set d \<union> set q' = insert s (set q)" by simp
    have "sorted_wrt (<) (d @ q')" using r sorted by metis
    then have srt: "sorted_wrt (<) d" "sorted_wrt (<) q'" "set d \<inter> set q' = {}"
      by (auto simp: sorted_wrt_append)
    have ge: "w \<le> win_shift n s w" using win_shift_ge [OF assms(2)] .
    have "x < w' + n" if "x \<in> set q'" for x
    proof -
      have "x = s \<or> x < w + n" using sets that q(2) by auto
      moreover have "s < win_shift n s w + n" using False assms(2) by (auto simp: win_shift_def)
      ultimately show ?thesis using r ge by auto
    qed
    moreover have "x \<in> {w..<w'}" if "x \<in> set d" for x
      using sets that q(2) False r by (auto simp: not_less dest: less_imp_le)
    ultimately show ?thesis using srt sets r ge False by (auto simp: win_ok_def)
  qed
  then show "win_ok n (w', q')" and "w \<le> w'" and "sorted_wrt (<) d" and "set d \<subseteq> {w..<w'}"
    and "set d \<union> set q' = (if w \<le> s then insert s (set q) else set q)"
    and "set d \<inter> set q' = {}" by blast+
qed

lemma win_timeout_props:
  assumes "win_ok n (w, q)" and "win_timeout (w, q) = ((w', q'), d)"
  shows "win_ok n (w', q')" and "w \<le> w'" and "sorted_wrt (<) d" and "set d \<subseteq> {w..<w'}"
    and "q = d @ q'" and "q \<noteq> [] \<longrightarrow> d \<noteq> []"
proof -
  have q: "sorted_wrt (<) q" "\<forall>x \<in> set q. w < x \<and> x < w + n" using assms(1) by (auto simp: win_ok_def)
  have "win_ok n (w', q') \<and> w \<le> w' \<and> sorted_wrt (<) d \<and> set d \<subseteq> {w..<w'} \<and> q = d @ q' \<and> (q \<noteq> [] \<longrightarrow> d \<noteq> [])"
  proof (cases q)
    case Nil
    then show ?thesis using assms by (auto simp: win_timeout_def)
  next
    case (Cons x xs)
    then have run: "win_run x (x # xs) = ((w', q'), d)" using assms(2) by (simp add: win_timeout_def)
    note r = win_run_split [OF run q(1) [unfolded Cons]]
    have x: "x \<in> set d" using run by (auto split: prod.splits)
    have app: "q = d @ q'" using r Cons by simp
    then have srt: "sorted_wrt (<) d" "sorted_wrt (<) q'" using q(1) by (auto simp: sorted_wrt_append)
    have wx: "w < x" using q(2) Cons by simp
    then have "w \<le> w'" using r by simp
    moreover have "y \<in> {w..<w'}" if "y \<in> set d" for y using that r q(2) app by (auto intro: less_imp_le)
    moreover have "y < w' + n" if "y \<in> set q'" for y
    proof -
      have "y < w + n" using that q(2) app by simp
      then show ?thesis using calculation(1) by simp
    qed
    ultimately show ?thesis using srt app x r by (auto simp: win_ok_def)
  qed
  then show "win_ok n (w', q')" and "w \<le> w'" and "sorted_wrt (<) d" and "set d \<subseteq> {w..<w'}"
    and "q = d @ q'" and "q \<noteq> [] \<longrightarrow> d \<noteq> []" by blast+
qed

lemma win_step_props:
  assumes "win_ok n wq" and "0 < n" and "win_step n e wq = (wq', d)"
  shows "win_ok n wq'" and "fst wq \<le> fst wq'" and "sorted_wrt (<) d" and "set d \<subseteq> {fst wq..<fst wq'}"
  using assms win_recv_props [of n "fst wq" "snd wq" _ "fst wq'" "snd wq'" d]
    win_timeout_props [of n "fst wq" "snd wq" "fst wq'" "snd wq'" d]
  by (cases e; auto)+

interpretation win: ordered_source "win_step n" "\<lambda>wq. win_ok n wq \<and> 0 < n" fst
  by unfold_locales (auto dest: win_step_props)

text \<open>Over any sequence of events the released positions increase strictly.\<close>

lemma win_steps_order:
  assumes "win_ok n wq" and "0 < n" and "win_steps n es wq = (wq', d)"
  shows "win_ok n wq' \<and> fst wq \<le> fst wq' \<and> sorted_wrt (<) d \<and> set d \<subseteq> {fst wq..<fst wq'}"
  using win.run_ordered [of n wq es wq' d] assms by (simp add: win_steps_def)

text \<open>
  Frames that stay inside one window are all released, in order, whatever the order in which
  they come.
\<close>

lemma win_recv_inside:
  assumes "win_ok n (v, q)" and "v \<le> s" and "s < v + n" and "s \<notin> set q"
    and "win_recv n s (v, q) = ((v', q'), d)"
  shows "set d = {v..<v'}"
proof -
  have n: "0 < n" using assms(2,3) by simp
  note p = win_recv_props [OF assms(1) n assms(5)]
  have run: "win_run (win_shift n s v) (insort s q) = ((v', q'), d)"
    using assms(2,4,5) by (simp add: win_recv_def)
  have "sorted_wrt (<) (insort s q)" using sorted_wrt_insort assms(1,4) by (simp add: win_ok_def)
  note r = win_run_split [OF run this]
  have shift: "win_shift n s v = (if s = v then v + 1 else v)" using assms(3) by (simp add: win_shift_def)
  have "v \<in> set d" if "s = v" "v < v'"
  proof -
    have "v \<in> set d \<union> set q'" using p(5) that assms(2) by auto
    then show ?thesis using r that by auto
  qed
  moreover have "{win_shift n s v..<v'} \<subseteq> set d" using r by blast
  ultimately have "x \<in> set d" if "v \<le> x" "x < v'" for x
    using that shift by (cases "x = v"; cases "s = v") (auto simp: subset_iff)
  then have "{v..<v'} \<subseteq> set d" by auto
  then show ?thesis using p(4) by blast
qed

lemma win_steps_inside:
  assumes "win_ok n (v, q)" and "w \<le> v" and "\<forall>s \<in> set ss. w \<le> s \<and> s < w + n" and "distinct ss"
    and "set ss \<inter> ({w..<v} \<union> set q) = {}"
    and "win_steps n (map Win_recv ss) (v, q) = ((v', q'), d)"
  shows "v \<le> v' \<and> {w..<v'} \<union> set q' = {w..<v} \<union> set q \<union> set ss \<and> set d = {v..<v'}"
  using assms
proof (induction ss arbitrary: v q d)
  case Nil
  then show ?case by simp
next
  case (Cons s ss)
  obtain v1 q1 d1 where st: "win_recv n s (v, q) = ((v1, q1), d1)" by (metis surj_pair)
  obtain d2 where rest: "win_steps n (map Win_recv ss) (v1, q1) = ((v', q'), d2)" and d: "d = d1 @ d2"
    using Cons.prems(6) st by (auto split: prod.splits)
  have s: "v \<le> s" "s < v + n" "s \<notin> set q" "0 < n" using Cons.prems(2,3,5) by auto
  note p = win_recv_props [OF Cons.prems(1) s(4) st]
  have d1: "set d1 = {v..<v1}" using win_recv_inside [OF Cons.prems(1) s(1-3) st] .
  have sets: "{w..<v1} \<union> set q1 = insert s ({w..<v} \<union> set q)"
  proof -
    have "{w..<v1} = {w..<v} \<union> set d1" using d1 p(2) Cons.prems(2) by auto
    moreover have "set d1 \<union> set q1 = insert s (set q)" using p(5) s(1) by simp
    ultimately show ?thesis by blast
  qed
  have "v1 \<le> v' \<and> {w..<v'} \<union> set q' = {w..<v1} \<union> set q1 \<union> set ss \<and> set d2 = {v1..<v'}"
  proof (rule Cons.IH [OF p(1) _ _ _ _ rest])
    show "w \<le> v1" "distinct ss" "\<forall>s \<in> set ss. w \<le> s \<and> s < w + n"
      using p(2) Cons.prems by auto
    show "set ss \<inter> ({w..<v1} \<union> set q1) = {}" unfolding sets using Cons.prems(4,5) by auto
  qed
  then show ?case using sets d d1 p(2) by auto
qed

lemma win_steps_permutation:
  assumes "set ss = {w..<w + m}" and "distinct ss" and "m \<le> n"
  shows "win_steps n (map Win_recv ss) (w, []) = ((w + m, []), [w..<w + m])"
proof (cases "m = 0")
  case True
  then show ?thesis using assms(1) by simp
next
  case False
  then have n: "0 < n" using assms(3) by simp
  obtain v' q' d where run: "win_steps n (map Win_recv ss) (w, []) = ((v', q'), d)" by (metis surj_pair)
  have ok: "win_ok n (w, [])" by (simp add: win_ok_def)
  have in': "v' \<ge> w" "{w..<v'} \<union> set q' = {w..<w + m}" "set d = {w..<v'}"
    using win_steps_inside [OF ok _ _ assms(2) _ run, of w] assms(1,3) by auto
  have ord: "win_ok n (v', q')" "sorted_wrt (<) d" using win_steps_order [OF ok n run] by auto
  have "q' = []"
  proof (rule ccontr)
    assume "q' \<noteq> []"
    then obtain x where x: "x \<in> set q'" by (cases q') auto
    then have "v' < x" using ord(1) by (auto simp: win_ok_def)
    moreover have "x \<in> {w..<w + m}" using in'(2) x by blast
    ultimately have "v' \<in> {w..<w + m}" using in'(1) by simp
    then have "v' \<in> set q'" using in'(2) by auto
    then show False using ord(1) by (auto simp: win_ok_def)
  qed
  then have v': "v' = w + m" using in'(1,2) False
    by (metis add_less_cancel_left atLeastLessThan_eq_iff atLeastLessThan_empty_iff2 le_add1 list.set(1) neq0_conv
        not_less sup_bot_right less_add_same_cancel1)
  have "d = [w..<w + m]"
    using ord(2) in'(3) v' by (intro sorted_distinct_set_unique) (auto simp: strict_sorted_iff)
  then show ?thesis using run \<open>q' = []\<close> v' by simp
qed

end
