(* ===== verification/Rx_Reorder.thy ===== *)
theory Rx_Reorder
  imports Rx_Frame Rx_Window "HOL-Library.Multiset"
begin

text \<open>
  The end of the receive path (\<open>core/rtw_recv.c\<close>): the pool of receive frames, the
  indication of a frame to the network stack, and the reordering of the frames of a block
  acknowledgement session (\<open>check_indicate_seq\<close>, \<open>enqueue_reorder_recvframe\<close>,
  \<open>recv_indicatepkts_in_order\<close>, \<open>recv_indicatepkt_reorder\<close> and the reordering timer).

  A \<open>union recv_frame *\<close> is the index of its frame in \<open>precv_frame_buf\<close>, a queue is the
  list of the frames linked on it, head first. What the driver hands to
  \<open>rtw_os_recv_indicate_pkt\<close> is appended to \<open>os_rx\<close>. Each operation runs under the lock
  of its queue and is one step here.
\<close>

section \<open>State\<close>

record rx_env =
  rx_adapter :: adapter
  rx_wfd :: wifi_display_info
  rx_mem_ok :: bool
  msdu_ok :: "nat \<Rightarrow> bool"
  precv_frame_buf :: "recv_frame list"
  free_recv_queue :: "nat list"
  free_recvframe_cnt :: u32
  cannot_run :: bool
  mp_state :: bool
  ht_option :: bool
  os_rx :: "bytes list"
  st_cmd_q :: "st_cmd_parm list"
  dbg_rx_ampdu_drop_count :: u64
  dbg_rx_ampdu_forced_indicate_count :: u64
  dbg_rx_ampdu_loss_count :: u64
  dbg_rx_ampdu_window_shift_cnt :: u64

text \<open>The reorder control of a station and traffic class, with its timer: armed or not.\<close>

record reorder_st = recv_reorder_ctrl +
  reordering_ctrl_timer :: bool

definition rframe :: "rx_env \<Rightarrow> nat \<Rightarrow> recv_frame" where
  "rframe e i = precv_frame_buf e ! i"

definition set_rframe :: "nat \<Rightarrow> recv_frame \<Rightarrow> rx_env \<Rightarrow> rx_env" where
  "set_rframe i f e = e\<lparr>precv_frame_buf := (precv_frame_buf e)[i := f]\<rparr>"

definition rseq :: "rx_env \<Rightarrow> nat \<Rightarrow> u16" where
  "rseq e i = pa_seq_num (rf_attrib (rframe e i))"

section \<open>The pool of frames\<close>

definition rtw_alloc_recvframe :: "rx_env \<Rightarrow> rx_env \<times> nat option" where
  "rtw_alloc_recvframe e =
     (case free_recv_queue e of
        [] \<Rightarrow> (e, None)
      | i # q \<Rightarrow> (e\<lparr>free_recv_queue := q, free_recvframe_cnt := free_recvframe_cnt e - 1\<rparr>, Some i))"

text \<open>Freeing a frame releases its buffer; the frame goes to the end of the free queue.\<close>

definition rtw_free_recvframe :: "nat \<Rightarrow> rx_env \<Rightarrow> rx_env" where
  "rtw_free_recvframe i e =
     (let e = set_rframe i ((rframe e i)\<lparr>rx_mem := [], rf_len := 0\<rparr>) e
      in e\<lparr>free_recv_queue := removeAll i (free_recv_queue e) @ [i],
           free_recvframe_cnt := free_recvframe_cnt e + 1\<rparr>)"

definition rtw_free_recvframe_queue :: "nat list \<Rightarrow> rx_env \<Rightarrow> rx_env" where
  "rtw_free_recvframe_queue q e = foldl (\<lambda>e i. rtw_free_recvframe i e) e q"

section \<open>Indication\<close>

definition rtw_os_recv_indicate_pkt :: "bytes \<Rightarrow> rx_env \<Rightarrow> rx_env" where
  "rtw_os_recv_indicate_pkt p e = e\<lparr>os_rx := os_rx e @ [p]\<rparr>"

definition rx_inspect :: "rx_env \<Rightarrow> nat option \<Rightarrow> bytes \<Rightarrow> st_cmd_parm list option" where
  "rx_inspect e sta p =
     (case sta of
        None \<Rightarrow> Some []
      | Some s \<Rightarrow> st_rx_inspect (rx_mem_ok e) (st_ctl (sta_of (stapriv (rx_adapter e)) s)) (rx_wfd e) s p)"

definition rtw_recv_indicatepkt :: "nat \<Rightarrow> rx_env \<Rightarrow> rx_env option" where
  "rtw_recv_indicatepkt i e = do {
     p \<leftarrow> rx_payload (rframe e i);
     cmds \<leftarrow> rx_inspect e (rf_psta (rframe e i)) p;
     let e = e\<lparr>st_cmd_q := st_cmd_q e @ cmds\<rparr>;
     Some (rtw_free_recvframe i (rtw_os_recv_indicate_pkt p e)) }"

text \<open>\<open>amsdu_to_msdu\<close> on a frame of the pool; it returns \<open>_SUCCESS\<close> on every path.\<close>

definition indicate_amsdu :: "nat \<Rightarrow> rx_env \<Rightarrow> rx_env option" where
  "indicate_amsdu i e = do {
     ps \<leftarrow> amsdu_to_msdu (msdu_ok e) (rframe e i);
     Some (rtw_free_recvframe i (foldl (\<lambda>e p. rtw_os_recv_indicate_pkt p e) e ps)) }"

section \<open>Reordering\<close>

definition check_indicate_seq :: "rx_env \<Rightarrow> reorder_st \<Rightarrow> u16 \<Rightarrow> rx_env \<times> reorder_st \<times> bool" where
  "check_indicate_seq e c seq =
     (let wsize = wsize_b c;
          wend = (indicate_seq c + ucast wsize - 1) AND 0xFFF;
          c = (if indicate_seq c = 0xFFFF then c\<lparr>indicate_seq := seq\<rparr> else c)
      in if SN_LESS seq (indicate_seq c) then (e, c, False)
         else if SN_EQUAL seq (indicate_seq c)
         then (e, c\<lparr>indicate_seq := (indicate_seq c + 1) AND 0xFFF\<rparr>, True)
         else if SN_LESS wend seq
         then (e\<lparr>dbg_rx_ampdu_window_shift_cnt := dbg_rx_ampdu_window_shift_cnt e + 1\<rparr>,
               c\<lparr>indicate_seq := (if uint seq \<ge> uint wsize - 1 then seq + 1 - ucast wsize
                                  else 0xFFF - (ucast wsize - (seq + 1)) + 1)\<rparr>, True)
         else (e, c, True))"

fun reorder_insert :: "(nat \<Rightarrow> u16) \<Rightarrow> nat \<Rightarrow> nat list \<Rightarrow> nat list option" where
  "reorder_insert sq i [] = Some [i]"
| "reorder_insert sq i (j # q) =
     (if SN_LESS (sq j) (sq i) then map_option ((#) j) (reorder_insert sq i q)
      else if SN_EQUAL (sq j) (sq i) then None
      else Some (i # j # q))"

definition enqueue_reorder_recvframe :: "rx_env \<Rightarrow> reorder_st \<Rightarrow> nat \<Rightarrow> reorder_st option" where
  "enqueue_reorder_recvframe e c i =
     map_option (\<lambda>q. c\<lparr>pending_recvframe_queue := q\<rparr>)
       (reorder_insert (rseq e) i (pending_recvframe_queue c))"

definition recv_indicatepkts_pkt_loss_cnt :: "rx_env \<Rightarrow> u64 \<Rightarrow> u64 \<Rightarrow> rx_env" where
  "recv_indicatepkts_pkt_loss_cnt e prev_seq current_seq =
     e\<lparr>dbg_rx_ampdu_loss_count := dbg_rx_ampdu_loss_count e +
        (if current_seq < prev_seq then 4096 + current_seq - prev_seq else current_seq - prev_seq)\<rparr>"

text \<open>
  One frame taken off the reorder queue. When the driver cannot run, or the attribute is
  neither 0 nor 1, the frame is on no list any more and is not freed either.
\<close>

definition indicate_one :: "nat \<Rightarrow> rx_env \<Rightarrow> rx_env option" where
  "indicate_one i e =
     (if pa_amsdu (rf_attrib (rframe e i)) = 0
      then if cannot_run e then Some e else rtw_recv_indicatepkt i e
      else if pa_amsdu (rf_attrib (rframe e i)) = 1 then indicate_amsdu i e
      else Some e)"

text \<open>The indication loop: the new state, the new \<open>indicate_seq\<close>, the frames kept, and \<open>bPktInBuf\<close>.\<close>

fun indicate_loop :: "rx_env \<Rightarrow> u16 \<Rightarrow> nat list \<Rightarrow> (rx_env \<times> u16 \<times> nat list \<times> bool) option" where
  "indicate_loop e w [] = Some (e, w, [], False)"
| "indicate_loop e w (i # q) =
     (if \<not> SN_LESS w (rseq e i)
      then case indicate_one i e of
             None \<Rightarrow> None
           | Some e' \<Rightarrow>
               indicate_loop e' (if SN_EQUAL w (rseq e i) then (w + 1) AND 0xFFF else w) q
      else Some (e, w, i # q, True))"

definition recv_indicatepkts_in_order ::
    "rx_env \<Rightarrow> reorder_st \<Rightarrow> bool \<Rightarrow> (rx_env \<times> reorder_st \<times> bool) option" where
  "recv_indicatepkts_in_order e c bforced =
     (let e = (if bforced then e\<lparr>dbg_rx_ampdu_forced_indicate_count :=
                 dbg_rx_ampdu_forced_indicate_count e + 1\<rparr> else e)
      in if bforced \<and> pending_recvframe_queue c = [] then Some (e, c, True)
         else
           let seq = rseq e (hd (pending_recvframe_queue c));
               (e, c) = (if bforced
                  then (recv_indicatepkts_pkt_loss_cnt e (ucast (indicate_seq c)) (ucast seq),
                        c\<lparr>indicate_seq := seq\<rparr>)
                  else (e, c))
           in map_option (\<lambda>(e, w, q, inbuf).
                  (e, c\<lparr>indicate_seq := w, pending_recvframe_queue := q\<rparr>, inbuf))
                (indicate_loop e (indicate_seq c) (pending_recvframe_queue c)))"

text \<open>The part of \<open>recv_indicatepkt_reorder\<close> under the queue lock (its steps s2 to s4).\<close>

definition reorder_locked :: "rx_env \<Rightarrow> reorder_st \<Rightarrow> nat \<Rightarrow> (rx_env \<times> reorder_st \<times> bool) option" where
  "reorder_locked e c i =
     (let (e, c, ok) = check_indicate_seq e c (rseq e i)
      in if \<not> ok
         then Some (e\<lparr>dbg_rx_ampdu_drop_count := dbg_rx_ampdu_drop_count e + 1\<rparr>, c, False)
         else case enqueue_reorder_recvframe e c i of
             None \<Rightarrow> Some (e, c, False)
           | Some c \<Rightarrow>
               (case recv_indicatepkts_in_order e c False of
                  None \<Rightarrow> None
                | Some (e, c, inbuf) \<Rightarrow>
                    Some (e,
                      (if inbuf
                       then if bReorderWaiting c = 0
                            then c\<lparr>bReorderWaiting := 1, reordering_ctrl_timer := True\<rparr> else c
                       else c\<lparr>bReorderWaiting := 0, reordering_ctrl_timer := False\<rparr>),
                      True)))"

definition recv_indicatepkt_reorder :: "rx_env \<Rightarrow> reorder_st \<Rightarrow> nat \<Rightarrow> (rx_env \<times> reorder_st \<times> bool) option" where
  "recv_indicatepkt_reorder e c i =
     (if pa_amsdu (rf_attrib (rframe e i)) = 0
      then case wlanhdr_to_ethhdr (mp_state e) (rframe e i) of
             None \<Rightarrow> None
           | Some (f, ok) \<Rightarrow>
               let e = set_rframe i f e in
               if \<not> ok then Some (e, c, False)
               else if pa_qos (rf_attrib f) \<noteq> 1
               then if cannot_run e then Some (e, c, False)
                    else map_option (\<lambda>e. (e, c, True)) (rtw_recv_indicatepkt i e)
               else if ro_enable c = 0
               then map_option (\<lambda>e. (e, c\<lparr>indicate_seq := (pa_seq_num (rf_attrib f) + 1) mod 4096\<rparr>, True))
                      (rtw_recv_indicatepkt i e)
               else reorder_locked e c i
      else if pa_amsdu (rf_attrib (rframe e i)) = 1 \<and> ro_enable c = 0
      then map_option (\<lambda>e'. (e', c\<lparr>indicate_seq := (rseq e i + 1) mod 4096\<rparr>, True)) (indicate_amsdu i e)
      else reorder_locked e c i)"

definition rtw_reordering_ctrl_timeout_handler :: "rx_env \<Rightarrow> reorder_st \<Rightarrow> (rx_env \<times> reorder_st) option" where
  "rtw_reordering_ctrl_timeout_handler e c =
     (if cannot_run e then Some (e, c)
      else case recv_indicatepkts_in_order e (c\<lparr>bReorderWaiting := 0\<rparr>) True of
             None \<Rightarrow> None
           | Some (e, c, inbuf) \<Rightarrow> Some (e, if inbuf then c\<lparr>reordering_ctrl_timer := True\<rparr> else c))"

text \<open>A timer that expires is no longer armed when its handler runs.\<close>

definition reorder_timer_fires :: "rx_env \<Rightarrow> reorder_st \<Rightarrow> (rx_env \<times> reorder_st) option" where
  "reorder_timer_fires e c = rtw_reordering_ctrl_timeout_handler e (c\<lparr>reordering_ctrl_timer := False\<rparr>)"

definition process_recv_indicatepkts :: "rx_env \<Rightarrow> reorder_st \<Rightarrow> nat \<Rightarrow> (rx_env \<times> reorder_st \<times> bool) option" where
  "process_recv_indicatepkts e c i =
     (if ht_option e
      then map_option (\<lambda>(e', c', ok). (e', c', ok \<or> cannot_run e')) (recv_indicatepkt_reorder e c i)
      else case wlanhdr_to_ethhdr (mp_state e) (rframe e i) of
             None \<Rightarrow> None
           | Some (f, ok) \<Rightarrow>
               let e = set_rframe i f e in
               if \<not> ok then Some (e, c, False)
               else if cannot_run e then Some (e, c, False)
               else map_option (\<lambda>e. (e, c, True)) (rtw_recv_indicatepkt i e))"

text \<open>
  The answer to an ADDBA request (\<open>add_ba_rsp_hdl\<close>, \<open>core/rtw_mlme_ext.c\<close>): its effect
  on the reorder control. The queue and the timer are left as they are.
\<close>

definition add_ba_rsp_ctrl :: "u8 \<Rightarrow> u8 \<Rightarrow> reorder_st \<Rightarrow> reorder_st" where
  "add_ba_rsp_ctrl st_code sz c =
     (let c = c\<lparr>indicate_seq := 0xffff\<rparr>
      in if st_code = 0 then c\<lparr>ro_enable := 1, ampdu_size := sz\<rparr>
         else if st_code = 37 then c\<lparr>ro_enable := 0\<rparr> else c)"

text \<open>
  A frame without fragments from its arrival on: it is put into a free frame of the pool and
  processed; when processing fails, \<open>recv_func_posthandle\<close> frees it. With no free frame it is
  lost.
\<close>

definition rx_arrive :: "recv_frame \<Rightarrow> rx_env \<times> reorder_st \<Rightarrow> (rx_env \<times> reorder_st) option" where
  "rx_arrive f ec =
     (case rtw_alloc_recvframe (fst ec) of
        (e, None) \<Rightarrow> Some (e, snd ec)
      | (e, Some i) \<Rightarrow>
          (case process_recv_indicatepkts (set_rframe i f e) (snd ec) i of
             None \<Rightarrow> None
           | Some (e, c, ok) \<Rightarrow> Some (if ok then e else rtw_free_recvframe i e, c)))"

section \<open>What the steps keep\<close>

definition rx_static :: "rx_env \<Rightarrow> rx_env \<Rightarrow> bool" where
  "rx_static e e' \<longleftrightarrow> rx_adapter e' = rx_adapter e \<and> rx_wfd e' = rx_wfd e \<and> rx_mem_ok e' = rx_mem_ok e \<and>
     msdu_ok e' = msdu_ok e \<and> cannot_run e' = cannot_run e \<and> mp_state e' = mp_state e \<and>
     ht_option e' = ht_option e \<and> length (precv_frame_buf e') = length (precv_frame_buf e)"

lemma rx_static_refl [simp]: "rx_static e e" by (simp add: rx_static_def)

lemma rx_static_trans: "rx_static e e' \<Longrightarrow> rx_static e' e'' \<Longrightarrow> rx_static e e''"
  by (simp add: rx_static_def)

lemma rx_inspect_static: "rx_static e e' \<Longrightarrow> rx_inspect e' = rx_inspect e"
  by (simp add: rx_static_def rx_inspect_def fun_eq_iff split: option.splits)

lemma rframe_set: "i < length (precv_frame_buf e) \<Longrightarrow>
    rframe (set_rframe i f e) j = (if j = i then f else rframe e j)"
  by (simp add: rframe_def set_rframe_def)

lemma rframe_set_other: "j \<noteq> i \<Longrightarrow> rframe (set_rframe i f e) j = rframe e j"
  by (simp add: rframe_def set_rframe_def)

lemma free_frame_props:
  "rx_static e (rtw_free_recvframe i e)"
  "j \<noteq> i \<Longrightarrow> rframe (rtw_free_recvframe i e) j = rframe e j"
  "os_rx (rtw_free_recvframe i e) = os_rx e"
  "free_recv_queue (rtw_free_recvframe i e) = removeAll i (free_recv_queue e) @ [i]"
  by (simp_all add: rtw_free_recvframe_def Let_def rx_static_def set_rframe_def rframe_def)

text \<open>One frame of an unaggregated kind, ready to be indicated.\<close>

definition ready :: "rx_env \<Rightarrow> nat \<Rightarrow> bytes \<Rightarrow> bool" where
  "ready e i p \<longleftrightarrow> i < length (precv_frame_buf e) \<and> pa_amsdu (rf_attrib (rframe e i)) = 0 \<and>
     rx_payload (rframe e i) = Some p \<and> rx_inspect e (rf_psta (rframe e i)) p \<noteq> None"

lemma ready_same:
  "rx_static e e' \<Longrightarrow> rframe e' i = rframe e i \<Longrightarrow> ready e' i p = ready e i p"
  using rx_inspect_static [of e e'] by (simp add: ready_def rx_static_def)

lemma indicate_ready:
  assumes "ready e i p"
  obtains e' where "rtw_recv_indicatepkt i e = Some e'" "rx_static e e'" "os_rx e' = os_rx e @ [p]"
    "\<And>j. j \<noteq> i \<Longrightarrow> rframe e' j = rframe e j"
    "free_recv_queue e' = removeAll i (free_recv_queue e) @ [i]"
proof -
  obtain cmds where c: "rx_inspect e (rf_psta (rframe e i)) p = Some cmds" using assms by (auto simp: ready_def)
  let ?e1 = "rtw_os_recv_indicate_pkt p (e\<lparr>st_cmd_q := st_cmd_q e @ cmds\<rparr>)"
  have st: "rx_static e ?e1" by (simp add: rx_static_def rtw_os_recv_indicate_pkt_def)
  have fr: "rframe ?e1 j = rframe e j" for j by (simp add: rframe_def rtw_os_recv_indicate_pkt_def)
  have "rtw_recv_indicatepkt i e = Some (rtw_free_recvframe i ?e1)"
    using assms c by (simp add: rtw_recv_indicatepkt_def ready_def)
  then show thesis
  proof (rule that)
    show "rx_static e (rtw_free_recvframe i ?e1)"
      using rx_static_trans [OF st] free_frame_props(1) .
  qed (simp_all add: free_frame_props fr, simp_all add: rtw_os_recv_indicate_pkt_def)
qed

section \<open>The refinement\<close>

text \<open>
  The concrete queue holds the frames of the abstract positions: each with its sequence
  number and ready to be passed up as the packet of its position.
\<close>

definition holds :: "(nat \<Rightarrow> bytes) \<Rightarrow> rx_env \<Rightarrow> nat list \<Rightarrow> nat list \<Rightarrow> bool" where
  "holds pk e q ps \<longleftrightarrow> list_all2 (\<lambda>i p. rseq e i = sn p \<and> ready e i (pk p)) q ps"

lemma holds_same:
  assumes "rx_static e e'" and "\<And>i. i \<in> set q \<Longrightarrow> rframe e' i = rframe e i"
  shows "holds pk e' q ps = holds pk e q ps"
  unfolding holds_def using ready_same [OF assms(1) assms(2)] assms(2)
  by (intro list.rel_cong) (auto simp: rseq_def)

lemma indicate_loop_refines:
  assumes "holds pk e q ps" and "distinct q" and "sorted_wrt (<) ps"
    and "\<forall>p \<in> set ps. w < p + 2048 \<and> p \<le> w + 2048" and "\<not> cannot_run e"
    and "win_run w ps = ((w', ps'), d)"
  shows "\<exists>e' dl q'. indicate_loop e (sn w) q = Some (e', sn w', q', q' \<noteq> []) \<and> q = dl @ q' \<and>
     length dl = length d \<and> rx_static e e' \<and> holds pk e' q' ps' \<and> os_rx e' = os_rx e @ map pk d \<and>
     (\<forall>j. j \<notin> set dl \<longrightarrow> rframe e' j = rframe e j) \<and>
     free_recv_queue e' = foldl (\<lambda>fq i. removeAll i fq @ [i]) (free_recv_queue e) dl"
  using assms
proof (induction ps arbitrary: e q w w' ps' d)
  case Nil
  then show ?case by (auto simp: holds_def intro!: exI [of _ e])
next
  case (Cons p ps)
  obtain i q1 where q: "q = i # q1" and i: "rseq e i = sn p" "ready e i (pk p)" and rest: "holds pk e q1 ps"
    using Cons.prems(1) by (auto simp: holds_def list_all2_Cons2)
  have near: "w < p + 2048" "p \<le> w + 2048" using Cons.prems(4) by auto
  have less: "SN_LESS (sn w) (sn p) \<longleftrightarrow> w < p" by (rule SN_LESS_sn [OF near])
  have equal: "SN_EQUAL (sn w) (sn p) \<longleftrightarrow> w = p" using near by (intro SN_EQUAL_sn) auto
  show ?case
  proof (cases "w < p")
    case True
    then have "w' = w" "ps' = p # ps" "d = []" using Cons.prems(6) by auto
    then show ?thesis using True less i q Cons.prems(1) by (auto intro!: exI [of _ e])
  next
    case False
    define w1 where "w1 = (if w = p then w + 1 else w)"
    obtain d1 where run: "win_run w1 ps = ((w', ps'), d1)" and d: "d = p # d1"
      using Cons.prems(6) False by (auto simp: w1_def split: prod.splits)
    obtain e1 where e1: "rtw_recv_indicatepkt i e = Some e1" "rx_static e e1" "os_rx e1 = os_rx e @ [pk p]"
        "\<And>j. j \<noteq> i \<Longrightarrow> rframe e1 j = rframe e j"
        "free_recv_queue e1 = removeAll i (free_recv_queue e) @ [i]"
      by (rule indicate_ready [OF i(2)]) blast
    have one: "indicate_one i e = Some e1"
      using e1(1) i(2) Cons.prems(5) by (simp add: indicate_one_def ready_def)
    have sn1: "(if SN_EQUAL (sn w) (rseq e i) then (sn w + 1) AND 0xFFF else sn w) = sn w1"
      using equal i(1) sn_add [of p 1] by (auto simp: w1_def)
    have notin: "i \<notin> set q1" and dist: "distinct q1" using Cons.prems(2) q by auto
    have "rframe e1 x = rframe e x" if "x \<in> set q1" for x using e1(4) [of x] notin that by blast
    then have hold: "holds pk e1 q1 ps" using rest by (subst holds_same [OF e1(2)])
    have gt: "\<forall>y \<in> set ps. p < y" and sorted: "sorted_wrt (<) ps" using Cons.prems(3) by auto
    have near1: "\<forall>y \<in> set ps. w1 < y + 2048 \<and> y \<le> w1 + 2048"
      using Cons.prems(4) gt by (auto simp: w1_def)
    have run1: "\<not> cannot_run e1" using e1(2) Cons.prems(5) by (simp add: rx_static_def)
    obtain e' dl q' where ih: "indicate_loop e1 (sn w1) q1 = Some (e', sn w', q', q' \<noteq> [])" "q1 = dl @ q'"
        "length dl = length d1" "rx_static e1 e'" "holds pk e' q' ps'" "os_rx e' = os_rx e1 @ map pk d1"
        "\<forall>j. j \<notin> set dl \<longrightarrow> rframe e' j = rframe e1 j"
        "free_recv_queue e' = foldl (\<lambda>fq i. removeAll i fq @ [i]) (free_recv_queue e1) dl"
      using Cons.IH [OF hold dist sorted near1 run1 run] by blast
    show ?thesis
      using ih e1 one sn1 less False i q d rx_static_trans [OF e1(2) ih(4)]
      by (intro exI [of _ e'] exI [of _ "i # dl"] exI [of _ q']) auto
  qed
qed

lemma reorder_insert_refines:
  assumes "holds pk e q ps" and "rseq e i = sn s" and "ready e i (pk s)" and "sorted_wrt (<) ps"
    and "\<forall>p \<in> set ps. p < s + 2048 \<and> s \<le> p + 2048"
  shows "if s \<in> set ps then reorder_insert (rseq e) i q = None
     else \<exists>q'. reorder_insert (rseq e) i q = Some q' \<and> holds pk e q' (insort s ps) \<and> mset q' = add_mset i (mset q)"
  using assms(1,4,5)
proof (induction ps arbitrary: q)
  case Nil
  then show ?case using assms(2,3) by (simp add: holds_def)
next
  case (Cons p ps)
  obtain j q1 where q: "q = j # q1" and j: "rseq e j = sn p" "ready e j (pk p)" and rest: "holds pk e q1 ps"
    using Cons.prems(1) by (auto simp: holds_def list_all2_Cons2)
  have near: "p < s + 2048" "s \<le> p + 2048" using Cons.prems(3) by auto
  have less: "SN_LESS (rseq e j) (rseq e i) \<longleftrightarrow> p < s" unfolding j(1) assms(2) by (rule SN_LESS_sn [OF near])
  have equal: "SN_EQUAL (rseq e j) (rseq e i) \<longleftrightarrow> p = s"
    unfolding j(1) assms(2) using near by (intro SN_EQUAL_sn) auto
  have ih: "if s \<in> set ps then reorder_insert (rseq e) i q1 = None
     else \<exists>q'. reorder_insert (rseq e) i q1 = Some q' \<and> holds pk e q' (insort s ps) \<and> mset q' = add_mset i (mset q1)"
    using Cons.IH [OF rest] Cons.prems by simp
  consider "p < s" | "p = s" | "s < p" by linarith
  then show ?case
  proof cases
    case 1
    then show ?thesis using ih less j q by (auto simp: holds_def split: if_splits)
  next
    case 2
    then show ?thesis using less equal q by simp
  next
    case 3
    then have "s \<notin> set (p # ps)" using Cons.prems(2) by auto
    moreover have "insort s (p # ps) = s # p # ps" using 3 by simp
    moreover have "reorder_insert (rseq e) i q = Some (i # q)" using 3 less equal q by simp
    ultimately show ?thesis using Cons.prems(1) assms(2,3) q by (auto simp: holds_def)
  qed
qed

text \<open>\<open>check_indicate_seq\<close> moves the start of the window as the abstract buffer does.\<close>

lemma check_indicate_seq_refines:
  assumes "indicate_seq c = sn w" and "wsize_b c = 64" and "s < w + 2048" and "w \<le> s + 2048"
  obtains e' where "check_indicate_seq e c (sn s) =
      (e', (if s < w then c else c\<lparr>indicate_seq := sn (win_shift 64 s w)\<rparr>), \<not> s < w)"
    "rx_static e e'" "precv_frame_buf e' = precv_frame_buf e" "os_rx e' = os_rx e"
    "free_recv_queue e' = free_recv_queue e"
proof -
  have not_init: "sn w \<noteq> 0xFFFF"
  proof
    assume "sn w = 0xFFFF"
    then have "unat (sn w) = 65535" by simp
    moreover have "w mod 4096 < 4096" by simp
    ultimately show False by simp
  qed
  have wend: "(sn w + ucast (64 :: u8) - 1) AND 0xFFF = sn (w + 63)"
  proof -
    have "sn w + ucast (64 :: u8) - 1 = sn w + of_nat 63" by simp
    then show ?thesis by (simp only: sn_add)
  qed
  have less: "SN_LESS (sn s) (sn w) \<longleftrightarrow> s < w" by (rule SN_LESS_sn) (use assms(3,4) in auto)
  have equal: "SN_EQUAL (sn s) (sn w) \<longleftrightarrow> s = w" by (rule SN_EQUAL_sn) (use assms(3,4) in auto)
  have past: "SN_LESS (sn (w + 63)) (sn s) \<longleftrightarrow> w + 63 < s" if "w < s"
    by (rule SN_LESS_sn) (use assms(3) that in auto)
  have move: "(if uint (sn s) \<ge> uint (64 :: u8) - 1 then sn s + 1 - ucast (64 :: u8)
      else 0xFFF - (ucast (64 :: u8) - (sn s + 1)) + 1) = sn (s + 1 - 64)" if "w + 63 < s"
    using that by (intro sn_back) simp
  define e1 where "e1 = (if \<not> s < w \<and> s \<noteq> w \<and> w + 63 < s
     then e\<lparr>dbg_rx_ampdu_window_shift_cnt := dbg_rx_ampdu_window_shift_cnt e + 1\<rparr> else e)"
  have "check_indicate_seq e c (sn s) =
      (e1, (if s < w then c else c\<lparr>indicate_seq := sn (win_shift 64 s w)\<rparr>), \<not> s < w)"
    using not_init less equal past move wend sn_add [of w 1]
    by (auto simp: check_indicate_seq_def Let_def assms(1,2) e1_def win_shift_def simp flip: assms(1))
  then show thesis
    by (rule that) (simp_all add: e1_def rx_static_def)
qed

lemma requeue_distinct:
  "distinct (fq @ dl) \<Longrightarrow> foldl (\<lambda>fq i. removeAll i fq @ [i]) fq dl = fq @ dl"
  by (induction dl arbitrary: fq) (auto simp: removeAll_id)

text \<open>The timer is armed whenever frames wait.\<close>

definition timer_ok :: "reorder_st \<Rightarrow> bool" where
  "timer_ok c \<longleftrightarrow> (pending_recvframe_queue c \<noteq> [] \<or> bReorderWaiting c \<noteq> 0 \<longrightarrow> reordering_ctrl_timer c)"

definition win_rel :: "(nat \<Rightarrow> bytes) \<Rightarrow> rx_env \<Rightarrow> reorder_st \<Rightarrow> window \<Rightarrow> bool" where
  "win_rel pk e c wq \<longleftrightarrow> indicate_seq c = sn (fst wq) \<and> wsize_b c = 64 \<and> ro_enable c \<noteq> 0 \<and>
     win_ok 64 wq \<and> holds pk e (pending_recvframe_queue c) (snd wq) \<and> timer_ok c"

lemma in_order_refines:
  assumes "indicate_seq c = sn w" and "holds pk e (pending_recvframe_queue c) ps" and "sorted_wrt (<) ps"
    and "\<forall>p \<in> set ps. w < p + 2048 \<and> p \<le> w + 2048" and "\<not> cannot_run e"
    and "distinct (free_recv_queue e @ pending_recvframe_queue c)"
    and "win_run w ps = ((w', ps'), d)"
  obtains e' q' where "recv_indicatepkts_in_order e c False =
      Some (e', c\<lparr>indicate_seq := sn w', pending_recvframe_queue := q'\<rparr>, q' \<noteq> [])"
    "holds pk e' q' ps'" "rx_static e e'" "os_rx e' = os_rx e @ map pk d"
    "mset (free_recv_queue e' @ q') = mset (free_recv_queue e @ pending_recvframe_queue c)"
    "length q' + length d = length (pending_recvframe_queue c)"
proof -
  have dist: "distinct (pending_recvframe_queue c)" using assms(6) by simp
  obtain e' dl q' where l: "indicate_loop e (sn w) (pending_recvframe_queue c) = Some (e', sn w', q', q' \<noteq> [])"
      "pending_recvframe_queue c = dl @ q'" "length dl = length d" "rx_static e e'" "holds pk e' q' ps'"
      "os_rx e' = os_rx e @ map pk d"
      "free_recv_queue e' = foldl (\<lambda>fq i. removeAll i fq @ [i]) (free_recv_queue e) dl"
    using indicate_loop_refines [OF assms(2) dist assms(3-5,7)] by blast
  have "distinct (free_recv_queue e @ dl)" using assms(6) l(2) by auto
  then have "free_recv_queue e' = free_recv_queue e @ dl" using l(7) requeue_distinct by metis
  then show thesis
    using l by (intro that [of e' q']) (simp_all add: recv_indicatepkts_in_order_def assms(1) Let_def)
qed

lemma reorder_locked_refines:
  assumes rel: "win_rel pk e c (w, ps)" and i: "rseq e i = sn s" "ready e i (pk s)"
    and near: "s < w + 2048" "w \<le> s + 2048" and run: "\<not> cannot_run e"
    and pool: "distinct (free_recv_queue e @ i # pending_recvframe_queue c)"
    and win: "win_recv 64 s (w, ps) = (wq', d)"
  shows "\<exists>e' c' ok. reorder_locked e c i = Some (e', c', ok) \<and> win_rel pk e' c' wq' \<and>
     rx_static e e' \<and> os_rx e' = os_rx e @ map pk d \<and> ok = (s \<ge> w \<and> s \<notin> set ps) \<and>
     mset (free_recv_queue e' @ pending_recvframe_queue c' @ (if ok then [] else [i])) =
       mset (free_recv_queue e @ i # pending_recvframe_queue c) \<and>
     (ok \<or> free_recv_queue e' = free_recv_queue e)"
proof -
  have c: "indicate_seq c = sn w" "wsize_b c = 64" "ro_enable c \<noteq> 0" "win_ok 64 (w, ps)"
      "holds pk e (pending_recvframe_queue c) ps" "timer_ok c"
    using rel by (auto simp: win_rel_def)
  have ps: "sorted_wrt (<) ps" "\<forall>p \<in> set ps. w < p \<and> p < w + 64" using c(4) by (auto simp: win_ok_def)
  obtain e1 where chk: "check_indicate_seq e c (sn s) =
      (e1, (if s < w then c else c\<lparr>indicate_seq := sn (win_shift 64 s w)\<rparr>), \<not> s < w)"
      "rx_static e e1" "precv_frame_buf e1 = precv_frame_buf e" "os_rx e1 = os_rx e"
      "free_recv_queue e1 = free_recv_queue e"
    using check_indicate_seq_refines [OF c(1,2) near] by blast
  have same: "rframe e1 j = rframe e j" for j using chk(3) by (simp add: rframe_def)
  have seqs: "rseq e1 = rseq e" by (simp add: rseq_def same fun_eq_iff)
  have hold1: "holds pk e1 (pending_recvframe_queue c) ps" using c(5) by (subst holds_same [OF chk(2) same])
  have ready1: "ready e1 i (pk s)" using i(2) by (subst ready_same [OF chk(2) same])
  have run1: "\<not> cannot_run e1" using chk(2) run by (simp add: rx_static_def)
  show ?thesis
  proof (cases "s < w")
    case True
    then have "wq' = (w, ps)" "d = []" using win by (auto simp: win_recv_def)
    moreover have "reorder_locked e c i =
        Some (e1\<lparr>dbg_rx_ampdu_drop_count := dbg_rx_ampdu_drop_count e1 + 1\<rparr>, c, False)"
      using chk(1) True i(1) by (simp add: reorder_locked_def)
    moreover have "rframe (e1\<lparr>dbg_rx_ampdu_drop_count := x\<rparr>) j = rframe e1 j" for x j by (simp add: rframe_def)
    then have "holds pk (e1\<lparr>dbg_rx_ampdu_drop_count := x\<rparr>) (pending_recvframe_queue c) ps" for x
      using hold1 by (subst holds_same [where e = e1]) (simp_all add: rx_static_def)
    ultimately show ?thesis using True rel chk by (auto simp: win_rel_def rx_static_def)
  next
    case ge: False
    define w1 where "w1 = win_shift 64 s w"
    let ?c1 = "c\<lparr>indicate_seq := sn w1\<rparr>"
    have near_s: "\<forall>p \<in> set ps. p < s + 2048 \<and> s \<le> p + 2048" using ps(2) ge near by auto
    note ins = reorder_insert_refines [OF hold1 i(1) [folded seqs] ready1 ps(1) near_s]
    show ?thesis
    proof (cases "s \<in> set ps")
      case True
      then have "w1 = w" using ps(2) by (auto simp: w1_def win_shift_def)
      then have "wq' = (w, ps)" "d = []" "?c1 = c" using win True ge c(1) by (auto simp: win_recv_def w1_def)
      moreover have "reorder_locked e c i = Some (e1, c, False)"
        using chk(1) ge i(1) ins True \<open>?c1 = c\<close>
        by (simp add: reorder_locked_def enqueue_reorder_recvframe_def w1_def)
      ultimately show ?thesis using True rel chk hold1 by (auto simp: win_rel_def)
    next
      case False
      obtain q1 where q1: "reorder_insert (rseq e1) i (pending_recvframe_queue c) = Some q1"
          "holds pk e1 q1 (insort s ps)" "mset q1 = add_mset i (mset (pending_recvframe_queue c))"
        using ins False by auto
      obtain w' ps' where wq': "wq' = (w', ps')" by fastforce
      have winr: "win_run w1 (insort s ps) = ((w', ps'), d)"
        using win False ge wq' by (simp add: win_recv_def w1_def)
      define c2 where "c2 = ?c1\<lparr>pending_recvframe_queue := q1\<rparr>"
      have c2: "indicate_seq c2 = sn w1" "pending_recvframe_queue c2 = q1" "bReorderWaiting c2 = bReorderWaiting c"
          "reordering_ctrl_timer c2 = reordering_ctrl_timer c" "wsize_b c2 = 64" "ro_enable c2 = ro_enable c"
        by (simp_all add: c2_def c(2))
      have sorted: "sorted_wrt (<) (insort s ps)" using sorted_wrt_insort [OF ps(1) False] .
      have near1: "\<forall>p \<in> set (insort s ps). w1 < p + 2048 \<and> p \<le> w1 + 2048"
        using ps(2) ge near by (auto simp: w1_def win_shift_def set_insort_key)
      have "mset (free_recv_queue e1 @ q1) = mset (free_recv_queue e @ i # pending_recvframe_queue c)"
        by (simp add: q1(3) chk(5))
      then have dist: "distinct (free_recv_queue e1 @ pending_recvframe_queue c2)"
        using pool mset_eq_imp_distinct_iff c2(2) by metis
      obtain e' q' where io: "recv_indicatepkts_in_order e1 c2 False =
            Some (e', c2\<lparr>indicate_seq := sn w', pending_recvframe_queue := q'\<rparr>, q' \<noteq> [])"
          "holds pk e' q' ps'" "rx_static e1 e'" "os_rx e' = os_rx e1 @ map pk d"
          "mset (free_recv_queue e' @ q') = mset (free_recv_queue e1 @ pending_recvframe_queue c2)"
        using in_order_refines [OF c2(1) _ sorted near1 run1 dist winr] q1(2) c2(2) by metis
      let ?c3 = "c2\<lparr>indicate_seq := sn w', pending_recvframe_queue := q'\<rparr>"
      define c' where "c' = (if q' \<noteq> []
          then if bReorderWaiting ?c3 = 0 then ?c3\<lparr>bReorderWaiting := 1, reordering_ctrl_timer := True\<rparr> else ?c3
          else ?c3\<lparr>bReorderWaiting := 0, reordering_ctrl_timer := False\<rparr>)"
      have "reorder_locked e c i = Some (e', c', True)"
        using chk(1) ge i(1) q1(1) io(1) c2_def
        by (simp add: reorder_locked_def enqueue_reorder_recvframe_def c'_def w1_def)
      moreover have "timer_ok c'" using c(6) c2 by (auto simp: timer_ok_def c'_def)
      moreover have "indicate_seq c' = sn w'" "wsize_b c' = 64" "ro_enable c' \<noteq> 0" "pending_recvframe_queue c' = q'"
        using c2 c(3) by (simp_all add: c'_def)
      moreover have "win_ok 64 (w', ps')" using win_recv_props(1) [OF c(4) _ win [unfolded wq']] by simp
      ultimately show ?thesis
        using io chk c2 q1(3) ge False rx_static_trans [OF chk(2) io(3)] wq'
        by (auto simp: win_rel_def)
    qed
  qed
qed

section \<open>Arrivals and expiries\<close>

definition NR_RECVFRAME :: nat where "NR_RECVFRAME = 256"

text \<open>
  The state between two events: the window is represented, every frame of the pool is free
  or waiting, and the driver runs.
\<close>

definition rx_running :: "(nat \<Rightarrow> bytes) \<Rightarrow> rx_env \<Rightarrow> reorder_st \<Rightarrow> window \<Rightarrow> bool" where
  "rx_running pk e c wq \<longleftrightarrow> win_rel pk e c wq \<and> \<not> cannot_run e \<and> \<not> mp_state e \<and> ht_option e \<and>
     length (precv_frame_buf e) = NR_RECVFRAME \<and>
     mset (free_recv_queue e @ pending_recvframe_queue c) = mset [0..<NR_RECVFRAME]"

text \<open>The Ethernet packet that a frame becomes.\<close>

definition eth_packet :: "recv_frame \<Rightarrow> bytes option" where
  "eth_packet f = do { (f', ok) \<leftarrow> wlanhdr_to_ethhdr False f; if ok then rx_payload f' else None }"

definition frame_at :: "(nat \<Rightarrow> bytes) \<Rightarrow> rx_env \<Rightarrow> recv_frame \<Rightarrow> nat \<Rightarrow> bool" where
  "frame_at pk e f s \<longleftrightarrow> pa_seq_num (rf_attrib f) = sn s \<and> pa_amsdu (rf_attrib f) = 0 \<and>
     pa_qos (rf_attrib f) = 1 \<and> eth_packet f = Some (pk s) \<and> rx_inspect e (rf_psta f) (pk s) \<noteq> None"

text \<open>Header conversion changes the type of the attributes only.\<close>

definition same_head :: "recv_frame \<Rightarrow> recv_frame \<Rightarrow> bool" where
  "same_head f f' \<longleftrightarrow> rf_psta f' = rf_psta f \<and>
     (\<exists>t. rf_attrib f' = (rf_attrib f)\<lparr>pa_eth_type := t\<rparr>)"

lemma same_head_trans: "same_head f g \<Longrightarrow> same_head g h \<Longrightarrow> same_head f h"
  by (auto simp: same_head_def)

lemma same_head_ops:
  "same_head f f"
  "rx_wr f q bs = Some f' \<Longrightarrow> same_head f f'"
  "recvframe_pull f n = (f', b) \<Longrightarrow> same_head f f'"
  "same_head f (fst (recvframe_pull_tail f n))"
  "same_head f (f\<lparr>rf_attrib := (rf_attrib f)\<lparr>pa_eth_type := t\<rparr>\<rparr>)"
  by (auto simp: same_head_def rx_wr_def recvframe_pull_def recvframe_pull_tail_def
      intro: exI [of _ "pa_eth_type (rf_attrib f)"] split: if_splits)

lemma put_eth_header_same: "put_eth_header f q b len = Some f' \<Longrightarrow> same_head f f'"
  by (auto simp: put_eth_header_def split: bind_splits if_splits dest!: same_head_ops(2)
      intro: same_head_trans)

lemma wlanhdr_same:
  assumes "wlanhdr_to_ethhdr False f = Some (f', ok)"
  shows "same_head f f'"
proof -
  let ?g = "if pa_encrypt (rf_attrib f) \<noteq> 0
              then fst (recvframe_pull_tail f (uint (pa_icv_len (rf_attrib f)))) else f"
  have "same_head f ?g" by (simp add: same_head_ops)
  moreover have "same_head ?g f'"
    using assms unfolding wlanhdr_to_ethhdr_def Let_def
    by (auto split: bind_splits if_splits prod.splits dest!: put_eth_header_same same_head_ops(3)
        intro: same_head_trans [OF same_head_ops(5)] same_head_trans)
  ultimately show ?thesis by (rule same_head_trans)
qed

lemma running_free:
  assumes "rx_running pk e c wq"
  obtains i q where "free_recv_queue e = i # q" "i < length (precv_frame_buf e)"
    "distinct (q @ i # pending_recvframe_queue c)"
proof -
  let ?pend = "pending_recvframe_queue c"
  have m: "mset (free_recv_queue e @ ?pend) = mset [0..<NR_RECVFRAME]"
    and ok: "win_ok 64 wq" and h: "length ?pend = length (snd wq)"
    using assms by (auto simp: rx_running_def win_rel_def holds_def list_all2_lengthD)
  have "distinct (snd wq)" using ok strict_sorted_iff by (auto simp: win_ok_def)
  moreover have "set (snd wq) \<subseteq> {fst wq..<fst wq + 64}" using ok by (auto simp: win_ok_def)
  ultimately have "length (snd wq) \<le> 64"
    by (metis card_atLeastLessThan card_mono diff_add_inverse distinct_card finite_atLeastLessThan)
  moreover have "length (free_recv_queue e) + length ?pend = 256"
    using arg_cong [OF m, of size] by (simp add: NR_RECVFRAME_def)
  ultimately obtain i q where iq: "free_recv_queue e = i # q" using h by (cases "free_recv_queue e") auto
  have "distinct (free_recv_queue e @ ?pend)"
    using mset_eq_imp_distinct_iff [OF m] by simp
  then have "distinct (q @ i # ?pend)" using iq by auto
  moreover have "i < length (precv_frame_buf e)"
  proof -
    have "set (free_recv_queue e @ ?pend) = set [0..<NR_RECVFRAME]" by (rule mset_eq_setD [OF m])
    then have "i < NR_RECVFRAME" using iq by auto
    then show ?thesis using assms by (simp add: rx_running_def)
  qed
  ultimately show thesis using that iq by blast
qed

lemma rx_arrive_refines:
  assumes ok: "rx_running pk e c wq" and f: "frame_at pk e f s"
    and near: "s < fst wq + 2048" "fst wq \<le> s + 2048"
    and win: "win_recv 64 s wq = (wq', d)"
  shows "\<exists>e' c'. rx_arrive f (e, c) = Some (e', c') \<and> rx_running pk e' c' wq' \<and> rx_static e e' \<and>
     os_rx e' = os_rx e @ map pk d"
proof -
  obtain i q where iq: "free_recv_queue e = i # q" "i < length (precv_frame_buf e)"
      "distinct (q @ i # pending_recvframe_queue c)"
    using running_free [OF ok] .
  obtain f' where f': "wlanhdr_to_ethhdr False f = Some (f', True)" "rx_payload f' = Some (pk s)"
    using f by (auto simp: frame_at_def eth_packet_def split: bind_splits if_splits)
  note head = wlanhdr_same [OF f'(1)]
  define e1 where "e1 = e\<lparr>free_recv_queue := q, free_recvframe_cnt := free_recvframe_cnt e - 1\<rparr>"
  define e2 where "e2 = set_rframe i f e1"
  define e3 where "e3 = set_rframe i f' e2"
  have st: "rx_static e e3" by (simp add: e3_def e2_def e1_def rx_static_def set_rframe_def)
  have len: "i < length (precv_frame_buf e1)" "i < length (precv_frame_buf e2)"
    using iq(2) by (simp_all add: e1_def e2_def set_rframe_def)
  have len3: "i < length (precv_frame_buf e3)" using len by (simp add: e3_def set_rframe_def)
  have fi2: "rframe e2 i = f" and fi3: "rframe e3 i = f'"
    using len by (simp_all add: e2_def e3_def rframe_set)
  have other: "rframe e3 j = rframe e j" if "j \<noteq> i" for j
    using that by (simp add: e3_def e2_def rframe_set_other) (simp add: e1_def rframe_def)
  have flags: "\<not> cannot_run e3" "\<not> mp_state e2" "ht_option e2" "ro_enable c \<noteq> 0"
    using ok by (simp_all add: rx_running_def win_rel_def e1_def e2_def e3_def set_rframe_def)
  have seq: "rseq e3 i = sn s" using f head by (auto simp: rseq_def fi3 frame_at_def same_head_def)
  have rdy: "ready e3 i (pk s)"
    using f head f'(2) len3 rx_inspect_static [OF st]
    by (auto simp: ready_def fi3 frame_at_def same_head_def)
  have "rframe e3 x = rframe e x" if "x \<in> set (pending_recvframe_queue c)" for x
    using other [of x] iq(3) that by auto
  then have "holds pk e3 (pending_recvframe_queue c) (snd wq)"
    using ok by (subst holds_same [OF st]) (simp_all add: rx_running_def win_rel_def)
  then have rel: "win_rel pk e3 c (fst wq, snd wq)" using ok by (simp add: rx_running_def win_rel_def)
  have pool: "distinct (free_recv_queue e3 @ i # pending_recvframe_queue c)"
    using iq(3) by (simp add: e3_def e2_def e1_def set_rframe_def)
  have fq3: "free_recv_queue e3 = q" by (simp add: e3_def e2_def e1_def set_rframe_def)
  obtain e' c' acc where lk: "reorder_locked e3 c i = Some (e', c', acc)" "win_rel pk e' c' wq'"
      "rx_static e3 e'" "os_rx e' = os_rx e3 @ map pk d"
      "mset (free_recv_queue e' @ pending_recvframe_queue c' @ (if acc then [] else [i])) =
       mset (free_recv_queue e3 @ i # pending_recvframe_queue c)"
      "acc \<or> free_recv_queue e' = free_recv_queue e3"
    using reorder_locked_refines [OF rel seq rdy near flags(1) pool] win by auto
  have os3: "os_rx e3 = os_rx e" by (simp add: e3_def e2_def e1_def set_rframe_def)
  have "recv_indicatepkt_reorder e2 c i = Some (e', c', acc)"
    using f f'(1) flags lk(1) head
    by (auto simp: recv_indicatepkt_reorder_def fi2 frame_at_def same_head_def simp flip: e3_def)
  moreover have run': "\<not> cannot_run e'" using lk(3) flags(1) by (simp add: rx_static_def)
  ultimately have proc: "process_recv_indicatepkts e2 c i = Some (e', c', acc)"
    using flags(3) by (simp add: process_recv_indicatepkts_def)
  define e4 where "e4 = (if acc then e' else rtw_free_recvframe i e')"
  have arrive: "rx_arrive f (e, c) = Some (e4, c')"
    using proc iq(1) by (simp add: rx_arrive_def rtw_alloc_recvframe_def e4_def flip: e1_def e2_def)
  have st4: "rx_static e' e4" by (simp add: e4_def free_frame_props)
  have notpend: "i \<notin> set (pending_recvframe_queue c')" if "\<not> acc"
  proof -
    have "distinct (free_recv_queue e' @ pending_recvframe_queue c' @ [i])"
      using lk(5) pool that mset_eq_imp_distinct_iff by metis
    then show ?thesis by simp
  qed
  have "holds pk e4 (pending_recvframe_queue c') (snd wq')"
  proof (subst holds_same [OF st4])
    show "rframe e4 j = rframe e' j" if "j \<in> set (pending_recvframe_queue c')" for j
      using that notpend by (cases "j = i") (auto simp: e4_def free_frame_props)
  qed (use lk(2) in \<open>simp add: win_rel_def\<close>)
  then have rel4: "win_rel pk e4 c' wq'" using lk(2) by (simp add: win_rel_def)
  have "mset (free_recv_queue e4 @ pending_recvframe_queue c') = mset (free_recv_queue e @ pending_recvframe_queue c)"
  proof (cases acc)
    case True
    then show ?thesis using lk(5) iq(1) by (simp add: e4_def fq3)
  next
    case False
    then have "i \<notin> set (free_recv_queue e')" using lk(6) fq3 iq(3) by simp
    then show ?thesis using False lk(5) iq(1) by (simp add: e4_def free_frame_props fq3 removeAll_id)
  qed
  moreover have "rx_static e e4" using rx_static_trans [OF rx_static_trans [OF st lk(3)] st4] .
  ultimately have "rx_running pk e4 c' wq'"
    using ok rel4 by (simp add: rx_running_def rx_static_def)
  moreover have "os_rx e4 = os_rx e @ map pk d" using lk(4) os3 by (simp add: e4_def free_frame_props)
  ultimately show ?thesis using arrive \<open>rx_static e e4\<close> by blast
qed

datatype rx_event = Rx_arrive recv_frame | Rx_timer

text \<open>The timer fires only while it is armed.\<close>

fun rx_step :: "rx_event \<Rightarrow> rx_env \<times> reorder_st \<Rightarrow> (rx_env \<times> reorder_st) option" where
  "rx_step (Rx_arrive f) ec = rx_arrive f ec"
| "rx_step Rx_timer ec =
     (if reordering_ctrl_timer (snd ec) then reorder_timer_fires (fst ec) (snd ec) else Some ec)"

definition rx_run :: "rx_event list \<Rightarrow> rx_env \<times> reorder_st \<Rightarrow> (rx_env \<times> reorder_st) option" where
  "rx_run es ec = opt_fold (\<lambda>s e. rx_step e s) ec es"

text \<open>
  An expiry does not look at the old \<open>indicate_seq\<close> when a frame waits, except to count losses.
\<close>

lemma rx_timer_refines_any:
  assumes ok: "rx_running pk e (c\<lparr>indicate_seq := sn (fst wq)\<rparr>) wq"
    and any: "snd wq = [] \<longrightarrow> indicate_seq c = sn (fst wq)"
    and win: "win_timeout wq = (wq', d)"
  shows "\<exists>e' c'. reorder_timer_fires e c = Some (e', c') \<and> rx_running pk e' c' wq' \<and> rx_static e e' \<and>
     os_rx e' = os_rx e @ map pk d"
proof -
  let ?c1 = "c\<lparr>reordering_ctrl_timer := False, bReorderWaiting := 0\<rparr>"
  let ?e1 = "e\<lparr>dbg_rx_ampdu_forced_indicate_count := dbg_rx_ampdu_forced_indicate_count e + 1\<rparr>"
  have c: "win_ok 64 wq" "holds pk e (pending_recvframe_queue c) (snd wq)" "\<not> cannot_run e"
      "mset (free_recv_queue e @ pending_recvframe_queue c) = mset [0..<NR_RECVFRAME]"
    using ok by (auto simp: rx_running_def win_rel_def)
  have dist: "distinct (free_recv_queue e @ pending_recvframe_queue c)"
    using mset_eq_imp_distinct_iff [OF c(4)] by simp
  show ?thesis
  proof (cases "snd wq")
    case Nil
    then have "pending_recvframe_queue c = []" "indicate_seq c = sn (fst wq)" using c(2) any by (simp_all add: holds_def)
    moreover have "wq' = wq" "d = []" using win Nil by (simp_all add: win_timeout_def)
    moreover have "holds pk ?e1 [] []" by (simp add: holds_def)
    ultimately show ?thesis
      using ok Nil by (auto simp: reorder_timer_fires_def rtw_reordering_ctrl_timeout_handler_def c(3)
          recv_indicatepkts_in_order_def rx_running_def win_rel_def timer_ok_def rx_static_def)
  next
    case (Cons p ps)
    obtain w' ps' where wq': "wq' = (w', ps')" by fastforce
    have winr: "win_run p (p # ps) = ((w', ps'), d)" using win Cons wq' by (simp add: win_timeout_def)
    obtain i q where iq: "pending_recvframe_queue c = i # q" "rseq e i = sn p"
      using c(2) Cons by (auto simp: holds_def list_all2_Cons2)
    define e2 where "e2 = recv_indicatepkts_pkt_loss_cnt ?e1 (ucast (indicate_seq c)) (ucast (sn p))"
    have st2: "rx_static e e2" by (simp add: e2_def rx_static_def recv_indicatepkts_pkt_loss_cnt_def)
    have same2: "rframe e2 j = rframe e j" for j by (simp add: e2_def rframe_def recv_indicatepkts_pkt_loss_cnt_def)
    have os2: "os_rx e2 = os_rx e" "free_recv_queue e2 = free_recv_queue e"
      by (simp_all add: e2_def recv_indicatepkts_pkt_loss_cnt_def)
    define c2 where "c2 = ?c1\<lparr>indicate_seq := sn p\<rparr>"
    have c2: "indicate_seq c2 = sn p" "pending_recvframe_queue c2 = pending_recvframe_queue c"
      by (simp_all add: c2_def)
    have sorted: "sorted_wrt (<) (p # ps)" and near: "\<forall>x \<in> set (p # ps). fst wq < x \<and> x < fst wq + 64"
      using c(1) Cons by (auto simp: win_ok_def)
    then have near1: "\<forall>x \<in> set (p # ps). p < x + 2048 \<and> x \<le> p + 2048" by fastforce
    have h2: "holds pk e2 (pending_recvframe_queue c2) (p # ps)"
      using c(2) Cons c2(2) by (subst holds_same [OF st2 same2]) simp
    have run2: "\<not> cannot_run e2" using st2 c(3) by (simp add: rx_static_def)
    have dist2: "distinct (free_recv_queue e2 @ pending_recvframe_queue c2)" using dist os2 c2 by simp
    obtain e' q' where io: "recv_indicatepkts_in_order e2 c2 False =
            Some (e', c2\<lparr>indicate_seq := sn w', pending_recvframe_queue := q'\<rparr>, q' \<noteq> [])"
          "holds pk e' q' ps'" "rx_static e2 e'" "os_rx e' = os_rx e2 @ map pk d"
          "mset (free_recv_queue e' @ q') = mset (free_recv_queue e2 @ pending_recvframe_queue c2)"
      using in_order_refines [OF c2(1) h2 sorted near1 run2 dist2 winr] by metis
    have "rseq ?e1 i = rseq e i" by (simp add: rseq_def rframe_def)
    then have forced: "recv_indicatepkts_in_order e ?c1 True = recv_indicatepkts_in_order e2 c2 False"
      by (simp add: recv_indicatepkts_in_order_def Let_def iq e2_def c2_def del: indicate_loop.simps)
    define c' where "c' = (let c = c2\<lparr>indicate_seq := sn w', pending_recvframe_queue := q'\<rparr>
        in if q' \<noteq> [] then c\<lparr>reordering_ctrl_timer := True\<rparr> else c)"
    have "reorder_timer_fires e c = Some (e', c')"
      using forced io(1) by (simp add: reorder_timer_fires_def rtw_reordering_ctrl_timeout_handler_def c(3) c'_def Let_def)
    moreover have "rx_static e e'" using rx_static_trans [OF st2 io(3)] .
    moreover have "win_ok 64 (w', ps')" using win_timeout_props(1) [of 64 "fst wq" "snd wq" w' ps' d] c(1) win wq' by simp
    moreover have "indicate_seq c' = sn w'" "wsize_b c' = 64" "ro_enable c' \<noteq> 0" "pending_recvframe_queue c' = q'"
        "timer_ok c'"
      using ok by (simp_all add: c'_def c2_def Let_def rx_running_def win_rel_def timer_ok_def)
    ultimately show ?thesis
      using ok io os2 c2(2) wq' by (auto simp: rx_running_def win_rel_def rx_static_def)
  qed
qed

lemma rx_timer_refines:
  assumes "rx_running pk e c wq" and "win_timeout wq = (wq', d)"
  shows "\<exists>e' c'. reorder_timer_fires e c = Some (e', c') \<and> rx_running pk e' c' wq' \<and> rx_static e e' \<and>
     os_rx e' = os_rx e @ map pk d"
proof (rule rx_timer_refines_any [OF _ _ assms(2)])
  have "indicate_seq c = sn (fst wq)" using assms(1) by (auto simp: rx_running_def win_rel_def)
  then show "rx_running pk e (c\<lparr>indicate_seq := sn (fst wq)\<rparr>) wq"
    using assms(1) by (simp add: rx_running_def win_rel_def timer_ok_def split: prod.splits)
  show "snd wq = [] \<longrightarrow> indicate_seq c = sn (fst wq)" using \<open>indicate_seq c = sn (fst wq)\<close> by simp
qed

text \<open>
  A run of the driver against a run of the abstract buffer: each arrival is a frame of the
  position named by the abstract event, less than half the number space away from the window.
\<close>

fun rx_matches :: "(nat \<Rightarrow> bytes) \<Rightarrow> rx_env \<Rightarrow> rx_event list \<Rightarrow> win_event list \<Rightarrow> window \<Rightarrow> bool" where
  "rx_matches pk e [] [] wq = True"
| "rx_matches pk e (Rx_arrive f # es) (Win_recv s # ws) wq =
     (frame_at pk e f s \<and> s < fst wq + 2048 \<and> fst wq \<le> s + 2048 \<and>
      rx_matches pk e es ws (fst (win_recv 64 s wq)))"
| "rx_matches pk e (Rx_timer # es) (Win_timeout # ws) wq = rx_matches pk e es ws (fst (win_timeout wq))"
| "rx_matches pk e _ _ wq = False"

lemma frame_at_static: "rx_static e e' \<Longrightarrow> frame_at pk e' f s = frame_at pk e f s"
  using rx_inspect_static [of e e'] by (simp add: frame_at_def)

lemma rx_matches_static: "rx_static e e' \<Longrightarrow> rx_matches pk e' es ws wq = rx_matches pk e es ws wq"
  by (induction pk e es ws wq rule: rx_matches.induct) (simp_all add: frame_at_static)

lemma rx_step_refines:
  assumes "rx_running pk e c wq" and "rx_matches pk e (ev # es) (wv # ws) wq" and "win_step 64 wv wq = (wq', d)"
  shows "\<exists>e' c'. rx_step ev (e, c) = Some (e', c') \<and> rx_running pk e' c' wq' \<and> rx_static e e' \<and>
     os_rx e' = os_rx e @ map pk d \<and> rx_matches pk e es ws wq'"
proof (cases ev)
  case (Rx_arrive f)
  then obtain s where "wv = Win_recv s" using assms(2) by (cases wv) auto
  then show ?thesis
    using Rx_arrive assms rx_arrive_refines [OF assms(1), of f s wq' d] by auto
next
  case Rx_timer
  then have wv: "wv = Win_timeout" using assms(2) by (cases wv) auto
  show ?thesis
  proof (cases "reordering_ctrl_timer c")
    case True
    then show ?thesis using Rx_timer wv assms rx_timer_refines [OF assms(1), of wq' d] by auto
  next
    case False
    then have "pending_recvframe_queue c = []" using assms(1) by (auto simp: rx_running_def win_rel_def timer_ok_def)
    then have "snd wq = []" using assms(1) by (simp add: rx_running_def win_rel_def holds_def)
    then have "wq' = wq" "d = []" using wv assms(3) by (simp_all add: win_timeout_def)
    then show ?thesis using Rx_timer wv False assms by simp
  qed
qed

lemma rx_run_refines:
  assumes "rx_running pk e c wq" and "rx_matches pk e es ws wq" and "win_steps 64 ws wq = (wq', d)"
  shows "\<exists>e' c'. rx_run es (e, c) = Some (e', c') \<and> rx_running pk e' c' wq' \<and> os_rx e' = os_rx e @ map pk d"
  using assms
proof (induction es arbitrary: e c ws wq d)
  case Nil
  then have "ws = []" by (cases ws) auto
  then show ?case using Nil by (simp add: rx_run_def)
next
  case (Cons ev es)
  obtain wv ws1 where ws: "ws = wv # ws1" using Cons.prems(2) by (cases ws; cases ev) auto
  obtain wq1 d1 where s: "win_step 64 wv wq = (wq1, d1)" by fastforce
  obtain d2 where t: "win_steps 64 ws1 wq1 = (wq', d2)" and d: "d = d1 @ d2"
    using Cons.prems(3) ws s by (auto split: prod.splits)
  obtain e1 c1 where one: "rx_step ev (e, c) = Some (e1, c1)" "rx_running pk e1 c1 wq1" "rx_static e e1"
      "os_rx e1 = os_rx e @ map pk d1" "rx_matches pk e es ws1 wq1"
    using rx_step_refines [OF Cons.prems(1) Cons.prems(2) [unfolded ws] s] by blast
  have "rx_matches pk e1 es ws1 wq1" using one(5) rx_matches_static [OF one(3)] by blast
  from Cons.IH [OF one(2) this t] show ?case
    using one d by (auto simp: rx_run_def)
qed

end
