(* ===== verification/Rx_Order.thy ===== *)
theory Rx_Order
  imports Rx_Reorder
begin

text \<open>
  What the reorder buffer of the driver guarantees, stated over runs of arrivals and timer
  expiries: order, completeness inside a window, conservation of the frame pool, and release
  of every waiting frame by the timer; and what an ADDBA exchange breaks.
\<close>

section \<open>A sample session\<close>

definition data_frame_ex :: "nat \<Rightarrow> recv_frame" where
  "data_frame_ex s = frame_ex ((pa_ex 0)\<lparr>pa_seq_num := sn s\<rparr>)
     (replicate 24 9 @ rtw_rfc1042_header @ [8, 0, of_nat s])"

definition pk_ex :: "nat \<Rightarrow> bytes" where
  "pk_ex s = [1, 1, 1, 1, 1, 1, 2, 2, 2, 2, 2, 2, 8, 0, of_nat s]"

definition env_ex :: rx_env where
  "env_ex = \<lparr>rx_adapter = st_ex, rx_wfd = wfd_ex, rx_mem_ok = True, msdu_ok = (\<lambda>_. True),
     precv_frame_buf = replicate NR_RECVFRAME (data_frame_ex 0), free_recv_queue = [0..<NR_RECVFRAME],
     free_recvframe_cnt = 256, cannot_run = False, mp_state = False, ht_option = True, os_rx = [],
     st_cmd_q = [], dbg_rx_ampdu_drop_count = 0, dbg_rx_ampdu_forced_indicate_count = 0,
     dbg_rx_ampdu_loss_count = 0, dbg_rx_ampdu_window_shift_cnt = 0\<rparr>"

definition ctrl_ex :: "nat \<Rightarrow> reorder_st" where
  "ctrl_ex w = \<lparr>ro_enable = 1, indicate_seq = sn w, wend_b = 0xffff, wsize_b = 64, ampdu_size = 64,
     pending_recvframe_queue = [], bReorderWaiting = 0, reordering_ctrl_timer = False\<rparr>"

lemma running_ex: "rx_running pk env_ex (ctrl_ex w) (w, [])"
  by (simp add: rx_running_def win_rel_def env_ex_def ctrl_ex_def win_ok_def holds_def timer_ok_def)

lemma frame_at_ex: "frame_at pk_ex e (data_frame_ex s) s"
proof -
  let ?msdu = "rtw_rfc1042_header @ [8, 0, of_nat s]"
  let ?p = "replicate 24 9 @ ?msdu"
  have v: "rx_view (data_frame_ex s) [] ?p []"
    unfolding data_frame_ex_def by (rule frame_ex_view) (simp add: rtw_rfc1042_header_def)
  have a: "rf_attrib (data_frame_ex s) = (pa_ex 0)\<lparr>pa_seq_num := sn s\<rparr>" "rf_psta (data_frame_ex s) = None"
    by (simp_all add: data_frame_ex_def frame_ex_def)
  have "data_frame (data_frame_ex s) (replicate 24 9) [] ?msdu []"
    using rx_view_ok [OF v] rx_view_payload [OF v]
    by (simp add: data_frame_def a) (simp add: pa_ex_def ETH_ALEN_def)
  moreover have "eth_tail ?msdu = [8, 0, of_nat s]"
    by (simp add: eth_tail_def msdu_snap_def rtw_rfc1042_header_def SNAP_ETH_TYPE_IPX_def
        SNAP_ETH_TYPE_APPLETALK_AARP_def)
  ultimately have "eth_packet (data_frame_ex s) = Some (pk_ex s)"
    using wlanhdr_data_frame [of "data_frame_ex s" "replicate 24 9" "[]" ?msdu "[]"]
    by (auto simp: eth_packet_def a pa_ex_def pk_ex_def rtw_rfc1042_header_def)
  then show ?thesis by (simp add: frame_at_def a) (simp add: pa_ex_def rx_inspect_def)
qed

section \<open>Order\<close>

text \<open>
  C17: Whatever frames of an enabled session arrive and whenever its timer expires, as long as
  no frame is half the sequence space away from the window: no step reads or writes outside a
  buffer, and the packets passed up are exactly those that the abstract reorder buffer
  releases, in strictly increasing order of position, so none is passed up twice.
\<close>

theorem reorder_in_order:
  assumes "rx_running pk e c wq" and "rx_matches pk e es ws wq" and "win_steps 64 ws wq = (wq', d)"
  shows "\<exists>e' c'. rx_run es (e, c) = Some (e', c') \<and> rx_running pk e' c' wq' \<and>
     os_rx e' = os_rx e @ map pk d \<and> sorted_wrt (<) d \<and> set d \<subseteq> {fst wq..<fst wq'}"
  using rx_run_refines [OF assms] win_steps_order [OF _ _ assms(3)] assms(1)
  by (auto simp: rx_running_def win_rel_def)

theorem reorder_in_order_witness:
  "\<exists>e' c'. rx_run [Rx_arrive (data_frame_ex 4096), Rx_arrive (data_frame_ex 4095), Rx_timer]
     (env_ex, ctrl_ex 4095) = Some (e', c') \<and> os_rx e' = [pk_ex 4095, pk_ex 4096]"
proof -
  have w: "win_steps 64 [Win_recv 4096, Win_recv 4095, Win_timeout] (4095, []) = ((4097, []), [4095, 4096])"
    by (simp add: win_recv_def win_shift_def win_timeout_def)
  have "rx_matches pk_ex env_ex [Rx_arrive (data_frame_ex 4096), Rx_arrive (data_frame_ex 4095), Rx_timer]
      [Win_recv 4096, Win_recv 4095, Win_timeout] (4095, [])"
    by (simp add: frame_at_ex win_recv_def win_shift_def)
  from reorder_in_order [OF running_ex this w] show ?thesis by (auto simp: env_ex_def)
qed

text \<open>Arrivals inside one window match the abstract events.\<close>

lemma matches_inside:
  assumes "win_ok 64 (v, q)" and "w \<le> v" and "v \<le> w + 64" and "\<forall>s \<in> set ss. w \<le> s \<and> s < w + 64"
    and "\<forall>x \<in> set q. x < w + 64" and "\<And>s. s \<in> set ss \<Longrightarrow> frame_at pk e (fr s) s"
  shows "rx_matches pk e (map (\<lambda>s. Rx_arrive (fr s)) ss) (map Win_recv ss) (v, q)"
  using assms
proof (induction ss arbitrary: v q)
  case Nil
  then show ?case by simp
next
  case (Cons s ss)
  obtain v1 q1 d1 where st: "win_recv 64 s (v, q) = ((v1, q1), d1)" by (metis surj_pair)
  note p = win_recv_props [OF Cons.prems(1) _ st, simplified]
  have lim: "x < w + 64" if "x \<in> set d1 \<union> set q1" for x
    using that p(5) Cons.prems(4,5) by (auto split: if_splits)
  have "v1 \<le> w + 64"
  proof (cases "v1 = v")
    case True
    then show ?thesis using Cons.prems(3) by simp
  next
    case False
    have s: "w \<le> s" "s < w + 64" using Cons.prems(4) by auto
    show ?thesis
    proof (cases "s < v \<or> s \<in> set q")
      case True
      then have "v1 = v"
        using st Cons.prems(1) by (auto simp: win_recv_def win_shift_def win_ok_def)
      then show ?thesis using False by simp
    next
      case out: False
      then have "set d1 = {v..<v1}"
        using win_recv_inside [OF Cons.prems(1) _ _ _ st] s Cons.prems(2) by simp
      then have "v1 - 1 \<in> set d1" using False p(2) by auto
      then show ?thesis using lim by force
    qed
  qed
  moreover have "rx_matches pk e (map (\<lambda>s. Rx_arrive (fr s)) ss) (map Win_recv ss) (v1, q1)"
    using calculation p(1,2) Cons.prems lim by (intro Cons.IH) auto
  ultimately show ?case using Cons.prems st by auto
qed

text \<open>
  C18: Up to 64 consecutive frames that arrive in any order are all passed up, in sequence,
  and nothing is left waiting.
\<close>

theorem reorder_restores_order:
  assumes "rx_running pk e c (w, [])" and "m \<le> 64" and "set ss = {w..<w + m}" and "distinct ss"
    and "\<And>s. s \<in> set ss \<Longrightarrow> frame_at pk e (fr s) s"
  shows "\<exists>e' c'. rx_run (map (\<lambda>s. Rx_arrive (fr s)) ss) (e, c) = Some (e', c') \<and>
     os_rx e' = os_rx e @ map pk [w..<w + m] \<and> pending_recvframe_queue c' = []"
proof -
  have "rx_matches pk e (map (\<lambda>s. Rx_arrive (fr s)) ss) (map Win_recv ss) (w, [])"
    using assms by (intro matches_inside [where w = w]) (auto simp: win_ok_def)
  from rx_run_refines [OF assms(1) this win_steps_permutation [OF assms(3,4,2)]]
  show ?thesis by (auto simp: rx_running_def win_rel_def holds_def)
qed

theorem reorder_restores_order_witness:
  "\<exists>e' c'. rx_run (map (\<lambda>s. Rx_arrive (data_frame_ex s)) [2, 0, 1]) (env_ex, ctrl_ex 0) = Some (e', c') \<and>
     os_rx e' = [pk_ex 0, pk_ex 1, pk_ex 2]"
proof -
  have "set [2, 0, 1] = {0..<0 + 3 :: nat}" by auto
  from reorder_restores_order [OF running_ex _ this _ frame_at_ex]
  obtain e' c' where r: "rx_run (map (\<lambda>s. Rx_arrive (data_frame_ex s)) [2, 0, 1]) (env_ex, ctrl_ex 0) = Some (e', c')"
      "os_rx e' = os_rx env_ex @ map pk_ex [0..<0 + 3]" by fastforce
  have "[0..<0 + 3] = [0, 1, 2 :: nat]" by (simp add: upt_rec)
  then have "os_rx e' = [pk_ex 0, pk_ex 1, pk_ex 2]" using r(2) by (simp add: env_ex_def)
  then show ?thesis using r(1) by blast
qed

text \<open>
  C19: Frames that wait for a missing one are never stuck: while any waits the timer is armed,
  and each expiry passes up at least the first of them, so that as many expiries as frames
  empty the queue, in order.
\<close>

theorem reorder_timer_drains:
  assumes "rx_running pk e c (w, q)" and "length q \<le> n"
  shows "(pending_recvframe_queue c = [] \<or> reordering_ctrl_timer c) \<and>
     (\<exists>e' c'. rx_run (replicate n Rx_timer) (e, c) = Some (e', c') \<and> pending_recvframe_queue c' = [] \<and>
        os_rx e' = os_rx e @ map pk q)"
proof -
  have armed: "pending_recvframe_queue c = [] \<or> reordering_ctrl_timer c"
    using assms(1) by (auto simp: rx_running_def win_rel_def timer_ok_def)
  have run: "\<exists>w'. win_steps 64 (replicate n Win_timeout) (w, q) = ((w', []), q)"
    if "win_ok 64 (w, q)" "length q \<le> n" for w q
    using that
  proof (induction n arbitrary: w q)
    case 0
    then show ?case by simp
  next
    case (Suc n)
    obtain w1 q1 d1 where t: "win_timeout (w, q) = ((w1, q1), d1)" by (metis surj_pair)
    note p = win_timeout_props [OF Suc.prems(1) t]
    have "length q1 \<le> n" using p(5,6) Suc.prems(2) by (cases d1) auto
    then obtain w' where "win_steps 64 (replicate n Win_timeout) (w1, q1) = ((w', []), q1)"
      using Suc.IH [OF p(1)] by blast
    then show ?case using t p(5) by simp
  qed
  have match: "rx_matches pk e (replicate n Rx_timer) (replicate n Win_timeout) wq" for wq
    by (induction n arbitrary: wq) auto
  have ok: "win_ok 64 (w, q)" using assms(1) by (simp add: rx_running_def win_rel_def)
  obtain w' where w': "win_steps 64 (replicate n Win_timeout) (w, q) = ((w', []), q)"
    using run [OF ok assms(2)] by blast
  from rx_run_refines [OF assms(1) match w']
  show ?thesis using armed by (auto simp: rx_running_def win_rel_def holds_def)
qed

text \<open>One frame waits behind a gap.\<close>

definition gap_ex :: "rx_env \<times> reorder_st" where
  "gap_ex = the (rx_arrive (data_frame_ex 5) (env_ex, ctrl_ex 4))"

lemma gap_ex_running: "rx_running pk_ex (fst gap_ex) (snd gap_ex) (4, [5])" "os_rx (fst gap_ex) = []"
proof -
  have "win_recv 64 5 (4, []) = ((4, [5]), [])" by (simp add: win_recv_def win_shift_def)
  from rx_arrive_refines [where f = "data_frame_ex 5", OF running_ex frame_at_ex _ _ this]
  obtain e' c' where "rx_arrive (data_frame_ex 5) (env_ex, ctrl_ex 4) = Some (e', c')"
      "rx_running pk_ex e' c' (4, [5])" "os_rx e' = os_rx env_ex @ map pk_ex []" by auto
  then show "rx_running pk_ex (fst gap_ex) (snd gap_ex) (4, [5])" "os_rx (fst gap_ex) = []"
    by (simp_all add: gap_ex_def env_ex_def)
qed

theorem reorder_timer_drains_witness:
  "reordering_ctrl_timer (snd gap_ex) \<and>
   (\<exists>e' c'. rx_run [Rx_timer] gap_ex = Some (e', c') \<and> os_rx e' = [pk_ex 5])"
proof -
  have "pending_recvframe_queue (snd gap_ex) \<noteq> []"
    using gap_ex_running(1) by (auto simp: rx_running_def win_rel_def holds_def)
  then show ?thesis
    using reorder_timer_drains [OF gap_ex_running(1), of 1] gap_ex_running(2) by auto
qed



section \<open>A new agreement with frames still waiting\<close>

text \<open>
  C21: \<open>add_ba_rsp_hdl\<close> resets the window but leaves the queue and the timer. When a frame of
  the old agreement still waits, the next expiry moves the window to just after that old
  frame, and every frame of the new agreement whose number lies in the half of the sequence
  space behind it is dropped.
\<close>

theorem addba_keeps_stale_frames:
  assumes "rx_running pk e c (w, [p])" and "p + 2049 \<le> s" and "s \<le> p + 4096"
  shows "\<exists>e' c'. reorder_timer_fires e (add_ba_rsp_ctrl 0 sz c) = Some (e', c') \<and>
     indicate_seq c' = sn (p + 1) \<and> check_indicate_seq e' c' (sn s) = (e', c', False)"
proof -
  let ?c = "add_ba_rsp_ctrl 0 sz c"
  have k: "rx_running pk e (?c\<lparr>indicate_seq := sn (fst (w, [p]))\<rparr>) (w, [p])" using assms(1)
    by (simp add: add_ba_rsp_ctrl_def rx_running_def win_rel_def timer_ok_def)
  have x: "snd (w, [p]) = [] \<longrightarrow> indicate_seq ?c = sn (fst (w, [p]))" by simp
  have "win_timeout (w, [p]) = ((p + 1, []), [p])" by (simp add: win_timeout_def)
  from rx_timer_refines_any [OF k x this]
  obtain e' c' where t: "reorder_timer_fires e ?c = Some (e', c')" "rx_running pk e' c' (p + 1, [])" by blast
  have i: "indicate_seq c' = sn (p + 1)" using t(2) by (simp add: rx_running_def win_rel_def)
  have "sn (p + 1) = sn (p + 1 + 4096)" by (simp only: sn_eq_iff mod_add_self2)
  then have "SN_LESS (sn s) (sn (p + 1))"
    using SN_LESS_sn [of s "p + 1 + 4096"] assms(2,3) by simp
  moreover have "sn (p + 1) \<noteq> 0xFFFF"
  proof
    assume "sn (p + 1) = 0xFFFF"
    then have "unat (sn (p + 1)) = 65535" by simp
    then show False using mod_less_divisor [of 4096 "p + 1"] by (simp del: mod_less_divisor)
  qed
  ultimately show ?thesis using t(1) i by (auto simp: check_indicate_seq_def Let_def)
qed

theorem addba_keeps_stale_frames_witness:
  "\<exists>e' c'. reorder_timer_fires (fst gap_ex) (add_ba_rsp_ctrl 0 64 (snd gap_ex)) = Some (e', c') \<and>
     check_indicate_seq e' c' (sn 3000) = (e', c', False)"
  using addba_keeps_stale_frames [OF gap_ex_running(1), of 3000 64] by auto

end
