(* ===== verification/Rx_Valid.thy ===== *)
theory Rx_Valid
  imports Sec_Ccmp Sec_Tkip Sec_Michael Sta_Table Rx_Order
begin

text \<open>
  The first stage of the receive path (\<open>validate_recv_frame\<close> and the routines it calls,
  \<open>core/rtw_recv.c\<close>): the fields of the 802.11 header, the filters by direction
  (\<open>sta2sta_data_frame\<close>, \<open>ap2sta_data_frame\<close>, \<open>sta2ap_data_frame\<close>), the power
  save bits, the cache of duplicates, and the choice of the cipher. The state gathers what the
  receive path reads and writes outside the pool of frames. Management and control frames go to
  other components: here they leave an entry in \<open>drv_calls\<close>.
\<close>

section \<open>State\<close>

record rx_security = security_priv +
  dot11AuthAlgrthm :: u32
  dot11PrivacyAlgrthm :: u32
  dot118021XGrpPrivacy :: u32
  dot118021XGrprxmickey :: "bytes list"
  busetkipkey :: u8
  sw_decrypt :: u8
  hw_decrypted :: u8
  bcheck_grpkey :: u8
  ndisauthtype :: u32

record rx_path =
  rp_env :: rx_env
  rp_sec :: rx_security
  fw_state :: u32
  cur_bssid :: bytes
  mlmeinfo_key_index :: u32
  bRTWSmbCfg :: u8
  send_issue_deauth_time :: u32
  rp_hz :: u32
  rp_now :: u32
  bIsAnyNonBEPkts :: u8
  recv_rx_bytes :: u64
  recv_rx_drop :: u64
  NumRxOkInPeriod :: u32
  NumRxUnicastOkInPeriod :: u32
  rx_crc :: crc_globals
  rx_message :: bytes
  rx_micdata :: mic_data
  uc_swdec_pending_queue :: "nat list"
  armed_reorder_timers :: "(nat \<times> nat) set"

abbreviation rp_adapter :: "rx_path \<Rightarrow> adapter" where
  "rp_adapter s \<equiv> rx_adapter (rp_env s)"

abbreviation rp_sp :: "rx_path \<Rightarrow> sta_priv" where
  "rp_sp s \<equiv> stapriv (rp_adapter s)"

definition on_rp_env :: "(rx_env \<Rightarrow> rx_env) \<Rightarrow> rx_path \<Rightarrow> rx_path" where
  "on_rp_env h s = s\<lparr>rp_env := h (rp_env s)\<rparr>"

definition on_rp_adapter :: "(adapter \<Rightarrow> adapter) \<Rightarrow> rx_path \<Rightarrow> rx_path" where
  "on_rp_adapter h = on_rp_env (\<lambda>e. e\<lparr>rx_adapter := h (rx_adapter e)\<rparr>)"

definition WIFI_SLEEP_STATE :: u32 where "WIFI_SLEEP_STATE = 0x4"
definition WIFI_STATION_STATE :: u32 where "WIFI_STATION_STATE = 0x8"
definition WIFI_ADHOC_STATE :: u32 where "WIFI_ADHOC_STATE = 0x20"
definition WIFI_ADHOC_MASTER_STATE :: u32 where "WIFI_ADHOC_MASTER_STATE = 0x40"
definition WIFI_UNDER_LINKING :: u32 where "WIFI_UNDER_LINKING = 0x80"
definition WIFI_MP_STATE :: u32 where "WIFI_MP_STATE = 0x10000"
definition WIFI_MONITOR_STATE :: u32 where "WIFI_MONITOR_STATE = 0x80000000"
definition WIFI_MGT_TYPE :: u32 where "WIFI_MGT_TYPE = 0"
definition WIFI_CTRL_TYPE :: u32 where "WIFI_CTRL_TYPE = 0x4"
definition WIFI_DATA_TYPE :: u32 where "WIFI_DATA_TYPE = 0x8"
definition WIFI_QOS_DATA_TYPE :: u32 where "WIFI_QOS_DATA_TYPE = 0x88"

definition check_fwstate :: "rx_path \<Rightarrow> u32 \<Rightarrow> bool" where
  "check_fwstate s st \<longleftrightarrow> fw_state s AND st \<noteq> 0"

datatype rx_ret = RX_FAIL | RX_SUCCESS | RX_HANDLED

section \<open>Header fields\<close>

definition GetToDs :: "bytes \<Rightarrow> bool" where "GetToDs p \<longleftrightarrow> frame_ctl p AND 0x100 \<noteq> 0"
definition GetFrDs :: "bytes \<Rightarrow> bool" where "GetFrDs p \<longleftrightarrow> frame_ctl p AND 0x200 \<noteq> 0"
definition GetMFrag :: "bytes \<Rightarrow> bool" where "GetMFrag p \<longleftrightarrow> frame_ctl p AND 0x400 \<noteq> 0"
definition GetPwrMgt :: "bytes \<Rightarrow> bool" where "GetPwrMgt p \<longleftrightarrow> frame_ctl p AND 0x1000 \<noteq> 0"
definition GetMData :: "bytes \<Rightarrow> bool" where "GetMData p \<longleftrightarrow> frame_ctl p AND 0x2000 \<noteq> 0"
definition GetPrivacy :: "bytes \<Rightarrow> bool" where "GetPrivacy p \<longleftrightarrow> frame_ctl p AND 0x4000 \<noteq> 0"
definition GetOrder :: "bytes \<Rightarrow> bool" where "GetOrder p \<longleftrightarrow> frame_ctl p AND 0x8000 \<noteq> 0"

definition get_tofr_ds :: "bytes \<Rightarrow> u8" where
  "get_tofr_ds p = (if GetToDs p then 2 else 0) OR (if GetFrDs p then 1 else 0)"

definition GetSequence :: "bytes \<Rightarrow> u16" where "GetSequence p = drop_bit 4 (le16_val (drop 22 p))"
definition GetFragNum :: "bytes \<Rightarrow> u8" where "GetFragNum p = ucast (le16_val (drop 22 p) AND 0x0f)"

text \<open>Of the QoS control field, given as its two bytes.\<close>

definition GetPriority :: "bytes \<Rightarrow> u8" where "GetPriority q = ucast (le16_val q AND 0xf)"
definition GetAckpolicy :: "bytes \<Rightarrow> u8" where "GetAckpolicy q = ucast (drop_bit 5 (le16_val q) AND 0x3)"
definition GetAMsdu :: "bytes \<Rightarrow> u8" where "GetAMsdu q = ucast (drop_bit 7 (le16_val q) AND 0x1)"

text \<open>Offsets of the addresses in the header.\<close>

definition get_da :: "u8 \<Rightarrow> int" where "get_da to_fr_ds = (if to_fr_ds = 0 \<or> to_fr_ds = 1 then 4 else 16)"

definition get_sa :: "u8 \<Rightarrow> int" where
  "get_sa to_fr_ds = (if to_fr_ds = 0 then 10 else if to_fr_ds = 1 then 16 else if to_fr_ds = 2 then 10 else 24)"

definition get_hdr_bssid :: "u8 \<Rightarrow> int" where
  "get_hdr_bssid to_fr_ds = (if to_fr_ds = 0 then 16 else if to_fr_ds = 1 then 10 else 4)"

definition b2u8 :: "bool \<Rightarrow> u8" where "b2u8 b = (if b then 1 else 0)"

section \<open>Statistics and power save bits\<close>

definition count_rx_stats :: "rx_path \<Rightarrow> recv_frame \<Rightarrow> nat option \<Rightarrow> rx_path option" where
  "count_rx_stats s f sta =
     (let pa = rf_attrib f;
          sz = ucast (rf_len f);
          s = s\<lparr>recv_rx_bytes := recv_rx_bytes s + sz, NumRxOkInPeriod := NumRxOkInPeriod s + 1,
               NumRxUnicastOkInPeriod :=
                 (if \<not> eth_eq (pa_dst pa) bc_addr \<and> \<not> IS_MCAST (pa_dst pa)
                  then NumRxUnicastOkInPeriod s + 1 else NumRxUnicastOkInPeriod s)\<rparr>;
          psta = (if sta \<noteq> None then sta else rf_psta f)
      in case psta of
           None \<Rightarrow> Some s
         | Some i \<Rightarrow>
             if TID_NUM \<le> unat (pa_priority pa) then None
             else Some (on_rp_adapter (on_stapriv (upd_sta i (\<lambda>p. p\<lparr>sta_stats :=
                 (let st = sta_stats p; tid = unat (pa_priority pa)
                  in st\<lparr>st_rx_data_pkts := st_rx_data_pkts st + 1, st_rx_bytes := st_rx_bytes st + sz,
                        st_rx_data_qos_pkts := (st_rx_data_qos_pkts st)
                          [tid := st_rx_data_qos_pkts st ! tid + 1]\<rparr>)\<rparr>))) s))"

definition process_pwrbit_data :: "rx_path \<Rightarrow> rx_pkt_attrib \<Rightarrow> bytes \<Rightarrow> rx_path" where
  "process_pwrbit_data s pa hdr =
     (case rtw_get_stainfo (rp_sp s) (Some (pa_src pa)) of
        None \<Rightarrow> s
      | Some i \<Rightarrow>
          (let asleep = (st_state (sta_of (rp_sp s) i) AND WIFI_SLEEP_STATE \<noteq> 0)
           in if GetPwrMgt hdr
              then if \<not> asleep then on_rp_adapter (call (Stop_sta_xmit i)) s else s
              else if asleep then on_rp_adapter (call (Wakeup_sta_to_xmit i)) s else s))"

definition process_wmmps_data :: "rx_path \<Rightarrow> rx_pkt_attrib \<Rightarrow> rx_path" where
  "process_wmmps_data s pa =
     (case rtw_get_stainfo (rp_sp s) (Some (pa_src pa)) of
        None \<Rightarrow> s
      | Some i \<Rightarrow>
          (let p = sta_of (rp_sp s) i
           in if qos_option p = 0 \<or> qos_info p AND 0xf = 0 then s
              else if st_state p AND WIFI_SLEEP_STATE \<noteq> 0 then
                let wmmps_ac =
                      (if pa_priority pa = 1 \<or> pa_priority pa = 2 then uapsd_bk p AND 2
                       else if pa_priority pa = 4 \<or> pa_priority pa = 5 then uapsd_vi p AND 2
                       else if pa_priority pa = 6 \<or> pa_priority pa = 7 then uapsd_vo p AND 2
                       else uapsd_be p AND 2)
                in if wmmps_ac \<noteq> 0
                   then if sleepq_ac_len p > 0
                        then on_rp_adapter (call (Xmit_delivery_enabled_frames i)) s
                        else on_rp_adapter (call (Issue_qos_nulldata (hwaddr p) (ucast (pa_priority pa)))) s
                   else s
              else s))"

section \<open>Filters by direction\<close>

text \<open>The result: the state, the frame, the return value and the station found.\<close>

type_synonym rx_filter = "rx_path \<times> recv_frame \<times> rx_ret \<times> nat option"

definition bssid_mismatch :: "rx_path \<Rightarrow> rx_pkt_attrib \<Rightarrow> bool" where
  "bssid_mismatch s pa \<longleftrightarrow> eth_eq (pa_bssid pa) (replicate 6 0) \<or> eth_eq (cur_bssid s) (replicate 6 0) \<or>
     \<not> eth_eq (pa_bssid pa) (cur_bssid s)"

text \<open>In test mode the addresses are taken as they stand in the header.\<close>

definition mp_addresses :: "recv_frame \<Rightarrow> recv_frame option" where
  "mp_addresses f = do {
     a1 \<leftarrow> rx_rd f (rx_data f + 4) 6;
     a2 \<leftarrow> rx_rd f (rx_data f + 10) 6;
     a3 \<leftarrow> rx_rd f (rx_data f + 16) 6;
     Some (f\<lparr>rf_attrib := (rf_attrib f)\<lparr>pa_dst := a1, pa_src := a2, pa_bssid := a3, pa_ra := a1, pa_ta := a2\<rparr>\<rparr>) }"

text \<open>The station of the frame: the broadcast one for a group address, else by \<open>addr\<close>.\<close>

definition rx_station :: "rx_path \<Rightarrow> bool \<Rightarrow> bytes option \<Rightarrow> nat option" where
  "rx_station s bmcast addr =
     (if bmcast then rtw_get_bcmc_stainfo (rp_adapter s) else rtw_get_stainfo (rp_sp s) addr)"

definition found :: "rx_path \<Rightarrow> recv_frame \<Rightarrow> rx_ret \<Rightarrow> nat option \<Rightarrow> rx_filter" where
  "found s f ret psta = (s, f, if psta = None then RX_FAIL else ret, psta)"

definition sta2sta_data_frame :: "rx_path \<Rightarrow> recv_frame \<Rightarrow> rx_filter option" where
  "sta2sta_data_frame s f =
     (let pa = rf_attrib f; bmcast = IS_MCAST (pa_dst pa); myhwaddr = mac_addr (rp_adapter s);
          drop = Some (s, f, RX_FAIL, None)
      in if check_fwstate s WIFI_ADHOC_STATE \<or> check_fwstate s WIFI_ADHOC_MASTER_STATE
         then if eth_eq myhwaddr (pa_src pa) then drop
              else if \<not> eth_eq myhwaddr (pa_dst pa) \<and> \<not> bmcast then drop
              else if bssid_mismatch s pa then drop
              else Some (found s f RX_SUCCESS (rx_station s bmcast (Some (pa_src pa))))
         else if check_fwstate s WIFI_STATION_STATE
         then if \<not> eth_eq (pa_bssid pa) (pa_src pa) then drop
              else Some (found s f RX_SUCCESS (rx_station s bmcast (Some (pa_bssid pa))))
         else if check_fwstate s WIFI_AP_STATE
         then if bmcast
              then if \<not> IS_MCAST (pa_bssid pa) then drop
                   else Some (found s f RX_SUCCESS (rx_station s bmcast None))
              else if \<not> eth_eq (pa_bssid pa) (pa_dst pa) then drop
              else Some (found s f RX_SUCCESS (rx_station s bmcast (Some (pa_src pa))))
         else if check_fwstate s WIFI_MP_STATE
         then do {
           f \<leftarrow> mp_addresses f;
           Some (found s f RX_SUCCESS (rx_station s bmcast (Some (cur_bssid s)))) }
         else Some (found s f RX_FAIL (rx_station s bmcast None)))"

text \<open>The test mode branch that \<open>ap2sta_data_frame\<close> and \<open>sta2ap_data_frame\<close> share.\<close>

definition mp_data_frame :: "rx_path \<Rightarrow> recv_frame \<Rightarrow> rx_filter option" where
  "mp_data_frame s f = do {
     f \<leftarrow> mp_addresses f;
     let f = (if bRTWSmbCfg s = 0 then f\<lparr>rf_attrib := (rf_attrib f)\<lparr>pa_bssid := cur_bssid s\<rparr>\<rparr> else f);
     Some (found s f RX_SUCCESS (rtw_get_stainfo (rp_sp s) (Some (pa_bssid (rf_attrib f))))) }"

definition ap2sta_data_frame :: "rx_path \<Rightarrow> recv_frame \<Rightarrow> bytes \<Rightarrow> rx_filter option" where
  "ap2sta_data_frame s f hdr =
     (let pa = rf_attrib f; bmcast = IS_MCAST (pa_dst pa); myhwaddr = mac_addr (rp_adapter s);
          drop = Some (s, f, RX_FAIL, None)
      in if check_fwstate s WIFI_STATION_STATE \<and> (check_fwstate s FW_LINKED \<or> check_fwstate s WIFI_UNDER_LINKING)
         then if eth_eq myhwaddr (pa_src pa) then drop
              else if \<not> eth_eq myhwaddr (pa_dst pa) \<and> \<not> bmcast then drop
              else if bssid_mismatch s pa
              then Some (if bmcast then s else on_rp_adapter (call (Issue_deauth (pa_bssid pa))) s, f, RX_FAIL, None)
              else
                (case rx_station s bmcast (Some (pa_bssid pa)) of
                   None \<Rightarrow> drop
                 | Some i \<Rightarrow>
                     if GetFrameSubType hdr AND 0x40 \<noteq> 0
                     then map_option (\<lambda>s. (s, f, RX_HANDLED, Some i)) (count_rx_stats s f (Some i))
                     else Some (s, f, RX_SUCCESS, Some i))
         else if check_fwstate s WIFI_MP_STATE \<and> check_fwstate s FW_LINKED then mp_data_frame s f
         else if check_fwstate s WIFI_AP_STATE then Some (s, f, RX_HANDLED, None)
         else if eth_eq myhwaddr (pa_dst pa) \<and> \<not> bmcast
         then
           (let psta = rtw_get_stainfo (rp_sp s) (Some (pa_bssid pa))
            in if psta = None \<and>
                 (rtw_get_passing_time_ms (rp_hz s) (rp_now s) (send_issue_deauth_time s) > 10000 \<or>
                  send_issue_deauth_time s = 0)
               then Some (on_rp_adapter (call (Issue_deauth (pa_bssid pa))) (s\<lparr>send_issue_deauth_time := rp_now s\<rparr>),
                      f, RX_FAIL, psta)
               else Some (s, f, RX_FAIL, psta))
         else drop)"

definition sta2ap_data_frame :: "rx_path \<Rightarrow> recv_frame \<Rightarrow> bytes \<Rightarrow> rx_filter option" where
  "sta2ap_data_frame s f hdr =
     (let pa = rf_attrib f
      in if check_fwstate s WIFI_AP_STATE
         then if \<not> eth_eq (pa_bssid pa) (cur_bssid s) then Some (s, f, RX_FAIL, None)
              else
                (case rtw_get_stainfo (rp_sp s) (Some (pa_src pa)) of
                   None \<Rightarrow> Some (on_rp_adapter (call (Issue_deauth (pa_src pa))) s, f, RX_HANDLED, None)
                 | Some i \<Rightarrow>
                     (let s = process_pwrbit_data s pa hdr;
                          s = (if GetFrameSubType hdr AND WIFI_QOS_DATA_TYPE = WIFI_QOS_DATA_TYPE
                               then process_wmmps_data s pa else s)
                      in if GetFrameSubType hdr AND 0x40 \<noteq> 0
                         then map_option (\<lambda>s. (s, f, RX_HANDLED, Some i)) (count_rx_stats s f (Some i))
                         else Some (s, f, RX_SUCCESS, Some i)))
         else if check_fwstate s WIFI_MP_STATE \<and> check_fwstate s FW_LINKED then mp_data_frame s f
         else if \<not> eth_eq (pa_ra pa) (mac_addr (rp_adapter s)) then Some (s, f, RX_HANDLED, None)
         else Some (on_rp_adapter (call (Issue_deauth (pa_src pa))) s, f, RX_HANDLED, None))"

section \<open>Duplicates and ciphers\<close>

text \<open>\<open>None\<close> is \<open>_FAIL\<close>; otherwise the new cache.\<close>

definition recv_decache :: "rx_pkt_attrib \<Rightarrow> u16 list \<Rightarrow> u16 list option" where
  "recv_decache pa rxseq =
     (let tid = unat (pa_priority pa);
          seq_ctrl = push_bit 4 (pa_seq_num pa) OR (ucast (pa_frag_num pa) AND 0xf)
      in if tid > 15 then None
         else if seq_ctrl = rxseq ! tid then None
         else Some (rxseq[tid := seq_ctrl]))"

definition GET_ENCRY_ALGO :: "rx_security \<Rightarrow> sta_info \<Rightarrow> u8 \<Rightarrow> bool \<Rightarrow> u8" where
  "GET_ENCRY_ALGO sec psta old bmcst =
     (if dot11AuthAlgrthm sec \<in> {0, 1, 3} then ucast (dot11PrivacyAlgrthm sec)
      else if dot11AuthAlgrthm sec = 2
      then if bmcst then ucast (dot118021XGrpPrivacy sec) else ucast (dot118021XPrivacy psta)
      else if dot11AuthAlgrthm sec = 4 then ucast (dot11PrivacyAlgrthm sec)
      else old)"

text \<open>The lengths of the IV and of the ICV.\<close>

definition SET_ICE_IV_LEN :: "u8 \<Rightarrow> u8 \<times> u8" where
  "SET_ICE_IV_LEN e =
     (if e = WEP40 \<or> e = WEP104 then (4, 4) else if e = TKIP then (8, 4) else if e = AES then (8, 8)
      else if e = 6 then (18, 16) else (0, 0))"

definition set_security :: "rx_security \<Rightarrow> sta_info \<Rightarrow> rx_pkt_attrib \<Rightarrow> rx_pkt_attrib" where
  "set_security sec psta pa =
     (if pa_privacy pa \<noteq> 0
      then let e = GET_ENCRY_ALGO sec psta (pa_encrypt pa) (IS_MCAST (pa_ra pa)); (iv, icv) = SET_ICE_IV_LEN e
           in pa\<lparr>pa_encrypt := e, pa_iv_len := iv, pa_icv_len := icv\<rparr>
      else pa\<lparr>pa_encrypt := 0, pa_iv_len := 0, pa_icv_len := 0\<rparr>)"

section \<open>Validation\<close>

text \<open>The addresses of the frame and the filter of its direction.\<close>

definition rx_direction :: "rx_path \<Rightarrow> recv_frame \<Rightarrow> bytes \<Rightarrow> rx_filter option" where
  "rx_direction s f hdr = do {
     let ds = pa_to_fr_ds (rf_attrib f);
     pda \<leftarrow> rx_rd f (rx_data f + get_da ds) 6;
     psa \<leftarrow> rx_rd f (rx_data f + get_sa ds) 6;
     pbssid \<leftarrow> rx_rd f (rx_data f + get_hdr_bssid ds) 6;
     let put = (\<lambda>ra ta. f\<lparr>rf_attrib := (rf_attrib f)
                 \<lparr>pa_dst := pda, pa_src := psa, pa_bssid := pbssid, pa_ra := ra, pa_ta := ta\<rparr>\<rparr>);
     if ds = 0 then sta2sta_data_frame s (put pda psa)
     else if ds = 1 then ap2sta_data_frame s (put pda pbssid) hdr
     else if ds = 2 then sta2ap_data_frame s (put pbssid psa) hdr
     else Some (s, put (take 6 (drop 4 hdr)) (take 6 (drop 10 hdr)), RX_FAIL, None) }"

text \<open>The QoS control field and the length of the header.\<close>

definition rx_qos :: "recv_frame \<Rightarrow> rx_pkt_attrib option" where
  "rx_qos f = do {
     let pa = (rf_attrib f)\<lparr>pa_amsdu := 0, pa_ack_policy := 0\<rparr>;
     pa \<leftarrow> (if pa_qos pa = 1
            then do {
              q \<leftarrow> rx_rd f (rx_data f + 24) 2;
              Some (pa\<lparr>pa_priority := GetPriority q, pa_ack_policy := GetAckpolicy q, pa_amsdu := GetAMsdu q,
                       pa_hdrlen := (if pa_to_fr_ds pa = 3 then 32 else 26)\<rparr>) }
            else Some (pa\<lparr>pa_priority := 0, pa_hdrlen := (if pa_to_fr_ds pa = 3 then 30 else 24)\<rparr>));
     Some (if pa_order pa \<noteq> 0 then pa\<lparr>pa_hdrlen := pa_hdrlen pa + 4\<rparr> else pa) }"

definition validate_recv_data_frame ::
    "rx_path \<Rightarrow> recv_frame \<Rightarrow> bytes \<Rightarrow> (rx_path \<times> recv_frame \<times> rx_ret) option" where
  "validate_recv_data_frame s f hdr = do {
     (s, f, ret, psta) \<leftarrow> rx_direction s f hdr;
     (case (ret, psta) of
        (RX_SUCCESS, Some i) \<Rightarrow> do {
          pa \<leftarrow> rx_qos f;
          let f = f\<lparr>rf_attrib := pa, rf_psta := Some i\<rparr>;
          let s = (if pa_qos pa = 1
                   then s\<lparr>bIsAnyNonBEPkts := b2u8 (pa_priority pa \<noteq> 0 \<and> pa_priority pa \<noteq> 3)\<rparr> else s);
          let p = sta_of (rp_sp s) i;
          (case recv_decache pa (tid_rxseq (sta_recvpriv p)) of
             None \<Rightarrow> Some (s, f, RX_FAIL)
           | Some rxseq \<Rightarrow>
               Some (on_rp_adapter (on_stapriv (upd_sta i (\<lambda>p. p\<lparr>sta_recvpriv :=
                       (sta_recvpriv p)\<lparr>tid_rxseq := rxseq\<rparr>\<rparr>))) s,
                     f\<lparr>rf_attrib := set_security (rp_sec s) p pa\<rparr>, RX_SUCCESS)) }
      | (RX_HANDLED, _) \<Rightarrow> Some (s, f, RX_HANDLED)
      | _ \<Rightarrow> Some (s, f, RX_FAIL)) }"

definition rx_header_attrib :: "bytes \<Rightarrow> rx_pkt_attrib \<Rightarrow> rx_pkt_attrib" where
  "rx_header_attrib hdr pa = pa
     \<lparr>pa_to_fr_ds := get_tofr_ds hdr, pa_frag_num := GetFragNum hdr, pa_seq_num := GetSequence hdr,
      pa_pw_save := b2u8 (GetPwrMgt hdr), pa_mfrag := b2u8 (GetMFrag hdr), pa_mdata := b2u8 (GetMData hdr),
      pa_privacy := b2u8 (GetPrivacy hdr), pa_order := b2u8 (GetOrder hdr)\<rparr>"

definition validate_recv_frame :: "rx_path \<Rightarrow> recv_frame \<Rightarrow> (rx_path \<times> recv_frame \<times> rx_ret) option" where
  "validate_recv_frame s f = do {
     ver \<leftarrow> rx_rd f (rx_data f) 1;
     if ver ! 0 AND 0x3 \<noteq> 0 then Some (s, f, RX_FAIL)
     else do {
       hdr \<leftarrow> rx_rd f (rx_data f) 24;
       let f = f\<lparr>rf_attrib := rx_header_attrib hdr (rf_attrib f)\<rparr>;
       let ty = GetFrameType hdr;
       if ty = WIFI_MGT_TYPE \<or> ty = WIFI_CTRL_TYPE
       then Some (on_rp_adapter (call (Recv_other_frame (unat ty))) s, f, RX_FAIL)
       else if ty = WIFI_DATA_TYPE
       then do {
         let f = f\<lparr>rf_attrib := (rf_attrib f)\<lparr>pa_qos := b2u8 (GetFrameSubType hdr AND 0x80 \<noteq> 0)\<rparr>\<rparr>;
         (s, f, ret) \<leftarrow> validate_recv_data_frame s f hdr;
         Some (if ret = RX_FAIL then s\<lparr>recv_rx_drop := recv_rx_drop s + 1\<rparr> else s, f, ret) }
       else Some (s, f, RX_FAIL) } }"

end
