(* ===== verification/Rx_Secure.thy ===== *)
theory Rx_Secure
  imports Rx_Valid
begin

text \<open>
  The security checks of the receive path (\<open>core/rtw_recv.c\<close>): \<open>decryptor\<close> picks the
  key and runs the software decryption of the cipher, \<open>recvframe_chkmic\<close> checks the Michael
  code of a TKIP frame, and \<open>portctrl\<close> holds back everything but EAPOL while the 802.1X port
  of the sender is blocked. A routine that returns a frame or NULL gives the state with
  \<open>True\<close> or \<open>False\<close>; it frees the frame in the second case.
\<close>

definition rp_frame :: "rx_path \<Rightarrow> nat \<Rightarrow> recv_frame" where
  "rp_frame s i = rframe (rp_env s) i"

definition set_rp_frame :: "nat \<Rightarrow> recv_frame \<Rightarrow> rx_path \<Rightarrow> rx_path" where
  "set_rp_frame i f = on_rp_env (set_rframe i f)"

definition free_rp_frame :: "nat \<Rightarrow> rx_path \<Rightarrow> rx_path" where
  "free_rp_frame i = on_rp_env (rtw_free_recvframe i)"

definition on_rp_sec :: "(rx_security \<Rightarrow> rx_security) \<Rightarrow> rx_path \<Rightarrow> rx_path" where
  "on_rp_sec h s = s\<lparr>rp_sec := h (rp_sec s)\<rparr>"

abbreviation rp_frames :: "rx_path \<Rightarrow> nat" where
  "rp_frames s \<equiv> length (precv_frame_buf (rp_env s))"

lemma rp_frame_set: "i < rp_frames s \<Longrightarrow> rp_frame (set_rp_frame i f s) j = (if j = i then f else rp_frame s j)"
  by (simp add: rp_frame_def set_rp_frame_def on_rp_env_def rframe_set)

lemma set_rp_frame_frames [simp]: "rp_frames (set_rp_frame i f s) = rp_frames s"
  by (simp add: set_rp_frame_def on_rp_env_def set_rframe_def)

lemma set_rp_frame_other [simp]:
  "rx_adapter (rp_env (set_rp_frame i f s)) = rx_adapter (rp_env s)" "rp_sec (set_rp_frame i f s) = rp_sec s"
  "os_rx (rp_env (set_rp_frame i f s)) = os_rx (rp_env s)"
  "free_recv_queue (rp_env (set_rp_frame i f s)) = free_recv_queue (rp_env s)"
  by (simp_all add: set_rp_frame_def on_rp_env_def set_rframe_def)

section \<open>Decryption\<close>

text \<open>The attributes as the cipher routines see them.\<close>

definition cipher_attrib :: "rx_pkt_attrib \<Rightarrow> Sec_Wep.rx_pkt_attrib" where
  "cipher_attrib pa =
     \<lparr>rx_encrypt = pa_encrypt pa, rx_hdrlen = pa_hdrlen pa, rx_iv_len = pa_iv_len pa,
      rx_key_index = pa_key_index pa, rx_ra = pa_ra pa, rx_ta = pa_ta pa\<rparr>"

text \<open>The cipher routines work on the buffer from \<open>rx_data\<close> on.\<close>

definition sw_decrypt_frame :: "rx_path \<Rightarrow> recv_frame \<Rightarrow> (rx_path \<times> recv_frame \<times> bool) option" where
  "sw_decrypt_frame s f =
     (let pa = rf_attrib f; d = nat (rx_data f); mem = drop d (rx_mem f);
          sec = security_priv.truncate (rp_sec s);
          put = (\<lambda>m. f\<lparr>rx_mem := take d (rx_mem f) @ m\<rparr>)
      in if rx_data f < 0 then None
         else if pa_encrypt pa = WEP40 \<or> pa_encrypt pa = WEP104
         then do {
           (g, m, icv) \<leftarrow> rtw_wep_decrypt sec (rx_crc s) (cipher_attrib pa) (rf_len f) mem;
           Some (s\<lparr>rx_crc := g\<rparr>, put m, True) }
         else if pa_encrypt pa = TKIP
         then do {
           (ok, g, m) \<leftarrow> rtw_tkip_decrypt sec (rp_sp s) (rx_crc s) (cipher_attrib pa) (rf_len f) mem;
           Some (s\<lparr>rx_crc := g\<rparr>, put m, ok) }
         else if pa_encrypt pa = AES
         then do {
           (ok, msg, m) \<leftarrow> rtw_aes_decrypt sec (rp_sp s) (rx_message s) (cipher_attrib pa) (rf_len f) mem;
           Some (s\<lparr>rx_message := msg\<rparr>, put m, ok) }
         else Some (s, f, True))"

text \<open>The key index in the IV. The second test never holds: the field has two bits.\<close>

definition rx_iv_key_index :: "rx_path \<Rightarrow> recv_frame \<Rightarrow> recv_frame option" where
  "rx_iv_key_index s f =
     (let pa = rf_attrib f
      in if pa_encrypt pa = 0 then Some f
         else do {
           iv \<leftarrow> rx_rd f (rx_data f + uint (pa_hdrlen pa)) 4;
           let k = drop_bit 6 (iv ! 3) AND 0x3;
           let k = (if k > 4
                    then if pa_encrypt pa = WEP40 \<or> pa_encrypt pa = WEP104
                         then ucast (dot11PrivacyKeyIndex (rp_sec s)) else ucast (dot118021XGrpKeyid (rp_sec s))
                    else k);
           Some (f\<lparr>rf_attrib := pa\<lparr>pa_key_index := k\<rparr>\<rparr>) })"

definition decryptor :: "rx_path \<Rightarrow> nat \<Rightarrow> (rx_path \<times> bool) option" where
  "decryptor s i = do {
     f \<leftarrow> rx_iv_key_index s (rp_frame s i);
     let pa = rf_attrib f;
     (s, f, res) \<leftarrow>
       (if pa_encrypt pa > 0 \<and> (pa_bdecrypted pa = 0 \<or> sw_decrypt (rp_sec s) = 1)
        then sw_decrypt_frame (on_rp_sec (\<lambda>c. c\<lparr>hw_decrypted := 0\<rparr>) s) f
        else if pa_bdecrypted pa = 1 \<and> pa_encrypt pa > 0 \<and> (busetkipkey (rp_sec s) = 1 \<or> pa_encrypt pa \<noteq> TKIP)
        then Some (on_rp_sec (\<lambda>c. c\<lparr>hw_decrypted := 1\<rparr>) s, f, True)
        else Some (s, f, True));
     let s = set_rp_frame i f s;
     if \<not> res then Some (free_rp_frame i s, False)
     else Some (set_rp_frame i (f\<lparr>rf_attrib := (rf_attrib f)\<lparr>pa_bdecrypted := 1\<rparr>\<rparr>) s, True) }"

section \<open>Michael\<close>

text \<open>Whether the stored code is the one computed, and the key index decides about reporting.\<close>

definition chkmic_tkip :: "rx_path \<Rightarrow> recv_frame \<Rightarrow> nat \<Rightarrow> bytes \<Rightarrow> (rx_path \<times> bool) option" where
  "chkmic_tkip s f sta mickey = (if rx_data f < 0 then None else do {
     let pa = rf_attrib f;
     let datalen = rf_len f - ucast (pa_hdrlen pa) - ucast (pa_iv_len pa) - ucast (pa_icv_len pa) - 8;
     let payload = rx_data f + uint (pa_hdrlen pa) + uint (pa_iv_len pa);
     miccode \<leftarrow> rtw_seccalctkipmic (rx_micdata s) mickey (drop (nat (rx_data f)) (rx_mem f))
        (drop (nat payload) (rx_mem f)) (unat datalen) (pa_priority pa);
     pframemic \<leftarrow> rx_rd f (payload + uint datalen) 8;
     if miccode \<noteq> pframemic
     then Some
       (if pa_bdecrypted pa = 1 \<and> \<not> (IS_MCAST (pa_ra pa) \<and> ucast (pa_key_index pa) \<noteq> mlmeinfo_key_index s)
        then on_rp_adapter (call (Handle_tkip_mic_err sta (IS_MCAST (pa_ra pa)))) s else s, False)
     else Some
       (if bcheck_grpkey (rp_sec s) = 0 \<and> IS_MCAST (pa_ra pa)
        then on_rp_sec (\<lambda>c. c\<lparr>bcheck_grpkey := 1\<rparr>) s else s, True) })"

definition recvframe_chkmic :: "rx_path \<Rightarrow> nat \<Rightarrow> (rx_path \<times> bool) option" where
  "recvframe_chkmic s i =
     (let f = rp_frame s i; pa = rf_attrib f; cut = set_rp_frame i (fst (recvframe_pull_tail f 8))
      in if pa_encrypt pa \<noteq> TKIP then Some (s, True)
         else case rtw_get_stainfo (rp_sp s) (Some (pa_ta pa)) of
             None \<Rightarrow> Some (cut s, True)
           | Some sta \<Rightarrow>
               if IS_MCAST (pa_ra pa)
               then if \<not> binstallGrpkey (rp_sec s) then Some (s, False)
                    else do {
                      key \<leftarrow> mem_get (dot118021XGrprxmickey (rp_sec s)) (uint (pa_key_index pa));
                      (s, ok) \<leftarrow> chkmic_tkip s f sta key;
                      Some (cut s, ok) }
               else do {
                 (s, ok) \<leftarrow> chkmic_tkip s f sta (tkiprxmickey (sta_of (rp_sp s) sta));
                 Some (cut s, ok) })"

section \<open>The 802.1X port\<close>

definition LLC_HEADER_SIZE :: int where "LLC_HEADER_SIZE = 6"

definition portctrl :: "rx_path \<Rightarrow> nat \<Rightarrow> (rx_path \<times> bool) option" where
  "portctrl s i =
     (let f = rp_frame s i; pa = rf_attrib f; psta = rtw_get_stainfo (rp_sp s) (Some (pa_ta pa))
      in if dot11AuthAlgrthm (rp_sec s) = 2
         then case psta of
             None \<Rightarrow> Some (s, True)
           | Some sta \<Rightarrow>
               if ieee8021x_blocked (sta_of (rp_sp s) sta) \<noteq> 0
               then do {
                 et \<leftarrow> rx_rd f (rx_data f + uint (pa_hdrlen pa) + uint (pa_iv_len pa) + LLC_HEADER_SIZE) 2;
                 if be16_val et = 0x888e then Some (s, True) else Some (free_rp_frame i s, False) }
               else Some (s, True)
         else Some (s, True))"

end
