(* ===== verification/Rx_Defrag.thy ===== *)
theory Rx_Defrag
  imports Rx_Secure
begin

text \<open>
  Reassembly of fragmented frames (\<open>recvframe_defrag\<close> and \<open>recvframe_chk_defrag\<close>,
  \<open>core/rtw_recv.c\<close>). The fragments of a sender wait in its \<open>defrag_q\<close>; when the last
  one comes their bodies are copied behind the first, whose buffer was sized by
  \<open>rtw_os_alloc_recvframe\<close> (\<open>os_dep/linux/recv_linux.c\<close>). A copy outside that buffer is
  the value \<open>None\<close>.
\<close>

section \<open>The buffer of a frame\<close>

text \<open>
  The bytes received, copied into a new buffer. \<open>skip\<close> is the number of bytes that aligning the
  data to eight bytes takes, from 1 to 8; a packet with a QoS field is moved by six more.
\<close>

definition rtw_os_alloc_recvframe :: "nat \<Rightarrow> rx_pkt_attrib \<Rightarrow> bytes \<Rightarrow> (bytes \<times> int) option" where
  "rtw_os_alloc_recvframe skip pa pdata =
     (let shift_sz = (if pa_qos pa \<noteq> 0 then 6 else 0);
          skb_len = length pdata;
          alloc_sz = (if pa_mfrag pa = 1 \<and> pa_frag_num pa = 0
                      then if skb_len \<le> 1650 then 1664 else skb_len + 14
                      else skb_len + 14);
          start = skip + shift_sz
      in map_option (\<lambda>m. (m, int start)) (mem_wr (replicate alloc_sz 0) start pdata))"

section \<open>Reassembly\<close>

text \<open>The loop over the second to the last fragment. The length of the header is kept in a \<open>u8\<close>.\<close>

fun defrag_loop :: "rx_path \<Rightarrow> nat \<Rightarrow> u8 \<Rightarrow> nat list \<Rightarrow> (rx_path \<times> bool) option" where
  "defrag_loop s i curfragnum [] = Some (s, True)"
| "defrag_loop s i curfragnum (j # q) =
     (if curfragnum \<noteq> pa_frag_num (rf_attrib (rp_frame s j)) then Some (s, False)
      else do {
        let g = rp_frame s j;
        let wlanhdr_offset = pa_hdrlen (rf_attrib g) + pa_iv_len (rf_attrib g);
        let g = fst (recvframe_pull g (uint wlanhdr_offset));
        let s = set_rp_frame j g s;
        let f = rp_frame s i;
        let f = fst (recvframe_pull_tail f (uint (pa_icv_len (rf_attrib f))));
        body \<leftarrow> rx_payload g;
        f \<leftarrow> rx_wr f (rx_tail f) body;
        let f = fst (recvframe_put f (sint (rf_len g)));
        let f = f\<lparr>rf_attrib := (rf_attrib f)\<lparr>pa_icv_len := pa_icv_len (rf_attrib g)\<rparr>\<rparr>;
        defrag_loop (set_rp_frame i f s) i (curfragnum + 1) q })"

text \<open>All frames of the queue but a reassembled first one are freed.\<close>

definition recvframe_defrag :: "rx_path \<Rightarrow> nat list \<Rightarrow> (rx_path \<times> nat option) option" where
  "recvframe_defrag s q =
     (case q of
        [] \<Rightarrow> None
      | i # q \<Rightarrow>
          if pa_frag_num (rf_attrib (rp_frame s i)) \<noteq> 0
          then Some (on_rp_env (rtw_free_recvframe_queue q) (free_rp_frame i s), None)
          else do {
            (s, ok) \<leftarrow> defrag_loop s i 1 q;
            if ok then Some (on_rp_env (rtw_free_recvframe_queue q) s, Some i)
            else Some (on_rp_env (rtw_free_recvframe_queue q) (free_rp_frame i s), None) })"

text \<open>The station whose queue holds the fragments of a frame.\<close>

definition defrag_owner :: "rx_path \<Rightarrow> recv_frame \<Rightarrow> nat option option" where
  "defrag_owner s f =
     (case rtw_get_stainfo (rp_sp s) (Some (pa_ta (rf_attrib f))) of
        Some sta \<Rightarrow> Some (Some sta)
      | None \<Rightarrow> do {
          fc \<leftarrow> rx_rd f (rx_data f) 2;
          if GetFrameType fc \<noteq> WIFI_DATA_TYPE
          then map_option Some (rtw_get_bcmc_stainfo (rp_adapter s))
          else Some None })"

definition sta_defrag_q :: "rx_path \<Rightarrow> nat \<Rightarrow> nat list" where
  "sta_defrag_q s sta = defrag_q (sta_recvpriv (sta_of (rp_sp s) sta))"

definition set_defrag_q :: "nat \<Rightarrow> nat list \<Rightarrow> rx_path \<Rightarrow> rx_path" where
  "set_defrag_q sta q =
     on_rp_adapter (on_stapriv (upd_sta sta (\<lambda>p. p\<lparr>sta_recvpriv := (sta_recvpriv p)\<lparr>defrag_q := q\<rparr>\<rparr>)))"

text \<open>The frame to go on with, after queueing and reassembly.\<close>

definition defrag_queue :: "rx_path \<Rightarrow> nat \<Rightarrow> nat option \<Rightarrow> (rx_path \<times> nat option) option" where
  "defrag_queue s i owner =
     (let pa = rf_attrib (rp_frame s i)
      in if pa_mfrag pa = 0 \<and> pa_frag_num pa = 0 then Some (s, Some i)
         else if pa_mfrag pa = 1
         then (case owner of
                 None \<Rightarrow> Some (free_rp_frame i s, None)
               | Some sta \<Rightarrow>
                   (let old = sta_defrag_q s sta
                    in if pa_frag_num pa = 0 \<and> old \<noteq> []
                       then Some (set_defrag_q sta [i] (on_rp_env (rtw_free_recvframe_queue old) s), None)
                       else Some (set_defrag_q sta (old @ [i]) s, None)))
         else if pa_mfrag pa = 0
         then (case owner of
                 None \<Rightarrow> Some (free_rp_frame i s, None)
               | Some sta \<Rightarrow> recvframe_defrag (set_defrag_q sta [] s) (sta_defrag_q s sta @ [i]))
         else Some (s, None))"

definition recvframe_chk_defrag :: "rx_path \<Rightarrow> nat \<Rightarrow> (rx_path \<times> nat option) option" where
  "recvframe_chk_defrag s i = do {
     owner \<leftarrow> defrag_owner s (rp_frame s i);
     (s, k) \<leftarrow> defrag_queue s i owner;
     (case k of
        None \<Rightarrow> Some (s, None)
      | Some k \<Rightarrow>
          if pa_privacy (rf_attrib (rp_frame s k)) \<noteq> 0
          then do {
            (s, ok) \<leftarrow> recvframe_chkmic s k;
            if ok then Some (s, Some k) else Some (free_rp_frame k s, None) }
          else Some (s, Some k)) }"

section \<open>What reassembly builds\<close>

text \<open>
  A fragment in the pool: its number, header with IV, body and integrity value. Nothing is said of
  the sequence number, of the packet number in the IV or of the protection of the frame.
\<close>

type_synonym fragment = "nat \<times> bytes \<times> bytes \<times> bytes"

definition fragment_at :: "rx_path \<Rightarrow> u8 \<Rightarrow> fragment \<Rightarrow> bool" where
  "fragment_at s n fr = (case fr of (j, h, b, t) \<Rightarrow>
     let g = rp_frame s j; pa = rf_attrib g
     in j < rp_frames s \<and> pa_frag_num pa = n \<and> (\<exists>pre post. rx_view g pre (h @ b @ t) post) \<and>
        length h = unat (pa_hdrlen pa + pa_iv_len pa) \<and> length t = unat (pa_icv_len pa))"

fun fragments_at :: "rx_path \<Rightarrow> u8 \<Rightarrow> fragment list \<Rightarrow> bool" where
  "fragments_at s n [] = True"
| "fragments_at s n (fr # frs) = (fragment_at s n fr \<and> fragments_at s (n + 1) frs)"

fun last_icv :: "bytes \<Rightarrow> fragment list \<Rightarrow> bytes" where
  "last_icv t [] = t"
| "last_icv t ((j, h, b, t') # frs) = last_icv t' frs"

definition bodies :: "fragment list \<Rightarrow> bytes" where
  "bodies frs = concat (map (\<lambda>(j, h, b, t). b) frs)"

lemma fragments_at_set:
  "fragments_at s n frs \<Longrightarrow> i < rp_frames s \<Longrightarrow> i \<notin> fst ` set frs \<Longrightarrow> fragments_at (set_rp_frame i f s) n frs"
proof (induction frs arbitrary: n)
  case (Cons fr frs)
  obtain j h b t where fr: "fr = (j, h, b, t)" by (cases fr) auto
  then have "j \<noteq> i" using Cons.prems(3) by auto
  then have "fragment_at (set_rp_frame i f s) n fr = fragment_at s n fr"
    using Cons.prems(2) by (simp add: fragment_at_def fr rp_frame_set)
  then show ?case using Cons by simp
qed simp

text \<open>The writable room behind the body of the first fragment.\<close>

lemma sint_of_nat_u32: "n < 2 ^ 31 \<Longrightarrow> sint (of_nat n :: u32) = int n"
  by (rule sint_small) (simp_all add: unat_of_nat take_bit_nat_eq_self)

lemma view_append:
  assumes "rx_view f pre acc (room)" and "length x \<le> length room"
  shows "\<exists>f' f''. rx_wr f (rx_tail f) x = Some f' \<and> recvframe_put f' (int (length x)) = (f'', True) \<and>
     rx_view f'' pre (acc @ x) (drop (length x) room) \<and> rf_attrib f'' = rf_attrib f"
proof -
  have m: "rx_mem f = pre @ acc @ room" and t: "rx_tail f = int (length pre + length acc)"
    and small: "length pre + length acc + length room < 2 ^ 31"
    using assms(1) by (auto simp: rx_view_def)
  have w: "mem_wr (rx_mem f) (nat (rx_tail f)) x = Some (pre @ acc @ x @ drop (length x) room)"
    using assms(2) by (simp add: m t mem_wr_def nat_int_add flip: of_nat_add)
  let ?f' = "f\<lparr>rx_mem := pre @ acc @ x @ drop (length x) room\<rparr>"
  have "rx_wr f (rx_tail f) x = Some ?f'" using w t by (simp add: rx_wr_def)
  moreover have fit: "\<not> rx_tail ?f' + int (length x) > rx_end ?f'" using assms(2) t by (simp add: rx_end_def)
  let ?f'' = "?f'\<lparr>rx_tail := rx_tail f + int (length x), rf_len := rf_len f + of_int (int (length x))\<rparr>"
  have "recvframe_put ?f' (int (length x)) = (?f'', True)" using fit by (simp add: recvframe_put_def)
  moreover have "rx_view ?f'' pre (acc @ x) (drop (length x) room)"
  proof -
    have "rf_len f = of_nat (length acc)" "rx_data f = int (length pre)" using assms(1) by (auto simp: rx_view_def)
    then show ?thesis using small assms(2) t by (simp add: rx_view_def)
  qed
  ultimately show ?thesis by (intro exI [of _ ?f'] exI [of _ ?f'']) simp
qed

lemma view_write_over:
  assumes "rx_view f pre acc room" and "length room < length x"
  shows "rx_wr f (rx_tail f) x = None"
  using assms by (auto simp: rx_view_def rx_wr_def mem_wr_def)

text \<open>One round of the loop.\<close>

lemma defrag_round:
  assumes fr: "fragment_at s n (j, h, b, t)" and i: "i < rp_frames s" "i \<noteq> j"
    and v: "rx_view (rp_frame s i) pre (acc @ t0) post" and t0: "length t0 = unat (pa_icv_len (rf_attrib (rp_frame s i)))"
  shows "\<exists>g f. rx_view f pre acc (t0 @ post) \<and> rf_attrib f = rf_attrib (rp_frame s i) \<and>
     (length b + length t \<le> length t0 + length post \<longrightarrow>
       (\<exists>f'. defrag_loop s i n (j # q) = defrag_loop (set_rp_frame i f' (set_rp_frame j g s)) i (n + 1) q \<and>
         rx_view f' pre ((acc @ b) @ t) (drop (length (b @ t)) (t0 @ post)) \<and>
         rf_attrib f' = (rf_attrib f)\<lparr>pa_icv_len := pa_icv_len (rf_attrib (rp_frame s j))\<rparr>)) \<and>
     (length t0 + length post < length b + length t \<longrightarrow> defrag_loop s i n (j # q) = None)"
proof -
  let ?g0 = "rp_frame s j"
  obtain gpre gpost where gv: "rx_view ?g0 gpre (h @ b @ t) gpost" and num: "pa_frag_num (rf_attrib ?g0) = n"
      and len: "length h = unat (pa_hdrlen (rf_attrib ?g0) + pa_iv_len (rf_attrib ?g0))" and j: "j < rp_frames s"
    using fr unfolding fragment_at_def Let_def prod.case by blast
  obtain g where g: "recvframe_pull ?g0 (int (length h)) = (g, True)" "rx_view g (gpre @ h) (b @ t) gpost"
      "rf_attrib g = rf_attrib ?g0"
    using view_pull [OF gv] by blast
  have pull: "fst (recvframe_pull ?g0 (uint (pa_hdrlen (rf_attrib ?g0) + pa_iv_len (rf_attrib ?g0)))) = g"
    using g(1) len by (simp only: uint_nat fst_conv)
  obtain f where f: "recvframe_pull_tail (rp_frame s i) (int (length t0)) = (f, True)" "rx_view f pre acc (t0 @ post)"
      "rf_attrib f = rf_attrib (rp_frame s i)"
    using view_pull_tail [OF v] by blast
  let ?s1 = "set_rp_frame j g s"
  have fi: "rp_frame ?s1 i = rp_frame s i" using j i(2) by (simp add: rp_frame_set)
  have tail: "fst (recvframe_pull_tail (rp_frame ?s1 i) (uint (pa_icv_len (rf_attrib (rp_frame ?s1 i))))) = f"
    using f(1) t0 by (simp only: fi uint_nat fst_conv)
  have pay: "rx_payload g = Some (b @ t)" by (rule rx_view_payload [OF g(2)])
  have sl: "sint (rf_len g) = int (length (b @ t))"
  proof -
    have "rf_len g = of_nat (length (b @ t))" "length (b @ t) < 2 ^ 31" using g(2) by (auto simp: rx_view_def)
    then show ?thesis by (simp only: sint_of_nat_u32)
  qed
  have loop: "defrag_loop s i n (j # q) =
      (case rx_wr f (rx_tail f) (b @ t) of None \<Rightarrow> None
       | Some f' \<Rightarrow> (let f'' = fst (recvframe_put f' (sint (rf_len g)))
           in defrag_loop (set_rp_frame i (f''\<lparr>rf_attrib := (rf_attrib f'')
                \<lparr>pa_icv_len := pa_icv_len (rf_attrib g)\<rparr>\<rparr>) ?s1) i (n + 1) q))"
    using num by (simp add: Let_def pull tail pay split: option.split)
  show ?thesis
  proof (rule exI [of _ g], rule exI [of _ f], intro conjI impI)
    show "rx_view f pre acc (t0 @ post)" "rf_attrib f = rf_attrib (rp_frame s i)" by (fact f)+
  next
    assume "length b + length t \<le> length t0 + length post"
    then obtain f1 f2 where w: "rx_wr f (rx_tail f) (b @ t) = Some f1"
        "recvframe_put f1 (int (length (b @ t))) = (f2, True)"
        "rx_view f2 pre (acc @ b @ t) (drop (length (b @ t)) (t0 @ post))" "rf_attrib f2 = rf_attrib f"
      using view_append [OF f(2), of "b @ t"] by auto
    let ?f' = "f2\<lparr>rf_attrib := (rf_attrib f2)\<lparr>pa_icv_len := pa_icv_len (rf_attrib g)\<rparr>\<rparr>"
    have "defrag_loop s i n (j # q) = defrag_loop (set_rp_frame i ?f' ?s1) i (n + 1) q"
      unfolding loop w(1) sl by (simp only: option.case Let_def w(2) fst_conv)
    moreover have "rx_view ?f' pre ((acc @ b) @ t) (drop (length (b @ t)) (t0 @ post))"
      using w(3) by (simp add: view_attrib)
    ultimately show "\<exists>f'. defrag_loop s i n (j # q) = defrag_loop (set_rp_frame i f' ?s1) i (n + 1) q \<and>
         rx_view f' pre ((acc @ b) @ t) (drop (length (b @ t)) (t0 @ post)) \<and>
         rf_attrib f' = (rf_attrib f)\<lparr>pa_icv_len := pa_icv_len (rf_attrib ?g0)\<rparr>"
      using w(4) g(3) by (intro exI [of _ ?f']) simp
  next
    assume "length t0 + length post < length b + length t"
    then show "defrag_loop s i n (j # q) = None"
      using view_write_over [OF f(2), of "b @ t"] unfolding loop by simp
  qed
qed

definition same_outside :: "rx_path \<Rightarrow> rx_path \<Rightarrow> bool" where
  "same_outside s s' \<longleftrightarrow> rp_frames s' = rp_frames s \<and> rp_adapter s' = rp_adapter s \<and> rp_sec s' = rp_sec s \<and>
     os_rx (rp_env s') = os_rx (rp_env s) \<and> free_recv_queue (rp_env s') = free_recv_queue (rp_env s)"

lemma same_outside_refl [simp]: "same_outside s s" by (simp add: same_outside_def)

lemma same_outside_set: "same_outside s s' \<Longrightarrow> same_outside s (set_rp_frame i f s')"
  by (simp add: same_outside_def)

text \<open>
  All fragments in turn: with room for the bodies and the longest integrity value, the first frame
  ends up holding its own body, those of the others in order, and the last integrity value.
\<close>

lemma defrag_loop_joins:
  assumes "fragments_at s n frs" and "i < rp_frames s" and "distinct (i # map fst frs)"
    and "rx_view (rp_frame s i) pre (acc @ t0) post" and "length t0 = unat (pa_icv_len (rf_attrib (rp_frame s i)))"
    and "\<forall>(j, h, b, t) \<in> set frs. length t \<le> L" and "length (bodies frs) + L \<le> length t0 + length post"
  shows "\<exists>s' post'. defrag_loop s i n (map fst frs) = Some (s', True) \<and> same_outside s s' \<and>
     rx_view (rp_frame s' i) pre (acc @ bodies frs @ last_icv t0 frs) post' \<and>
     rf_attrib (rp_frame s' i) = (rf_attrib (rp_frame s i))\<lparr>pa_icv_len := pa_icv_len (rf_attrib (rp_frame s' i))\<rparr> \<and>
     length (last_icv t0 frs) = unat (pa_icv_len (rf_attrib (rp_frame s' i)))"
  using assms
proof (induction frs arbitrary: s n acc t0 post)
  case Nil
  then show ?case by (auto simp: bodies_def)
next
  case (Cons fr frs)
  obtain j h b t where fr: "fr = (j, h, b, t)" by (cases fr) auto
  have at: "fragment_at s n (j, h, b, t)" "fragments_at s (n + 1) frs" using Cons.prems(1) fr by auto
  have ij: "i \<noteq> j" "j \<notin> fst ` set frs" "i \<notin> fst ` set frs" using Cons.prems(3) fr by auto
  have j: "j < rp_frames s" using at(1) by (simp add: fragment_at_def Let_def)
  have room: "length b + length t \<le> length t0 + length post"
    using Cons.prems(6,7) fr by (auto simp: bodies_def)
  obtain g f' where r: "defrag_loop s i n (j # map fst frs) =
        defrag_loop (set_rp_frame i f' (set_rp_frame j g s)) i (n + 1) (map fst frs)"
      "rx_view f' pre ((acc @ b) @ t) (drop (length (b @ t)) (t0 @ post))"
      "rf_attrib f' = (rf_attrib (rp_frame s i))\<lparr>pa_icv_len := pa_icv_len (rf_attrib (rp_frame s j))\<rparr>"
    using defrag_round [OF at(1) Cons.prems(2) ij(1) Cons.prems(4,5), of "map fst frs"] room by auto
  let ?s1 = "set_rp_frame i f' (set_rp_frame j g s)"
  have fi: "rp_frame ?s1 i = f'" using Cons.prems(2) by (simp add: rp_frame_set)
  have "fragments_at ?s1 (n + 1) frs"
    using at(2) ij j Cons.prems(2) by (intro fragments_at_set) simp_all
  moreover have "rx_view (rp_frame ?s1 i) pre ((acc @ b) @ t) (drop (length (b @ t)) (t0 @ post))"
    using r(2) fi by simp
  moreover have "length t = unat (pa_icv_len (rf_attrib (rp_frame ?s1 i)))"
    using at(1) fi r(3) by (simp add: fragment_at_def Let_def)
  moreover have "length (bodies frs) + L \<le> length t + length (drop (length (b @ t)) (t0 @ post))"
    using Cons.prems(7) room fr by (simp add: bodies_def)
  ultimately obtain s' post' where ih: "defrag_loop ?s1 i (n + 1) (map fst frs) = Some (s', True)"
      "same_outside ?s1 s'" "rx_view (rp_frame s' i) pre ((acc @ b) @ bodies frs @ last_icv t frs) post'"
      "rf_attrib (rp_frame s' i) = (rf_attrib (rp_frame ?s1 i))\<lparr>pa_icv_len := pa_icv_len (rf_attrib (rp_frame s' i))\<rparr>"
      "length (last_icv t frs) = unat (pa_icv_len (rf_attrib (rp_frame s' i)))"
    using Cons.IH [of ?s1 "n + 1" "acc @ b" t "drop (length (b @ t)) (t0 @ post)"] Cons.prems(2,3,6) fr by auto
  have "same_outside s s'" using ih(2) by (simp add: same_outside_def)
  moreover have "rf_attrib (rp_frame s' i) =
      (rf_attrib (rp_frame s i))\<lparr>pa_icv_len := pa_icv_len (rf_attrib (rp_frame s' i))\<rparr>"
    by (subst ih(4)) (simp add: fi r(3))
  ultimately show ?case using ih(1,3,5) r(1) fr by (auto simp: bodies_def)
qed

lemma free_queue_frame:
  "i \<notin> set q \<Longrightarrow> rframe (rtw_free_recvframe_queue q e) i = rframe e i"
  "os_rx (rtw_free_recvframe_queue q e) = os_rx e"
  unfolding rtw_free_recvframe_queue_def
  by (induction q arbitrary: e) (simp_all add: free_frame_props)

end
