(* ===== verification/Rx_Path.thy ===== *)
theory Rx_Path
  imports Rx_Defrag
begin

text \<open>
  The receive path put together (\<open>core/rtw_recv.c\<close>): \<open>recv_func\<close> validates a frame and
  hands a data frame to \<open>recv_func_posthandle\<close>, which decrypts it, reassembles fragments, checks
  the 802.1X port and passes it to the reordering of its station and traffic class.
\<close>

section \<open>The reorder control of a frame\<close>

definition get_reorder :: "rx_path \<Rightarrow> nat \<Rightarrow> nat \<Rightarrow> reorder_st" where
  "get_reorder s sta tid =
     recv_reorder_ctrl.extend (recvreorder_ctrl (sta_of (rp_sp s) sta) ! tid)
       \<lparr>reordering_ctrl_timer = ((sta, tid) \<in> armed_reorder_timers s)\<rparr>"

definition put_reorder :: "nat \<Rightarrow> nat \<Rightarrow> reorder_st \<Rightarrow> rx_path \<Rightarrow> rx_path" where
  "put_reorder sta tid c s =
     (on_rp_adapter (on_stapriv (upd_sta sta (\<lambda>p. p\<lparr>recvreorder_ctrl :=
        (recvreorder_ctrl p)[tid := recv_reorder_ctrl.truncate c]\<rparr>))) s)
       \<lparr>armed_reorder_timers := (if reordering_ctrl_timer c then insert (sta, tid) (armed_reorder_timers s)
                                 else armed_reorder_timers s - {(sta, tid)})\<rparr>"

section \<open>Stages\<close>

definition rx_drop :: "rx_path \<Rightarrow> rx_path" where
  "rx_drop s = s\<lparr>recv_rx_drop := recv_rx_drop s + 1\<rparr>"

definition rx_indicate :: "rx_path \<Rightarrow> nat \<Rightarrow> (rx_path \<times> bool) option" where
  "rx_indicate s k =
     (let f = rp_frame s k; tid = unat (pa_priority (rf_attrib f))
      in case rf_psta f of
           None \<Rightarrow> None
         | Some sta \<Rightarrow>
             if TID_NUM \<le> tid then None
             else do {
               (e, c, ok) \<leftarrow> process_recv_indicatepkts (rp_env s) (get_reorder s sta tid) k;
               Some (put_reorder sta tid c (s\<lparr>rp_env := e\<rparr>), ok) })"

text \<open>
  The result is the value of \<open>ret\<close>: a frame that only waits for more fragments is a success,
  but is counted as dropped. When indication fails, the frame freed is the one that came in.
\<close>

definition recv_func_posthandle :: "rx_path \<Rightarrow> nat \<Rightarrow> (rx_path \<times> bool) option" where
  "recv_func_posthandle s i = do {
     let s = on_rp_adapter (call Led_control_rx) s;
     (s, ok) \<leftarrow> decryptor s i;
     if \<not> ok then Some (rx_drop s, False)
     else do {
       (s, k) \<leftarrow> recvframe_chk_defrag s i;
       (case k of
          None \<Rightarrow> Some (rx_drop s, True)
        | Some k \<Rightarrow> do {
            (s, ok) \<leftarrow> portctrl s k;
            if \<not> ok then Some (rx_drop s, False)
            else do {
              s \<leftarrow> count_rx_stats s (rp_frame s k) None;
              (s, ok) \<leftarrow> rx_indicate s k;
              if ok then Some (s, True) else Some (rx_drop (free_rp_frame i s), False) } }) } }"

definition recv_func_prehandle :: "bool \<Rightarrow> rx_path \<Rightarrow> nat \<Rightarrow> (rx_path \<times> rx_ret) option" where
  "recv_func_prehandle mp_mode s i =
     (if mp_mode \<or> bRTWSmbCfg s = 1 then Some (on_rp_adapter (call (Mp_recv_frame i)) s, RX_FAIL)
      else do {
        (s, f, ret) \<leftarrow> validate_recv_frame s (rp_frame s i);
        let s = set_rp_frame i f s;
        Some (if ret \<noteq> RX_SUCCESS then free_rp_frame i s else s, ret) })"

text \<open>The frames that waited for a key.\<close>

fun drain_pending :: "rx_path \<Rightarrow> nat list \<Rightarrow> rx_path option" where
  "drain_pending s [] = Some s"
| "drain_pending s (i # q) =
     (case recv_func_posthandle (s\<lparr>uc_swdec_pending_queue := q\<rparr>) i of
        None \<Rightarrow> None | Some (s, _) \<Rightarrow> drain_pending s q)"

definition AuthModeWPAPSK :: u32 where "AuthModeWPAPSK = 4"

definition wait_for_key :: "rx_path \<Rightarrow> rx_pkt_attrib \<Rightarrow> bool" where
  "wait_for_key s pa \<longleftrightarrow> check_fwstate s WIFI_STATION_STATE \<and> \<not> IS_MCAST (pa_ra pa) \<and> pa_encrypt pa > 0 \<and>
     (pa_bdecrypted pa = 0 \<or> sw_decrypt (rp_sec s) = 1) \<and> ndisauthtype (rp_sec s) = AuthModeWPAPSK \<and>
     busetkipkey (rp_sec s) = 0"

definition recv_func :: "bool \<Rightarrow> rx_path \<Rightarrow> nat \<Rightarrow> (rx_path \<times> rx_ret) option" where
  "recv_func mp_mode s i =
     (if check_fwstate s WIFI_MONITOR_STATE
      then Some (on_rp_adapter (call (Recv_frame_monitor i)) s, RX_SUCCESS)
      else do {
        let post = (\<lambda>s j. map_option (\<lambda>(s, ok). (s, if ok then RX_SUCCESS else RX_FAIL)) (recv_func_posthandle s j));
        s \<leftarrow> (if check_fwstate s WIFI_STATION_STATE \<and> busetkipkey (rp_sec s) \<noteq> 0
              then drain_pending s (uc_swdec_pending_queue s) else Some s);
        (s, ret) \<leftarrow> recv_func_prehandle mp_mode s i;
        if ret \<noteq> RX_SUCCESS then Some (s, ret)
        else if wait_for_key s (rf_attrib (rp_frame s i))
        then
          (let q = uc_swdec_pending_queue s @ [i]; s = s\<lparr>uc_swdec_pending_queue := q\<rparr>
           in if free_recvframe_cnt (rp_env s) < 256 div 4
              then post (s\<lparr>uc_swdec_pending_queue := tl q\<rparr>) (hd q)
              else Some (s, RX_SUCCESS))
        else post s i })"

section \<open>A sample state\<close>

text \<open>One station, in slot 0 and found by its address, and some frames of the pool filled.\<close>

definition rx_sta_ex :: sta_info where
  "rx_sta_ex = rtw_init_stainfo\<lparr>hwaddr := [4, 4, 4, 4, 4, 4], st_state := FW_LINKED\<rparr>"

definition path_ex :: "sta_info \<Rightarrow> recv_frame list \<Rightarrow> rx_path" where
  "path_ex p fs =
     \<lparr>rp_env = env_ex
        \<lparr>rx_adapter := st_ex\<lparr>stapriv := (stapriv st_ex)\<lparr>pstainfo_buf := [p], sta_hash := replicate 32 [0]\<rparr>\<rparr>,
         precv_frame_buf := fs @ replicate (256 - length fs) (data_frame_ex 0),
         free_recv_queue := [length fs..<256]\<rparr>,
      rp_sec = \<lparr>dot11PrivacyKeyIndex = 0, dot11DefKey = [], dot11DefKeylen = [], dot118021XGrpKeyid = 0,
        dot118021XGrpKey = [], binstallGrpkey = False, dot11AuthAlgrthm = 2, dot11PrivacyAlgrthm = 0,
        dot118021XGrpPrivacy = 4, dot118021XGrprxmickey = [], busetkipkey = 0, sw_decrypt = 0, hw_decrypted = 0,
        bcheck_grpkey = 0, ndisauthtype = 0\<rparr>,
      fw_state = FW_LINKED OR WIFI_STATION_STATE, cur_bssid = [4, 4, 4, 4, 4, 4], mlmeinfo_key_index = 0,
      bRTWSmbCfg = 0, send_issue_deauth_time = 0, rp_hz = 100, rp_now = 0, bIsAnyNonBEPkts = 0, recv_rx_bytes = 0,
      recv_rx_drop = 0, NumRxOkInPeriod = 0, NumRxUnicastOkInPeriod = 0, rx_crc = crc_boot, rx_message = [],
      rx_micdata = \<lparr>mic_K0 = 0, mic_K1 = 0, mic_L = 0, mic_R = 0, mic_M = 0, nBytesInM = 0\<rparr>,
      uc_swdec_pending_queue = [], armed_reorder_timers = {}\<rparr>"

lemma path_ex_sp [simp]:
  "rx_adapter (rp_env (path_ex p fs)) =
     st_ex\<lparr>stapriv := (stapriv st_ex)\<lparr>pstainfo_buf := [p], sta_hash := replicate 32 [0]\<rparr>\<rparr>"
  "rp_frame (path_ex p fs) i = (fs @ replicate (256 - length fs) (data_frame_ex 0)) ! i"
  "length (precv_frame_buf (rp_env (path_ex p fs))) = max (length fs) 256"
  by (simp_all add: path_ex_def rp_frame_def rframe_def max_def)

lemma path_ex_sta:
  "rtw_get_stainfo ((stapriv st_ex)\<lparr>pstainfo_buf := [p], sta_hash := replicate 32 [0]\<rparr>) (Some a) =
     (if eth_eq (hwaddr p) (lookup_addr a) then Some 0 else None)"
  by (simp add: rtw_get_stainfo_def sta_of_def wifi_mac_hash_lt)

end
