(* ===== verification/Rx_Fragments.thy ===== *)
theory Rx_Fragments
  imports Rx_Path
begin

text \<open>
  What reassembly gives: the joined body when the fragments fit in the buffer of the first one,
  and a write outside that buffer when they do not. Neither depends on the sequence numbers.
\<close>

section \<open>The last fragment\<close>

lemma set_defrag_q_frames [simp]:
  "rp_frame (set_defrag_q sta q s) i = rp_frame s i" "rp_frames (set_defrag_q sta q s) = rp_frames s"
  "os_rx (rp_env (set_defrag_q sta q s)) = os_rx (rp_env s)"
  by (simp_all add: set_defrag_q_def on_rp_adapter_def on_rp_env_def rp_frame_def rframe_def)

lemma fragments_at_set_defrag_q [simp]:
  "fragment_at (set_defrag_q sta q s) n fr = fragment_at s n fr"
  "fragments_at (set_defrag_q sta q s) n frs = fragments_at s n frs"
proof -
  show one: "fragment_at (set_defrag_q sta q s) n fr = fragment_at s n fr" for n fr
    by (simp add: fragment_at_def Let_def)
  show "fragments_at (set_defrag_q sta q s) n frs = fragments_at s n frs"
    by (induction frs arbitrary: n) (simp_all add: one)
qed

lemma defrag_owner_found:
  "rtw_get_stainfo (rp_sp s) (Some (pa_ta (rf_attrib f))) = Some sta \<Longrightarrow> defrag_owner s f = Some (Some sta)"
  by (simp add: defrag_owner_def)

text \<open>A last fragment, its number not 0, goes to the queue of its sender and is joined there.\<close>

definition last_fragment :: "rx_path \<Rightarrow> nat \<Rightarrow> nat \<Rightarrow> bool" where
  "last_fragment s k sta \<longleftrightarrow>
     (let pa = rf_attrib (rp_frame s k)
      in pa_mfrag pa = 0 \<and> pa_frag_num pa \<noteq> 0 \<and> rtw_get_stainfo (rp_sp s) (Some (pa_ta pa)) = Some sta)"

lemma chk_defrag_last:
  assumes "last_fragment s k sta"
  shows "recvframe_chk_defrag s k =
     do { (s', r) \<leftarrow> recvframe_defrag (set_defrag_q sta [] s) (sta_defrag_q s sta @ [k]);
          (case r of
             None \<Rightarrow> Some (s', None)
           | Some m \<Rightarrow>
               if pa_privacy (rf_attrib (rp_frame s' m)) \<noteq> 0
               then do {
                 (s', ok) \<leftarrow> recvframe_chkmic s' m;
                 if ok then Some (s', Some m) else Some (free_rp_frame m s', None) }
               else Some (s', Some m)) }"
proof -
  have pa: "pa_mfrag (rf_attrib (rp_frame s k)) = 0" "pa_frag_num (rf_attrib (rp_frame s k)) \<noteq> 0"
      "defrag_owner s (rp_frame s k) = Some (Some sta)"
    using assms defrag_owner_found by (auto simp: last_fragment_def Let_def)
  then have "defrag_queue s k (Some sta) = recvframe_defrag (set_defrag_q sta [] s) (sta_defrag_q s sta @ [k])"
    by (simp add: defrag_queue_def Let_def)
  then show ?thesis using pa by (simp add: recvframe_chk_defrag_def)
qed

section \<open>Reassembly\<close>

lemma defrag_joined:
  assumes "fragments_at s 0 ((i, h0, b0, t0) # frs)" and "distinct (i # map fst frs)"
    and "rx_view (rp_frame s i) pre (h0 @ b0 @ t0) post"
    and "\<forall>(j, h, b, t) \<in> set frs. length t \<le> L" and "length (bodies frs) + L \<le> length t0 + length post"
  shows "\<exists>s'. recvframe_defrag s (i # map fst frs) = Some (s', Some i) \<and>
     rx_payload (rp_frame s' i) = Some (h0 @ b0 @ bodies frs @ last_icv t0 frs) \<and>
     rf_attrib (rp_frame s' i) = (rf_attrib (rp_frame s i))\<lparr>pa_icv_len := pa_icv_len (rf_attrib (rp_frame s' i))\<rparr> \<and>
     length (last_icv t0 frs) = unat (pa_icv_len (rf_attrib (rp_frame s' i)))"
proof -
  have at: "fragment_at s 0 (i, h0, b0, t0)" "fragments_at s (0 + 1) frs" using assms(1) by auto
  have i: "i < rp_frames s" "pa_frag_num (rf_attrib (rp_frame s i)) = 0"
      "length t0 = unat (pa_icv_len (rf_attrib (rp_frame s i)))"
    using at(1) by (auto simp: fragment_at_def Let_def)
  have v: "rx_view (rp_frame s i) pre ((h0 @ b0) @ t0) post" using assms(3) by simp
  obtain s' post' where l: "defrag_loop s i (0 + 1) (map fst frs) = Some (s', True)"
      "rx_view (rp_frame s' i) pre ((h0 @ b0) @ bodies frs @ last_icv t0 frs) post'"
      "rf_attrib (rp_frame s' i) = (rf_attrib (rp_frame s i))\<lparr>pa_icv_len := pa_icv_len (rf_attrib (rp_frame s' i))\<rparr>"
      "length (last_icv t0 frs) = unat (pa_icv_len (rf_attrib (rp_frame s' i)))"
    using defrag_loop_joins [OF at(2) i(1) assms(2) v i(3) assms(4,5)] by blast
  let ?s2 = "on_rp_env (rtw_free_recvframe_queue (map fst frs)) s'"
  have "rp_frame ?s2 i = rp_frame s' i"
    using assms(2) by (simp add: rp_frame_def on_rp_env_def free_queue_frame)
  moreover have "recvframe_defrag s (i # map fst frs) = Some (?s2, Some i)"
    using i(2) l(1) by (simp add: recvframe_defrag_def)
  ultimately show ?thesis using l rx_view_payload [OF l(2)] by (intro exI [of _ ?s2]) simp
qed


text \<open>Two fragments, of different frames by their sequence numbers; only the first was encrypted.\<close>

definition frag_pa_ex :: "u8 \<Rightarrow> u16 \<Rightarrow> u8 \<Rightarrow> u8 \<Rightarrow> rx_pkt_attrib" where
  "frag_pa_ex num sq e len = (pa_ex 0)\<lparr>pa_ta := [4, 4, 4, 4, 4, 4], pa_qos := 0, pa_frag_num := num,
     pa_mfrag := (if num = 0 then 1 else 0), pa_seq_num := sq, pa_encrypt := e, pa_iv_len := len, pa_icv_len := len\<rparr>"

definition frag_ex :: "rx_pkt_attrib \<Rightarrow> bytes \<Rightarrow> nat \<Rightarrow> recv_frame" where
  "frag_ex pa ps room = \<lparr>rf_attrib = pa, rx_mem = ps @ replicate room 0, rx_data = 0, rx_tail = int (length ps),
     rf_len = of_nat (length ps), rf_psta = Some 0\<rparr>"

lemma frag_ex_view: "length ps + room < 2 ^ 31 \<Longrightarrow> rx_view (frag_ex pa ps room) [] ps (replicate room 0)"
  by (simp add: frag_ex_def rx_view_def)


section \<open>Fragments that do not fit\<close>

lemma defrag_too_long:
  assumes "fragments_at s 0 [(i, h0, b0, t0), (k, h, b, t)]" and "i \<noteq> k"
    and "rx_view (rp_frame s i) pre (h0 @ b0 @ t0) post" and "length t0 + length post < length b + length t"
  shows "recvframe_defrag s [i, k] = None"
proof -
  have at: "fragment_at s 0 (i, h0, b0, t0)" "fragment_at s (0 + 1) (k, h, b, t)" using assms(1) by auto
  have i: "i < rp_frames s" "pa_frag_num (rf_attrib (rp_frame s i)) = 0"
      "length t0 = unat (pa_icv_len (rf_attrib (rp_frame s i)))"
    using at(1) by (auto simp: fragment_at_def Let_def)
  have v: "rx_view (rp_frame s i) pre ((h0 @ b0) @ t0) post" using assms(3) by simp
  have "defrag_loop s i (0 + 1) (k # []) = None"
    using defrag_round [OF at(2) i(1) assms(2) v i(3), of "[]"] assms(4) by blast
  then show ?thesis using i(2) by (simp add: recvframe_defrag_def del: defrag_loop.simps)
qed

text \<open>The buffer of a first fragment, as it is allocated.\<close>

lemma alloc_first_fragment:
  assumes "rtw_os_alloc_recvframe skip pa pdata = Some (m, start)" and "pa_mfrag pa = 1" and "pa_frag_num pa = 0"
    and "length pdata \<le> 1650"
  shows "length m = 1664" and "start = int (skip + (if pa_qos pa \<noteq> 0 then 6 else 0))"
  using assms by (auto simp: rtw_os_alloc_recvframe_def mem_wr_def Let_def split: if_splits)

text \<open>
  A first fragment of up to 1650 bytes sits in a buffer of 1664 bytes, and nothing checks the
  length of the second: when the two bodies do not fit together behind the start of the data, the
  copy writes past the end of the buffer.
\<close>

theorem defrag_overflows:
  assumes "last_fragment s k sta" and "sta_defrag_q s sta = [i]" and "i \<noteq> k"
    and "fragments_at s 0 [(i, h0, b0, t0), (k, h, b, t)]"
    and "rtw_os_alloc_recvframe skip (rf_attrib (rp_frame s i)) pdata = Some (rx_mem (rp_frame s i), rx_data (rp_frame s i))"
    and "pa_mfrag (rf_attrib (rp_frame s i)) = 1" and "pdata = h0 @ b0 @ t0" and "length pdata \<le> 1650"
    and "1664 < skip + length (h0 @ b0) + length (b @ t)"
  shows "recvframe_chk_defrag s k = None"
proof -
  have f0: "fragment_at s 0 (i, h0, b0, t0)" using assms(4) by simp
  then obtain pre post where v: "rx_view (rp_frame s i) pre (h0 @ b0 @ t0) post"
    by (auto simp: fragment_at_def Let_def)
  have num: "pa_frag_num (rf_attrib (rp_frame s i)) = 0" using f0 by (simp add: fragment_at_def Let_def)
  note al = alloc_first_fragment [OF assms(5,6) num assms(8)]
  have "length pre = skip + (if pa_qos (rf_attrib (rp_frame s i)) \<noteq> 0 then 6 else 0)"
    using v al(2) by (simp add: rx_view_def)
  moreover have "length pre + length (h0 @ b0 @ t0) + length post = 1664"
    using v al(1) by (simp add: rx_view_def)
  ultimately have "length t0 + length post < length b + length t" using assms(9) by (simp split: if_splits)
  then have "recvframe_defrag (set_defrag_q sta [] s) [i, k] = None"
    using assms(3,4) v by (intro defrag_too_long [where pre = pre and post = post and h = h]) simp_all
  then show ?thesis by (simp add: chk_defrag_last [OF assms(1)] assms(2))
qed

theorem defrag_overflows_witness:
  "recvframe_chk_defrag (path_ex (rx_sta_ex\<lparr>sta_recvpriv := \<lparr>defrag_q = [0], tid_rxseq = []\<rparr>\<rparr>)
      [\<lparr>rf_attrib = frag_pa_ex 0 7 0 0, rx_mem = replicate 8 0 @ (replicate 24 9 @ replicate 1000 1) @ replicate 632 0,
        rx_data = 8, rx_tail = 1032, rf_len = 1024, rf_psta = Some 0\<rparr>,
       frag_ex (frag_pa_ex 1 7 0 0) (replicate 24 9 @ replicate 1000 2 @ []) 0]) 1 = None"
proof -
  let ?p = "rx_sta_ex\<lparr>sta_recvpriv := \<lparr>defrag_q = [0], tid_rxseq = []\<rparr>\<rparr>"
  let ?f0 = "\<lparr>rf_attrib = frag_pa_ex 0 7 0 0, rx_mem = replicate 8 0 @ (replicate 24 9 @ replicate 1000 1) @ replicate 632 0,
        rx_data = 8, rx_tail = 1032, rf_len = 1024, rf_psta = Some 0\<rparr>"
  let ?f1 = "frag_ex (frag_pa_ex 1 7 0 0) (replicate 24 9 @ replicate 1000 2 @ []) 0"
  let ?s = "path_ex ?p [?f0, ?f1]"
  have f: "rp_frame ?s 0 = ?f0" "rp_frame ?s 1 = ?f1" by simp_all
  have pa: "rf_attrib (frag_ex pa ps r) = pa" for pa ps r by (simp add: frag_ex_def)
  have v0: "rx_view ?f0 (replicate 8 0) (replicate 24 9 @ replicate 1000 1 @ []) (replicate 632 0)"
    by (simp add: rx_view_def)
  have v1: "rx_view ?f1 [] (replicate 24 9 @ replicate 1000 2 @ []) (replicate 0 0)" by (rule frag_ex_view) simp
  have l: "last_fragment ?s 1 0"
    unfolding last_fragment_def f pa Let_def
    by (simp add: path_ex_sta) (simp add: frag_pa_ex_def pa_ex_def rx_sta_ex_def lookup_addr_def IS_MCAST_def eth_eq_def)
  have q: "sta_defrag_q ?s 0 = [0]" by (simp add: sta_defrag_q_def sta_of_def)
  have fr: "fragments_at ?s 0 [(0, replicate 24 9, replicate 1000 1, []), (1, replicate 24 9, replicate 1000 2, [])]"
    using v0 v1 f by (auto simp: fragment_at_def pa) (auto simp: frag_pa_ex_def pa_ex_def)
  have "rtw_os_alloc_recvframe 8 (frag_pa_ex 0 7 0 0) (replicate 24 9 @ replicate 1000 1 @ []) =
      Some (rx_mem ?f0, rx_data ?f0)"
    by (simp add: rtw_os_alloc_recvframe_def mem_wr_def frag_pa_ex_def pa_ex_def)
  then show ?thesis
    using f by (intro defrag_overflows [OF l q _ fr, where skip = 8
          and pdata = "replicate 24 9 @ replicate 1000 1 @ []"]) (simp_all add: frag_pa_ex_def pa_ex_def)
qed

end
