(* ===== verification/Rx_Guard.thy ===== *)
theory Rx_Guard
  imports Rx_Path
begin

text \<open>
  What the checks of the receive path let through: the 802.1X port, and the way around it that an
  aggregate opens; the Michael code; the filter of a station; and repeated frames.
\<close>

section \<open>The 802.1X port\<close>

definition port_blocked :: "rx_path \<Rightarrow> nat \<Rightarrow> bool" where
  "port_blocked s k \<longleftrightarrow> dot11AuthAlgrthm (rp_sec s) = 2 \<and>
     (\<exists>sta. rtw_get_stainfo (rp_sp s) (Some (pa_ta (rf_attrib (rp_frame s k)))) = Some sta \<and>
        ieee8021x_blocked (sta_of (rp_sp s) sta) \<noteq> 0)"

lemma be16_val_take: "be16_val (take 2 xs) = be16_val xs"
  by (simp add: be16_val_def)

lemma portctrl_blocked:
  assumes "port_blocked s k" and "rx_ok (rp_frame s k)" and "rx_payload (rp_frame s k) = Some (hdr @ iv @ msdu)"
    and "length hdr = unat (pa_hdrlen (rf_attrib (rp_frame s k)))"
    and "length iv = unat (pa_iv_len (rf_attrib (rp_frame s k)))" and "8 \<le> length msdu"
  shows "portctrl s k =
     (if be16_val (drop 6 msdu) = 0x888e then Some (s, True) else Some (free_rp_frame k s, False))"
proof -
  let ?f = "rp_frame s k" and ?pa = "rf_attrib (rp_frame s k)"
  obtain pre post where "rx_view ?f pre (hdr @ iv @ msdu) post"
    using rx_view_exists [OF assms(2,3)] .
  moreover have "take 6 msdu @ take 2 (drop 6 msdu) @ drop 2 (drop 6 msdu) = msdu" by (simp only: append_take_drop_id)
  ultimately have "rx_view ?f pre ((hdr @ iv @ take 6 msdu) @ take 2 (drop 6 msdu) @ drop 2 (drop 6 msdu)) post"
    by simp
  from view_rd [OF this]
  have "rx_rd ?f (rx_data ?f + (int (length hdr) + int (length iv) + 6)) 2 = Some (take 2 (drop 6 msdu))"
    using assms(6) by (simp add: add.assoc)
  moreover have "rx_data ?f + uint (pa_hdrlen ?pa) + uint (pa_iv_len ?pa) + LLC_HEADER_SIZE =
      rx_data ?f + (int (length hdr) + int (length iv) + 6)"
    using assms(4,5) by (simp add: LLC_HEADER_SIZE_def)
  ultimately have rd: "rx_rd ?f (rx_data ?f + uint (pa_hdrlen ?pa) + uint (pa_iv_len ?pa) + LLC_HEADER_SIZE) 2 =
      Some (take 2 (drop 6 msdu))" by (simp only:)
  obtain sta where "rtw_get_stainfo (rp_sp s) (Some (pa_ta ?pa)) = Some sta"
      "ieee8021x_blocked (sta_of (rp_sp s) sta) \<noteq> 0" "dot11AuthAlgrthm (rp_sec s) = 2"
    using assms(1) by (auto simp: port_blocked_def)
  then show ?thesis using rd by (simp add: portctrl_def Let_def be16_val_take)
qed

lemma eth_packet_data_frame:
  assumes "data_frame f hdr iv msdu icv" and "8 \<le> length msdu" and "14 \<le> length hdr + length iv"
  shows "eth_packet f = Some (pa_dst (rf_attrib f) @ pa_src (rf_attrib f) @ eth_tail msdu)"
  using wlanhdr_data_frame [OF assms] by (auto simp: eth_packet_def)


definition rx_blocked_ex :: sta_info where
  "rx_blocked_ex = rx_sta_ex\<lparr>ieee8021x_blocked := 1\<rparr>"

definition guard_ex :: "u8 \<Rightarrow> bytes \<Rightarrow> rx_path" where
  "guard_ex amsdu ps = path_ex rx_blocked_ex
     [(frame_ex ((pa_ex amsdu)\<lparr>pa_ta := [4, 4, 4, 4, 4, 4]\<rparr>) ps)\<lparr>rf_psta := Some 0\<rparr>]"

lemma guard_ex_frame [simp]:
  "rp_frame (guard_ex amsdu ps) 0 =
     (frame_ex ((pa_ex amsdu)\<lparr>pa_ta := [4, 4, 4, 4, 4, 4]\<rparr>) ps)\<lparr>rf_psta := Some 0\<rparr>"
  by (simp add: guard_ex_def)

lemma guard_ex_blocked: "port_blocked (guard_ex amsdu ps) 0"
proof -
  have "rtw_get_stainfo (rp_sp (guard_ex amsdu ps)) (Some [4, 4, 4, 4, 4, 4]) = Some 0"
    by (simp add: guard_ex_def path_ex_sta rx_blocked_ex_def rx_sta_ex_def lookup_addr_def IS_MCAST_def eth_eq_def)
  moreover have "ieee8021x_blocked (sta_of (rp_sp (guard_ex amsdu ps)) 0) \<noteq> 0"
    by (simp add: guard_ex_def sta_of_def rx_blocked_ex_def)
  moreover have "dot11AuthAlgrthm (rp_sec (guard_ex amsdu ps)) = 2" by (simp add: guard_ex_def path_ex_def)
  ultimately show ?thesis unfolding port_blocked_def guard_ex_frame by (simp add: frame_ex_def)
qed

lemma guard_ex_view: "length ps < 2 ^ 31 \<Longrightarrow> rx_view (rp_frame (guard_ex amsdu ps) 0) [] ps []"
  using frame_ex_view [of ps] by (simp add: rx_view_def frame_ex_def)

lemma guard_ex_data:
  assumes "length t = 3"
  shows "data_frame (rp_frame (guard_ex 0 (replicate 24 9 @ rtw_rfc1042_header @ t)) 0) (replicate 24 9) []
     (rtw_rfc1042_header @ t) []"
proof -
  let ?ps = "replicate 24 9 @ rtw_rfc1042_header @ t"
  have v: "rx_view (rp_frame (guard_ex 0 ?ps) 0) [] ?ps []"
    using assms by (intro guard_ex_view) (simp add: rtw_rfc1042_header_def)
  show ?thesis
    using rx_view_ok [OF v] rx_view_payload [OF v]
    by (simp add: data_frame_def del: guard_ex_frame) (simp add: frame_ex_def pa_ex_def ETH_ALEN_def)
qed

lemma guard_ex_eth:
  assumes "length t = 3" and "take 2 t \<notin> {SNAP_ETH_TYPE_IPX, SNAP_ETH_TYPE_APPLETALK_AARP}"
  shows "msdu_snap (rtw_rfc1042_header @ t)"
    and "eth_packet (rp_frame (guard_ex 0 (replicate 24 9 @ rtw_rfc1042_header @ t)) 0) =
      Some ([1, 1, 1, 1, 1, 1] @ [2, 2, 2, 2, 2, 2] @ t)"
proof -
  show s: "msdu_snap (rtw_rfc1042_header @ t)"
    using assms by (simp add: msdu_snap_def rtw_rfc1042_header_def)
  show "eth_packet (rp_frame (guard_ex 0 (replicate 24 9 @ rtw_rfc1042_header @ t)) 0) =
      Some ([1, 1, 1, 1, 1, 1] @ [2, 2, 2, 2, 2, 2] @ t)"
    using eth_packet_data_frame [OF guard_ex_data [OF assms(1)]] assms(1) s
    by (simp add: eth_tail_def rtw_rfc1042_header_def) (simp add: frame_ex_def pa_ex_def)
qed


section \<open>A whole frame in the clear\<close>

lemma set_rp_frame_twice: "set_rp_frame i f' (set_rp_frame i f s) = set_rp_frame i f' s"
  by (simp add: set_rp_frame_def on_rp_env_def set_rframe_def)

lemma set_rp_frame_same: "i < rp_frames s \<Longrightarrow> set_rp_frame i (rp_frame s i) s = s"
  by (simp add: set_rp_frame_def on_rp_env_def set_rframe_def rp_frame_def rframe_def)

lemma set_rp_frame_rx [simp]:
  "get_reorder (set_rp_frame i f s) = get_reorder s" "ht_option (rp_env (set_rp_frame i f s)) = ht_option (rp_env s)"
  "msdu_ok (rp_env (set_rp_frame i f s)) = msdu_ok (rp_env s)"
  by (simp_all add: get_reorder_def fun_eq_iff set_rp_frame_def on_rp_env_def set_rframe_def)

lemma decryptor_plain:
  "pa_encrypt (rf_attrib (rp_frame s i)) = 0 \<Longrightarrow> decryptor s i =
     Some (set_rp_frame i ((rp_frame s i)\<lparr>rf_attrib := (rf_attrib (rp_frame s i))\<lparr>pa_bdecrypted := 1\<rparr>\<rparr>) s, True)"
  by (simp add: decryptor_def rx_iv_key_index_def Let_def set_rp_frame_twice)

lemma chk_defrag_whole:
  assumes "rtw_get_stainfo (rp_sp s) (Some (pa_ta (rf_attrib (rp_frame s i)))) = Some sta"
    and "pa_mfrag (rf_attrib (rp_frame s i)) = 0" and "pa_frag_num (rf_attrib (rp_frame s i)) = 0"
    and "pa_privacy (rf_attrib (rp_frame s i)) = 0"
  shows "recvframe_chk_defrag s i = Some (s, Some i)"
  using assms by (simp add: recvframe_chk_defrag_def defrag_owner_def defrag_queue_def Let_def)

text \<open>What counting and logging leave as it was.\<close>

definition same_rx :: "rx_path \<Rightarrow> rx_path \<Rightarrow> bool" where
  "same_rx s s' \<longleftrightarrow> (\<forall>i. rp_frame s' i = rp_frame s i) \<and> rp_frames s' = rp_frames s \<and>
     os_rx (rp_env s') = os_rx (rp_env s) \<and> ht_option (rp_env s') = ht_option (rp_env s) \<and>
     msdu_ok (rp_env s') = msdu_ok (rp_env s) \<and> cannot_run (rp_env s') = cannot_run (rp_env s) \<and>
     get_reorder s' = get_reorder s"

lemma same_rx_call: "same_rx s (on_rp_adapter (call c) s)"
  by (simp add: same_rx_def on_rp_adapter_def on_rp_env_def rp_frame_def rframe_def call_def get_reorder_def fun_eq_iff)

lemma same_rx_stats:
  assumes "unat (pa_priority (rf_attrib f)) < TID_NUM"
  shows "\<exists>s'. count_rx_stats s f sta = Some s' \<and> same_rx s s'"
proof -
  have upd: "recvreorder_ctrl (sta_of (upd_sta i (\<lambda>p. p\<lparr>sta_stats := h p\<rparr>) sp) j) = recvreorder_ctrl (sta_of sp j)" for i h sp j
    by (cases "i < length (pstainfo_buf sp)"; cases "i = j") (simp_all add: upd_sta_def sta_of_def list_update_beyond)
  show ?thesis
    using assms
    by (auto simp: count_rx_stats_def Let_def same_rx_def on_rp_adapter_def on_rp_env_def on_stapriv_def
        rp_frame_def rframe_def get_reorder_def fun_eq_iff upd not_le split: option.splits)
qed

section \<open>An aggregate through the blocked port\<close>

lemma indicate_amsdu_disabled:
  assumes "rx_ok (rp_frame s i)" and "rx_payload (rp_frame s i) = Some (hdr @ amsdu_build [m])" and "subframe_ok m"
    and "length hdr = unat (pa_hdrlen pa)" and "rf_attrib (rp_frame s i) = pa" and "pa_iv_len pa = 0"
    and "pa_amsdu pa = 1" and "unat (pa_priority pa) < TID_NUM"
    and "rf_psta (rp_frame s i) = Some sta" and "ro_enable (get_reorder s sta (unat (pa_priority pa))) = 0"
    and "ht_option (rp_env s)" and "\<And>n. msdu_ok (rp_env s) n"
  shows "\<exists>s'. rx_indicate s i = Some (s', True) \<and>
     os_rx (rp_env s') = os_rx (rp_env s) @ [rtw_os_alloc_msdu_pkt pa (fst (snd (snd m)))]"
proof -
  let ?pkt = "rtw_os_alloc_msdu_pkt pa (fst (snd (snd m)))"
  have "amsdu_to_msdu (msdu_ok (rp_env s)) (rp_frame s i) = Some [?pkt]"
    using amsdu_to_msdu_build [OF assms(1), of hdr "[]" "[m]" "msdu_ok (rp_env s)"] assms(2-6,12)
    by (simp add: MAX_SUBFRAME_COUNT_def case_prod_beta)
  then have ind: "indicate_amsdu i (rp_env s) = Some (rtw_free_recvframe i (rtw_os_recv_indicate_pkt ?pkt (rp_env s)))"
    by (simp add: indicate_amsdu_def rp_frame_def)
  let ?e = "rtw_free_recvframe i (rtw_os_recv_indicate_pkt ?pkt (rp_env s))"
  let ?c = "get_reorder s sta (unat (pa_priority pa))"
  have "\<exists>c'. process_recv_indicatepkts (rp_env s) ?c i = Some (?e, c', True)"
    using assms(5,7,10,11) ind
    by (simp add: process_recv_indicatepkts_def recv_indicatepkt_reorder_def rp_frame_def)
  moreover have "os_rx ?e = os_rx (rp_env s) @ [?pkt]"
    by (simp add: free_frame_props) (simp add: rtw_os_recv_indicate_pkt_def)
  moreover have "os_rx (rp_env (put_reorder sta t c (s\<lparr>rp_env := e\<rparr>))) = os_rx e" for t c e
    by (simp add: put_reorder_def on_rp_adapter_def on_rp_env_def)
  ultimately show ?thesis using assms(5,8,9) by (auto simp: rx_indicate_def Let_def not_le)
qed

text \<open>
  C24: An aggregate defeats the port: the bytes that \<open>portctrl\<close> takes for the SNAP type
  are then the first two bytes of the source address in the first subframe, which the code never
  uses. With these chosen as EAPOL, any body at all, in the clear and from a sender whose port is
  blocked, is passed up as a packet.
\<close>

theorem amsdu_bypasses_port:
  assumes "port_blocked s i" and "i < rp_frames s" and "rx_ok (rp_frame s i)"
    and "rx_payload (rp_frame s i) = Some (hdr @ amsdu_build [(da, 0x88 # 0x8e # sa, body, [])])"
    and "subframe_ok (da, 0x88 # 0x8e # sa, body, [])"
    and "length hdr = unat (pa_hdrlen (rf_attrib (rp_frame s i)))"
    and "pa = rf_attrib (rp_frame s i)" and "pa_amsdu pa = 1" and "pa_encrypt pa = 0" and "pa_iv_len pa = 0"
    and "pa_privacy pa = 0" and "pa_mfrag pa = 0" and "pa_frag_num pa = 0" and "unat (pa_priority pa) < TID_NUM"
    and "rf_psta (rp_frame s i) = Some sta" and "ro_enable (get_reorder s sta (unat (pa_priority pa))) = 0"
    and "ht_option (rp_env s)" and "\<And>n. msdu_ok (rp_env s) n"
  shows "\<exists>s'. recv_func_posthandle s i = Some (s', True) \<and>
     os_rx (rp_env s') = os_rx (rp_env s) @ [rtw_os_alloc_msdu_pkt pa body]"
proof -
  let ?f = "(rp_frame s i)\<lparr>rf_attrib := pa\<lparr>pa_bdecrypted := 1\<rparr>\<rparr>" and ?m = "(da, 0x88 # 0x8e # sa, body, [] :: bytes)"
  let ?s1 = "on_rp_adapter (call Led_control_rx) s"
  let ?s2 = "set_rp_frame i ?f ?s1"
  have s1: "same_rx s ?s1" by (rule same_rx_call)
  have sp: "rp_sp ?s2 = rp_sp s" "rp_sec ?s2 = rp_sec s"
    by (simp_all add: on_rp_adapter_def on_rp_env_def call_def)
  have f1: "rp_frame ?s1 i = rp_frame s i" "i < rp_frames ?s1" using s1 assms(2) by (simp_all add: same_rx_def)
  have f2: "rp_frame ?s2 i = ?f" using f1 by (simp add: rp_frame_set)
  have dec: "decryptor ?s1 i = Some (?s2, True)"
    using decryptor_plain [of ?s1 i] f1(1) assms(7,9) by simp
  obtain st where st: "rtw_get_stainfo (rp_sp s) (Some (pa_ta pa)) = Some st" "ieee8021x_blocked (sta_of (rp_sp s) st) \<noteq> 0"
      "dot11AuthAlgrthm (rp_sec s) = 2"
    using assms(1,7) by (auto simp: port_blocked_def)
  have def: "recvframe_chk_defrag ?s2 i = Some (?s2, Some i)"
    using st(1) assms(11-13) by (intro chk_defrag_whole [where sta = st]) (simp_all only: f2 sp, simp_all)
  have ok: "rx_ok ?f" "rx_payload ?f = Some (hdr @ amsdu_build [?m])"
    using assms(3,4) by (simp_all add: rx_ok_def rx_end_def rx_payload_def rx_rd_def)
  have m: "8 \<le> length (amsdu_build [?m])" "be16_val (drop 6 (amsdu_build [?m])) = 0x888e"
    using assms(5) by (auto simp: subframe_ok_def ETH_ALEN_def be16_val_def)
  have pb: "port_blocked ?s2 i" unfolding port_blocked_def f2 sp using st by simp
  note pc = portctrl_blocked [OF pb, of hdr "[]" "amsdu_build [?m]", unfolded f2]
  have port: "portctrl ?s2 i = Some (?s2, True)"
    using pc ok m(1) assms(6,7,10) by (simp only: m(2)) simp
  obtain s3 where s3: "count_rx_stats ?s2 ?f None = Some s3" "same_rx ?s2 s3"
    using same_rx_stats [of ?f ?s2 None] assms(14) by auto
  have r2: "get_reorder ?s2 = get_reorder s" "ht_option (rp_env ?s2) = ht_option (rp_env s)"
      "msdu_ok (rp_env ?s2) = msdu_ok (rp_env s)"
    using s1 by (simp_all add: same_rx_def)
  have f3: "rp_frame s3 i = ?f" using s3(2) f2 by (simp add: same_rx_def)
  have "\<exists>s'. rx_indicate s3 i = Some (s', True) \<and>
     os_rx (rp_env s') = os_rx (rp_env s3) @ [rtw_os_alloc_msdu_pkt (pa\<lparr>pa_bdecrypted := 1\<rparr>) (fst (snd (snd ?m)))]"
    using ok assms(5-8,10,14-18) s3(2) r2 f3
    by (intro indicate_amsdu_disabled [where hdr = hdr and sta = sta]) (simp_all add: same_rx_def)
  then obtain s' where s': "rx_indicate s3 i = Some (s', True)"
      "os_rx (rp_env s') = os_rx (rp_env s3) @ [rtw_os_alloc_msdu_pkt (pa\<lparr>pa_bdecrypted := 1\<rparr>) body]" by auto
  have "os_rx (rp_env s3) = os_rx (rp_env s)" using s3(2) s1 by (simp add: same_rx_def)
  moreover have "rtw_os_alloc_msdu_pkt (pa\<lparr>pa_bdecrypted := 1\<rparr>) body = rtw_os_alloc_msdu_pkt pa body"
    by (cases pa) (simp only: rtw_os_alloc_msdu_pkt_def rx_pkt_attrib.simps)
  moreover have "recv_func_posthandle s i = Some (s', True)"
    using dec def port s3(1) s'(1) by (simp add: recv_func_posthandle_def Let_def f2)
  ultimately show ?thesis using s'(2) by simp
qed

theorem amsdu_bypasses_port_witness:
  "\<exists>s'. recv_func_posthandle (guard_ex 1 (replicate 24 9 @ amsdu_build
        [([7, 7, 7, 7, 7, 7], [0x88, 0x8e, 0, 0, 0, 0], rtw_rfc1042_header @ [8, 0, 77, 78], [])])) 0 = Some (s', True) \<and>
     os_rx (rp_env s') = [[1, 1, 1, 1, 1, 1] @ [2, 2, 2, 2, 2, 2] @ [8, 0, 77, 78]]"
proof -
  let ?m = "([7, 7, 7, 7, 7, 7], 0x88 # 0x8e # [0, 0, 0, 0], rtw_rfc1042_header @ [8, 0, 77, 78], []) :: bytes \<times> bytes \<times> bytes \<times> bytes"
  let ?ps = "replicate 24 9 @ amsdu_build [?m]"
  let ?s = "guard_ex 1 ?ps" and ?pa = "(pa_ex 1)\<lparr>pa_ta := [4, 4, 4, 4, 4, 4]\<rparr>"
  have pa: "rf_attrib (rp_frame ?s 0) = ?pa" by (simp add: frame_ex_def)
  have m: "subframe_ok ?m"
    by (simp add: subframe_ok_def ETH_ALEN_def rtw_rfc1042_header_def amsdu_padding_def ETH_HLEN_def)
  have v: "rx_view (rp_frame ?s 0) [] ?ps []"
    by (rule guard_ex_view) (simp add: rtw_rfc1042_header_def be16_bytes_def)
  have p: "rtw_os_alloc_msdu_pkt ?pa (rtw_rfc1042_header @ [8, 0, 77, 78]) =
      [1, 1, 1, 1, 1, 1] @ [2, 2, 2, 2, 2, 2] @ [8, 0, 77, 78]"
    by (simp add: rtw_os_alloc_msdu_pkt_def rtw_rfc1042_header_def pa_ex_def SNAP_SIZE_def be16_val_def)
  have o: "os_rx (rp_env ?s) = []" by (simp add: guard_ex_def path_ex_def env_ex_def)
  have e: "0 < rp_frames (guard_ex 1 ps)" "ht_option (rp_env (guard_ex 1 ps))" "msdu_ok (rp_env (guard_ex 1 ps)) n" for ps n
    by (simp_all add: guard_ex_def path_ex_def env_ex_def)
  have f: "rf_psta (rp_frame (guard_ex 1 ps) 0) = Some 0" for ps by simp
  have r: "ro_enable (get_reorder (guard_ex 1 ps) 0 0) = 0" for ps
    by (simp add: guard_ex_def get_reorder_def sta_of_def rx_blocked_ex_def rx_sta_ex_def rtw_init_stainfo_def
        rtw_init_sta_recv_priv_def reorder_zero_def TID_NUM_def recv_reorder_ctrl.defs)
  have a: "length (replicate 24 (9 :: u8)) = unat (pa_hdrlen ?pa)" "pa_amsdu ?pa = 1" "pa_encrypt ?pa = 0"
      "pa_iv_len ?pa = 0" "pa_privacy ?pa = 0" "pa_mfrag ?pa = 0" "pa_frag_num ?pa = 0" "unat (pa_priority ?pa) = 0"
      "(0 :: nat) < TID_NUM"
    by (simp_all add: pa_ex_def TID_NUM_def)
  show ?thesis
    using amsdu_bypasses_port [OF guard_ex_blocked e(1) rx_view_ok [OF v] rx_view_payload [OF v] m _ pa [symmetric]
        a(2-7) _ f] a(1,8,9) r e(2,3) p o by (simp only: pa) simp
qed

end
