(* ===== verification/Usb_Io.thy ===== *)
theory Usb_Io
  imports Drv_Prelude "HOL-Library.State_Monad"
begin

text \<open>
  Access to the registers of the chip over USB: \<open>_rtw_read8\<close> to \<open>_rtw_writeN\<close>
  (\<open>core/rtw_io.c\<close>), \<open>usb_read8\<close> to \<open>usb_writeN\<close>
  (\<open>hal/hal_hci/hal_usb.c\<close>) and \<open>usbctrl_vendorreq\<close>
  (\<open>os_dep/linux/usb_ops_linux.c\<close>) with its retries and its count of consecutive errors.
  The kernel (\<open>usb_control_msg\<close>, the delays and the clock) with the chip behind it is the
  parameter \<open>usb_host\<close>, over a state of any type. The operations run in the state monad.
\<close>

section \<open>State\<close>

text \<open>
  \<open>usb_control_msg rd value buf h\<close> is a control transfer to or from the register \<open>value\<close>:
  the status (the number of bytes, or a negative error), the buffer afterwards, and the new state.
\<close>

record 'h usb_host =
  usb_control_msg :: "bool \<Rightarrow> u16 \<Rightarrow> bytes \<Rightarrow> 'h \<Rightarrow> int \<times> bytes \<times> 'h"
  os_delay :: "nat \<Rightarrow> 'h \<Rightarrow> 'h"
  jiffies :: "'h \<Rightarrow> u32"
  host_HZ :: nat

text \<open>The log of the transfers (direction, register, buffer, status) only serves the theorems.\<close>

datatype ctl_event = Ctl (ctl_in: bool) (ctl_reg: u16) (ctl_data: bytes) (ctl_status: int)

record 'h usb_dev =
  udev :: 'h
  continual_io_error :: int
  bSurpriseRemoved :: bool
  disable_func :: u32
  io_log :: "ctl_event list"

type_synonym ('h, 'a) io = "('h usb_dev, 'a) state"

definition DF_IO_BIT :: u32 where "DF_IO_BIT = 0x4"

definition RTW_CANNOT_IO :: "'h usb_dev \<Rightarrow> bool" where
  "RTW_CANNOT_IO d \<longleftrightarrow> bSurpriseRemoved d \<or> disable_func d AND DF_IO_BIT \<noteq> 0"

definition MAX_CONTINUAL_IO_ERR :: int where "MAX_CONTINUAL_IO_ERR = 4"
definition MAX_USBCTRL_VENDORREQ_TIMES :: nat where "MAX_USBCTRL_VENDORREQ_TIMES = 10"
definition MAX_VENDOR_REQ_CMD_SIZE :: nat where "MAX_VENDOR_REQ_CMD_SIZE = 254"
definition FW_START_ADDRESS :: u16 where "FW_START_ADDRESS = 0x1000"
definition ESHUTDOWN :: int where "ESHUTDOWN = 108"
definition ENODEV :: int where "ENODEV = 19"
definition EPERM :: int where "EPERM = 1"
definition EINVAL :: int where "EINVAL = 22"

definition rtw_reset_continual_io_error :: "'h usb_dev \<Rightarrow> 'h usb_dev" where
  "rtw_reset_continual_io_error d = d\<lparr>continual_io_error := 0\<rparr>"

definition rtw_inc_and_chk_continual_io_error :: "'h usb_dev \<Rightarrow> bool \<times> 'h usb_dev" where
  "rtw_inc_and_chk_continual_io_error d =
     (let v = continual_io_error d + 1 in (v > MAX_CONTINUAL_IO_ERR, d\<lparr>continual_io_error := v\<rparr>))"

section \<open>The vendor request\<close>

text \<open>One transfer, with its entry in the log.\<close>

definition ctl_msg :: "'h usb_host \<Rightarrow> bool \<Rightarrow> u16 \<Rightarrow> bytes \<Rightarrow> 'h usb_dev \<Rightarrow> int \<times> bytes \<times> 'h usb_dev" where
  "ctl_msg H rd value buf d =
     (case usb_control_msg H rd value buf (udev d) of
        (status, buf', h) \<Rightarrow>
          (status, buf', d\<lparr>udev := h, io_log := io_log d @ [Ctl rd value (if rd then buf' else buf) status]\<rparr>))"

text \<open>The loop of retries; the first argument is the number of rounds left.\<close>

fun vendorreq_loop ::
    "nat \<Rightarrow> 'h usb_host \<Rightarrow> bool \<Rightarrow> u16 \<Rightarrow> bytes \<Rightarrow> int \<Rightarrow> 'h usb_dev \<Rightarrow> (int \<times> bytes) \<times> 'h usb_dev" where
  "vendorreq_loop 0 H rd value pdata status d = ((status, pdata), d)"
| "vendorreq_loop (Suc n) H rd value pdata status d =
     (case ctl_msg H rd value (if rd then replicate (length pdata) 0 else pdata) d of
        (status, buf, d) \<Rightarrow>
          if status = int (length pdata)
          then ((status, if rd then buf else pdata), rtw_reset_continual_io_error d)
          else
            (let d = (if status = - ESHUTDOWN \<or> status = - ENODEV then d\<lparr>bSurpriseRemoved := True\<rparr> else d);
                 pdata = (if status > 0 \<and> rd then buf else pdata);
                 (err, d) = rtw_inc_and_chk_continual_io_error d
             in if err then ((status, pdata), d\<lparr>bSurpriseRemoved := True\<rparr>)
                else if value \<ge> FW_START_ADDRESS then ((status, pdata), d)
                else vendorreq_loop n H rd value pdata status d))"

lemmas vendorreq_loop_numeral [simp] =
  vendorreq_loop.simps(2) [of "pred_numeral k" for k, folded numeral_eq_Suc]

definition usbctrl_vendorreq :: "'h usb_host \<Rightarrow> bool \<Rightarrow> u16 \<Rightarrow> bytes \<Rightarrow> ('h, int \<times> bytes) io" where
  "usbctrl_vendorreq H rd value pdata = State (\<lambda>d.
     if RTW_CANNOT_IO d then ((- EPERM, pdata), d)
     else if length pdata > MAX_VENDOR_REQ_CMD_SIZE then ((- EINVAL, pdata), d)
     else vendorreq_loop MAX_USBCTRL_VENDORREQ_TIMES H rd value pdata 0 d)"

section \<open>Registers\<close>

definition RTW_STATUS_CODE :: "int \<Rightarrow> bool" where "RTW_STATUS_CODE error_code \<longleftrightarrow> error_code \<ge> 0"

definition le16_bytes :: "u16 \<Rightarrow> bytes" where "le16_bytes v = [ucast v, ucast (drop_bit 8 v)]"

definition le16_read :: "bytes \<Rightarrow> u16" where
  "le16_read b = ucast (b ! 0) OR push_bit 8 (ucast (b ! 1))"

definition le32_read :: "bytes \<Rightarrow> u32" where
  "le32_read b = ucast (b ! 0) OR push_bit 8 (ucast (b ! 1)) OR push_bit 16 (ucast (b ! 2)) OR push_bit 24 (ucast (b ! 3))"

definition rtw_read8 :: "'h usb_host \<Rightarrow> u32 \<Rightarrow> ('h, u8) io" where
  "rtw_read8 H addr = do {
     (_, data) \<leftarrow> usbctrl_vendorreq H True (ucast addr) [0];
     State_Monad.return (data ! 0) }"

definition rtw_read16 :: "'h usb_host \<Rightarrow> u32 \<Rightarrow> ('h, u16) io" where
  "rtw_read16 H addr = do {
     (_, data) \<leftarrow> usbctrl_vendorreq H True (ucast addr) [0, 0];
     State_Monad.return (le16_read data) }"

definition rtw_read32 :: "'h usb_host \<Rightarrow> u32 \<Rightarrow> ('h, u32) io" where
  "rtw_read32 H addr = do {
     (_, data) \<leftarrow> usbctrl_vendorreq H True (ucast addr) [0, 0, 0, 0];
     State_Monad.return (le32_read data) }"

definition rtw_write8 :: "'h usb_host \<Rightarrow> u32 \<Rightarrow> u8 \<Rightarrow> ('h, bool) io" where
  "rtw_write8 H addr val = do {
     (status, _) \<leftarrow> usbctrl_vendorreq H False (ucast addr) [val];
     State_Monad.return (RTW_STATUS_CODE status) }"

definition rtw_write16 :: "'h usb_host \<Rightarrow> u32 \<Rightarrow> u16 \<Rightarrow> ('h, bool) io" where
  "rtw_write16 H addr val = do {
     (status, _) \<leftarrow> usbctrl_vendorreq H False (ucast addr) (le16_bytes val);
     State_Monad.return (RTW_STATUS_CODE status) }"

definition rtw_write32 :: "'h usb_host \<Rightarrow> u32 \<Rightarrow> u32 \<Rightarrow> ('h, bool) io" where
  "rtw_write32 H addr val = do {
     (status, _) \<leftarrow> usbctrl_vendorreq H False (ucast addr) (le32_bytes val);
     State_Monad.return (RTW_STATUS_CODE status) }"

text \<open>\<open>usb_writeN\<close> copies the data into a buffer of 254 bytes; the callers pass at most 196.\<close>

definition rtw_writeN :: "'h usb_host \<Rightarrow> u32 \<Rightarrow> bytes \<Rightarrow> ('h, bool) io" where
  "rtw_writeN H addr pdata = do {
     (status, _) \<leftarrow> usbctrl_vendorreq H False (ucast addr) pdata;
     State_Monad.return (RTW_STATUS_CODE status) }"

definition rtw_udelay_os :: "'h usb_host \<Rightarrow> nat \<Rightarrow> ('h, unit) io" where
  "rtw_udelay_os H us = State (\<lambda>d. ((), d\<lparr>udev := os_delay H us (udev d)\<rparr>))"

section \<open>Retries\<close>

definition io_ok :: "'h usb_dev \<Rightarrow> bool" where
  "io_ok d \<longleftrightarrow> 0 \<le> continual_io_error d \<and> continual_io_error d \<le> MAX_CONTINUAL_IO_ERR + 1 \<and>
     (continual_io_error d = MAX_CONTINUAL_IO_ERR + 1 \<longrightarrow> bSurpriseRemoved d)"

definition gone :: "ctl_event \<Rightarrow> bool" where
  "gone e \<longleftrightarrow> ctl_status e = - ESHUTDOWN \<or> ctl_status e = - ENODEV"

definition host_ok :: "'h usb_host \<Rightarrow> bool" where
  "host_ok H \<longleftrightarrow> (\<forall>rd v b h. length (fst (snd (usb_control_msg H rd v b h))) = length b)"

text \<open>The transfers \<open>evs\<close> of one request of \<open>len\<close> bytes that ends with \<open>status\<close>.\<close>

definition transfers :: "bool \<Rightarrow> u16 \<Rightarrow> bytes \<Rightarrow> ctl_event list \<Rightarrow> int \<Rightarrow> bool" where
  "transfers rd v p evs status \<longleftrightarrow>
     evs \<noteq> [] \<and> ctl_status (last evs) = status \<and>
     list_all (\<lambda>e. ctl_in e = rd \<and> ctl_reg e = v \<and> (\<not> rd \<longrightarrow> ctl_data e = p)) evs \<and>
     list_all (\<lambda>e. ctl_status e \<noteq> int (length p)) (butlast evs)"

lemma transfers_Cons:
  "transfers rd v p evs status \<Longrightarrow> ctl_status e \<noteq> int (length p) \<Longrightarrow> ctl_in e = rd \<Longrightarrow> ctl_reg e = v \<Longrightarrow>
     (\<not> rd \<longrightarrow> ctl_data e = p) \<Longrightarrow> transfers rd v p (e # evs) status"
  by (auto simp: transfers_def)

lemma transfers_len: "length p = length q \<Longrightarrow> (\<not> rd \<longrightarrow> p = q) \<Longrightarrow> transfers rd v p = transfers rd v q"
  by (auto simp: transfers_def fun_eq_iff)

text \<open>What one request does to the counter of errors and to the mark of removal.\<close>

definition io_outcome :: "'h usb_dev \<Rightarrow> nat \<Rightarrow> ctl_event list \<Rightarrow> int \<Rightarrow> 'h usb_dev \<Rightarrow> bool" where
  "io_outcome d len evs status d' \<longleftrightarrow>
     io_log d' = io_log d @ evs \<and> disable_func d' = disable_func d \<and>
     continual_io_error d' = (if status = int len then 0 else continual_io_error d + int (length evs)) \<and>
     continual_io_error d' \<le> MAX_CONTINUAL_IO_ERR + 1 \<and>
     (bSurpriseRemoved d' \<longleftrightarrow>
        bSurpriseRemoved d \<or> (\<exists>e\<in>set evs. gone e) \<or> continual_io_error d' = MAX_CONTINUAL_IO_ERR + 1)"

lemma ctl_msg_cases:
  obtains status buf d' where "ctl_msg H rd v b d = (status, buf, d')"
    "io_log d' = io_log d @ [Ctl rd v (if rd then buf else b) status]" "disable_func d' = disable_func d"
    "continual_io_error d' = continual_io_error d" "bSurpriseRemoved d' = bSurpriseRemoved d"
    "host_ok H \<Longrightarrow> length buf = length b"
proof (cases "usb_control_msg H rd v b (udev d)")
  case (fields status buf h)
  show thesis
  proof (rule that)
    show "ctl_msg H rd v b d = (status, buf, d\<lparr>udev := h, io_log := io_log d @ [Ctl rd v (if rd then buf else b) status]\<rparr>)"
      using fields by (simp add: ctl_msg_def)
    show "length buf = length b" if "host_ok H"
      using that [unfolded host_ok_def, rule_format, of rd v b "udev d"] fields by simp
  qed simp_all
qed

lemma io_outcome_Cons:
  assumes "io_outcome d1 len evs status d'" and "evs \<noteq> []"
    and "io_log d1 = io_log d @ [e]" and "disable_func d1 = disable_func d"
    and "continual_io_error d1 = continual_io_error d + 1"
    and "bSurpriseRemoved d1 \<longleftrightarrow> bSurpriseRemoved d \<or> gone e"
  shows "io_outcome d len (e # evs) status d'"
  using assms by (auto simp: io_outcome_def)

lemma vendorreq_loop_transfers:
  assumes "host_ok H" and "vendorreq_loop n H rd v p st d = ((status, p'), d')" and "0 < n"
    and "0 \<le> continual_io_error d" and "continual_io_error d \<le> MAX_CONTINUAL_IO_ERR"
  shows "\<exists>evs. transfers rd v p evs status \<and> io_outcome d (length p) evs status d' \<and>
     int (length evs) \<le> MAX_CONTINUAL_IO_ERR + 1 - continual_io_error d \<and>
     (FW_START_ADDRESS \<le> v \<longrightarrow> length evs = 1) \<and> length p' = length p \<and>
     (\<not> FW_START_ADDRESS \<le> v \<longrightarrow> MAX_CONTINUAL_IO_ERR + 1 \<le> continual_io_error d + int n \<longrightarrow>
        status = int (length p) \<or> continual_io_error d' = MAX_CONTINUAL_IO_ERR + 1)"
  using assms(2-)
proof (induction n arbitrary: p st d)
  case (Suc n)
  let ?b = "if rd then replicate (length p) 0 else p"
  obtain s1 buf d1 where m: "ctl_msg H rd v ?b d = (s1, buf, d1)"
    and l1: "io_log d1 = io_log d @ [Ctl rd v (if rd then buf else ?b) s1]" "disable_func d1 = disable_func d"
      "continual_io_error d1 = continual_io_error d" "bSurpriseRemoved d1 = bSurpriseRemoved d"
    and len: "length buf = length p"
    by (rule ctl_msg_cases [of H rd v ?b d]) (auto simp: assms(1))
  let ?e = "Ctl rd v (if rd then buf else ?b) s1"
  let ?d2 = "if s1 = - ESHUTDOWN \<or> s1 = - ENODEV then d1\<lparr>bSurpriseRemoved := True\<rparr> else d1"
  let ?d3 = "?d2\<lparr>continual_io_error := continual_io_error d + 1\<rparr>"
  let ?p2 = "if s1 > 0 \<and> rd then buf else p"
  have one: "transfers rd v p [?e] s1" by (simp add: transfers_def)
  have l3: "io_log ?d3 = io_log d @ [?e]" "disable_func ?d3 = disable_func d"
      "bSurpriseRemoved ?d3 \<longleftrightarrow> bSurpriseRemoved d \<or> gone ?e"
    using l1 by (auto simp: gone_def)
  have p2: "length ?p2 = length p" "\<not> rd \<longrightarrow> ?p2 = p" using len by simp_all
  have inc: "rtw_inc_and_chk_continual_io_error ?d2 = (continual_io_error d + 1 > MAX_CONTINUAL_IO_ERR, ?d3)"
    using l1(3) by (simp add: rtw_inc_and_chk_continual_io_error_def Let_def)
  consider (ok) "s1 = int (length p)" | (max) "s1 \<noteq> int (length p)" "continual_io_error d + 1 > MAX_CONTINUAL_IO_ERR"
    | (stop) "s1 \<noteq> int (length p)" "continual_io_error d + 1 \<le> MAX_CONTINUAL_IO_ERR" "FW_START_ADDRESS \<le> v \<or> n = 0"
    | (again) "s1 \<noteq> int (length p)" "continual_io_error d + 1 \<le> MAX_CONTINUAL_IO_ERR" "\<not> FW_START_ADDRESS \<le> v" "0 < n"
    by linarith
  then show ?case
  proof cases
    case ok
    then have "status = s1" "d' = rtw_reset_continual_io_error d1" "length p' = length p"
      using Suc.prems(1) m len by (auto simp: Let_def)
    moreover have "\<not> gone ?e" using ok by (auto simp: gone_def ESHUTDOWN_def ENODEV_def)
    ultimately show ?thesis
      using one l1 ok Suc.prems(3,4)
      by (intro exI [of _ "[?e]"]) (auto simp: io_outcome_def rtw_reset_continual_io_error_def MAX_CONTINUAL_IO_ERR_def)
  next
    case max
    then have "status = s1" "d' = ?d3\<lparr>bSurpriseRemoved := True\<rparr>" "p' = ?p2"
      using Suc.prems(1) m inc by (auto simp: Let_def split: if_splits)
    then show ?thesis
      using one l3 p2(1) max Suc.prems(4) by (intro exI [of _ "[?e]"]) (auto simp: io_outcome_def)
  next
    case stop
    then have "status = s1" "d' = ?d3" "p' = ?p2"
      using Suc.prems(1) m inc by (auto simp: Let_def split: if_splits)
    then show ?thesis
      using one l3 p2(1) stop Suc.prems(4) by (intro exI [of _ "[?e]"]) (auto simp: io_outcome_def)
  next
    case again
    then have rec: "vendorreq_loop n H rd v ?p2 s1 ?d3 = ((status, p'), d')"
      using Suc.prems(1) m inc by (auto simp: Let_def split: if_splits)
    have "0 \<le> continual_io_error ?d3" "continual_io_error ?d3 \<le> MAX_CONTINUAL_IO_ERR"
      using Suc.prems(3) again(2) by simp_all
    from Suc.IH [OF rec again(4) this] obtain evs where evs: "transfers rd v ?p2 evs status"
        "io_outcome ?d3 (length ?p2) evs status d'" "int (length evs) \<le> MAX_CONTINUAL_IO_ERR + 1 - continual_io_error ?d3"
        "length p' = length ?p2"
        "\<not> FW_START_ADDRESS \<le> v \<longrightarrow> MAX_CONTINUAL_IO_ERR + 1 \<le> continual_io_error ?d3 + int n \<longrightarrow>
           status = int (length ?p2) \<or> continual_io_error d' = MAX_CONTINUAL_IO_ERR + 1" by blast
    have "transfers rd v p (?e # evs) status"
      using evs(1) again(1) transfers_len [OF p2] by (intro transfers_Cons) auto
    moreover have "io_outcome d (length p) (?e # evs) status d'"
      using evs(1,2) l3 p2(1) by (intro io_outcome_Cons [where ?d1.0 = ?d3]) (auto simp: transfers_def)
    ultimately show ?thesis using evs(3-5) p2(1) again(3) by (intro exI [of _ "?e # evs"]) auto
  qed
qed simp

lemma io_outcome_ok: "io_ok d \<Longrightarrow> io_outcome d len evs status d' \<Longrightarrow> io_ok d'"
  by (auto simp: io_ok_def io_outcome_def MAX_CONTINUAL_IO_ERR_def split: if_splits)

lemma io_outcome_removed:
  "io_outcome d len evs status d' \<Longrightarrow> continual_io_error d' = MAX_CONTINUAL_IO_ERR + 1 \<Longrightarrow> bSurpriseRemoved d'"
  by (simp add: io_outcome_def)

lemma vendorreq_run:
  assumes "host_ok H" and "io_ok d" and "length p \<le> MAX_VENDOR_REQ_CMD_SIZE" and "\<not> RTW_CANNOT_IO d"
    and "run_state (usbctrl_vendorreq H rd v p) d = ((status, p'), d')"
  shows "\<exists>evs. transfers rd v p evs status \<and> io_outcome d (length p) evs status d' \<and>
     int (length evs) \<le> MAX_CONTINUAL_IO_ERR + 1 - continual_io_error d \<and>
     (FW_START_ADDRESS \<le> v \<longrightarrow> length evs = 1) \<and> length p' = length p \<and>
     (\<not> FW_START_ADDRESS \<le> v \<longrightarrow> status = int (length p) \<or> continual_io_error d' = MAX_CONTINUAL_IO_ERR + 1)"
proof -
  have "vendorreq_loop MAX_USBCTRL_VENDORREQ_TIMES H rd v p 0 d = ((status, p'), d')"
    using assms(3-5) by (simp add: usbctrl_vendorreq_def)
  from vendorreq_loop_transfers [OF assms(1) this] show ?thesis
    using assms(2,4)
    by (fastforce simp: io_ok_def RTW_CANNOT_IO_def MAX_USBCTRL_VENDORREQ_TIMES_def MAX_CONTINUAL_IO_ERR_def)
qed

text \<open>
  C38: A vendor request tries again until a transfer is complete, but five consecutive failures end
  it, long before the ten rounds the loop allows, and mark the device as removed, as does an
  answer that it is gone; a request for the firmware window is made once. A complete transfer
  resets the count; a request for a register that is not carried out leaves the device marked. On
  a removed device nothing is sent.
\<close>

theorem vendorreq_retries:
  assumes "host_ok H" and "io_ok d" and "length p \<le> MAX_VENDOR_REQ_CMD_SIZE"
    and "run_state (usbctrl_vendorreq H rd v p) d = ((status, p'), d')"
  shows "io_ok d' \<and>
     (if RTW_CANNOT_IO d then status = - EPERM \<and> d' = d
      else \<exists>evs. transfers rd v p evs status \<and> io_outcome d (length p) evs status d' \<and>
             int (length evs) \<le> MAX_CONTINUAL_IO_ERR + 1 - continual_io_error d \<and>
             (FW_START_ADDRESS \<le> v \<longrightarrow> length evs = 1) \<and>
             (\<not> FW_START_ADDRESS \<le> v \<longrightarrow> status = int (length p) \<or> bSurpriseRemoved d'))"
proof (cases "RTW_CANNOT_IO d")
  case True
  then show ?thesis using assms(2,4) by (auto simp: usbctrl_vendorreq_def)
next
  case False
  from vendorreq_run [OF assms(1-3) False assms(4)] show ?thesis
    using io_outcome_ok [OF assms(2)] io_outcome_removed False by metis
qed

text \<open>A kernel whose first transfers time out, as many as its state says.\<close>

definition flaky_host :: "nat usb_host" where
  "flaky_host = \<lparr>usb_control_msg = (\<lambda>rd v b h. if h = 0 then (int (length b), b, 0) else (- 110, b, h - 1)),
     os_delay = (\<lambda>_ h. h), jiffies = (\<lambda>_. 0), host_HZ = 100\<rparr>"

definition usb_dev_ex :: "'h \<Rightarrow> 'h usb_dev" where
  "usb_dev_ex h = \<lparr>udev = h, continual_io_error = 0, bSurpriseRemoved = False, disable_func = 0, io_log = []\<rparr>"

theorem vendorreq_retries_witness:
  "\<exists>d' evs. run_state (usbctrl_vendorreq flaky_host False 0x80 [7]) (usb_dev_ex 7) = ((- 110, [7]), d') \<and>
     io_outcome (usb_dev_ex 7) 1 evs (- 110) d' \<and> length evs = 5 \<and> bSurpriseRemoved d'"
proof -
  have ok: "host_ok flaky_host" "io_ok (usb_dev_ex (7 :: nat))"
    by (simp_all add: host_ok_def flaky_host_def io_ok_def usb_dev_ex_def MAX_CONTINUAL_IO_ERR_def)
  have "\<not> RTW_CANNOT_IO (usb_dev_ex (7 :: nat))" by (simp add: RTW_CANNOT_IO_def usb_dev_ex_def)
  moreover
  have n: "MAX_USBCTRL_VENDORREQ_TIMES = 10" "\<not> FW_START_ADDRESS \<le> 0x80"
    by (simp_all add: MAX_USBCTRL_VENDORREQ_TIMES_def FW_START_ADDRESS_def)
  have "fst (run_state (usbctrl_vendorreq flaky_host False 0x80 [7]) (usb_dev_ex 7)) = (- 110, [7])"
      "continual_io_error (snd (run_state (usbctrl_vendorreq flaky_host False 0x80 [7]) (usb_dev_ex 7))) = 5"
    by (simp_all add: n usbctrl_vendorreq_def RTW_CANNOT_IO_def usb_dev_ex_def MAX_VENDOR_REQ_CMD_SIZE_def
        ctl_msg_def flaky_host_def rtw_inc_and_chk_continual_io_error_def
        MAX_CONTINUAL_IO_ERR_def ESHUTDOWN_def ENODEV_def Let_def)
  ultimately show ?thesis
    using vendorreq_retries [OF ok, of "[7]" False "0x80"]
    by (cases "run_state (usbctrl_vendorreq flaky_host False 0x80 [7]) (usb_dev_ex 7)")
      (auto simp: io_outcome_def usb_dev_ex_def MAX_CONTINUAL_IO_ERR_def MAX_VENDOR_REQ_CMD_SIZE_def)
qed

section \<open>A chip that answers every transfer\<close>

definition answering :: "'h usb_host \<Rightarrow> bool" where
  "answering H \<longleftrightarrow> (\<forall>rd v b h. fst (usb_control_msg H rd v b h) = int (length b))"

definition reply :: "'h usb_host \<Rightarrow> bool \<Rightarrow> u16 \<Rightarrow> bytes \<Rightarrow> 'h \<Rightarrow> bytes" where
  "reply H rd v b h = fst (snd (usb_control_msg H rd v b h))"

definition after :: "'h usb_host \<Rightarrow> bool \<Rightarrow> u16 \<Rightarrow> bytes \<Rightarrow> 'h \<Rightarrow> 'h" where
  "after H rd v b h = snd (snd (usb_control_msg H rd v b h))"

definition served :: "'h usb_host \<Rightarrow> bool \<Rightarrow> u16 \<Rightarrow> bytes \<Rightarrow> 'h usb_dev \<Rightarrow> 'h usb_dev" where
  "served H rd v b d = d\<lparr>udev := after H rd v b (udev d), continual_io_error := 0,
     io_log := io_log d @ [Ctl rd v (if rd then reply H rd v b (udev d) else b) (int (length b))]\<rparr>"

lemma vendorreq_answered:
  assumes "answering H" and "\<not> RTW_CANNOT_IO d" and "length p \<le> MAX_VENDOR_REQ_CMD_SIZE"
  shows "run_state (usbctrl_vendorreq H rd v p) d =
     (let b = (if rd then replicate (length p) 0 else p)
      in ((int (length p), if rd then reply H rd v b (udev d) else p), served H rd v b d))"
proof -
  let ?b = "if rd then replicate (length p) 0 else p"
  obtain st buf h where m: "usb_control_msg H rd v ?b (udev d) = (st, buf, h)" by (metis prod.exhaust)
  have "st = int (length p)" using assms(1) m by (simp add: answering_def) (metis fst_conv length_replicate)
  then show ?thesis
    using assms(2,3) m
    by (cases rd) (simp_all add: usbctrl_vendorreq_def MAX_USBCTRL_VENDORREQ_TIMES_def ctl_msg_def
        rtw_reset_continual_io_error_def served_def reply_def after_def Let_def)
qed

lemma served_cannot [simp]: "RTW_CANNOT_IO (served H rd v b d) = RTW_CANNOT_IO d"
  by (simp add: RTW_CANNOT_IO_def served_def)

lemma answered_read8:
  "answering H \<Longrightarrow> \<not> RTW_CANNOT_IO d \<Longrightarrow> run_state (rtw_read8 H a) d =
     (reply H True (ucast a) [0] (udev d) ! 0, served H True (ucast a) [0] d)"
  by (simp add: rtw_read8_def vendorreq_answered MAX_VENDOR_REQ_CMD_SIZE_def Let_def)

lemma answered_write8:
  "answering H \<Longrightarrow> \<not> RTW_CANNOT_IO d \<Longrightarrow> run_state (rtw_write8 H a x) d = (True, served H False (ucast a) [x] d)"
  by (simp add: rtw_write8_def vendorreq_answered MAX_VENDOR_REQ_CMD_SIZE_def RTW_STATUS_CODE_def Let_def)

lemma answered_writeN:
  "answering H \<Longrightarrow> \<not> RTW_CANNOT_IO d \<Longrightarrow> length x \<le> MAX_VENDOR_REQ_CMD_SIZE \<Longrightarrow>
     run_state (rtw_writeN H a x) d = (True, served H False (ucast a) x d)"
  by (simp add: rtw_writeN_def vendorreq_answered RTW_STATUS_CODE_def Let_def)

text \<open>\<open>runs P m\<close>: from a usable device, \<open>m\<close> gives a result with \<open>P\<close> and leaves it usable.\<close>

definition runs :: "('a \<Rightarrow> bool) \<Rightarrow> ('h, 'a) io \<Rightarrow> bool" where
  "runs P m \<longleftrightarrow> (\<forall>d. \<not> RTW_CANNOT_IO d \<longrightarrow> P (fst (run_state m d)) \<and> \<not> RTW_CANNOT_IO (snd (run_state m d)))"

lemma runs_return [simp]: "P x \<Longrightarrow> runs P (State_Monad.return x)"
  by (simp add: runs_def)

lemma runs_bind: "runs P m \<Longrightarrow> (\<And>x. P x \<Longrightarrow> runs Q (f x)) \<Longrightarrow> runs Q (m \<bind> f)"
  by (auto simp: runs_def split: prod.splits)

lemma runs_read8: "answering H \<Longrightarrow> runs (\<lambda>_. True) (rtw_read8 H a)"
  by (simp add: runs_def answered_read8)

lemma runs_write8: "answering H \<Longrightarrow> runs (\<lambda>r. r) (rtw_write8 H a x)"
  by (simp add: runs_def answered_write8)

lemma runs_writeN: "answering H \<Longrightarrow> length x \<le> MAX_VENDOR_REQ_CMD_SIZE \<Longrightarrow> runs (\<lambda>r. r) (rtw_writeN H a x)"
  by (simp add: runs_def answered_writeN)

text \<open>A chip that takes every transfer and reads what is in the buffer.\<close>

definition echo_host :: "unit usb_host" where
  "echo_host = \<lparr>usb_control_msg = (\<lambda>rd v b h. (int (length b), b, h)), os_delay = (\<lambda>_ h. h),
     jiffies = (\<lambda>_. 0), host_HZ = 100\<rparr>"

end
