(* ===== verification/Hal_Fw.thy ===== *)
theory Hal_Fw
  imports Usb_Io
begin

text \<open>
  Download of the firmware (\<open>hal/rtl8188f/rtl8188f_hal_init.c\<close>): the image is written page by
  page through a window of 4096 bytes at 0x1000, each page in blocks of 196, 8 and 1 bytes; then
  the driver waits for the checksum and for the firmware to start. The specification replays the
  log of transfers on a paged memory.
\<close>

section \<open>Registers\<close>

definition REG_SYS_FUNC_EN :: u32 where "REG_SYS_FUNC_EN = 0x2"
definition REG_RSV_CTRL :: u32 where "REG_RSV_CTRL = 0x1C"
definition REG_MCUFWDL :: u32 where "REG_MCUFWDL = 0x80"
definition REG_HMETFR :: u32 where "REG_HMETFR = 0x1CC"
definition FWDL_ChkSum_rpt :: u32 where "FWDL_ChkSum_rpt = 0x4"
definition MCUFWDL_RDY :: u32 where "MCUFWDL_RDY = 0x2"
definition WINTINI_RDY :: u32 where "WINTINI_RDY = 0x40"
definition RAM_DL_SEL :: u32 where "RAM_DL_SEL = 0x80"
definition FW_8188F_SIZE :: nat where "FW_8188F_SIZE = 0x8000"
definition FW_8188F_START_ADDRESS :: nat where "FW_8188F_START_ADDRESS = 0x1000"
definition MAX_DLFW_PAGE_SIZE :: nat where "MAX_DLFW_PAGE_SIZE = 4096"

section \<open>Writing the image\<close>

text \<open>The wait for the enable bit: at most 101 rounds.\<close>

fun fwdl_enable_wait :: "nat \<Rightarrow> 'h usb_host \<Rightarrow> ('h, unit) io" where
  "fwdl_enable_wait 0 H = State_Monad.return ()"
| "fwdl_enable_wait (Suc n) H = do {
     tmp \<leftarrow> rtw_read8 H REG_MCUFWDL;
     if tmp AND 1 \<noteq> 0 then State_Monad.return ()
     else do {
       _ \<leftarrow> rtw_write8 H REG_MCUFWDL (tmp OR 1);
       _ \<leftarrow> rtw_udelay_os H 1000;
       fwdl_enable_wait n H } }"

definition FWDownloadEnable :: "'h usb_host \<Rightarrow> bool \<Rightarrow> ('h, unit) io" where
  "FWDownloadEnable H enable =
     (if enable
      then do {
        tmp \<leftarrow> rtw_read8 H (REG_SYS_FUNC_EN + 1);
        _ \<leftarrow> rtw_write8 H (REG_SYS_FUNC_EN + 1) (tmp OR 4);
        tmp \<leftarrow> rtw_read8 H REG_MCUFWDL;
        _ \<leftarrow> rtw_write8 H REG_MCUFWDL (tmp OR 1);
        _ \<leftarrow> fwdl_enable_wait 101 H;
        tmp \<leftarrow> rtw_read8 H (REG_MCUFWDL + 2);
        _ \<leftarrow> rtw_write8 H (REG_MCUFWDL + 2) (tmp AND 0xf7);
        State_Monad.return () }
      else do {
        tmp \<leftarrow> rtw_read8 H REG_MCUFWDL;
        _ \<leftarrow> rtw_write8 H REG_MCUFWDL (tmp AND 0xfe);
        State_Monad.return () })"

text \<open>
  A phase of \<open>_BlockWrite\<close>: \<open>n\<close> blocks of \<open>bs\<close> bytes from \<open>off\<close> on, until
  one fails.
\<close>

fun block_loop :: "(u32 \<Rightarrow> bytes \<Rightarrow> ('h, bool) io) \<Rightarrow> nat \<Rightarrow> bytes \<Rightarrow> nat \<Rightarrow> nat \<Rightarrow> ('h, bool) io" where
  "block_loop wr bs buffer off 0 = State_Monad.return True"
| "block_loop wr bs buffer off (Suc n) = do {
     ret \<leftarrow> wr (of_nat (FW_8188F_START_ADDRESS + off)) (take bs (drop off buffer));
     if ret then block_loop wr bs buffer (off + bs) n else State_Monad.return False }"

definition BlockWrite :: "'h usb_host \<Rightarrow> bytes \<Rightarrow> ('h, bool) io" where
  "BlockWrite H buffer =
     (let buffSize = length buffer; blockSize_p1 = 196; blockSize_p2 = 8;
          blockCount_p1 = buffSize div blockSize_p1; remainSize_p1 = buffSize mod blockSize_p1;
          blockCount_p2 = remainSize_p1 div blockSize_p2; remainSize_p2 = remainSize_p1 mod blockSize_p2
      in do {
        ret \<leftarrow> block_loop (rtw_writeN H) blockSize_p1 buffer 0 blockCount_p1;
        if \<not> ret then State_Monad.return False
        else do {
          ret \<leftarrow> block_loop (rtw_writeN H) blockSize_p2 buffer (blockCount_p1 * blockSize_p1) blockCount_p2;
          if \<not> ret then State_Monad.return False
          else block_loop (\<lambda>a b. rtw_write8 H a (b ! 0)) 1 buffer
                 (blockCount_p1 * blockSize_p1 + blockCount_p2 * blockSize_p2) remainSize_p2 } })"

definition PageWrite :: "'h usb_host \<Rightarrow> nat \<Rightarrow> bytes \<Rightarrow> ('h, bool) io" where
  "PageWrite H page buffer = do {
     let u8Page = of_nat page AND (0x07 :: u8);
     value8 \<leftarrow> rtw_read8 H (REG_MCUFWDL + 2);
     _ \<leftarrow> rtw_write8 H (REG_MCUFWDL + 2) ((value8 AND 0xF8) OR u8Page);
     BlockWrite H buffer }"

fun page_loop :: "'h usb_host \<Rightarrow> bytes \<Rightarrow> nat \<Rightarrow> nat \<Rightarrow> ('h, bool) io" where
  "page_loop H buffer page 0 = State_Monad.return True"
| "page_loop H buffer page (Suc n) = do {
     ret \<leftarrow> PageWrite H page (take MAX_DLFW_PAGE_SIZE (drop (page * MAX_DLFW_PAGE_SIZE) buffer));
     if ret then page_loop H buffer (page + 1) n else State_Monad.return False }"

definition WriteFW :: "'h usb_host \<Rightarrow> bytes \<Rightarrow> ('h, bool) io" where
  "WriteFW H buffer =
     (let pageNums = length buffer div MAX_DLFW_PAGE_SIZE; remainSize = length buffer mod MAX_DLFW_PAGE_SIZE
      in do {
        ret \<leftarrow> page_loop H buffer 0 pageNums;
        if \<not> ret then State_Monad.return False
        else if remainSize \<noteq> 0
        then PageWrite H pageNums (drop (pageNums * MAX_DLFW_PAGE_SIZE) buffer)
        else State_Monad.return True })"

section \<open>Starting it\<close>

definition Reset8051 :: "'h usb_host \<Rightarrow> ('h, unit) io" where
  "Reset8051 H = do {
     io_rst \<leftarrow> rtw_read8 H (REG_RSV_CTRL + 1);
     _ \<leftarrow> rtw_write8 H (REG_RSV_CTRL + 1) (io_rst AND NOT 1);
     cpu_rst \<leftarrow> rtw_read8 H (REG_SYS_FUNC_EN + 1);
     _ \<leftarrow> rtw_write8 H (REG_SYS_FUNC_EN + 1) (cpu_rst AND NOT 4);
     io_rst \<leftarrow> rtw_read8 H (REG_RSV_CTRL + 1);
     _ \<leftarrow> rtw_write8 H (REG_RSV_CTRL + 1) (io_rst OR 1);
     cpu_rst \<leftarrow> rtw_read8 H (REG_SYS_FUNC_EN + 1);
     _ \<leftarrow> rtw_write8 H (REG_SYS_FUNC_EN + 1) (cpu_rst OR 4);
     State_Monad.return () }"

text \<open>\<open>rtw_get_passing_time_ms\<close> compared with an unsigned limit: all in 32 bits.\<close>

definition passing_ms :: "'h usb_host \<Rightarrow> u32 \<Rightarrow> 'h usb_dev \<Rightarrow> u32" where
  "passing_ms H start d = (jiffies H (udev d) - start) * 1000 div of_nat (host_HZ H)"

text \<open>
  The loop shared by the two waits: read the status until it is as wanted or nothing can be read,
  for the time and the rounds given. It may not end when the clock stands still.
\<close>

partial_function (option) status_wait ::
    "'h usb_host \<Rightarrow> (u32 \<Rightarrow> bool) \<Rightarrow> u32 \<Rightarrow> nat \<Rightarrow> u32 \<Rightarrow> nat \<Rightarrow> 'h usb_dev \<Rightarrow> (u32 \<times> 'h usb_dev) option" where
  "status_wait H ready start min_cnt timeout_ms cnt d =
     (case run_state (rtw_read32 H REG_MCUFWDL) d of
        (value32, d) \<Rightarrow>
          if ready value32 \<or> RTW_CANNOT_IO d then Some (value32, d)
          else
            (case run_state (rtw_udelay_os H 0) d of
               (_, d) \<Rightarrow>
                 if passing_ms H start d < timeout_ms \<or> cnt + 1 < min_cnt
                 then status_wait H ready start min_cnt timeout_ms (cnt + 1) d
                 else Some (value32, d)))"

definition polling_fwdl_chksum :: "'h usb_host \<Rightarrow> nat \<Rightarrow> u32 \<Rightarrow> 'h usb_dev \<Rightarrow> (bool \<times> 'h usb_dev) option" where
  "polling_fwdl_chksum H min_cnt timeout_ms d =
     map_option (\<lambda>(v, d). (v AND FWDL_ChkSum_rpt \<noteq> 0, d))
       (status_wait H (\<lambda>v. v AND FWDL_ChkSum_rpt \<noteq> 0) (jiffies H (udev d)) min_cnt timeout_ms 0 d)"

definition FWFreeToGo :: "'h usb_host \<Rightarrow> nat \<Rightarrow> u32 \<Rightarrow> 'h usb_dev \<Rightarrow> (bool \<times> 'h usb_dev) option" where
  "FWFreeToGo H min_cnt timeout_ms d =
     (let start = jiffies H (udev d);
          value_expected = MCUFWDL_RDY OR FWDL_ChkSum_rpt OR WINTINI_RDY OR RAM_DL_SEL;
          d = snd (run_state (do {
            value32 \<leftarrow> rtw_read32 H REG_MCUFWDL;
            _ \<leftarrow> rtw_write32 H REG_MCUFWDL ((value32 OR MCUFWDL_RDY) AND NOT WINTINI_RDY);
            Reset8051 H }) d)
      in map_option (\<lambda>(v, d). (v AND value_expected = value_expected, d))
           (status_wait H (\<lambda>v. v AND value_expected = value_expected) start min_cnt timeout_ms 0 d))"

section \<open>The download\<close>

text \<open>The fields of the HAL data that the download sets; the fault injection of the debug files is off.\<close>

record fw_hal =
  FirmwareVersion :: u16
  FirmwareSubVersion :: u16
  FirmwareSignature :: u16
  bFWReady :: bool
  bFwCurrentInPSMode :: bool
  LastHMEBoxNum :: u8

definition IS_FW_81xxC :: "fw_hal \<Rightarrow> bool" where
  "IS_FW_81xxC h \<longleftrightarrow> FirmwareSignature h AND 0xFFF0 = 0x88C0"

definition IS_FW_HEADER_EXIST_8188F :: "u16 \<Rightarrow> bool" where
  "IS_FW_HEADER_EXIST_8188F sig \<longleftrightarrow> sig AND 0xFFF0 = 0x88F0"

text \<open>The wait for the 8051 to have reset itself; the result is the value of \<open>Delay\<close> at the end.\<close>

fun self_reset_wait :: "nat \<Rightarrow> 'h usb_host \<Rightarrow> u8 \<Rightarrow> ('h, nat) io" where
  "self_reset_wait 0 H tmp = State_Monad.return 0"
| "self_reset_wait (Suc n) H tmp =
     (if tmp AND 4 = 0 then State_Monad.return (Suc n)
      else if n = 0 then State_Monad.return 0
      else do {
        _ \<leftarrow> rtw_udelay_os H 50;
        tmp \<leftarrow> rtw_read8 H (REG_SYS_FUNC_EN + 1);
        self_reset_wait n H tmp })"

definition rtl8188f_FirmwareSelfReset :: "'h usb_host \<Rightarrow> fw_hal \<Rightarrow> ('h, unit) io" where
  "rtl8188f_FirmwareSelfReset H h =
     (if IS_FW_81xxC h \<and>
         (FirmwareVersion h < 0x21 \<or> FirmwareVersion h = 0x21 \<and> FirmwareSubVersion h < 0x01)
      then State_Monad.return ()
      else do {
        _ \<leftarrow> rtw_write8 H (REG_HMETFR + 3) 0x20;
        tmp \<leftarrow> rtw_read8 H (REG_SYS_FUNC_EN + 1);
        Delay \<leftarrow> self_reset_wait 100 H tmp;
        if Delay = 0
        then do {
          tmp \<leftarrow> rtw_read8 H (REG_SYS_FUNC_EN + 1);
          _ \<leftarrow> rtw_write8 H (REG_SYS_FUNC_EN + 1) (tmp AND NOT 4);
          State_Monad.return () }
        else State_Monad.return () })"

definition rtl8188f_InitializeFirmwareVars :: "'h usb_host \<Rightarrow> fw_hal \<Rightarrow> ('h, fw_hal) io" where
  "rtl8188f_InitializeFirmwareVars H h = do {
     _ \<leftarrow> rtw_write8 H REG_HMETFR 0x0f;
     State_Monad.return (h\<lparr>bFwCurrentInPSMode := False, LastHMEBoxNum := 0\<rparr>) }"

text \<open>
  The rounds of writing and checking: at least three, and on for half a second; \<open>write_fw\<close> is a
  byte. The first component of the result is the status of the last round.
\<close>

partial_function (option) download_loop ::
    "'h usb_host \<Rightarrow> bytes \<Rightarrow> u32 \<Rightarrow> u8 \<Rightarrow> bool \<Rightarrow> 'h usb_dev \<Rightarrow> (bool \<times> 'h usb_dev) option" where
  "download_loop H img start write_fw rtStatus d =
     (if RTW_CANNOT_IO d then Some (rtStatus, d)
      else if \<not> (write_fw < 3 \<or> sint (passing_ms H start d) < 500) then Some (rtStatus, d)
      else
        (case run_state (do {
             tmp \<leftarrow> rtw_read8 H REG_MCUFWDL;
             _ \<leftarrow> rtw_write8 H REG_MCUFWDL (tmp OR ucast FWDL_ChkSum_rpt);
             WriteFW H img }) d of
           (ok, d) \<Rightarrow>
             if \<not> ok then download_loop H img start (write_fw + 1) False d
             else
               (case polling_fwdl_chksum H 5 50 d of
                  None \<Rightarrow> None
                | Some (ok, d) \<Rightarrow> if ok then Some (True, d) else download_loop H img start (write_fw + 1) False d)))"

definition le16_at :: "bytes \<Rightarrow> nat \<Rightarrow> u16" where
  "le16_at b i = ucast (b ! i) OR push_bit 8 (ucast (b ! Suc i))"

text \<open>
  \<open>fw\<close> is what \<open>request_firmware\<close> gives. The header is read without looking at the
  length; an image that ends inside it is \<open>None\<close>.
\<close>

definition rtl8188f_FirmwareDownload ::
    "'h usb_host \<Rightarrow> bytes option \<Rightarrow> fw_hal \<Rightarrow> 'h usb_dev \<Rightarrow> (bool \<times> fw_hal \<times> 'h usb_dev) option" where
  "rtl8188f_FirmwareDownload H fw h d =
     (let d = snd (run_state (do {
            tmp_ps \<leftarrow> rtw_read8 H 0xa3;
            _ \<leftarrow> rtw_write8 H 0xa3 ((tmp_ps AND 0xf8) OR 0x02);
            rtw_read8 H 0xa0 }) d);
          finish = (\<lambda>rtStatus h d. case run_state (rtl8188f_InitializeFirmwareVars H h) d of
            (h, d) \<Rightarrow> Some (rtStatus, h, d))
      in case fw of
           None \<Rightarrow> finish True h d
         | Some img \<Rightarrow>
             if length img > FW_8188F_SIZE then finish False h d
             else if length img < 8 then None
             else
               (let sig = le16_at img 0;
                    h = h\<lparr>FirmwareVersion := le16_at img 4, FirmwareSubVersion := le16_at img 6, FirmwareSignature := sig\<rparr>
                in if IS_FW_HEADER_EXIST_8188F sig \<and> length img < 32 then None
                   else do {
                     let img = (if IS_FW_HEADER_EXIST_8188F sig then drop 32 img else img);
                     let start = jiffies H (udev d);
                     let d = snd (run_state (do {
                           tmp \<leftarrow> rtw_read8 H REG_MCUFWDL;
                           _ \<leftarrow> (if tmp AND ucast RAM_DL_SEL \<noteq> 0
                                 then do {
                                   _ \<leftarrow> rtw_write8 H REG_MCUFWDL 0;
                                   Reset8051 H }
                                 else State_Monad.return ());
                           FWDownloadEnable H True }) d);
                     (_, d) \<leftarrow> download_loop H img start 0 True d;
                     let d = snd (run_state (FWDownloadEnable H False) d);
                     (ok, d) \<leftarrow> FWFreeToGo H 10 200 d;
                     let d = (if ok then d
                              else snd (run_state (do {
                                value8 \<leftarrow> rtw_read8 H REG_MCUFWDL;
                                rtw_write8 H REG_MCUFWDL (value8 AND NOT 1 AND NOT 2) }) d));
                     finish ok h d }))"

end
