(* ===== verification/Hal_Image.thy ===== *)
theory Hal_Image
  imports Hal_Fw
begin

text \<open>
  What the chip holds after the image has been written: the log of transfers replayed on a memory
  of pages. A failed transfer has no effect; a read has none; a write to the page register selects
  a page, and a write to the window stores its bytes there.
\<close>

section \<open>The memory behind the window\<close>

definition put_bytes :: "nat \<Rightarrow> bytes \<Rightarrow> (nat \<rightharpoonup> u8) \<Rightarrow> (nat \<rightharpoonup> u8)" where
  "put_bytes s bs m = (\<lambda>i. if s \<le> i \<and> i < s + length bs then Some (bs ! (i - s)) else m i)"

lemma put_bytes_Nil [simp]: "put_bytes s [] m = m"
  by (auto simp: put_bytes_def fun_eq_iff)

lemma put_bytes_append: "put_bytes s (xs @ ys) m = put_bytes (s + length xs) ys (put_bytes s xs m)"
  by (auto simp: put_bytes_def fun_eq_iff nth_append)

type_synonym fw_mem = "nat \<times> (nat \<rightharpoonup> u8)"

definition fw_event :: "ctl_event \<Rightarrow> fw_mem \<Rightarrow> fw_mem" where
  "fw_event e m =
     (if ctl_in e \<or> ctl_status e \<noteq> int (length (ctl_data e)) then m
      else if ctl_reg e = 0x82 \<and> length (ctl_data e) = 1 then (unat (ctl_data e ! 0 AND 7), snd m)
      else if FW_START_ADDRESS \<le> ctl_reg e \<and> ctl_reg e < 0x2000
      then (fst m, put_bytes (fst m * MAX_DLFW_PAGE_SIZE + (unat (ctl_reg e) - FW_8188F_START_ADDRESS)) (ctl_data e) (snd m))
      else m)"

definition fw_mem :: "'h usb_dev \<Rightarrow> fw_mem" where
  "fw_mem d = fold fw_event (io_log d) (0, Map.empty)"

section \<open>One write\<close>

text \<open>Every transfer is complete or an error.\<close>

definition no_short :: "'h usb_host \<Rightarrow> bool" where
  "no_short H \<longleftrightarrow> host_ok H \<and>
     (\<forall>rd v b h. fst (usb_control_msg H rd v b h) = int (length b) \<or> fst (usb_control_msg H rd v b h) < 0)"

definition io_good :: "'h usb_dev \<Rightarrow> bool" where "io_good d \<longleftrightarrow> io_ok d \<and> \<not> RTW_CANNOT_IO d"

lemma fold_failed: "list_all (\<lambda>e. fw_event e = id) evs \<Longrightarrow> fold fw_event evs m = m"
  by (induction evs arbitrary: m) auto

lemma transfers_replay:
  assumes "transfers rd v p evs status"
  shows "fold fw_event evs m = (if rd \<or> status \<noteq> int (length p) then m else fw_event (Ctl False v p status) m)"
proof -
  have ev: "evs = butlast evs @ [last evs]" "ctl_status (last evs) = status"
    using assms by (simp_all add: transfers_def)
  have last: "ctl_in (last evs) = rd" "ctl_reg (last evs) = v" "\<not> rd \<longrightarrow> ctl_data (last evs) = p"
    using assms by (auto simp: transfers_def list_all_iff)
  have "list_all (\<lambda>e. fw_event e = id) (butlast evs)"
    using assms by (auto simp: transfers_def list_all_iff fw_event_def fun_eq_iff dest: in_set_butlastD)
  then have "fold fw_event evs m = fw_event (last evs) m"
    by (subst ev(1)) (simp add: fold_failed)
  then show ?thesis using last ev(2) by (cases "last evs") (auto simp: fw_event_def)
qed

lemma io_outcome_mem:
  assumes "io_outcome d len evs status d'" and "transfers rd v p evs status"
  shows "fw_mem d' = (if rd \<or> status \<noteq> int (length p) then fw_mem d else fw_event (Ctl False v p status) (fw_mem d))"
  using assms(1) transfers_replay [OF assms(2), of "fw_mem d"] by (simp add: fw_mem_def io_outcome_def)

lemma ctl_msg_status:
  assumes "no_short H" and "ctl_msg H rd v b d = (status, buf, d')"
  shows "(status = int (length b) \<or> status < 0) \<and> length buf = length b"
proof (cases "usb_control_msg H rd v b (udev d)")
  case (fields st b' h)
  then have "status = st" "buf = b'" using assms(2) by (auto simp: ctl_msg_def)
  moreover have "st = int (length b) \<or> st < 0"
    using assms(1) [unfolded no_short_def] fields by (metis fst_conv)
  moreover have "length b' = length b" using assms(1) [unfolded no_short_def host_ok_def] fields by (metis fst_conv snd_conv)
  ultimately show ?thesis by simp
qed

lemma loop_status:
  assumes "no_short H"
  shows "0 < n \<Longrightarrow> vendorreq_loop n H rd v p st d = ((status, p'), d') \<Longrightarrow> status = int (length p) \<or> status < 0"
proof (induction n arbitrary: p st d)
  case (Suc n)
  let ?b = "if rd then replicate (length p) 0 else p"
  obtain s1 buf d1 where m: "ctl_msg H rd v ?b d = (s1, buf, d1)" by (metis prod.exhaust)
  have s1: "s1 = int (length p) \<or> s1 < 0" "length buf = length p" using ctl_msg_status [OF assms m] by auto
  let ?d2 = "if s1 = - ESHUTDOWN \<or> s1 = - ENODEV then d1\<lparr>bSurpriseRemoved := True\<rparr> else d1"
  obtain err d3 where i: "rtw_inc_and_chk_continual_io_error ?d2 = (err, d3)" by fastforce
  let ?p2 = "if s1 > 0 \<and> rd then buf else p"
  have "status = s1 \<or> vendorreq_loop n H rd v ?p2 s1 d3 = ((status, p'), d')"
    using Suc.prems(2) m i by (auto simp: Let_def split: if_splits)
  then show ?case using s1 Suc.IH [of ?p2 s1 d3] by (cases "n = 0") auto
qed simp

text \<open>A request of one to 254 bytes that does not fail is carried out; one that fails changes nothing.\<close>

lemma vendorreq_mem:
  assumes "no_short H" and "io_ok d" and "p \<noteq> []" and "length p \<le> MAX_VENDOR_REQ_CMD_SIZE"
    and "run_state (usbctrl_vendorreq H rd v p) d = ((status, p'), d')"
  shows "io_ok d' \<and> length p' = length p \<and>
     fw_mem d' = (if rd \<or> status < 0 then fw_mem d else fw_event (Ctl False v p (int (length p))) (fw_mem d)) \<and>
     (status < 0 \<longrightarrow> RTW_CANNOT_IO d' \<or> FW_START_ADDRESS \<le> v)"
proof (cases "RTW_CANNOT_IO d")
  case True
  then show ?thesis using assms(2,5) by (auto simp: usbctrl_vendorreq_def EPERM_def)
next
  case False
  have h: "host_ok H" using assms(1) by (simp add: no_short_def)
  from vendorreq_run [OF h assms(2,4) False assms(5)] obtain evs where
    e: "transfers rd v p evs status" "io_outcome d (length p) evs status d'" "length p' = length p"
      "\<not> FW_START_ADDRESS \<le> v \<longrightarrow> status = int (length p) \<or> continual_io_error d' = MAX_CONTINUAL_IO_ERR + 1" by blast
  have st: "status = int (length p) \<or> status < 0"
    using assms(4,5) False loop_status [OF assms(1), of MAX_USBCTRL_VENDORREQ_TIMES rd v p 0 d status p' d']
    by (auto simp: usbctrl_vendorreq_def MAX_USBCTRL_VENDORREQ_TIMES_def)
  have ok: "io_ok d'" by (rule io_outcome_ok [OF assms(2) e(2)])
  then have "status < 0 \<longrightarrow> RTW_CANNOT_IO d' \<or> FW_START_ADDRESS \<le> v"
    using e(4) by (auto simp: io_ok_def RTW_CANNOT_IO_def)
  then show ?thesis using ok e(3) io_outcome_mem [OF e(2,1)] st by auto
qed

section \<open>Blocks\<close>

text \<open>
  What the phases of \<open>_BlockWrite\<close> need of the routine that writes a block: when it reports
  success the block is in the window, on the page selected.
\<close>

locale block_writer =
  fixes H :: "'h usb_host" and wr :: "u32 \<Rightarrow> bytes \<Rightarrow> ('h, bool) io" and bs :: nat
  assumes bs_pos: "0 < bs"
    and wr_ok: "no_short H \<Longrightarrow> io_ok d \<Longrightarrow> length b = bs \<Longrightarrow> run_state (wr a b) d = (r, d') \<Longrightarrow> io_ok d'"
    and wr_mem: "no_short H \<Longrightarrow> io_ok d \<Longrightarrow> length b = bs \<Longrightarrow> off < MAX_DLFW_PAGE_SIZE \<Longrightarrow>
          run_state (wr (of_nat (FW_8188F_START_ADDRESS + off)) b) d = (True, d') \<Longrightarrow>
          \<not> RTW_CANNOT_IO d \<and> fst (fw_mem d') = fst (fw_mem d) \<and>
          snd (fw_mem d') = put_bytes (fst (fw_mem d) * MAX_DLFW_PAGE_SIZE + off) b (snd (fw_mem d))"
begin

lemma loop_ok:
  "no_short H \<Longrightarrow> io_ok d \<Longrightarrow> off + n * bs \<le> length buffer \<Longrightarrow> run_state (block_loop wr bs buffer off n) d = (r, d') \<Longrightarrow> io_ok d'"
proof (induction n arbitrary: off d)
  case (Suc n)
  obtain r1 d1 where w: "run_state (wr (of_nat (FW_8188F_START_ADDRESS + off)) (take bs (drop off buffer))) d = (r1, d1)"
    by fastforce
  have "io_ok d1" using wr_ok [OF Suc.prems(1,2) _ w] Suc.prems(3) by simp
  then show ?case using Suc.prems(1,3,4) Suc.IH [of d1 "off + bs"] w by (auto split: if_splits)
qed simp

lemma loop_mem:
  assumes ns: "no_short H" and "io_ok d" and "off + n * bs \<le> length buffer" and "length buffer \<le> MAX_DLFW_PAGE_SIZE"
    and "run_state (block_loop wr bs buffer off n) d = (True, d')"
  shows "(0 < n \<longrightarrow> \<not> RTW_CANNOT_IO d) \<and> fst (fw_mem d') = fst (fw_mem d) \<and>
     snd (fw_mem d') =
       put_bytes (fst (fw_mem d) * MAX_DLFW_PAGE_SIZE + off) (take (n * bs) (drop off buffer)) (snd (fw_mem d))"
  using assms(2-)
proof (induction n arbitrary: off d)
  case (Suc n)
  let ?b = "take bs (drop off buffer)"
  obtain r1 d1 where w: "run_state (wr (of_nat (FW_8188F_START_ADDRESS + off)) ?b) d = (r1, d1)" by fastforce
  with Suc.prems(4) have r1: "r1" "run_state (block_loop wr bs buffer (off + bs) n) d1 = (True, d')"
    by (auto split: if_splits)
  have b: "length ?b = bs" "off < MAX_DLFW_PAGE_SIZE" using Suc.prems(2,3) bs_pos by simp_all
  have w1: "\<not> RTW_CANNOT_IO d" "fst (fw_mem d1) = fst (fw_mem d)"
      "snd (fw_mem d1) = put_bytes (fst (fw_mem d) * MAX_DLFW_PAGE_SIZE + off) ?b (snd (fw_mem d))"
    using wr_mem [OF ns Suc.prems(1) b, of d1] w r1(1) by simp_all
  have "take (Suc n * bs) (drop off buffer) = ?b @ take (n * bs) (drop (off + bs) buffer)"
    by (simp add: take_add drop_drop add.commute)
  moreover have "io_ok d1" by (rule wr_ok [OF ns Suc.prems(1) b(1) w])
  ultimately show ?case
    using Suc.IH [of d1 "off + bs"] Suc.prems(2,3) r1(2) w1 b(1)
    by (simp add: put_bytes_append add.assoc del: take_append)
qed simp

end

lemma window_event:
  assumes "off < MAX_DLFW_PAGE_SIZE"
  shows "fw_event (Ctl False (ucast (of_nat (FW_8188F_START_ADDRESS + off) :: u32)) b (int (length b))) m =
     (fst m, put_bytes (fst m * MAX_DLFW_PAGE_SIZE + off) b (snd m))"
proof -
  let ?r = "ucast (of_nat (FW_8188F_START_ADDRESS + off) :: u32) :: u16"
  have u: "unat (of_nat n :: u32) = n" if "n < 8192" for n using that by (simp add: unsigned_of_nat take_bit_nat_eq_self)
  have l: "FW_8188F_START_ADDRESS + off < 8192" using assms by (simp add: FW_8188F_START_ADDRESS_def MAX_DLFW_PAGE_SIZE_def)
  have "unat ?r = FW_8188F_START_ADDRESS + off"
    unfolding unsigned_ucast_eq u [OF l] using l by (simp add: take_bit_nat_eq_self)
  then have "?r \<noteq> 0x82" "FW_START_ADDRESS \<le> ?r" "?r < 0x2000" "unat ?r - FW_8188F_START_ADDRESS = off"
    using assms
    by (auto simp: word_le_nat_alt word_less_nat_alt FW_START_ADDRESS_def FW_8188F_START_ADDRESS_def MAX_DLFW_PAGE_SIZE_def)
  then show ?thesis by (simp add: fw_event_def)
qed

lemma writeN_block:
  assumes "no_short H" and "io_ok d" and "b \<noteq> []" and "length b \<le> MAX_VENDOR_REQ_CMD_SIZE"
    and "run_state (rtw_writeN H a b) d = (r, d')"
  shows "io_ok d' \<and> (r \<longrightarrow> \<not> RTW_CANNOT_IO d \<and> fw_mem d' = fw_event (Ctl False (ucast a) b (int (length b))) (fw_mem d))"
proof -
  obtain st p' where v: "run_state (usbctrl_vendorreq H False (ucast a) b) d = ((st, p'), d')" "r = (st \<ge> 0)"
    using assms(5) by (auto simp: rtw_writeN_def RTW_STATUS_CODE_def split: prod.splits)
  moreover have "RTW_CANNOT_IO d \<Longrightarrow> st < 0" using v(1) by (simp add: usbctrl_vendorreq_def EPERM_def)
  ultimately show ?thesis using vendorreq_mem [OF assms(1-4) v(1)] by auto
qed

lemma write8_writeN: "length b = 1 \<Longrightarrow> rtw_write8 H a (b ! 0) = rtw_writeN H a b"
  by (cases b) (simp_all add: rtw_write8_def rtw_writeN_def)

lemma writeN_writer:
  assumes "0 < n" and "n \<le> MAX_VENDOR_REQ_CMD_SIZE"
  shows "block_writer H (rtw_writeN H) n"
proof
  fix d d' :: "'a usb_dev" and b :: bytes and a r and off :: nat
  assume h: "no_short H" "io_ok d" "length b = n"
  then have b: "b \<noteq> []" "length b \<le> MAX_VENDOR_REQ_CMD_SIZE" using assms by auto
  show "io_ok d'" if "run_state (rtw_writeN H a b) d = (r, d')"
    using writeN_block [OF h(1,2) b that] by simp
  show "\<not> RTW_CANNOT_IO d \<and> fst (fw_mem d') = fst (fw_mem d) \<and>
      snd (fw_mem d') = put_bytes (fst (fw_mem d) * MAX_DLFW_PAGE_SIZE + off) b (snd (fw_mem d))"
    if "off < MAX_DLFW_PAGE_SIZE" "run_state (rtw_writeN H (of_nat (FW_8188F_START_ADDRESS + off)) b) d = (True, d')"
    using writeN_block [OF h(1,2) b that(2)] window_event [OF that(1)] by simp
qed (rule assms(1))

interpretation wide: block_writer H "rtw_writeN H" 196 for H
  by (rule writeN_writer) (simp_all add: MAX_VENDOR_REQ_CMD_SIZE_def)

interpretation mid: block_writer H "rtw_writeN H" 8 for H
  by (rule writeN_writer) (simp_all add: MAX_VENDOR_REQ_CMD_SIZE_def)

interpretation narrow: block_writer H "\<lambda>a b. rtw_write8 H a (b ! 0)" 1 for H
proof -
  have "block_writer H (rtw_writeN H) 1" by (rule writeN_writer) (simp_all add: MAX_VENDOR_REQ_CMD_SIZE_def)
  then show "block_writer H (\<lambda>a b. rtw_write8 H a (b ! 0)) 1"
    unfolding block_writer_def by (simp add: write8_writeN)
qed

section \<open>Pages\<close>

lemma take_blocks:
  fixes buf :: bytes and n m :: nat
  defines "a \<equiv> length buf div n * n" and "b \<equiv> length buf mod n div m * m"
  shows "take a buf @ take b (drop a buf) @ drop (a + b) buf = buf"
  by (metis append_take_drop_id drop_drop add.commute)

lemma BlockWrite_mem:
  assumes "no_short H" and "io_ok d" and "length buf \<le> MAX_DLFW_PAGE_SIZE" and "run_state (BlockWrite H buf) d = (r, d')"
  shows "io_ok d' \<and> (r \<longrightarrow> (buf \<noteq> [] \<longrightarrow> \<not> RTW_CANNOT_IO d) \<and> fst (fw_mem d') = fst (fw_mem d) \<and>
     snd (fw_mem d') = put_bytes (fst (fw_mem d) * MAX_DLFW_PAGE_SIZE) buf (snd (fw_mem d)))"
proof -
  let ?c1 = "length buf div 196" and ?m1 = "length buf mod 196"
  let ?c2 = "?m1 div 8" and ?m2 = "?m1 mod 8"
  let ?o1 = "?c1 * 196" and ?o2 = "?c1 * 196 + ?c2 * 8"
  have len: "?o1 + ?m1 = length buf" "?o2 + ?m2 = length buf" by simp_all
  have l2: "?o2 \<le> length buf" by (rule order_trans [OF le_add1 eq_imp_le [OF len(2)]])
  obtain r1 d1 where p1: "run_state (block_loop (rtw_writeN H) 196 buf 0 ?c1) d = (r1, d1)" by fastforce
  obtain r2 d2 where p2: "run_state (block_loop (rtw_writeN H) 8 buf ?o1 ?c2) d1 = (r2, d2)" by fastforce
  obtain r3 d3 where p3: "run_state (block_loop (\<lambda>a b. rtw_write8 H a (b ! 0)) 1 buf ?o2 ?m2) d2 = (r3, d3)" by fastforce
  have ok1: "io_ok d1" by (rule wide.loop_ok [OF assms(1,2) _ p1]) simp
  have ok2: "io_ok d2" by (rule mid.loop_ok [OF assms(1) ok1 l2 p2])
  have ok3: "io_ok d3" by (rule narrow.loop_ok [OF assms(1) ok2 _ p3]) simp
  have run: "(r, d') = (if \<not> r1 then (False, d1) else if \<not> r2 then (False, d2) else (r3, d3))"
    using assms(4) p1 p2 p3 by (simp add: BlockWrite_def Let_def split: if_splits)
  have "(buf \<noteq> [] \<longrightarrow> \<not> RTW_CANNOT_IO d) \<and> fst (fw_mem d') = fst (fw_mem d) \<and>
     snd (fw_mem d') = put_bytes (fst (fw_mem d) * MAX_DLFW_PAGE_SIZE) buf (snd (fw_mem d))" if "r"
  proof -
    have t: "r1" "r2" "r3" "d' = d3" using run that by (auto split: if_splits)
    have m1: "0 < ?c1 \<longrightarrow> \<not> RTW_CANNOT_IO d" "fst (fw_mem d1) = fst (fw_mem d)"
      "snd (fw_mem d1) = put_bytes (fst (fw_mem d) * MAX_DLFW_PAGE_SIZE) (take ?o1 buf) (snd (fw_mem d))"
      using wide.loop_mem [OF assms(1,2) _ assms(3), of 0 ?c1 d1] p1 t(1) by simp_all
    have m2: "0 < ?c2 \<longrightarrow> \<not> RTW_CANNOT_IO d1" "fst (fw_mem d2) = fst (fw_mem d1)"
      "snd (fw_mem d2) = put_bytes (fst (fw_mem d1) * MAX_DLFW_PAGE_SIZE + ?o1) (take (?c2 * 8) (drop ?o1 buf)) (snd (fw_mem d1))"
      using mid.loop_mem [OF assms(1) ok1 l2 assms(3), of d2] p2 t(2) by simp_all
    have m3: "0 < ?m2 \<longrightarrow> \<not> RTW_CANNOT_IO d2" "fst (fw_mem d3) = fst (fw_mem d2)"
      "snd (fw_mem d3) = put_bytes (fst (fw_mem d2) * MAX_DLFW_PAGE_SIZE + ?o2) (take ?m2 (drop ?o2 buf)) (snd (fw_mem d2))"
      using narrow.loop_mem [OF assms(1) ok2 _ assms(3), of ?o2 ?m2 d3] p3 t(3) by simp_all
    have "?c1 = 0 \<Longrightarrow> d1 = d" "?c2 = 0 \<Longrightarrow> d2 = d1" using p1 p2 by auto
    moreover have "buf \<noteq> [] \<Longrightarrow> 0 < ?c1 \<or> 0 < ?c2 \<or> 0 < ?m2"
      using len(2) by (metis add_is_0 length_0_conv mult_0 neq0_conv)
    ultimately have "buf \<noteq> [] \<longrightarrow> \<not> RTW_CANNOT_IO d" using m1(1) m2(1) m3(1) by (metis neq0_conv)
    moreover have "snd (fw_mem d3) = put_bytes (fst (fw_mem d) * MAX_DLFW_PAGE_SIZE) buf (snd (fw_mem d))"
    proof -
      have "length (drop ?o2 buf) = ?m2" using len(2) by (metis diff_add_inverse length_drop)
      then have "take ?m2 (drop ?o2 buf) = drop ?o2 buf" by simp
      moreover have "length (take ?o1 buf) = ?o1" "length (take (?c2 * 8) (drop ?o1 buf)) = ?c2 * 8"
        using l2 by simp_all
      ultimately have "snd (fw_mem d3) = put_bytes (fst (fw_mem d) * MAX_DLFW_PAGE_SIZE)
          (take ?o1 buf @ take (?c2 * 8) (drop ?o1 buf) @ drop ?o2 buf) (snd (fw_mem d))"
        using m1(2,3) m2(2,3) m3(3) by (simp add: put_bytes_append add.assoc del: length_take)
      then show ?thesis by (simp only: take_blocks)
    qed
    ultimately show ?thesis using t(4) m1(2) m2(2) m3(2) by simp
  qed
  then show ?thesis using run ok1 ok2 ok3 by (auto split: if_splits)
qed

lemma read8_mem:
  assumes "no_short H" and "io_ok d" and "run_state (rtw_read8 H a) d = (v, d')"
  shows "io_ok d' \<and> fw_mem d' = fw_mem d"
proof -
  obtain st p' where "run_state (usbctrl_vendorreq H True (ucast a) [0]) d = ((st, p'), d')"
    using assms(3) by (auto simp: rtw_read8_def split: prod.splits)
  from vendorreq_mem [OF assms(1,2) _ _ this] show ?thesis by (simp add: MAX_VENDOR_REQ_CMD_SIZE_def)
qed

lemma page_select:
  assumes "no_short H" and "io_ok d" and "run_state (rtw_write8 H (REG_MCUFWDL + 2) x) d = (r, d')" and "\<not> RTW_CANNOT_IO d'"
  shows "fw_mem d' = (unat (x AND 7), snd (fw_mem d))"
proof -
  obtain st p' where v: "run_state (usbctrl_vendorreq H False 0x82 [x]) d = ((st, p'), d')"
    using assms(3) by (auto simp: rtw_write8_def REG_MCUFWDL_def split: prod.splits)
  have "\<not> FW_START_ADDRESS \<le> 0x82" by (simp add: FW_START_ADDRESS_def)
  then show ?thesis
    using vendorreq_mem [OF assms(1,2) _ _ v] assms(4) by (simp add: fw_event_def MAX_VENDOR_REQ_CMD_SIZE_def)
qed

lemma write8_ok:
  assumes "no_short H" and "io_ok d" and "run_state (rtw_write8 H a x) d = (r, d')"
  shows "io_ok d'"
proof -
  obtain st p' where v: "run_state (usbctrl_vendorreq H False (ucast a) [x]) d = ((st, p'), d')"
    using assms(3) by (auto simp: rtw_write8_def split: prod.splits)
  from vendorreq_mem [OF assms(1,2) _ _ this] show ?thesis by (simp add: MAX_VENDOR_REQ_CMD_SIZE_def)
qed

lemma page_bits: "page < 8 \<Longrightarrow> unat (((v AND 0xF8) OR (of_nat page AND 7)) AND (7 :: u8)) = page"
proof -
  assume "page < 8"
  have "((v AND 0xF8) OR (of_nat page AND 7)) AND (7 :: u8) = of_nat page AND 7"
    by (simp add: bit.conj_disj_distrib2 and.assoc)
  moreover have "unat (of_nat page AND (7 :: u8)) = page"
  proof -
    have "(7 :: u8) = mask 3" by (simp add: mask_eq_exp_minus_1)
    then have "of_nat page AND (7 :: u8) = take_bit 3 (of_nat page)" by (simp only: take_bit_eq_mask)
    then show ?thesis using \<open>page < 8\<close> by (simp add: unsigned_take_bit_eq unsigned_of_nat take_bit_nat_eq_self)
  qed
  ultimately show ?thesis by simp
qed

lemma PageWrite_mem:
  assumes "no_short H" and "io_ok d" and "length buf \<le> MAX_DLFW_PAGE_SIZE" and "buf \<noteq> []" and "page < 8"
    and "run_state (PageWrite H page buf) d = (r, d')"
  shows "io_ok d' \<and> (r \<longrightarrow> snd (fw_mem d') = put_bytes (page * MAX_DLFW_PAGE_SIZE) buf (snd (fw_mem d)))"
proof -
  obtain v d1 where d1: "run_state (rtw_read8 H (REG_MCUFWDL + 2)) d = (v, d1)" by fastforce
  let ?x = "(v AND 0xF8) OR (of_nat page AND 7)"
  obtain r2 d2 where d2: "run_state (rtw_write8 H (REG_MCUFWDL + 2) ?x) d1 = (r2, d2)" by fastforce
  have run: "run_state (BlockWrite H buf) d2 = (r, d')"
    using assms(6) d1 d2 by (simp add: PageWrite_def Let_def)
  have m1: "io_ok d1" "fw_mem d1 = fw_mem d" using read8_mem [OF assms(1,2) d1] by simp_all
  have ok2: "io_ok d2" by (rule write8_ok [OF assms(1) m1(1) d2])
  note b = BlockWrite_mem [OF assms(1) ok2 assms(3) run]
  show ?thesis
    using b assms(4) page_select [OF assms(1) m1(1) d2] m1(2) page_bits [OF assms(5), of v] by auto
qed

lemma page_loop_mem:
  assumes "no_short H"
  shows "io_ok d \<Longrightarrow> (page + n) * MAX_DLFW_PAGE_SIZE \<le> length buf \<Longrightarrow> page + n \<le> 8 \<Longrightarrow>
     run_state (page_loop H buf page n) d = (r, d') \<Longrightarrow>
     io_ok d' \<and> (r \<longrightarrow> snd (fw_mem d') = put_bytes (page * MAX_DLFW_PAGE_SIZE)
       (take (n * MAX_DLFW_PAGE_SIZE) (drop (page * MAX_DLFW_PAGE_SIZE) buf)) (snd (fw_mem d)))"
proof (induction n arbitrary: page d)
  case (Suc n)
  let ?P = "MAX_DLFW_PAGE_SIZE"
  let ?b = "take ?P (drop (page * ?P) buf)"
  obtain r1 d1 where d1: "run_state (PageWrite H page ?b) d = (r1, d1)" by fastforce
  have "page * ?P + ?P + n * ?P \<le> length buf" using Suc.prems(2) by (simp add: algebra_simps)
  then have len: "length ?b = ?P" by simp
  then have b: "length ?b \<le> ?P" "?b \<noteq> []" by (auto simp: MAX_DLFW_PAGE_SIZE_def)
  have m1: "io_ok d1" "r1 \<longrightarrow> snd (fw_mem d1) = put_bytes (page * ?P) ?b (snd (fw_mem d))"
    using PageWrite_mem [OF assms Suc.prems(1) b _ d1] Suc.prems(3) by simp_all
  show ?case
  proof (cases r1)
    case True
    then have "run_state (page_loop H buf (page + 1) n) d1 = (r, d')" using Suc.prems(4) d1 by simp
    from Suc.IH [OF m1(1) _ _ this]
    have "io_ok d'" "r \<longrightarrow> snd (fw_mem d') = put_bytes ((page + 1) * ?P) (take (n * ?P) (drop ((page + 1) * ?P) buf)) (snd (fw_mem d1))"
      using Suc.prems(2,3) by simp_all
    moreover have "take (Suc n * ?P) (drop (page * ?P) buf) = ?b @ take (n * ?P) (drop ((page + 1) * ?P) buf)"
      by (simp add: take_add drop_drop)
    ultimately show ?thesis
      using m1(2) True len by (simp add: put_bytes_append add.commute del: take_append length_take)
  next
    case False
    then show ?thesis using Suc.prems(4) d1 m1(1) by simp
  qed
qed simp

lemma WriteFW_mem:
  assumes "no_short H" and "io_ok d" and "length img \<le> FW_8188F_SIZE" and "run_state (WriteFW H img) d = (True, d')"
  shows "snd (fw_mem d') = put_bytes 0 img (snd (fw_mem d))"
proof -
  let ?P = "MAX_DLFW_PAGE_SIZE"
  let ?n = "length img div ?P" and ?r = "length img mod ?P"
  have P: "0 < ?P" "?n * ?P + ?r = length img" by (simp_all add: MAX_DLFW_PAGE_SIZE_def)
  have le: "?n * ?P \<le> length img" by (rule order_trans [OF le_add1 eq_imp_le [OF P(2)]])
  have n8: "?n \<le> 8" "?r \<noteq> 0 \<Longrightarrow> ?n < 8"
    using assms(3) by (cases "length img = 32768"; simp add: MAX_DLFW_PAGE_SIZE_def FW_8188F_SIZE_def div_less_iff_less_mult)+
  obtain r1 d1 where d1: "run_state (page_loop H img 0 ?n) d = (r1, d1)" by fastforce
  with assms(4) have "r1" by (auto simp: WriteFW_def Let_def split: if_splits)
  then have m1: "io_ok d1" "snd (fw_mem d1) = put_bytes 0 (take (?n * ?P) img) (snd (fw_mem d))"
    using page_loop_mem [OF assms(1,2) _ _ d1] le n8(1) by simp_all
  show ?thesis
  proof (cases "?r = 0")
    case True
    then have "take (?n * ?P) img = img" using P(2) by simp
    then show ?thesis using m1 assms(4) d1 \<open>r1\<close> True by (simp add: WriteFW_def Let_def)
  next
    case False
    have len: "length (drop (?n * ?P) img) = ?r" using P(2) by (metis diff_add_inverse length_drop)
    then have b: "length (drop (?n * ?P) img) \<le> ?P" "drop (?n * ?P) img \<noteq> []"
      using False P(1) by (auto simp: less_imp_le simp del: length_drop)
    have "run_state (PageWrite H ?n (drop (?n * ?P) img)) d1 = (True, d')"
      using assms(4) d1 \<open>r1\<close> False by (simp add: WriteFW_def Let_def)
    from PageWrite_mem [OF assms(1) m1(1) b n8(2) [OF False] this] m1(2)
    have "snd (fw_mem d') = put_bytes 0 (take (?n * ?P) img @ drop (?n * ?P) img) (snd (fw_mem d))"
      using le by (simp add: put_bytes_append del: append_take_drop_id)
    then show ?thesis by simp
  qed
qed

section \<open>The whole image\<close>

text \<open>On a chip that answers every transfer, every step goes through.\<close>

lemma block_runs:
  "(\<And>a b. length b \<le> bs \<Longrightarrow> runs (\<lambda>r. r) (wr a b)) \<Longrightarrow> runs (\<lambda>r. r) (block_loop wr bs buf off n)"
  by (induction n arbitrary: off) (auto intro!: runs_bind [where P = "\<lambda>r. r"])

lemma BlockWrite_runs:
  assumes "answering H"
  shows "runs (\<lambda>r. r) (BlockWrite H buf)"
proof -
  have n: "runs (\<lambda>r. r) (block_loop (rtw_writeN H) bs buf off n)" if "bs \<le> 254" for bs off n
    using that by (intro block_runs runs_writeN [OF assms]) (simp add: MAX_VENDOR_REQ_CMD_SIZE_def)
  have m: "runs (\<lambda>r. r) (block_loop (\<lambda>a b. rtw_write8 H a (b ! 0)) 1 buf off n)" for off n
    by (intro block_runs runs_write8 [OF assms])
  show ?thesis
    unfolding BlockWrite_def Let_def
    by (rule runs_bind [OF n]; simp; rule runs_bind [OF n]; simp add: m [simplified])
qed

lemma PageWrite_runs: "answering H \<Longrightarrow> runs (\<lambda>r. r) (PageWrite H page buf)"
  unfolding PageWrite_def Let_def
  by (intro runs_bind [OF runs_read8] runs_bind [OF runs_write8] BlockWrite_runs)

lemma page_loop_runs: "answering H \<Longrightarrow> runs (\<lambda>r. r) (page_loop H buf page n)"
  by (induction n arbitrary: page) (auto intro!: runs_bind [OF PageWrite_runs])

lemma WriteFW_runs: "answering H \<Longrightarrow> runs (\<lambda>r. r) (WriteFW H img)"
  unfolding WriteFW_def Let_def
  by (rule runs_bind [OF page_loop_runs]) (simp_all add: PageWrite_runs)



text \<open>
  A short transfer of a block counts as success: \<open>RTW_STATUS_CODE\<close> only asks whether
  the status is negative, and for the window there is no second try. The block is then missing.
\<close>

theorem short_write_accepted:
  assumes "usb_control_msg H False (ucast a) b (udev d) = (s, b', h)" and "0 \<le> s" and "s \<noteq> int (length b)"
    and "FW_START_ADDRESS \<le> (ucast a :: u16)" and "\<not> RTW_CANNOT_IO d" and "length b \<le> MAX_VENDOR_REQ_CMD_SIZE"
  shows "\<exists>d'. run_state (rtw_writeN H a b) d = (True, d') \<and> fw_mem d' = fw_mem d"
proof -
  have "\<exists>q d'. vendorreq_loop 10 H False (ucast a) b 0 d = ((s, q), d') \<and> io_log d' = io_log d @ [Ctl False (ucast a) b s]"
    using assms by (simp add: ctl_msg_def Let_def rtw_inc_and_chk_continual_io_error_def)
  then show ?thesis
    using assms
    by (auto simp: rtw_writeN_def usbctrl_vendorreq_def MAX_USBCTRL_VENDORREQ_TIMES_def RTW_STATUS_CODE_def fw_mem_def fw_event_def
        simp del: vendorreq_loop_numeral)
qed

definition stalled_host :: "unit usb_host" where
  "stalled_host = echo_host\<lparr>usb_control_msg := (\<lambda>rd v b h. (if v < FW_START_ADDRESS then int (length b) else 0, b, h))\<rparr>"

theorem short_write_accepted_witness:
  "\<exists>d'. run_state (rtw_writeN stalled_host 0x1000 [1, 2, 3]) (usb_dev_ex ()) = (True, d') \<and> fw_mem d' = (0, Map.empty)"
proof -
  have "\<exists>d'. run_state (rtw_writeN stalled_host 0x1000 [1, 2, 3]) (usb_dev_ex ()) = (True, d') \<and> fw_mem d' = fw_mem (usb_dev_ex ())"
    by (rule short_write_accepted [where s = 0 and b' = "[1, 2, 3]" and h = "()"])
      (simp_all add: stalled_host_def FW_START_ADDRESS_def RTW_CANNOT_IO_def usb_dev_ex_def MAX_VENDOR_REQ_CMD_SIZE_def)
  then show ?thesis by (simp add: fw_mem_def usb_dev_ex_def)
qed

end
