(* ===== verification/Hal_PwrSeq.thy ===== *)
theory Hal_PwrSeq
  imports Usb_Io
begin

text \<open>
  The power sequences of the chip: the tables of \<open>include/Hal8188FPwrSeq.h\<close> and
  \<open>hal/rtl8188f/Hal8188FPwrSeq.c\<close>, the interpreter \<open>HalPwrSeqCmdParsing\<close>
  (\<open>hal/HalPwrSeqCmd.c\<close>) as it is built for USB, and the routines of
  \<open>hal/rtl8188f/usb/usb_halinit.c\<close> that run them when the card is switched on and off. An
  array is a list, and running past its end is \<open>None\<close>. The specification is a big-step
  semantics of the enabled commands that counts the reads of the polling loops.
\<close>

section \<open>Commands\<close>

record WLAN_PWR_CFG =
  pc_offset :: u16
  pc_cut_msk :: u8
  pc_fab_msk :: u8
  pc_interface_msk :: u8
  pc_base :: u8
  pc_cmd :: u8
  pc_msk :: u8
  pc_value :: u8

definition PWR_CMD_READ :: u8 where "PWR_CMD_READ = 0"
definition PWR_CMD_WRITE :: u8 where "PWR_CMD_WRITE = 1"
definition PWR_CMD_POLLING :: u8 where "PWR_CMD_POLLING = 2"
definition PWR_CMD_DELAY :: u8 where "PWR_CMD_DELAY = 3"
definition PWR_CMD_END :: u8 where "PWR_CMD_END = 4"
definition PWR_BASEADDR_MAC :: u8 where "PWR_BASEADDR_MAC = 0"
definition PWR_BASEADDR_SDIO :: u8 where "PWR_BASEADDR_SDIO = 3"
definition PWR_INTF_SDIO_MSK :: u8 where "PWR_INTF_SDIO_MSK = 1"
definition PWR_INTF_USB_MSK :: u8 where "PWR_INTF_USB_MSK = 2"
definition PWR_INTF_ALL_MSK :: u8 where "PWR_INTF_ALL_MSK = 15"
definition PWR_FAB_ALL_MSK :: u8 where "PWR_FAB_ALL_MSK = 15"
definition PWR_CUT_ALL_MSK :: u8 where "PWR_CUT_ALL_MSK = 0xFF"

lemmas pwr_cmds = PWR_CMD_READ_def PWR_CMD_WRITE_def PWR_CMD_POLLING_def PWR_CMD_DELAY_def PWR_CMD_END_def

lemmas pwr_masks = PWR_INTF_SDIO_MSK_def PWR_INTF_USB_MSK_def PWR_INTF_ALL_MSK_def PWR_FAB_ALL_MSK_def PWR_CUT_ALL_MSK_def

text \<open>Every entry of the tables is for all cuts and all fabs.\<close>

definition cfg :: "u16 \<Rightarrow> u8 \<Rightarrow> u8 \<Rightarrow> u8 \<Rightarrow> u8 \<Rightarrow> u8 \<Rightarrow> WLAN_PWR_CFG" where
  "cfg offset intf base cmd msk value = \<lparr>pc_offset = offset, pc_cut_msk = PWR_CUT_ALL_MSK,
     pc_fab_msk = PWR_FAB_ALL_MSK, pc_interface_msk = intf, pc_base = base, pc_cmd = cmd, pc_msk = msk, pc_value = value\<rparr>"

text \<open>The arrays are longer than their initialisers: the rest is zero.\<close>

definition flow :: "nat \<Rightarrow> WLAN_PWR_CFG list \<Rightarrow> WLAN_PWR_CFG list" where
  "flow n cs = cs @ replicate (n - length cs) \<lparr>pc_offset = 0, pc_cut_msk = 0, pc_fab_msk = 0, pc_interface_msk = 0,
     pc_base = 0, pc_cmd = 0, pc_msk = 0, pc_value = 0\<rparr>"

section \<open>Tables\<close>

definition RTL8188F_TRANS_CARDEMU_TO_ACT :: "WLAN_PWR_CFG list" where
  "RTL8188F_TRANS_CARDEMU_TO_ACT =
     [cfg 0x0005 PWR_INTF_ALL_MSK PWR_BASEADDR_MAC PWR_CMD_WRITE 0x04 0,
      cfg 0x0006 PWR_INTF_ALL_MSK PWR_BASEADDR_MAC PWR_CMD_POLLING 0x02 0x02,
      cfg 0x0005 PWR_INTF_ALL_MSK PWR_BASEADDR_MAC PWR_CMD_WRITE 0x80 0,
      cfg 0x0005 PWR_INTF_ALL_MSK PWR_BASEADDR_MAC PWR_CMD_WRITE 0x08 0,
      cfg 0x0005 PWR_INTF_ALL_MSK PWR_BASEADDR_MAC PWR_CMD_WRITE 0x01 0x01,
      cfg 0x0005 PWR_INTF_ALL_MSK PWR_BASEADDR_MAC PWR_CMD_POLLING 0x01 0,
      cfg 0x0027 PWR_INTF_ALL_MSK PWR_BASEADDR_MAC PWR_CMD_WRITE 0xFF 0x35]"

definition RTL8188F_TRANS_ACT_TO_CARDEMU :: "WLAN_PWR_CFG list" where
  "RTL8188F_TRANS_ACT_TO_CARDEMU =
     [cfg 0x001F PWR_INTF_ALL_MSK PWR_BASEADDR_MAC PWR_CMD_WRITE 0xFF 0,
      cfg 0x004E PWR_INTF_ALL_MSK PWR_BASEADDR_MAC PWR_CMD_WRITE 0x80 0,
      cfg 0x0027 PWR_INTF_ALL_MSK PWR_BASEADDR_MAC PWR_CMD_WRITE 0xFF 0x34,
      cfg 0x0005 PWR_INTF_ALL_MSK PWR_BASEADDR_MAC PWR_CMD_WRITE 0x02 0x02,
      cfg 0x0005 PWR_INTF_ALL_MSK PWR_BASEADDR_MAC PWR_CMD_POLLING 0x02 0]"

definition RTL8188F_TRANS_CARDEMU_TO_SUS :: "WLAN_PWR_CFG list" where
  "RTL8188F_TRANS_CARDEMU_TO_SUS =
     [cfg 0x0007 PWR_INTF_SDIO_MSK PWR_BASEADDR_MAC PWR_CMD_WRITE 0xFF 0,
      cfg 0x0005 (PWR_INTF_USB_MSK OR PWR_INTF_SDIO_MSK) PWR_BASEADDR_MAC PWR_CMD_WRITE 0x18 0x08,
      cfg 0x0086 PWR_INTF_SDIO_MSK PWR_BASEADDR_SDIO PWR_CMD_WRITE 0x01 0x01,
      cfg 0x0086 PWR_INTF_SDIO_MSK PWR_BASEADDR_SDIO PWR_CMD_POLLING 0x02 0,
      cfg 0x00C4 PWR_INTF_USB_MSK PWR_BASEADDR_MAC PWR_CMD_WRITE 0x10 0x10]"

definition RTL8188F_TRANS_SUS_TO_CARDEMU :: "WLAN_PWR_CFG list" where
  "RTL8188F_TRANS_SUS_TO_CARDEMU =
     [cfg 0x0086 PWR_INTF_SDIO_MSK PWR_BASEADDR_SDIO PWR_CMD_WRITE 0x01 0,
      cfg 0x0086 PWR_INTF_SDIO_MSK PWR_BASEADDR_SDIO PWR_CMD_POLLING 0x02 0x02,
      cfg 0x0005 PWR_INTF_ALL_MSK PWR_BASEADDR_MAC PWR_CMD_WRITE 0x18 0,
      cfg 0x00C4 PWR_INTF_USB_MSK PWR_BASEADDR_MAC PWR_CMD_WRITE 0x10 0]"

definition RTL8188F_TRANS_CARDEMU_TO_CARDDIS :: "WLAN_PWR_CFG list" where
  "RTL8188F_TRANS_CARDEMU_TO_CARDDIS =
     [cfg 0x0007 PWR_INTF_SDIO_MSK PWR_BASEADDR_MAC PWR_CMD_WRITE 0xFF 0,
      cfg 0x0005 (PWR_INTF_USB_MSK OR PWR_INTF_SDIO_MSK) PWR_BASEADDR_MAC PWR_CMD_WRITE 0x18 0x08,
      cfg 0x0086 PWR_INTF_SDIO_MSK PWR_BASEADDR_SDIO PWR_CMD_WRITE 0x01 0x01,
      cfg 0x0086 PWR_INTF_SDIO_MSK PWR_BASEADDR_SDIO PWR_CMD_POLLING 0x02 0,
      cfg 0x00C4 PWR_INTF_USB_MSK PWR_BASEADDR_MAC PWR_CMD_WRITE 0x10 0x10]"

definition RTL8188F_TRANS_CARDDIS_TO_CARDEMU :: "WLAN_PWR_CFG list" where
  "RTL8188F_TRANS_CARDDIS_TO_CARDEMU =
     [cfg 0x0086 PWR_INTF_SDIO_MSK PWR_BASEADDR_SDIO PWR_CMD_WRITE 0x01 0,
      cfg 0x0086 PWR_INTF_SDIO_MSK PWR_BASEADDR_SDIO PWR_CMD_POLLING 0x02 0x02,
      cfg 0x0005 PWR_INTF_ALL_MSK PWR_BASEADDR_MAC PWR_CMD_WRITE 0x18 0,
      cfg 0x00C4 PWR_INTF_USB_MSK PWR_BASEADDR_MAC PWR_CMD_WRITE 0x10 0]"

definition RTL8188F_TRANS_CARDEMU_TO_PDN :: "WLAN_PWR_CFG list" where
  "RTL8188F_TRANS_CARDEMU_TO_PDN =
     [cfg 0x0006 PWR_INTF_ALL_MSK PWR_BASEADDR_MAC PWR_CMD_WRITE 0x01 0,
      cfg 0x0005 PWR_INTF_ALL_MSK PWR_BASEADDR_MAC PWR_CMD_WRITE 0x80 0x80]"

definition RTL8188F_TRANS_PDN_TO_CARDEMU :: "WLAN_PWR_CFG list" where
  "RTL8188F_TRANS_PDN_TO_CARDEMU =
     [cfg 0x0005 PWR_INTF_ALL_MSK PWR_BASEADDR_MAC PWR_CMD_WRITE 0x80 0]"

definition RTL8188F_TRANS_ACT_TO_LPS :: "WLAN_PWR_CFG list" where
  "RTL8188F_TRANS_ACT_TO_LPS =
     [cfg 0x0139 PWR_INTF_ALL_MSK PWR_BASEADDR_MAC PWR_CMD_WRITE 0x01 0x01,
      cfg 0x0522 PWR_INTF_ALL_MSK PWR_BASEADDR_MAC PWR_CMD_WRITE 0xFF 0xFF,
      cfg 0x05F8 PWR_INTF_ALL_MSK PWR_BASEADDR_MAC PWR_CMD_POLLING 0xFF 0,
      cfg 0x05F9 PWR_INTF_ALL_MSK PWR_BASEADDR_MAC PWR_CMD_POLLING 0xFF 0,
      cfg 0x05FA PWR_INTF_ALL_MSK PWR_BASEADDR_MAC PWR_CMD_POLLING 0xFF 0,
      cfg 0x0002 PWR_INTF_ALL_MSK PWR_BASEADDR_MAC PWR_CMD_WRITE 0x01 0,
      cfg 0x0002 PWR_INTF_ALL_MSK PWR_BASEADDR_MAC PWR_CMD_DELAY 0 0,
      cfg 0x0002 PWR_INTF_ALL_MSK PWR_BASEADDR_MAC PWR_CMD_WRITE 0x02 0,
      cfg 0x0100 PWR_INTF_ALL_MSK PWR_BASEADDR_MAC PWR_CMD_WRITE 0xFF 0x3F,
      cfg 0x0101 PWR_INTF_ALL_MSK PWR_BASEADDR_MAC PWR_CMD_WRITE 0x02 0,
      cfg 0x0553 PWR_INTF_ALL_MSK PWR_BASEADDR_MAC PWR_CMD_WRITE 0x20 0x20]"

definition RTL8188F_TRANS_LPS_TO_ACT :: "WLAN_PWR_CFG list" where
  "RTL8188F_TRANS_LPS_TO_ACT =
     [cfg 0x0080 PWR_INTF_SDIO_MSK PWR_BASEADDR_SDIO PWR_CMD_WRITE 0xFF 0x84,
      cfg 0xFE58 PWR_INTF_USB_MSK PWR_BASEADDR_MAC PWR_CMD_WRITE 0xFF 0x84,
      cfg 0x0002 PWR_INTF_ALL_MSK PWR_BASEADDR_MAC PWR_CMD_DELAY 0 1,
      cfg 0x0002 PWR_INTF_ALL_MSK PWR_BASEADDR_MAC PWR_CMD_DELAY 0 1,
      cfg 0x0027 PWR_INTF_ALL_MSK PWR_BASEADDR_MAC PWR_CMD_WRITE 0xFF 0x35,
      cfg 0x0109 PWR_INTF_ALL_MSK PWR_BASEADDR_MAC PWR_CMD_POLLING 0x80 0,
      cfg 0x002B PWR_INTF_ALL_MSK PWR_BASEADDR_MAC PWR_CMD_WRITE 0x1C 0x1C,
      cfg 0x0101 PWR_INTF_ALL_MSK PWR_BASEADDR_MAC PWR_CMD_WRITE 0x02 0x02,
      cfg 0x0100 PWR_INTF_ALL_MSK PWR_BASEADDR_MAC PWR_CMD_WRITE 0xFF 0xFF,
      cfg 0x0002 PWR_INTF_ALL_MSK PWR_BASEADDR_MAC PWR_CMD_WRITE 0x03 0x03,
      cfg 0x0522 PWR_INTF_ALL_MSK PWR_BASEADDR_MAC PWR_CMD_WRITE 0xFF 0]"

definition RTL8188F_TRANS_ACT_TO_SWLPS :: "WLAN_PWR_CFG list" where
  "RTL8188F_TRANS_ACT_TO_SWLPS =
     [cfg 0x0139 PWR_INTF_ALL_MSK PWR_BASEADDR_MAC PWR_CMD_WRITE 0x01 0x01,
      cfg 0x0522 PWR_INTF_ALL_MSK PWR_BASEADDR_MAC PWR_CMD_WRITE 0xFF 0xFF,
      cfg 0x05F8 PWR_INTF_ALL_MSK PWR_BASEADDR_MAC PWR_CMD_POLLING 0xFF 0,
      cfg 0x05F9 PWR_INTF_ALL_MSK PWR_BASEADDR_MAC PWR_CMD_POLLING 0xFF 0,
      cfg 0x05FA PWR_INTF_ALL_MSK PWR_BASEADDR_MAC PWR_CMD_POLLING 0xFF 0,
      cfg 0x0002 PWR_INTF_ALL_MSK PWR_BASEADDR_MAC PWR_CMD_WRITE 0x01 0,
      cfg 0x0002 PWR_INTF_ALL_MSK PWR_BASEADDR_MAC PWR_CMD_DELAY 0 0,
      cfg 0x0002 PWR_INTF_ALL_MSK PWR_BASEADDR_MAC PWR_CMD_WRITE 0x02 0,
      cfg 0x0100 PWR_INTF_ALL_MSK PWR_BASEADDR_MAC PWR_CMD_WRITE 0xFF 0x3F,
      cfg 0x0101 PWR_INTF_ALL_MSK PWR_BASEADDR_MAC PWR_CMD_WRITE 0x02 0,
      cfg 0x0553 PWR_INTF_ALL_MSK PWR_BASEADDR_MAC PWR_CMD_WRITE 0x20 0x20,
      cfg 0x002B PWR_INTF_ALL_MSK PWR_BASEADDR_MAC PWR_CMD_WRITE 0x1C 0,
      cfg 0x0027 PWR_INTF_ALL_MSK PWR_BASEADDR_MAC PWR_CMD_WRITE 0xFF 0x34,
      cfg 0x0093 PWR_INTF_SDIO_MSK PWR_BASEADDR_MAC PWR_CMD_WRITE 0xFF 0,
      cfg 0x0093 PWR_INTF_USB_MSK PWR_BASEADDR_MAC PWR_CMD_WRITE 0xFF 0x83,
      cfg 0x00C4 PWR_INTF_ALL_MSK PWR_BASEADDR_MAC PWR_CMD_WRITE 0x20 0,
      cfg 0x00C4 PWR_INTF_ALL_MSK PWR_BASEADDR_MAC PWR_CMD_WRITE 0x80 0x80,
      cfg 0x00A7 PWR_INTF_SDIO_MSK PWR_BASEADDR_MAC PWR_CMD_WRITE 0xFF 0xE0,
      cfg 0x00A7 PWR_INTF_USB_MSK PWR_BASEADDR_MAC PWR_CMD_WRITE 0xFF 0xE4,
      cfg 0x0090 PWR_INTF_ALL_MSK PWR_BASEADDR_MAC PWR_CMD_WRITE 0x01 0x01]"

definition RTL8188F_TRANS_SWLPS_TO_ACT :: "WLAN_PWR_CFG list" where
  "RTL8188F_TRANS_SWLPS_TO_ACT =
     [cfg 0x0109 PWR_INTF_SDIO_MSK PWR_BASEADDR_MAC PWR_CMD_WRITE 0x80 0,
      cfg 0x0101 PWR_INTF_SDIO_MSK PWR_BASEADDR_MAC PWR_CMD_WRITE 0x02 0x02,
      cfg 0x0100 PWR_INTF_SDIO_MSK PWR_BASEADDR_MAC PWR_CMD_WRITE 0xFF 0xFF,
      cfg 0x06B7 PWR_INTF_SDIO_MSK PWR_BASEADDR_MAC PWR_CMD_WRITE 0xFF 0x09,
      cfg 0x06B4 PWR_INTF_SDIO_MSK PWR_BASEADDR_MAC PWR_CMD_WRITE 0xFF 0x86,
      cfg 0x0080 PWR_INTF_SDIO_MSK PWR_BASEADDR_MAC PWR_CMD_WRITE 0x02 0x02,
      cfg 0x001D PWR_INTF_SDIO_MSK PWR_BASEADDR_MAC PWR_CMD_WRITE 0x01 0,
      cfg 0x0003 PWR_INTF_SDIO_MSK PWR_BASEADDR_MAC PWR_CMD_WRITE 0x04 0,
      cfg 0x001D PWR_INTF_SDIO_MSK PWR_BASEADDR_MAC PWR_CMD_WRITE 0x01 0x01,
      cfg 0x0003 PWR_INTF_SDIO_MSK PWR_BASEADDR_MAC PWR_CMD_WRITE 0x04 0x04,
      cfg 0x0080 PWR_INTF_SDIO_MSK PWR_BASEADDR_MAC PWR_CMD_POLLING 0x80 0x80,
      cfg 0x0080 PWR_INTF_SDIO_MSK PWR_BASEADDR_MAC PWR_CMD_POLLING 0x40 0x40,
      cfg 0x0002 PWR_INTF_SDIO_MSK PWR_BASEADDR_MAC PWR_CMD_WRITE 0x01 0x01,
      cfg 0x0522 PWR_INTF_SDIO_MSK PWR_BASEADDR_MAC PWR_CMD_WRITE 0xFF 0]"

definition RTL8188F_TRANS_END :: "WLAN_PWR_CFG list" where
  "RTL8188F_TRANS_END =
     [cfg 0xFFFF PWR_INTF_ALL_MSK 0 PWR_CMD_END 0 0]"

definition rtl8188F_power_on_flow :: "WLAN_PWR_CFG list" where
  "rtl8188F_power_on_flow = flow (13 + 1) (RTL8188F_TRANS_CARDEMU_TO_ACT @ RTL8188F_TRANS_END)"

definition rtl8188F_radio_off_flow :: "WLAN_PWR_CFG list" where
  "rtl8188F_radio_off_flow = flow (15 + 1) (RTL8188F_TRANS_ACT_TO_CARDEMU @ RTL8188F_TRANS_END)"

definition rtl8188F_card_disable_flow :: "WLAN_PWR_CFG list" where
  "rtl8188F_card_disable_flow =
     flow (15 + 15 + 1) (RTL8188F_TRANS_ACT_TO_CARDEMU @ RTL8188F_TRANS_CARDEMU_TO_CARDDIS @ RTL8188F_TRANS_END)"

definition rtl8188F_card_enable_flow :: "WLAN_PWR_CFG list" where
  "rtl8188F_card_enable_flow =
     flow (15 + 15 + 1) (RTL8188F_TRANS_CARDDIS_TO_CARDEMU @ RTL8188F_TRANS_CARDEMU_TO_ACT @ RTL8188F_TRANS_END)"

definition rtl8188F_suspend_flow :: "WLAN_PWR_CFG list" where
  "rtl8188F_suspend_flow =
     flow (15 + 14 + 1) (RTL8188F_TRANS_ACT_TO_CARDEMU @ RTL8188F_TRANS_CARDEMU_TO_SUS @ RTL8188F_TRANS_END)"

definition rtl8188F_resume_flow :: "WLAN_PWR_CFG list" where
  "rtl8188F_resume_flow =
     flow (15 + 14 + 1) (RTL8188F_TRANS_SUS_TO_CARDEMU @ RTL8188F_TRANS_CARDEMU_TO_ACT @ RTL8188F_TRANS_END)"

definition rtl8188F_hwpdn_flow :: "WLAN_PWR_CFG list" where
  "rtl8188F_hwpdn_flow =
     flow (15 + 15 + 1) (RTL8188F_TRANS_ACT_TO_CARDEMU @ RTL8188F_TRANS_CARDEMU_TO_PDN @ RTL8188F_TRANS_END)"

definition rtl8188F_enter_lps_flow :: "WLAN_PWR_CFG list" where
  "rtl8188F_enter_lps_flow = flow (11 + 1) (RTL8188F_TRANS_ACT_TO_LPS @ RTL8188F_TRANS_END)"

definition rtl8188F_leave_lps_flow :: "WLAN_PWR_CFG list" where
  "rtl8188F_leave_lps_flow = flow (13 + 1) (RTL8188F_TRANS_LPS_TO_ACT @ RTL8188F_TRANS_END)"

definition rtl8188F_enter_swlps_flow :: "WLAN_PWR_CFG list" where
  "rtl8188F_enter_swlps_flow = flow (21 + 1) (RTL8188F_TRANS_ACT_TO_SWLPS @ RTL8188F_TRANS_END)"

definition rtl8188F_leave_swlps_flow :: "WLAN_PWR_CFG list" where
  "rtl8188F_leave_swlps_flow = flow (14 + 1) (RTL8188F_TRANS_SWLPS_TO_ACT @ RTL8188F_TRANS_END)"

section \<open>The interpreter\<close>

definition maxPollingCnt :: nat where "maxPollingCnt = 5000"

text \<open>
  The polling loop; the count of reads goes on from one command to the next. The result says
  whether the loop ended with the value found, and the new count.
\<close>

function poll_loop :: "'h usb_host \<Rightarrow> WLAN_PWR_CFG \<Rightarrow> nat \<Rightarrow> ('h, bool \<times> nat) io" where
  "poll_loop H c pollingCount = do {
     value \<leftarrow> rtw_read8 H (ucast (pc_offset c));
     let bPollingBit = (value AND pc_msk c = pc_value c AND pc_msk c);
     (if bPollingBit then State_Monad.return () else rtw_udelay_os H 10);
     if pollingCount > maxPollingCnt then State_Monad.return (False, pollingCount + 1)
     else if bPollingBit then State_Monad.return (True, pollingCount + 1)
     else poll_loop H c (pollingCount + 1) }"
  by pat_completeness auto
termination by (relation "measure (\<lambda>(H, c, n). maxPollingCnt + 1 - n)") auto

declare poll_loop.simps [simp del]

definition pwr_write :: "'h usb_host \<Rightarrow> WLAN_PWR_CFG \<Rightarrow> ('h, bool) io" where
  "pwr_write H c = do {
     value \<leftarrow> rtw_read8 H (ucast (pc_offset c));
     let value = value AND NOT (pc_msk c);
     let value = value OR (pc_value c AND pc_msk c);
     rtw_write8 H (ucast (pc_offset c)) value }"

definition pwr_delay :: "'h usb_host \<Rightarrow> WLAN_PWR_CFG \<Rightarrow> ('h, unit) io" where
  "pwr_delay H c = (if pc_value c = 0 then rtw_udelay_os H (unat (pc_offset c))
     else rtw_udelay_os H (unat (pc_offset c) * 1000))"

definition cfg_enabled :: "u8 \<Rightarrow> u8 \<Rightarrow> u8 \<Rightarrow> WLAN_PWR_CFG \<Rightarrow> bool" where
  "cfg_enabled CutVersion FabVersion InterfaceType c \<longleftrightarrow> pc_fab_msk c AND FabVersion \<noteq> 0 \<and>
     pc_cut_msk c AND CutVersion \<noteq> 0 \<and> pc_interface_msk c AND InterfaceType \<noteq> 0"

fun pwr_parse :: "'h usb_host \<Rightarrow> u8 \<Rightarrow> u8 \<Rightarrow> u8 \<Rightarrow> nat \<Rightarrow> WLAN_PWR_CFG list \<Rightarrow> ('h, bool option) io" where
  "pwr_parse H CutVersion FabVersion InterfaceType pollingCount [] = State_Monad.return None"
| "pwr_parse H CutVersion FabVersion InterfaceType pollingCount (c # cs) =
     (if cfg_enabled CutVersion FabVersion InterfaceType c
      then if pc_cmd c = PWR_CMD_WRITE
           then do {
             pwr_write H c;
             pwr_parse H CutVersion FabVersion InterfaceType pollingCount cs }
           else if pc_cmd c = PWR_CMD_POLLING
           then do {
             (found, n) \<leftarrow> poll_loop H c pollingCount;
             if found then pwr_parse H CutVersion FabVersion InterfaceType n cs
             else State_Monad.return (Some False) }
           else if pc_cmd c = PWR_CMD_DELAY
           then do {
             pwr_delay H c;
             pwr_parse H CutVersion FabVersion InterfaceType pollingCount cs }
           else if pc_cmd c = PWR_CMD_END then State_Monad.return (Some True)
           else pwr_parse H CutVersion FabVersion InterfaceType pollingCount cs
      else pwr_parse H CutVersion FabVersion InterfaceType pollingCount cs)"

definition HalPwrSeqCmdParsing :: "'h usb_host \<Rightarrow> u8 \<Rightarrow> u8 \<Rightarrow> u8 \<Rightarrow> WLAN_PWR_CFG list \<Rightarrow> ('h, bool option) io" where
  "HalPwrSeqCmdParsing H CutVersion FabVersion InterfaceType PwrSeqCmd =
     pwr_parse H CutVersion FabVersion InterfaceType 0 PwrSeqCmd"

section \<open>Specification\<close>

text \<open>The commands that count: the enabled ones before the first enabled end.\<close>

definition script :: "u8 \<Rightarrow> u8 \<Rightarrow> u8 \<Rightarrow> WLAN_PWR_CFG list \<Rightarrow> WLAN_PWR_CFG list" where
  "script cv fv iface cs = takeWhile (\<lambda>c. pc_cmd c \<noteq> PWR_CMD_END) (filter (cfg_enabled cv fv iface) cs)"

definition has_end :: "u8 \<Rightarrow> u8 \<Rightarrow> u8 \<Rightarrow> WLAN_PWR_CFG list \<Rightarrow> bool" where
  "has_end cv fv iface cs \<longleftrightarrow> list_ex (\<lambda>c. cfg_enabled cv fv iface c \<and> pc_cmd c = PWR_CMD_END) cs"

definition poll_match :: "WLAN_PWR_CFG \<Rightarrow> u8 \<Rightarrow> bool" where
  "poll_match c v \<longleftrightarrow> v AND pc_msk c = pc_value c AND pc_msk c"

text \<open>\<open>poll_until H c k d d'\<close>: the \<open>k\<close>-th read is the first to show the value.\<close>

inductive poll_until :: "'h usb_host \<Rightarrow> WLAN_PWR_CFG \<Rightarrow> nat \<Rightarrow> 'h usb_dev \<Rightarrow> 'h usb_dev \<Rightarrow> bool" for H c where
  now: "run_state (rtw_read8 H (ucast (pc_offset c))) d = (v, d1) \<Longrightarrow> poll_match c v \<Longrightarrow> poll_until H c 1 d d1"
| later: "run_state (rtw_read8 H (ucast (pc_offset c))) d = (v, d1) \<Longrightarrow> \<not> poll_match c v \<Longrightarrow>
     run_state (rtw_udelay_os H 10) d1 = ((), d2) \<Longrightarrow> poll_until H c k d2 d' \<Longrightarrow> poll_until H c (Suc k) d d'"

inductive_cases poll_untilE: "poll_until H c k d d'"

text \<open>One command, with the number of reads its polling takes.\<close>

inductive pwr_step :: "'h usb_host \<Rightarrow> WLAN_PWR_CFG \<Rightarrow> nat \<Rightarrow> 'h usb_dev \<Rightarrow> 'h usb_dev \<Rightarrow> bool" for H c where
  Write: "pc_cmd c = PWR_CMD_WRITE \<Longrightarrow> run_state (pwr_write H c) d = (b, d') \<Longrightarrow> pwr_step H c 0 d d'"
| Polling: "pc_cmd c = PWR_CMD_POLLING \<Longrightarrow> poll_until H c k d d' \<Longrightarrow> pwr_step H c k d d'"
| Delay: "pc_cmd c = PWR_CMD_DELAY \<Longrightarrow> run_state (pwr_delay H c) d = ((), d') \<Longrightarrow> pwr_step H c 0 d d'"
| Other: "pc_cmd c \<notin> {PWR_CMD_WRITE, PWR_CMD_POLLING, PWR_CMD_DELAY, PWR_CMD_END} \<Longrightarrow> pwr_step H c 0 d d"

inductive_cases pwr_stepE: "pwr_step H c k d d'"

inductive pwr_run :: "'h usb_host \<Rightarrow> WLAN_PWR_CFG list \<Rightarrow> nat \<Rightarrow> 'h usb_dev \<Rightarrow> 'h usb_dev \<Rightarrow> bool" for H where
  Nil: "pwr_run H [] 0 d d"
| Cons: "pwr_step H c k d d1 \<Longrightarrow> pwr_run H cs n d1 d' \<Longrightarrow> pwr_run H (c # cs) (k + n) d d'"

inductive_simps pwr_run_simps [simp]: "pwr_run H [] n d d'" "pwr_run H (c # cs) n d d'"

section \<open>The interpreter meets the specification\<close>

lemma poll_loop_step:
  assumes "run_state (rtw_read8 H (ucast (pc_offset c))) d = (v, d1)"
  shows "run_state (poll_loop H c n) d =
     (let d2 = (if poll_match c v then d1 else snd (run_state (rtw_udelay_os H 10) d1))
      in if n > maxPollingCnt then ((False, n + 1), d2)
         else if poll_match c v then ((True, n + 1), d2) else run_state (poll_loop H c (n + 1)) d2)"
  by (subst poll_loop.simps) (simp add: assms poll_match_def Let_def rtw_udelay_os_def)

lemma poll_until_pos: "poll_until H c k d d' \<Longrightarrow> 0 < k"
  by (erule poll_untilE) auto

lemma poll_loop_found:
  "run_state (poll_loop H c n) d = ((True, m), d') \<longleftrightarrow> (\<exists>k. poll_until H c k d d' \<and> m = n + k \<and> m \<le> maxPollingCnt + 1)"
proof (induction "maxPollingCnt + 1 - n" arbitrary: n d)
  case 0
  then have "maxPollingCnt < n" by simp
  then show ?case
    by (cases "run_state (rtw_read8 H (ucast (pc_offset c))) d")
      (auto simp: poll_loop_step Let_def dest: poll_until_pos)
next
  case (Suc x)
  obtain v d1 where r: "run_state (rtw_read8 H (ucast (pc_offset c))) d = (v, d1)" by fastforce
  have n: "n \<le> maxPollingCnt" "x = maxPollingCnt + 1 - (n + 1)" using Suc.hyps(2) by simp_all
  let ?d2 = "snd (run_state (rtw_udelay_os H 10) d1)"
  show ?case
  proof (cases "poll_match c v")
    case True
    then have "poll_until H c k d d' \<longleftrightarrow> k = 1 \<and> d' = d1" for k
      using r by (auto intro: poll_until.now [unfolded One_nat_def] elim: poll_untilE)
    then show ?thesis using r True n(1) by (auto simp: poll_loop_step Let_def)
  next
    case False
    have "poll_until H c k d d' \<longleftrightarrow> (\<exists>j. k = Suc j \<and> poll_until H c j ?d2 d')" for k
    proof
      assume "poll_until H c k d d'"
      then show "\<exists>j. k = Suc j \<and> poll_until H c j ?d2 d'" using r False by cases auto
    next
      assume "\<exists>j. k = Suc j \<and> poll_until H c j ?d2 d'"
      then show "poll_until H c k d d'" using r False
        by (auto intro!: poll_until.later [where ?d2.0 = ?d2] simp: rtw_udelay_os_def)
    qed
    then show ?thesis
      using r False n(1) Suc.hyps(1) [OF n(2)] by (auto simp: poll_loop_step Let_def)
  qed
qed

text \<open>Every run of a sequence with an end returns, with success exactly when the reads suffice.\<close>

lemma pwr_step_polls: "pwr_step H c k d d' \<Longrightarrow> pc_cmd c \<noteq> PWR_CMD_POLLING \<Longrightarrow> k = 0"
  by (erule pwr_stepE) auto

lemma pwr_step_cmds:
  "pc_cmd c = PWR_CMD_WRITE \<Longrightarrow> pwr_step H c k d d' \<longleftrightarrow> k = 0 \<and> d' = snd (run_state (pwr_write H c) d)"
  "pc_cmd c = PWR_CMD_POLLING \<Longrightarrow> pwr_step H c k d d' \<longleftrightarrow> poll_until H c k d d'"
  "pc_cmd c = PWR_CMD_DELAY \<Longrightarrow> pwr_step H c k d d' \<longleftrightarrow> k = 0 \<and> d' = snd (run_state (pwr_delay H c) d)"
  "pc_cmd c \<notin> {PWR_CMD_WRITE, PWR_CMD_POLLING, PWR_CMD_DELAY, PWR_CMD_END} \<Longrightarrow> pwr_step H c k d d' \<longleftrightarrow> k = 0 \<and> d' = d"
  by (cases "run_state (pwr_write H c) d", cases "run_state (pwr_delay H c) d",
      auto elim!: pwr_stepE intro: pwr_step.intros simp: pwr_cmds)+

definition fits :: "nat \<Rightarrow> nat \<Rightarrow> bool" where "fits n k \<longleftrightarrow> k = 0 \<or> n + k \<le> maxPollingCnt + 1"

lemma fits_add: "0 < k \<Longrightarrow> fits n (k + j) \<longleftrightarrow> n + k \<le> maxPollingCnt + 1 \<and> fits (n + k) j"
  by (auto simp: fits_def)

lemma pwr_run_poll:
  assumes "pc_cmd c = PWR_CMD_POLLING"
  shows "(\<exists>k. pwr_run H (c # cs) k d d' \<and> fits n k) \<longleftrightarrow>
     (\<exists>m d1. run_state (poll_loop H c n) d = ((True, m), d1) \<and> (\<exists>k. pwr_run H cs k d1 d' \<and> fits m k))"
proof -
  have "poll_until H c k d d1 \<and> fits n (k + j) \<longleftrightarrow> poll_until H c k d d1 \<and> n + k \<le> maxPollingCnt + 1 \<and> fits (n + k) j" for k j d1
    using fits_add [of k n j] poll_until_pos [of H c k d d1] by blast
  then show ?thesis unfolding poll_loop_found using assms by (simp add: pwr_step_cmds) blast
qed

lemma pwr_run_other:
  assumes "pc_cmd c \<noteq> PWR_CMD_POLLING" and "pc_cmd c \<noteq> PWR_CMD_END" and "\<And>k d1. pwr_step H c k d d1 \<longleftrightarrow> k = 0 \<and> d1 = d2"
  shows "(\<exists>k. pwr_run H (c # cs) k d d' \<and> fits n k) \<longleftrightarrow> (\<exists>k. pwr_run H cs k d2 d' \<and> fits n k)"
  using assms(3) by auto

lemma pwr_parse_run:
  assumes "has_end cv fv iface cs"
  shows "(\<exists>b. fst (run_state (pwr_parse H cv fv iface n cs) d) = Some b) \<and>
     (run_state (pwr_parse H cv fv iface n cs) d = (Some True, d') \<longleftrightarrow>
        (\<exists>k. pwr_run H (script cv fv iface cs) k d d' \<and> fits n k))"
  using assms
proof (induction cs arbitrary: n d)
  case (Cons c cs)
  show ?case
  proof (cases "cfg_enabled cv fv iface c \<and> pc_cmd c = PWR_CMD_END")
    case True
    then show ?thesis by (auto simp: pwr_cmds script_def fits_def)
  next
    case False
    then have "has_end cv fv iface cs" using Cons.prems by (auto simp: has_end_def)
    note IH = Cons.IH [OF this]
    show ?thesis
    proof (cases "cfg_enabled cv fv iface c")
      case en: True
      then have sc: "script cv fv iface (c # cs) = c # script cv fv iface cs" using False by (simp add: script_def)
      show ?thesis
      proof (cases "pc_cmd c = PWR_CMD_POLLING")
        case True
        obtain ok m d1 where p: "run_state (poll_loop H c n) d = ((ok, m), d1)" by (metis prod.exhaust)
        show ?thesis
          unfolding sc pwr_run_poll [OF True]
          using en True p IH [of m d1] by (cases ok) (auto simp: pwr_cmds)
      next
        case np: False
        let ?d2 = "if pc_cmd c = PWR_CMD_WRITE then snd (run_state (pwr_write H c) d)
          else if pc_cmd c = PWR_CMD_DELAY then snd (run_state (pwr_delay H c) d) else d"
        have "run_state (pwr_parse H cv fv iface n (c # cs)) d = run_state (pwr_parse H cv fv iface n cs) ?d2"
          using en np False by (simp add: case_prod_beta)
        moreover have "pwr_step H c k d d1 \<longleftrightarrow> k = 0 \<and> d1 = ?d2" for k d1
          using np False en by (auto simp: pwr_step_cmds)
        ultimately show ?thesis
          unfolding sc using IH [of n ?d2] np False en by (subst pwr_run_other [where ?d2.0 = ?d2]) auto
      qed
    next
      case off: False
      then show ?thesis using IH by (simp add: script_def)
    qed
  qed
qed (simp add: has_end_def)

lemma fits_zero: "fits 0 k \<longleftrightarrow> k \<le> maxPollingCnt + 1"
  by (auto simp: fits_def)

text \<open>
  C31: The interpreter of power sequences refines the specification: on a sequence with an end it
  returns, and it returns success exactly when its enabled commands, run one after the other, are
  met by the device within 5001 reads of polling in all.
\<close>

theorem pwrseq_refines_script:
  assumes "has_end cv fv iface cs"
  shows "(\<exists>b. fst (run_state (HalPwrSeqCmdParsing H cv fv iface cs) d) = Some b) \<and>
     (run_state (HalPwrSeqCmdParsing H cv fv iface cs) d = (Some True, d') \<longleftrightarrow>
        (\<exists>k. pwr_run H (script cv fv iface cs) k d d' \<and> k \<le> maxPollingCnt + 1))"
  using pwr_parse_run [OF assms, of H 0 d d'] by (simp only: HalPwrSeqCmdParsing_def fits_zero)

definition driver_flows :: "WLAN_PWR_CFG list list" where
  "driver_flows = [rtl8188F_power_on_flow, rtl8188F_radio_off_flow, rtl8188F_card_disable_flow,
     rtl8188F_card_enable_flow, rtl8188F_suspend_flow, rtl8188F_resume_flow, rtl8188F_hwpdn_flow,
     rtl8188F_enter_lps_flow, rtl8188F_leave_lps_flow, rtl8188F_enter_swlps_flow, rtl8188F_leave_swlps_flow]"

lemma trans_end_enabled:
  "has_end PWR_CUT_ALL_MSK PWR_FAB_ALL_MSK PWR_INTF_USB_MSK (flow n (cs @ RTL8188F_TRANS_END))"
  by (simp add: has_end_def flow_def RTL8188F_TRANS_END_def cfg_def cfg_enabled_def pwr_masks)

lemma driver_flows_end: "list_all (has_end PWR_CUT_ALL_MSK PWR_FAB_ALL_MSK PWR_INTF_USB_MSK) driver_flows"
  by (simp add: driver_flows_def rtl8188F_power_on_flow_def rtl8188F_radio_off_flow_def rtl8188F_card_disable_flow_def
      rtl8188F_card_enable_flow_def rtl8188F_suspend_flow_def rtl8188F_resume_flow_def rtl8188F_hwpdn_flow_def
      rtl8188F_enter_lps_flow_def rtl8188F_leave_lps_flow_def rtl8188F_enter_swlps_flow_def
      rtl8188F_leave_swlps_flow_def trans_end_enabled append_assoc [symmetric] del: append_assoc)

text \<open>
  Whatever the chip answers, the interpreter returns from each of the eleven power sequences of
  the driver, without leaving the array.
\<close>

theorem driver_flows_return:
  "list_all (\<lambda>cs. \<exists>b. fst (run_state (HalPwrSeqCmdParsing H PWR_CUT_ALL_MSK PWR_FAB_ALL_MSK PWR_INTF_USB_MSK cs) d) = Some b)
     driver_flows"
  using driver_flows_end pwr_parse_run [of _ _ _ _ H 0 d] by (auto simp: list_all_iff HalPwrSeqCmdParsing_def)

section \<open>The budget of the polling loops\<close>

text \<open>
  The count of reads is not reset between commands: after a polling command that needed 5001
  reads, the next one fails even when the register shows the value at the first read, and although
  the same command alone succeeds.
\<close>

theorem poll_budget_shared:
  assumes "poll_until H c1 (maxPollingCnt + 1) d d1" and "poll_until H c2 1 d1 d2"
    and "map pc_cmd [c1, c2, e] = [PWR_CMD_POLLING, PWR_CMD_POLLING, PWR_CMD_END]"
    and "list_all (cfg_enabled cv fv iface) [c1, c2, e]"
  shows "fst (run_state (HalPwrSeqCmdParsing H cv fv iface [c2, e]) d1) = Some True \<and>
     fst (run_state (HalPwrSeqCmdParsing H cv fv iface [c1, c2, e]) d) = Some False"
proof -
  have c: "pc_cmd c1 = PWR_CMD_POLLING" "pc_cmd c2 = PWR_CMD_POLLING" "pc_cmd e = PWR_CMD_END"
      "cfg_enabled cv fv iface c1" "cfg_enabled cv fv iface c2" "cfg_enabled cv fv iface e"
    using assms(3,4) by simp_all
  have p1: "run_state (poll_loop H c1 0) d = ((True, maxPollingCnt + 1), d1)"
    using assms(1) poll_loop_found [of H c1 0 d "maxPollingCnt + 1" d1] by auto
  have p2: "run_state (poll_loop H c2 0) d1 = ((True, 1), d2)"
    using assms(2) poll_loop_found [of H c2 0 d1 1 d2] by (auto simp: maxPollingCnt_def)
  obtain m d3 where p3: "run_state (poll_loop H c2 (maxPollingCnt + 1)) d1 = ((False, m), d3)"
    using poll_loop_step [of H c2 d1] by (cases "run_state (rtw_read8 H (ucast (pc_offset c2))) d1") (auto simp: Let_def)
  show ?thesis
    using c p1 p2 p3 by (simp add: HalPwrSeqCmdParsing_def pwr_cmds)
qed

text \<open>A chip whose registers read one from some read on; and the commands that wait for it.\<close>

definition slow_host :: "nat usb_host" where
  "slow_host = \<lparr>usb_control_msg = (\<lambda>rd v b h. (int (length b), replicate (length b) (if 5000 \<le> h then 1 else 0), Suc h)),
     os_delay = (\<lambda>_ h. h), jiffies = (\<lambda>_. 0), host_HZ = 100\<rparr>"

definition wait_cfg :: WLAN_PWR_CFG where
  "wait_cfg = cfg 6 PWR_INTF_ALL_MSK PWR_BASEADDR_MAC PWR_CMD_POLLING 1 1"

lemma slow_host_read:
  "\<not> RTW_CANNOT_IO d \<Longrightarrow> \<exists>d'. run_state (rtw_read8 slow_host a) d = (if 5000 \<le> udev d then 1 else 0, d') \<and>
     udev d' = Suc (udev d) \<and> \<not> RTW_CANNOT_IO d'"
proof -
  assume "\<not> RTW_CANNOT_IO d"
  moreover have "answering slow_host" by (simp add: answering_def slow_host_def)
  ultimately show ?thesis by (simp add: answered_read8) (simp add: slow_host_def reply_def after_def served_def)
qed

lemma slow_host_polls:
  "udev d + k = 5000 \<Longrightarrow> \<not> RTW_CANNOT_IO d \<Longrightarrow>
     \<exists>d'. poll_until slow_host wait_cfg (Suc k) d d' \<and> udev d' = 5001 \<and> \<not> RTW_CANNOT_IO d'"
proof (induction k arbitrary: d)
  case 0
  obtain d1 where d1: "run_state (rtw_read8 slow_host (ucast (pc_offset wait_cfg))) d = (1, d1)" "udev d1 = 5001" "\<not> RTW_CANNOT_IO d1"
    using slow_host_read [OF 0(2), of "ucast (pc_offset wait_cfg)"] 0(1) by auto
  have "poll_until slow_host wait_cfg 1 d d1"
    by (rule poll_until.now [OF d1(1)]) (simp add: poll_match_def wait_cfg_def cfg_def)
  then show ?case using d1 by auto
next
  case (Suc k)
  obtain d1 where d1: "run_state (rtw_read8 slow_host (ucast (pc_offset wait_cfg))) d = (0, d1)" "udev d1 = Suc (udev d)" "\<not> RTW_CANNOT_IO d1"
    using slow_host_read [OF Suc.prems(2), of "ucast (pc_offset wait_cfg)"] Suc.prems(1) by auto
  have del: "run_state (rtw_udelay_os slow_host 10) d1 = ((), d1)" by (simp add: rtw_udelay_os_def slow_host_def)
  obtain d' where "poll_until slow_host wait_cfg (Suc k) d1 d'" "udev d' = 5001" "\<not> RTW_CANNOT_IO d'"
    using Suc.IH [of d1] Suc.prems(1) d1(2,3) by auto
  then show ?case
    using poll_until.later [OF d1(1) _ del] by (auto simp: poll_match_def wait_cfg_def cfg_def)
qed

lemma slow_host_first: "5000 \<le> udev d \<Longrightarrow> \<not> RTW_CANNOT_IO d \<Longrightarrow> \<exists>d'. poll_until slow_host wait_cfg 1 d d'"
  using slow_host_read [of d "ucast (pc_offset wait_cfg)"] poll_until.now [of slow_host wait_cfg d 1]
  by (auto simp: poll_match_def wait_cfg_def cfg_def)

theorem poll_budget_shared_witness:
  "fst (run_state (HalPwrSeqCmdParsing slow_host PWR_CUT_ALL_MSK PWR_FAB_ALL_MSK PWR_INTF_USB_MSK
     [wait_cfg, wait_cfg, cfg 0xFFFF PWR_INTF_ALL_MSK 0 PWR_CMD_END 0 0]) (usb_dev_ex 0)) = Some False"
proof -
  have r: "\<not> RTW_CANNOT_IO (usb_dev_ex (0 :: nat))" by (simp add: RTW_CANNOT_IO_def usb_dev_ex_def)
  obtain d1 where d1: "poll_until slow_host wait_cfg (Suc 5000) (usb_dev_ex 0) d1" "udev d1 = 5001" "\<not> RTW_CANNOT_IO d1"
    using slow_host_polls [OF _ r, of 5000] by (auto simp: usb_dev_ex_def)
  obtain d2 where d2: "poll_until slow_host wait_cfg 1 d1 d2" using slow_host_first [of d1] d1 by auto
  show ?thesis
    by (rule conjunct2 [OF poll_budget_shared [OF _ d2, of wait_cfg]])
      (use d1(1) in \<open>simp_all add: maxPollingCnt_def wait_cfg_def cfg_def cfg_enabled_def pwr_masks\<close>)
qed

theorem pwrseq_refines_script_witness:
  "\<exists>d'. run_state (HalPwrSeqCmdParsing slow_host PWR_CUT_ALL_MSK PWR_FAB_ALL_MSK PWR_INTF_USB_MSK
     [wait_cfg, cfg 0xFFFF PWR_INTF_ALL_MSK 0 PWR_CMD_END 0 0]) (usb_dev_ex 0) = (Some True, d')"
proof -
  let ?cs = "[wait_cfg, cfg 0xFFFF PWR_INTF_ALL_MSK 0 PWR_CMD_END 0 0]"
  have r: "\<not> RTW_CANNOT_IO (usb_dev_ex (0 :: nat))" by (simp add: RTW_CANNOT_IO_def usb_dev_ex_def)
  have s: "script PWR_CUT_ALL_MSK PWR_FAB_ALL_MSK PWR_INTF_USB_MSK ?cs = [wait_cfg]"
    "has_end PWR_CUT_ALL_MSK PWR_FAB_ALL_MSK PWR_INTF_USB_MSK ?cs"
    by (simp_all add: script_def has_end_def wait_cfg_def cfg_def cfg_enabled_def pwr_masks pwr_cmds)
  obtain d1 where "poll_until slow_host wait_cfg (Suc 5000) (usb_dev_ex 0) d1"
    using slow_host_polls [OF _ r, of 5000] by (auto simp: usb_dev_ex_def)
  then have "pwr_run slow_host [wait_cfg] (Suc 5000) (usb_dev_ex 0) d1"
    by (auto intro!: pwr_step.Polling) (simp add: wait_cfg_def cfg_def)
  then show ?thesis
    using pwrseq_refines_script [OF s(2), of slow_host "usb_dev_ex 0" d1] unfolding s(1)
    by (auto simp: maxPollingCnt_def)
qed

end
