(* ===== verification/Hal_Power.thy ===== *)
theory Hal_Power
  imports Hal_Fw Hal_PwrSeq
begin

text \<open>
  Switching the card on and off (\<open>hal/rtl8188f/usb/usb_halinit.c\<close>), on top of the power
  sequences, and the choice of the reference clock (\<open>rtl8188f_hal_init.c\<close>). The coexistence
  with Bluetooth is not built in.
\<close>

definition REG_CR_8188F :: u32 where "REG_CR_8188F = 0x100"
definition REG_APS_FSMCO :: u32 where "REG_APS_FSMCO = 0x4"
definition REG_TX_RPT_CTRL :: u32 where "REG_TX_RPT_CTRL = 0x4EC"
definition REG_RSV_CTRL_8188F :: u32 where "REG_RSV_CTRL_8188F = 0x1C"
definition REG_MAC_PLL_CTRL_EXT_8188F :: u32 where "REG_MAC_PLL_CTRL_EXT_8188F = 0x2C"
definition REG_GPIO_MUXCFG :: u32 where "REG_GPIO_MUXCFG = 0x40"
definition REG_HISR0_8188F :: u32 where "REG_HISR0_8188F = 0xB4"
definition REG_HISR1_8188F :: u32 where "REG_HISR1_8188F = 0xBC"

definition rtl8188f_set_pll_ref_clk_sel :: "'h usb_host \<Rightarrow> u8 \<Rightarrow> ('h, unit) io" where
  "rtl8188f_set_pll_ref_clk_sel H sel = do {
     value8 \<leftarrow> rtw_read8 H REG_MAC_PLL_CTRL_EXT_8188F;
     if value8 AND 0x0F \<noteq> sel AND 0x0F
     then do {
       value16 \<leftarrow> rtw_read16 H REG_RSV_CTRL_8188F;
       let locked = (value16 AND 0x100 \<noteq> 0);
       _ \<leftarrow> (if locked then rtw_write16 H REG_RSV_CTRL_8188F (value16 AND NOT 0x100) else State_Monad.return True);
       _ \<leftarrow> rtw_write8 H REG_MAC_PLL_CTRL_EXT_8188F ((value8 AND 0xF0) OR (sel AND 0x0F));
       _ \<leftarrow> (if locked then rtw_write16 H REG_RSV_CTRL_8188F ((value16 AND NOT 0x100) OR 0x100) else State_Monad.return True);
       State_Monad.return () }
     else State_Monad.return () }"

definition usb_flow :: "'h usb_host \<Rightarrow> WLAN_PWR_CFG list \<Rightarrow> ('h, bool option) io" where
  "usb_flow H = HalPwrSeqCmdParsing H PWR_CUT_ALL_MSK PWR_FAB_ALL_MSK PWR_INTF_USB_MSK"

text \<open>
  HCI_TXDMA_EN, HCI_RXDMA_EN, TXDMA_EN, RXDMA_EN, PROTOCOL_EN, SCHEDULE_EN, ENSEC and CALTMR_EN.
\<close>

definition CR_BLOCKS :: u16 where "CR_BLOCKS = 0x63F"

definition InitPowerOn_8188FU :: "'h usb_host \<Rightarrow> u8 \<Rightarrow> ('h, bool option) io" where
  "InitPowerOn_8188FU H pll_ref_clk_sel = do {
     _ \<leftarrow> (if pll_ref_clk_sel AND 0x0F \<noteq> 0x0F then rtl8188f_set_pll_ref_clk_sel H pll_ref_clk_sel
           else State_Monad.return ());
     ret \<leftarrow> usb_flow H rtl8188F_card_enable_flow;
     if ret = Some True
     then do {
       _ \<leftarrow> rtw_write8 H REG_CR_8188F 0x00;
       value16 \<leftarrow> rtw_read16 H REG_CR_8188F;
       _ \<leftarrow> rtw_write16 H REG_CR_8188F (value16 OR CR_BLOCKS);
       State_Monad.return (Some True) }
     else State_Monad.return ret }"

definition rtl8188fu_hw_power_down :: "'h usb_host \<Rightarrow> ('h, unit) io" where
  "rtl8188fu_hw_power_down H = do {
     tmp \<leftarrow> rtw_read8 H (REG_APS_FSMCO + 2);
     _ \<leftarrow> rtw_write8 H (REG_APS_FSMCO + 2) (tmp AND NOT 1);
     tmp \<leftarrow> rtw_read8 H (REG_APS_FSMCO + 1);
     _ \<leftarrow> rtw_write8 H (REG_APS_FSMCO + 1) (tmp OR 0x80);
     State_Monad.return () }"

text \<open>The results of the two sequences are not looked at.\<close>

definition CardDisableRTL8188FU :: "'h usb_host \<Rightarrow> fw_hal \<Rightarrow> ('h, fw_hal) io" where
  "CardDisableRTL8188FU H h = do {
     tmp \<leftarrow> rtw_read8 H REG_TX_RPT_CTRL;
     _ \<leftarrow> rtw_write8 H REG_TX_RPT_CTRL (tmp AND NOT 2);
     _ \<leftarrow> rtw_write8 H REG_CR_8188F 0x0;
     tmp \<leftarrow> rtw_read8 H REG_MCUFWDL;
     _ \<leftarrow> (if tmp AND 0x80 \<noteq> 0 \<and> bFWReady h then rtl8188f_FirmwareSelfReset H h else State_Monad.return ());
     _ \<leftarrow> usb_flow H rtl8188F_enter_lps_flow;
     tmp \<leftarrow> rtw_read8 H (REG_SYS_FUNC_EN + 1);
     _ \<leftarrow> rtw_write8 H (REG_SYS_FUNC_EN + 1) (tmp AND NOT 4);
     _ \<leftarrow> rtw_write8 H REG_MCUFWDL 0x00;
     _ \<leftarrow> usb_flow H rtl8188F_card_disable_flow;
     State_Monad.return (h\<lparr>bFWReady := False\<rparr>) }"

text \<open>
  \<open>rtl8188fu_hal_deinit\<close>, without the test mode; the flags are those of the power control and
  of the HAL. The second result is the new \<open>bMacPwrCtrlOn\<close>.
\<close>

definition rtl8188fu_hal_deinit :: "'h usb_host \<Rightarrow> bool \<Rightarrow> bool \<Rightarrow> bool \<Rightarrow> fw_hal \<Rightarrow> ('h, fw_hal \<times> bool) io" where
  "rtl8188fu_hal_deinit H hw_init_completed bHWPwrPindetect bHWPowerdown h = do {
     v \<leftarrow> rtw_read16 H REG_GPIO_MUXCFG;
     _ \<leftarrow> rtw_write16 H REG_GPIO_MUXCFG (v AND NOT 0x1000);
     _ \<leftarrow> rtw_write32 H REG_HISR0_8188F 0xFFFFFFFF;
     _ \<leftarrow> rtw_write32 H REG_HISR1_8188F 0xFFFFFFFF;
     h \<leftarrow> (if hw_init_completed
           then do {
             h \<leftarrow> CardDisableRTL8188FU H h;
             _ \<leftarrow> (if bHWPwrPindetect \<and> bHWPowerdown then rtl8188fu_hw_power_down H else State_Monad.return ());
             State_Monad.return h }
           else State_Monad.return h);
     State_Monad.return (h, False) }"

section \<open>What a success of the power-on says of the chip\<close>

text \<open>\<open>seen P d d'\<close>: the log of \<open>d'\<close> extends that of \<open>d\<close>, with an entry for which \<open>P\<close>.\<close>

definition log_ext :: "'h usb_dev \<Rightarrow> 'h usb_dev \<Rightarrow> bool" where
  "log_ext d d' \<longleftrightarrow> (\<exists>evs. io_log d' = io_log d @ evs)"

definition seen :: "(ctl_event \<Rightarrow> bool) \<Rightarrow> 'h usb_dev \<Rightarrow> 'h usb_dev \<Rightarrow> bool" where
  "seen P d d' \<longleftrightarrow> (\<exists>evs. io_log d' = io_log d @ evs \<and> list_ex P evs)"

lemma log_ext_refl [simp]: "log_ext d d"
  by (simp add: log_ext_def)

lemma log_ext_trans: "log_ext d d1 \<Longrightarrow> log_ext d1 d' \<Longrightarrow> log_ext d d'"
  by (auto simp: log_ext_def)

lemma seen_trans: "seen P d d1 \<Longrightarrow> log_ext d1 d' \<Longrightarrow> seen P d d'" "log_ext d d1 \<Longrightarrow> seen P d1 d' \<Longrightarrow> seen P d d'"
  by (fastforce simp: log_ext_def seen_def)+

lemma io_rel_bind:
  assumes "state_io_rel log_ext m" and "\<And>x. state_io_rel log_ext (f x)"
  shows "state_io_rel log_ext (m \<bind> f)"
proof
  fix a s s'
  assume r: "run_state (m \<bind> f) s = (a, s')"
  obtain x s1 where "run_state m s = (x, s1)" by fastforce
  then have "log_ext s s1" "log_ext s1 s'" using r assms by (auto dest: state_io_relD)
  then show "log_ext s s'" by (rule log_ext_trans)
qed

lemma io_rel_return: "state_io_rel log_ext (State_Monad.return x)"
  by (auto simp: state_io_rel_def)

lemma read_event_loop:
  "vendorreq_loop n H True v p st d = ((status, p'), d') \<Longrightarrow>
     \<exists>evs. io_log d' = io_log d @ evs \<and> (p' \<noteq> p \<longrightarrow> list_ex (\<lambda>e. ctl_in e \<and> ctl_reg e = v \<and> ctl_data e = p') evs)"
proof (induction n arbitrary: p st d)
  case (Suc n)
  obtain s1 buf d1 where m: "ctl_msg H True v (replicate (length p) 0) d = (s1, buf, d1)"
    and l: "io_log d1 = io_log d @ [Ctl True v buf s1]"
    by (rule ctl_msg_cases [of H True v "replicate (length p) 0" d]) auto
  let ?d2 = "if s1 = - ESHUTDOWN \<or> s1 = - ENODEV then d1\<lparr>bSurpriseRemoved := True\<rparr> else d1"
  obtain err d3 where i: "rtw_inc_and_chk_continual_io_error ?d2 = (err, d3)" by fastforce
  have l3: "io_log d3 = io_log d @ [Ctl True v buf s1]"
    using i l by (auto simp: rtw_inc_and_chk_continual_io_error_def Let_def split: if_splits)
  consider "d' = rtw_reset_continual_io_error d1" "p' = buf"
    | "io_log d' = io_log d3" "p' = p \<or> p' = buf"
    | q where "vendorreq_loop n H True v q s1 d3 = ((status, p'), d')" "q = p \<or> q = buf"
    using Suc.prems m i by (auto simp: Let_def split: if_splits)
  then show ?case
  proof cases
    case 3
    then show ?thesis using Suc.IH [OF 3(1)] l3 by auto
  qed (use l l3 in \<open>auto simp: rtw_reset_continual_io_error_def\<close>)
qed simp

lemma write_ext_loop: "vendorreq_loop n H rd v p st d = ((status, p'), d') \<Longrightarrow> log_ext d d'"
proof (induction n arbitrary: p st d)
  case (Suc n)
  let ?b = "if rd then replicate (length p) 0 else p"
  obtain s1 buf d1 where m: "ctl_msg H rd v ?b d = (s1, buf, d1)" and l: "log_ext d d1"
    by (rule ctl_msg_cases [of H rd v ?b d]) (auto simp: log_ext_def)
  let ?d2 = "if s1 = - ESHUTDOWN \<or> s1 = - ENODEV then d1\<lparr>bSurpriseRemoved := True\<rparr> else d1"
  obtain err d3 where i: "rtw_inc_and_chk_continual_io_error ?d2 = (err, d3)" by fastforce
  have l3: "log_ext d d3"
    using i l by (auto simp: log_ext_def rtw_inc_and_chk_continual_io_error_def Let_def split: if_splits)
  consider "d' = rtw_reset_continual_io_error d1" | "io_log d' = io_log d3"
    | q where "vendorreq_loop n H rd v q s1 d3 = ((status, p'), d')"
    using Suc.prems m i by (auto simp: Let_def split: if_splits)
  then show ?case
  proof cases
    case 3
    then show ?thesis using Suc.IH [OF 3] l3 log_ext_trans by blast
  qed (use l l3 in \<open>auto simp: log_ext_def rtw_reset_continual_io_error_def\<close>)
qed simp

lemma vendorreq_ext: "state_io_rel log_ext (usbctrl_vendorreq H rd v p)"
  by (rule state_io_relI) (auto simp: usbctrl_vendorreq_def split: if_splits dest: write_ext_loop)

lemmas io_exts = io_rel_bind io_rel_return vendorreq_ext

lemma io_ext_ops:
  "state_io_rel log_ext (rtw_read8 H a)" "state_io_rel log_ext (rtw_read16 H a)" "state_io_rel log_ext (rtw_write8 H a x)"
  "state_io_rel log_ext (rtw_write16 H a y)" "state_io_rel log_ext (rtw_udelay_os H us)"
  "state_io_rel log_ext (pwr_write H c)" "state_io_rel log_ext (pwr_delay H c)"
  by (auto simp: rtw_read8_def rtw_read16_def rtw_write8_def rtw_write16_def pwr_write_def pwr_delay_def Let_def
      intro!: io_exts split: prod.splits) (auto simp: state_io_rel_def rtw_udelay_os_def log_ext_def)

text \<open>A value other than zero that a read returns comes from the chip.\<close>

lemma read8_seen:
  assumes "run_state (rtw_read8 H a) d = (v, d')" and "v \<noteq> 0"
  shows "seen (\<lambda>e. ctl_in e \<and> ctl_reg e = ucast a \<and> ctl_data e ! 0 = v) d d'"
proof -
  obtain st p' where r: "run_state (usbctrl_vendorreq H True (ucast a) [0]) d = ((st, p'), d')" "p' ! 0 = v"
    using assms(1) by (auto simp: rtw_read8_def split: prod.splits)
  have "p' \<noteq> [0]" using r(2) assms(2) by auto
  then have "vendorreq_loop MAX_USBCTRL_VENDORREQ_TIMES H True (ucast a) [0] 0 d = ((st, p'), d')"
    using r(1) by (auto simp: usbctrl_vendorreq_def split: if_splits)
  from read_event_loop [OF this] show ?thesis
    using \<open>p' \<noteq> [0]\<close> r(2) by (auto simp: seen_def list_ex_iff)
qed

definition shows_bits :: "WLAN_PWR_CFG \<Rightarrow> ctl_event \<Rightarrow> bool" where
  "shows_bits c e \<longleftrightarrow> ctl_in e \<and> ctl_reg e = pc_offset c \<and> poll_match c (ctl_data e ! 0)"

lemma poll_until_seen:
  assumes "poll_until H c k d d'" and "pc_value c AND pc_msk c \<noteq> 0"
  shows "seen (shows_bits c) d d'"
  using assms(1)
proof (induction rule: poll_until.induct)
  case (now d v d1)
  then have "v \<noteq> 0" using assms(2) by (auto simp: poll_match_def)
  moreover have "ucast (ucast (pc_offset c) :: u32) = pc_offset c" by (rule bit_word_eqI) (auto simp: bit_simps)
  ultimately show ?case
    using read8_seen [OF now(1)] now(2) by (auto simp: seen_def list_ex_iff shows_bits_def)
next
  case (later d v d1 d2 k d')
  have "log_ext d d1" "log_ext d1 d2"
    using io_ext_ops(1) [of H "ucast (pc_offset c)"] io_ext_ops(5) [of H 10] later(1,3) by (auto dest: state_io_relD)
  then show ?case using later.IH log_ext_trans seen_trans(2) by blast
qed

lemma poll_until_ext: "poll_until H c k d d' \<Longrightarrow> log_ext d d'"
proof (induction rule: poll_until.induct)
  case (later d v d1 d2 k d')
  have "log_ext d d1" "log_ext d1 d2"
    using io_ext_ops(1) [of H "ucast (pc_offset c)"] io_ext_ops(5) [of H 10] later(1,3) by (auto dest: state_io_relD)
  then show ?case using later.IH log_ext_trans by blast
qed (use io_ext_ops(1) in \<open>blast dest: state_io_relD\<close>)

lemma pwr_step_ext: "pwr_step H c k d d' \<Longrightarrow> log_ext d d'"
  by (erule pwr_stepE) (auto dest: poll_until_ext state_io_relD [OF io_ext_ops(6)] state_io_relD [OF io_ext_ops(7)])

lemma pwr_run_ext: "pwr_run H cs n d d' \<Longrightarrow> log_ext d d'"
  by (induction rule: pwr_run.induct) (auto intro: log_ext_trans pwr_step_ext)

lemma pwr_run_seen:
  assumes "pwr_run H cs n d d'" and "c \<in> set cs" and "pc_cmd c = PWR_CMD_POLLING" and "pc_value c AND pc_msk c \<noteq> 0"
  shows "seen (shows_bits c) d d'"
  using assms(1,2)
proof (induction rule: pwr_run.induct)
  case (Cons c1 k d d1 cs n d')
  show ?case
  proof (cases "c = c1")
    case True
    then have "poll_until H c k d d1" using Cons.hyps(1) assms(3) by (auto simp: pwr_step_cmds)
    from poll_until_seen [OF this assms(4)] pwr_run_ext [OF Cons.hyps(2)] show ?thesis by (rule seen_trans(1))
  next
    case False
    then have "seen (shows_bits c) d1 d'" using Cons by simp
    with pwr_step_ext [OF Cons.hyps(1)] show ?thesis by (rule seen_trans(2))
  qed
qed simp

definition power_ready :: WLAN_PWR_CFG where
  "power_ready = cfg 0x0006 PWR_INTF_ALL_MSK PWR_BASEADDR_MAC PWR_CMD_POLLING 0x02 0x02"

lemma card_enable_script:
  "power_ready \<in> set (script PWR_CUT_ALL_MSK PWR_FAB_ALL_MSK PWR_INTF_USB_MSK rtl8188F_card_enable_flow)"
  by (simp add: script_def rtl8188F_card_enable_flow_def flow_def RTL8188F_TRANS_CARDDIS_TO_CARDEMU_def
      RTL8188F_TRANS_CARDEMU_TO_ACT_def RTL8188F_TRANS_END_def cfg_enabled_def cfg_def pwr_masks pwr_cmds power_ready_def)

lemma card_enable_end: "has_end PWR_CUT_ALL_MSK PWR_FAB_ALL_MSK PWR_INTF_USB_MSK rtl8188F_card_enable_flow"
  using driver_flows_end by (simp add: driver_flows_def)

lemma pll_ext: "state_io_rel log_ext (rtl8188f_set_pll_ref_clk_sel H sel)"
  by (auto simp: rtl8188f_set_pll_ref_clk_sel_def Let_def intro!: io_rel_bind io_rel_return io_ext_ops)

text \<open>
  C32: The power-on always returns, and it returns success only if the chip has answered a read of
  register 6 with the power-ready bit: a dead bus, which reads as zero, never passes for a card
  that is on.
\<close>

theorem power_on_ready:
  "\<exists>b d'. run_state (InitPowerOn_8188FU H pll) d = (Some b, d') \<and>
     (b \<longrightarrow> seen (\<lambda>e. ctl_in e \<and> ctl_reg e = 6 \<and> ctl_data e ! 0 AND 2 = 2) d d')"
proof -
  let ?pll = "if pll AND 0x0F \<noteq> 0x0F then rtl8188f_set_pll_ref_clk_sel H pll else State_Monad.return ()"
  obtain u d1 where d1: "run_state ?pll d = (u, d1)" by (metis prod.exhaust)
  have e1: "log_ext d d1"
    using d1 pll_ext [of H pll] io_rel_return by (auto dest: state_io_relD split: if_splits)
  obtain b d2 where d2: "run_state (usb_flow H rtl8188F_card_enable_flow) d1 = (Some b, d2)"
    using pwr_parse_run [OF card_enable_end, of H 0 d1] unfolding usb_flow_def HalPwrSeqCmdParsing_def
    by (metis prod.exhaust_sel)
  let ?cr = "do { _ \<leftarrow> rtw_write8 H REG_CR_8188F 0x00; value16 \<leftarrow> rtw_read16 H REG_CR_8188F;
     _ \<leftarrow> rtw_write16 H REG_CR_8188F (value16 OR CR_BLOCKS); State_Monad.return (Some True) }"
  obtain d3 where d3: "run_state ?cr d2 = (Some True, d3)" by (auto simp: case_prod_beta)
  have e3: "log_ext d2 d3"
    by (rule state_io_relD [OF _ d3]) (intro io_rel_bind io_rel_return io_ext_ops)
  have run: "run_state (InitPowerOn_8188FU H pll) d = (Some b, if b then d3 else d2)"
    using d1 d2 d3 by (cases b) (simp_all add: InitPowerOn_8188FU_def)
  have "seen (\<lambda>e. ctl_in e \<and> ctl_reg e = 6 \<and> ctl_data e ! 0 AND 2 = 2) d d3" if b
  proof -
    obtain k where "pwr_run H (script PWR_CUT_ALL_MSK PWR_FAB_ALL_MSK PWR_INTF_USB_MSK rtl8188F_card_enable_flow) k d1 d2"
      using conjunct2 [OF pwr_parse_run [OF card_enable_end, of H 0 d1 d2]] d2 \<open>b\<close>
      by (auto simp: usb_flow_def HalPwrSeqCmdParsing_def)
    from pwr_run_seen [OF this card_enable_script] have "seen (shows_bits power_ready) d1 d2"
      by (simp add: power_ready_def cfg_def)
    with e1 e3 have "seen (shows_bits power_ready) d d3" using seen_trans by blast
    then show ?thesis by (auto simp: seen_def list_ex_iff shows_bits_def power_ready_def cfg_def poll_match_def)
  qed
  then show ?thesis using run by auto
qed

text \<open>A chip whose polled registers are right at once.\<close>

lemma pwr_parse_ready:
  assumes "answering H"
    and "\<And>c h. c \<in> set cs \<Longrightarrow> cfg_enabled cv fv iface c \<Longrightarrow> pc_cmd c = PWR_CMD_POLLING \<Longrightarrow>
      poll_match c (reply H True (pc_offset c) [0] h ! 0)"
    and "has_end cv fv iface cs" and "n + length cs \<le> maxPollingCnt"
  shows "runs (\<lambda>r. r = Some True) (pwr_parse H cv fv iface n cs)"
  using assms(2-)
proof (induction cs arbitrary: n)
  case (Cons c cs)
  have u: "(ucast (ucast (pc_offset c) :: u32) :: u16) = pc_offset c" by (rule bit_word_eqI) (auto simp: bit_simps)
  have "runs (\<lambda>r. r) (pwr_write H c)"
    unfolding pwr_write_def Let_def by (intro runs_bind [OF runs_read8] runs_write8 assms(1))
  then have w: "runs (\<lambda>_. True) (pwr_write H c)" "runs (\<lambda>_. True) (pwr_delay H c)"
    by (auto simp: pwr_delay_def runs_def rtw_udelay_os_def RTW_CANNOT_IO_def)
  have p: "runs (\<lambda>r. r = (True, n + 1)) (poll_loop H c n)"
    if "cfg_enabled cv fv iface c" "pc_cmd c = PWR_CMD_POLLING"
    using Cons.prems(1) [of c] that Cons.prems(3) u
    by (auto simp: runs_def poll_loop_step answered_read8 [OF assms(1)] Let_def)
  show ?case
  proof (cases "cfg_enabled cv fv iface c \<and> pc_cmd c = PWR_CMD_END")
    case True
    then show ?thesis by (simp add: pwr_cmds)
  next
    case False
    then have "has_end cv fv iface cs" using Cons.prems(2) by (auto simp: has_end_def)
    then have IH: "runs (\<lambda>r. r = Some True) (pwr_parse H cv fv iface m cs)" if "m \<le> n + 1" for m
      using Cons.IH [of m] Cons.prems(1,3) that by auto
    show ?thesis
      using False IH [of n] IH [of "n + 1"] p by (auto intro!: runs_bind [OF w(1)] runs_bind [OF w(2)] runs_bind [OF p])
  qed
qed (simp add: has_end_def)

definition ready_host :: "unit usb_host" where
  "ready_host = echo_host\<lparr>usb_control_msg := (\<lambda>rd v b h. (int (length b), if v = 6 then [2] else b, h))\<rparr>"

theorem power_on_ready_witness:
  "\<exists>d'. run_state (InitPowerOn_8188FU ready_host 0x0F) (usb_dev_ex ()) = (Some True, d') \<and>
     seen (\<lambda>e. ctl_in e \<and> ctl_reg e = 6 \<and> ctl_data e ! 0 AND 2 = 2) (usb_dev_ex ()) d'"
proof -
  have a: "answering ready_host" "\<not> RTW_CANNOT_IO (usb_dev_ex ())"
    by (simp_all add: answering_def ready_host_def echo_host_def usb_dev_ex_def RTW_CANNOT_IO_def)
  have "runs (\<lambda>r. r = Some True) (usb_flow ready_host rtl8188F_card_enable_flow)"
    unfolding usb_flow_def HalPwrSeqCmdParsing_def
  proof (rule pwr_parse_ready [OF a(1) _ card_enable_end])
    show "0 + length rtl8188F_card_enable_flow \<le> maxPollingCnt"
      by (simp add: rtl8188F_card_enable_flow_def flow_def RTL8188F_TRANS_CARDDIS_TO_CARDEMU_def
          RTL8188F_TRANS_CARDEMU_TO_ACT_def RTL8188F_TRANS_END_def maxPollingCnt_def)
  qed (auto simp: rtl8188F_card_enable_flow_def flow_def RTL8188F_TRANS_CARDDIS_TO_CARDEMU_def
      RTL8188F_TRANS_CARDEMU_TO_ACT_def RTL8188F_TRANS_END_def cfg_def cfg_enabled_def pwr_masks pwr_cmds
      poll_match_def reply_def ready_host_def)
  then have "fst (run_state (usb_flow ready_host rtl8188F_card_enable_flow) (usb_dev_ex ())) = Some True"
    using a(2) by (simp add: runs_def)
  then have "fst (run_state (InitPowerOn_8188FU ready_host 0x0F) (usb_dev_ex ())) = Some True"
    by (simp add: InitPowerOn_8188FU_def case_prod_beta)
  then show ?thesis
    using power_on_ready [of ready_host "0x0F" "usb_dev_ex ()"] by auto
qed

end
