(* ===== verification/Ie_List.thy ===== *)
theory Ie_List
  imports Drv_Prelude
begin

text \<open>
  Lists of information elements: the first part of \<open>core/rtw_ieee80211.c\<close>. A frame body is a
  buffer; a pointer into it is an offset. This theory holds the routines that append an element
  (\<open>rtw_set_ie\<close> and those built on it), search for one (\<open>rtw_get_ie\<close>,
  \<open>rtw_get_ie_ex\<close>) and remove elements in place (\<open>rtw_ies_remove_ie\<close>), the encoding
  \<open>ies_enc\<close> of a list of elements as the reference, and the locale \<open>tlv_format\<close>: what a
  header of type and length promises to the routines that walk over one encoding after the other.
\<close>

unbundle bit_operations_syntax

section \<open>Bytes of a buffer\<close>

definition byte_at :: "bytes \<Rightarrow> nat \<Rightarrow> u8 option" where
  "byte_at m i = (if i < length m then Some (m ! i) else None)"

text \<open>\<open>_rtw_memcmp\<close> of the buffer with a constant: true when the two are the same.\<close>

definition rtw_memcmp :: "bytes \<Rightarrow> nat \<Rightarrow> bytes \<Rightarrow> bool option" where
  "rtw_memcmp m off bs = map_option (\<lambda>x. x = bs) (mem_rd m off (length bs))"

definition rtw_memmove :: "bytes \<Rightarrow> nat \<Rightarrow> nat \<Rightarrow> nat \<Rightarrow> bytes option" where
  "rtw_memmove m dst src n = (case mem_rd m src n of None \<Rightarrow> None | Some bs \<Rightarrow> mem_wr m dst bs)"

text \<open>
  Copying into a buffer of the caller, or not when the caller passes no buffer.
\<close>

definition copy_out :: "bytes \<Rightarrow> nat \<Rightarrow> nat \<Rightarrow> bytes option \<Rightarrow> bytes option option" where
  "copy_out m off n dst =
     (case dst of
        None \<Rightarrow> Some None
      | Some d \<Rightarrow> (case mem_rd m off n of None \<Rightarrow> None | Some bs \<Rightarrow> map_option Some (mem_wr d 0 bs)))"

definition RTW_GET_BE16 :: "bytes \<Rightarrow> nat \<Rightarrow> u16 option" where
  "RTW_GET_BE16 m a = do {
     hi \<leftarrow> byte_at m a; lo \<leftarrow> byte_at m (a + 1);
     Some (push_bit 8 (ucast hi) OR ucast lo) }"

definition RTW_GET_LE16 :: "bytes \<Rightarrow> nat \<Rightarrow> u16 option" where
  "RTW_GET_LE16 m a = do {
     hi \<leftarrow> byte_at m (a + 1); lo \<leftarrow> byte_at m a;
     Some (push_bit 8 (ucast hi) OR ucast lo) }"

definition RTW_PUT_LE16 :: "u16 \<Rightarrow> bytes" where
  "RTW_PUT_LE16 v = [ucast (v AND 0xff), ucast (drop_bit 8 v)]"

definition RTW_PUT_BE16 :: "u16 \<Rightarrow> bytes" where
  "RTW_PUT_BE16 v = [ucast (drop_bit 8 v), ucast (v AND 0xff)]"

section \<open>Appending an element\<close>

text \<open>
  The result is the buffer, the new length of the frame and the pointer behind the element.
\<close>

definition rtw_set_fixed_ie :: "bytes \<Rightarrow> nat \<Rightarrow> u32 \<Rightarrow> bytes \<Rightarrow> u32 \<Rightarrow> (bytes \<times> u32 \<times> nat) option" where
  "rtw_set_fixed_ie m pbuf len source frlen = do {
     d \<leftarrow> mem_rd source 0 (unat len);
     m \<leftarrow> mem_wr m pbuf d;
     Some (m, frlen + len, pbuf + unat len) }"

definition rtw_set_ie :: "bytes \<Rightarrow> nat \<Rightarrow> int \<Rightarrow> u32 \<Rightarrow> bytes \<Rightarrow> u32 \<Rightarrow> (bytes \<times> u32 \<times> nat) option" where
  "rtw_set_ie m pbuf index len source frlen = do {
     m \<leftarrow> mem_wr m pbuf [word_of_int index];
     m \<leftarrow> mem_wr m (pbuf + 1) [ucast len];
     m \<leftarrow> (if len > 0 then do { d \<leftarrow> mem_rd source 0 (unat len); mem_wr m (pbuf + 2) d } else Some m);
     Some (m, frlen + (len + 2), pbuf + unat len + 2) }"

definition WLAN_EID_CHANNEL_SWITCH :: int where "WLAN_EID_CHANNEL_SWITCH = 37"
definition WLAN_EID_SECONDARY_CHANNEL_OFFSET :: int where "WLAN_EID_SECONDARY_CHANNEL_OFFSET = 62"

definition rtw_set_ie_ch_switch ::
    "bytes \<Rightarrow> nat \<Rightarrow> u32 \<Rightarrow> u8 \<Rightarrow> u8 \<Rightarrow> u8 \<Rightarrow> (bytes \<times> u32 \<times> nat) option" where
  "rtw_set_ie_ch_switch m b buf_len ch_switch_mode new_ch ch_switch_cnt =
     rtw_set_ie m b WLAN_EID_CHANNEL_SWITCH 3 [ch_switch_mode, new_ch, ch_switch_cnt] buf_len"

definition SCN :: u8 where "SCN = 0"
definition SCA :: u8 where "SCA = 1"
definition SCB :: u8 where "SCB = 3"
definition HAL_PRIME_CHNL_OFFSET_DONT_CARE :: u8 where "HAL_PRIME_CHNL_OFFSET_DONT_CARE = 0"
definition HAL_PRIME_CHNL_OFFSET_LOWER :: u8 where "HAL_PRIME_CHNL_OFFSET_LOWER = 1"
definition HAL_PRIME_CHNL_OFFSET_UPPER :: u8 where "HAL_PRIME_CHNL_OFFSET_UPPER = 2"

lemmas ch_offset_defs = SCN_def SCA_def SCB_def HAL_PRIME_CHNL_OFFSET_DONT_CARE_def
  HAL_PRIME_CHNL_OFFSET_LOWER_def HAL_PRIME_CHNL_OFFSET_UPPER_def

definition secondary_ch_offset_to_hal_ch_offset :: "u8 \<Rightarrow> u8" where
  "secondary_ch_offset_to_hal_ch_offset ch_offset =
     (if ch_offset = SCN then HAL_PRIME_CHNL_OFFSET_DONT_CARE
      else if ch_offset = SCA then HAL_PRIME_CHNL_OFFSET_UPPER
      else if ch_offset = SCB then HAL_PRIME_CHNL_OFFSET_LOWER
      else HAL_PRIME_CHNL_OFFSET_DONT_CARE)"

definition hal_ch_offset_to_secondary_ch_offset :: "u8 \<Rightarrow> u8" where
  "hal_ch_offset_to_secondary_ch_offset ch_offset =
     (if ch_offset = HAL_PRIME_CHNL_OFFSET_DONT_CARE then SCN
      else if ch_offset = HAL_PRIME_CHNL_OFFSET_LOWER then SCB
      else if ch_offset = HAL_PRIME_CHNL_OFFSET_UPPER then SCA
      else SCN)"

definition rtw_set_ie_secondary_ch_offset ::
    "bytes \<Rightarrow> nat \<Rightarrow> u32 \<Rightarrow> u8 \<Rightarrow> (bytes \<times> u32 \<times> nat) option" where
  "rtw_set_ie_secondary_ch_offset m b buf_len secondary_ch_offset =
     rtw_set_ie m b WLAN_EID_SECONDARY_CHANNEL_OFFSET 1 [secondary_ch_offset] buf_len"

definition rtw_set_ie_mesh_ch_switch_parm ::
    "bytes \<Rightarrow> nat \<Rightarrow> u32 \<Rightarrow> u8 \<Rightarrow> u8 \<Rightarrow> u16 \<Rightarrow> u16 \<Rightarrow> (bytes \<times> u32 \<times> nat) option" where
  "rtw_set_ie_mesh_ch_switch_parm m b buf_len ttl flags reason precedence =
     rtw_set_ie m b 0x118 6 ([ttl, flags] @ RTW_PUT_LE16 reason @ RTW_PUT_LE16 precedence) buf_len"

section \<open>Searching\<close>

text \<open>
  \<open>rtw_get_ie\<close>: the result is the value of \<open>*len\<close> and the pointer, \<open>None\<close> for the
  null pointer. \<open>len\<close> is the value of \<open>*len\<close> before the call.
\<close>

function get_ie_loop :: "bytes \<Rightarrow> nat \<Rightarrow> int \<Rightarrow> int \<Rightarrow> nat \<Rightarrow> (int \<times> nat option) option" where
  "get_ie_loop m pbuf index limit i =
     (case byte_at m (pbuf + i) of
        None \<Rightarrow> None
      | Some b \<Rightarrow>
          (case byte_at m (pbuf + i + 1) of
             None \<Rightarrow> None
           | Some l \<Rightarrow>
               if uint b = index then Some (uint l, Some (pbuf + i))
               else if int (i + (unat l + 2)) \<ge> limit then Some (0, None)
               else get_ie_loop m pbuf index limit (i + (unat l + 2))))"
  by pat_completeness auto
termination
proof (relation "measure (\<lambda>(m, pbuf, index, limit, i). nat (limit - int i))", goal_cases)
  case (2 m pbuf index limit i b l)
  then have "nat (limit - int (i + (unat l + 2))) < nat (limit - int i)" by linarith
  then show ?case by (simp only: in_measure prod.case)
qed simp

declare get_ie_loop.simps [simp del]

definition rtw_get_ie :: "bytes \<Rightarrow> nat \<Rightarrow> int \<Rightarrow> int \<Rightarrow> int \<Rightarrow> (int \<times> nat option) option" where
  "rtw_get_ie m pbuf index len limit =
     (if limit < 1 then Some (len, None) else get_ie_loop m pbuf index limit 0)"

text \<open>
  \<open>rtw_get_ie_ex\<close>: the result is the pointer, the value of \<open>*ielen\<close> and the caller's copy.
  The list of \<open>oui\<close> stands for the pointer and its length.
\<close>

function get_ie_ex_loop ::
    "bytes \<Rightarrow> nat \<Rightarrow> u32 \<Rightarrow> u8 \<Rightarrow> bytes option \<Rightarrow> bytes option \<Rightarrow> nat \<Rightarrow>
     (nat option \<times> u32 \<times> bytes option) option" where
  "get_ie_ex_loop m in_ie in_len eid oui ie cnt =
     (if cnt < unat in_len then
        (case byte_at m (in_ie + cnt) of
           None \<Rightarrow> None
         | Some b \<Rightarrow>
             (case (if eid \<noteq> b then Some False
                    else case oui of None \<Rightarrow> Some True | Some cs \<Rightarrow> rtw_memcmp m (in_ie + cnt + 2) cs) of
                None \<Rightarrow> None
              | Some hit \<Rightarrow>
                  (case byte_at m (in_ie + cnt + 1) of
                     None \<Rightarrow> None
                   | Some l \<Rightarrow>
                       if hit then
                         map_option (\<lambda>ie. (Some (in_ie + cnt), ucast l + 2, ie))
                           (copy_out m (in_ie + cnt) (unat l + 2) ie)
                       else get_ie_ex_loop m in_ie in_len eid oui ie (cnt + (unat l + 2)))))
      else Some (None, 0, ie))"
  by pat_completeness auto
termination by (relation "measure (\<lambda>(m, in_ie, in_len, eid, oui, ie, cnt). unat in_len - cnt)") auto

declare get_ie_ex_loop.simps [simp del]

definition rtw_get_ie_ex ::
    "bytes \<Rightarrow> nat option \<Rightarrow> u32 \<Rightarrow> u8 \<Rightarrow> bytes option \<Rightarrow> bytes option \<Rightarrow>
     (nat option \<times> u32 \<times> bytes option) option" where
  "rtw_get_ie_ex m in_ie in_len eid oui ie =
     (case in_ie of
        None \<Rightarrow> Some (None, 0, ie)
      | Some p \<Rightarrow> if in_len \<le> 0 then Some (None, 0, ie) else get_ie_ex_loop m p in_len eid oui ie 0)"

section \<open>Removing elements in place\<close>

text \<open>
  The loop of \<open>rtw_ies_remove_ie\<close>. The lengths are \<open>uint\<close>: when the last element claims
  more bytes than the list has, \<open>remain_len\<close> wraps around. The outer \<open>None\<close> says that the
  loop does not return, the inner one that it accesses memory outside the buffer. The result is the
  success flag, the buffer and \<open>*ies_len\<close>.
\<close>

partial_function (option) remove_ie_loop ::
    "bytes \<Rightarrow> nat \<Rightarrow> u32 \<Rightarrow> u32 \<Rightarrow> bool \<Rightarrow> u8 \<Rightarrow> bytes option \<Rightarrow> (bool \<times> bytes \<times> u32) option option" where
  "remove_ie_loop m start search_len ies_len ret eid oui =
     (case rtw_get_ie_ex m (Some start) search_len eid oui None of
        None \<Rightarrow> Some None
      | Some (target_ie, target_ielen, _) \<Rightarrow>
          (case target_ie of
             None \<Rightarrow> Some (Some (ret, m, ies_len))
           | Some t \<Rightarrow>
               if target_ielen = 0 then Some (Some (ret, m, ies_len))
               else
                 (case rtw_memmove m t (t + unat target_ielen)
                         (unat (search_len - of_nat (t + unat target_ielen - start))) of
                    None \<Rightarrow> Some None
                  | Some m' \<Rightarrow>
                      remove_ie_loop m' t (search_len - of_nat (t + unat target_ielen - start))
                        (ies_len - target_ielen) True eid oui)))"

definition rtw_ies_remove_ie ::
    "bytes \<Rightarrow> nat option \<Rightarrow> u32 \<Rightarrow> u32 \<Rightarrow> u8 \<Rightarrow> bytes option \<Rightarrow> (bool \<times> bytes \<times> u32) option option" where
  "rtw_ies_remove_ie m ies ies_len offset eid oui =
     (case ies of
        None \<Rightarrow> Some (Some (False, m, ies_len))
      | Some p \<Rightarrow>
          if ies_len \<le> offset then Some (Some (False, m, ies_len))
          else remove_ie_loop m (p + unat offset) (ies_len - offset) ies_len False eid oui)"

section \<open>Lists of elements\<close>

type_synonym elem = "u8 \<times> bytes"

definition ie_hdr :: "u8 \<Rightarrow> nat \<Rightarrow> bytes" where "ie_hdr i n = [i, of_nat n]"

definition tlv_enc :: "('i \<Rightarrow> nat \<Rightarrow> bytes) \<Rightarrow> ('i \<times> bytes) list \<Rightarrow> bytes" where
  "tlv_enc hdr es = concat (map (\<lambda>(i, d). hdr i (length d) @ d) es)"

abbreviation ies_enc :: "elem list \<Rightarrow> bytes" where "ies_enc \<equiv> tlv_enc ie_hdr"

definition ies_ok :: "elem list \<Rightarrow> bool" where "ies_ok es \<longleftrightarrow> (\<forall>e \<in> set es. length (snd e) < 256)"

definition elem_match :: "u8 \<Rightarrow> bytes option \<Rightarrow> elem \<Rightarrow> bool" where
  "elem_match eid oui e \<longleftrightarrow> fst e = eid \<and> (case oui of None \<Rightarrow> True | Some cs \<Rightarrow> take (length cs) (snd e) = cs)"

text \<open>An element long enough to hold the OUI it may be compared with.\<close>

definition oui_fits :: "u8 \<Rightarrow> bytes option \<Rightarrow> elem \<Rightarrow> bool" where
  "oui_fits eid oui e \<longleftrightarrow> fst e = eid \<longrightarrow> (case oui of None \<Rightarrow> True | Some cs \<Rightarrow> length cs \<le> length (snd e))"

lemma byte_at_append [mem_simps]:
  "byte_at (pre @ b # post) (length pre) = Some b"
  "byte_at (pre @ a # b # post) (Suc (length pre)) = Some b"
  by (simp_all add: byte_at_def nth_append)

lemma mem_rd_append [mem_simps]: "mem_rd (pre @ bs @ post) (length pre) (length bs) = Some bs"
  by (simp add: mem_rd_def)

fun tlv_first :: "nat \<Rightarrow> ('i \<times> bytes \<Rightarrow> bool) \<Rightarrow> ('i \<times> bytes) list \<Rightarrow> nat \<Rightarrow> (nat \<times> 'i \<times> bytes) option" where
  "tlv_first hl P [] p = None"
| "tlv_first hl P (e # es) p = (if P e then Some (p, e) else tlv_first hl P es (p + (hl + length (snd e))))"

lemma unat_of_nat_small: "n < 2 ^ 32 \<Longrightarrow> unat (of_nat n :: u32) = n"
  by (simp add: unsigned_of_nat take_bit_nat_eq_self)

lemma tlv_first_None: "tlv_first hl P es p = None \<longleftrightarrow> (\<forall>e \<in> set es. \<not> P e)"
  by (induction es arbitrary: p) auto

lemma tlv_first_Some:
  "tlv_first hl P es p = Some (q, e) \<Longrightarrow>
   \<exists>es1 es2. es = es1 @ e # es2 \<and> (\<forall>e \<in> set es1. \<not> P e) \<and> P e \<and>
     q = p + (\<Sum>e \<leftarrow> es1. hl + length (snd e))"
proof (induction es arbitrary: p)
  case (Cons e' es)
  show ?case
  proof (cases "P e'")
    case True
    then show ?thesis using Cons.prems by (intro exI [of _ "[]"] exI [of _ es]) auto
  next
    case False
    then have "tlv_first hl P es (p + (hl + length (snd e'))) = Some (q, e)" using Cons.prems by simp
    from Cons.IH [OF this] obtain es1 es2 where
      "es = es1 @ e # es2" "\<forall>e \<in> set es1. \<not> P e" "P e"
      "q = p + (hl + length (snd e')) + (\<Sum>e \<leftarrow> es1. hl + length (snd e))" by auto
    then show ?thesis using False by (intro exI [of _ "e' # es1"] exI [of _ es2]) auto
  qed
qed simp

text \<open>
  What a header promises: a fixed size, and that its two readers return what it was made from. The
  laws hold for the lengths the header can represent.
\<close>

locale tlv_format =
  fixes hdr :: "'i \<Rightarrow> nat \<Rightarrow> bytes"
    and rd_id :: "bytes \<Rightarrow> nat \<Rightarrow> 'i option"
    and rd_len :: "bytes \<Rightarrow> nat \<Rightarrow> nat option"
    and hl :: nat
    and lim :: nat
  assumes hdr_length: "length (hdr i n) = hl"
    and rd_id_hdr: "rd_id (pre @ hdr i n @ post) (length pre) = Some i"
    and rd_len_hdr: "n < lim \<Longrightarrow> rd_len (pre @ hdr i n @ post) (length pre) = Some n"
begin

lemma enc_Nil: "tlv_enc hdr [] = []"
  by (simp add: tlv_enc_def)

lemma enc_Cons: "tlv_enc hdr (e # es) = hdr (fst e) (length (snd e)) @ snd e @ tlv_enc hdr es"
  by (cases e) (simp add: tlv_enc_def)

lemma enc_append: "tlv_enc hdr (xs @ ys) = tlv_enc hdr xs @ tlv_enc hdr ys"
  by (simp add: tlv_enc_def)

lemma enc_length: "length (tlv_enc hdr es) = (\<Sum>e \<leftarrow> es. hl + length (snd e))"
  by (induction es) (auto simp: enc_Nil enc_Cons hdr_length)

lemma enc_filter_length: "length (tlv_enc hdr (filter P es)) \<le> length (tlv_enc hdr es)"
  by (induction es) (auto simp: enc_Nil enc_Cons)

lemma id_here: "rd_id (pre @ tlv_enc hdr (e # es) @ post) (length pre) = Some (fst e)"
  using rd_id_hdr by (simp add: enc_Cons)

lemma len_here: "length (snd e) < lim \<Longrightarrow>
    rd_len (pre @ tlv_enc hdr (e # es) @ post) (length pre) = Some (length (snd e))"
  using rd_len_hdr by (simp add: enc_Cons)

lemma whole_here:
  "mem_rd (pre @ tlv_enc hdr (e # es) @ post) (length pre) (hl + length (snd e)) =
     Some (tlv_enc hdr [e])"
  using mem_rd_append [of pre "tlv_enc hdr [e]"] by (simp add: enc_Cons enc_Nil hdr_length)

lemma content_here:
  "n \<le> length (snd e) \<Longrightarrow>
   mem_rd (pre @ tlv_enc hdr (e # es) @ post) (length pre + hl) n = Some (take n (snd e))"
  by (simp add: enc_Cons mem_rd_def hdr_length)

lemma step_over:
  "pre @ tlv_enc hdr (e # es) @ post = (pre @ tlv_enc hdr [e]) @ tlv_enc hdr es @ post"
  "length (pre @ tlv_enc hdr [e]) = length pre + (hl + length (snd e))"
  by (simp_all add: enc_Cons enc_Nil hdr_length)

text \<open>An encoding has one reading.\<close>

lemma enc_inject:
  assumes "tlv_enc hdr xs = tlv_enc hdr ys" and "0 < hl"
    and "\<forall>e \<in> set xs. length (snd e) < lim" and "\<forall>e \<in> set ys. length (snd e) < lim"
  shows "xs = ys"
  using assms
proof (induction xs arbitrary: ys)
  case Nil
  then show ?case by (cases ys) (auto simp: enc_Nil enc_Cons hdr_length dest: arg_cong [of _ _ length])
next
  case (Cons x xs)
  then obtain y ys' where ys: "ys = y # ys'"
    by (cases ys) (auto simp: enc_Nil enc_Cons hdr_length dest: arg_cong [of _ _ length])
  have "fst x = fst y"
    using id_here [of "[]" x xs "[]"] id_here [of "[]" y ys' "[]"] Cons.prems(1) ys by simp
  moreover have len: "length (snd x) = length (snd y)"
    using len_here [of x "[]" xs "[]"] len_here [of y "[]" ys' "[]"] Cons.prems ys by simp
  ultimately have "snd x @ tlv_enc hdr xs = snd y @ tlv_enc hdr ys'"
    using Cons.prems(1) ys by (simp add: enc_Cons)
  then have "snd x = snd y" "tlv_enc hdr xs = tlv_enc hdr ys'" using len by auto
  then show ?case using Cons.IH [of ys'] Cons.prems ys \<open>fst x = fst y\<close> by (simp add: prod_eq_iff)
qed

end

definition ie_rd_len :: "bytes \<Rightarrow> nat \<Rightarrow> nat option" where
  "ie_rd_len m a = map_option unat (byte_at m (a + 1))"

interpretation ie: tlv_format ie_hdr byte_at ie_rd_len 2 256
  by unfold_locales
    (simp_all add: ie_hdr_def ie_rd_len_def mem_simps unsigned_of_nat take_bit_nat_eq_self)

lemma ies_ok_simps [simp]:
  "ies_ok []"
  "ies_ok (e # es) \<longleftrightarrow> length (snd e) < 256 \<and> ies_ok es"
  "ies_ok (xs @ ys) \<longleftrightarrow> ies_ok xs \<and> ies_ok ys"
  by (auto simp: ies_ok_def)

lemma ie_len_here:
  assumes "length (snd e) < 256"
  obtains l where "byte_at (pre @ ies_enc (e # es) @ post) (Suc (length pre)) = Some l"
    and "unat l = length (snd e)"
  using ie.len_here [OF assms, of pre es post] by (auto simp: ie_rd_len_def)

lemma get_put_LE16: "RTW_GET_LE16 (pre @ RTW_PUT_LE16 v @ post) (length pre) = Some v"
proof -
  have "push_bit 8 (ucast (ucast (drop_bit 8 v) :: u8)) OR ucast (ucast (v AND 255) :: u8) = (v :: u16)"
    by (rule bit_word_eqI) (auto simp: bit_simps mask_255)
  then show ?thesis by (simp add: RTW_GET_LE16_def RTW_PUT_LE16_def mem_simps)
qed

lemma get_put_BE16: "RTW_GET_BE16 (pre @ RTW_PUT_BE16 v @ post) (length pre) = Some v"
proof -
  have "push_bit 8 (ucast (ucast (drop_bit 8 v) :: u8)) OR ucast (ucast (v AND 255) :: u8) = (v :: u16)"
    by (rule bit_word_eqI) (auto simp: bit_simps mask_255)
  then show ?thesis by (simp add: RTW_GET_BE16_def RTW_PUT_BE16_def mem_simps)
qed

section \<open>What a search finds in an encoded list\<close>

lemma get_ie_loop_enc:
  assumes "ies_ok es" and "es \<noteq> []"
    and "pos = length pre" and "pos = pbuf + i"
    and "limit = int (i + length (ies_enc es))"
  shows "get_ie_loop (pre @ ies_enc es @ post) pbuf index limit i =
    Some (case tlv_first 2 (\<lambda>e. uint (fst e) = index) es pos of
            None \<Rightarrow> (0, None) | Some (p, e) \<Rightarrow> (int (length (snd e)), Some p))"
  using assms
proof (induction es arbitrary: pre i pos)
  case (Cons e es)
  obtain l where l: "byte_at (pre @ ies_enc (e # es) @ post) (Suc (length pre)) = Some l"
    and ln: "unat l = length (snd e)" by (rule ie_len_here [of e]) (use Cons.prems in auto)
  have b: "byte_at (pre @ ies_enc (e # es) @ post) (length pre) = Some (fst e)"
    by (rule ie.id_here)
  have at: "pbuf + i = length pre" using Cons.prems by simp
  have ul: "uint l = int (length (snd e))" using ln by (simp flip: ln)
  show ?case
  proof (cases "uint (fst e) = index")
    case True
    then show ?thesis using b l ln ul at Cons.prems by (simp add: get_ie_loop.simps)
  next
    case False
    have unfold: "get_ie_loop (pre @ ies_enc (e # es) @ post) pbuf index limit i =
      (if int (i + (length (snd e) + 2)) \<ge> limit then Some (0, None)
       else get_ie_loop (pre @ ies_enc (e # es) @ post) pbuf index limit (i + (length (snd e) + 2)))"
      by (subst get_ie_loop.simps) (simp only: at b l option.case Suc_eq_plus1 [symmetric] ln False if_False)
    show ?thesis
    proof (cases "es = []")
      case True
      then show ?thesis using unfold False Cons.prems(5) by (simp add: ie.enc_length)
    next
      case nonempty: False
      then have "length (ies_enc es) > 0" by (cases es) (simp_all add: ie.enc_length)
      then have "\<not> int (i + (length (snd e) + 2)) \<ge> limit"
        using Cons.prems(5) by (simp add: ie.enc_Cons ie.hdr_length)
      moreover have "get_ie_loop ((pre @ ies_enc [e]) @ ies_enc es @ post) pbuf index limit (i + (length (snd e) + 2)) =
        Some (case tlv_first 2 (\<lambda>e. uint (fst e) = index) es (pos + (2 + length (snd e))) of
            None \<Rightarrow> (0, None) | Some (p, e) \<Rightarrow> (int (length (snd e)), Some p))"
        by (rule Cons.IH) (use Cons.prems nonempty in \<open>simp_all add: ie.enc_length\<close>)
      ultimately show ?thesis using unfold False ie.step_over(1) [of pre e es post] by simp
    qed
  qed
qed simp

lemma oui_test_here:
  assumes "oui_fits eid oui e"
  shows "(if eid \<noteq> fst e then Some False
          else case oui of None \<Rightarrow> Some True
               | Some cs \<Rightarrow> rtw_memcmp (pre @ ies_enc (e # es) @ post) (length pre + 2) cs) =
         Some (elem_match eid oui e)"
  using assms ie.content_here [where e = e and pre = pre and es = es and post = post]
  by (auto simp: elem_match_def oui_fits_def rtw_memcmp_def split: option.splits)

lemma get_ie_ex_loop_enc:
  assumes "ies_ok es" and "\<forall>e \<in> set es. oui_fits eid oui e"
    and "pos = length pre" and "pos = in_ie + cnt"
    and "unat in_len = cnt + length (ies_enc es)"
  shows "get_ie_ex_loop (pre @ ies_enc es @ post) in_ie in_len eid oui None cnt =
    Some (case tlv_first 2 (elem_match eid oui) es pos of
            None \<Rightarrow> (None, 0, None) | Some (p, e) \<Rightarrow> (Some p, of_nat (length (snd e)) + 2, None))"
  using assms
proof (induction es arbitrary: pre cnt pos)
  case Nil
  then show ?case by (simp add: get_ie_ex_loop.simps ie.enc_Nil)
next
  case (Cons e es)
  obtain l where l: "byte_at (pre @ ies_enc (e # es) @ post) (Suc (length pre)) = Some l"
    and ln: "unat l = length (snd e)" by (rule ie_len_here [of e]) (use Cons.prems in auto)
  have b: "byte_at (pre @ ies_enc (e # es) @ post) (length pre) = Some (fst e)"
    by (rule ie.id_here)
  have at: "in_ie + cnt = length pre" using Cons.prems by simp
  have ul: "(ucast l :: u32) = of_nat (length (snd e))" by (simp flip: ln)
  have hit: "(if eid \<noteq> fst e then Some False
          else case oui of None \<Rightarrow> Some True
               | Some cs \<Rightarrow> rtw_memcmp (pre @ ies_enc (e # es) @ post) (length pre + 2) cs) =
         Some (elem_match eid oui e)"
    by (rule oui_test_here) (use Cons.prems in simp)
  have cnt: "cnt < unat in_len" using Cons.prems(5) by (simp add: ie.enc_length)
  have unfold: "get_ie_ex_loop (pre @ ies_enc (e # es) @ post) in_ie in_len eid oui None cnt =
    (if elem_match eid oui e then Some (Some (length pre), ucast l + 2, None)
     else get_ie_ex_loop (pre @ ies_enc (e # es) @ post) in_ie in_len eid oui None (cnt + (length (snd e) + 2)))"
    by (subst get_ie_ex_loop.simps)
      (simp only: cnt at b l hit option.case Suc_eq_plus1 [symmetric] ln if_True copy_out_def option.map)
  have "get_ie_ex_loop ((pre @ ies_enc [e]) @ ies_enc es @ post) in_ie in_len eid oui None (cnt + (length (snd e) + 2)) =
    Some (case tlv_first 2 (elem_match eid oui) es (pos + (2 + length (snd e))) of
            None \<Rightarrow> (None, 0, None) | Some (p, e) \<Rightarrow> (Some p, of_nat (length (snd e)) + 2, None))"
    by (rule Cons.IH) (use Cons.prems in \<open>simp_all add: ie.enc_length\<close>)
  then show ?case using unfold ul ie.step_over(1) [of pre e es post] Cons.prems(3) by simp
qed

text \<open>
  \<open>rtw_get_ie\<close> finds the first element of the id and nothing else.
\<close>

theorem get_ie_finds_first:
  assumes "ies_ok es"
  shows "rtw_get_ie (pre @ ies_enc es @ post) (length pre) index 0 (int (length (ies_enc es))) =
    Some (case tlv_first 2 (\<lambda>e. uint (fst e) = index) es (length pre) of
            None \<Rightarrow> (0, None) | Some (p, e) \<Rightarrow> (int (length (snd e)), Some p))"
proof (cases es)
  case Nil
  then show ?thesis by (simp add: rtw_get_ie_def ie.enc_Nil)
next
  case (Cons e es')
  then have "\<not> int (length (ies_enc es)) < 1" by (simp add: ie.enc_length)
  moreover have "get_ie_loop (pre @ ies_enc es @ post) (length pre) index (int (length (ies_enc es))) 0 =
    Some (case tlv_first 2 (\<lambda>e. uint (fst e) = index) es (length pre) of
            None \<Rightarrow> (0, None) | Some (p, e) \<Rightarrow> (int (length (snd e)), Some p))"
    by (rule get_ie_loop_enc) (use assms Cons in simp_all)
  ultimately show ?thesis by (simp add: rtw_get_ie_def)
qed

lemma get_ie_ex_enc:
  assumes "ies_ok es" and "\<forall>e \<in> set es. oui_fits eid oui e" and "length (ies_enc es) < 2 ^ 32"
  shows "rtw_get_ie_ex (pre @ ies_enc es @ post) (Some (length pre)) (of_nat (length (ies_enc es))) eid oui None =
    Some (case tlv_first 2 (elem_match eid oui) es (length pre) of
            None \<Rightarrow> (None, 0, None) | Some (p, e) \<Rightarrow> (Some p, of_nat (length (snd e)) + 2, None))"
proof -
  have len: "unat (of_nat (length (ies_enc es)) :: u32) = length (ies_enc es)"
    by (rule unat_of_nat_small) (rule assms(3))
  have "get_ie_ex_loop (pre @ ies_enc es @ post) (length pre) (of_nat (length (ies_enc es))) eid oui None 0 =
    Some (case tlv_first 2 (elem_match eid oui) es (length pre) of
            None \<Rightarrow> (None, 0, None) | Some (p, e) \<Rightarrow> (Some p, of_nat (length (snd e)) + 2, None))"
    by (rule get_ie_ex_loop_enc) (use assms len in simp_all)
  moreover have "(of_nat (length (ies_enc es)) :: u32) = 0 \<Longrightarrow> es = []"
    using len by (cases es) (simp_all add: ie.enc_length)
  ultimately show ?thesis by (cases es) (auto simp: rtw_get_ie_ex_def ie.enc_Nil)
qed

section \<open>Removal\<close>

lemma memmove_down:
  assumes "t = length a" and "s = length a + length x" and "n = length b"
  shows "\<exists>junk. rtw_memmove (a @ x @ b @ post) t s n = Some (a @ b @ junk @ post) \<and> length junk = length x"
  by (rule exI [of _ "drop (length b) (x @ b)"])
    (use assms in \<open>simp add: rtw_memmove_def mem_rd_def mem_wr_def\<close>)

lemma remove_ie_loop_enc:
  assumes "ies_ok es" and "\<forall>e \<in> set es. oui_fits eid oui e" and "length (ies_enc es) < 2 ^ 32"
  shows "\<exists>junk. remove_ie_loop (pre @ ies_enc es @ post) (length pre) (of_nat (length (ies_enc es))) n ret eid oui =
      Some (Some (ret \<or> (\<exists>e \<in> set es. elem_match eid oui e),
        pre @ ies_enc (filter (\<lambda>e. \<not> elem_match eid oui e) es) @ junk @ post,
        n - of_nat (length (ies_enc (filter (elem_match eid oui) es))))) \<and>
      length junk = length (ies_enc (filter (elem_match eid oui) es))"
  using assms
proof (induction "length es" arbitrary: es pre post n ret rule: less_induct)
  case less
  note search = get_ie_ex_enc [OF less.prems, of pre post]
  show ?case
  proof (cases "tlv_first 2 (elem_match eid oui) es (length pre)")
    case None
    then have "\<forall>e \<in> set es. \<not> elem_match eid oui e" by (simp add: tlv_first_None)
    then show ?thesis using search None
      by (subst remove_ie_loop.simps) (auto simp: ie.enc_Nil filter_empty_conv)
  next
    case (Some pe)
    then obtain q e where pe: "tlv_first 2 (elem_match eid oui) es (length pre) = Some (q, e)"
      by (cases pe) auto
    then obtain es1 es2 where es: "es = es1 @ e # es2" and no: "\<forall>e \<in> set es1. \<not> elem_match eid oui e"
      and yes: "elem_match eid oui e" and q: "q = length pre + length (ies_enc es1)"
      by (auto simp: ie.enc_length dest: tlv_first_Some)
    let ?x = "ies_enc [e]" and ?b = "ies_enc es2" and ?L = "length (ies_enc es)"
    have split: "ies_enc es = ies_enc es1 @ ?x @ ?b" by (simp add: es ie.enc_append ie.enc_Cons ie.enc_Nil)
    have xl: "length ?x = length (snd e) + 2" by (simp add: ie.enc_length)
    have small: "length (snd e) < 256" using less.prems(1) es by simp
    have tl: "(of_nat (length (snd e)) + 2 :: u32) = of_nat (length ?x)" by (simp add: xl)
    have tlu: "unat (of_nat (length ?x) :: u32) = length ?x"
      by (rule unat_of_nat_small) (use small xl in simp)
    have tl0: "(of_nat (length ?x) :: u32) \<noteq> 0"
      using tlu xl by (metis add_is_0 unat_0 zero_neq_numeral)
    have rl: "(of_nat ?L - of_nat (q + length ?x - length pre) :: u32) = of_nat (length ?b)"
      by (simp add: split q)
    have rlu: "unat (of_nat (length ?b) :: u32) = length ?b"
      by (rule unat_of_nat_small) (use less.prems(3) split in simp)
    obtain junk0 where jl: "length junk0 = length ?x"
      and mv: "rtw_memmove (pre @ ies_enc es @ post) q (q + length ?x) (length ?b) =
         Some ((pre @ ies_enc es1) @ ?b @ junk0 @ post)"
      using memmove_down [of q "pre @ ies_enc es1" "q + length ?x" ?x "length ?b" ?b post]
      by (auto simp: split q)
    have step: "remove_ie_loop (pre @ ies_enc es @ post) (length pre) (of_nat ?L) n ret eid oui =
      remove_ie_loop ((pre @ ies_enc es1) @ ?b @ junk0 @ post) q
        (of_nat (length ?b)) (n - of_nat (length ?x)) True eid oui"
      by (subst remove_ie_loop.simps)
        (simp only: search pe option.case prod.case tl tlu tl0 rl rlu mv if_False)
    have qe: "q = length (pre @ ies_enc es1)" by (simp add: q)
    have "length es2 < length es" "ies_ok es2" "\<forall>e \<in> set es2. oui_fits eid oui e" "length ?b < 2 ^ 32"
      using less.prems es split by auto
    from less.hyps [OF this, of "pre @ ies_enc es1" "junk0 @ post" "n - of_nat (length ?x)" True]
    obtain junk where rest: "remove_ie_loop ((pre @ ies_enc es1) @ ?b @ junk0 @ post) (length (pre @ ies_enc es1))
        (of_nat (length ?b)) (n - of_nat (length ?x)) True eid oui =
        Some (Some (True, (pre @ ies_enc es1) @ ies_enc (filter (\<lambda>e. \<not> elem_match eid oui e) es2) @ junk @ junk0 @ post,
          n - of_nat (length ?x) - of_nat (length (ies_enc (filter (elem_match eid oui) es2)))))"
      and jl2: "length junk = length (ies_enc (filter (elem_match eid oui) es2))" by auto
    have drop: "filter (elem_match eid oui) es = e # filter (elem_match eid oui) es2"
      and keep: "filter (\<lambda>e. \<not> elem_match eid oui e) es =
                 es1 @ filter (\<lambda>e. \<not> elem_match eid oui e) es2"
      using no yes es by (simp_all add: filter_empty_conv filter_id_conv)
    show ?thesis
      by (rule exI [of _ "junk @ junk0"], unfold step qe rest drop keep)
        (use yes es jl jl2 xl in \<open>auto simp: ie.enc_append ie.enc_Cons ie.enc_length algebra_simps\<close>)
  qed
qed

text \<open>
  C26: \<open>rtw_ies_remove_ie\<close> removes exactly the matching elements behind the offset.
\<close>

theorem remove_ie_filters:
  assumes "ies_ok es" and "\<forall>e \<in> set es. oui_fits eid oui e"
    and "ies_len = offset + of_nat (length (ies_enc es))" and "length (ies_enc es) + unat offset < 2 ^ 32"
    and "length pre = p + unat offset"
  shows "\<exists>m' n. rtw_ies_remove_ie (pre @ ies_enc es @ post) (Some p) ies_len offset eid oui =
        Some (Some (\<exists>e \<in> set es. elem_match eid oui e, m', n)) \<and> length m' = length (pre @ ies_enc es @ post) \<and>
      take (p + unat n) m' = pre @ ies_enc (filter (\<lambda>e. \<not> elem_match eid oui e) es) \<and>
      drop (length (pre @ ies_enc es)) m' = post"
proof -
  let ?L = "length (ies_enc es)" and ?D = "length (ies_enc (filter (elem_match eid oui) es))"
    and ?K = "ies_enc (filter (\<lambda>e. \<not> elem_match eid oui e) es)"
  have L: "?L = length ?K + ?D" by (simp add: ie.enc_length) (induction es; simp)
  have "unat ies_len = unat offset + ?L"
    using assms(3,4) unat_of_nat_small [of ?L] unat_add_lem [of offset "of_nat ?L"] by simp
  then have le: "ies_len \<le> offset \<longleftrightarrow> ?L = 0" by (simp add: word_le_nat_alt)
  have nl: "unat (ies_len - of_nat ?D) = unat offset + length ?K"
  proof -
    have "ies_len - of_nat ?D = offset + of_nat (length ?K)" using assms(3) by (simp add: L)
    moreover have "unat (of_nat (length ?K) :: u32) = length ?K"
      by (rule unat_of_nat_small) (use assms(4) L in simp)
    ultimately show ?thesis
      using unat_add_lem [of offset "of_nat (length ?K)"] assms(4) L by simp
  qed
  obtain junk where run: "remove_ie_loop (pre @ ies_enc es @ post) (length pre) (of_nat ?L) ies_len False eid oui =
      Some (Some (\<exists>e \<in> set es. elem_match eid oui e, pre @ ?K @ junk @ post, ies_len - of_nat ?D))"
    and jl: "length junk = ?D"
    using remove_ie_loop_enc [OF assms(1,2), of pre post ies_len False] assms(4) by auto
  show ?thesis
  proof (cases "?L = 0")
    case True
    then have "es = []" by (cases es) (simp_all add: ie.enc_length)
    then show ?thesis using le assms nl by (simp add: rtw_ies_remove_ie_def ie.enc_Nil)
  next
    case False
    then have "rtw_ies_remove_ie (pre @ ies_enc es @ post) (Some p) ies_len offset eid oui =
      Some (Some (\<exists>e \<in> set es. elem_match eid oui e, pre @ ?K @ junk @ post, ies_len - of_nat ?D))"
      using le run assms(3,5) by (simp add: rtw_ies_remove_ie_def)
    then show ?thesis using jl L nl assms(5) by simp
  qed
qed

lemma remove_ie_filters_witness:
  "\<exists>m' n. rtw_ies_remove_ie ([9] @ ies_enc [(221, [0, 80, 242, 4, 1]), (1, [2]), (221, [0, 80, 242, 1])] @ [7])
        (Some 0) (1 + of_nat (length (ies_enc [(221, [0, 80, 242, 4, 1]), (1, [2]), (221, [0, 80, 242, 1])]))) 1 221
        (Some [0, 80, 242, 4]) = Some (Some (True, m', n)) \<and>
      take (0 + unat n) m' = [9] @ ies_enc [(1, [2]), (221, [0, 80, 242, 1])]"
  using remove_ie_filters [where es = "[(221, [0, 80, 242, 4, 1]), (1, [2]), (221, [0, 80, 242, 1])]"
      and eid = 221 and oui = "Some [0, 80, 242, 4]" and offset = 1 and pre = "[9]" and p = 0 and post = "[7]",
      OF _ _ refl]
  by (simp add: oui_fits_def elem_match_def ie.enc_length) blast

section \<open>What lies outside the contract\<close>

text \<open>
  A single byte behind the last element is taken for the id of another one, and its length is read
  behind the limit; the element found may reach behind the limit as well. When an element to be
  removed claims more than the list has, the length of the rest wraps around.
\<close>

lemma get_ie_reads_behind_limit:
  "rtw_get_ie [0, 0, 5] 0 48 0 3 = None"
  "rtw_get_ie [48, 200] 0 48 0 2 = Some (200, Some 0)"
  by (simp_all add: rtw_get_ie_def get_ie_loop.simps byte_at_def)

lemma remove_ie_truncated: "rtw_ies_remove_ie [221, 200] (Some 0) 2 0 221 None = Some None"
  by (simp add: rtw_ies_remove_ie_def remove_ie_loop.simps rtw_get_ie_ex_def get_ie_ex_loop.simps
      byte_at_def copy_out_def rtw_memmove_def mem_rd_def)

lemma mesh_element_id_truncated:
  "map_option (\<lambda>(m, _). m ! 0) (rtw_set_ie_mesh_ch_switch_parm [0, 0, 0, 0, 0, 0, 0, 0] 0 0 ttl fl r p) = Some 0x18"
  by (simp add: rtw_set_ie_mesh_ch_switch_parm_def rtw_set_ie_def mem_wr_def mem_rd_def RTW_PUT_LE16_def)

lemma set_ie_appends:
  assumes "length d < 256" and "length x = length d + 2"
  shows "rtw_set_ie (a @ x @ b) (length a) (uint i) (of_nat (length d)) d n =
    Some (a @ ies_enc [(i, d)] @ b, n + (of_nat (length d) + 2), length a + length d + 2)"
proof -
  obtain x0 x1 xs where x: "x = x0 # x1 # xs" and xs: "length xs = length d"
    using assms(2) by (cases x; cases "tl x") auto
  have u: "unat (of_nat (length d) :: u32) = length d"
    by (rule unat_of_nat_small) (use assms(1) in simp)
  have c: "(ucast (of_nat (length d) :: u32) :: u8) = of_nat (length d)"
    by (rule word_eq_iff_unsigned [THEN iffD2])
      (use assms(1) u in \<open>simp add: unsigned_ucast_eq unsigned_of_nat\<close>)
  have z: "(0 :: u32) < of_nat (length d) \<longleftrightarrow> d \<noteq> []"
    using u by (auto simp: word_less_nat_alt)
  show ?thesis
    by (cases "d = []")
      (use xs in \<open>auto simp: rtw_set_ie_def x mem_wr_def u c z mem_rd_def ie.enc_Cons ie.enc_Nil ie_hdr_def\<close>)
qed

text \<open>The part of \<open>WLAN_BSSID_EX\<close> the routines on elements use; \<open>Reserved0\<close> is \<open>Reserved[0]\<close>, the kind of frame.\<close>

record WLAN_BSSID_EX =
  Reserved0 :: u8
  SsidLength :: u32
  Ssid :: bytes
  Privacy :: u32
  BeaconPeriod :: u32
  ATIMWindow :: u32
  DSConfig :: u32
  SupportedRates :: bytes
  IELength :: u32
  IEs :: bytes

end
