(* ===== verification/Ie_Elems.thy ===== *)
theory Ie_Elems
  imports Ie_List
begin

text \<open>
  \<open>rtw_ieee802_11_parse_elems\<close> of \<open>core/rtw_ieee80211.c\<close>, which takes the body of a
  management frame apart into a record of pointers. The theory shows that it reads only inside the
  length it is given whatever the bytes are, that every pointer it leaves has its whole element
  inside that length, and that it fails exactly on what is not a sequence of elements.
\<close>

unbundle bit_operations_syntax

section \<open>The parsed elements\<close>

record rtw_ieee802_11_elems =
  ssid :: "nat option"
  ssid_len :: u8
  supp_rates :: "nat option"
  supp_rates_len :: u8
  fh_params :: "nat option"
  fh_params_len :: u8
  ds_params :: "nat option"
  ds_params_len :: u8
  cf_params :: "nat option"
  cf_params_len :: u8
  tim :: "nat option"
  tim_len :: u8
  ibss_params :: "nat option"
  ibss_params_len :: u8
  challenge :: "nat option"
  challenge_len :: u8
  erp_info :: "nat option"
  erp_info_len :: u8
  ext_supp_rates :: "nat option"
  ext_supp_rates_len :: u8
  wpa_ie :: "nat option"
  wpa_ie_len :: u8
  rsn_ie :: "nat option"
  rsn_ie_len :: u8
  wme :: "nat option"
  wme_len :: u8
  wme_tspec :: "nat option"
  wme_tspec_len :: u8
  wps_ie :: "nat option"
  wps_ie_len :: u8
  power_cap :: "nat option"
  power_cap_len :: u8
  supp_channels :: "nat option"
  supp_channels_len :: u8
  mdie :: "nat option"
  mdie_len :: u8
  ftie :: "nat option"
  ftie_len :: u8
  timeout_int :: "nat option"
  timeout_int_len :: u8
  ht_capabilities :: "nat option"
  ht_capabilities_len :: u8
  ht_operation :: "nat option"
  ht_operation_len :: u8
  vendor_ht_cap :: "nat option"
  vendor_ht_cap_len :: u8
  vht_capabilities :: "nat option"
  vht_capabilities_len :: u8
  vht_operation :: "nat option"
  vht_operation_len :: u8
  vht_op_mode_notify :: "nat option"
  vht_op_mode_notify_len :: u8

definition no_elems :: rtw_ieee802_11_elems where
  "no_elems = \<lparr>
     ssid = None, ssid_len = 0,
     supp_rates = None, supp_rates_len = 0,
     fh_params = None, fh_params_len = 0,
     ds_params = None, ds_params_len = 0,
     cf_params = None, cf_params_len = 0,
     tim = None, tim_len = 0,
     ibss_params = None, ibss_params_len = 0,
     challenge = None, challenge_len = 0,
     erp_info = None, erp_info_len = 0,
     ext_supp_rates = None, ext_supp_rates_len = 0,
     wpa_ie = None, wpa_ie_len = 0,
     rsn_ie = None, rsn_ie_len = 0,
     wme = None, wme_len = 0,
     wme_tspec = None, wme_tspec_len = 0,
     wps_ie = None, wps_ie_len = 0,
     power_cap = None, power_cap_len = 0,
     supp_channels = None, supp_channels_len = 0,
     mdie = None, mdie_len = 0,
     ftie = None, ftie_len = 0,
     timeout_int = None, timeout_int_len = 0,
     ht_capabilities = None, ht_capabilities_len = 0,
     ht_operation = None, ht_operation_len = 0,
     vendor_ht_cap = None, vendor_ht_cap_len = 0,
     vht_capabilities = None, vht_capabilities_len = 0,
     vht_operation = None, vht_operation_len = 0,
     vht_op_mode_notify = None, vht_op_mode_notify_len = 0\<rparr>"

datatype ParseRes = ParseOK | ParseUnknown | ParseFailed

definition WLAN_EID_SSID :: u8 where "WLAN_EID_SSID = 0"
definition WLAN_EID_SUPP_RATES :: u8 where "WLAN_EID_SUPP_RATES = 1"
definition WLAN_EID_FH_PARAMS :: u8 where "WLAN_EID_FH_PARAMS = 2"
definition WLAN_EID_DS_PARAMS :: u8 where "WLAN_EID_DS_PARAMS = 3"
definition WLAN_EID_CF_PARAMS :: u8 where "WLAN_EID_CF_PARAMS = 4"
definition WLAN_EID_TIM :: u8 where "WLAN_EID_TIM = 5"
definition WLAN_EID_IBSS_PARAMS :: u8 where "WLAN_EID_IBSS_PARAMS = 6"
definition WLAN_EID_CHALLENGE :: u8 where "WLAN_EID_CHALLENGE = 16"
definition WLAN_EID_ERP_INFO :: u8 where "WLAN_EID_ERP_INFO = 42"
definition WLAN_EID_EXT_SUPP_RATES :: u8 where "WLAN_EID_EXT_SUPP_RATES = 50"
definition WLAN_EID_VENDOR_SPECIFIC :: u8 where "WLAN_EID_VENDOR_SPECIFIC = 221"
definition WLAN_EID_RSN :: u8 where "WLAN_EID_RSN = 48"
definition WLAN_EID_PWR_CAPABILITY :: u8 where "WLAN_EID_PWR_CAPABILITY = 33"
definition WLAN_EID_SUPPORTED_CHANNELS :: u8 where "WLAN_EID_SUPPORTED_CHANNELS = 36"
definition WLAN_EID_MOBILITY_DOMAIN :: u8 where "WLAN_EID_MOBILITY_DOMAIN = 54"
definition WLAN_EID_FAST_BSS_TRANSITION :: u8 where "WLAN_EID_FAST_BSS_TRANSITION = 55"
definition WLAN_EID_TIMEOUT_INTERVAL :: u8 where "WLAN_EID_TIMEOUT_INTERVAL = 56"
definition WLAN_EID_HT_CAP :: u8 where "WLAN_EID_HT_CAP = 45"
definition WLAN_EID_HT_OPERATION :: u8 where "WLAN_EID_HT_OPERATION = 61"
definition WLAN_EID_VHT_CAPABILITY :: u8 where "WLAN_EID_VHT_CAPABILITY = 191"
definition WLAN_EID_VHT_OPERATION :: u8 where "WLAN_EID_VHT_OPERATION = 192"
definition WLAN_EID_VHT_OP_MODE_NOTIFY :: u8 where "WLAN_EID_VHT_OP_MODE_NOTIFY = 199"

lemmas WLAN_EID_defs =
  WLAN_EID_SSID_def WLAN_EID_SUPP_RATES_def WLAN_EID_FH_PARAMS_def
  WLAN_EID_DS_PARAMS_def WLAN_EID_CF_PARAMS_def WLAN_EID_TIM_def
  WLAN_EID_IBSS_PARAMS_def WLAN_EID_CHALLENGE_def WLAN_EID_ERP_INFO_def
  WLAN_EID_EXT_SUPP_RATES_def WLAN_EID_VENDOR_SPECIFIC_def WLAN_EID_RSN_def
  WLAN_EID_PWR_CAPABILITY_def WLAN_EID_SUPPORTED_CHANNELS_def WLAN_EID_MOBILITY_DOMAIN_def
  WLAN_EID_FAST_BSS_TRANSITION_def WLAN_EID_TIMEOUT_INTERVAL_def WLAN_EID_HT_CAP_def
  WLAN_EID_HT_OPERATION_def WLAN_EID_VHT_CAPABILITY_def WLAN_EID_VHT_OPERATION_def
  WLAN_EID_VHT_OP_MODE_NOTIFY_def

definition OUI_MICROSOFT :: u32 where "OUI_MICROSOFT = 0x0050f2"
definition OUI_BROADCOM :: u32 where "OUI_BROADCOM = 0x00904c"
definition WME_OUI_TYPE :: u8 where "WME_OUI_TYPE = 2"
definition WME_OUI_SUBTYPE_INFORMATION_ELEMENT :: u8 where "WME_OUI_SUBTYPE_INFORMATION_ELEMENT = 0"
definition WME_OUI_SUBTYPE_PARAMETER_ELEMENT :: u8 where "WME_OUI_SUBTYPE_PARAMETER_ELEMENT = 1"
definition WME_OUI_SUBTYPE_TSPEC_ELEMENT :: u8 where "WME_OUI_SUBTYPE_TSPEC_ELEMENT = 2"
definition VENDOR_HT_CAPAB_OUI_TYPE :: u8 where "VENDOR_HT_CAPAB_OUI_TYPE = 0x33"

definition RTW_GET_BE24 :: "bytes \<Rightarrow> nat \<Rightarrow> u32 option" where
  "RTW_GET_BE24 m a = do {
     x \<leftarrow> byte_at m a; y \<leftarrow> byte_at m (a + 1); z \<leftarrow> byte_at m (a + 2);
     Some (push_bit 16 (ucast x) OR push_bit 8 (ucast y) OR ucast z) }"

section \<open>The parser\<close>

text \<open>
  \<open>rtw_ieee802_11_parse_vendor_specific\<close>: the record and whether the element was recognised (the
  source returns 0 or -1). \<open>elen\<close> is the \<open>u8\<close> of the caller, passed as \<open>uint\<close>.
\<close>

definition rtw_ieee802_11_parse_vendor_specific ::
    "bytes \<Rightarrow> nat \<Rightarrow> u8 \<Rightarrow> rtw_ieee802_11_elems \<Rightarrow> (rtw_ieee802_11_elems \<times> bool) option" where
  "rtw_ieee802_11_parse_vendor_specific m pos elen elems =
     (if elen < 4 then Some (elems, False)
      else do {
        oui \<leftarrow> RTW_GET_BE24 m pos;
        ty \<leftarrow> byte_at m (pos + 3);
        if oui = OUI_MICROSOFT then
          if ty = 1 then Some (elems\<lparr>wpa_ie := Some pos, wpa_ie_len := elen\<rparr>, True)
          else if ty = WME_OUI_TYPE then
            if elen < 5 then Some (elems, False)
            else do {
              sub \<leftarrow> byte_at m (pos + 4);
              if sub = WME_OUI_SUBTYPE_INFORMATION_ELEMENT \<or> sub = WME_OUI_SUBTYPE_PARAMETER_ELEMENT
              then Some (elems\<lparr>wme := Some pos, wme_len := elen\<rparr>, True)
              else if sub = WME_OUI_SUBTYPE_TSPEC_ELEMENT
              then Some (elems\<lparr>wme_tspec := Some pos, wme_tspec_len := elen\<rparr>, True)
              else Some (elems, False) }
          else if ty = 4 then Some (elems\<lparr>wps_ie := Some pos, wps_ie_len := elen\<rparr>, True)
          else Some (elems, False)
        else if oui = OUI_BROADCOM then
          if ty = VENDOR_HT_CAPAB_OUI_TYPE
          then Some (elems\<lparr>vendor_ht_cap := Some pos, vendor_ht_cap_len := elen\<rparr>, True)
          else Some (elems, False)
        else Some (elems, False) })"

text \<open>The switch on the element id; the flag says that the element was recognised.\<close>

definition parse_elem ::
    "bytes \<Rightarrow> u8 \<Rightarrow> nat \<Rightarrow> u8 \<Rightarrow> rtw_ieee802_11_elems \<Rightarrow> (rtw_ieee802_11_elems \<times> bool) option" where
  "parse_elem m eid pos elen elems =
     (if eid = WLAN_EID_SSID then Some (elems\<lparr>ssid := Some pos, ssid_len := elen\<rparr>, True)
      else if eid = WLAN_EID_SUPP_RATES then Some (elems\<lparr>supp_rates := Some pos, supp_rates_len := elen\<rparr>, True)
      else if eid = WLAN_EID_FH_PARAMS then Some (elems\<lparr>fh_params := Some pos, fh_params_len := elen\<rparr>, True)
      else if eid = WLAN_EID_DS_PARAMS then Some (elems\<lparr>ds_params := Some pos, ds_params_len := elen\<rparr>, True)
      else if eid = WLAN_EID_CF_PARAMS then Some (elems\<lparr>cf_params := Some pos, cf_params_len := elen\<rparr>, True)
      else if eid = WLAN_EID_TIM then Some (elems\<lparr>tim := Some pos, tim_len := elen\<rparr>, True)
      else if eid = WLAN_EID_IBSS_PARAMS then Some (elems\<lparr>ibss_params := Some pos, ibss_params_len := elen\<rparr>, True)
      else if eid = WLAN_EID_CHALLENGE then Some (elems\<lparr>challenge := Some pos, challenge_len := elen\<rparr>, True)
      else if eid = WLAN_EID_ERP_INFO then Some (elems\<lparr>erp_info := Some pos, erp_info_len := elen\<rparr>, True)
      else if eid = WLAN_EID_EXT_SUPP_RATES then Some (elems\<lparr>ext_supp_rates := Some pos, ext_supp_rates_len := elen\<rparr>, True)
      else if eid = WLAN_EID_VENDOR_SPECIFIC then rtw_ieee802_11_parse_vendor_specific m pos elen elems
      else if eid = WLAN_EID_RSN then Some (elems\<lparr>rsn_ie := Some pos, rsn_ie_len := elen\<rparr>, True)
      else if eid = WLAN_EID_PWR_CAPABILITY then Some (elems\<lparr>power_cap := Some pos, power_cap_len := elen\<rparr>, True)
      else if eid = WLAN_EID_SUPPORTED_CHANNELS then Some (elems\<lparr>supp_channels := Some pos, supp_channels_len := elen\<rparr>, True)
      else if eid = WLAN_EID_MOBILITY_DOMAIN then Some (elems\<lparr>mdie := Some pos, mdie_len := elen\<rparr>, True)
      else if eid = WLAN_EID_FAST_BSS_TRANSITION then Some (elems\<lparr>ftie := Some pos, ftie_len := elen\<rparr>, True)
      else if eid = WLAN_EID_TIMEOUT_INTERVAL then Some (elems\<lparr>timeout_int := Some pos, timeout_int_len := elen\<rparr>, True)
      else if eid = WLAN_EID_HT_CAP then Some (elems\<lparr>ht_capabilities := Some pos, ht_capabilities_len := elen\<rparr>, True)
      else if eid = WLAN_EID_HT_OPERATION then Some (elems\<lparr>ht_operation := Some pos, ht_operation_len := elen\<rparr>, True)
      else if eid = WLAN_EID_VHT_CAPABILITY then Some (elems\<lparr>vht_capabilities := Some pos, vht_capabilities_len := elen\<rparr>, True)
      else if eid = WLAN_EID_VHT_OPERATION then Some (elems\<lparr>vht_operation := Some pos, vht_operation_len := elen\<rparr>, True)
      else if eid = WLAN_EID_VHT_OP_MODE_NOTIFY then Some (elems\<lparr>vht_op_mode_notify := Some pos, vht_op_mode_notify_len := elen\<rparr>, True)
      else Some (elems, False))"

function parse_elems_loop ::
    "bytes \<Rightarrow> nat \<Rightarrow> nat \<Rightarrow> rtw_ieee802_11_elems \<Rightarrow> nat \<Rightarrow> (ParseRes \<times> rtw_ieee802_11_elems) option" where
  "parse_elems_loop m pos left elems unknown =
     (if 2 \<le> left then
        (case byte_at m pos of None \<Rightarrow> None | Some eid \<Rightarrow>
        (case byte_at m (pos + 1) of None \<Rightarrow> None | Some elen \<Rightarrow>
           if unat elen > left - 2 then Some (ParseFailed, elems)
           else
             (case parse_elem m eid (pos + 2) elen elems of None \<Rightarrow> None | Some (elems', known) \<Rightarrow>
                parse_elems_loop m (pos + 2 + unat elen) (left - 2 - unat elen) elems'
                  (if known then unknown else unknown + 1))))
      else Some (if left \<noteq> 0 then ParseFailed else if unknown \<noteq> 0 then ParseUnknown else ParseOK, elems))"
  by pat_completeness auto
termination by (relation "measure (\<lambda>(m, pos, left, elems, unknown). left)") auto

declare parse_elems_loop.simps [simp del]

definition rtw_ieee802_11_parse_elems :: "bytes \<Rightarrow> nat \<Rightarrow> u32 \<Rightarrow> (ParseRes \<times> rtw_ieee802_11_elems) option" where
  "rtw_ieee802_11_parse_elems m start len = parse_elems_loop m start (unat len) no_elems 0"

section \<open>Pointers inside the frame\<close>

definition elems_fields :: "rtw_ieee802_11_elems \<Rightarrow> (nat option \<times> u8) list" where
  "elems_fields e = [
     (ssid e, ssid_len e),
     (supp_rates e, supp_rates_len e),
     (fh_params e, fh_params_len e),
     (ds_params e, ds_params_len e),
     (cf_params e, cf_params_len e),
     (tim e, tim_len e),
     (ibss_params e, ibss_params_len e),
     (challenge e, challenge_len e),
     (erp_info e, erp_info_len e),
     (ext_supp_rates e, ext_supp_rates_len e),
     (wpa_ie e, wpa_ie_len e),
     (rsn_ie e, rsn_ie_len e),
     (wme e, wme_len e),
     (wme_tspec e, wme_tspec_len e),
     (wps_ie e, wps_ie_len e),
     (power_cap e, power_cap_len e),
     (supp_channels e, supp_channels_len e),
     (mdie e, mdie_len e),
     (ftie e, ftie_len e),
     (timeout_int e, timeout_int_len e),
     (ht_capabilities e, ht_capabilities_len e),
     (ht_operation e, ht_operation_len e),
     (vendor_ht_cap e, vendor_ht_cap_len e),
     (vht_capabilities e, vht_capabilities_len e),
     (vht_operation e, vht_operation_len e),
     (vht_op_mode_notify e, vht_op_mode_notify_len e)]"

definition field_in :: "nat \<Rightarrow> nat \<Rightarrow> nat option \<times> u8 \<Rightarrow> bool" where
  "field_in lo hi f \<longleftrightarrow> (case fst f of None \<Rightarrow> snd f = 0 | Some p \<Rightarrow> lo + 2 \<le> p \<and> p + unat (snd f) \<le> hi)"

definition elems_in :: "nat \<Rightarrow> nat \<Rightarrow> rtw_ieee802_11_elems \<Rightarrow> bool" where
  "elems_in lo hi e \<longleftrightarrow> list_all (field_in lo hi) (elems_fields e)"

lemma elems_in_no_elems [simp]: "elems_in lo hi no_elems"
  by (simp add: elems_in_def elems_fields_def no_elems_def field_in_def)

lemma ex_bool [simp]: "\<exists>x. x" "Ex Not"
  by blast+

lemma byte_at_inside: "i < length m \<Longrightarrow> byte_at m i = Some (m ! i)"
  by (simp add: byte_at_def)

lemma u8_ge [simp]: "(elen :: u8) < 4 \<longleftrightarrow> unat elen < 4" "(elen :: u8) < 5 \<longleftrightarrow> unat elen < 5"
  by (simp_all add: word_less_nat_alt)

lemma vendor_specific_in:
  assumes "pos + unat elen \<le> hi" and "hi \<le> length m" and "lo + 2 \<le> pos" and "elems_in lo hi e"
  shows "\<exists>e' k. rtw_ieee802_11_parse_vendor_specific m pos elen e = Some (e', k) \<and> elems_in lo hi e'"
proof (cases "unat elen < 4")
  case True
  then show ?thesis using assms(4) by (simp add: rtw_ieee802_11_parse_vendor_specific_def)
next
  case False
  have f: "field_in lo hi (Some pos, elen)" using assms by (simp add: field_in_def)
  have r: "RTW_GET_BE24 m pos = Some (push_bit 16 (ucast (m ! pos)) OR push_bit 8 (ucast (m ! (pos + 1))) OR ucast (m ! (pos + 2)))"
    "byte_at m (pos + 3) = Some (m ! (pos + 3))"
    "\<not> unat elen < 5 \<Longrightarrow> byte_at m (pos + 4) = Some (m ! (pos + 4))"
    using False assms by (simp_all add: RTW_GET_BE24_def byte_at_def)
  show ?thesis
    unfolding rtw_ieee802_11_parse_vendor_specific_def
    using False r f assms(4)
    by (simp add: elems_in_def elems_fields_def)
qed

lemma parse_elem_in:
  assumes "pos + unat elen \<le> hi" and "hi \<le> length m" and "lo + 2 \<le> pos" and "elems_in lo hi e"
  shows "\<exists>e' k. parse_elem m eid pos elen e = Some (e', k) \<and> elems_in lo hi e'"
proof (cases "eid = WLAN_EID_VENDOR_SPECIFIC")
  case True
  then show ?thesis using vendor_specific_in [OF assms] by (simp add: parse_elem_def WLAN_EID_defs)
next
  case False
  have f: "field_in lo hi (Some pos, elen)" using assms by (simp add: field_in_def)
  show ?thesis
    unfolding parse_elem_def if_not_P [OF False]
    using f assms(4) by (simp add: elems_in_def elems_fields_def)
qed

lemma parse_elems_loop_in:
  assumes "lo \<le> pos" and "pos + left = hi" and "hi \<le> length m" and "elems_in lo hi e"
  shows "\<exists>r e'. parse_elems_loop m pos left e n = Some (r, e') \<and> elems_in lo hi e'"
  using assms
proof (induction m pos left e n rule: parse_elems_loop.induct)
  case (1 m pos left e n)
  show ?case
  proof (cases "2 \<le> left")
    case False
    then show ?thesis using 1 by (simp add: parse_elems_loop.simps)
  next
    case True
    then have b: "byte_at m pos = Some (m ! pos)" "byte_at m (pos + 1) = Some (m ! (pos + 1))"
      using 1 by (simp_all add: byte_at_def)
    show ?thesis
    proof (cases "unat (m ! (pos + 1)) > left - 2")
      case long: True
      show ?thesis
        by (subst parse_elems_loop.simps) (use True b long 1 in simp)
    next
      case fits: False
      have "\<exists>e' k. parse_elem m (m ! pos) (pos + 2) (m ! (pos + 1)) e = Some (e', k) \<and> elems_in lo hi e'"
        by (rule parse_elem_in) (use 1 True fits in auto)
      then obtain e' k where p: "parse_elem m (m ! pos) (pos + 2) (m ! (pos + 1)) e = Some (e', k)"
        and in': "elems_in lo hi e'" by blast
      have "\<exists>r e''. parse_elems_loop m (pos + 2 + unat (m ! (pos + 1))) (left - 2 - unat (m ! (pos + 1))) e'
          (if k then n else n + 1) = Some (r, e'') \<and> elems_in lo hi e''"
        by (rule "1.IH" [OF True b fits p refl]) (use 1 True fits in' in auto)
      then show ?thesis
        by (subst parse_elems_loop.simps) (simp only: True b fits p if_True if_False option.case prod.case)
    qed
  qed
qed

section \<open>What the parser accepts\<close>

lemma take_drop_split:
  "pos + left \<le> length m \<Longrightarrow> 2 \<le> left \<Longrightarrow> n \<le> left - 2 \<Longrightarrow>
   take left (drop pos m) =
     [m ! pos, m ! (pos + 1)] @ take n (drop (pos + 2) m) @ take (left - 2 - n) (drop (pos + 2 + n) m)"
proof -
  assume *: "pos + left \<le> length m" "2 \<le> left" "n \<le> left - 2"
  have "take left (drop pos m) = take 2 (drop pos m) @ take (left - 2) (drop (pos + 2) m)"
    using take_add [of 2 "left - 2" "drop pos m"] unfolding le_add_diff_inverse [OF *(2)]
    by (simp add: add.commute)
  moreover have "take 2 (drop pos m) = [m ! pos, m ! (pos + 1)]"
    using * by (intro nth_equalityI) (auto simp: nth_Cons' less_Suc_eq numeral_2_eq_2)
  moreover have "take (left - 2) (drop (pos + 2) m) =
      take n (drop (pos + 2) m) @ take (left - 2 - n) (drop (pos + 2 + n) m)"
    using take_add [of n "left - 2 - n" "drop (pos + 2) m"] unfolding le_add_diff_inverse [OF *(3)]
    by (simp add: add.commute add.left_commute)
  ultimately show ?thesis by simp
qed

definition whole_elems :: "bytes \<Rightarrow> bool" where
  "whole_elems b \<longleftrightarrow> (\<exists>es. ies_ok es \<and> b = ies_enc es)"

lemma whole_elems_Nil [simp]: "whole_elems []"
  unfolding whole_elems_def by (rule exI [of _ "[]"]) (simp add: ie.enc_Nil)

lemma whole_elems_one [simp]: "\<not> whole_elems [x]"
proof
  assume "whole_elems [x]"
  then obtain es where "[x] = ies_enc es" by (auto simp: whole_elems_def)
  then have "length (ies_enc es) = 1" by (simp flip: \<open>[x] = _\<close>)
  then show False by (cases es) (simp_all add: ie.enc_length)
qed

lemma whole_elems_step:
  assumes "length d = unat l"
  shows "whole_elems ([i, l] @ d @ rest) \<longleftrightarrow> whole_elems rest"
proof
  assume "whole_elems ([i, l] @ d @ rest)"
  then obtain es where es: "ies_ok es" "[i, l] @ d @ rest = ies_enc es" by (auto simp: whole_elems_def)
  then obtain e es' where c: "es = e # es'" by (cases es) (auto simp: ie.enc_Nil)
  then have "[i, l] @ d @ rest = [fst e, of_nat (length (snd e))] @ snd e @ ies_enc es'"
    using es(2) by (simp add: ie.enc_Cons ie_hdr_def)
  moreover from this have "length d = length (snd e)"
    using assms es(1) c by (simp add: unsigned_of_nat take_bit_nat_eq_self)
  ultimately have "rest = ies_enc es'" by simp
  then show "whole_elems rest" using es(1) c unfolding whole_elems_def by auto
next
  assume "whole_elems rest"
  then obtain es where es: "ies_ok es" "rest = ies_enc es" by (auto simp: whole_elems_def)
  have "ies_ok ((i, d) # es)" using es assms by simp
  moreover have "[i, l] @ d @ rest = ies_enc ((i, d) # es)"
    using assms es by (simp add: ie.enc_Cons ie_hdr_def)
  ultimately show "whole_elems ([i, l] @ d @ rest)" unfolding whole_elems_def by blast
qed

lemma whole_elems_short:
  assumes "unat l > length rest"
  shows "\<not> whole_elems ([i, l] @ rest)"
proof
  assume "whole_elems ([i, l] @ rest)"
  then obtain es where es: "ies_ok es" "[i, l] @ rest = ies_enc es" by (auto simp: whole_elems_def)
  then obtain e es' where c: "es = e # es'" by (cases es) (auto simp: ie.enc_Nil)
  then have "[i, l] @ rest = [fst e, of_nat (length (snd e))] @ snd e @ ies_enc es'"
    using es(2) by (simp add: ie.enc_Cons ie_hdr_def)
  then show False using assms es(1) c by (auto simp: unsigned_of_nat take_bit_nat_eq_self)
qed

lemma parse_elems_loop_fails:
  assumes "pos + left \<le> length m" and "parse_elems_loop m pos left e n = Some (r, e')"
  shows "r = ParseFailed \<longleftrightarrow> \<not> whole_elems (take left (drop pos m))"
  using assms
proof (induction m pos left e n rule: parse_elems_loop.induct)
  case (1 m pos left e n)
  show ?case
  proof (cases "2 \<le> left")
    case False
    then consider "left = 0" | "left = 1" by linarith
    then show ?thesis
    proof cases
      case 1
      then show ?thesis using "1.prems" by (auto simp: parse_elems_loop.simps split: if_splits)
    next
      case 2
      then have "take left (drop pos m) = [m ! pos]"
        using "1.prems"(1) by (intro nth_equalityI) auto
      then show ?thesis using 2 "1.prems"(2) by (auto simp: parse_elems_loop.simps)
    qed
  next
    case True
    then have b: "byte_at m pos = Some (m ! pos)" "byte_at m (pos + 1) = Some (m ! (pos + 1))"
      using 1 by (simp_all add: byte_at_def)
    show ?thesis
    proof (cases "unat (m ! (pos + 1)) > left - 2")
      case long: True
      then have "r = ParseFailed"
        using "1.prems"(2) by (subst (asm) parse_elems_loop.simps) (use True b in simp)
      moreover have "\<not> whole_elems (take left (drop pos m))"
        using take_drop_split [OF "1.prems"(1) True, of "left - 2"] long "1.prems"(1)
          whole_elems_short [of "take (left - 2) (drop (pos + 2) m)" "m ! (pos + 1)" "m ! pos"]
        by simp
      ultimately show ?thesis by simp
    next
      case fits: False
      from "1.prems"(2) obtain e1 k where p: "parse_elem m (m ! pos) (pos + 2) (m ! (pos + 1)) e = Some (e1, k)"
        and rest: "parse_elems_loop m (pos + 2 + unat (m ! (pos + 1))) (left - 2 - unat (m ! (pos + 1))) e1
          (if k then n else n + 1) = Some (r, e')"
        by (subst (asm) parse_elems_loop.simps) (use True b fits in \<open>auto split: option.splits\<close>)
      have "r = ParseFailed \<longleftrightarrow> \<not> whole_elems
          (take (left - 2 - unat (m ! (pos + 1))) (drop (pos + 2 + unat (m ! (pos + 1))) m))"
        by (rule "1.IH" [OF True b fits p refl _ rest]) (use "1.prems"(1) True fits in auto)
      moreover have "length (take (unat (m ! (pos + 1))) (drop (pos + 2) m)) = unat (m ! (pos + 1))"
        using "1.prems"(1) True fits by simp
      ultimately show ?thesis
        using take_drop_split [OF "1.prems"(1) True, of "unat (m ! (pos + 1))"] fits whole_elems_step
        by simp
    qed
  qed
qed

text \<open>
  C25: parsing never reads outside the given length, whatever the bytes; all pointers it leaves have
  their element inside it, and it fails exactly when the bytes are not a sequence of whole elements.
\<close>

theorem parse_elems_in_bounds:
  assumes "start + unat len \<le> length m"
  shows "\<exists>r e. rtw_ieee802_11_parse_elems m start len = Some (r, e) \<and> elems_in start (start + unat len) e \<and>
           (r = ParseFailed) = (\<not> whole_elems (take (unat len) (drop start m)))"
proof -
  have "\<exists>r e. parse_elems_loop m start (unat len) no_elems 0 = Some (r, e) \<and> elems_in start (start + unat len) e"
    by (rule parse_elems_loop_in) (use assms in simp_all)
  then show ?thesis
    using parse_elems_loop_fails [OF assms] unfolding rtw_ieee802_11_parse_elems_def by blast
qed

lemma parse_elems_in_bounds_witness:
  "\<exists>r e. rtw_ieee802_11_parse_elems [0, 1, 65, 221, 3, 0, 80] 0 5 = Some (r, e) \<and> elems_in 0 5 e \<and>
     (r = ParseFailed) = (\<not> whole_elems [0, 1, 65, 221, 3])"
  using parse_elems_in_bounds [of 0 5 "[0, 1, 65, 221, 3, 0, 80]"] by simp

end
