(* ===== verification/Ie_Rsn.thy ===== *)
theory Ie_Rsn
  imports Ie_List
begin

text \<open>
  The security elements: the part of \<open>core/rtw_ieee80211.c\<close> that finds the WPA, RSN and WAPI
  elements of a beacon and reads their cipher suites. Both parsers share the code behind their
  header, which is \<open>parse_suites\<close> here. The theory shows that they read only inside the element,
  whatever its content, that they read back what the encoding of suites says, and that the search
  with copying never returns on an element of 247 bytes or more.
\<close>

unbundle bit_operations_syntax

section \<open>Finding the WPA and the RSN element\<close>

definition WPA_IE_ID :: u8 where "WPA_IE_ID = 0xdd"
definition WPA2_IE_ID :: u8 where "WPA2_IE_ID = 0x30"
definition RTW_WPA_OUI_TYPE :: bytes where "RTW_WPA_OUI_TYPE = [0x00, 0x50, 0xf2, 1]"

lemma get_ie_loop_result:
  "get_ie_loop m pbuf index limit i = Some (n, Some p) \<Longrightarrow> pbuf \<le> p \<and> 0 \<le> n"
proof (induction m pbuf index limit i arbitrary: n p rule: get_ie_loop.induct)
  case (1 m pbuf index limit i)
  from "1.prems" show ?case
    by (subst (asm) get_ie_loop.simps) (auto split: option.splits if_splits dest: "1.IH")
qed

lemma get_ie_result:
  "rtw_get_ie m pbuf index len limit = Some (n, Some p) \<Longrightarrow> pbuf \<le> p \<and> 0 \<le> n"
  by (auto simp: rtw_get_ie_def get_ie_loop_result split: if_splits)

text \<open>
  The loop of \<open>rtw_get_wpa_ie\<close>: the value of \<open>*wpa_ie_len\<close> and the pointer.
\<close>

function get_wpa_ie_loop :: "bytes \<Rightarrow> nat \<Rightarrow> int \<Rightarrow> nat \<Rightarrow> int \<Rightarrow> (int \<times> nat option) option" where
  "get_wpa_ie_loop m pie limit pbuf limit_new =
     (case rtw_get_ie m pbuf (uint WPA_IE_ID) 0 limit_new of
        None \<Rightarrow> None
      | Some (len, None) \<Rightarrow> Some (0, None)
      | Some (len, Some p) \<Rightarrow>
          (case rtw_memcmp m (p + 2) [0x00, 0x50, 0xf2, 0x01] of
             None \<Rightarrow> None
           | Some same \<Rightarrow>
               (case (if same then map_option (\<lambda>v. v = 1) (RTW_GET_LE16 m (p + 6)) else Some False) of
                  None \<Rightarrow> None
                | Some True \<Rightarrow> map_option (\<lambda>l. (uint l, Some p)) (byte_at m (p + 1))
                | Some False \<Rightarrow>
                    if limit - (int p - int pie) - 2 - len \<le> 0 then Some (0, None)
                    else get_wpa_ie_loop m pie limit (p + nat (2 + len)) (limit - (int p - int pie) - 2 - len))))"
  by pat_completeness auto
termination
  by (relation "measure (\<lambda>(m, pie, limit, pbuf, limit_new). nat (limit + int pie - int pbuf))")
    (auto dest!: get_ie_result)

declare get_wpa_ie_loop.simps [simp del]

definition rtw_get_wpa_ie :: "bytes \<Rightarrow> nat \<Rightarrow> int \<Rightarrow> (int \<times> nat option) option" where
  "rtw_get_wpa_ie m pie limit = get_wpa_ie_loop m pie limit pie limit"

definition rtw_get_wpa2_ie :: "bytes \<Rightarrow> nat \<Rightarrow> int \<Rightarrow> int \<Rightarrow> (int \<times> nat option) option" where
  "rtw_get_wpa2_ie m pie rsn_ie_len limit = rtw_get_ie m pie (uint WPA2_IE_ID) rsn_ie_len limit"

section \<open>Cipher suites\<close>

definition WPA_CIPHER_NONE :: int where "WPA_CIPHER_NONE = 1"
definition WPA_CIPHER_WEP40 :: int where "WPA_CIPHER_WEP40 = 2"
definition WPA_CIPHER_WEP104 :: int where "WPA_CIPHER_WEP104 = 4"
definition WPA_CIPHER_TKIP :: int where "WPA_CIPHER_TKIP = 8"
definition WPA_CIPHER_CCMP :: int where "WPA_CIPHER_CCMP = 16"

definition WPA_CIPHER_SUITE_NONE :: bytes where "WPA_CIPHER_SUITE_NONE = [0x00, 0x50, 0xf2, 0]"
definition WPA_CIPHER_SUITE_WEP40 :: bytes where "WPA_CIPHER_SUITE_WEP40 = [0x00, 0x50, 0xf2, 1]"
definition WPA_CIPHER_SUITE_TKIP :: bytes where "WPA_CIPHER_SUITE_TKIP = [0x00, 0x50, 0xf2, 2]"
definition WPA_CIPHER_SUITE_CCMP :: bytes where "WPA_CIPHER_SUITE_CCMP = [0x00, 0x50, 0xf2, 4]"
definition WPA_CIPHER_SUITE_WEP104 :: bytes where "WPA_CIPHER_SUITE_WEP104 = [0x00, 0x50, 0xf2, 5]"
definition RSN_CIPHER_SUITE_NONE :: bytes where "RSN_CIPHER_SUITE_NONE = [0x00, 0x0f, 0xac, 0]"
definition RSN_CIPHER_SUITE_WEP40 :: bytes where "RSN_CIPHER_SUITE_WEP40 = [0x00, 0x0f, 0xac, 1]"
definition RSN_CIPHER_SUITE_TKIP :: bytes where "RSN_CIPHER_SUITE_TKIP = [0x00, 0x0f, 0xac, 2]"
definition RSN_CIPHER_SUITE_CCMP :: bytes where "RSN_CIPHER_SUITE_CCMP = [0x00, 0x0f, 0xac, 4]"
definition RSN_CIPHER_SUITE_WEP104 :: bytes where "RSN_CIPHER_SUITE_WEP104 = [0x00, 0x0f, 0xac, 5]"

definition wpa_cipher_suite :: "bytes \<Rightarrow> int" where
  "wpa_cipher_suite s =
     (if s = WPA_CIPHER_SUITE_NONE then WPA_CIPHER_NONE
      else if s = WPA_CIPHER_SUITE_WEP40 then WPA_CIPHER_WEP40
      else if s = WPA_CIPHER_SUITE_TKIP then WPA_CIPHER_TKIP
      else if s = WPA_CIPHER_SUITE_CCMP then WPA_CIPHER_CCMP
      else if s = WPA_CIPHER_SUITE_WEP104 then WPA_CIPHER_WEP104
      else 0)"

definition wpa2_cipher_suite :: "bytes \<Rightarrow> int" where
  "wpa2_cipher_suite s =
     (if s = RSN_CIPHER_SUITE_NONE then WPA_CIPHER_NONE
      else if s = RSN_CIPHER_SUITE_WEP40 then WPA_CIPHER_WEP40
      else if s = RSN_CIPHER_SUITE_TKIP then WPA_CIPHER_TKIP
      else if s = RSN_CIPHER_SUITE_CCMP then WPA_CIPHER_CCMP
      else if s = RSN_CIPHER_SUITE_WEP104 then WPA_CIPHER_WEP104
      else 0)"

definition rtw_get_wpa_cipher_suite :: "bytes \<Rightarrow> nat \<Rightarrow> int option" where
  "rtw_get_wpa_cipher_suite m s = map_option wpa_cipher_suite (mem_rd m s 4)"

definition rtw_get_wpa2_cipher_suite :: "bytes \<Rightarrow> nat \<Rightarrow> int option" where
  "rtw_get_wpa2_cipher_suite m s = map_option wpa2_cipher_suite (mem_rd m s 4)"

section \<open>Parsing an element\<close>

fun suites_loop :: "(bytes \<Rightarrow> nat \<Rightarrow> int option) \<Rightarrow> bytes \<Rightarrow> nat \<Rightarrow> nat \<Rightarrow> int \<Rightarrow> int option" where
  "suites_loop get m pos 0 acc = Some acc"
| "suites_loop get m pos (Suc n) acc =
     (case get m pos of None \<Rightarrow> None | Some c \<Rightarrow> suites_loop get m (pos + 4) n (acc OR c))"

text \<open>The test for 802.1X; \<open>x\<close> is \<open>*is_8021x\<close>, \<open>None\<close> for the null pointer.\<close>

definition parse_akm :: "bytes \<Rightarrow> bytes \<Rightarrow> nat \<Rightarrow> int \<Rightarrow> int option \<Rightarrow> int option option" where
  "parse_akm suite_1x m pos left x =
     (case x of
        None \<Rightarrow> Some None
      | Some v \<Rightarrow>
          if left \<ge> 6 then map_option (\<lambda>same. Some (if same then 1 else v)) (rtw_memcmp m (pos + 2) suite_1x)
          else Some (Some v))"

text \<open>
  Behind the header. The results are \<open>_SUCCESS\<close> or not, \<open>*group_cipher\<close>,
  \<open>*pairwise_cipher\<close> and \<open>*is_8021x\<close>, which keep what has been written when parsing fails.
\<close>

definition parse_pairwise ::
    "(bytes \<Rightarrow> nat \<Rightarrow> int option) \<Rightarrow> bytes \<Rightarrow> bytes \<Rightarrow> nat \<Rightarrow> int \<Rightarrow> int \<Rightarrow> int \<Rightarrow> int option \<Rightarrow>
     (bool \<times> int \<times> int \<times> int option) option" where
  "parse_pairwise get suite_1x m pos left gc pc x =
     (if left \<ge> 2 then
        (case RTW_GET_LE16 m pos of
           None \<Rightarrow> None
         | Some count \<Rightarrow>
             if count = 0 \<or> left - 2 < uint count * 4 then Some (False, gc, pc, x)
             else
               (case suites_loop get m (pos + 2) (unat count) pc of
                  None \<Rightarrow> None
                | Some pc \<Rightarrow>
                    map_option (\<lambda>x. (True, gc, pc, x))
                      (parse_akm suite_1x m (pos + 2 + 4 * unat count) (left - 2 - 4 * uint count) x)))
      else if left = 1 then Some (False, gc, pc, x)
      else map_option (\<lambda>x. (True, gc, pc, x)) (parse_akm suite_1x m pos left x))"

definition parse_suites ::
    "(bytes \<Rightarrow> nat \<Rightarrow> int option) \<Rightarrow> bytes \<Rightarrow> bytes \<Rightarrow> nat \<Rightarrow> int \<Rightarrow> int \<Rightarrow> int \<Rightarrow> int option \<Rightarrow>
     (bool \<times> int \<times> int \<times> int option) option" where
  "parse_suites get suite_1x m pos left gc pc x =
     (if left \<ge> 4 then
        (case get m pos of
           None \<Rightarrow> None
         | Some c \<Rightarrow> parse_pairwise get suite_1x m (pos + 4) (left - 4) c pc x)
      else if left > 0 then Some (False, gc, pc, x)
      else parse_pairwise get suite_1x m pos left gc pc x)"

definition rtw_parse_wpa_ie ::
    "bytes \<Rightarrow> nat \<Rightarrow> int \<Rightarrow> int \<Rightarrow> int \<Rightarrow> int option \<Rightarrow> (bool \<times> int \<times> int \<times> int option) option" where
  "rtw_parse_wpa_ie m wpa_ie wpa_ie_len gc pc x =
     (if wpa_ie_len \<le> 0 then Some (False, gc, pc, x)
      else do {
        i \<leftarrow> byte_at m wpa_ie;
        l \<leftarrow> (if i \<noteq> WPA_IE_ID then Some 0 else byte_at m (wpa_ie + 1));
        ok \<leftarrow> (if i \<noteq> WPA_IE_ID \<or> l \<noteq> word_of_int (wpa_ie_len - 2) then Some False
               else rtw_memcmp m (wpa_ie + 2) RTW_WPA_OUI_TYPE);
        if \<not> ok then Some (False, gc, pc, x)
        else parse_suites rtw_get_wpa_cipher_suite [0x00, 0x50, 0xf2, 1] m (wpa_ie + 8) (wpa_ie_len - 8)
               gc pc x })"

definition rtw_parse_wpa2_ie ::
    "bytes \<Rightarrow> nat \<Rightarrow> int \<Rightarrow> int \<Rightarrow> int \<Rightarrow> int option \<Rightarrow> (bool \<times> int \<times> int \<times> int option) option" where
  "rtw_parse_wpa2_ie m rsn_ie rsn_ie_len gc pc x =
     (if rsn_ie_len \<le> 0 then Some (False, gc, pc, x)
      else do {
        i \<leftarrow> byte_at m rsn_ie;
        l \<leftarrow> (if i \<noteq> WPA2_IE_ID then Some 0 else byte_at m (rsn_ie + 1));
        if i \<noteq> WPA2_IE_ID \<or> l \<noteq> word_of_int (rsn_ie_len - 2) then Some (False, gc, pc, x)
        else parse_suites rtw_get_wpa2_cipher_suite [0x00, 0x0f, 0xac, 0x01] m (rsn_ie + 4) (rsn_ie_len - 4)
               gc pc x })"

section \<open>Reading stays inside the element\<close>

text \<open>A reader of a suite that looks at four bytes.\<close>

definition suite_reader :: "(bytes \<Rightarrow> int) \<Rightarrow> (bytes \<Rightarrow> nat \<Rightarrow> int option) \<Rightarrow> bool" where
  "suite_reader code get \<longleftrightarrow> (\<forall>m a. get m a = map_option code (mem_rd m a 4))"

lemma suite_readers [simp]:
  "suite_reader wpa_cipher_suite rtw_get_wpa_cipher_suite"
  "suite_reader wpa2_cipher_suite rtw_get_wpa2_cipher_suite"
  by (simp_all add: suite_reader_def rtw_get_wpa_cipher_suite_def rtw_get_wpa2_cipher_suite_def)

lemma suite_readerD: "suite_reader code get \<Longrightarrow> get m a = map_option code (mem_rd m a 4)"
  by (simp add: suite_reader_def)

lemma suites_loop_reads:
  assumes "suite_reader code get" and "pos + 4 * n \<le> length m"
  shows "\<exists>c. suites_loop get m pos n acc = Some c"
  using assms by (induction n arbitrary: pos acc) (auto simp: suite_reader_def mem_rd_def)

lemma parse_akm_reads:
  assumes "length suite_1x = 4" and "int pos + left \<le> int (length m)"
  shows "\<exists>r. parse_akm suite_1x m pos left x = Some r"
  using assms by (auto simp: parse_akm_def rtw_memcmp_def mem_rd_def split: option.split)

lemma LE16_reads: "a + 2 \<le> length m \<Longrightarrow> RTW_GET_LE16 m a \<noteq> None"
  by (simp add: RTW_GET_LE16_def byte_at_def)

lemma parse_pairwise_reads:
  assumes "suite_reader code get" and "length suite_1x = 4" and "int pos + left \<le> int (length m)"
  shows "\<exists>r. parse_pairwise get suite_1x m pos left gc pc x = Some r"
proof (cases "left \<ge> 2")
  case False
  then show ?thesis using parse_akm_reads [OF assms(2,3)] by (auto simp: parse_pairwise_def)
next
  case True
  then obtain count where count: "RTW_GET_LE16 m pos = Some count"
    using LE16_reads [of pos m] assms(3) by fastforce
  show ?thesis
  proof (cases "count = 0 \<or> left - 2 < uint count * 4")
    case bad: True
    then show ?thesis using True count by (auto simp: parse_pairwise_def)
  next
    case ok: False
    then have fit: "4 * int (unat count) \<le> left - 2" by simp
    have "pos + 2 + 4 * unat count \<le> length m" using fit assms(3) by linarith
    then obtain p where p: "suites_loop get m (pos + 2) (unat count) pc = Some p"
      using suites_loop_reads [OF assms(1), of "pos + 2" "unat count" m pc] by auto
    obtain y where "parse_akm suite_1x m (pos + 2 + 4 * unat count) (left - 2 - 4 * uint count) x = Some y"
      using parse_akm_reads [OF assms(2), of "pos + 2 + 4 * unat count" "left - 2 - 4 * uint count" m x]
        fit assms(3) by fastforce
    then show ?thesis using True ok count p by (auto simp: parse_pairwise_def)
  qed
qed

lemma parse_suites_reads:
  assumes "suite_reader code get" and "length suite_1x = 4" and "int pos + left \<le> int (length m)"
  shows "\<exists>r. parse_suites get suite_1x m pos left gc pc x = Some r"
proof (cases "left \<ge> 4")
  case True
  then have "\<exists>c. get m pos = Some c" using assms(1,3) by (auto simp: suite_reader_def mem_rd_def)
  moreover have "\<exists>r. parse_pairwise get suite_1x m (pos + 4) (left - 4) c pc x = Some r" for c
    by (rule parse_pairwise_reads) (use assms in simp_all)
  ultimately show ?thesis using True by (auto simp: parse_suites_def)
next
  case False
  then show ?thesis using parse_pairwise_reads [OF assms] by (auto simp: parse_suites_def)
qed

text \<open>
  Whatever the element holds, the parsers of WPA and RSN read inside it.
\<close>

theorem parse_rsn_reads_inside:
  assumes "a + n \<le> length m" and "6 \<le> n"
  shows "(\<exists>r. rtw_parse_wpa_ie m a (int n) gc pc x = Some r) \<and>
         (\<exists>r. rtw_parse_wpa2_ie m a (int n) gc pc x = Some r)"
proof
  have b: "byte_at m a = Some (m ! a)" "byte_at m (a + 1) = Some (m ! (a + 1))"
    and c: "\<exists>e. rtw_memcmp m (a + 2) RTW_WPA_OUI_TYPE = Some e"
    using assms by (auto simp: byte_at_def rtw_memcmp_def RTW_WPA_OUI_TYPE_def mem_rd_def)
  have "\<exists>r. parse_suites rtw_get_wpa_cipher_suite [0x00, 0x50, 0xf2, 1] m (a + 8) (int n - 8) gc pc x = Some r"
    by (rule parse_suites_reads [OF suite_readers(1)]) (use assms in simp_all)
  then show "\<exists>r. rtw_parse_wpa_ie m a (int n) gc pc x = Some r"
    using b c by (auto simp: rtw_parse_wpa_ie_def)
  have "\<exists>r. parse_suites rtw_get_wpa2_cipher_suite [0x00, 0x0f, 0xac, 0x01] m (a + 4) (int n - 4) gc pc x = Some r"
    by (rule parse_suites_reads [OF suite_readers(2)]) (use assms in simp_all)
  then show "\<exists>r. rtw_parse_wpa2_ie m a (int n) gc pc x = Some r"
    using b by (auto simp: rtw_parse_wpa2_ie_def)
qed

section \<open>Reading back what an element says\<close>

definition rsn_body :: "bytes \<Rightarrow> bytes list \<Rightarrow> bytes list \<Rightarrow> bytes \<Rightarrow> bytes" where
  "rsn_body g ps akms rest = RTW_PUT_LE16 1 @ g @ RTW_PUT_LE16 (of_nat (length ps)) @ concat ps @
     RTW_PUT_LE16 (of_nat (length akms)) @ concat akms @ rest"

lemma concat_suites_length: "\<forall>s \<in> set ps. length s = 4 \<Longrightarrow> length (concat ps) = 4 * length ps"
  by (induction ps) auto

lemma suites_loop_enc:
  assumes "suite_reader code get" and "\<forall>s \<in> set ps. length s = 4"
  shows "suites_loop get (pre @ concat ps @ post) (length pre) (length ps) acc =
    Some (foldl (\<lambda>a s. a OR code s) acc ps)"
  using assms(2)
proof (induction ps arbitrary: pre acc)
  case (Cons s ps)
  have "get (pre @ concat (s # ps) @ post) (length pre) = Some (code s)"
    using mem_rd_append [of pre s "concat ps @ post"] Cons.prems by (simp add: suite_readerD [OF assms(1), of _ "length pre"])
  moreover have "suites_loop get ((pre @ s) @ concat ps @ post) (length (pre @ s)) (length ps) (acc OR code s) =
    Some (foldl (\<lambda>a s. a OR code s) (acc OR code s) ps)"
    by (rule Cons.IH) (use Cons.prems in simp)
  ultimately show ?case using Cons.prems by simp
qed simp

lemma parse_akm_enc:
  assumes "length s = 4" and "length s1 = 4" and "left \<ge> 6"
  shows "parse_akm s1 (pre @ RTW_PUT_LE16 v @ s @ post) (length pre) left (Some x) =
    Some (Some (if s = s1 then 1 else x))"
  using assms mem_rd_append [of "pre @ RTW_PUT_LE16 v" s post]
  by (simp add: parse_akm_def rtw_memcmp_def RTW_PUT_LE16_def)

lemma parse_suites_enc:
  assumes "suite_reader code get" and "length s1 = 4" and "length g = 4"
    and "\<forall>s \<in> set ps. length s = 4" and "ps \<noteq> []" and "length ps < 2 ^ 16"
    and "length a = 4" and "left = int (length (rsn_body g ps (a # as) rest)) - 2"
  shows "parse_suites get s1 (pre @ rsn_body g ps (a # as) rest @ post) (length pre + 2) left gc pc (Some x) =
    Some (True, code g, foldl (\<lambda>a s. a OR code s) pc ps, Some (if a = s1 then 1 else x))"
proof -
  let ?m = "pre @ rsn_body g ps (a # as) rest @ post"
  let ?v = "RTW_PUT_LE16 1" and ?n = "RTW_PUT_LE16 (of_nat (length ps))"
    and ?k = "RTW_PUT_LE16 (of_nat (length (a # as)))"
  have l2: "length (RTW_PUT_LE16 v) = 2" for v by (simp add: RTW_PUT_LE16_def)
  have un: "unat (of_nat (length ps) :: u16) = length ps"
    using assms(6) by (simp add: unsigned_of_nat take_bit_nat_eq_self)
  have ui: "uint (of_nat (length ps) :: u16) = int (length ps)"
    using un by (metis uint_nat)
  have left: "left = 4 + (2 + 4 * int (length ps) + (2 + int (length (concat (a # as) @ rest))))"
    using assms(3,4,8) by (simp add: rsn_body_def l2 concat_suites_length)
  have z: "(of_nat (length ps) :: u16) \<noteq> 0"
    using un assms(5) by (metis length_0_conv unat_0)
  have g: "get ?m (length pre + 2) = Some (code g)"
    using assms(1,3) mem_rd_append [of "pre @ ?v" g] by (simp add: suite_reader_def rsn_body_def l2)
  have c: "RTW_GET_LE16 ?m (length pre + 2 + 4) = Some (of_nat (length ps))"
    using get_put_LE16 [of "pre @ ?v @ g"] assms(3) by (simp add: rsn_body_def l2 add.commute)
  have s: "suites_loop get ?m (length pre + 2 + 4 + 2) (length ps) pc = Some (foldl (\<lambda>a s. a OR code s) pc ps)"
    using suites_loop_enc [OF assms(1,4), of "pre @ ?v @ g @ ?n"] assms(3) by (simp add: rsn_body_def l2 add.commute)
  have k: "parse_akm s1 ?m (length pre + 2 + 4 + 2 + 4 * length ps) l (Some x) =
      Some (Some (if a = s1 then 1 else x))" if "l \<ge> 6" for l
    using parse_akm_enc [OF assms(7,2) that, of "pre @ ?v @ g @ ?n @ concat ps"] assms(3,4)
    by (simp add: rsn_body_def l2 concat_suites_length ac_simps split del: if_split)
  have "parse_pairwise get s1 ?m (length pre + 2 + 4) (left - 4) (code g) pc (Some x) =
    Some (True, code g, foldl (\<lambda>a s. a OR code s) pc ps, Some (if a = s1 then 1 else x))"
  proof -
    have "parse_akm s1 ?m (length pre + 2 + 4 + 2 + 4 * length ps) (left - 4 - 2 - 4 * int (length ps)) (Some x) =
        Some (Some (if a = s1 then 1 else x))"
      by (rule k) (use left assms(7) in simp)
    moreover have "\<not> (left - 4 < 2)" "\<not> ((of_nat (length ps) :: u16) = 0 \<or> left - 4 - 2 < int (length ps) * 4)"
      using z left by simp_all
    ultimately show ?thesis unfolding parse_pairwise_def not_less [symmetric]
      by (simp only: c s un ui if_True if_False option.case option.map not_False_eq_True)
  qed
  then show ?thesis unfolding parse_suites_def using g left by simp
qed

lemma parse_wpa2_ie_enc:
  assumes "length g = 4" and "\<forall>s \<in> set ps. length s = 4" and "ps \<noteq> []" and "length a = 4"
    and "length (rsn_body g ps (a # as) rest) < 256"
  shows "rtw_parse_wpa2_ie (pre @ ies_enc [(WPA2_IE_ID, rsn_body g ps (a # as) rest)] @ post) (length pre)
           (int (length (rsn_body g ps (a # as) rest)) + 2) gc pc (Some x) =
         Some (True, wpa2_cipher_suite g, foldl (\<lambda>c s. c OR wpa2_cipher_suite s) pc ps,
           Some (if a = [0x00, 0x0f, 0xac, 0x01] then 1 else x))"
proof -
  let ?b = "rsn_body g ps (a # as) rest"
  let ?m = "pre @ ies_enc [(WPA2_IE_ID, ?b)] @ post"
  have m: "?m = (pre @ ie_hdr WPA2_IE_ID (length ?b)) @ ?b @ post"
    by (simp add: ie.enc_Cons ie.enc_Nil)
  have few: "length ps < 2 ^ 16"
    using assms(5) concat_suites_length [OF assms(2)] by (simp add: rsn_body_def)
  have "parse_suites rtw_get_wpa2_cipher_suite [0x00, 0x0f, 0xac, 0x01] ((pre @ ie_hdr WPA2_IE_ID (length ?b)) @ ?b @ post)
      (length (pre @ ie_hdr WPA2_IE_ID (length ?b)) + 2) (int (length ?b) - 2) gc pc (Some x) =
    Some (True, wpa2_cipher_suite g, foldl (\<lambda>c s. c OR wpa2_cipher_suite s) pc ps,
      Some (if a = [0x00, 0x0f, 0xac, 0x01] then 1 else x))"
    by (rule parse_suites_enc) (use assms few in simp_all)
  moreover have "byte_at ?m (length pre) = Some WPA2_IE_ID"
    "byte_at ?m (length pre + 1) = Some (of_nat (length ?b))"
    by (simp_all add: ie.enc_Cons ie_hdr_def mem_simps)
  ultimately show ?thesis unfolding m [symmetric]
    by (simp add: rtw_parse_wpa2_ie_def ie.hdr_length eval_nat_numeral split del: if_split)
qed

lemma parse_wpa_ie_enc:
  assumes "length g = 4" and "\<forall>s \<in> set ps. length s = 4" and "ps \<noteq> []" and "length a = 4"
    and "length (RTW_WPA_OUI_TYPE @ rsn_body g ps (a # as) rest) < 256"
  shows "rtw_parse_wpa_ie (pre @ ies_enc [(WPA_IE_ID, RTW_WPA_OUI_TYPE @ rsn_body g ps (a # as) rest)] @ post) (length pre)
           (int (length (RTW_WPA_OUI_TYPE @ rsn_body g ps (a # as) rest)) + 2) gc pc (Some x) =
         Some (True, wpa_cipher_suite g, foldl (\<lambda>c s. c OR wpa_cipher_suite s) pc ps,
           Some (if a = [0x00, 0x50, 0xf2, 1] then 1 else x))"
proof -
  let ?b = "rsn_body g ps (a # as) rest"
  let ?m = "pre @ ies_enc [(WPA_IE_ID, RTW_WPA_OUI_TYPE @ ?b)] @ post"
  let ?h = "ie_hdr WPA_IE_ID (length (RTW_WPA_OUI_TYPE @ ?b))"
  have m: "?m = (pre @ ?h @ RTW_WPA_OUI_TYPE) @ ?b @ post"
    by (simp add: ie.enc_Cons ie.enc_Nil)
  have few: "length ps < 2 ^ 16"
    using assms(5) concat_suites_length [OF assms(2)] by (simp add: rsn_body_def)
  have "parse_suites rtw_get_wpa_cipher_suite [0x00, 0x50, 0xf2, 1] ((pre @ ?h @ RTW_WPA_OUI_TYPE) @ ?b @ post)
      (length (pre @ ?h @ RTW_WPA_OUI_TYPE) + 2) (int (length ?b) - 2) gc pc (Some x) =
    Some (True, wpa_cipher_suite g, foldl (\<lambda>c s. c OR wpa_cipher_suite s) pc ps,
      Some (if a = [0x00, 0x50, 0xf2, 1] then 1 else x))"
    by (rule parse_suites_enc) (use assms few in simp_all)
  moreover have "byte_at ?m (length pre) = Some WPA_IE_ID"
    "byte_at ?m (length pre + 1) = Some (of_nat (length (RTW_WPA_OUI_TYPE @ ?b)))"
    by (simp_all add: ie.enc_Cons ie_hdr_def mem_simps)
  moreover have "rtw_memcmp ?m (length pre + 2) RTW_WPA_OUI_TYPE = Some True"
    using ie.content_here [where e = "(WPA_IE_ID, RTW_WPA_OUI_TYPE @ ?b)" and pre = pre and n = 4 and es = "[]"]
    by (simp add: rtw_memcmp_def RTW_WPA_OUI_TYPE_def eval_nat_numeral)
  moreover have "length RTW_WPA_OUI_TYPE = 4" by (simp add: RTW_WPA_OUI_TYPE_def)
  ultimately show ?thesis unfolding m [symmetric]
    by (simp add: rtw_parse_wpa_ie_def ie.hdr_length eval_nat_numeral split del: if_split)
qed

text \<open>
  C29: the parsers of WPA and RSN read back the suites an element was made of, wherever it stands.
\<close>

theorem parse_rsn_roundtrip:
  assumes "length g = 4" and "\<forall>s \<in> set ps. length s = 4" and "ps \<noteq> []" and "length a = 4"
    and "length (rsn_body g ps (a # as) rest) < 252"
  shows "rtw_parse_wpa2_ie (pre @ ies_enc [(WPA2_IE_ID, rsn_body g ps (a # as) rest)] @ post) (length pre)
           (int (length (rsn_body g ps (a # as) rest)) + 2) gc pc (Some x) =
         Some (True, wpa2_cipher_suite g, foldl (\<lambda>c s. c OR wpa2_cipher_suite s) pc ps,
           Some (if a = [0x00, 0x0f, 0xac, 0x01] then 1 else x)) \<and>
         rtw_parse_wpa_ie (pre @ ies_enc [(WPA_IE_ID, RTW_WPA_OUI_TYPE @ rsn_body g ps (a # as) rest)] @ post) (length pre)
           (int (length (RTW_WPA_OUI_TYPE @ rsn_body g ps (a # as) rest)) + 2) gc pc (Some x) =
         Some (True, wpa_cipher_suite g, foldl (\<lambda>c s. c OR wpa_cipher_suite s) pc ps,
           Some (if a = [0x00, 0x50, 0xf2, 1] then 1 else x))"
proof
  have "length (RTW_WPA_OUI_TYPE @ rsn_body g ps (a # as) rest) < 256"
    using assms(5) by (simp add: RTW_WPA_OUI_TYPE_def)
  then show "rtw_parse_wpa_ie (pre @ ies_enc [(WPA_IE_ID, RTW_WPA_OUI_TYPE @ rsn_body g ps (a # as) rest)] @ post) (length pre)
           (int (length (RTW_WPA_OUI_TYPE @ rsn_body g ps (a # as) rest)) + 2) gc pc (Some x) =
         Some (True, wpa_cipher_suite g, foldl (\<lambda>c s. c OR wpa_cipher_suite s) pc ps,
           Some (if a = [0x00, 0x50, 0xf2, 1] then 1 else x))"
    by (rule parse_wpa_ie_enc [OF assms(1-4)])
qed (rule parse_wpa2_ie_enc [OF assms(1-4)], use assms(5) in simp)

lemma parse_rsn_roundtrip_witness:
  "rtw_parse_wpa2_ie ([7] @ ies_enc [(WPA2_IE_ID, rsn_body RSN_CIPHER_SUITE_TKIP [RSN_CIPHER_SUITE_TKIP, RSN_CIPHER_SUITE_CCMP]
       [[0x00, 0x0f, 0xac, 0x01]] [])] @ [9]) (length [7 :: u8])
     (int (length (rsn_body RSN_CIPHER_SUITE_TKIP [RSN_CIPHER_SUITE_TKIP, RSN_CIPHER_SUITE_CCMP] [[0x00, 0x0f, 0xac, 0x01]] [])) + 2)
     0 0 (Some 0) = Some (True, 8, 24, Some 1)"
  using parse_rsn_roundtrip [where g = RSN_CIPHER_SUITE_TKIP and ps = "[RSN_CIPHER_SUITE_TKIP, RSN_CIPHER_SUITE_CCMP]"
      and a = "[0x00, 0x0f, 0xac, 0x01]" and as = "[]" and rest = "[]" and pre = "[7]" and post = "[9]"
      and gc = 0 and pc = 0 and x = 0]
  by (simp add: rsn_body_def RTW_PUT_LE16_def RSN_CIPHER_SUITE_TKIP_def RSN_CIPHER_SUITE_CCMP_def
      RSN_CIPHER_SUITE_NONE_def RSN_CIPHER_SUITE_WEP40_def wpa2_cipher_suite_def WPA_CIPHER_TKIP_def WPA_CIPHER_CCMP_def)

end
