(* ===== verification/Ie_Sec.thy ===== *)
theory Ie_Sec
  imports Ie_Rsn
begin

text \<open>
  What a scan result says of a network's security: \<open>rtw_get_sec_ie\<close> and \<open>rtw_get_wapi_ie\<close>,
  which copy the security elements of a beacon, and \<open>rtw_get_cipher_info\<close> and
  \<open>rtw_get_bcn_info\<close> of \<open>core/rtw_ieee80211.c\<close>. The copying routines step through the copy
  for a trace with a \<open>u8\<close> counter; the theory shows for which elements that loop never ends.
\<close>

unbundle bit_operations_syntax

section \<open>The trace loop\<close>

text \<open>
  \<open>for(i=0;i<n;i=i+8)\<close> with \<open>u8 i\<close>. The body traces eight bytes and is empty in the build
  that \<open>include/autoconf.h\<close> configures. \<open>None\<close> says that the loop does not end.
\<close>

partial_function (option) trace_loop :: "u8 \<Rightarrow> nat \<Rightarrow> unit option" where
  "trace_loop i n = (if unat i < n then trace_loop (i + 8) n else Some ())"

lemma unat_add_8: "unat (i :: u8) \<le> 240 \<Longrightarrow> unat (i + 8) = unat i + 8"
  using unat_add_lem [of i 8] by simp

lemma multiple_of_8: "8 dvd (n :: nat) \<Longrightarrow> n < 256 \<Longrightarrow> n \<le> 248 \<and> (n < 248 \<longrightarrow> n \<le> 240)"
  by presburger

lemma trace_loop_ends:
  assumes "8 dvd unat i" and "n \<le> 248"
  shows "trace_loop i n = Some ()"
  using assms
proof (induction "256 - unat i" arbitrary: i rule: less_induct)
  case less
  show ?case
  proof (cases "unat i < n")
    case True
    then have "unat i < 248" using less.prems by simp
    then have le: "unat i \<le> 240" using multiple_of_8 [OF less.prems(1)] by simp
    have "trace_loop (i + 8) n = Some ()"
      by (rule less.hyps) (use le unat_add_8 [OF le] less.prems in \<open>simp_all add: dvd_add_left_iff\<close>)
    then show ?thesis using True by (simp add: trace_loop.simps)
  qed (simp add: trace_loop.simps)
qed

lemma trace_loop_result:
  assumes "trace_loop i n = Some u"
  shows "8 dvd unat i \<longrightarrow> 248 < n \<longrightarrow> False"
proof (rule trace_loop.raw_induct [where P = "\<lambda>i n u. 8 dvd unat i \<longrightarrow> 248 < n \<longrightarrow> False", OF _ assms],
    intro impI)
  fix f i n u
  assume IH: "\<And>i n u. f i n = Some u \<Longrightarrow> 8 dvd unat i \<longrightarrow> 248 < n \<longrightarrow> False"
    and step: "(if unat i < n then f (i + 8) n else Some ()) = Some u"
    and i: "8 dvd unat (i :: u8)" and n: "248 < (n :: nat)"
  have lt: "unat i < 256" by simp
  then have "unat i \<le> 248" using multiple_of_8 [OF i] by simp
  then have rec: "f (i + 8) n = Some u" using step n by (auto split: if_splits)
  have "8 dvd unat (i + 8)"
  proof (cases "unat i \<le> 240")
    case True
    then show ?thesis using unat_add_8 i by (simp add: dvd_add_left_iff)
  next
    case False
    then have "unat i = 248" using multiple_of_8 [OF i lt] by linarith
    then have "i = 248" by (simp add: word_unat_eq_iff)
    then show ?thesis by simp
  qed
  then show False using IH [OF rec] n by blast
qed

lemma trace_loop_hangs:
  assumes "8 dvd unat i" and "248 < n"
  shows "trace_loop i n = None"
  using trace_loop_result [of i n] assms by (cases "trace_loop i n") auto

section \<open>Copying the security elements\<close>

text \<open>
  \<open>_rtw_memcpy\<close> of an element of \<open>n\<close> bytes to the caller's buffer and the trace of the copy; the
  trace reads the copy only. The outer \<open>None\<close> says that the code does not return, the inner one
  that it accesses memory outside a buffer.
\<close>

definition copy_traced :: "bytes \<Rightarrow> nat \<Rightarrow> nat \<Rightarrow> bytes option \<Rightarrow> bytes option option option" where
  "copy_traced m a n dst =
     (case dst of
        None \<Rightarrow> Some (Some None)
      | Some d \<Rightarrow>
          (case copy_out m a n (Some d) of
             None \<Rightarrow> Some None
           | Some d' \<Rightarrow> map_option (\<lambda>_. Some d') (trace_loop 0 n)))"

text \<open>The state of the loop: the two buffers with the lengths behind \<open>rsn_len\<close> and \<open>wpa_len\<close>.\<close>

type_synonym sec_out = "bytes option \<times> u16 \<times> bytes option \<times> u16"

function get_sec_ie_loop :: "bytes \<Rightarrow> nat \<Rightarrow> nat \<Rightarrow> nat \<Rightarrow> sec_out \<Rightarrow> sec_out option option" where
  "get_sec_ie_loop m in_ie in_len cnt out =
     (if cnt < in_len then
        (case byte_at m (in_ie + cnt) of None \<Rightarrow> Some None | Some authmode \<Rightarrow>
        (case (if authmode = WPA_IE_ID then rtw_memcmp m (in_ie + cnt + 2) [0x0, 0x50, 0xf2, 0x01] else Some False) of
           None \<Rightarrow> Some None
         | Some is_wpa \<Rightarrow>
        (case byte_at m (in_ie + cnt + 1) of None \<Rightarrow> Some None | Some l \<Rightarrow>
        (let n = unat l + 2; (rsn_ie, rsn_len, wpa_ie, wpa_len) = out in
         if is_wpa then
           (case copy_traced m (in_ie + cnt) n wpa_ie of
              None \<Rightarrow> None
            | Some None \<Rightarrow> Some None
            | Some (Some wpa_ie) \<Rightarrow> get_sec_ie_loop m in_ie in_len (cnt + n) (rsn_ie, rsn_len, wpa_ie, of_nat n))
         else if authmode = WPA2_IE_ID then
           (case copy_traced m (in_ie + cnt) n rsn_ie of
              None \<Rightarrow> None
            | Some None \<Rightarrow> Some None
            | Some (Some rsn_ie) \<Rightarrow> get_sec_ie_loop m in_ie in_len (cnt + n) (rsn_ie, of_nat n, wpa_ie, wpa_len))
         else get_sec_ie_loop m in_ie in_len (cnt + n) out))))
      else Some (Some out))"
  by pat_completeness auto
termination by (relation "measure (\<lambda>(m, in_ie, in_len, cnt, out). in_len - cnt)") auto

declare get_sec_ie_loop.simps [simp del]

definition rtw_get_sec_ie :: "bytes \<Rightarrow> nat \<Rightarrow> u32 \<Rightarrow> sec_out \<Rightarrow> (int \<times> sec_out) option option" where
  "rtw_get_sec_ie m in_ie in_len out =
     map_option (map_option (\<lambda>out. case out of (rsn_ie, rsn_len, wpa_ie, wpa_len) \<Rightarrow>
       (uint rsn_len + uint wpa_len, out))) (get_sec_ie_loop m in_ie (unat in_len) 12 out)"

definition WAPI_IE :: u8 where "WAPI_IE = 68"

function get_wapi_ie_loop ::
    "bytes \<Rightarrow> nat \<Rightarrow> nat \<Rightarrow> nat \<Rightarrow> bytes option \<Rightarrow> u16 \<Rightarrow> (bytes option \<times> u16) option option" where
  "get_wapi_ie_loop m in_ie in_len cnt wapi_ie wapi_len =
     (if cnt < in_len then
        (case byte_at m (in_ie + cnt) of None \<Rightarrow> Some None | Some authmode \<Rightarrow>
        (case (if authmode = WAPI_IE then
                 map_option (\<lambda>d. d = [0x0, 0x14, 0x72, 0x01] \<or> d = [0x0, 0x14, 0x72, 0x02])
                   (mem_rd m (in_ie + cnt + 6) 4)
               else Some False) of
           None \<Rightarrow> Some None
         | Some is_wapi \<Rightarrow>
        (case byte_at m (in_ie + cnt + 1) of None \<Rightarrow> Some None | Some l \<Rightarrow>
         if is_wapi then
           (case copy_traced m (in_ie + cnt) (unat l + 2) wapi_ie of
              None \<Rightarrow> None
            | Some None \<Rightarrow> Some None
            | Some (Some wapi_ie) \<Rightarrow>
                get_wapi_ie_loop m in_ie in_len (cnt + (unat l + 2)) wapi_ie (of_nat (unat l + 2)))
         else get_wapi_ie_loop m in_ie in_len (cnt + (unat l + 2)) wapi_ie wapi_len)))
      else Some (Some (wapi_ie, wapi_len)))"
  by pat_completeness auto
termination by (relation "measure (\<lambda>(m, in_ie, in_len, cnt, wapi_ie, wapi_len). in_len - cnt)") auto

declare get_wapi_ie_loop.simps [simp del]

text \<open>
  \<open>has_len\<close> says that the caller passes a \<open>wapi_len\<close>; the results are the return value, the
  caller's buffer and \<open>*wapi_len\<close>.
\<close>

definition rtw_get_wapi_ie ::
    "bytes \<Rightarrow> nat option \<Rightarrow> u32 \<Rightarrow> bytes option \<Rightarrow> bool \<Rightarrow> (int \<times> bytes option \<times> u16) option option" where
  "rtw_get_wapi_ie m in_ie in_len wapi_ie has_len =
     (case in_ie of
        None \<Rightarrow> Some (Some (0, wapi_ie, 0))
      | Some p \<Rightarrow>
          if in_len \<le> 0 then Some (Some (0, wapi_ie, 0))
          else map_option (map_option (\<lambda>(ie, n). (if has_len then uint n else 0, ie, n)))
                 (get_wapi_ie_loop m p (unat in_len) 12 wapi_ie 0))"

section \<open>A network of the scan list\<close>

record wlan_network =
  network :: WLAN_BSSID_EX
  encryp_protocol :: u8
  group_cipher :: int
  pairwise_cipher :: int
  is_8021x :: int
  ht_cap_info :: u16
  ht_info_infos_0 :: u8

text \<open>
  \<open>rtw_get_cipher_info\<close>. The length argument of the searches is \<open>IELength - 12\<close> in \<open>ULONG\<close>,
  passed as \<open>int\<close>.
\<close>

definition store_ciphers :: "bool \<times> int \<times> int \<times> int option \<Rightarrow> wlan_network \<Rightarrow> bool \<times> wlan_network" where
  "store_ciphers r n =
     (case r of (ok, gc, pc, x) \<Rightarrow>
        if ok then (True, n\<lparr>pairwise_cipher := pc, group_cipher := gc, is_8021x := the x\<rparr>) else (False, n))"

definition rtw_get_cipher_info :: "wlan_network \<Rightarrow> (bool \<times> wlan_network) option" where
  "rtw_get_cipher_info n =
     (let ies = IEs (network n); limit = sint (IELength (network n) - 12) in
      case rtw_get_wpa_ie ies 12 limit of
        None \<Rightarrow> None
      | Some (wpa_ielen, pbuf) \<Rightarrow>
          if pbuf \<noteq> None \<and> wpa_ielen > 0
          then map_option (\<lambda>r. store_ciphers r n)
                 (rtw_parse_wpa_ie ies (the pbuf) (wpa_ielen + 2) 0 0 (Some 0))
          else
            (case rtw_get_wpa2_ie ies 12 0 limit of
               None \<Rightarrow> None
             | Some (ielen, pbuf) \<Rightarrow>
                 if pbuf \<noteq> None \<and> ielen > 0
                 then map_option (\<lambda>r. store_ciphers r n)
                        (rtw_parse_wpa2_ie ies (the pbuf) (ielen + 2) 0 0 (Some 0))
                 else Some (False, n)))"

definition ENCRYP_PROTOCOL_OPENSYS :: u8 where "ENCRYP_PROTOCOL_OPENSYS = 0"
definition ENCRYP_PROTOCOL_WEP :: u8 where "ENCRYP_PROTOCOL_WEP = 1"
definition ENCRYP_PROTOCOL_WPA :: u8 where "ENCRYP_PROTOCOL_WPA = 2"
definition ENCRYP_PROTOCOL_WPA2 :: u8 where "ENCRYP_PROTOCOL_WPA2 = 3"

text \<open>The last part of \<open>rtw_get_bcn_info\<close>: what the HT elements say.\<close>

definition get_bcn_ht :: "wlan_network \<Rightarrow> wlan_network option" where
  "get_bcn_ht n =
     (let ies = IEs (network n); limit = sint (IELength (network n) - 12) in do {
        (len, p) \<leftarrow> rtw_get_ie ies 12 45 0 limit;
        cap \<leftarrow> (case p of Some p \<Rightarrow> if len > 0 then RTW_GET_LE16 ies (p + 2) else Some 0 | None \<Rightarrow> Some 0);
        (len, p) \<leftarrow> rtw_get_ie ies 12 61 0 limit;
        info \<leftarrow> (case p of Some p \<Rightarrow> if len > 0 then byte_at ies (p + 3) else Some 0 | None \<Rightarrow> Some 0);
        Some (n\<lparr>ht_cap_info := cap, ht_info_infos_0 := info\<rparr>) })"

text \<open>\<open>rtw_get_bcn_info\<close>; \<open>rtw_get_capability_from_ie\<close> is the offset 10.\<close>

definition rtw_get_bcn_info :: "wlan_network \<Rightarrow> wlan_network option option" where
  "rtw_get_bcn_info n =
     (case RTW_GET_LE16 (IEs (network n)) 10 of
        None \<Rightarrow> Some None
      | Some cap \<Rightarrow>
          (let bencrypt = cap AND 0x10 \<noteq> 0;
               n = (if bencrypt then n\<lparr>network := (network n)\<lparr>Privacy := 1\<rparr>\<rparr>
                    else n\<lparr>encryp_protocol := ENCRYP_PROTOCOL_OPENSYS\<rparr>) in
           case rtw_get_sec_ie (IEs (network n)) 0 (IELength (network n)) (None, 0, None, 0) of
             None \<Rightarrow> None
           | Some None \<Rightarrow> Some None
           | Some (Some (_, _, rsn_len, _, wpa_len)) \<Rightarrow>
               (let n = (if rsn_len > 0 then n\<lparr>encryp_protocol := ENCRYP_PROTOCOL_WPA2\<rparr>
                         else if wpa_len > 0 then n\<lparr>encryp_protocol := ENCRYP_PROTOCOL_WPA\<rparr>
                         else if bencrypt then n\<lparr>encryp_protocol := ENCRYP_PROTOCOL_WEP\<rparr>
                         else n) in
                Some (do { (_, n) \<leftarrow> rtw_get_cipher_info n; get_bcn_ht n }))))"

section \<open>Which beacons stop the scan result\<close>

text \<open>The elements \<open>rtw_get_sec_ie\<close> copies.\<close>

definition is_sec_elem :: "elem \<Rightarrow> bool" where
  "is_sec_elem e \<longleftrightarrow> elem_match WPA_IE_ID (Some [0x0, 0x50, 0xf2, 0x01]) e \<or> fst e = WPA2_IE_ID"

lemma copy_traced_enc:
  assumes "length (snd e) + 2 \<le> length d"
  shows "copy_traced (pre @ ies_enc (e # es) @ post) (length pre) (length (snd e) + 2) (Some d) =
    (if length (snd e) \<le> 246
     then Some (Some (Some (ies_enc [e] @ drop (length (snd e) + 2) d))) else None)"
proof -
  have "copy_out (pre @ ies_enc (e # es) @ post) (length pre) (length (snd e) + 2) (Some d) =
      Some (Some (ies_enc [e] @ drop (length (snd e) + 2) d))"
    using ie.whole_here [where e = e and pre = pre and es = es and post = post] assms
    by (simp add: copy_out_def mem_wr_def ie.enc_length)
  moreover have "trace_loop 0 (length (snd e) + 2) = (if length (snd e) \<le> 246 then Some () else None)"
    using trace_loop_ends [of 0 "length (snd e) + 2"] trace_loop_hangs [of 0 "length (snd e) + 2"] by simp
  ultimately show ?thesis by (simp add: copy_traced_def)
qed

lemma get_sec_ie_loop_enc:
  assumes "ies_ok es" and "\<forall>e \<in> set es. oui_fits WPA_IE_ID (Some [0x0, 0x50, 0xf2, 0x01]) e"
    and "length pre = in_ie + cnt" and "in_len = cnt + length (ies_enc es)"
    and "257 \<le> length r" and "257 \<le> length w"
  shows "if \<exists>e \<in> set es. is_sec_elem e \<and> 246 < length (snd e)
         then get_sec_ie_loop (pre @ ies_enc es @ post) in_ie in_len cnt (Some r, rl, Some w, wl) = None
         else \<exists>out. get_sec_ie_loop (pre @ ies_enc es @ post) in_ie in_len cnt (Some r, rl, Some w, wl) = Some (Some out)"
  using assms
proof (induction es arbitrary: pre cnt r rl w wl)
  case Nil
  then show ?case by (simp add: get_sec_ie_loop.simps ie.enc_Nil)
next
  case (Cons e es)
  let ?m = "pre @ ies_enc (e # es) @ post" and ?c = "cnt + (length (snd e) + 2)"
  let ?copy = "\<lambda>d. ies_enc [e] @ drop (length (snd e) + 2) d"
  have e: "length (snd e) < 256" using Cons.prems(1) by simp
  obtain l where l: "byte_at ?m (Suc (length pre)) = Some l" and ln: "unat l = length (snd e)"
    by (rule ie_len_here [OF e])
  have b: "byte_at ?m (length pre) = Some (fst e)" by (rule ie.id_here)
  have wpa: "(if fst e = WPA_IE_ID then rtw_memcmp ?m (length pre + 2) [0x0, 0x50, 0xf2, 0x01] else Some False) =
      Some (elem_match WPA_IE_ID (Some [0x0, 0x50, 0xf2, 0x01]) e)"
    using oui_test_here [of WPA_IE_ID "Some [0x0, 0x50, 0xf2, 0x01]" e pre es post] Cons.prems(2)
    by (auto split: if_splits)
  have at: "in_ie + cnt = length pre" using Cons.prems by simp
  have cnt: "cnt < in_len" using Cons.prems(4) by (simp add: ie.enc_length)
  have rec: "if \<exists>e \<in> set es. is_sec_elem e \<and> 246 < length (snd e)
         then get_sec_ie_loop ?m in_ie in_len ?c (Some r', rl', Some w', wl') = None
         else \<exists>out. get_sec_ie_loop ?m in_ie in_len ?c (Some r', rl', Some w', wl') = Some (Some out)"
    if "257 \<le> length r'" "257 \<le> length w'" for r' rl' w' wl'
    unfolding ie.step_over(1) [of pre e es post]
    by (rule Cons.IH) (use Cons.prems that in \<open>simp_all add: ie.enc_length\<close>)
  have copy: "257 \<le> length d \<Longrightarrow> copy_traced ?m (length pre) (length (snd e) + 2) (Some d) =
      (if length (snd e) \<le> 246 then Some (Some (Some (?copy d))) else None)" for d
    by (rule copy_traced_enc) (use e in simp)
  have cl: "257 \<le> length d \<Longrightarrow> 257 \<le> length (?copy d)" for d
    using e by (simp add: ie.enc_length)
  have unfold: "get_sec_ie_loop ?m in_ie in_len cnt (Some r, rl, Some w, wl) =
    (if elem_match WPA_IE_ID (Some [0x0, 0x50, 0xf2, 0x01]) e then
       if length (snd e) \<le> 246
       then get_sec_ie_loop ?m in_ie in_len ?c (Some r, rl, Some (?copy w), of_nat (length (snd e) + 2)) else None
     else if fst e = WPA2_IE_ID then
       if length (snd e) \<le> 246
       then get_sec_ie_loop ?m in_ie in_len ?c (Some (?copy r), of_nat (length (snd e) + 2), Some w, wl) else None
     else get_sec_ie_loop ?m in_ie in_len ?c (Some r, rl, Some w, wl))"
    by (subst get_sec_ie_loop.simps, cases "length (snd e) \<le> 246")
      (simp_all only: cnt at b wpa l ln option.case if_True if_False Let_def prod.case Suc_eq_plus1 [symmetric]
        copy [OF Cons.prems(5)] copy [OF Cons.prems(6)])
  show ?case
    unfolding unfold
    using rec [OF Cons.prems(5,6), of rl wl]
      rec [OF Cons.prems(5) cl [OF Cons.prems(6)], of rl "of_nat (length (snd e) + 2)"]
      rec [OF cl [OF Cons.prems(5)] Cons.prems(6), of "of_nat (length (snd e) + 2)" wl]
    by (auto simp: is_sec_elem_def split: if_splits)
qed

text \<open>
  C27: with buffers for the copies, \<open>rtw_get_sec_ie\<close> returns on every beacon but those with a WPA
  or RSN element of 247 bytes or more, on which it never returns.
\<close>

theorem sec_ie_returns_iff:
  assumes "ies_ok es" and "\<forall>e \<in> set es. oui_fits WPA_IE_ID (Some [0x0, 0x50, 0xf2, 0x01]) e"
    and "length fixed = 12" and "12 + length (ies_enc es) < 2 ^ 32"
    and "257 \<le> length r" and "257 \<le> length w"
  shows "(rtw_get_sec_ie (fixed @ ies_enc es @ post) 0 (of_nat (12 + length (ies_enc es))) (Some r, rl, Some w, wl) = None) =
         (\<exists>e \<in> set es. is_sec_elem e \<and> 246 < length (snd e))"
proof -
  have n: "unat (of_nat (12 + length (ies_enc es)) :: u32) = 12 + length (ies_enc es)"
    by (rule unat_of_nat_small) (rule assms(4))
  show ?thesis
    unfolding rtw_get_sec_ie_def n
    using get_sec_ie_loop_enc [OF assms(1,2), of fixed 0 12 "12 + length (ies_enc es)" r w post rl wl] assms(3,5,6)
    by (simp split: if_splits) auto
qed

lemma sec_ie_returns_iff_witness:
  "rtw_get_sec_ie (replicate 12 0 @ ies_enc [(0, [65]), (0x30, replicate 247 0)] @ []) 0
     (of_nat (12 + length (ies_enc [(0, [65]), (0x30, replicate 247 0)])))
     (Some (replicate 257 0), 0, Some (replicate 257 0), 0) = None"
  using sec_ie_returns_iff [where es = "[(0, [65]), (0x30, replicate 247 0)]" and fixed = "replicate 12 0"
      and r = "replicate 257 0" and w = "replicate 257 0" and post = "[]" and rl = 0 and wl = 0]
  by (simp add: oui_fits_def is_sec_elem_def WPA2_IE_ID_def WPA_IE_ID_def ie.enc_length)

end
