(* ===== verification/Ie_Vendor.thy ===== *)
theory Ie_Vendor
  imports Ie_List
begin

text \<open>
  The vendor elements of Wi-Fi Protected Setup, Wi-Fi Direct (P2P) and Wi-Fi Display (WFD) and the
  attributes inside them: searching, copying, merging and deleting (\<open>core/rtw_ieee80211.c\<close>). The
  length of an attribute is added up in 16 bits; the theory shows what the search returns on
  attributes that are shorter, and that one of 65533 bytes (65532 for WPS) stops it for ever.
\<close>

unbundle bit_operations_syntax

section \<open>Searching for a vendor element\<close>

definition WLAN_EID_VENDOR_SPECIFIC :: u8 where "WLAN_EID_VENDOR_SPECIFIC = 221"
definition MAX_IE_SZ :: nat where "MAX_IE_SZ = 768"
definition wps_oui :: bytes where "wps_oui = [0x00, 0x50, 0xf2, 0x04]"
definition p2p_oui :: bytes where "p2p_oui = [0x50, 0x6F, 0x9A, 0x09]"
definition wfd_oui :: bytes where "wfd_oui = [0x50, 0x6F, 0x9A, 0x0A]"

type_synonym found = "nat option \<times> u32 \<times> bytes option"

text \<open>
  The loop shared by the three searches: pointer, length of the element and the caller's buffer.
\<close>

function oui_ie_loop :: "bytes \<Rightarrow> nat \<Rightarrow> nat \<Rightarrow> bytes \<Rightarrow> bytes option \<Rightarrow> nat \<Rightarrow> found option" where
  "oui_ie_loop m in_ie in_len oui dst cnt =
     (if cnt + 1 + 4 < in_len then
        (case byte_at m (in_ie + cnt) of None \<Rightarrow> None | Some eid \<Rightarrow>
         if cnt + 1 + 4 \<ge> MAX_IE_SZ then Some (None, 0, dst)
         else
           (case (if eid = WLAN_EID_VENDOR_SPECIFIC then rtw_memcmp m (in_ie + cnt + 2) oui else Some False) of
              None \<Rightarrow> None
            | Some hit \<Rightarrow>
                (case byte_at m (in_ie + cnt + 1) of None \<Rightarrow> None | Some l \<Rightarrow>
                 if hit then map_option (\<lambda>dst. (Some (in_ie + cnt), ucast l + 2, dst))
                               (copy_out m (in_ie + cnt) (unat l + 2) dst)
                 else oui_ie_loop m in_ie in_len oui dst (cnt + (unat l + 2)))))
      else Some (None, 0, dst))"
  by pat_completeness auto
termination by (relation "measure (\<lambda>(m, in_ie, in_len, oui, dst, cnt). in_len - cnt)") auto

declare oui_ie_loop.simps [simp del]

definition rtw_get_wps_ie :: "bytes \<Rightarrow> nat option \<Rightarrow> u32 \<Rightarrow> bytes option \<Rightarrow> found option" where
  "rtw_get_wps_ie m in_ie in_len wps_ie =
     (case in_ie of
        None \<Rightarrow> Some (None, 0, wps_ie)
      | Some p \<Rightarrow> if in_len \<le> 0 then Some (None, 0, wps_ie) else oui_ie_loop m p (unat in_len) wps_oui wps_ie 0)"

definition rtw_get_p2p_ie :: "bytes \<Rightarrow> nat option \<Rightarrow> int \<Rightarrow> bytes option \<Rightarrow> found option" where
  "rtw_get_p2p_ie m in_ie in_len p2p_ie =
     (case in_ie of
        None \<Rightarrow> Some (None, 0, p2p_ie)
      | Some p \<Rightarrow> if in_len \<le> 0 then Some (None, 0, p2p_ie) else oui_ie_loop m p (nat in_len) p2p_oui p2p_ie 0)"

definition rtw_get_wfd_ie :: "bytes \<Rightarrow> nat option \<Rightarrow> int \<Rightarrow> bytes option \<Rightarrow> found option" where
  "rtw_get_wfd_ie m in_ie in_len wfd_ie =
     (case in_ie of
        None \<Rightarrow> Some (None, 0, wfd_ie)
      | Some p \<Rightarrow> if in_len \<le> 0 then Some (None, 0, wfd_ie) else oui_ie_loop m p (nat in_len) wfd_oui wfd_ie 0)"

text \<open>The match and \<open>*wps_ielen\<close>, which keeps its value when there is none.\<close>

definition rtw_is_wps_ie :: "bytes \<Rightarrow> nat option \<Rightarrow> u32 \<Rightarrow> (bool \<times> u32) option" where
  "rtw_is_wps_ie m ie_ptr wps_ielen =
     (case ie_ptr of
        None \<Rightarrow> Some (False, wps_ielen)
      | Some p \<Rightarrow> do {
          eid \<leftarrow> byte_at m p;
          hit \<leftarrow> (if eid = 0xdd then rtw_memcmp m (p + 2) wps_oui else Some False);
          if hit then do { l \<leftarrow> byte_at m (p + 1); Some (True, ucast l + 2) } else Some (False, wps_ielen) })"

text \<open>
  Frame types 1 and 3 are beacon and probe response, with 12 fixed bytes; 2 is the probe request.
  \<open>in_len\<close> is unsigned, so that a body shorter than the fixed part has a length of almost 4 GB.
\<close>

definition rtw_get_wps_ie_from_scan_queue ::
    "bytes \<Rightarrow> nat \<Rightarrow> u32 \<Rightarrow> bytes option \<Rightarrow> u32 \<Rightarrow> u8 \<Rightarrow> found option" where
  "rtw_get_wps_ie_from_scan_queue m in_ie in_len wps_ie wps_ielen frame_type =
     (if frame_type = 1 \<or> frame_type = 3 then rtw_get_wps_ie m (Some (in_ie + 12)) (in_len - 12) wps_ie
      else if frame_type = 2 then rtw_get_wps_ie m (Some (in_ie + 0)) (in_len - 0) wps_ie
      else Some (None, wps_ielen, wps_ie))"

section \<open>Searching for an attribute\<close>

text \<open>
  The loops add the 16-bit length to the pointer. The outer \<open>None\<close> says that a loop does not
  return, the inner one that it accesses memory outside a buffer.
\<close>

partial_function (option) wps_attr_loop ::
    "bytes \<Rightarrow> nat \<Rightarrow> u32 \<Rightarrow> u16 \<Rightarrow> bytes option \<Rightarrow> nat \<Rightarrow> found option option" where
  "wps_attr_loop m wps_ie wps_ielen target dst attr_ptr =
     (if attr_ptr - wps_ie < unat wps_ielen then
        (case RTW_GET_BE16 m attr_ptr of None \<Rightarrow> Some None | Some attr_id \<Rightarrow>
        (case RTW_GET_BE16 m (attr_ptr + 2) of None \<Rightarrow> Some None | Some attr_data_len \<Rightarrow>
         if attr_id = target then
           Some (map_option (\<lambda>dst. (Some attr_ptr, ucast (attr_data_len + 4), dst))
             (copy_out m attr_ptr (unat (attr_data_len + 4)) dst))
         else wps_attr_loop m wps_ie wps_ielen target dst (attr_ptr + unat (attr_data_len + 4))))
      else Some (Some (None, 0, dst)))"

definition rtw_get_wps_attr :: "bytes \<Rightarrow> nat \<Rightarrow> u32 \<Rightarrow> u16 \<Rightarrow> bytes option \<Rightarrow> found option option" where
  "rtw_get_wps_attr m wps_ie wps_ielen target buf_attr =
     (case byte_at m wps_ie of None \<Rightarrow> Some None | Some eid \<Rightarrow>
      if eid \<noteq> WLAN_EID_VENDOR_SPECIFIC then Some (Some (None, 0, buf_attr))
      else
        (case rtw_memcmp m (wps_ie + 2) wps_oui of None \<Rightarrow> Some None | Some same \<Rightarrow>
         if \<not> same then Some (Some (None, 0, buf_attr))
         else wps_attr_loop m wps_ie wps_ielen target buf_attr (wps_ie + 6)))"

text \<open>
  The content of an attribute behind its header of \<open>h\<close> bytes: what \<open>rtw_get_wps_attr_content\<close>,
  \<open>rtw_get_p2p_attr_content\<close> and \<open>rtw_get_wfd_attr_content\<close> do with the attribute found.
\<close>

definition attr_content :: "bytes \<Rightarrow> nat \<Rightarrow> found option option \<Rightarrow> bytes option \<Rightarrow> found option option" where
  "attr_content m h r buf_content =
     (case r of
        None \<Rightarrow> None
      | Some None \<Rightarrow> Some None
      | Some (Some (attr_ptr, attr_len, _)) \<Rightarrow>
          (case attr_ptr of
             None \<Rightarrow> Some (Some (None, 0, buf_content))
           | Some p \<Rightarrow>
               if attr_len = 0 then Some (Some (None, 0, buf_content))
               else Some (map_option (\<lambda>dst. (Some (p + h), attr_len - of_nat h, dst))
                      (copy_out m (p + h) (unat (attr_len - of_nat h)) buf_content))))"

definition rtw_get_wps_attr_content :: "bytes \<Rightarrow> nat \<Rightarrow> u32 \<Rightarrow> u16 \<Rightarrow> bytes option \<Rightarrow> found option option" where
  "rtw_get_wps_attr_content m wps_ie wps_ielen target buf_content =
     attr_content m 4 (rtw_get_wps_attr m wps_ie wps_ielen target None) buf_content"

text \<open>
  P2P and WFD attributes have the same layout but for the byte order of their length.
\<close>

partial_function (option) p2p_attr_loop ::
    "(bytes \<Rightarrow> nat \<Rightarrow> u16 option) \<Rightarrow> bytes \<Rightarrow> nat \<Rightarrow> u32 \<Rightarrow> u8 \<Rightarrow> bytes option \<Rightarrow> nat \<Rightarrow> found option option" where
  "p2p_attr_loop get16 m ie ielen target dst attr_ptr =
     (if attr_ptr - ie + 3 \<le> unat ielen then
        (case byte_at m attr_ptr of None \<Rightarrow> Some None | Some attr_id \<Rightarrow>
        (case get16 m (attr_ptr + 1) of None \<Rightarrow> Some None | Some attr_data_len \<Rightarrow>
         if attr_ptr - ie + unat (attr_data_len + 3) > unat ielen then Some (Some (None, 0, dst))
         else if attr_id = target then
           Some (map_option (\<lambda>dst. (Some attr_ptr, ucast (attr_data_len + 3), dst))
             (copy_out m attr_ptr (unat (attr_data_len + 3)) dst))
         else p2p_attr_loop get16 m ie ielen target dst (attr_ptr + unat (attr_data_len + 3))))
      else Some (Some (None, 0, dst)))"

definition get_p2p_like_attr ::
    "(bytes \<Rightarrow> nat \<Rightarrow> u16 option) \<Rightarrow> bytes \<Rightarrow> bytes \<Rightarrow> nat option \<Rightarrow> u32 \<Rightarrow> u8 \<Rightarrow> bytes option \<Rightarrow> found option option" where
  "get_p2p_like_attr get16 oui m ie ielen target buf_attr =
     (case ie of
        None \<Rightarrow> Some (Some (None, 0, buf_attr))
      | Some p \<Rightarrow>
          if ielen \<le> 6 then Some (Some (None, 0, buf_attr))
          else
            (case byte_at m p of None \<Rightarrow> Some None | Some eid \<Rightarrow>
             if eid \<noteq> WLAN_EID_VENDOR_SPECIFIC then Some (Some (None, 0, buf_attr))
             else
               (case rtw_memcmp m (p + 2) oui of None \<Rightarrow> Some None | Some same \<Rightarrow>
                if \<not> same then Some (Some (None, 0, buf_attr))
                else p2p_attr_loop get16 m p ielen target buf_attr (p + 6))))"

definition rtw_get_p2p_attr :: "bytes \<Rightarrow> nat option \<Rightarrow> u32 \<Rightarrow> u8 \<Rightarrow> bytes option \<Rightarrow> found option option" where
  "rtw_get_p2p_attr = get_p2p_like_attr RTW_GET_LE16 p2p_oui"

definition rtw_get_wfd_attr :: "bytes \<Rightarrow> nat option \<Rightarrow> u32 \<Rightarrow> u8 \<Rightarrow> bytes option \<Rightarrow> found option option" where
  "rtw_get_wfd_attr = get_p2p_like_attr RTW_GET_BE16 wfd_oui"

definition rtw_get_p2p_attr_content :: "bytes \<Rightarrow> nat option \<Rightarrow> u32 \<Rightarrow> u8 \<Rightarrow> bytes option \<Rightarrow> found option option" where
  "rtw_get_p2p_attr_content m p2p_ie p2p_ielen target buf_content =
     attr_content m 3 (rtw_get_p2p_attr m p2p_ie p2p_ielen target None) buf_content"

definition rtw_get_wfd_attr_content :: "bytes \<Rightarrow> nat option \<Rightarrow> u32 \<Rightarrow> u8 \<Rightarrow> bytes option \<Rightarrow> found option option" where
  "rtw_get_wfd_attr_content m wfd_ie wfd_ielen target buf_content =
     attr_content m 3 (rtw_get_wfd_attr m wfd_ie wfd_ielen target None) buf_content"

section \<open>Building and merging\<close>

definition rtw_set_p2p_attr_content :: "bytes \<Rightarrow> nat \<Rightarrow> u8 \<Rightarrow> u16 \<Rightarrow> bytes option \<Rightarrow> (u32 \<times> bytes) option" where
  "rtw_set_p2p_attr_content m pbuf attr_id attr_len pdata_attr = do {
     m \<leftarrow> mem_wr m pbuf [attr_id];
     m \<leftarrow> mem_wr m (pbuf + 1) (RTW_PUT_LE16 attr_len);
     m \<leftarrow> (case pdata_attr of
            None \<Rightarrow> Some m
          | Some src \<Rightarrow> do { d \<leftarrow> mem_rd src 0 (unat attr_len); mem_wr m (pbuf + 3) d });
     Some (ucast attr_len + 3, m) }"

text \<open>
  The length of the merged element is summed up in \<open>int\<close>, that of the copy in \<open>u8\<close>. The length
  of a matching element may be below 4, which is then negative; as the size of a copy it is huge.
\<close>

function merged_ies_len_loop :: "bytes \<Rightarrow> nat \<Rightarrow> nat \<Rightarrow> nat \<Rightarrow> int \<Rightarrow> int option" where
  "merged_ies_len_loop m in_ie in_len i len =
     (if i < in_len then
        (case byte_at m (in_ie + i) of None \<Rightarrow> None | Some eid \<Rightarrow>
        (case (if eid = WLAN_EID_VENDOR_SPECIFIC then rtw_memcmp m (in_ie + i + 2) p2p_oui else Some False) of
           None \<Rightarrow> None
         | Some hit \<Rightarrow>
        (case byte_at m (in_ie + i + 1) of None \<Rightarrow> None | Some l \<Rightarrow>
         merged_ies_len_loop m in_ie in_len (i + (unat l + 2)) (if hit then len + (uint l - 4) else len))))
      else Some len)"
  by pat_completeness auto
termination by (relation "measure (\<lambda>(m, in_ie, in_len, i, len). in_len - i)") auto

declare merged_ies_len_loop.simps [simp del]

definition rtw_get_p2p_merged_ies_len :: "bytes \<Rightarrow> nat \<Rightarrow> u32 \<Rightarrow> u32 option" where
  "rtw_get_p2p_merged_ies_len m in_ie in_len =
     map_option (\<lambda>len. word_of_int (len + 4)) (merged_ies_len_loop m in_ie (unat in_len) 0 0)"

function merge_ies_loop :: "bytes \<Rightarrow> nat \<Rightarrow> nat \<Rightarrow> nat \<Rightarrow> bytes \<Rightarrow> nat \<Rightarrow> u8 \<Rightarrow> (bytes \<times> u8) option" where
  "merge_ies_loop m in_ie in_len i dst at len =
     (if i < in_len then
        (case byte_at m (in_ie + i) of None \<Rightarrow> None | Some eid \<Rightarrow>
        (case (if eid = WLAN_EID_VENDOR_SPECIFIC then rtw_memcmp m (in_ie + i + 2) p2p_oui else Some False) of
           None \<Rightarrow> None
         | Some hit \<Rightarrow>
        (case byte_at m (in_ie + i + 1) of None \<Rightarrow> None | Some l \<Rightarrow>
         if \<not> hit then merge_ies_loop m in_ie in_len (i + (unat l + 2)) dst at len
         else
           (case mem_rd m (in_ie + i + 2 + 4) (unat (ucast l - 4 :: u32)) of None \<Rightarrow> None | Some d \<Rightarrow>
           (case mem_wr dst at d of None \<Rightarrow> None | Some dst \<Rightarrow>
            merge_ies_loop m in_ie in_len (i + (unat l + 2)) dst (at + length d) (len + (l - 4)))))))
      else Some (dst, len))"
  by pat_completeness auto
termination by (relation "measure (\<lambda>(m, in_ie, in_len, i, dst, at, len). in_len - i)") auto

declare merge_ies_loop.simps [simp del]

definition rtw_p2p_merge_ies :: "bytes \<Rightarrow> nat \<Rightarrow> u32 \<Rightarrow> bytes option \<Rightarrow> (int \<times> bytes option) option" where
  "rtw_p2p_merge_ies m in_ie in_len merge_ie =
     (case merge_ie of
        None \<Rightarrow> Some (0, None)
      | Some dst \<Rightarrow> do {
          dst \<leftarrow> mem_wr dst 0 [0xDD, 0x00, 0x50, 0x6f, 0x9a, 0x09];
          (dst, len) \<leftarrow> merge_ies_loop m in_ie (unat in_len) 0 dst 6 0;
          Some (uint len + 4, Some dst) })"

section \<open>Deleting\<close>

text \<open>
  One round of the four deletion loops: the bytes behind the target move down and zeros fill the end.
  \<open>e\<close> is the end of the list as pointer arithmetic computes it, in 32 bits for the length.
\<close>

definition cut_out :: "bytes \<Rightarrow> nat \<Rightarrow> u32 \<Rightarrow> u32 \<Rightarrow> bytes option" where
  "cut_out m t n remain_len =
     (case rtw_memmove m t (t + unat n) (unat remain_len) of
        None \<Rightarrow> None
      | Some m \<Rightarrow> mem_wr m (t + unat remain_len) (replicate (unat n) 0))"

partial_function (option) del_ie_loop ::
    "(bytes \<Rightarrow> nat option \<Rightarrow> int \<Rightarrow> bytes option \<Rightarrow> found option) \<Rightarrow> bytes \<Rightarrow> nat \<Rightarrow> u32 \<Rightarrow> (u32 \<times> bytes) option option" where
  "del_ie_loop get m ies ies_len =
     (case get m (Some ies) (sint ies_len) None of
        None \<Rightarrow> Some None
      | Some (target_ie, target_ie_len, _) \<Rightarrow>
          (case target_ie of
             None \<Rightarrow> Some (Some (ies_len, m))
           | Some t \<Rightarrow>
               if target_ie_len = 0 then Some (Some (ies_len, m))
               else
                 (case cut_out m t target_ie_len (ies_len - of_nat (t + unat target_ie_len - ies)) of
                    None \<Rightarrow> Some None
                  | Some m \<Rightarrow> del_ie_loop get m ies (ies_len - target_ie_len))))"

definition rtw_del_p2p_ie :: "bytes \<Rightarrow> nat \<Rightarrow> u32 \<Rightarrow> (u32 \<times> bytes) option option" where
  "rtw_del_p2p_ie = del_ie_loop rtw_get_p2p_ie"

definition rtw_del_wfd_ie :: "bytes \<Rightarrow> nat \<Rightarrow> u32 \<Rightarrow> (u32 \<times> bytes) option option" where
  "rtw_del_wfd_ie = del_ie_loop rtw_get_wfd_ie"

partial_function (option) del_attr_loop ::
    "(bytes \<Rightarrow> nat option \<Rightarrow> u32 \<Rightarrow> u8 \<Rightarrow> bytes option \<Rightarrow> found option option) \<Rightarrow> bytes \<Rightarrow> nat \<Rightarrow> u32 \<Rightarrow> u8 \<Rightarrow>
     (u32 \<times> bytes) option option" where
  "del_attr_loop get m ie ielen attr_id =
     (case get m (Some ie) ielen attr_id None of
        None \<Rightarrow> None
      | Some r \<Rightarrow>
     (case r of
        None \<Rightarrow> Some None
      | Some (target_attr, target_attr_len, _) \<Rightarrow>
          (case target_attr of
             None \<Rightarrow> Some (Some (ielen, m))
           | Some t \<Rightarrow>
               if target_attr_len = 0 then Some (Some (ielen, m))
               else
                 (case cut_out m t target_attr_len (ielen - of_nat (t + unat target_attr_len - ie)) of
                    None \<Rightarrow> Some None
                  | Some m \<Rightarrow>
                 (case byte_at m (ie + 1) of None \<Rightarrow> Some None | Some l \<Rightarrow>
                  del_attr_loop get (m[ie + 1 := l - ucast target_attr_len]) ie
                      (ielen - target_attr_len) attr_id)))))"

definition rtw_del_p2p_attr :: "bytes \<Rightarrow> nat \<Rightarrow> u32 \<Rightarrow> u8 \<Rightarrow> (u32 \<times> bytes) option option" where
  "rtw_del_p2p_attr = del_attr_loop rtw_get_p2p_attr"

definition rtw_del_wfd_attr :: "bytes \<Rightarrow> nat \<Rightarrow> u32 \<Rightarrow> u8 \<Rightarrow> (u32 \<times> bytes) option option" where
  "rtw_del_wfd_attr = del_attr_loop rtw_get_wfd_attr"

section \<open>The elements of a network\<close>

text \<open>A probe request, \<open>Reserved[0] = 2\<close>, has no fixed part.\<close>

definition BSS_EX_TLV_IES :: "WLAN_BSSID_EX \<Rightarrow> nat" where
  "BSS_EX_TLV_IES bss_ex = (if Reserved0 bss_ex = 2 then 0 else 12)"

definition BSS_EX_TLV_IES_LEN :: "WLAN_BSSID_EX \<Rightarrow> u32" where
  "BSS_EX_TLV_IES_LEN bss_ex = IELength bss_ex - of_nat (BSS_EX_TLV_IES bss_ex)"

definition rtw_bss_ex_get_p2p_ie :: "WLAN_BSSID_EX \<Rightarrow> bytes option \<Rightarrow> found option" where
  "rtw_bss_ex_get_p2p_ie bss_ex p2p_ie =
     rtw_get_p2p_ie (IEs bss_ex) (Some (BSS_EX_TLV_IES bss_ex)) (sint (BSS_EX_TLV_IES_LEN bss_ex)) p2p_ie"

definition rtw_bss_ex_get_wfd_ie :: "WLAN_BSSID_EX \<Rightarrow> bytes option \<Rightarrow> found option" where
  "rtw_bss_ex_get_wfd_ie bss_ex wfd_ie =
     rtw_get_wfd_ie (IEs bss_ex) (Some (BSS_EX_TLV_IES bss_ex)) (sint (BSS_EX_TLV_IES_LEN bss_ex)) wfd_ie"

definition bss_ex_del_ie ::
    "(bytes \<Rightarrow> nat \<Rightarrow> u32 \<Rightarrow> (u32 \<times> bytes) option option) \<Rightarrow> WLAN_BSSID_EX \<Rightarrow> WLAN_BSSID_EX option option" where
  "bss_ex_del_ie del bss_ex =
     map_option (map_option (\<lambda>(ies_len, m).
         bss_ex\<lparr>IEs := m, IELength := IELength bss_ex - (BSS_EX_TLV_IES_LEN bss_ex - ies_len)\<rparr>))
       (del (IEs bss_ex) (BSS_EX_TLV_IES bss_ex) (BSS_EX_TLV_IES_LEN bss_ex))"

definition rtw_bss_ex_del_p2p_ie :: "WLAN_BSSID_EX \<Rightarrow> WLAN_BSSID_EX option option" where
  "rtw_bss_ex_del_p2p_ie = bss_ex_del_ie rtw_del_p2p_ie"

definition rtw_bss_ex_del_wfd_ie :: "WLAN_BSSID_EX \<Rightarrow> WLAN_BSSID_EX option option" where
  "rtw_bss_ex_del_wfd_ie = bss_ex_del_ie rtw_del_wfd_ie"

text \<open>
  Deleting an attribute from every P2P or WFD element: \<open>ies\<close> and \<open>ies_len\<close> are the part still
  to be searched.
\<close>

partial_function (option) bss_ex_del_attr_loop ::
    "(bytes \<Rightarrow> nat option \<Rightarrow> int \<Rightarrow> bytes option \<Rightarrow> found option) \<Rightarrow>
     (bytes \<Rightarrow> nat \<Rightarrow> u32 \<Rightarrow> u8 \<Rightarrow> (u32 \<times> bytes) option option) \<Rightarrow>
     WLAN_BSSID_EX \<Rightarrow> nat \<Rightarrow> u32 \<Rightarrow> u8 \<Rightarrow> WLAN_BSSID_EX option option" where
  "bss_ex_del_attr_loop get del bss_ex ies ies_len attr_id =
     (case get (IEs bss_ex) (Some ies) (sint ies_len) None of
        None \<Rightarrow> Some None
      | Some (ie, ie_len_ori, _) \<Rightarrow>
          (case ie of
             None \<Rightarrow> Some (Some bss_ex)
           | Some ie \<Rightarrow>
               (case del (IEs bss_ex) ie ie_len_ori attr_id of
                  None \<Rightarrow> None
                | Some r \<Rightarrow>
               (case r of
                  None \<Rightarrow> Some None
                | Some (ie_len, m) \<Rightarrow>
                    if ie_len \<noteq> ie_len_ori then
                      (case rtw_memmove m (ie + unat ie_len) (ie + unat ie_len_ori)
                              (unat (IELength bss_ex - of_nat (ie + unat ie_len_ori))) of
                         None \<Rightarrow> Some None
                       | Some m \<Rightarrow>
                      (case mem_wr m (ie + unat ie_len + unat (IELength bss_ex - of_nat (ie + unat ie_len_ori)))
                              (replicate (unat (ie_len_ori - ie_len)) 0) of
                         None \<Rightarrow> Some None
                       | Some m \<Rightarrow>
                           bss_ex_del_attr_loop get del
                             (bss_ex\<lparr>IEs := m, IELength := IELength bss_ex - (ie_len_ori - ie_len)\<rparr>)
                             (ie + unat ie_len) (IELength bss_ex - of_nat (ie + unat ie_len_ori)) attr_id))
                    else
                      bss_ex_del_attr_loop get del (bss_ex\<lparr>IEs := m\<rparr>) (ie + unat ie_len_ori)
                        (IELength bss_ex - of_nat (ie + unat ie_len_ori)) attr_id))))"

definition rtw_bss_ex_del_p2p_attr :: "WLAN_BSSID_EX \<Rightarrow> u8 \<Rightarrow> WLAN_BSSID_EX option option" where
  "rtw_bss_ex_del_p2p_attr bss_ex attr_id =
     bss_ex_del_attr_loop rtw_get_p2p_ie rtw_del_p2p_attr bss_ex (BSS_EX_TLV_IES bss_ex) (BSS_EX_TLV_IES_LEN bss_ex) attr_id"

definition rtw_bss_ex_del_wfd_attr :: "WLAN_BSSID_EX \<Rightarrow> u8 \<Rightarrow> WLAN_BSSID_EX option option" where
  "rtw_bss_ex_del_wfd_attr bss_ex attr_id =
     bss_ex_del_attr_loop rtw_get_wfd_ie rtw_del_wfd_attr bss_ex (BSS_EX_TLV_IES bss_ex) (BSS_EX_TLV_IES_LEN bss_ex) attr_id"

section \<open>Attributes as encodings\<close>

definition p2p_hdr :: "u8 \<Rightarrow> nat \<Rightarrow> bytes" where "p2p_hdr i n = i # RTW_PUT_LE16 (of_nat n)"
definition wfd_hdr :: "u8 \<Rightarrow> nat \<Rightarrow> bytes" where "wfd_hdr i n = i # RTW_PUT_BE16 (of_nat n)"
definition wps_hdr :: "u16 \<Rightarrow> nat \<Rightarrow> bytes" where "wps_hdr i n = RTW_PUT_BE16 i @ RTW_PUT_BE16 (of_nat n)"

text \<open>
  The contract the search for a P2P or WFD attribute relies on: a header of three bytes whose length
  is read by \<open>get16\<close>.
\<close>

locale attr_format = tlv_format hdr byte_at "\<lambda>m a. map_option unat (get16 m (a + 1))" 3 "2 ^ 16"
  for hdr :: "u8 \<Rightarrow> nat \<Rightarrow> bytes" and get16 :: "bytes \<Rightarrow> nat \<Rightarrow> u16 option"
begin

lemma loop_here:
  assumes "length (snd e) < 65533" and "a \<le> length pre"
    and "length pre - a + (3 + length (snd e)) \<le> unat ielen"
  shows "p2p_attr_loop get16 (pre @ tlv_enc hdr (e # es) @ post) a ielen target dst (length pre) =
    (if fst e = target then
       Some (map_option (\<lambda>dst. (Some (length pre), of_nat (length (snd e)) + 3, dst))
         (copy_out (pre @ tlv_enc hdr (e # es) @ post) (length pre) (length (snd e) + 3) dst))
     else p2p_attr_loop get16 (pre @ tlv_enc hdr (e # es) @ post) a ielen target dst
            (length pre + (3 + length (snd e))))"
proof -
  obtain v where v: "get16 (pre @ tlv_enc hdr (e # es) @ post) (length pre + 1) = Some v"
    and vn: "unat v = length (snd e)"
    using len_here [of e pre es post] assms(1) by auto
  have w: "unat (v + 3) = length (snd e) + 3"
    using unat_add_lem [of v 3] vn assms(1) by simp
  have u: "(ucast (v + 3) :: u32) = of_nat (length (snd e)) + 3"
    using w by (simp add: unat_ucast_up word_unat_eq_iff unat_of_nat_small [of "length (snd e) + 3", simplified]
        assms(1) less_trans [OF assms(1)])
  have "length pre - a + 3 \<le> unat ielen" "\<not> length pre - a + unat (v + 3) > unat ielen"
    using assms(3) w by linarith+
  then show ?thesis
    by (subst p2p_attr_loop.simps)
      (simp only: id_here v option.case if_True if_False w u add.commute [of 3])
qed

lemma loop_skips:
  assumes "\<forall>e \<in> set es. length (snd e) < 65533 \<and> fst e \<noteq> target" and "a \<le> length pre"
    and "length pre - a + length (tlv_enc hdr es) \<le> unat ielen"
  shows "p2p_attr_loop get16 (pre @ tlv_enc hdr es @ post) a ielen target dst (length pre) =
    p2p_attr_loop get16 (pre @ tlv_enc hdr es @ post) a ielen target dst (length (pre @ tlv_enc hdr es))"
  using assms
proof (induction es arbitrary: pre)
  case Nil
  then show ?case by (simp add: enc_Nil)
next
  case (Cons e es)
  have "p2p_attr_loop get16 (pre @ tlv_enc hdr (e # es) @ post) a ielen target dst (length pre) =
      p2p_attr_loop get16 (pre @ tlv_enc hdr (e # es) @ post) a ielen target dst (length pre + (3 + length (snd e)))"
    by (subst loop_here) (use Cons.prems in \<open>simp_all add: enc_Cons hdr_length\<close>)
  also have "\<dots> = p2p_attr_loop get16 ((pre @ tlv_enc hdr [e]) @ tlv_enc hdr es @ post) a ielen target dst
      (length (pre @ tlv_enc hdr [e]))"
    by (simp only: step_over)
  also have "\<dots> = p2p_attr_loop get16 ((pre @ tlv_enc hdr [e]) @ tlv_enc hdr es @ post) a ielen target dst
      (length ((pre @ tlv_enc hdr [e]) @ tlv_enc hdr es))"
    by (rule Cons.IH) (use Cons.prems in \<open>simp_all add: enc_Cons enc_Nil hdr_length\<close>)
  finally show ?case by (simp only: step_over(1) [symmetric]) (simp add: enc_Cons enc_Nil)
qed

lemma loop_finds:
  assumes "\<forall>e \<in> set es. length (snd e) < 65533" and "a \<le> length pre"
    and "unat ielen = length pre - a + length (tlv_enc hdr es)"
  shows "p2p_attr_loop get16 (pre @ tlv_enc hdr es @ post) a ielen target None (length pre) =
    Some (Some (case tlv_first 3 (\<lambda>e. fst e = target) es (length pre) of
       None \<Rightarrow> (None, 0, None) | Some (p, e) \<Rightarrow> (Some p, of_nat (length (snd e)) + 3, None)))"
proof (cases "tlv_first 3 (\<lambda>e. fst e = target) es (length pre)")
  case None
  then have "\<forall>e \<in> set es. length (snd e) < 65533 \<and> fst e \<noteq> target"
    using assms(1) by (auto simp: tlv_first_None)
  note skip = loop_skips [OF this assms(2)]
  have "\<not> length (pre @ tlv_enc hdr es) - a + 3 \<le> unat ielen"
    using assms(2,3) by simp
  then have "p2p_attr_loop get16 (pre @ tlv_enc hdr es @ post) a ielen target None (length (pre @ tlv_enc hdr es)) =
      Some (Some (None, 0, None))"
    by (subst p2p_attr_loop.simps) (simp only: if_False)
  then show ?thesis using skip [of ielen post None] None assms(3) by simp
next
  case (Some pe)
  then obtain q e where pe: "tlv_first 3 (\<lambda>e. fst e = target) es (length pre) = Some (q, e)"
    by (cases pe) auto
  from tlv_first_Some [OF this] obtain es1 es2 where es: "es = es1 @ e # es2"
    and no: "\<forall>e \<in> set es1. fst e \<noteq> target" and yes: "fst e = target"
    and q: "q = length (pre @ tlv_enc hdr es1)" by (auto simp: enc_length)
  have m: "pre @ tlv_enc hdr es @ post = pre @ tlv_enc hdr es1 @ tlv_enc hdr (e # es2) @ post"
    by (simp add: es enc_append)
  have "p2p_attr_loop get16 (pre @ tlv_enc hdr es @ post) a ielen target None (length pre) =
      p2p_attr_loop get16 (pre @ tlv_enc hdr es @ post) a ielen target None q"
    unfolding m q by (rule loop_skips) (use assms no es in \<open>auto simp: enc_append\<close>)
  also have "\<dots> = Some (Some (Some q, of_nat (length (snd e)) + 3, None))"
    using loop_here [of e a "pre @ tlv_enc hdr es1" ielen es2 post target None] assms es yes
    by (simp add: m q enc_append enc_Cons hdr_length copy_out_def)
  finally show ?thesis using pe by simp
qed

text \<open>A length of 65533 makes the step zero: the loop stays where it is.\<close>

lemma loop_hangs:
  assumes "unat ielen \<ge> length pre - a + 3" and "i \<noteq> target" and "a \<le> length pre"
  shows "p2p_attr_loop get16 (pre @ hdr i 65533 @ post) a ielen target dst (length pre) = None"
proof -
  let ?m = "pre @ hdr i 65533 @ post"
  have b: "byte_at ?m (length pre) = Some i" by (rule rd_id_hdr)
  obtain v where v: "get16 ?m (length pre + 1) = Some v" and vn: "unat v = 65533"
    using rd_len_hdr [of 65533 pre i post] by auto
  have "v = 65533" using vn by (simp add: word_unat_eq_iff)
  then have z: "unat (v + 3) = 0" by simp
  have stays: "m = ?m \<longrightarrow> p = length pre \<longrightarrow> x = a \<longrightarrow> n = ielen \<longrightarrow> t = target \<longrightarrow> g = get16 \<longrightarrow> False"
    if "p2p_attr_loop g m x n t d p = Some r" for g m x n t d p r
  proof (rule p2p_attr_loop.raw_induct [where P = "\<lambda>g m x n t d p r.
      m = ?m \<longrightarrow> p = length pre \<longrightarrow> x = a \<longrightarrow> n = ielen \<longrightarrow> t = target \<longrightarrow> g = get16 \<longrightarrow> False", OF _ that],
      goal_cases)
    case (1 f g m x n t d p r)
    show ?case
    proof (intro impI)
      assume eqs: "m = ?m" "p = length pre" "x = a" "n = ielen" "t = target" "g = get16"
      have "length pre - a + 3 \<le> unat ielen" "\<not> length pre - a + unat (v + 3) > unat ielen"
        using assms(1) z by linarith+
      then have "f get16 ?m a ielen target d (length pre) = Some r"
        using 1(2) assms(2) unfolding eqs by (simp only: b v z option.case if_True if_False add_0_right)
      from 1(1) [OF this] show False by simp
    qed
  qed
  show ?thesis
  proof (cases "p2p_attr_loop get16 ?m a ielen target dst (length pre)")
    case (Some r)
    from stays [OF this] show ?thesis by simp
  qed
qed

end

interpretation p2p: attr_format p2p_hdr RTW_GET_LE16
proof
  fix pre post :: bytes and i n
  show "length (p2p_hdr i n) = 3" by (simp add: p2p_hdr_def RTW_PUT_LE16_def)
  show "byte_at (pre @ p2p_hdr i n @ post) (length pre) = Some i" by (simp add: p2p_hdr_def mem_simps)
  show "map_option unat (RTW_GET_LE16 (pre @ p2p_hdr i n @ post) (length pre + 1)) = Some n" if "n < 2 ^ 16"
    using get_put_LE16 [of "pre @ [i]" "of_nat n" post] that
    by (simp add: p2p_hdr_def unsigned_of_nat take_bit_nat_eq_self)
qed

interpretation wfd: attr_format wfd_hdr RTW_GET_BE16
proof
  fix pre post :: bytes and i n
  show "length (wfd_hdr i n) = 3" by (simp add: wfd_hdr_def RTW_PUT_BE16_def)
  show "byte_at (pre @ wfd_hdr i n @ post) (length pre) = Some i" by (simp add: wfd_hdr_def mem_simps)
  show "map_option unat (RTW_GET_BE16 (pre @ wfd_hdr i n @ post) (length pre + 1)) = Some n" if "n < 2 ^ 16"
    using get_put_BE16 [of "pre @ [i]" "of_nat n" post] that
    by (simp add: wfd_hdr_def unsigned_of_nat take_bit_nat_eq_self)
qed

interpretation wps: tlv_format wps_hdr RTW_GET_BE16 "\<lambda>m a. map_option unat (RTW_GET_BE16 m (a + 2))" 4 "2 ^ 16"
proof
  fix pre post :: bytes and i n
  show "length (wps_hdr i n) = 4" by (simp add: wps_hdr_def RTW_PUT_BE16_def)
  show "RTW_GET_BE16 (pre @ wps_hdr i n @ post) (length pre) = Some i"
    using get_put_BE16 [of pre i] by (simp add: wps_hdr_def)
  show "map_option unat (RTW_GET_BE16 (pre @ wps_hdr i n @ post) (length pre + 2)) = Some n" if "n < 2 ^ 16"
    using get_put_BE16 [of "pre @ RTW_PUT_BE16 i" "of_nat n" post] that
    by (simp add: wps_hdr_def unsigned_of_nat take_bit_nat_eq_self RTW_PUT_BE16_def)
qed

section \<open>What the search for an attribute returns\<close>

lemma p2p_ie_checked:
  assumes "m = pre @ (WLAN_EID_VENDOR_SPECIFIC # l # oui) @ rest" and "length oui = 4" and "6 < unat ielen"
  shows "get_p2p_like_attr get16 oui m (Some (length pre)) ielen target dst =
    p2p_attr_loop get16 ((pre @ WLAN_EID_VENDOR_SPECIFIC # l # oui) @ rest) (length pre) ielen target dst
      (length (pre @ WLAN_EID_VENDOR_SPECIFIC # l # oui))"
proof -
  have b: "byte_at m (length pre) = Some WLAN_EID_VENDOR_SPECIFIC"
    by (simp add: assms(1) mem_simps)
  have "rtw_memcmp m (length pre + 2) oui = Some True"
    using mem_rd_append [of "pre @ [WLAN_EID_VENDOR_SPECIFIC, l]" oui rest]
    by (simp add: assms(1) rtw_memcmp_def)
  moreover have "\<not> ielen \<le> 6" using assms(3) by (simp add: word_le_nat_alt)
  ultimately show ?thesis
    using b assms(1,2) by (simp add: get_p2p_like_attr_def eval_nat_numeral)
qed

text \<open>
  In a P2P element of attributes shorter than 65533 bytes the search finds the first attribute
  of the id, and nothing when there is none.
\<close>

theorem p2p_attr_finds_first:
  assumes "\<forall>e \<in> set es. length (snd e) < 65533" and "es \<noteq> []"
    and "unat ielen = 6 + length (tlv_enc p2p_hdr es)"
  shows "rtw_get_p2p_attr (pre @ (WLAN_EID_VENDOR_SPECIFIC # l # p2p_oui) @ tlv_enc p2p_hdr es @ post)
           (Some (length pre)) ielen target None =
    Some (Some (case tlv_first 3 (\<lambda>e. fst e = target) es (length pre + 6) of
       None \<Rightarrow> (None, 0, None) | Some (p, e) \<Rightarrow> (Some p, of_nat (length (snd e)) + 3, None)))"
proof -
  have "6 < unat ielen" using assms(2,3) by (cases es) (simp_all add: p2p.enc_length)
  moreover have l6: "length (pre @ WLAN_EID_VENDOR_SPECIFIC # l # p2p_oui) = length pre + 6"
    by (simp add: p2p_oui_def)
  moreover have "p2p_attr_loop RTW_GET_LE16 ((pre @ WLAN_EID_VENDOR_SPECIFIC # l # p2p_oui) @ tlv_enc p2p_hdr es @ post)
      (length pre) ielen target None (length (pre @ WLAN_EID_VENDOR_SPECIFIC # l # p2p_oui)) =
    Some (Some (case tlv_first 3 (\<lambda>e. fst e = target) es (length (pre @ WLAN_EID_VENDOR_SPECIFIC # l # p2p_oui)) of
       None \<Rightarrow> (None, 0, None) | Some (p, e) \<Rightarrow> (Some p, of_nat (length (snd e)) + 3, None)))"
    by (rule p2p.loop_finds) (use assms l6 in simp_all)
  ultimately show ?thesis
    unfolding rtw_get_p2p_attr_def by (subst p2p_ie_checked [OF refl]) (simp_all add: p2p_oui_def eval_nat_numeral)
qed

text \<open>
  C28: a P2P element in which an attribute that is not searched for claims 65533 bytes, with nothing
  searched for before it, stops the search for ever, whatever follows.
\<close>

theorem p2p_attr_never_returns:
  assumes "\<forall>e \<in> set es. length (snd e) < 65533 \<and> fst e \<noteq> target" and "i \<noteq> target"
    and "9 + length (tlv_enc p2p_hdr es) \<le> unat ielen"
  shows "rtw_get_p2p_attr (pre @ (WLAN_EID_VENDOR_SPECIFIC # l # p2p_oui) @ tlv_enc p2p_hdr es @ p2p_hdr i 65533 @ post)
           (Some (length pre)) ielen target dst = None"
proof -
  let ?h = "pre @ WLAN_EID_VENDOR_SPECIFIC # l # p2p_oui"
  have l6: "length ?h = length pre + 6" by (simp add: p2p_oui_def)
  have "p2p_attr_loop RTW_GET_LE16 (?h @ tlv_enc p2p_hdr es @ p2p_hdr i 65533 @ post) (length pre) ielen target dst (length ?h) =
      p2p_attr_loop RTW_GET_LE16 ((?h @ tlv_enc p2p_hdr es) @ p2p_hdr i 65533 @ post) (length pre) ielen target dst
        (length (?h @ tlv_enc p2p_hdr es))"
    using p2p.loop_skips [OF assms(1), of "length pre" ?h ielen "p2p_hdr i 65533 @ post" dst] l6 assms(3)
    by (simp add: ac_simps)
  also have "\<dots> = None"
    by (rule p2p.loop_hangs) (use l6 assms in simp_all)
  finally show ?thesis
    unfolding rtw_get_p2p_attr_def
    by (subst p2p_ie_checked [OF refl]) (use assms(3) in \<open>simp_all add: p2p_oui_def\<close>)
qed

lemma p2p_attr_finds_first_witness:
  "rtw_get_p2p_attr ([1] @ (WLAN_EID_VENDOR_SPECIFIC # 12 # p2p_oui) @ tlv_enc p2p_hdr [(2, [5, 6]), (9, [])] @ [7])
     (Some 1) 14 9 None = Some (Some (Some 12, 3, None))"
  using p2p_attr_finds_first [of "[(2, [5, 6]), (9, [])]" 14 "[1]" 12 "[7]" 9]
  by (simp add: p2p.enc_length)

lemma p2p_attr_never_returns_witness:
  "rtw_get_p2p_attr ([] @ (WLAN_EID_VENDOR_SPECIFIC # 9 # p2p_oui) @ tlv_enc p2p_hdr [(2, [5])] @ p2p_hdr 3 65533 @ [])
     (Some 0) 13 9 None = None"
  using p2p_attr_never_returns [of "[(2, [5])]" 9 3 13 "[]" 9 "[]" None]
  by (simp add: p2p.enc_length)

text \<open>The same in a WPS element, with 65532 bytes; and a content length that wraps around.\<close>

lemma wps_attr_never_returns:
  assumes "unat wps_ielen > length pre - a" and "i \<noteq> target" and "a \<le> length pre"
  shows "wps_attr_loop (pre @ wps_hdr i 65532 @ post) a wps_ielen target dst (length pre) = None"
proof -
  let ?m = "pre @ wps_hdr i 65532 @ post"
  have b: "RTW_GET_BE16 ?m (length pre) = Some i" by (rule wps.rd_id_hdr)
  obtain v where v: "RTW_GET_BE16 ?m (length pre + 2) = Some v" and vn: "unat v = 65532"
    using wps.rd_len_hdr [of 65532 pre i post] by auto
  have "v = 65532" using vn by (simp add: word_unat_eq_iff)
  then have z: "unat (v + 4) = 0" by simp
  have stays: "m = ?m \<longrightarrow> p = length pre \<longrightarrow> x = a \<longrightarrow> n = wps_ielen \<longrightarrow> t = target \<longrightarrow> False"
    if "wps_attr_loop m x n t d p = Some r" for m x n t d p r
  proof (rule wps_attr_loop.raw_induct [where P = "\<lambda>m x n t d p r.
      m = ?m \<longrightarrow> p = length pre \<longrightarrow> x = a \<longrightarrow> n = wps_ielen \<longrightarrow> t = target \<longrightarrow> False", OF _ that],
      goal_cases)
    case (1 f m x n t d p r)
    show ?case
    proof (intro impI)
      assume eqs: "m = ?m" "p = length pre" "x = a" "n = wps_ielen" "t = target"
      have "f ?m a wps_ielen target d (length pre) = Some r"
        using 1(2) assms(1,2) unfolding eqs by (simp only: b v z option.case if_True if_False add_0_right)
      from 1(1) [OF this] show False by simp
    qed
  qed
  show ?thesis
  proof (cases "wps_attr_loop ?m a wps_ielen target dst (length pre)")
    case (Some r)
    from stays [OF this] show ?thesis by simp
  qed
qed

lemma p2p_content_length_wraps:
  "rtw_get_p2p_attr_content [221, 7, 0x50, 0x6F, 0x9A, 0x09, 2, 0xFE, 0xFF] (Some 0) 9 2 (Some [0]) = Some None"
  by (simp add: rtw_get_p2p_attr_content_def rtw_get_p2p_attr_def get_p2p_like_attr_def p2p_attr_loop.simps
      byte_at_def rtw_memcmp_def mem_rd_def WLAN_EID_VENDOR_SPECIFIC_def p2p_oui_def RTW_GET_LE16_def
      copy_out_def attr_content_def)

end
