(* ===== verification/Ie_Gen.thy ===== *)
theory Ie_Gen
  imports Ie_List
begin

text \<open>
  Rates, channels and addresses: the routines of \<open>core/rtw_ieee80211.c\<close> on rate sets, the elements
  the driver puts into its own beacon (\<open>rtw_generate_ie\<close>), the channel and bandwidth of a network
  and of a group of networks, headers of frames and the choice of the MAC address.
\<close>

unbundle bit_operations_syntax

section \<open>Rate sets\<close>

text \<open>A rate set is an array that ends with 0; a loop that runs out of it is \<open>None\<close>.\<close>

definition dot11_rate_table :: "u8 list" where
  "dot11_rate_table = [2, 4, 11, 22, 12, 18, 24, 36, 48, 72, 96, 108]"

fun bit_value_loop :: "u8 list \<Rightarrow> u8 \<Rightarrow> nat \<Rightarrow> int" where
  "bit_value_loop [] val i = 0"
| "bit_value_loop (r # rs) val i = (if r = val then 2 ^ i else bit_value_loop rs val (i + 1))"

definition rtw_get_bit_value_from_ieee_value :: "u8 \<Rightarrow> int" where
  "rtw_get_bit_value_from_ieee_value val = bit_value_loop dot11_rate_table val 0"

definition is_cck :: "u8 \<Rightarrow> bool" where
  "is_cck r \<longleftrightarrow> r AND 0x7f = 2 \<or> r AND 0x7f = 4 \<or> r AND 0x7f = 11 \<or> r AND 0x7f = 22"

fun rtw_is_cckrates_included :: "u8 list \<Rightarrow> bool option" where
  "rtw_is_cckrates_included [] = None"
| "rtw_is_cckrates_included (r # rs) =
     (if r = 0 then Some False else if is_cck r then Some True else rtw_is_cckrates_included rs)"

fun rtw_is_cckratesonly_included :: "u8 list \<Rightarrow> bool option" where
  "rtw_is_cckratesonly_included [] = None"
| "rtw_is_cckratesonly_included (r # rs) =
     (if r = 0 then Some True else if \<not> is_cck r then Some False else rtw_is_cckratesonly_included rs)"

definition WIRELESS_INVALID :: u8 where "WIRELESS_INVALID = 0"
definition WIRELESS_11B :: u8 where "WIRELESS_11B = 0x01"
definition WIRELESS_11G :: u8 where "WIRELESS_11G = 0x02"
definition WIRELESS_11A :: u8 where "WIRELESS_11A = 0x04"
definition WIRELESS_11_24N :: u8 where "WIRELESS_11_24N = 0x08"
definition WIRELESS_11_5N :: u8 where "WIRELESS_11_5N = 0x10"
definition WIRELESS_11AC :: u8 where "WIRELESS_11AC = 0x40"
definition WIRELESS_11BG :: u8 where "WIRELESS_11BG = WIRELESS_11B OR WIRELESS_11G"
definition WIRELESS_11G_24N :: u8 where "WIRELESS_11G_24N = WIRELESS_11G OR WIRELESS_11_24N"
definition WIRELESS_11A_5N :: u8 where "WIRELESS_11A_5N = WIRELESS_11A OR WIRELESS_11_5N"
definition WIRELESS_11BG_24N :: u8 where "WIRELESS_11BG_24N = WIRELESS_11B OR WIRELESS_11G OR WIRELESS_11_24N"
definition WIRELESS_11_5AC :: u8 where "WIRELESS_11_5AC = WIRELESS_11A OR WIRELESS_11AC"
definition WIRELESS_11ABGN :: u8 where
  "WIRELESS_11ABGN = WIRELESS_11A OR WIRELESS_11B OR WIRELESS_11G OR WIRELESS_11_24N OR WIRELESS_11_5N"
definition WIRELESS_MODE_MAX :: u8 where
  "WIRELESS_MODE_MAX = WIRELESS_11A OR WIRELESS_11B OR WIRELESS_11G OR WIRELESS_11_24N OR WIRELESS_11_5N OR WIRELESS_11AC"

definition rtw_check_network_type :: "u8 list \<Rightarrow> int \<Rightarrow> u8 option" where
  "rtw_check_network_type rate channel =
     (if channel > 14 then
        map_option (\<lambda>cck. if cck then WIRELESS_INVALID else WIRELESS_11A) (rtw_is_cckrates_included rate)
      else do {
        only \<leftarrow> rtw_is_cckratesonly_included rate;
        if only then Some WIRELESS_11B
        else map_option (\<lambda>cck. if cck then WIRELESS_11BG else WIRELESS_11G) (rtw_is_cckrates_included rate) })"

definition WIFI_CCKRATES :: "u8 list" where
  "WIFI_CCKRATES = [0x02 OR 0x80, 0x04 OR 0x80, 0x0B OR 0x80, 0x16 OR 0x80]"
definition WIFI_OFDMRATES :: "u8 list" where
  "WIFI_OFDMRATES = [0x0C, 0x12, 0x18, 0x24, 0x30, 0x48, 0x60, 0x6C]"

text \<open>The array of 16 bytes (\<open>NDIS_802_11_LENGTH_RATES_EX\<close>) is cleared first.\<close>

definition rtw_set_supported_rate :: "u32 \<Rightarrow> u8 list" where
  "rtw_set_supported_rate mode =
     (if mode = ucast WIRELESS_11B then WIFI_CCKRATES @ replicate 12 0
      else if mode = ucast WIRELESS_11G \<or> mode = ucast WIRELESS_11A \<or> mode = ucast WIRELESS_11_5N \<or>
              mode = ucast WIRELESS_11A_5N \<or> mode = ucast WIRELESS_11_5AC
      then WIFI_OFDMRATES @ replicate 8 0
      else if mode = ucast WIRELESS_11BG \<or> mode = ucast WIRELESS_11G_24N \<or> mode = ucast WIRELESS_11_24N \<or>
              mode = ucast WIRELESS_11BG_24N
      then WIFI_CCKRATES @ WIFI_OFDMRATES @ replicate 4 0
      else replicate 16 0)"

function rateset_len_loop :: "u8 list \<Rightarrow> nat \<Rightarrow> nat option" where
  "rateset_len_loop rateset i =
     (case byte_at rateset i of
        None \<Rightarrow> None
      | Some r \<Rightarrow> if r = 0 \<or> i > 12 then Some i else rateset_len_loop rateset (i + 1))"
  by pat_completeness auto
termination by (relation "measure (\<lambda>(rateset, i). 13 - i)") auto

declare rateset_len_loop.simps [simp del]

definition rtw_get_rateset_len :: "u8 list \<Rightarrow> u32 option" where
  "rtw_get_rateset_len rateset = map_option of_nat (rateset_len_loop rateset 0)"

section \<open>The elements of the driver's own network\<close>

record registry_priv =
  wireless_mode :: u8
  preamble :: u8
  dev_network :: WLAN_BSSID_EX

definition PREAMBLE_SHORT :: u8 where "PREAMBLE_SHORT = 3"
definition cap_IBSS :: u16 where "cap_IBSS = 0x02"
definition cap_Privacy :: u16 where "cap_Privacy = 0x10"
definition cap_ShortPremble :: u16 where "cap_ShortPremble = 0x20"

definition generate_cap :: "registry_priv \<Rightarrow> u16" where
  "generate_cap pr =
     cap_IBSS OR (if preamble pr = PREAMBLE_SHORT then cap_ShortPremble else 0) OR
     (if Privacy (dev_network pr) \<noteq> 0 then cap_Privacy else 0)"

definition generate_mode :: "registry_priv \<Rightarrow> u8" where
  "generate_mode pr =
     (if wireless_mode pr = WIRELESS_11ABGN then
        if DSConfig (dev_network pr) > 14 then WIRELESS_11A_5N else WIRELESS_11BG_24N
      else if wireless_mode pr = WIRELESS_MODE_MAX then
        if DSConfig (dev_network pr) > 14 then WIRELESS_11_5AC else WIRELESS_11BG_24N
      else wireless_mode pr)"

text \<open>
  \<open>rtw_generate_ie\<close>: the length and the network with its rates and elements. \<open>(u8 * )\<close> of a
  \<open>ULONG\<close> is its little-endian representation.
\<close>

definition rtw_generate_ie :: "registry_priv \<Rightarrow> (u32 \<times> registry_priv) option" where
  "rtw_generate_ie pr =
     (let net = dev_network pr; rates = rtw_set_supported_rate (ucast (generate_mode pr)) in do {
        m \<leftarrow> mem_wr (IEs net) 8 (RTW_PUT_LE16 (ucast (BeaconPeriod net)));
        m \<leftarrow> mem_wr m 10 (RTW_PUT_LE16 (generate_cap pr));
        (m, sz, ie) \<leftarrow> rtw_set_ie m 12 0 (SsidLength net) (Ssid net) 12;
        rateLen \<leftarrow> rtw_get_rateset_len rates;
        (m, sz, ie) \<leftarrow> rtw_set_ie m ie 1 (if rateLen > 8 then 8 else rateLen) rates sz;
        (m, sz, ie) \<leftarrow> rtw_set_ie m ie 3 1 (le32_bytes (DSConfig net)) sz;
        (m, sz, ie) \<leftarrow> rtw_set_ie m ie 6 2 (le32_bytes (ATIMWindow net)) sz;
        (m, sz, ie) \<leftarrow> (if rateLen > 8 then rtw_set_ie m ie 50 (rateLen - 8) (drop 8 rates) sz
                        else Some (m, sz, ie));
        Some (sz, pr\<lparr>dev_network := net\<lparr>SupportedRates := rates, IEs := m\<rparr>\<rparr>) })"

section \<open>Channel and bandwidth\<close>

definition CHANNEL_WIDTH_20 :: u8 where "CHANNEL_WIDTH_20 = 0"
definition CHANNEL_WIDTH_40 :: u8 where "CHANNEL_WIDTH_40 = 1"
definition CHANNEL_WIDTH_80 :: u8 where "CHANNEL_WIDTH_80 = 2"

lemmas width_defs = CHANNEL_WIDTH_20_def CHANNEL_WIDTH_40_def CHANNEL_WIDTH_80_def

text \<open>
  \<open>rtw_ies_get_chbw\<close> as built for this chip, with HT and without VHT: channel, bandwidth, offset.
\<close>

definition get_chbw_ht :: "bytes \<Rightarrow> nat \<Rightarrow> int \<Rightarrow> u8 \<Rightarrow> (u8 \<times> u8 \<times> u8) option" where
  "get_chbw_ht m ies ies_len ch = do {
     (cap_len, cap) \<leftarrow> rtw_get_ie m ies 45 0 ies_len;
     bw \<leftarrow> (case cap of
              Some p \<Rightarrow> if cap_len \<noteq> 0
                        then map_option (\<lambda>b. if drop_bit 1 b AND 1 \<noteq> 0 then CHANNEL_WIDTH_40 else CHANNEL_WIDTH_20)
                               (byte_at m (p + 2))
                        else Some CHANNEL_WIDTH_20
            | None \<Rightarrow> Some CHANNEL_WIDTH_20);
     (op_len, op) \<leftarrow> rtw_get_ie m ies 61 0 ies_len;
     (case op of
        Some p \<Rightarrow>
          if op_len = 0 then Some (ch, bw, HAL_PRIME_CHNL_OFFSET_DONT_CARE)
          else do {
            pri \<leftarrow> byte_at m (p + 2);
            b \<leftarrow> byte_at m (p + 3);
            let ch = (if ch = 0 then pri else ch);
                bw = (if drop_bit 2 b AND 1 = 0 then CHANNEL_WIDTH_20 else bw);
                second = b AND 3
            in Some (ch, bw,
                 if bw = CHANNEL_WIDTH_40 then
                   if second = SCA then HAL_PRIME_CHNL_OFFSET_LOWER
                   else if second = SCB then HAL_PRIME_CHNL_OFFSET_UPPER
                   else HAL_PRIME_CHNL_OFFSET_DONT_CARE
                 else HAL_PRIME_CHNL_OFFSET_DONT_CARE) }
      | None \<Rightarrow> Some (ch, bw, HAL_PRIME_CHNL_OFFSET_DONT_CARE)) }"

definition rtw_ies_get_chbw :: "bytes \<Rightarrow> nat \<Rightarrow> int \<Rightarrow> (u8 \<times> u8 \<times> u8) option" where
  "rtw_ies_get_chbw m ies ies_len = do {
     (ie_len, p) \<leftarrow> rtw_get_ie m ies 3 0 ies_len;
     ch \<leftarrow> (case p of Some p \<Rightarrow> if ie_len > 0 then byte_at m (p + 2) else Some 0 | None \<Rightarrow> Some 0);
     get_chbw_ht m ies ies_len ch }"

text \<open>\<open>DSConfig\<close> is a \<open>ULONG\<close> compared with and stored in a \<open>u8\<close>.\<close>

definition rtw_bss_get_chbw :: "WLAN_BSSID_EX \<Rightarrow> (u8 \<times> u8 \<times> u8) option" where
  "rtw_bss_get_chbw bss =
     map_option (\<lambda>(ch, bw, offset).
         (if ch = 0 then ucast (DSConfig bss) else if ucast ch \<noteq> DSConfig bss then ucast (DSConfig bss) else ch,
          bw, offset))
       (rtw_ies_get_chbw (IEs bss) 12 (sint (IELength bss - 12)))"

definition rtw_is_chbw_grouped :: "u8 \<Rightarrow> u8 \<Rightarrow> u8 \<Rightarrow> u8 \<Rightarrow> u8 \<Rightarrow> u8 \<Rightarrow> bool" where
  "rtw_is_chbw_grouped ch_a bw_a offset_a ch_b bw_b offset_b =
     (if ch_a \<noteq> ch_b then False
      else if (bw_a = CHANNEL_WIDTH_40 \<or> bw_a = CHANNEL_WIDTH_80) \<and> (bw_b = CHANNEL_WIDTH_40 \<or> bw_b = CHANNEL_WIDTH_80)
      then offset_a = offset_b
      else True)"

text \<open>\<open>rtw_get_offset_by_ch\<close> and \<open>rtw_get_center_ch\<close> of \<open>core/rtw_wlan_util.c\<close>.\<close>

definition rtw_get_offset_by_ch :: "u8 \<Rightarrow> u8" where
  "rtw_get_offset_by_ch channel =
     (if 1 \<le> channel \<and> channel \<le> 4 then HAL_PRIME_CHNL_OFFSET_LOWER
      else if 5 \<le> channel \<and> channel \<le> 14 then HAL_PRIME_CHNL_OFFSET_UPPER
      else if channel \<in> {36, 44, 52, 60, 100, 108, 116, 124, 132, 149, 157} then HAL_PRIME_CHNL_OFFSET_LOWER
      else if channel \<in> {40, 48, 56, 64, 104, 112, 120, 128, 136, 153, 161} then HAL_PRIME_CHNL_OFFSET_UPPER
      else HAL_PRIME_CHNL_OFFSET_DONT_CARE)"

definition rtw_get_center_ch :: "u8 \<Rightarrow> u8 \<Rightarrow> u8 \<Rightarrow> u8" where
  "rtw_get_center_ch channel chnl_bw chnl_offset =
     (if chnl_bw = CHANNEL_WIDTH_80 then
        (if channel \<in> {36, 40, 44, 48} then 42
         else if channel \<in> {52, 56, 60, 64} then 58
         else if channel \<in> {100, 104, 108, 112} then 106
         else if channel \<in> {116, 120, 124, 128} then 122
         else if channel \<in> {132, 136, 140, 144} then 138
         else if channel \<in> {149, 153, 157, 161} then 155
         else if channel \<le> 14 then 7
         else channel)
      else if chnl_bw = CHANNEL_WIDTH_40 then
        if chnl_offset = HAL_PRIME_CHNL_OFFSET_LOWER then channel + 2 else channel - 2
      else channel)"

text \<open>\<open>rtw_sync_chbw\<close>: the request and the group, each a channel, a bandwidth and an offset.\<close>

type_synonym chbw = "u8 \<times> u8 \<times> u8"

definition sync_wide :: "u8 \<Rightarrow> u8 \<Rightarrow> u8 \<Rightarrow> u8 \<Rightarrow> u8 \<Rightarrow> u8 \<times> u8" where
  "sync_wide req_ch req_bw req_offset g_bw g_offset =
     (let req_offset = (if g_bw = CHANNEL_WIDTH_40 \<or> g_bw = CHANNEL_WIDTH_80 then g_offset
                        else if g_bw = CHANNEL_WIDTH_20 then rtw_get_offset_by_ch req_ch
                        else req_offset) in
      (if req_offset = HAL_PRIME_CHNL_OFFSET_DONT_CARE then CHANNEL_WIDTH_20 else req_bw, req_offset))"

definition rtw_sync_chbw :: "chbw \<Rightarrow> chbw \<Rightarrow> chbw \<times> chbw" where
  "rtw_sync_chbw req g =
     (case (req, g) of ((_, req_bw, req_offset), (g_ch, g_bw, g_offset)) \<Rightarrow>
        let req_ch = g_ch;
            req_bw = (if req_bw = CHANNEL_WIDTH_80 \<and> g_ch \<le> 14 then CHANNEL_WIDTH_40 else req_bw);
            (req_bw, req_offset) =
              (if req_bw = CHANNEL_WIDTH_80 \<or> req_bw = CHANNEL_WIDTH_40
               then sync_wide req_ch req_bw req_offset g_bw g_offset
               else if req_bw = CHANNEL_WIDTH_20 then (req_bw, HAL_PRIME_CHNL_OFFSET_DONT_CARE)
               else (req_bw, req_offset))
        in ((req_ch, req_bw, req_offset),
            if req_bw > g_bw then (g_ch, req_bw, req_offset) else (g_ch, g_bw, g_offset)))"

section \<open>Addresses\<close>

definition key_char2num :: "u8 \<Rightarrow> u8" where
  "key_char2num ch =
     (if 48 \<le> ch \<and> ch \<le> 57 then ch - 48
      else if 97 \<le> ch \<and> ch \<le> 102 then ch - 97 + 10
      else if 65 \<le> ch \<and> ch \<le> 70 then ch - 65 + 10
      else 0xff)"

definition str_2char2num :: "u8 \<Rightarrow> u8 \<Rightarrow> u8" where
  "str_2char2num hch lch = key_char2num hch * 10 + key_char2num lch"

definition key_2char2num :: "u8 \<Rightarrow> u8 \<Rightarrow> u8" where
  "key_2char2num hch lch = push_bit 4 (key_char2num hch) OR key_char2num lch"

definition convert_ip_addr :: "u8 \<Rightarrow> u8 \<Rightarrow> u8 \<Rightarrow> u8" where
  "convert_ip_addr hch mch lch = key_char2num hch * 100 + key_char2num mch * 10 + key_char2num lch"

definition macstr2num :: "bytes \<Rightarrow> bytes option" where
  "macstr2num src =
     opt_fold (\<lambda>dst jj. do {
         h \<leftarrow> byte_at src (3 * jj); l \<leftarrow> byte_at src (3 * jj + 1);
         Some (dst @ [key_2char2num h l]) }) [] [0..<6]"

definition rtw_check_invalid_mac_address :: "bytes \<Rightarrow> bool \<Rightarrow> bool" where
  "rtw_check_invalid_mac_address mac_addr check_local_bit =
     (if mac_addr = [0, 0, 0, 0, 0, 0] then True
      else if mac_addr = [0xff, 0xff, 0xff, 0xff, 0xff, 0xff] then True
      else if mac_addr ! 0 AND 1 \<noteq> 0 then True
      else check_local_bit \<and> mac_addr ! 0 AND 2 \<noteq> 0)"

text \<open>
  \<open>rtw_macaddr_cfg\<close>: \<open>initmac\<close> is the module parameter, \<open>hw_mac_addr\<close> the address in the
  efuse and \<open>rnd\<close> what \<open>rtw_random32\<close> returns. Without either address the source reads the
  local array uninitialised, which is \<open>None\<close>.
\<close>

definition rtw_macaddr_cfg :: "bytes option \<Rightarrow> bytes option \<Rightarrow> u32 \<Rightarrow> bytes option" where
  "rtw_macaddr_cfg initmac hw_mac_addr rnd = do {
     mac \<leftarrow> (case initmac of
               Some s \<Rightarrow> macstr2num s
             | None \<Rightarrow> (case hw_mac_addr of Some hw \<Rightarrow> mem_rd hw 0 6 | None \<Rightarrow> None));
     Some (if rtw_check_invalid_mac_address mac True
           then [0x00, 0xe0, 0x4c] @ drop 1 (le32_bytes rnd)
           else mac) }"

section \<open>Frames and rates\<close>

definition ieee80211_is_empty_essid :: "bytes \<Rightarrow> nat \<Rightarrow> bool option" where
  "ieee80211_is_empty_essid essid essid_len =
     map_option (\<lambda>e. (essid_len = 1 \<and> e = [32]) \<or> list_all (\<lambda>c. c = 0) e) (mem_rd essid 0 essid_len)"

definition ieee80211_get_hdrlen :: "u16 \<Rightarrow> int" where
  "ieee80211_get_hdrlen fc =
     (if fc AND 0x000c = 0x0008 then
        24 + (if fc AND 0x0080 \<noteq> 0 then 2 else 0) + (if fc AND 0x0200 \<noteq> 0 \<and> fc AND 0x0100 \<noteq> 0 then 6 else 0)
      else if fc AND 0x000c = 0x0004 then
        (if fc AND 0x00f0 = 0x00C0 \<or> fc AND 0x00f0 = 0x00D0 then 10 else 16)
      else 24)"

definition rtw_ht_mcsset_to_nss :: "u8 list \<Rightarrow> u8" where
  "rtw_ht_mcsset_to_nss mcs =
     (if mcs ! 3 \<noteq> 0 then 4 else if mcs ! 2 \<noteq> 0 then 3 else if mcs ! 1 \<noteq> 0 then 2 else 1)"

text \<open>
  The rates of \<open>rtw_mcs_rate\<close> in units of 100 kbit/s, highest bit first: 40 MHz with short and
  long guard interval, 20 MHz with short and long guard interval.
\<close>

definition mcs_rates_3t :: "(nat \<times> u16 \<times> u16 \<times> u16 \<times> u16) list" where
  "mcs_rates_3t = [
     (7, 4500, 4050, 2167, 1950), (6, 4050, 3645, 1950, 1750),
     (5, 3600, 3240, 1733, 1560), (4, 2700, 2430, 1300, 1170),
     (3, 1800, 1620, 867, 780), (2, 1350, 1215, 650, 585),
     (1, 900, 810, 433, 390), (0, 450, 405, 217, 195)]"

definition mcs_rates_2t :: "(nat \<times> u16 \<times> u16 \<times> u16 \<times> u16) list" where
  "mcs_rates_2t = [
     (7, 3000, 2700, 1444, 1300), (6, 2700, 2430, 1300, 1170),
     (5, 2400, 2160, 1156, 1040), (4, 1800, 1620, 867, 780),
     (3, 1200, 1080, 578, 520), (2, 900, 810, 433, 390),
     (1, 600, 540, 289, 260), (0, 300, 270, 144, 130)]"

definition mcs_rates_1t :: "(nat \<times> u16 \<times> u16 \<times> u16 \<times> u16) list" where
  "mcs_rates_1t = [
     (7, 1500, 1350, 722, 650), (6, 1350, 1215, 650, 585),
     (5, 1200, 1080, 578, 520), (4, 900, 810, 433, 390),
     (3, 600, 540, 289, 260), (2, 450, 405, 217, 195),
     (1, 300, 270, 144, 130), (0, 150, 135, 72, 65)]"

fun mcs_pick :: "u8 \<Rightarrow> bool \<Rightarrow> bool \<Rightarrow> (nat \<times> u16 \<times> u16 \<times> u16 \<times> u16) list \<Rightarrow> u16" where
  "mcs_pick r bw_40MHz short_GI [] = 0"
| "mcs_pick r bw_40MHz short_GI ((b, s40, l40, s20, l20) # rows) =
     (if bit r b then if bw_40MHz then (if short_GI then s40 else l40) else (if short_GI then s20 else l20)
      else mcs_pick r bw_40MHz short_GI rows)"

definition rtw_mcs_rate :: "u8 \<Rightarrow> u8 \<Rightarrow> u8 list \<Rightarrow> u16" where
  "rtw_mcs_rate bw_40MHz short_GI MCS_rate =
     (if MCS_rate ! 2 \<noteq> 0 then mcs_pick (MCS_rate ! 2) (bw_40MHz \<noteq> 0) (short_GI \<noteq> 0) mcs_rates_3t
      else if MCS_rate ! 1 \<noteq> 0 then mcs_pick (MCS_rate ! 1) (bw_40MHz \<noteq> 0) (short_GI \<noteq> 0) mcs_rates_2t
      else mcs_pick (MCS_rate ! 0) (bw_40MHz \<noteq> 0) (short_GI \<noteq> 0) mcs_rates_1t)"

definition ACT_PUBLIC_MAX :: u8 where "ACT_PUBLIC_MAX = 16"
definition RTW_WLAN_CATEGORY_P2P :: u8 where "RTW_WLAN_CATEGORY_P2P = 0x7f"

text \<open>
  \<open>rtw_action_frame_parse\<close>: \<open>None\<close> inside says that the frame is no action frame; the length of
  the frame is not looked at.
\<close>

definition rtw_action_frame_parse :: "bytes \<Rightarrow> nat \<Rightarrow> (u8 \<times> u8) option option" where
  "rtw_action_frame_parse m frame = do {
     fc \<leftarrow> RTW_GET_LE16 m frame;
     if fc AND (0x000c OR 0x00f0) \<noteq> (0x0000 OR 0x00D0) then Some None
     else do {
       c \<leftarrow> byte_at m (frame + 24);
       a \<leftarrow> (if c = RTW_WLAN_CATEGORY_P2P then Some ACT_PUBLIC_MAX else byte_at m (frame + 25));
       Some (Some (c, a)) } }"

section \<open>What the routines guarantee\<close>

lemma u8_one_le: "1 \<le> (w :: u8) \<longleftrightarrow> w \<noteq> 0"
  by (auto simp: word_le_nat_alt Suc_le_eq unat_gt_0)

lemma sync_chbw_grouped:
  assumes "rtw_sync_chbw req g = ((ch_a, bw_a, offset_a), (ch_b, bw_b, offset_b))"
  shows "ch_a = fst g \<and> ch_b = fst g \<and> fst (snd g) \<le> bw_b \<and> bw_a \<le> bw_b \<and>
    rtw_is_chbw_grouped ch_a bw_a offset_a ch_b bw_b offset_b"
  using assms
  by (cases req; cases g)
    (auto simp: rtw_sync_chbw_def sync_wide_def rtw_is_chbw_grouped_def Let_def width_defs u8_one_le
      split: if_splits prod.splits)

lemma macstr2num_length: "macstr2num s = Some mac \<Longrightarrow> length mac = 6"
  by (auto simp: macstr2num_def upt_rec bind_eq_Some_conv split: option.splits)

lemma macaddr_cfg_valid:
  assumes "rtw_macaddr_cfg initmac hw rnd = Some mac"
  shows "length mac = 6 \<and> \<not> rtw_check_invalid_mac_address mac True"
proof -
  let ?r = "[0x00, 0xe0, 0x4c] @ drop 1 (le32_bytes rnd)"
  obtain mac0 where l: "length mac0 = 6"
    and mac: "mac = (if rtw_check_invalid_mac_address mac0 True then ?r else mac0)"
  proof (cases initmac)
    case None
    then obtain h where "hw = Some h" using assms by (cases hw) (simp_all add: rtw_macaddr_cfg_def)
    then obtain mac0 where "mem_rd h 0 6 = Some mac0" using assms None
      by (cases "mem_rd h 0 6") (simp_all add: rtw_macaddr_cfg_def)
    then show ?thesis
      by (intro that [of mac0]) (use assms None \<open>hw = _\<close> mem_rd_length in \<open>simp_all add: rtw_macaddr_cfg_def\<close>)
  next
    case (Some s)
    then obtain mac0 where "macstr2num s = Some mac0" using assms
      by (cases "macstr2num s") (simp_all add: rtw_macaddr_cfg_def)
    then show ?thesis
      by (intro that [of mac0]) (use assms Some macstr2num_length in \<open>simp_all add: rtw_macaddr_cfg_def\<close>)
  qed
  have "length ?r = 6 \<and> \<not> rtw_check_invalid_mac_address ?r True"
    by (simp add: le32_bytes_def rtw_check_invalid_mac_address_def)
  then show ?thesis using l mac by (cases "rtw_check_invalid_mac_address mac0 True") simp_all
qed

text \<open>
  The channel switch announcement maps the offset of the secondary channel the other way round than
  the HT operation element does.
\<close>

lemma secondary_offset_disagrees:
  "secondary_ch_offset_to_hal_ch_offset SCA = HAL_PRIME_CHNL_OFFSET_UPPER"
  "get_chbw_ht (ies_enc [(45, [2, 0]), (61, [6, 4 OR SCA])]) 0 8 6 =
     Some (6, CHANNEL_WIDTH_40, HAL_PRIME_CHNL_OFFSET_LOWER)"
  by (simp_all add: ch_offset_defs secondary_ch_offset_to_hal_ch_offset_def get_chbw_ht_def rtw_get_ie_def
      get_ie_loop.simps byte_at_def tlv_enc_def ie_hdr_def width_defs Let_def)

section \<open>The beacon's elements\<close>

lemma if_cases: "P x \<Longrightarrow> P y \<Longrightarrow> P (if c then x else y)"
  by simp

lemma supported_rates:
  "\<exists>rs n. rtw_set_supported_rate mode = rs @ replicate n 0 \<and> (\<forall>r \<in> set rs. r \<noteq> 0) \<and> length rs + n = 16 \<and>
     length rs \<in> {0, 4, 8, 12}"
proof -
  have z: "\<forall>r \<in> set (WIFI_CCKRATES @ WIFI_OFDMRATES). r \<noteq> 0"
    by (simp add: WIFI_CCKRATES_def WIFI_OFDMRATES_def)
  have l: "length WIFI_CCKRATES = 4" "length WIFI_OFDMRATES = 8"
    by (simp_all add: WIFI_CCKRATES_def WIFI_OFDMRATES_def)
  let ?P = "\<lambda>l. \<exists>rs n. l = rs @ replicate n 0 \<and> (\<forall>r \<in> set rs. r \<noteq> 0) \<and> length rs + n = 16 \<and>
     length rs \<in> {0, 4, 8, 12}"
  have "?P (WIFI_CCKRATES @ replicate 12 0)" "?P (WIFI_OFDMRATES @ replicate 8 0)"
    using z l by fastforce+
  moreover have "?P (WIFI_CCKRATES @ WIFI_OFDMRATES @ replicate 4 0)"
    by (rule exI [of _ "WIFI_CCKRATES @ WIFI_OFDMRATES"], rule exI [of _ 4]) (use z l in simp)
  moreover have "?P (replicate 16 0)"
    by (rule exI [of _ "[]"], rule exI [of _ 16]) simp
  ultimately show ?thesis
    unfolding rtw_set_supported_rate_def by (intro if_cases [where P = ?P])
qed

lemma rateset_len_loop_enc:
  assumes "\<forall>r \<in> set rs. r \<noteq> 0" and "i + length rs \<le> 12" and "length pre = i"
  shows "rateset_len_loop (pre @ rs @ 0 # post) i = Some (i + length rs)"
  using assms
proof (induction rs arbitrary: pre i)
  case Nil
  then show ?case
    using byte_at_append(1) [of pre 0 post] by (subst rateset_len_loop.simps) simp
next
  case (Cons r rs)
  have "rateset_len_loop ((pre @ [r]) @ rs @ 0 # post) (i + 1) = Some (i + 1 + length rs)"
    by (rule Cons.IH) (use Cons.prems in simp_all)
  then show ?case
    using Cons.prems byte_at_append(1) [of pre r "rs @ 0 # post"] by (subst rateset_len_loop.simps) simp
qed

lemma rateset_len_supported:
  assumes "rtw_set_supported_rate mode = rs @ replicate n 0" and "\<forall>r \<in> set rs. r \<noteq> 0"
    and "length rs + n = 16" and "length rs \<in> {0, 4, 8, 12}"
  shows "rtw_get_rateset_len (rtw_set_supported_rate mode) = Some (of_nat (length rs))"
proof -
  obtain k where k: "n = Suc k" using assms(3,4) by (cases n) auto
  have "rateset_len_loop ([] @ rs @ 0 # replicate k 0) 0 = Some (0 + length rs)"
    by (rule rateset_len_loop_enc) (use assms in auto)
  then show ?thesis using assms(1) k by (simp add: rtw_get_rateset_len_def)
qed

lemma set_ie_next:
  assumes "mem_rd src 0 n = Some d" and "n < 256" and "n + 2 \<le> length rest"
  shows "rtw_set_ie (a @ rest) (length a) (uint i) (of_nat n) src f =
    Some ((a @ ies_enc [(i, d)]) @ drop (n + 2) rest, f + of_nat (length (ies_enc [(i, d)])),
      length (a @ ies_enc [(i, d)]))"
proof -
  have l: "length d = n" using mem_rd_length [OF assms(1)] .
  have u: "unat (of_nat n :: u32) = n" by (rule unat_of_nat_small) (use assms(2) in simp)
  have r: "mem_rd src 0 (unat (of_nat n :: u32)) = Some d" "mem_rd d 0 (unat (of_nat n :: u32)) = Some d"
    using assms(1) l u by (simp_all add: mem_rd_def)
  have "rtw_set_ie (a @ rest) (length a) (uint i) (of_nat n) src f =
      rtw_set_ie (a @ take (n + 2) rest @ drop (n + 2) rest) (length a) (uint i) (of_nat (length d)) d f"
    unfolding rtw_set_ie_def l r append_take_drop_id ..
  also have "\<dots> = Some (a @ ies_enc [(i, d)] @ drop (n + 2) rest, f + (of_nat (length d) + 2), length a + length d + 2)"
    by (rule set_ie_appends) (use assms l in simp_all)
  finally show ?thesis using l by (simp add: ie.enc_length add.commute)
qed

lemma set_ie_step:
  assumes "mem_rd src 0 n = Some d" and "n < 256" and "n + 2 \<le> length rest" and "index = uint i" and "len = of_nat n"
  obtains rest' where "length rest' = length rest - (n + 2)"
    and "rtw_set_ie (h @ ies_enc es @ rest) (length (h @ ies_enc es)) index len src
           (f + of_nat (length (ies_enc es))) =
         Some (h @ ies_enc (es @ [(i, d)]) @ rest', f + of_nat (length (ies_enc (es @ [(i, d)]))),
           length (h @ ies_enc (es @ [(i, d)])))"
proof (rule that)
  show "length (drop (n + 2) rest) = length rest - (n + 2)" by simp
  show "rtw_set_ie (h @ ies_enc es @ rest) (length (h @ ies_enc es)) index len src
           (f + of_nat (length (ies_enc es))) =
         Some (h @ ies_enc (es @ [(i, d)]) @ drop (n + 2) rest, f + of_nat (length (ies_enc (es @ [(i, d)]))),
           length (h @ ies_enc (es @ [(i, d)])))"
    using set_ie_next [OF assms(1-3), of "h @ ies_enc es" i "f + of_nat (length (ies_enc es))"] assms(4,5)
    by (simp add: ie.enc_append add.assoc)
qed

text \<open>The elements \<open>rtw_generate_ie\<close> is to write, for an SSID and a set of rates.\<close>

definition own_elems :: "bytes \<Rightarrow> u8 list \<Rightarrow> u32 \<Rightarrow> u32 \<Rightarrow> elem list" where
  "own_elems ssid rates ds atim =
     [(0, ssid), (1, take 8 rates), (3, [ucast ds]), (6, take 2 (le32_bytes atim))] @
     (if 8 < length rates then [(50, drop 8 rates)] else [])"

text \<open>
  the elements of the driver's own network are, behind the fixed part, the SSID, the rates of the
  mode, the channel and the ATIM window, with the rates beyond eight in an element of their own.
\<close>

theorem generate_ie_elements:
  assumes "mem_rd (Ssid (dev_network pr)) 0 n = Some ssid" and "n \<le> 32"
    and "SsidLength (dev_network pr) = of_nat n" and "length (IEs (dev_network pr)) = 768"
  shows "\<exists>sz pr' rates k. rtw_generate_ie pr = Some (sz, pr') \<and>
    rtw_set_supported_rate (ucast (generate_mode pr)) = rates @ replicate k 0 \<and> 0 \<notin> set rates \<and>
    take (unat sz) (IEs (dev_network pr')) =
      take 8 (IEs (dev_network pr)) @ RTW_PUT_LE16 (ucast (BeaconPeriod (dev_network pr))) @
      RTW_PUT_LE16 (generate_cap pr) @
      ies_enc (own_elems ssid rates (DSConfig (dev_network pr)) (ATIMWindow (dev_network pr)))"
proof -
  define net where "net = dev_network pr"
  define rs where "rs = rtw_set_supported_rate (ucast (generate_mode pr))"
  obtain rates k where rates: "rs = rates @ replicate k 0" "\<forall>r \<in> set rates. r \<noteq> 0" "length rates + k = 16"
    "length rates \<in> {0, 4, 8, 12}"
    using supported_rates [of "ucast (generate_mode pr)"] rs_def by blast
  have len: "rtw_get_rateset_len rs = Some (of_nat (length rates))"
    unfolding rs_def by (rule rateset_len_supported) (use rates rs_def in auto)
  have few: "length rates \<le> 12" using rates(4) by auto
  have l2: "length (RTW_PUT_LE16 v) = 2" for v by (simp add: RTW_PUT_LE16_def)
  have ssid: "mem_rd (Ssid net) 0 n = Some ssid" "length ssid = n"
    using assms(1) mem_rd_length by (simp_all add: net_def)
  define a where "a = take 8 (IEs net) @ RTW_PUT_LE16 (ucast (BeaconPeriod net)) @ RTW_PUT_LE16 (generate_cap pr)"
  define rest where "rest = drop 12 (IEs net)"
  have al: "length a = 12" and rl: "length rest = 756"
    using assms(4) by (simp_all add: a_def rest_def l2 net_def)
  obtain m1 where m1: "mem_wr (IEs net) 8 (RTW_PUT_LE16 (ucast (BeaconPeriod net))) = Some m1"
    and m2: "mem_wr m1 10 (RTW_PUT_LE16 (generate_cap pr)) = Some (a @ ies_enc [] @ rest)"
    using assms(4) by (simp add: mem_wr_def l2 a_def rest_def net_def ie.enc_Nil)
  have p0: "length (a @ ies_enc []) = 12" "12 + of_nat (length (ies_enc [])) = (12 :: u32)"
    using al by (simp_all add: ie.enc_Nil)
  have big: "((of_nat (length rates) :: u32) > 8) = (8 < length rates)"
    using rates(4) by auto
  have rd2: "mem_rd rs 0 (min 8 (length rates)) = Some (take 8 rates)"
    using rates by (auto simp: mem_rd_def min_def)
  have rd3: "mem_rd (le32_bytes (DSConfig net)) 0 1 = Some [ucast (DSConfig net)]"
    and rd4: "mem_rd (le32_bytes (ATIMWindow net)) 0 2 = Some (take 2 (le32_bytes (ATIMWindow net)))"
    by (simp_all add: mem_rd_def le32_bytes_def)
  let ?es1 = "[(0, ssid)]" and ?es2 = "[(0, ssid), (1, take 8 rates)]"
    and ?es3 = "[(0, ssid), (1, take 8 rates), (3, [ucast (DSConfig net)])]"
    and ?es4 = "[(0, ssid), (1, take 8 rates), (3, [ucast (DSConfig net)]), (6, take 2 (le32_bytes (ATIMWindow net)))]"
  let ?sz = "\<lambda>es :: elem list. 12 + of_nat (length (ies_enc es)) :: u32"
  obtain r1 where r1: "length r1 \<ge> 722" and s1: "rtw_set_ie (a @ ies_enc [] @ rest) 12 0 (SsidLength net) (Ssid net) 12 =
      Some (a @ ies_enc ?es1 @ r1, ?sz ?es1, length (a @ ies_enc ?es1))"
  proof (rule set_ie_step [OF ssid(1), of rest 0 0 "SsidLength net" a "[]" 12], goal_cases)
    case (5 r)
    then show ?case by (intro that [of r]) (use assms(2) rl p0 in simp_all)
  qed (use assms(2,3) rl in \<open>simp_all add: net_def\<close>)
  obtain r2 where r2: "length r2 \<ge> 712"
    and s2: "rtw_set_ie (a @ ies_enc ?es1 @ r1) (length (a @ ies_enc ?es1)) 1
        (if (of_nat (length rates) :: u32) > 8 then 8 else of_nat (length rates)) rs (?sz ?es1) =
      Some (a @ ies_enc ?es2 @ r2, ?sz ?es2, length (a @ ies_enc ?es2))"
  proof (rule set_ie_step [OF rd2, of r1 1 1 "if (of_nat (length rates) :: u32) > 8 then 8 else of_nat (length rates)" a ?es1 12],
      goal_cases)
    case (5 r)
    then show ?case by (intro that [of r]) (use r1 in simp_all)
  qed (use r1 rates(4) in auto)
  obtain r3 where r3: "length r3 \<ge> 709"
    and s3: "rtw_set_ie (a @ ies_enc ?es2 @ r2) (length (a @ ies_enc ?es2)) 3 1 (le32_bytes (DSConfig net)) (?sz ?es2) =
      Some (a @ ies_enc ?es3 @ r3, ?sz ?es3, length (a @ ies_enc ?es3))"
  proof (rule set_ie_step [OF rd3, of r2 3 3 1 a ?es2 12], goal_cases)
    case (5 r)
    then show ?case by (intro that [of r]) (use r2 in simp_all)
  qed (use r2 in simp_all)
  obtain r4 where r4: "length r4 \<ge> 705"
    and s4: "rtw_set_ie (a @ ies_enc ?es3 @ r3) (length (a @ ies_enc ?es3)) 6 2 (le32_bytes (ATIMWindow net)) (?sz ?es3) =
      Some (a @ ies_enc ?es4 @ r4, ?sz ?es4, length (a @ ies_enc ?es4))"
  proof (rule set_ie_step [OF rd4, of r3 6 6 2 a ?es3 12], goal_cases)
    case (5 r)
    then show ?case by (intro that [of r]) (use r3 in simp_all)
  qed (use r3 in simp_all)
  let ?es = "own_elems ssid rates (DSConfig net) (ATIMWindow net)"
  obtain r5 ie5 where s5: "(if (of_nat (length rates) :: u32) > 8
      then rtw_set_ie (a @ ies_enc ?es4 @ r4) (length (a @ ies_enc ?es4)) 50 (of_nat (length rates) - 8) (drop 8 rs) (?sz ?es4)
      else Some (a @ ies_enc ?es4 @ r4, ?sz ?es4, length (a @ ies_enc ?es4))) =
    Some (a @ ies_enc ?es @ r5, ?sz ?es, ie5)"
  proof (cases "8 < length rates")
    case True
    then have l: "length rates = 12" using rates(4) by auto
    have rd5: "mem_rd (drop 8 rs) 0 4 = Some (drop 8 rates)" using rates l by (simp add: mem_rd_def)
    show ?thesis
    proof (rule set_ie_step [OF rd5, of r4 50 50 4 a ?es4 12], goal_cases)
      case (5 r)
      then show ?case by (intro that [of r]) (use l in \<open>simp add: own_elems_def\<close>)
    qed (use r4 in simp_all)
  next
    case False
    then show ?thesis using that unfolding big by (simp add: own_elems_def)
  qed
  have small: "length (a @ ies_enc ?es) < 2 ^ 32"
    using ssid assms(2) few al by (auto simp: own_elems_def ie.enc_length le32_bytes_def)
  then have sz: "unat (?sz ?es) = length (a @ ies_enc ?es)"
    using unat_of_nat_small [OF small] al by simp
  define pr' where "pr' = pr\<lparr>dev_network := net\<lparr>SupportedRates := rs, IEs := a @ ies_enc ?es @ r5\<rparr>\<rparr>"
  have "rtw_generate_ie pr = Some (?sz ?es, pr')"
    unfolding rtw_generate_ie_def Let_def net_def [symmetric] rs_def [symmetric]
    by (simp only: m1 m2 s1 len s2 s3 s4 s5 Option.bind.simps prod.case pr'_def)
  moreover have "take (unat (?sz ?es)) (IEs (dev_network pr')) = a @ ies_enc ?es"
    unfolding sz by (simp add: pr'_def)
  ultimately show ?thesis
    using rates(1,2) unfolding a_def net_def rs_def by (intro exI conjI) auto
qed

lemma generate_ie_elements_witness:
  "\<exists>sz pr' rates k. rtw_generate_ie \<lparr>wireless_mode = WIRELESS_11B, preamble = 1,
       dev_network = \<lparr>Reserved0 = 0, SsidLength = of_nat 2, Ssid = [104, 105] @ replicate 30 0, Privacy = 1, BeaconPeriod = 100,
         ATIMWindow = 0, DSConfig = 6, SupportedRates = [], IELength = 0, IEs = replicate 768 0\<rparr>\<rparr> = Some (sz, pr') \<and>
    rtw_set_supported_rate (ucast (generate_mode \<lparr>wireless_mode = WIRELESS_11B, preamble = 1,
       dev_network = \<lparr>Reserved0 = 0, SsidLength = of_nat 2, Ssid = [104, 105] @ replicate 30 0, Privacy = 1, BeaconPeriod = 100,
         ATIMWindow = 0, DSConfig = 6, SupportedRates = [], IELength = 0, IEs = replicate 768 0\<rparr>\<rparr>)) =
      rates @ replicate k 0"
  using generate_ie_elements [where n = 2 and ssid = "[104, 105]" and pr = "\<lparr>wireless_mode = WIRELESS_11B, preamble = 1,
       dev_network = \<lparr>Reserved0 = 0, SsidLength = of_nat 2, Ssid = [104, 105] @ replicate 30 0, Privacy = 1, BeaconPeriod = 100,
         ATIMWindow = 0, DSConfig = 6, SupportedRates = [], IELength = 0, IEs = replicate 768 0\<rparr>\<rparr>"]
  by (simp add: mem_rd_def) blast

end
