(* ===== verification/Ef_Access.thy ===== *)
theory Ef_Access
  imports Hal_Fw
begin

text \<open>
  Access to the one-time memory (efuse) of the chip, byte by byte: \<open>efuse_OneByteRead\<close>,
  \<open>efuse_OneByteWrite\<close> and the older routines of \<open>core/efuse/rtw_efuse.c\<close>, with the
  power switch, the choice of the bank and the sizes of
  \<open>hal/rtl8188f/rtl8188f_hal_init.c\<close>. In a pseudo test the bytes are those of arrays of the
  driver. The locale \<open>fuse_memory\<close> states what the rest of the efuse code relies on.
\<close>

section \<open>State\<close>

text \<open>The fields of \<open>EFUSE_HAL\<close> that the code reads or sets.\<close>

record efuse_hal =
  fakeEfuseBank :: u8
  fakeEfuseUsedBytes :: u32
  BTEfuseUsedBytes :: u16
  BTEfuseUsedPercentage :: u8
  fakeBTEfuseUsedBytes :: u16

text \<open>
  The state of the device, the HAL data and the settings the efuse code looks at, and the global
  arrays of the pseudo test, among them a second \<open>fakeEfuseBank\<close>.
\<close>

record 'h ef_sys =
  ef_dev :: "'h usb_dev"
  vendor_smic :: bool
  EfuseUsedBytes :: u16
  EfuseUsedPercentage :: u8
  EfuseHal :: efuse_hal
  bautoload_fail_flag :: bool
  efuse_eeprom_data :: bytes
  boffefusemask :: bool
  bFileMaskEfuse :: bool
  mp_mode :: bool
  glob_fakeEfuseBank :: u8
  fakeEfuseContent :: bytes
  fakeBTEfuseContent :: "bytes list"
  maskfileBuffer :: bytes

type_synonym ('h, 'a) ef = "('h ef_sys, 'a) state"

text \<open>An operation on the device as one on the whole state.\<close>

definition on_dev :: "('h, 'a) io \<Rightarrow> ('h, 'a) ef" where
  "on_dev m = State (\<lambda>s. case run_state m (ef_dev s) of (x, d) \<Rightarrow> (x, s\<lparr>ef_dev := d\<rparr>))"

definition get_ef :: "('h ef_sys \<Rightarrow> 'a) \<Rightarrow> ('h, 'a) ef" where
  "get_ef f = State (\<lambda>s. (f s, s))"

definition upd_ef :: "('h ef_sys \<Rightarrow> 'h ef_sys) \<Rightarrow> ('h, unit) ef" where
  "upd_ef f = State (\<lambda>s. ((), f s))"

section \<open>Sizes\<close>

definition EFUSE_WIFI :: u8 where "EFUSE_WIFI = 0"
definition EFUSE_BT :: u8 where "EFUSE_BT = 1"
definition PGPKT_DATA_SIZE :: nat where "PGPKT_DATA_SIZE = 8"
definition EFUSE_MAX_WORD_UNIT :: nat where "EFUSE_MAX_WORD_UNIT = 4"
definition EFUSE_MAX_MAP_LEN :: nat where "EFUSE_MAX_MAP_LEN = 512"
definition EFUSE_MAX_HW_SIZE :: nat where "EFUSE_MAX_HW_SIZE = 512"
definition EFUSE_MAX_SECTION_BASE :: u8 where "EFUSE_MAX_SECTION_BASE = 16"
definition EFUSE_REAL_CONTENT_LEN_8188F :: u16 where "EFUSE_REAL_CONTENT_LEN_8188F = 256"
definition EFUSE_MAP_LEN_8188F :: u16 where "EFUSE_MAP_LEN_8188F = 512"
definition EFUSE_MAX_SECTION_8188F :: u8 where "EFUSE_MAX_SECTION_8188F = 64"
definition EFUSE_OOB_PROTECT_BYTES :: u16 where "EFUSE_OOB_PROTECT_BYTES = 35"
definition EFUSE_BT_REAL_BANK_CONTENT_LEN :: u16 where "EFUSE_BT_REAL_BANK_CONTENT_LEN = 512"
definition EFUSE_BT_REAL_CONTENT_LEN :: u16 where "EFUSE_BT_REAL_CONTENT_LEN = 1536"
definition EFUSE_BT_MAP_LEN :: u16 where "EFUSE_BT_MAP_LEN = 1024"
definition EFUSE_BT_MAX_SECTION :: u8 where "EFUSE_BT_MAX_SECTION = 128"
definition EFUSE_PROTECT_BYTES_BANK :: u16 where "EFUSE_PROTECT_BYTES_BANK = 16"

lemmas ef_sizes = EFUSE_WIFI_def EFUSE_BT_def PGPKT_DATA_SIZE_def EFUSE_MAX_WORD_UNIT_def EFUSE_MAX_MAP_LEN_def
  EFUSE_MAX_HW_SIZE_def EFUSE_MAX_SECTION_BASE_def EFUSE_REAL_CONTENT_LEN_8188F_def EFUSE_MAP_LEN_8188F_def
  EFUSE_MAX_SECTION_8188F_def EFUSE_OOB_PROTECT_BYTES_def EFUSE_BT_REAL_BANK_CONTENT_LEN_def
  EFUSE_BT_REAL_CONTENT_LEN_def EFUSE_BT_MAP_LEN_def EFUSE_BT_MAX_SECTION_def EFUSE_PROTECT_BYTES_BANK_def

definition AVAILABLE_EFUSE_ADDR :: "u16 \<Rightarrow> bool" where
  "AVAILABLE_EFUSE_ADDR addr \<longleftrightarrow> addr < EFUSE_REAL_CONTENT_LEN_8188F"

datatype efuse_def_type = TYPE_EFUSE_MAX_SECTION | TYPE_EFUSE_REAL_CONTENT_LEN
  | TYPE_AVAILABLE_EFUSE_BYTES_BANK | TYPE_AVAILABLE_EFUSE_BYTES_TOTAL | TYPE_EFUSE_MAP_LEN
  | TYPE_EFUSE_PROTECT_BYTES_BANK | TYPE_EFUSE_CONTENT_LEN_BANK

fun Hal_GetEfuseDefinition :: "u8 \<Rightarrow> efuse_def_type \<Rightarrow> u16" where
  "Hal_GetEfuseDefinition efuseType TYPE_EFUSE_MAX_SECTION =
     (if efuseType = EFUSE_WIFI then ucast EFUSE_MAX_SECTION_8188F else ucast EFUSE_BT_MAX_SECTION)"
| "Hal_GetEfuseDefinition efuseType TYPE_EFUSE_REAL_CONTENT_LEN =
     (if efuseType = EFUSE_WIFI then EFUSE_REAL_CONTENT_LEN_8188F else EFUSE_BT_REAL_CONTENT_LEN)"
| "Hal_GetEfuseDefinition efuseType TYPE_AVAILABLE_EFUSE_BYTES_BANK =
     (if efuseType = EFUSE_WIFI then EFUSE_REAL_CONTENT_LEN_8188F - EFUSE_OOB_PROTECT_BYTES
      else EFUSE_BT_REAL_BANK_CONTENT_LEN - EFUSE_PROTECT_BYTES_BANK)"
| "Hal_GetEfuseDefinition efuseType TYPE_AVAILABLE_EFUSE_BYTES_TOTAL =
     (if efuseType = EFUSE_WIFI then EFUSE_REAL_CONTENT_LEN_8188F - EFUSE_OOB_PROTECT_BYTES
      else EFUSE_BT_REAL_CONTENT_LEN - EFUSE_PROTECT_BYTES_BANK * 3)"
| "Hal_GetEfuseDefinition efuseType TYPE_EFUSE_MAP_LEN =
     (if efuseType = EFUSE_WIFI then EFUSE_MAP_LEN_8188F else EFUSE_BT_MAP_LEN)"
| "Hal_GetEfuseDefinition efuseType TYPE_EFUSE_PROTECT_BYTES_BANK =
     (if efuseType = EFUSE_WIFI then EFUSE_OOB_PROTECT_BYTES else EFUSE_PROTECT_BYTES_BANK)"
| "Hal_GetEfuseDefinition efuseType TYPE_EFUSE_CONTENT_LEN_BANK =
     (if efuseType = EFUSE_WIFI then EFUSE_REAL_CONTENT_LEN_8188F else EFUSE_BT_REAL_BANK_CONTENT_LEN)"

section \<open>Registers\<close>

definition EFUSE_CTRL :: u32 where "EFUSE_CTRL = 0x30"
definition EFUSE_TEST :: u32 where "EFUSE_TEST = 0x34"
definition REG_SYS_CLKR :: u32 where "REG_SYS_CLKR = 0x8"
definition REG_EFUSE_ACCESS :: u32 where "REG_EFUSE_ACCESS = 0xCF"
definition EFUSE_ACCESS_ON :: u8 where "EFUSE_ACCESS_ON = 0x69"
definition EFUSE_ACCESS_OFF :: u8 where "EFUSE_ACCESS_OFF = 0x00"
definition FEN_ELDR :: u16 where "FEN_ELDR = 0x1000"
definition LOADER_CLK_EN :: u16 where "LOADER_CLK_EN = 0x20"
definition ANA8M :: u16 where "ANA8M = 0x2"
definition BIT11 :: u32 where "BIT11 = 0x800"
definition BIT26 :: u32 where "BIT26 = 0x4000000"
definition bMaskDWord :: u32 where "bMaskDWord = 0xffffffff"

lemmas ef_regs = EFUSE_CTRL_def EFUSE_TEST_def REG_SYS_CLKR_def REG_EFUSE_ACCESS_def REG_SYS_FUNC_EN_def

text \<open>The position of the lowest bit of a mask, 32 for no bit.\<close>

definition phy_CalculateBitShift :: "u32 \<Rightarrow> nat" where
  "phy_CalculateBitShift BitMask = (case find (\<lambda>i. bit BitMask i) [0..<32] of Some i \<Rightarrow> i | None \<Rightarrow> 32)"

definition PHY_SetBBReg_8188F :: "'h usb_host \<Rightarrow> u32 \<Rightarrow> u32 \<Rightarrow> u32 \<Rightarrow> ('h, unit) io" where
  "PHY_SetBBReg_8188F H RegAddr BitMask Data =
     (if BitMask \<noteq> bMaskDWord
      then do {
        OriginalValue \<leftarrow> rtw_read32 H RegAddr;
        _ \<leftarrow> rtw_write32 H RegAddr
               ((OriginalValue AND NOT BitMask) OR (push_bit (phy_CalculateBitShift BitMask) Data AND BitMask));
        State_Monad.return () }
      else do { _ \<leftarrow> rtw_write32 H RegAddr Data; State_Monad.return () })"

definition PHY_SetMacReg :: "'h usb_host \<Rightarrow> u32 \<Rightarrow> u32 \<Rightarrow> u32 \<Rightarrow> ('h, unit) ef" where
  "PHY_SetMacReg H RegAddr BitMask Data = on_dev (PHY_SetBBReg_8188F H RegAddr BitMask Data)"

definition rtw_mdelay_os :: "'h usb_host \<Rightarrow> nat \<Rightarrow> ('h, unit) io" where
  "rtw_mdelay_os H ms = rtw_udelay_os H (1000 * ms)"

definition hal_EfuseSwitchToBank :: "'h usb_host \<Rightarrow> u8 \<Rightarrow> bool \<Rightarrow> ('h, bool) ef" where
  "hal_EfuseSwitchToBank H bank bPseudoTest =
     (if bPseudoTest
      then do {
        _ \<leftarrow> upd_ef (\<lambda>s. s\<lparr>EfuseHal := (EfuseHal s)\<lparr>fakeEfuseBank := bank\<rparr>\<rparr>);
        State_Monad.return True }
      else on_dev (do {
        value32 \<leftarrow> rtw_read32 H EFUSE_TEST;
        let sel = (if bank = 1 then 0x100 else if bank = 2 then 0x200 else if bank = 3 then 0x300 else 0);
        _ \<leftarrow> rtw_write32 H EFUSE_TEST ((value32 AND NOT 0x300) OR sel);
        State_Monad.return (bank \<le> 3) }))"

definition Hal_EfusePowerSwitch :: "'h usb_host \<Rightarrow> bool \<Rightarrow> bool \<Rightarrow> ('h, unit) io" where
  "Hal_EfusePowerSwitch H bWrite PwrState =
     (if PwrState
      then do {
        _ \<leftarrow> rtw_write8 H REG_EFUSE_ACCESS EFUSE_ACCESS_ON;
        tmpV16 \<leftarrow> rtw_read16 H REG_SYS_FUNC_EN;
        _ \<leftarrow> (if tmpV16 AND FEN_ELDR = 0 then rtw_write16 H REG_SYS_FUNC_EN (tmpV16 OR FEN_ELDR)
               else State_Monad.return True);
        tmpV16 \<leftarrow> rtw_read16 H REG_SYS_CLKR;
        _ \<leftarrow> (if tmpV16 AND LOADER_CLK_EN = 0 \<or> tmpV16 AND ANA8M = 0
               then rtw_write16 H REG_SYS_CLKR (tmpV16 OR (LOADER_CLK_EN OR ANA8M))
               else State_Monad.return True);
        if bWrite
        then do {
          tempval \<leftarrow> rtw_read8 H (EFUSE_TEST + 3);
          _ \<leftarrow> rtw_write8 H (EFUSE_TEST + 3) (tempval OR 0x80);
          State_Monad.return () }
        else State_Monad.return () }
      else do {
        _ \<leftarrow> rtw_write8 H REG_EFUSE_ACCESS EFUSE_ACCESS_OFF;
        if bWrite
        then do {
          tempval \<leftarrow> rtw_read8 H (EFUSE_TEST + 3);
          _ \<leftarrow> rtw_write8 H (EFUSE_TEST + 3) (tempval AND 0x7F);
          State_Monad.return () }
        else State_Monad.return () })"

definition Efuse_PowerSwitch :: "'h usb_host \<Rightarrow> bool \<Rightarrow> bool \<Rightarrow> ('h, unit) ef" where
  "Efuse_PowerSwitch H bWrite PwrState = on_dev (Hal_EfusePowerSwitch H bWrite PwrState)"

definition Hal_BT_EfusePowerSwitch :: "'h usb_host \<Rightarrow> bool \<Rightarrow> ('h, unit) io" where
  "Hal_BT_EfusePowerSwitch H PwrState =
     (if PwrState
      then do {
        tempval \<leftarrow> rtw_read8 H 0x6B;
        _ \<leftarrow> rtw_write8 H 0x6B (tempval OR 0x40);
        _ \<leftarrow> rtw_udelay_os H 100;
        tempval \<leftarrow> rtw_read8 H 0x6B;
        _ \<leftarrow> rtw_write8 H 0x6B (tempval AND NOT 0x80);
        State_Monad.return () }
      else do {
        tempval \<leftarrow> rtw_read8 H 0x6B;
        _ \<leftarrow> rtw_write8 H 0x6B (tempval OR 0x80);
        tempval \<leftarrow> rtw_read8 H 0x6B;
        _ \<leftarrow> rtw_write8 H 0x6B (tempval AND NOT 0x40);
        State_Monad.return () })"

section \<open>One byte\<close>

text \<open>
  The arrays of the pseudo test. The value behind the pointer is an argument, since it is left
  alone when the offset is too large.
\<close>

definition Efuse_Read1ByteFromFakeContent :: "u16 \<Rightarrow> u8 \<Rightarrow> ('h, bool \<times> u8) ef" where
  "Efuse_Read1ByteFromFakeContent Offset old = get_ef (\<lambda>s.
     if unat Offset \<ge> EFUSE_MAX_HW_SIZE then (False, old)
     else if glob_fakeEfuseBank s = 0 then (True, fakeEfuseContent s ! unat Offset)
     else (True, fakeBTEfuseContent s ! (unat (glob_fakeEfuseBank s) - 1) ! unat Offset))"

definition Efuse_Write1ByteToFakeContent :: "u16 \<Rightarrow> u8 \<Rightarrow> ('h, bool) ef" where
  "Efuse_Write1ByteToFakeContent Offset Value =
     (if unat Offset \<ge> EFUSE_MAX_HW_SIZE then State_Monad.return False
      else do {
        _ \<leftarrow> upd_ef (\<lambda>s.
          if glob_fakeEfuseBank s = 0 then s\<lparr>fakeEfuseContent := (fakeEfuseContent s)[unat Offset := Value]\<rparr>
          else (let k = unat (glob_fakeEfuseBank s) - 1
                in s\<lparr>fakeBTEfuseContent := (fakeBTEfuseContent s)[k := (fakeBTEfuseContent s ! k)[unat Offset := Value]]\<rparr>));
        State_Monad.return True })"

text \<open>Wait while the flag in bit 7 of the control register is as \<open>busy\<close> says; the result is \<open>tmpidx\<close>.\<close>

fun efuse_wait :: "'h usb_host \<Rightarrow> (u8 \<Rightarrow> bool) \<Rightarrow> nat \<Rightarrow> nat \<Rightarrow> ('h, nat) io" where
  "efuse_wait H busy 0 tmpidx = do { _ \<leftarrow> rtw_read8 H (EFUSE_CTRL + 3); State_Monad.return tmpidx }"
| "efuse_wait H busy (Suc n) tmpidx = do {
     v \<leftarrow> rtw_read8 H (EFUSE_CTRL + 3);
     if busy v then do { _ \<leftarrow> rtw_mdelay_os H 1; efuse_wait H busy n (tmpidx + 1) }
     else State_Monad.return tmpidx }"

text \<open>The address goes to the second and the low bits of the third byte of the control register.\<close>

definition efuse_set_addr :: "'h usb_host \<Rightarrow> u16 \<Rightarrow> ('h, unit) io" where
  "efuse_set_addr H addr = do {
     _ \<leftarrow> rtw_write8 H (EFUSE_CTRL + 1) (ucast addr);
     readbyte \<leftarrow> rtw_read8 H (EFUSE_CTRL + 2);
     _ \<leftarrow> rtw_write8 H (EFUSE_CTRL + 2) ((ucast (drop_bit 8 addr) AND 0x03) OR (readbyte AND 0xfc));
     State_Monad.return () }"

definition efuse_OneByteRead_hw :: "'h usb_host \<Rightarrow> bool \<Rightarrow> u16 \<Rightarrow> ('h, bool \<times> u8) io" where
  "efuse_OneByteRead_hw H smic addr = do {
     _ \<leftarrow> (if smic then do { v \<leftarrow> rtw_read16 H EFUSE_TEST; rtw_write16 H EFUSE_TEST (v AND NOT (ucast BIT11)) }
            else State_Monad.return True);
     _ \<leftarrow> efuse_set_addr H addr;
     readbyte \<leftarrow> rtw_read8 H (EFUSE_CTRL + 3);
     _ \<leftarrow> rtw_write8 H (EFUSE_CTRL + 3) (readbyte AND 0x7f);
     tmpidx \<leftarrow> efuse_wait H (\<lambda>v. v AND 0x80 = 0) 1000 0;
     if tmpidx < 100
     then do { v \<leftarrow> rtw_read8 H EFUSE_CTRL; State_Monad.return (True, v) }
     else State_Monad.return (False, 0xff) }"

definition efuse_OneByteRead :: "'h usb_host \<Rightarrow> u16 \<Rightarrow> u8 \<Rightarrow> bool \<Rightarrow> ('h, bool \<times> u8) ef" where
  "efuse_OneByteRead H addr old bPseudoTest =
     (if bPseudoTest then Efuse_Read1ByteFromFakeContent addr old
      else do {
        smic \<leftarrow> get_ef vendor_smic;
        on_dev (efuse_OneByteRead_hw H smic addr) })"

definition efuse_OneByteWrite_hw :: "'h usb_host \<Rightarrow> bool \<Rightarrow> u16 \<Rightarrow> u8 \<Rightarrow> ('h, bool) io" where
  "efuse_OneByteWrite_hw H smic addr val = do {
     _ \<leftarrow> Hal_EfusePowerSwitch H True True;
     efuseValue \<leftarrow> rtw_read32 H EFUSE_CTRL;
     let cmd = push_bit 8 (ucast addr) OR ucast val;
     _ \<leftarrow> (if smic
            then do {
              v \<leftarrow> rtw_read16 H EFUSE_TEST;
              _ \<leftarrow> rtw_write16 H EFUSE_TEST (v OR ucast BIT11);
              rtw_write32 H EFUSE_CTRL (0x90600000 OR cmd) }
            else rtw_write32 H EFUSE_CTRL
                   (((efuseValue OR 0x80200000) AND NOT 0x3FFFF) OR (cmd AND 0x3FFFF)));
     tmpidx \<leftarrow> efuse_wait H (\<lambda>v. v AND 0x80 \<noteq> 0) 100 0;
     _ \<leftarrow> (if smic then PHY_SetBBReg_8188F H EFUSE_TEST BIT11 0 else State_Monad.return ());
     _ \<leftarrow> Hal_EfusePowerSwitch H True False;
     State_Monad.return (tmpidx < 100) }"

definition efuse_OneByteWrite :: "'h usb_host \<Rightarrow> u16 \<Rightarrow> u8 \<Rightarrow> bool \<Rightarrow> ('h, bool) ef" where
  "efuse_OneByteWrite H addr val bPseudoTest =
     (if bPseudoTest then Efuse_Write1ByteToFakeContent addr val
      else do {
        smic \<leftarrow> get_ef vendor_smic;
        on_dev (efuse_OneByteWrite_hw H smic addr val) })"

section \<open>The older routines\<close>

text \<open>Poll bit 7 of \<open>EFUSE_CTRL + 3\<close> after the first read; \<open>n\<close> more reads at most.\<close>

fun efuse_poll8 :: "'h usb_host \<Rightarrow> (u8 \<Rightarrow> bool) \<Rightarrow> nat \<Rightarrow> u8 \<Rightarrow> ('h, unit) io" where
  "efuse_poll8 H busy 0 Bytetemp = State_Monad.return ()"
| "efuse_poll8 H busy (Suc n) Bytetemp =
     (if busy Bytetemp then do { Bytetemp \<leftarrow> rtw_read8 H (EFUSE_CTRL + 3); efuse_poll8 H busy n Bytetemp }
      else State_Monad.return ())"

definition EFUSE_Read1Byte :: "'h usb_host \<Rightarrow> u16 \<Rightarrow> ('h, u8) io" where
  "EFUSE_Read1Byte H Address =
     (if Address < Hal_GetEfuseDefinition EFUSE_WIFI TYPE_EFUSE_REAL_CONTENT_LEN
      then do {
        _ \<leftarrow> efuse_set_addr H Address;
        Bytetemp \<leftarrow> rtw_read8 H (EFUSE_CTRL + 3);
        _ \<leftarrow> rtw_write8 H (EFUSE_CTRL + 3) (Bytetemp AND 0x7F);
        Bytetemp \<leftarrow> rtw_read8 H (EFUSE_CTRL + 3);
        _ \<leftarrow> efuse_poll8 H (\<lambda>v. v AND 0x80 = 0) 1000 Bytetemp;
        rtw_read8 H EFUSE_CTRL }
      else State_Monad.return 0xFF)"

definition EFUSE_Write1Byte :: "'h usb_host \<Rightarrow> u16 \<Rightarrow> u8 \<Rightarrow> ('h, unit) io" where
  "EFUSE_Write1Byte H Address Value =
     (if Address < Hal_GetEfuseDefinition EFUSE_WIFI TYPE_EFUSE_REAL_CONTENT_LEN
      then do {
        _ \<leftarrow> rtw_write8 H EFUSE_CTRL Value;
        _ \<leftarrow> efuse_set_addr H Address;
        Bytetemp \<leftarrow> rtw_read8 H (EFUSE_CTRL + 3);
        _ \<leftarrow> rtw_write8 H (EFUSE_CTRL + 3) (Bytetemp OR 0x80);
        Bytetemp \<leftarrow> rtw_read8 H (EFUSE_CTRL + 3);
        efuse_poll8 H (\<lambda>v. v AND 0x80 \<noteq> 0) 100 Bytetemp }
      else State_Monad.return ())"

fun efuse_poll32 :: "'h usb_host \<Rightarrow> nat \<Rightarrow> u32 \<Rightarrow> ('h, unit) io" where
  "efuse_poll32 H 0 value32 = State_Monad.return ()"
| "efuse_poll32 H (Suc n) value32 =
     (if drop_bit 24 value32 AND 0x80 = 0
      then do { value32 \<leftarrow> rtw_read32 H EFUSE_CTRL; efuse_poll32 H n value32 }
      else State_Monad.return ())"

definition ReadEFuseByte :: "'h usb_host \<Rightarrow> u16 \<Rightarrow> u8 \<Rightarrow> bool \<Rightarrow> ('h, u8) ef" where
  "ReadEFuseByte H off old bPseudoTest =
     (if bPseudoTest then do { (_, v) \<leftarrow> Efuse_Read1ByteFromFakeContent off old; State_Monad.return v }
      else on_dev (do {
        _ \<leftarrow> efuse_set_addr H off;
        readbyte \<leftarrow> rtw_read8 H (EFUSE_CTRL + 3);
        _ \<leftarrow> rtw_write8 H (EFUSE_CTRL + 3) (readbyte AND 0x7f);
        value32 \<leftarrow> rtw_read32 H EFUSE_CTRL;
        _ \<leftarrow> efuse_poll32 H 10000 value32;
        _ \<leftarrow> rtw_udelay_os H 50;
        value32 \<leftarrow> rtw_read32 H EFUSE_CTRL;
        State_Monad.return (ucast value32) }))"

section \<open>Running operations\<close>

definition wp :: "('s, 'a) state \<Rightarrow> ('a \<Rightarrow> 's \<Rightarrow> bool) \<Rightarrow> 's \<Rightarrow> bool" where
  "wp m Q s = (case run_state m s of (x, s') \<Rightarrow> Q x s')"

lemma wp_return [simp]: "wp (State_Monad.return x) Q = Q x"
  by (simp add: wp_def State_Monad.return_def fun_eq_iff)

lemma wp_bind [simp]: "wp (m \<bind> f) Q = wp m (\<lambda>x. wp (f x) Q)"
  by (simp add: wp_def fun_eq_iff split: prod.splits)

lemma wp_get_ef [simp]: "wp (get_ef f) Q = (\<lambda>s. Q (f s) s)"
  by (simp add: wp_def get_ef_def fun_eq_iff)

lemma wp_upd_ef [simp]: "wp (upd_ef f) Q = (\<lambda>s. Q () (f s))"
  by (simp add: wp_def upd_ef_def fun_eq_iff)

lemma wp_on_dev [simp]: "wp (on_dev m) Q s = wp m (\<lambda>x d. Q x (s\<lparr>ef_dev := d\<rparr>)) (ef_dev s)"
  by (simp add: wp_def on_dev_def split: prod.splits)

lemma wp_mono: "wp m P s \<Longrightarrow> (\<And>x s'. P x s' \<Longrightarrow> Q x s') \<Longrightarrow> wp m Q s"
  by (simp add: wp_def split: prod.splits)

lemma wp_all: "(\<And>x s'. Q x s') \<Longrightarrow> wp m Q s"
  by (simp add: wp_def split: prod.splits)

lemma wp_run: "wp m Q s \<Longrightarrow> run_state m s = (x, s') \<Longrightarrow> Q x s'"
  by (simp add: wp_def)

lemma wp_True [simp]: "wp m (\<lambda>_ _. True) s"
  by (simp add: wp_def split: prod.splits)

text \<open>What reading leaves alone: everything but the device and the bank of the pseudo test.\<close>

definition settings :: "'h ef_sys \<Rightarrow> 'h ef_sys" where
  "settings s = s\<lparr>ef_dev := undefined, fakeEfuseContent := [], fakeBTEfuseContent := [],
     EfuseHal := (EfuseHal s)\<lparr>fakeEfuseBank := 0\<rparr>\<rparr>"

lemma settings_dev [simp]: "settings (s\<lparr>ef_dev := d\<rparr>) = settings s"
  by (simp add: settings_def)

lemma settings_content [simp]: "settings (s\<lparr>fakeEfuseContent := c\<rparr>) = settings s"
  by (simp add: settings_def)

lemma settings_bank [simp]: "settings (s\<lparr>EfuseHal := (EfuseHal s)\<lparr>fakeEfuseBank := k\<rparr>\<rparr>) = settings s"
  by (simp add: settings_def)

lemma settings_eqD:
  assumes "settings s = settings t"
  shows "vendor_smic s = vendor_smic t" "EfuseUsedBytes s = EfuseUsedBytes t"
    "fakeEfuseUsedBytes (EfuseHal s) = fakeEfuseUsedBytes (EfuseHal t)"
    "boffefusemask s = boffefusemask t" "bFileMaskEfuse s = bFileMaskEfuse t" "maskfileBuffer s = maskfileBuffer t"
    "efuse_eeprom_data s = efuse_eeprom_data t" "glob_fakeEfuseBank s = glob_fakeEfuseBank t"
proof -
  have "vendor_smic (settings s) = vendor_smic (settings t)" "EfuseUsedBytes (settings s) = EfuseUsedBytes (settings t)"
    "fakeEfuseUsedBytes (EfuseHal (settings s)) = fakeEfuseUsedBytes (EfuseHal (settings t))"
    "boffefusemask (settings s) = boffefusemask (settings t)" "bFileMaskEfuse (settings s) = bFileMaskEfuse (settings t)"
    "maskfileBuffer (settings s) = maskfileBuffer (settings t)"
    "efuse_eeprom_data (settings s) = efuse_eeprom_data (settings t)"
    "glob_fakeEfuseBank (settings s) = glob_fakeEfuseBank (settings t)"
    using assms by simp_all
  then show "vendor_smic s = vendor_smic t" "EfuseUsedBytes s = EfuseUsedBytes t"
    "fakeEfuseUsedBytes (EfuseHal s) = fakeEfuseUsedBytes (EfuseHal t)"
    "boffefusemask s = boffefusemask t" "bFileMaskEfuse s = bFileMaskEfuse t" "maskfileBuffer s = maskfileBuffer t"
    "efuse_eeprom_data s = efuse_eeprom_data t" "glob_fakeEfuseBank s = glob_fakeEfuseBank t"
    by (simp_all add: settings_def)
qed

section \<open>A memory of bytes\<close>

definition same_fuses :: "('h ef_sys \<Rightarrow> bytes) \<Rightarrow> ('h ef_sys \<Rightarrow> bool) \<Rightarrow> 'h ef_sys \<Rightarrow> 'h ef_sys \<Rightarrow> bool" where
  "same_fuses cells good s s' \<longleftrightarrow> good s' \<and> cells s' = cells s \<and> settings s' = settings s"

lemma same_refl: "good s \<Longrightarrow> same_fuses cells good s s"
  by (simp add: same_fuses_def)

lemma same_trans [trans]:
  "same_fuses cells good s t \<Longrightarrow> same_fuses cells good t u \<Longrightarrow> same_fuses cells good s u"
  by (simp add: same_fuses_def)

lemma same_good: "same_fuses cells good s t \<Longrightarrow> good t"
  by (simp add: same_fuses_def)

lemma same_cells: "same_fuses cells good s t \<Longrightarrow> cells t = cells s"
  by (simp add: same_fuses_def)

lemma same_settings: "same_fuses cells good s t \<Longrightarrow> settings t = settings s"
  by (simp add: same_fuses_def)

text \<open>
  The contract the packet routines are written for. \<open>cells s\<close> are the 512 bytes of bank 0;
  reading gives a byte and changes none, and writing sets a byte that is blank (0xFF). The access
  to the register \<open>EFUSE_TEST\<close> around it is harmless.
\<close>

locale fuse_memory =
  fixes H :: "'h usb_host" and pseudo :: bool
    and cells :: "'h ef_sys \<Rightarrow> bytes" and good :: "'h ef_sys \<Rightarrow> bool"
  assumes cells_length: "good s \<Longrightarrow> length (cells s) = 512"
    and cells_settings: "good s \<Longrightarrow> cells (s\<lparr>EfuseHal := h, EfuseUsedBytes := u, EfuseUsedPercentage := v\<rparr>) = cells s"
    and good_settings: "good s \<Longrightarrow> good (s\<lparr>EfuseHal := h, EfuseUsedBytes := u, EfuseUsedPercentage := v\<rparr>)"
    and read_spec: "good s \<Longrightarrow> unat a < 512 \<Longrightarrow>
      wp (efuse_OneByteRead H a old pseudo)
        (\<lambda>r s'. r = (True, cells s ! unat a) \<and> good s' \<and> cells s' = cells s \<and> settings s' = settings s) s"
    and write_spec: "good s \<Longrightarrow> unat a < 512 \<Longrightarrow> cells s ! unat a = 0xFF \<Longrightarrow>
      wp (efuse_OneByteWrite H a v pseudo)
        (\<lambda>r s'. r \<and> good s' \<and> cells s' = (cells s)[unat a := v] \<and> settings s' = settings s) s"
    and bank_spec: "good s \<Longrightarrow>
      wp (hal_EfuseSwitchToBank H 0 pseudo)
        (\<lambda>r s'. r \<and> good s' \<and> cells s' = cells s \<and> settings s' = settings s) s"
    and test_spec: "good s \<Longrightarrow>
      wp (PHY_SetMacReg H EFUSE_TEST BIT26 d)
        (\<lambda>r s'. good s' \<and> cells s' = cells s \<and> settings s' = settings s) s"
begin

lemma read_wp:
  assumes "good s" and "unat a < 512" and "\<And>s'. same_fuses cells good s s' \<Longrightarrow> Q (True, cells s ! unat a) s'"
  shows "wp (efuse_OneByteRead H a old pseudo) Q s"
  by (rule wp_mono [OF read_spec [OF assms(1,2)]]) (auto simp: same_fuses_def intro!: assms(3))

lemma bank_wp:
  assumes "good s" and "\<And>s'. same_fuses cells good s s' \<Longrightarrow> Q True s'"
  shows "wp (hal_EfuseSwitchToBank H 0 pseudo) Q s"
  by (rule wp_mono [OF bank_spec [OF assms(1)]]) (auto simp: same_fuses_def intro!: assms(2))

lemma test_wp:
  assumes "good s" and "\<And>r s'. same_fuses cells good s s' \<Longrightarrow> Q r s'"
  shows "wp (PHY_SetMacReg H EFUSE_TEST BIT26 v) Q s"
  by (rule wp_mono [OF test_spec [OF assms(1)]]) (auto simp: same_fuses_def intro!: assms(2))

lemma write_wp:
  assumes "good s" and "unat a < 512" and "cells s ! unat a = 0xFF"
    and "\<And>s'. good s' \<Longrightarrow> cells s' = (cells s)[unat a := v] \<Longrightarrow> settings s' = settings s \<Longrightarrow> Q True s'"
  shows "wp (efuse_OneByteWrite H a v pseudo) Q s"
  by (rule wp_mono [OF write_spec [OF assms(1-3)]]) (auto intro!: assms(4))

end

text \<open>The arrays of the pseudo test, while its bank is 0, whatever the device does.\<close>

definition fake_ready :: "'h ef_sys \<Rightarrow> bool" where
  "fake_ready s \<longleftrightarrow> glob_fakeEfuseBank s = 0 \<and> length (fakeEfuseContent s) = EFUSE_MAX_HW_SIZE"

interpretation fake: fuse_memory H True fakeEfuseContent fake_ready
proof (unfold_locales, goal_cases)
  case (4 s a old)
  then show ?case
    by (simp add: efuse_OneByteRead_def Efuse_Read1ByteFromFakeContent_def fake_ready_def EFUSE_MAX_HW_SIZE_def)
next
  case (5 s a v)
  then show ?case
    by (simp add: efuse_OneByteWrite_def Efuse_Write1ByteToFakeContent_def fake_ready_def EFUSE_MAX_HW_SIZE_def)
next
  case (6 s)
  then show ?case by (simp add: hal_EfuseSwitchToBank_def fake_ready_def)
next
  case (7 s v)
  then show ?case by (simp add: PHY_SetMacReg_def fake_ready_def)
qed (simp_all add: fake_ready_def EFUSE_MAX_HW_SIZE_def)

end
