(* ===== verification/Ef_Map.thy ===== *)
theory Ef_Map
  imports Ef_Access
begin

text \<open>
  Reading the one-time memory (\<open>hal/rtl8188f/rtl8188f_hal_init.c\<close>). It holds a log of
  packets, each a header of one or two bytes with the number of a section of eight bytes and
  a mask of four words, and the words themselves; later packets override earlier ones, and a byte
  0xFF ends the log. \<open>hal_ReadEFuse_WiFi\<close> and \<open>hal_ReadEFuse_BT\<close> replay the log into the
  map, \<open>hal_EfuseGetCurrentSize_WiFi\<close> and \<open>_BT\<close> find its end, and
  \<open>Hal_EfusePgPacketRead\<close> gathers one section.
\<close>

section \<open>Headers\<close>

definition EXT_HEADER :: "u8 \<Rightarrow> bool" where "EXT_HEADER header \<longleftrightarrow> header AND 0x1F = 0x0F"
definition ALL_WORDS_DISABLED :: "u8 \<Rightarrow> bool" where "ALL_WORDS_DISABLED wde \<longleftrightarrow> wde AND 0x0F = 0x0F"
definition GET_HDR_OFFSET_2_0 :: "u8 \<Rightarrow> u8" where "GET_HDR_OFFSET_2_0 header = drop_bit 5 (header AND 0xE0)"

definition Efuse_CalculateWordCnts :: "u8 \<Rightarrow> u8" where
  "Efuse_CalculateWordCnts word_en =
     (if bit word_en 0 then 0 else 1) + (if bit word_en 1 then 0 else 1) +
     (if bit word_en 2 then 0 else 1) + (if bit word_en 3 then 0 else 1)"

definition word_bytes :: "u8 \<Rightarrow> u16" where
  "word_bytes word_en = ucast (Efuse_CalculateWordCnts word_en) * 2"

text \<open>
  What the header \<open>hdr\<close> at \<open>addr\<close> says; the second byte of an extended header is read from
  the memory. \<open>PgEmpty\<close> is an extended header that enables no word.
\<close>

datatype pg_header = PgEmpty | PgHdr (pg_ext: bool) (pg_offset: u8) (pg_wden: u8)

definition pg_decode :: "'h usb_host \<Rightarrow> bool \<Rightarrow> u8 \<Rightarrow> u16 \<Rightarrow> ('h, pg_header) ef" where
  "pg_decode H bPseudoTest hdr addr =
     (if EXT_HEADER hdr
      then do {
        (_, ext) \<leftarrow> efuse_OneByteRead H (addr + 1) hdr bPseudoTest;
        State_Monad.return
          (if ALL_WORDS_DISABLED ext then PgEmpty
           else PgHdr True (GET_HDR_OFFSET_2_0 hdr OR drop_bit 1 (ext AND 0xF0)) (ext AND 0x0F)) }
      else State_Monad.return (PgHdr False (drop_bit 4 hdr AND 0x0F) (hdr AND 0x0F)))"

definition hdr_len :: "bool \<Rightarrow> u16" where "hdr_len ext = (if ext then 2 else 1)"

lemma word_cnts_le: "unat (Efuse_CalculateWordCnts w) \<le> 4"
  by (simp add: Efuse_CalculateWordCnts_def)

lemma word_bytes_le: "word_bytes w \<le> 8"
  by (simp add: word_bytes_def Efuse_CalculateWordCnts_def)

lemma word_bytes_even: "word_bytes w \<in> {0, 2, 4, 6, 8}"
  by (simp add: word_bytes_def Efuse_CalculateWordCnts_def)

lemma unat_add_small: "unat (a :: u16) < 256 \<Longrightarrow> unat k \<le> 16 \<Longrightarrow> unat (a + k) = unat a + unat k"
  by (simp add: unat_word_ariths)

lemma addr_grows:
  assumes "AVAILABLE_EFUSE_ADDR a" and "0 < unat k" and "unat k \<le> 16"
  shows "256 - unat (a + k) < 256 - unat a"
proof -
  have "unat a < 256"
    using assms(1) by (simp add: AVAILABLE_EFUSE_ADDR_def EFUSE_REAL_CONTENT_LEN_8188F_def word_less_nat_alt)
  then show ?thesis using assms(2,3) by (simp add: unat_add_small)
qed

lemma next_addr_grows:
  "AVAILABLE_EFUSE_ADDR a \<Longrightarrow> 256 - unat (a + hdr_len e + word_bytes w) < 256 - unat a"
  using addr_grows [of a "hdr_len e + word_bytes w"] word_bytes_even [of w]
  by (auto simp: hdr_len_def add.assoc)

section \<open>The map\<close>

text \<open>
  The words that a packet enables, from \<open>addr\<close> on into the map from \<open>base\<close> on. The list
  of the four word numbers is an argument; the bytes read are \<open>word_bytes wden\<close> in all.
\<close>

fun read_words :: "'h usb_host \<Rightarrow> bool \<Rightarrow> u8 \<Rightarrow> nat \<Rightarrow> nat list \<Rightarrow> u16 \<Rightarrow> bytes \<Rightarrow> ('h, bytes) ef" where
  "read_words H bPseudoTest wden base [] addr tbl = State_Monad.return tbl"
| "read_words H bPseudoTest wden base (i # is) addr tbl =
     (if bit wden i then read_words H bPseudoTest wden base is addr tbl
      else do {
        (_, lo) \<leftarrow> efuse_OneByteRead H addr 0 bPseudoTest;
        (_, hi) \<leftarrow> efuse_OneByteRead H (addr + 1) 0 bPseudoTest;
        read_words H bPseudoTest wden base is (addr + 2) (tbl[base + 2 * i := lo, base + 2 * i + 1 := hi]) })"

text \<open>The loop over the packets of a bank; the result is the address after the last byte read.\<close>

function map_walk :: "'h usb_host \<Rightarrow> bool \<Rightarrow> u8 \<Rightarrow> u16 \<Rightarrow> bytes \<Rightarrow> ('h, u16 \<times> bytes) ef" where
  "map_walk H bPseudoTest max_section addr tbl =
     (if AVAILABLE_EFUSE_ADDR addr
      then do {
        (_, hdr) \<leftarrow> efuse_OneByteRead H addr 0 bPseudoTest;
        if hdr = 0xFF then State_Monad.return (addr + 1, tbl)
        else do {
          p \<leftarrow> pg_decode H bPseudoTest hdr addr;
          case p of
            PgEmpty \<Rightarrow> map_walk H bPseudoTest max_section (addr + 2) tbl
          | PgHdr ext offset wden \<Rightarrow>
              if offset < max_section
              then do {
                tbl \<leftarrow> read_words H bPseudoTest wden (unat offset * PGPKT_DATA_SIZE) [0..<EFUSE_MAX_WORD_UNIT]
                         (addr + hdr_len ext) tbl;
                map_walk H bPseudoTest max_section (addr + hdr_len ext + word_bytes wden) tbl }
              else map_walk H bPseudoTest max_section (addr + hdr_len ext + word_bytes wden) tbl } }
      else State_Monad.return (addr, tbl))"
  by pat_completeness auto
termination
  by (relation "measure (\<lambda>(H, b, m, addr, tbl). 256 - unat addr)") (auto simp: next_addr_grows addr_grows)

declare map_walk.simps [simp del]

text \<open>Copying \<open>size\<close> bytes of the map to the caller; \<open>None\<close> when it returns before.\<close>

definition hal_ReadEFuse_WiFi :: "'h usb_host \<Rightarrow> bool \<Rightarrow> u16 \<Rightarrow> u16 \<Rightarrow> bool \<Rightarrow> ('h, bytes option) ef" where
  "hal_ReadEFuse_WiFi H malloc_ok off size_byte bPseudoTest =
     (if unat off + unat size_byte > EFUSE_MAX_MAP_LEN then State_Monad.return None
      else if \<not> malloc_ok then State_Monad.return None
      else do {
        _ \<leftarrow> hal_EfuseSwitchToBank H 0 bPseudoTest;
        (addr, efuseTbl) \<leftarrow> map_walk H bPseudoTest EFUSE_MAX_SECTION_8188F 0 (replicate EFUSE_MAX_MAP_LEN 0xFF);
        let total = Hal_GetEfuseDefinition EFUSE_WIFI TYPE_AVAILABLE_EFUSE_BYTES_TOTAL;
        let used = addr - 1;
        let usage = (if total \<noteq> 0 then of_nat (unat used * 100 div unat total) else 100);
        _ \<leftarrow> upd_ef (\<lambda>s. if bPseudoTest then s\<lparr>EfuseHal := (EfuseHal s)\<lparr>fakeEfuseUsedBytes := ucast used\<rparr>\<rparr>
                            else s\<lparr>EfuseUsedBytes := used, EfuseUsedPercentage := usage\<rparr>);
        State_Monad.return (Some (take (unat size_byte) (drop (unat off) efuseTbl))) })"

text \<open>The banks 1 and 2; the result is the bank the loop ends with, 3 when it looked at both.\<close>

fun bt_banks :: "'h usb_host \<Rightarrow> bool \<Rightarrow> u16 \<Rightarrow> u8 list \<Rightarrow> u16 \<Rightarrow> bytes \<Rightarrow> ('h, (u8 \<times> u16 \<times> bytes) option) ef" where
  "bt_banks H bPseudoTest bank_len [] addr tbl = State_Monad.return (Some (3, addr, tbl))"
| "bt_banks H bPseudoTest bank_len (bank # banks) addr tbl = do {
     ok \<leftarrow> hal_EfuseSwitchToBank H bank bPseudoTest;
     if \<not> ok then State_Monad.return None
     else do {
       (addr, tbl) \<leftarrow> map_walk H bPseudoTest EFUSE_BT_MAX_SECTION 0 tbl;
       if addr - 1 < bank_len then State_Monad.return (Some (bank, addr, tbl))
       else bt_banks H bPseudoTest bank_len banks addr tbl } }"

definition hal_ReadEFuse_BT :: "'h usb_host \<Rightarrow> bool \<Rightarrow> u16 \<Rightarrow> u16 \<Rightarrow> bool \<Rightarrow> ('h, bytes option) ef" where
  "hal_ReadEFuse_BT H malloc_ok off size_byte bPseudoTest =
     (if unat off + unat size_byte > unat EFUSE_BT_MAP_LEN then State_Monad.return None
      else if \<not> malloc_ok then State_Monad.return None
      else do {
        r \<leftarrow> bt_banks H bPseudoTest (Hal_GetEfuseDefinition EFUSE_BT TYPE_AVAILABLE_EFUSE_BYTES_BANK) [1, 2] 0
               (replicate (unat EFUSE_BT_MAP_LEN) 0xFF);
        case r of
          None \<Rightarrow> State_Monad.return None
        | Some (bank, addr, efuseTbl) \<Rightarrow> do {
            _ \<leftarrow> hal_EfuseSwitchToBank H 0 bPseudoTest;
            let total = Hal_GetEfuseDefinition EFUSE_BT TYPE_AVAILABLE_EFUSE_BYTES_TOTAL;
            let used = EFUSE_BT_REAL_BANK_CONTENT_LEN * (ucast bank - 1) + addr - 1;
            let usage = of_nat (unat used * 100 div unat total);
            _ \<leftarrow> upd_ef (\<lambda>s. s\<lparr>EfuseHal :=
                   (if bPseudoTest then (EfuseHal s)\<lparr>fakeBTEfuseUsedBytes := used\<rparr>
                    else (EfuseHal s)\<lparr>BTEfuseUsedBytes := used, BTEfuseUsedPercentage := usage\<rparr>)\<rparr>);
            State_Monad.return (Some (take (unat size_byte) (drop (unat off) efuseTbl))) } })"

definition Hal_ReadEFuse :: "'h usb_host \<Rightarrow> bool \<Rightarrow> u8 \<Rightarrow> u16 \<Rightarrow> u16 \<Rightarrow> bool \<Rightarrow> ('h, bytes option) ef" where
  "Hal_ReadEFuse H malloc_ok efuseType off size_byte bPseudoTest =
     (if efuseType = EFUSE_WIFI then hal_ReadEFuse_WiFi H malloc_ok off size_byte bPseudoTest
      else hal_ReadEFuse_BT H malloc_ok off size_byte bPseudoTest)"

section \<open>The end of the log\<close>

text \<open>
  The loop of \<open>hal_EfuseGetCurrentSize_WiFi\<close>; \<open>None\<close> is the jump to its label \<open>error\<close>.
  After an extended header without words it goes on at the second byte of that header.
\<close>

function size_walk :: "'h usb_host \<Rightarrow> bool \<Rightarrow> u16 \<Rightarrow> u16 \<Rightarrow> nat \<Rightarrow> ('h, u16 option) ef" where
  "size_walk H bPseudoTest addr start_addr count =
     (if AVAILABLE_EFUSE_ADDR addr
      then do {
        (ok, efuse_data) \<leftarrow> efuse_OneByteRead H addr 0 bPseudoTest;
        if \<not> ok then State_Monad.return None
        else if efuse_data = 0xFF then State_Monad.return (Some addr)
        else if start_addr \<noteq> 0 \<and> addr = start_addr
        then (if count + 1 < 4
              then (if count + 1 > 2 then size_walk H bPseudoTest 0 0 (count + 1)
                    else size_walk H bPseudoTest addr start_addr (count + 1))
              else State_Monad.return None)
        else do {
          p \<leftarrow> pg_decode H bPseudoTest efuse_data addr;
          case p of
            PgEmpty \<Rightarrow> size_walk H bPseudoTest (addr + 1) start_addr count
          | PgHdr ext offset wden \<Rightarrow> size_walk H bPseudoTest (addr + hdr_len ext + word_bytes wden) start_addr count } }
      else State_Monad.return (Some addr))"
  by pat_completeness auto
termination
  by (relation "(\<lambda>(H, b, addr, start, count). if start \<noteq> 0 then 4 - count else 0) <*mlex*>
        measure (\<lambda>(H, b, addr, start, count). 256 - unat addr)")
    (auto simp: mlex_iff wf_mlex next_addr_grows addr_grows)

declare size_walk.simps [simp del]

definition hal_EfuseGetCurrentSize_WiFi :: "'h usb_host \<Rightarrow> bool \<Rightarrow> ('h, u16) ef" where
  "hal_EfuseGetCurrentSize_WiFi H bPseudoTest = do {
     start \<leftarrow> get_ef (\<lambda>s. if bPseudoTest then ucast (fakeEfuseUsedBytes (EfuseHal s)) else EfuseUsedBytes s);
     _ \<leftarrow> hal_EfuseSwitchToBank H 0 bPseudoTest;
     r \<leftarrow> size_walk H bPseudoTest start start 0;
     case r of
       Some addr \<Rightarrow> do {
         _ \<leftarrow> upd_ef (\<lambda>s. if bPseudoTest then s\<lparr>EfuseHal := (EfuseHal s)\<lparr>fakeEfuseUsedBytes := ucast addr\<rparr>\<rparr>
                             else s\<lparr>EfuseUsedBytes := addr\<rparr>);
         State_Monad.return addr }
     | None \<Rightarrow> State_Monad.return (Hal_GetEfuseDefinition EFUSE_WIFI TYPE_AVAILABLE_EFUSE_BYTES_TOTAL) }"

function bt_size_walk :: "'h usb_host \<Rightarrow> bool \<Rightarrow> u16 \<Rightarrow> ('h, u16) ef" where
  "bt_size_walk H bPseudoTest addr =
     (if AVAILABLE_EFUSE_ADDR addr
      then do {
        (ok, efuse_data) \<leftarrow> efuse_OneByteRead H addr 0 bPseudoTest;
        if \<not> ok \<or> efuse_data = 0xFF then State_Monad.return addr
        else do {
          p \<leftarrow> pg_decode H bPseudoTest efuse_data addr;
          case p of
            PgEmpty \<Rightarrow> bt_size_walk H bPseudoTest (addr + 2)
          | PgHdr ext offset wden \<Rightarrow> bt_size_walk H bPseudoTest (addr + hdr_len ext + word_bytes wden) } }
      else State_Monad.return addr)"
  by pat_completeness auto
termination
  by (relation "measure (\<lambda>(H, b, addr). 256 - unat addr)") (auto simp: next_addr_grows addr_grows)

declare bt_size_walk.simps [simp del]

text \<open>The loop over the banks, with those still to come: the bank it ends with, and the address there.\<close>

fun bt_size_banks :: "'h usb_host \<Rightarrow> bool \<Rightarrow> u8 \<Rightarrow> u8 list \<Rightarrow> u8 \<Rightarrow> u16 \<Rightarrow> ('h, u8 \<times> u16) ef" where
  "bt_size_banks H bPseudoTest startBank [] bank addr = State_Monad.return (bank, addr)"
| "bt_size_banks H bPseudoTest startBank (b # banks) bank addr = do {
     ok \<leftarrow> hal_EfuseSwitchToBank H b bPseudoTest;
     if \<not> ok then State_Monad.return (b, addr)
     else do {
       addr \<leftarrow> bt_size_walk H bPseudoTest (if b \<noteq> startBank then 0 else addr);
       if addr < Hal_GetEfuseDefinition EFUSE_BT TYPE_AVAILABLE_EFUSE_BYTES_BANK then State_Monad.return (b, addr)
       else bt_size_banks H bPseudoTest startBank banks (b + 1) addr } }"

definition hal_EfuseGetCurrentSize_BT :: "'h usb_host \<Rightarrow> bool \<Rightarrow> ('h, u16) ef" where
  "hal_EfuseGetCurrentSize_BT H bPseudoTest = do {
     btusedbytes \<leftarrow> get_ef (\<lambda>s. if bPseudoTest then fakeBTEfuseUsedBytes (EfuseHal s) else BTEfuseUsedBytes (EfuseHal s));
     let startBank = 1 + ucast (btusedbytes div EFUSE_BT_REAL_BANK_CONTENT_LEN);
     (bank, addr) \<leftarrow> bt_size_banks H bPseudoTest startBank
        (if startBank = 1 then [1, 2] else if startBank = 2 then [2] else []) startBank
        (btusedbytes mod EFUSE_BT_REAL_BANK_CONTENT_LEN);
     let retU2 = (ucast bank - 1) * EFUSE_BT_REAL_BANK_CONTENT_LEN + addr;
     _ \<leftarrow> upd_ef (\<lambda>s. s\<lparr>EfuseHal := (if bPseudoTest then (EfuseHal s)\<lparr>fakeBTEfuseUsedBytes := retU2\<rparr>
                                       else (EfuseHal s)\<lparr>BTEfuseUsedBytes := retU2\<rparr>)\<rparr>);
     State_Monad.return retU2 }"

definition Hal_EfuseGetCurrentSize :: "'h usb_host \<Rightarrow> u8 \<Rightarrow> bool \<Rightarrow> ('h, u16) ef" where
  "Hal_EfuseGetCurrentSize H efuseType bPseudoTest =
     (if efuseType = EFUSE_WIFI then hal_EfuseGetCurrentSize_WiFi H bPseudoTest
      else hal_EfuseGetCurrentSize_BT H bPseudoTest)"

section \<open>One section\<close>

function packet_walk :: "'h usb_host \<Rightarrow> bool \<Rightarrow> u8 \<Rightarrow> u16 \<Rightarrow> bytes \<Rightarrow> ('h, bool \<times> bytes) ef" where
  "packet_walk H bPseudoTest offset addr data =
     (if AVAILABLE_EFUSE_ADDR addr
      then do {
        (ok, efuse_data) \<leftarrow> efuse_OneByteRead H addr 0 bPseudoTest;
        if \<not> ok then State_Monad.return (False, data)
        else if efuse_data = 0xFF then State_Monad.return (True, data)
        else do {
          p \<leftarrow> pg_decode H bPseudoTest efuse_data addr;
          case p of
            PgEmpty \<Rightarrow> packet_walk H bPseudoTest offset (addr + 2) data
          | PgHdr ext hoffset hworden \<Rightarrow>
              if hoffset = offset
              then do {
                data \<leftarrow> read_words H bPseudoTest hworden 0 [0..<EFUSE_MAX_WORD_UNIT] (addr + hdr_len ext) data;
                packet_walk H bPseudoTest offset (addr + hdr_len ext + word_bytes hworden) data }
              else packet_walk H bPseudoTest offset (addr + hdr_len ext + word_bytes hworden) data } }
      else State_Monad.return (True, data))"
  by pat_completeness auto
termination
  by (relation "measure (\<lambda>(H, b, off, addr, data). 256 - unat addr)") (auto simp: next_addr_grows addr_grows)

declare packet_walk.simps [simp del]

text \<open>The buffer of eight bytes afterwards, or \<open>None\<close> when it is left alone.\<close>

definition Hal_EfusePgPacketRead :: "'h usb_host \<Rightarrow> u8 \<Rightarrow> bool \<Rightarrow> ('h, bool \<times> bytes option) ef" where
  "Hal_EfusePgPacketRead H offset bPseudoTest =
     (if ucast offset > Hal_GetEfuseDefinition EFUSE_WIFI TYPE_EFUSE_MAX_SECTION then State_Monad.return (False, None)
      else do {
        (ret, data) \<leftarrow> packet_walk H bPseudoTest offset 0 (replicate PGPKT_DATA_SIZE 0xFF);
        State_Monad.return (ret, Some data) })"

end
