(* ===== verification/Ef_Log.thy ===== *)
theory Ef_Log
  imports Ef_Map
begin

text \<open>
  The contents of the one-time memory as a log of packets: what a packet looks like in bytes, and
  what the reading routines of \<open>Ef_Map\<close> make of a log. A memory that holds a log is the
  predicate \<open>holds_log\<close>.
\<close>

section \<open>Packets\<close>

datatype packet = Packet (pkt_offset: u8) (pkt_en: u8) (pkt_data: bytes)

text \<open>A section number of seven bits, a mask that enables a word, and eight bytes.\<close>

definition pkt_ok :: "packet \<Rightarrow> bool" where
  "pkt_ok p \<longleftrightarrow> pkt_offset p < 128 \<and> pkt_en p < 15 \<and> length (pkt_data p) = 8"

definition pkt_header :: "packet \<Rightarrow> bytes" where
  "pkt_header p =
     (if pkt_offset p < 16 then [push_bit 4 (pkt_offset p) OR pkt_en p]
      else [push_bit 5 (pkt_offset p AND 0x07) OR 0x0F, push_bit 1 (pkt_offset p AND 0x78) OR pkt_en p])"

definition word_at :: "u8 \<Rightarrow> bytes \<Rightarrow> nat \<Rightarrow> bytes" where
  "word_at en d i = (if bit en i then [] else [d ! (2 * i), d ! (2 * i + 1)])"

definition enabled_bytes :: "u8 \<Rightarrow> bytes \<Rightarrow> bytes" where
  "enabled_bytes en d = concat (map (word_at en d) [0..<4])"

definition pkt_bytes :: "packet \<Rightarrow> bytes" where
  "pkt_bytes p = pkt_header p @ enabled_bytes (pkt_en p) (pkt_data p)"

definition log_bytes :: "packet list \<Rightarrow> bytes" where
  "log_bytes ps = concat (map pkt_bytes ps)"

text \<open>The words of a packet put over a map.\<close>

definition put_word :: "u8 \<Rightarrow> nat \<Rightarrow> bytes \<Rightarrow> nat \<Rightarrow> bytes \<Rightarrow> bytes" where
  "put_word en base d i m = (if bit en i then m else m[base + 2 * i := d ! (2 * i), base + 2 * i + 1 := d ! (2 * i + 1)])"

definition overlay :: "u8 \<Rightarrow> nat \<Rightarrow> bytes \<Rightarrow> bytes \<Rightarrow> bytes" where
  "overlay en base d m = fold (put_word en base d) [0..<4] m"

definition pkt_apply :: "u8 \<Rightarrow> packet \<Rightarrow> bytes \<Rightarrow> bytes" where
  "pkt_apply max_section p m =
     (if pkt_offset p < max_section then overlay (pkt_en p) (unat (pkt_offset p) * 8) (pkt_data p) m else m)"

definition log_map :: "packet list \<Rightarrow> bytes" where
  "log_map ps = fold (pkt_apply EFUSE_MAX_SECTION_8188F) ps (replicate 512 0xFF)"

text \<open>A memory that holds a log, a blank byte behind it.\<close>

definition holds_log :: "packet list \<Rightarrow> bytes \<Rightarrow> bool" where
  "holds_log ps c \<longleftrightarrow> list_all pkt_ok ps \<and> length (log_bytes ps) < 256 \<and>
     take (Suc (length (log_bytes ps))) c = log_bytes ps @ [0xFF]"

lemma log_bytes_simps [simp]:
  "log_bytes [] = []" "log_bytes (p # ps) = pkt_bytes p @ log_bytes ps" "log_bytes (ps @ qs) = log_bytes ps @ log_bytes qs"
  by (simp_all add: log_bytes_def)

lemma word_at_simps [simp]:
  "bit en i \<Longrightarrow> word_at en d i = []" "\<not> bit en i \<Longrightarrow> word_at en d i = [d ! (2 * i), d ! (2 * i + 1)]"
  by (simp_all add: word_at_def)

lemma put_word_simps [simp]:
  "bit en i \<Longrightarrow> put_word en base d i m = m"
  "\<not> bit en i \<Longrightarrow> put_word en base d i m = m[base + 2 * i := d ! (2 * i), base + 2 * i + 1 := d ! (2 * i + 1)]"
  by (simp_all add: put_word_def)

lemma upt4: "[0..<4] = [0, 1, 2, 3 :: nat]"
  by (simp add: upt_rec)

lemma length_enabled [simp]: "length (enabled_bytes en d) = unat (word_bytes en)"
  by (simp add: enabled_bytes_def word_at_def word_bytes_def Efuse_CalculateWordCnts_def upt4)

lemma length_header: "length (pkt_header p) = unat (hdr_len (16 \<le> pkt_offset p))"
  by (simp add: pkt_header_def hdr_len_def not_le)

lemma length_pkt: "length (pkt_bytes p) = unat (hdr_len (16 \<le> pkt_offset p)) + unat (word_bytes (pkt_en p))"
  by (simp add: pkt_bytes_def length_header)

lemma unat_hdr_len: "unat (hdr_len e) = (if e then 2 else 1)"
  by (simp add: hdr_len_def)

lemma pkt_nonempty: "0 < length (pkt_bytes p)" "length (pkt_bytes p) \<le> 10"
  using word_bytes_even [of "pkt_en p"] by (auto simp: length_pkt unat_hdr_len)

lemma length_put_word [simp]: "length (put_word en base d i m) = length m"
  by (simp add: put_word_def)

lemma length_overlay [simp]: "length (overlay en base d m) = length m"
  by (simp add: overlay_def upt4)

section \<open>What the routines keep\<close>

definition used_bytes :: "bool \<Rightarrow> 'h ef_sys \<Rightarrow> u16" where
  "used_bytes pseudo s = (if pseudo then ucast (fakeEfuseUsedBytes (EfuseHal s)) else EfuseUsedBytes s)"

definition mask_cfg :: "'h ef_sys \<Rightarrow> bool \<times> bool \<times> bytes" where
  "mask_cfg s = (boffefusemask s, bFileMaskEfuse s, maskfileBuffer s)"

lemma mask_cfg_settings: "settings s = settings t \<Longrightarrow> mask_cfg s = mask_cfg t"
  using settings_eqD [of s t] by (simp add: mask_cfg_def)

lemma used_bytes_settings: "settings s = settings t \<Longrightarrow> used_bytes pseudo s = used_bytes pseudo t"
  using settings_eqD [of s t] by (simp add: used_bytes_def)

section \<open>Header bytes\<close>

lemma header_masks: "(0x0F :: u8) = mask 4" "(0x1F :: u8) = mask 5" "(0xE0 :: u8) = push_bit 5 (mask 3)"
   "(0xF0 :: u8) = push_bit 4 (mask 4)" "(0x78 :: u8) = push_bit 3 (mask 4)" "(0x07 :: u8) = mask 3"
  by (simp_all add: mask_eq_exp_minus_1)

lemma small_bits:
  fixes w :: u8
  assumes "unat w < 2 ^ k"
  shows "bit w n \<Longrightarrow> n < k"
proof -
  have "take_bit k w = w" using assms by (simp add: word_unat_eq_iff unsigned_take_bit_eq take_bit_nat_eq_self)
  then show "bit w n \<Longrightarrow> n < k" by (metis bit_take_bit_iff)
qed

lemma en_bit: "(en :: u8) < 15 \<Longrightarrow> bit en n \<Longrightarrow> n < 4"
  using small_bits [of en 4] by (simp add: word_less_nat_alt)

lemma off_bit: "(off :: u8) < 128 \<Longrightarrow> bit off n \<Longrightarrow> n < 7"
  using small_bits [of off 7] by (simp add: word_less_nat_alt)

lemma header1:
  assumes "en < 15" and "off < (16 :: u8)"
  shows "(push_bit 4 off OR en) AND 0x0F = en" and "drop_bit 4 (push_bit 4 off OR en) AND 0x0F = off"
proof -
  show "(push_bit 4 off OR en) AND 0x0F = en"
    unfolding header_masks by (rule bit_word_eqI) (auto simp: bit_simps dest: en_bit [OF assms(1)])
  have "bit off n \<Longrightarrow> n < 4" for n using small_bits [of off 4] assms(2) by (simp add: word_less_nat_alt)
  then show "drop_bit 4 (push_bit 4 off OR en) AND 0x0F = off"
    unfolding header_masks by (intro bit_word_eqI) (auto simp: bit_simps dest: en_bit [OF assms(1)])
qed

lemma header2:
  assumes "en < 15" and "off < (128 :: u8)"
  shows "(push_bit 1 (off AND 0x78) OR en) AND 0x0F = en"
    and "GET_HDR_OFFSET_2_0 (push_bit 5 (off AND 0x07) OR 0x0F) OR
           drop_bit 1 ((push_bit 1 (off AND 0x78) OR en) AND 0xF0) = off"
proof -
  show "(push_bit 1 (off AND 0x78) OR en) AND 0x0F = en"
    unfolding header_masks by (rule bit_word_eqI) (auto simp: bit_simps dest: en_bit [OF assms(1)] simp del: push_bit_Suc)
  show "GET_HDR_OFFSET_2_0 (push_bit 5 (off AND 0x07) OR 0x0F) OR
          drop_bit 1 ((push_bit 1 (off AND 0x78) OR en) AND 0xF0) = off"
    unfolding header_masks GET_HDR_OFFSET_2_0_def
    by (intro bit_word_eqI) (auto simp: bit_simps dest: en_bit [OF assms(1)] off_bit [OF assms(2)] simp del: push_bit_Suc)
qed

lemma ext_first: "EXT_HEADER (push_bit 5 (off AND 0x07) OR 0x0F)"
  unfolding EXT_HEADER_def header_masks by (intro bit_word_eqI) (auto simp: bit_simps)

lemma ext_first_used: "push_bit 5 (off AND 0x07) OR 0x0F \<noteq> (0xFF :: u8)" (is "?x \<noteq> _")
proof
  assume "?x = 0xFF"
  then have "bit ?x 4 = bit (0xFF :: u8) 4" by simp
  then show False by (simp add: header_masks bit_simps)
qed

lemma enabled_header:
  assumes "x AND 0x0F = en" and "en < (15 :: u8)"
  shows "\<not> EXT_HEADER x" "x \<noteq> 0xFF" "\<not> ALL_WORDS_DISABLED x"
proof -
  have "x AND 0x0F = 0x0F" if "x AND 0x1F = 0x0F"
  proof -
    have "x AND 0x0F = (x AND 0x1F) AND 0x0F" by (simp add: and.assoc)
    then show ?thesis using that by simp
  qed
  moreover have "en \<noteq> 0x0F" using assms(2) by auto
  ultimately show "\<not> EXT_HEADER x" "x \<noteq> 0xFF" "\<not> ALL_WORDS_DISABLED x"
    using assms(1) by (auto simp: EXT_HEADER_def ALL_WORDS_DISABLED_def)
qed

lemma header_used: "pkt_ok p \<Longrightarrow> hd (pkt_header p) \<noteq> 0xFF"
  using enabled_header(2) [OF header1(1)] ext_first_used by (auto simp: pkt_header_def pkt_ok_def)

lemma hd_pkt: "hd (pkt_bytes p @ rest) = hd (pkt_header p)"
  by (simp add: pkt_bytes_def pkt_header_def)

section \<open>Reading a log\<close>

context fuse_memory
begin

lemma same_self: "good s \<Longrightarrow> same_fuses cells good s s"
  by (rule same_refl)

lemma read_words_wp:
  assumes "good s" and "drop (unat a) (cells s) = concat (map (word_at en d) is) @ rest"
    and "unat a + length (concat (map (word_at en d) is)) < 512"
    and "\<And>s'. same_fuses cells good s s' \<Longrightarrow> Q (fold (put_word en base d) is tbl) s'"
  shows "wp (read_words H pseudo en base is a tbl) Q s"
  using assms
proof (induction "is" arbitrary: a tbl s)
  case Nil
  then show ?case by (simp add: same_self)
next
  case (Cons i "is")
  show ?case
  proof (cases "bit en i")
    case True
    then show ?thesis using Cons by simp
  next
    case False
    have d: "drop (unat a) (cells s) = d ! (2 * i) # d ! (2 * i + 1) # concat (map (word_at en d) is) @ rest"
      using Cons.prems(2) False by simp
    have a: "unat a + 2 + length (concat (map (word_at en d) is)) < 512"
      using Cons.prems(3) False by simp
    have n: "unat (a + 1) = unat a + 1" "unat (a + 2) = unat a + 2" using a by (simp_all add: unat_word_ariths)
    have c: "cells s ! unat a = d ! (2 * i)" "cells s ! (unat a + 1) = d ! (2 * i + 1)"
      using arg_cong [OF d, of hd] arg_cong [OF d, of "\<lambda>x. x ! 1"] a cells_length [OF Cons.prems(1)]
      by (simp_all add: hd_drop_conv_nth)
    have rest: "drop (unat (a + 2)) (cells s) = concat (map (word_at en d) is) @ rest"
      using arg_cong [OF d, of "drop 2"] n(2) by (simp add: add.commute)
    let ?tbl = "tbl[base + 2 * i := d ! (2 * i), base + 2 * i + 1 := d ! (2 * i + 1)]"
    have Q: "wp (read_words H pseudo en base is (a + 2) ?tbl) Q t" if t: "same_fuses cells good s t" for t
    proof (rule Cons.IH [OF same_good [OF t]])
      show "drop (unat (a + 2)) (cells t) = concat (map (word_at en d) is) @ rest"
        using rest by (simp add: same_cells [OF t])
      show "unat (a + 2) + length (concat (map (word_at en d) is)) < 512" using a n(2) by simp
      show "Q (fold (put_word en base d) is ?tbl) u" if "same_fuses cells good t u" for u
        using Cons.prems(4) [OF same_trans [OF t that]] False by simp
    qed
    show ?thesis
      unfolding read_words.simps if_not_P [OF False] wp_bind
    proof (rule read_wp [OF Cons.prems(1)])
      fix t
      assume t: "same_fuses cells good s t"
      show "wp (case (True, cells s ! unat a) of (uu, lo) \<Rightarrow>
              do { (uu, hi) \<leftarrow> efuse_OneByteRead H (a + 1) 0 pseudo;
                   read_words H pseudo en base is (a + 2) (tbl[base + 2 * i := lo, base + 2 * i + 1 := hi]) }) Q t"
        unfolding prod.case wp_bind
      proof (rule read_wp [OF same_good [OF t]])
        show "wp (case (True, cells t ! unat (a + 1)) of (uu, hi) \<Rightarrow>
              read_words H pseudo en base is (a + 2) (tbl[base + 2 * i := cells s ! unat a, base + 2 * i + 1 := hi])) Q u"
          if "same_fuses cells good t u" for u
          using Q [OF same_trans [OF t that]] c n(1) by (simp add: same_cells [OF t])
      qed (use a n(1) in simp)
    qed (use a in simp)
  qed
qed

lemma decode_wp:
  assumes "good s" and "pkt_ok p" and "drop (unat a) (cells s) = pkt_bytes p @ rest" and "unat a < 256"
    and "\<And>s'. same_fuses cells good s s' \<Longrightarrow> Q (PgHdr (16 \<le> pkt_offset p) (pkt_offset p) (pkt_en p)) s'"
  shows "wp (pg_decode H pseudo (hd (pkt_header p)) a) Q s"
proof (cases "pkt_offset p < 16")
  case True
  have en: "pkt_en p < 15" using assms(2) by (simp add: pkt_ok_def)
  have e: "(16 \<le> pkt_offset p) = False" using True by simp
  show ?thesis
    using assms(5) [OF same_self [OF assms(1)], unfolded e] True enabled_header(1) [OF header1(1) [OF en True] en] header1 [OF en True]
    by (simp add: pg_decode_def pkt_header_def not_le)
next
  case False
  have ok: "pkt_en p < 15" "pkt_offset p < 128" using assms(2) by (simp_all add: pkt_ok_def)
  let ?ext = "push_bit 1 (pkt_offset p AND 0x78) OR pkt_en p"
  have n: "unat (a + 1) = unat a + 1" using assms(4) by (simp add: unat_word_ariths)
  have c: "cells s ! unat (a + 1) = ?ext"
    using arg_cong [OF assms(3), of "\<lambda>x. x ! 1"] False n assms(4) cells_length [OF assms(1)]
    by (simp add: pkt_bytes_def pkt_header_def)
  have "wp (efuse_OneByteRead H (a + 1) (hd (pkt_header p)) pseudo)
          (\<lambda>r s'. r = (True, ?ext) \<and> same_fuses cells good s s') s"
    by (rule read_wp [OF assms(1)]) (use n assms(4) c in simp_all)
  then show ?thesis
    using False assms(5) ext_first header2 [OF ok] enabled_header(3) [OF header2(1) [OF ok] ok(1)]
    by (auto simp: pg_decode_def pkt_header_def not_less elim!: wp_mono)
qed

lemma pkt_step:
  assumes "drop (unat a) (cells s) = pkt_bytes p @ rest" and "unat a < 256" and "good s"
  shows "cells s ! unat a = hd (pkt_header p)"
    and "unat (a + hdr_len (16 \<le> pkt_offset p)) = unat a + length (pkt_header p)"
    and "unat (a + hdr_len (16 \<le> pkt_offset p) + word_bytes (pkt_en p)) = unat a + length (pkt_bytes p)"
    and "drop (unat (a + hdr_len (16 \<le> pkt_offset p))) (cells s) =
           concat (map (word_at (pkt_en p) (pkt_data p)) [0..<4]) @ rest"
    and "drop (unat (a + hdr_len (16 \<le> pkt_offset p) + word_bytes (pkt_en p))) (cells s) = rest"
proof -
  have w: "unat (word_bytes (pkt_en p)) \<le> 8" using word_bytes_even [of "pkt_en p"] by auto
  show "cells s ! unat a = hd (pkt_header p)"
    using arg_cong [OF assms(1), of hd] assms(2) cells_length [OF assms(3)]
    unfolding hd_pkt by (simp add: hd_drop_conv_nth)
  show h: "unat (a + hdr_len (16 \<le> pkt_offset p)) = unat a + length (pkt_header p)"
    using unat_add_small [OF assms(2)] by (simp add: length_header unat_hdr_len)
  show n: "unat (a + hdr_len (16 \<le> pkt_offset p) + word_bytes (pkt_en p)) = unat a + length (pkt_bytes p)"
    using assms(2) w by (simp add: length_pkt unat_hdr_len unat_word_ariths)
  have d: "drop (unat a + length (pkt_header p)) (cells s) = enabled_bytes (pkt_en p) (pkt_data p) @ rest"
    using arg_cong [OF assms(1), of "drop (length (pkt_header p))"] by (simp add: pkt_bytes_def add.commute)
  then show "drop (unat (a + hdr_len (16 \<le> pkt_offset p))) (cells s) =
         concat (map (word_at (pkt_en p) (pkt_data p)) [0..<4]) @ rest"
    unfolding h enabled_bytes_def .
  show "drop (unat (a + hdr_len (16 \<le> pkt_offset p) + word_bytes (pkt_en p))) (cells s) = rest"
    unfolding n using arg_cong [OF assms(1), of "drop (length (pkt_bytes p))"] by (simp add: add.commute)
qed

lemma map_walk_wp:
  assumes "good s" and "list_all pkt_ok ps" and "drop (unat a) (cells s) = log_bytes ps @ 0xFF # rest"
    and "unat a + length (log_bytes ps) < 256"
    and "\<And>s'. same_fuses cells good s s' \<Longrightarrow>
           Q (a + of_nat (length (log_bytes ps)) + 1, fold (pkt_apply max_section) ps tbl) s'"
  shows "wp (map_walk H pseudo max_section a tbl) Q s"
  using assms
proof (induction ps arbitrary: a tbl s)
  case Nil
  have av: "AVAILABLE_EFUSE_ADDR a"
    using Nil.prems(4) by (simp add: AVAILABLE_EFUSE_ADDR_def EFUSE_REAL_CONTENT_LEN_8188F_def word_less_nat_alt)
  have c: "cells s ! unat a = 0xFF"
    using arg_cong [OF Nil.prems(3), of hd] Nil.prems(4) cells_length [OF Nil.prems(1)] by (simp add: hd_drop_conv_nth)
  show ?case
    unfolding map_walk.simps [of H pseudo max_section a] if_P [OF av] wp_bind
    by (rule read_wp [OF Nil.prems(1)]) (use Nil.prems(4,5) c in simp_all)
next
  case (Cons p ps)
  let ?h = "hdr_len (16 \<le> pkt_offset p)" and ?w = "word_bytes (pkt_en p)"
  let ?f = "pkt_apply max_section p"
  have a: "unat a < 256" "unat a + length (pkt_bytes p) + length (log_bytes ps) < 256" using Cons.prems(4) by simp_all
  have av: "AVAILABLE_EFUSE_ADDR a"
    using a(1) by (simp add: AVAILABLE_EFUSE_ADDR_def EFUSE_REAL_CONTENT_LEN_8188F_def word_less_nat_alt)
  have p: "pkt_ok p" "list_all pkt_ok ps" using Cons.prems(2) by simp_all
  have d: "drop (unat a) (cells s) = pkt_bytes p @ log_bytes ps @ 0xFF # rest" using Cons.prems(3) by simp
  note step = pkt_step [OF d a(1) Cons.prems(1)]
  have next_addr: "of_nat (length (pkt_bytes p)) = ?h + ?w"
    by (simp add: length_pkt)
  have rec: "wp (map_walk H pseudo max_section (a + ?h + ?w) (?f tbl)) Q t" if t: "same_fuses cells good s t" for t
  proof (rule Cons.IH [OF same_good [OF t] p(2)])
    show "drop (unat (a + ?h + ?w)) (cells t) = log_bytes ps @ 0xFF # rest" using step(5) by (simp add: same_cells [OF t])
    show "unat (a + ?h + ?w) + length (log_bytes ps) < 256" using step(3) a(2) by simp
    show "Q (a + ?h + ?w + of_nat (length (log_bytes ps)) + 1, fold (pkt_apply max_section) ps (?f tbl)) u"
      if "same_fuses cells good t u" for u
      using Cons.prems(5) [OF same_trans [OF t that]] by (simp add: next_addr ac_simps)
  qed
  have words: "wp (read_words H pseudo (pkt_en p) (unat (pkt_offset p) * 8) [0..<4] (a + ?h) tbl)
      (\<lambda>tbl. wp (map_walk H pseudo max_section (a + ?h + ?w) tbl) Q) t"
    if t: "same_fuses cells good s t" and m: "pkt_offset p < max_section" for t
  proof (rule read_words_wp [OF same_good [OF t]])
    show "drop (unat (a + ?h)) (cells t) =
        concat (map (word_at (pkt_en p) (pkt_data p)) [0..<4]) @ log_bytes ps @ 0xFF # rest"
      using step(4) by (simp add: same_cells [OF t])
    show "unat (a + ?h) + length (concat (map (word_at (pkt_en p) (pkt_data p)) [0..<4])) < 512"
      using step(2) a(2) unfolding enabled_bytes_def [symmetric] by (simp add: pkt_bytes_def)
    show "wp (map_walk H pseudo max_section (a + ?h + ?w)
        (fold (put_word (pkt_en p) (unat (pkt_offset p) * 8) (pkt_data p)) [0..<4] tbl)) Q u"
      if "same_fuses cells good t u" for u
      using rec [OF same_trans [OF t that]] m by (simp add: pkt_apply_def overlay_def)
  qed
  show ?case
    unfolding map_walk.simps [of H pseudo max_section a] if_P [OF av] wp_bind
  proof (rule read_wp [OF Cons.prems(1)], goal_cases)
    case 1
    show ?case using a(1) by simp
  next
    case (2 t)
    show ?case
      unfolding step(1) prod.case if_not_P [OF header_used [OF p(1)]] wp_bind
    proof (rule decode_wp [OF same_good [OF 2] p(1), where rest = "log_bytes ps @ 0xFF # rest"], goal_cases)
      case 1
      show ?case using d by (simp add: same_cells [OF 2])
    next
      case 2
      show ?case using a(1) by simp
    next
      case (3 u)
      note u = same_trans [OF 2 3]
      show ?case
        using words [OF u] rec [OF u]
        by (cases "pkt_offset p < max_section") (simp_all add: PGPKT_DATA_SIZE_def EFUSE_MAX_WORD_UNIT_def pkt_apply_def)
    qed
  qed
qed

lemma size_scan_wp:
  assumes "good s" and "list_all pkt_ok ps" and "drop (unat a) (cells s) = log_bytes ps @ 0xFF # rest"
    and "unat a + length (log_bytes ps) < 256"
    and "\<And>s'. same_fuses cells good s s' \<Longrightarrow> Q (Some (a + of_nat (length (log_bytes ps)))) s'"
  shows "wp (size_walk H pseudo a 0 count) Q s"
  using assms
proof (induction ps arbitrary: a s)
  case Nil
  have av: "AVAILABLE_EFUSE_ADDR a"
    using Nil.prems(4) by (simp add: AVAILABLE_EFUSE_ADDR_def EFUSE_REAL_CONTENT_LEN_8188F_def word_less_nat_alt)
  have c: "cells s ! unat a = 0xFF"
    using arg_cong [OF Nil.prems(3), of hd] Nil.prems(4) cells_length [OF Nil.prems(1)] by (simp add: hd_drop_conv_nth)
  show ?case
    unfolding size_walk.simps [of H pseudo a 0 count] if_P [OF av] wp_bind
    by (rule read_wp [OF Nil.prems(1)]) (use Nil.prems(4,5) c in simp_all)
next
  case (Cons p ps)
  let ?h = "hdr_len (16 \<le> pkt_offset p)" and ?w = "word_bytes (pkt_en p)"
  have a: "unat a < 256" "unat a + length (pkt_bytes p) + length (log_bytes ps) < 256" using Cons.prems(4) by simp_all
  have av: "AVAILABLE_EFUSE_ADDR a"
    using a(1) by (simp add: AVAILABLE_EFUSE_ADDR_def EFUSE_REAL_CONTENT_LEN_8188F_def word_less_nat_alt)
  have p: "pkt_ok p" "list_all pkt_ok ps" using Cons.prems(2) by simp_all
  have d: "drop (unat a) (cells s) = pkt_bytes p @ log_bytes ps @ 0xFF # rest" using Cons.prems(3) by simp
  note step = pkt_step [OF d a(1) Cons.prems(1)]
  have next_addr: "of_nat (length (pkt_bytes p)) = ?h + ?w"
    by (simp add: length_pkt)
  have rec: "wp (size_walk H pseudo (a + ?h + ?w) 0 count) Q t" if t: "same_fuses cells good s t" for t
  proof (rule Cons.IH [OF same_good [OF t] p(2)])
    show "drop (unat (a + ?h + ?w)) (cells t) = log_bytes ps @ 0xFF # rest" using step(5) by (simp add: same_cells [OF t])
    show "unat (a + ?h + ?w) + length (log_bytes ps) < 256" using step(3) a(2) by simp
    show "Q (Some (a + ?h + ?w + of_nat (length (log_bytes ps)))) u" if "same_fuses cells good t u" for u
      using Cons.prems(5) [OF same_trans [OF t that]] by (simp add: next_addr ac_simps)
  qed
  show ?case
    unfolding size_walk.simps [of H pseudo a 0 count] if_P [OF av] wp_bind
  proof (rule read_wp [OF Cons.prems(1)], goal_cases)
    case 1
    show ?case using a(1) by simp
  next
    case (2 t)
    have "wp (pg_decode H pseudo (hd (pkt_header p)) a)
        (\<lambda>x t. wp (case x of PgEmpty \<Rightarrow> size_walk H pseudo (a + 1) 0 count
                 | PgHdr ext offset wden \<Rightarrow> size_walk H pseudo (a + hdr_len ext + word_bytes wden) 0 count) Q t) t"
      by (rule decode_wp [OF same_good [OF 2] p(1), where rest = "log_bytes ps @ 0xFF # rest"])
        (use d a(1) rec [OF same_trans [OF 2]] in \<open>simp_all add: same_cells [OF 2]\<close>)
    then show ?case
      using header_used [OF p(1)] by (simp add: step(1))
  qed
qed

text \<open>
  From any start the search finds the end: at once when it starts there or at 0; otherwise it
  finds the start written, tries twice more, and goes through the whole log.
\<close>

lemma size_walk_wp:
  assumes "good s" and "holds_log ps (cells s)"
    and "start = 0 \<or> start = of_nat (length (log_bytes ps)) \<or> unat start < 256 \<and> cells s ! unat start \<noteq> 0xFF"
    and "\<And>s'. same_fuses cells good s s' \<Longrightarrow> Q (Some (of_nat (length (log_bytes ps)))) s'"
  shows "wp (size_walk H pseudo start start 0) Q s"
proof -
  let ?n = "length (log_bytes ps)"
  have n: "?n < 256" "list_all pkt_ok ps" and t: "take (Suc ?n) (cells s) = log_bytes ps @ [0xFF]"
    using assms(2) by (auto simp: holds_log_def)
  have c: "cells s = log_bytes ps @ 0xFF # drop (Suc ?n) (cells s)"
    using t append_take_drop_id [of "Suc ?n" "cells s"] by simp
  have scan: "wp (size_walk H pseudo 0 0 k) Q t" if "same_fuses cells good s t" for t k
    by (rule size_scan_wp [OF same_good [OF that] n(2), where rest = "drop (Suc ?n) (cells s)"])
      (use c n(1) assms(4) [OF same_trans [OF that]] in \<open>simp_all add: same_cells [OF that]\<close>)
  consider (zero) "start = 0" | (here) "start \<noteq> 0" "start = of_nat ?n"
    | (retry) "start \<noteq> 0" "unat start < 256" "cells s ! unat start \<noteq> 0xFF"
    using assms(3) by blast
  then show ?thesis
  proof cases
    case zero
    then show ?thesis using scan [OF same_self [OF assms(1)]] by simp
  next
    case here
    have u: "unat start = ?n" using here(2) n(1) by (simp add: unat_of_nat take_bit_nat_eq_self)
    have av: "AVAILABLE_EFUSE_ADDR start"
      using u n(1) by (simp add: AVAILABLE_EFUSE_ADDR_def EFUSE_REAL_CONTENT_LEN_8188F_def word_less_nat_alt)
    have "cells s ! ?n = 0xFF" by (subst c) (simp add: nth_append)
    then show ?thesis
      unfolding size_walk.simps [of H pseudo start start 0] if_P [OF av] wp_bind
      using u n(1) assms(4) here(2) by (intro read_wp [OF assms(1)]) simp_all
  next
    case retry
    have av: "AVAILABLE_EFUSE_ADDR start"
      using retry(2) by (simp add: AVAILABLE_EFUSE_ADDR_def EFUSE_REAL_CONTENT_LEN_8188F_def word_less_nat_alt)
    have again: "wp (size_walk H pseudo start start k) Q t"
      if t: "same_fuses cells good s t" and k: "k < 3"
        and more: "\<And>u. same_fuses cells good s u \<Longrightarrow>
           wp (if k + 1 > 2 then size_walk H pseudo 0 0 (k + 1) else size_walk H pseudo start start (k + 1)) Q u" for k t
      unfolding size_walk.simps [of H pseudo start start k] if_P [OF av] wp_bind
    proof (rule read_wp [OF same_good [OF t]])
      show "unat start < 512" using retry(2) by simp
      show "wp (case (True, cells t ! unat start) of (ok, efuse_data) \<Rightarrow>
           if \<not> ok then State_Monad.return None
           else if efuse_data = 0xFF then State_Monad.return (Some start)
           else if start \<noteq> 0 \<and> start = start
           then (if k + 1 < 4
                 then (if k + 1 > 2 then size_walk H pseudo 0 0 (k + 1) else size_walk H pseudo start start (k + 1))
                 else State_Monad.return None)
           else do { p \<leftarrow> pg_decode H pseudo efuse_data start;
                     case p of PgEmpty \<Rightarrow> size_walk H pseudo (start + 1) start k
                     | PgHdr ext offset wden \<Rightarrow> size_walk H pseudo (start + hdr_len ext + word_bytes wden) start k }) Q u"
        if u: "same_fuses cells good t u" for u
        using retry(1,3) k more [OF same_trans [OF t u]] by (simp add: same_cells [OF t])
    qed
    have r2: "wp (size_walk H pseudo start start 2) Q t" if "same_fuses cells good s t" for t
      by (rule again [OF that]) (simp_all add: scan)
    have r1: "wp (size_walk H pseudo start start 1) Q t" if "same_fuses cells good s t" for t
      by (rule again [OF that]) (use r2 in \<open>simp_all add: numeral_2_eq_2\<close>)
    show ?thesis
      by (rule again [OF same_self [OF assms(1)]]) (use r1 in simp_all)
  qed
qed

lemma holds_log_split:
  assumes "holds_log ps c"
  obtains rest where "c = log_bytes ps @ 0xFF # rest"
proof
  have "take (Suc (length (log_bytes ps))) c = log_bytes ps @ [0xFF]" using assms by (simp add: holds_log_def)
  then show "c = log_bytes ps @ 0xFF # drop (Suc (length (log_bytes ps))) c"
    using append_take_drop_id [of "Suc (length (log_bytes ps))" c] by simp
qed

lemma store_used:
  assumes "same_fuses cells good s t"
    and t': "t' = (if pseudo then t\<lparr>EfuseHal := (EfuseHal t)\<lparr>fakeEfuseUsedBytes := ucast u\<rparr>\<rparr>
                   else t\<lparr>EfuseUsedBytes := u, EfuseUsedPercentage := v\<rparr>)"
  shows "good t'" and "cells t' = cells s" and "mask_cfg t' = mask_cfg s" and "used_bytes pseudo t' = u"
proof -
  note h = cells_settings [OF same_good [OF assms(1)], where h = "(EfuseHal t)\<lparr>fakeEfuseUsedBytes := ucast u\<rparr>"
      and u = "EfuseUsedBytes t" and v = "EfuseUsedPercentage t"]
    good_settings [OF same_good [OF assms(1)], where h = "(EfuseHal t)\<lparr>fakeEfuseUsedBytes := ucast u\<rparr>"
      and u = "EfuseUsedBytes t" and v = "EfuseUsedPercentage t"]
  note w = cells_settings [OF same_good [OF assms(1)], where h = "EfuseHal t" and u = u and v = v]
    good_settings [OF same_good [OF assms(1)], where h = "EfuseHal t" and u = u and v = v]
  have u: "(ucast (ucast u :: u32) :: u16) = u" by (rule bit_word_eqI) (auto simp: bit_simps)
  show "good t'" "cells t' = cells s"
    using h w t' by (cases pseudo; simp add: same_cells [OF assms(1)])+
  show "mask_cfg t' = mask_cfg s" "used_bytes pseudo t' = u"
    using mask_cfg_settings [OF same_settings [OF assms(1)]] u t' by (cases pseudo; simp add: mask_cfg_def used_bytes_def)+
qed

lemma read_map_wp:
  assumes "good s" and "holds_log ps (cells s)" and "unat off + unat n \<le> 512"
    and "\<And>s'. good s' \<Longrightarrow> cells s' = cells s \<Longrightarrow> mask_cfg s' = mask_cfg s \<Longrightarrow>
           used_bytes pseudo s' = of_nat (length (log_bytes ps)) \<Longrightarrow>
           Q (Some (take (unat n) (drop (unat off) (log_map ps)))) s'"
  shows "wp (hal_ReadEFuse_WiFi H True off n pseudo) Q s"
proof -
  let ?n = "length (log_bytes ps)"
  obtain rest where c: "cells s = log_bytes ps @ 0xFF # rest" by (rule holds_log_split [OF assms(2)])
  have ps: "list_all pkt_ok ps" "?n < 256" using assms(2) by (simp_all add: holds_log_def)
  let ?set = "\<lambda>addr s. if pseudo then s\<lparr>EfuseHal := (EfuseHal s)\<lparr>fakeEfuseUsedBytes := ucast (addr - 1)\<rparr>\<rparr>
      else s\<lparr>EfuseUsedBytes := addr - 1, EfuseUsedPercentage := of_nat (unat (addr - 1) * 100 div 221)\<rparr>"
  have walk: "wp (map_walk H pseudo EFUSE_MAX_SECTION_8188F 0 (replicate 512 0xFF))
      (\<lambda>x t. Q (Some (take (unat n) (drop (unat off) (snd x)))) (?set (fst x) t)) t"
    if t: "same_fuses cells good s t" for t
  proof (rule map_walk_wp [OF same_good [OF t] ps(1), where rest = rest])
    fix u
    assume "same_fuses cells good t u"
    then have u: "same_fuses cells good s u" by (rule same_trans [OF t])
    show "Q (Some (take (unat n) (drop (unat off)
              (snd (0 + of_nat ?n + 1 :: u16, fold (pkt_apply EFUSE_MAX_SECTION_8188F) ps (replicate 512 0xFF))))))
          (?set (fst (0 + of_nat ?n + 1, fold (pkt_apply EFUSE_MAX_SECTION_8188F) ps (replicate 512 0xFF))) u)"
      using assms(4) [OF store_used [OF u refl]] by (cases pseudo) (simp_all add: log_map_def)
  qed (use c ps(2) in \<open>simp_all add: same_cells [OF t]\<close>)
  have "unat (Hal_GetEfuseDefinition EFUSE_WIFI TYPE_AVAILABLE_EFUSE_BYTES_TOTAL) = 221"
    "Hal_GetEfuseDefinition EFUSE_WIFI TYPE_AVAILABLE_EFUSE_BYTES_TOTAL \<noteq> 0"
    by (simp_all add: ef_sizes)
  moreover have "wp (hal_EfuseSwitchToBank H 0 pseudo) (\<lambda>_. wp (map_walk H pseudo EFUSE_MAX_SECTION_8188F 0 (replicate 512 0xFF))
      (\<lambda>x t. Q (Some (take (unat n) (drop (unat off) (snd x)))) (?set (fst x) t))) s"
    by (rule bank_wp [OF assms(1)], rule walk)
  ultimately show ?thesis
    using assms(3)
    by (cases pseudo) (simp_all add: hal_ReadEFuse_WiFi_def EFUSE_MAX_MAP_LEN_def Let_def case_prod_unfold
        del: Hal_GetEfuseDefinition.simps)
qed

lemma get_size_wp:
  assumes "good s" and "holds_log ps (cells s)"
    and "used_bytes pseudo s = 0 \<or> used_bytes pseudo s = of_nat (length (log_bytes ps)) \<or>
           unat (used_bytes pseudo s) < 256 \<and> cells s ! unat (used_bytes pseudo s) \<noteq> 0xFF"
    and "\<And>s'. good s' \<Longrightarrow> cells s' = cells s \<Longrightarrow> mask_cfg s' = mask_cfg s \<Longrightarrow>
           used_bytes pseudo s' = of_nat (length (log_bytes ps)) \<Longrightarrow> Q (of_nat (length (log_bytes ps))) s'"
  shows "wp (hal_EfuseGetCurrentSize_WiFi H pseudo) Q s"
proof -
  let ?u = "of_nat (length (log_bytes ps)) :: u16"
  have walk: "wp (size_walk H pseudo (used_bytes pseudo s) (used_bytes pseudo s) 0)
      (\<lambda>r t. r = Some ?u \<and> Q ?u (if pseudo then t\<lparr>EfuseHal := (EfuseHal t)\<lparr>fakeEfuseUsedBytes := ucast ?u\<rparr>\<rparr>
             else t\<lparr>EfuseUsedBytes := ?u\<rparr>)) t"
    if t: "same_fuses cells good s t" for t
  proof (rule size_walk_wp [OF same_good [OF t], where ps = ps], goal_cases)
    case (3 u)
    then have u: "same_fuses cells good s u" by (rule same_trans [OF t])
    show ?case
      using assms(4) [OF store_used [OF u refl, where v = "EfuseUsedPercentage u"]] by (cases pseudo) simp_all
  qed (use assms(2,3) in \<open>simp_all add: same_cells [OF t]\<close>)
  show ?thesis
    unfolding hal_EfuseGetCurrentSize_WiFi_def wp_bind wp_get_ef
    by (rule bank_wp [OF assms(1)], rule wp_mono, rule walk [unfolded used_bytes_def]) auto
qed

end

end
