(* ===== verification/Ef_Write.thy ===== *)
theory Ef_Write
  imports Ef_Log
begin

text \<open>
  Writing packets to the one-time memory (\<open>hal/rtl8188f/rtl8188f_hal_init.c\<close>): find the end of
  the log, write a header and read it back, write the words and read them back, and write the words
  that went wrong again in a new packet. \<open>Hal_EfusePgPacketWrite\<close> calls itself for that as often
  as the device likes, so its value is an option: \<open>None\<close> says that it does not return.
\<close>

section \<open>Packets\<close>

record PGPKT_STRUCT =
  pg_off :: u8
  pg_word_en :: u8
  pg_data :: bytes
  pg_word_cnts :: u8

definition word_copy :: "u8 \<Rightarrow> bytes \<Rightarrow> nat \<Rightarrow> bytes \<Rightarrow> bytes" where
  "word_copy word_en sourdata i targetdata =
     (if bit word_en i then targetdata
      else targetdata[2 * i := sourdata ! (2 * i), 2 * i + 1 := sourdata ! (2 * i + 1)])"

definition efuse_WordEnableDataRead :: "u8 \<Rightarrow> bytes \<Rightarrow> bytes \<Rightarrow> bytes" where
  "efuse_WordEnableDataRead word_en sourdata targetdata =
     word_copy word_en sourdata 3 (word_copy word_en sourdata 2
       (word_copy word_en sourdata 1 (word_copy word_en sourdata 0 targetdata)))"

definition hal_EfuseConstructPGPkt :: "u8 \<Rightarrow> u8 \<Rightarrow> bytes \<Rightarrow> PGPKT_STRUCT" where
  "hal_EfuseConstructPGPkt offset word_en pData =
     \<lparr>pg_off = offset, pg_word_en = word_en,
      pg_data = efuse_WordEnableDataRead word_en pData (replicate PGPKT_DATA_SIZE 0xFF),
      pg_word_cnts = Efuse_CalculateWordCnts word_en\<rparr>"

text \<open>The words with the numbers \<open>is\<close>; a word that reads back wrong has its bit cleared in the result.\<close>

fun word_writes :: "'h usb_host \<Rightarrow> bool \<Rightarrow> u8 \<Rightarrow> bytes \<Rightarrow> nat list \<Rightarrow> u16 \<Rightarrow> u8 \<Rightarrow> ('h, u8) ef" where
  "word_writes H bPseudoTest word_en data [] start_addr badworden = State_Monad.return badworden"
| "word_writes H bPseudoTest word_en data (i # is) start_addr badworden =
     (if bit word_en i then word_writes H bPseudoTest word_en data is start_addr badworden
      else do {
        _ \<leftarrow> efuse_OneByteWrite H start_addr (data ! (2 * i)) bPseudoTest;
        _ \<leftarrow> efuse_OneByteWrite H (start_addr + 1) (data ! (2 * i + 1)) bPseudoTest;
        _ \<leftarrow> PHY_SetMacReg H EFUSE_TEST BIT26 0;
        (_, lo) \<leftarrow> efuse_OneByteRead H start_addr 0xFF bPseudoTest;
        (_, hi) \<leftarrow> efuse_OneByteRead H (start_addr + 1) 0xFF bPseudoTest;
        _ \<leftarrow> PHY_SetMacReg H EFUSE_TEST BIT26 1;
        word_writes H bPseudoTest word_en data is (start_addr + 2)
          (if data ! (2 * i) \<noteq> lo \<or> data ! (2 * i + 1) \<noteq> hi then badworden AND NOT (push_bit i 1) else badworden) })"

definition Hal_EfuseWordEnableDataWrite :: "'h usb_host \<Rightarrow> u16 \<Rightarrow> u8 \<Rightarrow> bytes \<Rightarrow> bool \<Rightarrow> ('h, u8) ef" where
  "Hal_EfuseWordEnableDataWrite H efuse_addr word_en data bPseudoTest =
     word_writes H bPseudoTest word_en data [0..<4] efuse_addr 0x0F"

section \<open>Where to write\<close>

definition hal_EfusePgCheckAvailableAddr :: "'h usb_host \<Rightarrow> u8 \<Rightarrow> bool \<Rightarrow> ('h, bool) ef" where
  "hal_EfusePgCheckAvailableAddr H efuseType bPseudoTest = do {
     let max_available = Hal_GetEfuseDefinition efuseType TYPE_AVAILABLE_EFUSE_BYTES_TOTAL;
     current_size \<leftarrow> Hal_EfuseGetCurrentSize H efuseType bPseudoTest;
     State_Monad.return (\<not> current_size \<ge> max_available) }"

text \<open>The address to write to, if the byte there is blank. The loop of the source ends in its first round.\<close>

definition hal_EfusePartialWriteCheck :: "'h usb_host \<Rightarrow> u8 \<Rightarrow> bool \<Rightarrow> ('h, u16 option) ef" where
  "hal_EfusePartialWriteCheck H efuseType bPseudoTest = do {
     let efuse_max_available_len = Hal_GetEfuseDefinition efuseType TYPE_AVAILABLE_EFUSE_BYTES_TOTAL;
     let efuse_max = Hal_GetEfuseDefinition efuseType TYPE_EFUSE_CONTENT_LEN_BANK;
     startAddr \<leftarrow> get_ef (\<lambda>s.
       if efuseType = EFUSE_WIFI
       then (if bPseudoTest then ucast (fakeEfuseUsedBytes (EfuseHal s)) else EfuseUsedBytes s)
       else (if bPseudoTest then fakeBTEfuseUsedBytes (EfuseHal s) else BTEfuseUsedBytes (EfuseHal s)));
     let startAddr = startAddr mod efuse_max;
     if startAddr \<ge> efuse_max_available_len then State_Monad.return None
     else do {
       (ok, efuse_data) \<leftarrow> efuse_OneByteRead H startAddr 0 bPseudoTest;
       State_Monad.return (if ok \<and> efuse_data \<noteq> 0xFF then None else Some startAddr) } }"

section \<open>Headers\<close>

text \<open>
  The loop that writes a header byte again until it reads back right: \<open>Some\<close> with the count of
  repetitions, or \<open>None\<close> when there were too many. The branches behind it for a header that
  differs are never taken, and \<open>hal_EfuseFixHeaderProcess\<close> is never called.
\<close>

function header_retry :: "'h usb_host \<Rightarrow> bool \<Rightarrow> u16 \<Rightarrow> u8 \<Rightarrow> u8 \<Rightarrow> nat \<Rightarrow> ('h, nat option) ef" where
  "header_retry H bPseudoTest efuse_addr pg_header tmp_header repeatcnt =
     (if tmp_header = 0xFF \<or> pg_header \<noteq> tmp_header
      then (if repeatcnt > 3 then State_Monad.return None
            else do {
              _ \<leftarrow> efuse_OneByteWrite H efuse_addr pg_header bPseudoTest;
              (_, tmp_header) \<leftarrow> efuse_OneByteRead H efuse_addr tmp_header bPseudoTest;
              header_retry H bPseudoTest efuse_addr pg_header tmp_header (repeatcnt + 1) })
      else State_Monad.return (Some repeatcnt))"
  by pat_completeness auto
termination
  by (relation "measure (\<lambda>(H, b, a, p, t, r). 4 - r)") auto

declare header_retry.simps [simp del]

text \<open>Write a header byte, read it back and try again if need be.\<close>

definition write_header_byte :: "'h usb_host \<Rightarrow> bool \<Rightarrow> u16 \<Rightarrow> u8 \<Rightarrow> u8 \<Rightarrow> nat \<Rightarrow> ('h, nat option) ef" where
  "write_header_byte H bPseudoTest efuse_addr pg_header tmp_header repeatcnt = do {
     _ \<leftarrow> efuse_OneByteWrite H efuse_addr pg_header bPseudoTest;
     _ \<leftarrow> PHY_SetMacReg H EFUSE_TEST BIT26 0;
     (_, tmp_header) \<leftarrow> efuse_OneByteRead H efuse_addr tmp_header bPseudoTest;
     _ \<leftarrow> PHY_SetMacReg H EFUSE_TEST BIT26 1;
     header_retry H bPseudoTest efuse_addr pg_header tmp_header repeatcnt }"

text \<open>The address of the last header byte, or \<open>None\<close> for failure.\<close>

definition hal_EfusePgPacketWrite1ByteHeader :: "'h usb_host \<Rightarrow> u16 \<Rightarrow> PGPKT_STRUCT \<Rightarrow> bool \<Rightarrow> ('h, u16 option) ef" where
  "hal_EfusePgPacketWrite1ByteHeader H efuse_addr pkt bPseudoTest = do {
     let pg_header = (push_bit 4 (pg_off pkt) AND 0xf0) OR pg_word_en pkt;
     r \<leftarrow> write_header_byte H bPseudoTest efuse_addr pg_header 0 0;
     State_Monad.return (case r of None \<Rightarrow> None | Some _ \<Rightarrow> Some efuse_addr) }"

lemma header2_grows:
  assumes "a < Hal_GetEfuseDefinition e TYPE_AVAILABLE_EFUSE_BYTES_BANK"
  shows "512 - unat (a + 2) < 512 - unat a"
proof -
  have "unat a < 496" using assms by (simp add: ef_sizes word_less_nat_alt split: if_splits)
  then show ?thesis by (simp add: unat_word_ariths)
qed

text \<open>A packet that enables no word has its two header bytes written again at the next address.\<close>

function header2_walk :: "'h usb_host \<Rightarrow> u8 \<Rightarrow> u16 \<Rightarrow> PGPKT_STRUCT \<Rightarrow> bool \<Rightarrow> u8 \<Rightarrow> nat \<Rightarrow> ('h, u16 option) ef" where
  "header2_walk H efuseType efuse_addr pkt bPseudoTest tmp_header repeatcnt =
     (if efuse_addr < Hal_GetEfuseDefinition efuseType TYPE_AVAILABLE_EFUSE_BYTES_BANK
      then do {
        let pg_header = push_bit 5 (pg_off pkt AND 0x07) OR 0x0F;
        r \<leftarrow> write_header_byte H bPseudoTest efuse_addr pg_header tmp_header repeatcnt;
        case r of
          None \<Rightarrow> State_Monad.return None
        | Some repeatcnt \<Rightarrow> do {
            let ext_header = push_bit 1 (pg_off pkt AND 0x78) OR pg_word_en pkt;
            r \<leftarrow> write_header_byte H bPseudoTest (efuse_addr + 1) ext_header pg_header repeatcnt;
            case r of
              None \<Rightarrow> State_Monad.return None
            | Some repeatcnt \<Rightarrow>
                if ext_header AND 0x0F = 0x0F
                then (if repeatcnt > 3 then State_Monad.return None
                      else header2_walk H efuseType (efuse_addr + 2) pkt bPseudoTest ext_header (repeatcnt + 1))
                else State_Monad.return (Some (efuse_addr + 1)) } }
      else State_Monad.return (Some efuse_addr))"
  by pat_completeness auto
termination
  by (relation "measure (\<lambda>(H, e, a, p, b, t, r). 512 - unat a)") (auto simp: header2_grows)

declare header2_walk.simps [simp del]

definition hal_EfusePgPacketWrite2ByteHeader ::
    "'h usb_host \<Rightarrow> u8 \<Rightarrow> u16 \<Rightarrow> PGPKT_STRUCT \<Rightarrow> bool \<Rightarrow> ('h, u16 option) ef" where
  "hal_EfusePgPacketWrite2ByteHeader H efuseType efuse_addr pkt bPseudoTest =
     (if efuse_addr \<ge> Hal_GetEfuseDefinition efuseType TYPE_AVAILABLE_EFUSE_BYTES_BANK then State_Monad.return None
      else header2_walk H efuseType efuse_addr pkt bPseudoTest 0 0)"

definition hal_EfusePgPacketWriteHeader ::
    "'h usb_host \<Rightarrow> u8 \<Rightarrow> u16 \<Rightarrow> PGPKT_STRUCT \<Rightarrow> bool \<Rightarrow> ('h, u16 option) ef" where
  "hal_EfusePgPacketWriteHeader H efuseType efuse_addr pkt bPseudoTest =
     (if pg_off pkt \<ge> EFUSE_MAX_SECTION_BASE then hal_EfusePgPacketWrite2ByteHeader H efuseType efuse_addr pkt bPseudoTest
      else hal_EfusePgPacketWrite1ByteHeader H efuse_addr pkt bPseudoTest)"

section \<open>Writing a packet\<close>

text \<open>The steps before the words: the address of the last header byte, or \<open>None\<close> for failure.\<close>

definition pg_prepare :: "'h usb_host \<Rightarrow> u8 \<Rightarrow> PGPKT_STRUCT \<Rightarrow> bool \<Rightarrow> ('h, u16 option) ef" where
  "pg_prepare H efuseType pkt bPseudoTest = do {
     ok \<leftarrow> hal_EfusePgCheckAvailableAddr H efuseType bPseudoTest;
     if \<not> ok then State_Monad.return None
     else do {
       r \<leftarrow> hal_EfusePartialWriteCheck H efuseType bPseudoTest;
       case r of
         None \<Rightarrow> State_Monad.return None
       | Some startAddr \<Rightarrow> hal_EfusePgPacketWriteHeader H efuseType startAddr pkt bPseudoTest } }"

partial_function (option) Hal_EfusePgPacketWrite ::
    "'h usb_host \<Rightarrow> u8 \<Rightarrow> u8 \<Rightarrow> bytes \<Rightarrow> bool \<Rightarrow> 'h ef_sys \<Rightarrow> (bool \<times> 'h ef_sys) option" where
  "Hal_EfusePgPacketWrite H offset word_en pData bPseudoTest s =
     (let pkt = hal_EfuseConstructPGPkt offset word_en pData
      in case run_state (pg_prepare H EFUSE_WIFI pkt bPseudoTest) s of
           (None, s) \<Rightarrow> Some (False, s)
         | (Some addr, s) \<Rightarrow>
             (case run_state (Hal_EfuseWordEnableDataWrite H (addr + 1) (pg_word_en pkt) (pg_data pkt) bPseudoTest) s of
                (badworden, s) \<Rightarrow>
                  if badworden = 0x0F then Some (True, s)
                  else Hal_EfusePgPacketWrite H (pg_off pkt) badworden (pg_data pkt) bPseudoTest s))"

text \<open>The words that went wrong are written to the memory of the WiFi part whatever the type is.\<close>

definition hal_EfusePgPacketWriteData ::
    "'h usb_host \<Rightarrow> u16 \<Rightarrow> PGPKT_STRUCT \<Rightarrow> bool \<Rightarrow> 'h ef_sys \<Rightarrow> (bool \<times> 'h ef_sys) option" where
  "hal_EfusePgPacketWriteData H efuse_addr pkt bPseudoTest s =
     (case run_state (Hal_EfuseWordEnableDataWrite H (efuse_addr + 1) (pg_word_en pkt) (pg_data pkt) bPseudoTest) s of
        (badworden, s) \<Rightarrow>
          if badworden = 0x0F then Some (True, s)
          else Hal_EfusePgPacketWrite H (pg_off pkt) badworden (pg_data pkt) bPseudoTest s)"

definition Hal_EfusePgPacketWrite_BT ::
    "'h usb_host \<Rightarrow> u8 \<Rightarrow> u8 \<Rightarrow> bytes \<Rightarrow> bool \<Rightarrow> 'h ef_sys \<Rightarrow> (bool \<times> 'h ef_sys) option" where
  "Hal_EfusePgPacketWrite_BT H offset word_en pData bPseudoTest s =
     (let pkt = hal_EfuseConstructPGPkt offset word_en pData
      in case run_state (pg_prepare H EFUSE_BT pkt bPseudoTest) s of
           (None, s) \<Rightarrow> Some (False, s)
         | (Some addr, s) \<Rightarrow> hal_EfusePgPacketWriteData H addr pkt bPseudoTest s)"

text \<open>
  \<open>_rtw_memset\<close> on a buffer, with the length last. \<open>hal_EfuseFixHeaderProcess\<close> passes the
  length and the value in the wrong order and sets 255 bytes of a buffer of 8: \<open>None\<close>, like a
  call that does not return.
\<close>

definition rtw_memset :: "bytes \<Rightarrow> u8 \<Rightarrow> nat \<Rightarrow> bytes option" where
  "rtw_memset buf c n = (if n \<le> length buf then Some (replicate n c @ drop n buf) else None)"

definition hal_EfuseFixHeaderProcess ::
    "'h usb_host \<Rightarrow> u8 \<Rightarrow> PGPKT_STRUCT \<Rightarrow> u16 \<Rightarrow> bytes \<Rightarrow> bool \<Rightarrow> 'h ef_sys \<Rightarrow> (u16 option \<times> 'h ef_sys) option" where
  "hal_EfuseFixHeaderProcess H efuseType fixpkt efuse_addr originaldata bPseudoTest s =
     (case rtw_memset originaldata 8 0xff of
        None \<Rightarrow> None
      | Some originaldata \<Rightarrow>
          (case run_state (Hal_EfusePgPacketRead H (pg_off fixpkt) bPseudoTest) s of
             ((ok, d), s) \<Rightarrow>
               (let originaldata = (case d of Some d \<Rightarrow> d | None \<Rightarrow> originaldata);
                    next = efuse_addr + ucast (pg_word_cnts fixpkt) * 2 + 1
                in if ok
                   then (case run_state (Hal_EfuseWordEnableDataWrite H (efuse_addr + 1) (pg_word_en fixpkt) originaldata bPseudoTest) s of
                           (badworden, s) \<Rightarrow>
                             if badworden \<noteq> 0xf
                             then (case Hal_EfusePgPacketWrite H (pg_off fixpkt) badworden originaldata bPseudoTest s of
                                     None \<Rightarrow> None
                                   | Some (ok, s) \<Rightarrow>
                                       if ok then Some (case run_state (Hal_EfuseGetCurrentSize H efuseType bPseudoTest) s of
                                                          (n, s) \<Rightarrow> (Some n, s))
                                       else Some (None, s))
                             else Some (Some next, s))
                   else Some (Some next, s))))"

text \<open>Whatever reads back, a header byte is only taken when it is the one that was written.\<close>

lemma header_retry_verified:
  "wp (header_retry H b a pg tmp r) (\<lambda>x s'. \<forall>n. x = Some n \<longrightarrow> pg \<noteq> 0xFF \<and> r \<le> n \<and> n \<le> max r 4) s"
proof (induction H b a pg tmp r arbitrary: s rule: header_retry.induct)
  case (1 H b a pg tmp r)
  show ?case
  proof (cases "tmp = 0xFF \<or> pg \<noteq> tmp")
    case True
    let ?Q = "\<lambda>x s'. \<forall>n. x = Some n \<longrightarrow> pg \<noteq> 0xFF \<and> r \<le> n \<and> n \<le> max r 4"
    have rec: "wp (header_retry H b a pg t (r + 1)) ?Q s'" if "\<not> 3 < r" for t s'
      by (rule wp_mono [OF 1 [OF True that]]) (use that in auto)
    have "wp (efuse_OneByteRead H a tmp b) (\<lambda>x. wp (case x of (_, t) \<Rightarrow> header_retry H b a pg t (r + 1)) ?Q) s'"
      if "\<not> 3 < r" for s'
      by (rule wp_all) (use rec [OF that] in \<open>simp split: prod.split\<close>)
    then have "\<not> 3 < r \<Longrightarrow> wp (efuse_OneByteWrite H a pg b)
        (\<lambda>_. wp (efuse_OneByteRead H a tmp b) (\<lambda>x. wp (case x of (_, t) \<Rightarrow> header_retry H b a pg t (r + 1)) ?Q)) s"
      by - (rule wp_all, simp)
    then show ?thesis
      using True by (simp add: header_retry.simps [of H b a pg tmp r])
  next
    case False
    then show ?thesis by (subst header_retry.simps) auto
  qed
qed

lemma fix_header_faults:
  "length originaldata = 8 \<Longrightarrow> hal_EfuseFixHeaderProcess H ty p a originaldata b s = None"
  by (simp add: hal_EfuseFixHeaderProcess_def rtw_memset_def)

end
