(* ===== verification/Ef_Store.thy ===== *)
theory Ef_Store
  imports Ef_Write
begin

text \<open>
  What writing a packet does to a log: on a memory that holds a log and is blank behind it,
  \<open>Hal_EfusePgPacketWrite\<close> returns with success and the memory then holds the log with the packet
  at its end. So the map read afterwards is the old one with the words of the packet put over it.
\<close>

section \<open>Blank memory\<close>

definition blank_from :: "nat \<Rightarrow> bytes \<Rightarrow> bool" where
  "blank_from n c \<longleftrightarrow> (\<forall>i. n \<le> i \<longrightarrow> i < length c \<longrightarrow> c ! i = 0xFF)"

definition put_over :: "bytes \<Rightarrow> nat \<Rightarrow> bytes \<Rightarrow> bytes" where
  "put_over c a bs = take a c @ bs @ drop (a + length bs) c"

lemma put_over_Nil [simp]: "put_over c a [] = c"
  by (simp add: put_over_def)

lemma length_put_over [simp]: "a + length bs \<le> length c \<Longrightarrow> length (put_over c a bs) = length c"
  by (simp add: put_over_def)

lemma put_over_one: "a < length c \<Longrightarrow> c[a := x] = put_over c a [x]"
  by (simp add: put_over_def upd_conv_take_nth_drop)

lemma put_over_append:
  "a + length xs + length ys \<le> length c \<Longrightarrow> put_over (put_over c a xs) (a + length xs) ys = put_over c a (xs @ ys)"
  by (simp add: put_over_def ac_simps)

lemma put_over_other: "i < a \<or> a + length bs \<le> i \<Longrightarrow> a + length bs \<le> length c \<Longrightarrow> put_over c a bs ! i = c ! i"
  by (auto simp: put_over_def nth_append)

lemma put_over_at: "i < length bs \<Longrightarrow> a + length bs \<le> length c \<Longrightarrow> put_over c a bs ! (a + i) = bs ! i"
  by (simp add: put_over_def nth_append)

lemma blank_from_put:
  "blank_from n c \<Longrightarrow> n + length bs \<le> length c \<Longrightarrow> blank_from (n + length bs) (put_over c n bs)"
  by (simp add: blank_from_def put_over_other)

lemma blank_from_nth: "blank_from n c \<Longrightarrow> n \<le> i \<Longrightarrow> i < length c \<Longrightarrow> c ! i = 0xFF"
  by (simp add: blank_from_def)

text \<open>A log with a packet behind it.\<close>

lemma holds_log_snoc:
  assumes "holds_log ps c" and "pkt_ok p" and "blank_from (length (log_bytes ps)) c" and "length c = 512"
    and "length (log_bytes ps) + length (pkt_bytes p) < 256"
  shows "holds_log (ps @ [p]) (put_over c (length (log_bytes ps)) (pkt_bytes p))"
proof -
  let ?n = "length (log_bytes ps)" and ?k = "length (pkt_bytes p)"
  have t: "take ?n c = log_bytes ps"
    using assms(1) take_take [of ?n "Suc ?n" c] by (simp add: holds_log_def)
  have d: "drop (?n + ?k) c = 0xFF # drop (Suc (?n + ?k)) c"
    using assms(3-5) blank_from_nth [OF assms(3), of "?n + ?k"] by (simp add: Cons_nth_drop_Suc [symmetric])
  have "put_over c ?n (pkt_bytes p) = log_bytes (ps @ [p]) @ 0xFF # drop (Suc (?n + ?k)) c"
    by (simp add: put_over_def t d)
  then show ?thesis using assms(1,2,5) by (simp add: holds_log_def)
qed

text \<open>
  A memory ready for the next packet: blank behind its log, and with a count of used bytes from
  which the search for the end gets there.
\<close>

definition log_ready :: "bool \<Rightarrow> ('h ef_sys \<Rightarrow> bytes) \<Rightarrow> packet list \<Rightarrow> 'h ef_sys \<Rightarrow> bool" where
  "log_ready pseudo cells ps s \<longleftrightarrow>
     (let n = length (log_bytes ps); u = used_bytes pseudo s
      in holds_log ps (cells s) \<and> blank_from n (cells s) \<and>
         (u = 0 \<or> u = of_nat n \<or> unat u < 256 \<and> cells s ! unat u \<noteq> 0xFF))"

lemma log_readyD:
  assumes "log_ready pseudo cells ps s"
  shows "holds_log ps (cells s)" and "blank_from (length (log_bytes ps)) (cells s)"
    and "used_bytes pseudo s = 0 \<or> used_bytes pseudo s = of_nat (length (log_bytes ps)) \<or>
           unat (used_bytes pseudo s) < 256 \<and> cells s ! unat (used_bytes pseudo s) \<noteq> 0xFF"
  using assms by (simp_all add: log_ready_def Let_def)

lemma wifi_room: "Hal_GetEfuseDefinition EFUSE_WIFI TYPE_AVAILABLE_EFUSE_BYTES_TOTAL = 221"
  "Hal_GetEfuseDefinition EFUSE_WIFI TYPE_AVAILABLE_EFUSE_BYTES_BANK = 221"
  "Hal_GetEfuseDefinition EFUSE_WIFI TYPE_EFUSE_CONTENT_LEN_BANK = 256"
  by (simp_all add: ef_sizes)

lemma small_addr: "n < 256 \<Longrightarrow> unat (of_nat n :: u16) = n"
  by (simp add: unat_of_nat take_bit_nat_eq_self)

lemma high_nibble: "(push_bit 4 w AND 0xf0) = (push_bit 4 w :: u8)"
  unfolding header_masks by (rule bit_word_eqI) (auto simp: bit_simps)

lemma construct_data:
  "length d = 8 \<Longrightarrow> map (word_at en (pg_data (hal_EfuseConstructPGPkt off en d))) [0..<4] = map (word_at en d) [0..<4]"
  by (simp add: hal_EfuseConstructPGPkt_def efuse_WordEnableDataRead_def word_copy_def word_at_def PGPKT_DATA_SIZE_def upt4)

section \<open>Steps of a write\<close>

context fuse_memory
begin

lemma put_wp:
  assumes "good s" and "unat a < 512" and "cells s ! unat a = 0xFF"
    and "\<And>s'. good s' \<Longrightarrow> cells s' = put_over (cells s) (unat a) [v] \<Longrightarrow> settings s' = settings s \<Longrightarrow> Q True s'"
  shows "wp (efuse_OneByteWrite H a v pseudo) Q s"
  using assms by (intro write_wp) (simp_all add: put_over_one cells_length)

lemma header_byte_wp:
  assumes "good s" and "unat a < 512" and "cells s ! unat a = 0xFF" and "v \<noteq> 0xFF"
    and "\<And>s'. good s' \<Longrightarrow> cells s' = put_over (cells s) (unat a) [v] \<Longrightarrow> settings s' = settings s \<Longrightarrow> Q (Some r) s'"
  shows "wp (write_header_byte H pseudo a v tmp r) Q s"
  unfolding write_header_byte_def wp_bind
proof (rule put_wp [OF assms(1-3)], rule test_wp, assumption)
  fix s1 s2
  assume s1: "good s1" "cells s1 = put_over (cells s) (unat a) [v]" "settings s1 = settings s"
    and s2: "same_fuses cells good s1 s2"
  have v: "cells s2 ! unat a = v"
    using put_over_at [of 0 "[v]" "unat a" "cells s"] assms(1,2) s1 by (simp add: same_cells [OF s2] cells_length)
  show "wp (efuse_OneByteRead H a tmp pseudo)
      (\<lambda>x. wp (case x of (uu, tmp_header) \<Rightarrow>
           do { _ \<leftarrow> PHY_SetMacReg H EFUSE_TEST BIT26 1; header_retry H pseudo a v tmp_header r }) Q) s2"
  proof (rule read_wp [OF same_good [OF s2] assms(2)])
    fix s3
    assume s3: "same_fuses cells good s2 s3"
    show "wp (case (True, cells s2 ! unat a) of (uu, tmp_header) \<Rightarrow>
           do { _ \<leftarrow> PHY_SetMacReg H EFUSE_TEST BIT26 1; header_retry H pseudo a v tmp_header r }) Q s3"
      unfolding prod.case v wp_bind
    proof (rule test_wp [OF same_good [OF s3]])
      fix s4
      assume "same_fuses cells good s3 s4"
      then have "same_fuses cells good s1 s4" using s2 s3 by (blast intro: same_trans)
      then show "wp (header_retry H pseudo a v v r) Q s4"
        using assms(4) s1 assms(5) [of s4] by (subst header_retry.simps) (simp add: same_fuses_def)
    qed
  qed
qed

lemma two_bytes_wp:
  assumes "good s" and "unat a + 1 < 512" and "cells s ! unat a = 0xFF" and "cells s ! (unat a + 1) = 0xFF"
    and "\<And>s'. good s' \<Longrightarrow> cells s' = put_over (cells s) (unat a) [x, y] \<Longrightarrow> settings s' = settings s \<Longrightarrow> P s'"
  shows "wp (efuse_OneByteWrite H a x pseudo) (\<lambda>_. wp (efuse_OneByteWrite H (a + 1) y pseudo) (\<lambda>_. P)) s"
proof (rule put_wp [OF assms(1) _ assms(3)])
  fix s1
  assume s1: "good s1" "cells s1 = put_over (cells s) (unat a) [x]" "settings s1 = settings s"
  have n: "unat (a + 1) = unat a + 1" using assms(2) by (simp add: unat_word_ariths)
  show "wp (efuse_OneByteWrite H (a + 1) y pseudo) (\<lambda>_. P) s1"
  proof (rule put_wp [OF s1(1)])
    show "unat (a + 1) < 512" using assms(2) n by simp
    show "cells s1 ! unat (a + 1) = 0xFF"
      using assms(2,4) n by (simp add: s1(2) put_over_other cells_length [OF assms(1)])
    show "P s2" if "good s2" "cells s2 = put_over (cells s1) (unat (a + 1)) [y]" "settings s2 = settings s1" for s2
      using assms(2,5) that s1 n put_over_append [of "unat a" "[x]" "[y]" "cells s"]
      by (simp add: cells_length [OF assms(1)])
  qed
qed (use assms(2) in simp)

lemma word_writes_wp:
  assumes "good s" and "blank_from (unat a) (cells s)"
    and "unat a + length (concat (map (word_at en d) is)) \<le> 512"
    and "\<And>s'. good s' \<Longrightarrow> cells s' = put_over (cells s) (unat a) (concat (map (word_at en d) is)) \<Longrightarrow>
           settings s' = settings s \<Longrightarrow> Q bad s'"
  shows "wp (word_writes H pseudo en d is a bad) Q s"
  using assms
proof (induction "is" arbitrary: a s)
  case Nil
  then show ?case by simp
next
  case (Cons i "is")
  show ?case
  proof (cases "bit en i")
    case True
    then show ?thesis using Cons by simp
  next
    case False
    let ?x = "d ! (2 * i)" and ?y = "d ! (2 * i + 1)" and ?r = "concat (map (word_at en d) is)"
    note len = cells_length [OF Cons.prems(1)]
    have a: "unat a + 2 + length ?r \<le> 512" using Cons.prems(3) False by simp
    have n: "unat (a + 1) = unat a + 1" "unat (a + 2) = unat a + 2" using a by (simp_all add: unat_word_ariths)
    have blank: "cells s ! unat a = 0xFF" "cells s ! (unat a + 1) = 0xFF"
      using Cons.prems(2) a len by (simp_all add: blank_from_def)
    have rec: "wp (word_writes H pseudo en d is (a + 2) bad) Q t"
      if t: "good t" "cells t = put_over (cells s) (unat a) [?x, ?y]" "settings t = settings s" for t
    proof (rule Cons.IH [OF t(1)])
      show "blank_from (unat (a + 2)) (cells t)"
        using blank_from_put [OF Cons.prems(2), of "[?x, ?y]"] a len n(2) by (simp add: t(2))
      show "unat (a + 2) + length ?r \<le> 512" using a n(2) by simp
      show "Q bad u" if "good u" "cells u = put_over (cells t) (unat (a + 2)) ?r" "settings u = settings t" for u
        using Cons.prems(4) [of u] that t False a n(2) len put_over_append [of "unat a" "[?x, ?y]" ?r "cells s"] by simp
    qed
    have check: "wp (PHY_SetMacReg H EFUSE_TEST BIT26 0) (\<lambda>_. wp (do {
          (_, lo) \<leftarrow> efuse_OneByteRead H a 0xFF pseudo;
          (_, hi) \<leftarrow> efuse_OneByteRead H (a + 1) 0xFF pseudo;
          _ \<leftarrow> PHY_SetMacReg H EFUSE_TEST BIT26 1;
          word_writes H pseudo en d is (a + 2) (if ?x \<noteq> lo \<or> ?y \<noteq> hi then bad AND NOT (push_bit i 1) else bad) }) Q) t"
      if t: "good t" "cells t = put_over (cells s) (unat a) [?x, ?y]" "settings t = settings s" for t
    proof (rule test_wp [OF t(1)], unfold wp_bind)
      fix u
      assume u: "same_fuses cells good t u"
      have c: "cells t ! unat a = ?x" "cells t ! (unat a + 1) = ?y"
        using put_over_at [of 0 "[?x, ?y]" "unat a" "cells s"] put_over_at [of 1 "[?x, ?y]" "unat a" "cells s"] a len
        by (simp_all add: t(2))
      have last: "wp (PHY_SetMacReg H EFUSE_TEST BIT26 1) (\<lambda>_. wp (word_writes H pseudo en d is (a + 2) bad) Q) w"
        if w: "same_fuses cells good t w" for w
      proof (rule test_wp [OF same_good [OF w]])
        show "wp (word_writes H pseudo en d is (a + 2) bad) Q x" if "same_fuses cells good w x" for x
          using same_trans [OF w that] t by (intro rec) (simp_all add: same_fuses_def)
      qed
      have second: "wp (efuse_OneByteRead H (a + 1) 0xFF pseudo) (\<lambda>x. wp (case x of (_, hi) \<Rightarrow> do {
          _ \<leftarrow> PHY_SetMacReg H EFUSE_TEST BIT26 1;
          word_writes H pseudo en d is (a + 2) (if ?x \<noteq> ?x \<or> ?y \<noteq> hi then bad AND NOT (push_bit i 1) else bad) }) Q) v"
        if v: "same_fuses cells good t v" for v
      proof (rule read_wp [OF same_good [OF v]])
        show "unat (a + 1) < 512" using a n(1) by simp
      qed (use last [OF same_trans [OF v]] c n(1) in \<open>simp add: same_cells [OF v]\<close>)
      show "wp (efuse_OneByteRead H a 0xFF pseudo) (\<lambda>x. wp (case x of (_, lo) \<Rightarrow> do {
          (_, hi) \<leftarrow> efuse_OneByteRead H (a + 1) 0xFF pseudo;
          _ \<leftarrow> PHY_SetMacReg H EFUSE_TEST BIT26 1;
          word_writes H pseudo en d is (a + 2) (if ?x \<noteq> lo \<or> ?y \<noteq> hi then bad AND NOT (push_bit i 1) else bad) }) Q) u"
      proof (rule read_wp [OF same_good [OF u]])
        show "unat a < 512" using a by simp
      qed (use second [OF same_trans [OF u]] c in \<open>simp add: same_cells [OF u]\<close>)
    qed
    show ?thesis
      unfolding word_writes.simps if_not_P [OF False] wp_bind
      by (rule two_bytes_wp [OF Cons.prems(1) _ blank], use a in simp, rule check [unfolded wp_bind])
  qed
qed

lemma prepare_room_wp:
  assumes "good s" and "log_ready pseudo cells ps s" and "length (log_bytes ps) < 221"
    and "\<And>s'. good s' \<Longrightarrow> cells s' = cells s \<Longrightarrow> mask_cfg s' = mask_cfg s \<Longrightarrow>
           used_bytes pseudo s' = of_nat (length (log_bytes ps)) \<Longrightarrow>
           wp (hal_EfusePgPacketWriteHeader H EFUSE_WIFI (of_nat (length (log_bytes ps))) pkt pseudo) Q s'"
  shows "wp (pg_prepare H EFUSE_WIFI pkt pseudo) Q s"
proof -
  let ?n = "length (log_bytes ps)"
  note ready = log_readyD [OF assms(2)]
  have n: "unat (of_nat ?n :: u16) = ?n" using assms(3) by (simp add: small_addr)
  have le: "\<not> (of_nat ?n :: u16) \<ge> 221" using assms(3) n by (simp add: word_le_nat_alt)
  have md: "(of_nat ?n :: u16) mod 256 = of_nat ?n" using assms(3) n by (simp add: word_unat_eq_iff unat_mod)
  have at_end: "cells s ! ?n = 0xFF"
    using blank_from_nth [OF ready(2), of ?n] assms(3) cells_length [OF assms(1)] by simp
  have partial: "wp (hal_EfusePartialWriteCheck H EFUSE_WIFI pseudo)
      (\<lambda>r. wp (case r of None \<Rightarrow> State_Monad.return None
          | Some startAddr \<Rightarrow> hal_EfusePgPacketWriteHeader H EFUSE_WIFI startAddr pkt pseudo) Q) t"
    if t: "good t" "cells t = cells s" "mask_cfg t = mask_cfg s" "used_bytes pseudo t = of_nat ?n" for t
  proof -
    have "wp (efuse_OneByteRead H (of_nat ?n) 0 pseudo)
        (\<lambda>(ok, d). wp (case if ok \<and> d \<noteq> 0xFF then None else Some (of_nat ?n) of None \<Rightarrow> State_Monad.return None
            | Some startAddr \<Rightarrow> hal_EfusePgPacketWriteHeader H EFUSE_WIFI startAddr pkt pseudo) Q) t"
    proof (rule read_wp [OF t(1)])
      show "unat (of_nat ?n :: u16) < 512" using n assms(3) by simp
      show "(case (True, cells t ! unat (of_nat ?n :: u16)) of (ok, d) \<Rightarrow>
          wp (case if ok \<and> d \<noteq> 0xFF then None else Some (of_nat ?n) of None \<Rightarrow> State_Monad.return None
              | Some startAddr \<Rightarrow> hal_EfusePgPacketWriteHeader H EFUSE_WIFI startAddr pkt pseudo) Q) u"
        if u: "same_fuses cells good t u" for u
        using assms(4) [of u] t u at_end n mask_cfg_settings [OF same_settings [OF u]] used_bytes_settings [OF same_settings [OF u]]
        by (simp add: same_cells [OF u] same_good [OF u])
    qed
    then show ?thesis
      using t(4) le md
      by (cases pseudo) (simp_all add: hal_EfusePartialWriteCheck_def wifi_room Let_def used_bytes_def case_prod_unfold
          del: Hal_GetEfuseDefinition.simps cong del: if_weak_cong)
  qed
  have "wp (hal_EfuseGetCurrentSize_WiFi H pseudo)
      (\<lambda>x. wp (if 221 \<le> x then State_Monad.return None
               else do { r \<leftarrow> hal_EfusePartialWriteCheck H EFUSE_WIFI pseudo;
                         case r of None \<Rightarrow> State_Monad.return None
                         | Some startAddr \<Rightarrow> hal_EfusePgPacketWriteHeader H EFUSE_WIFI startAddr pkt pseudo }) Q) s"
    by (rule get_size_wp [OF assms(1) ready(1,3)]) (use partial le in simp)
  then show ?thesis
    by (simp add: pg_prepare_def hal_EfusePgCheckAvailableAddr_def Hal_EfuseGetCurrentSize_def Let_def wifi_room
        del: Hal_GetEfuseDefinition.simps)
qed

lemma write_header_wp:
  assumes "good s" and "blank_from n (cells s)" and "n < 221"
    and "pkt_ok p" and "pg_off pkt = pkt_offset p" and "pg_word_en pkt = pkt_en p"
    and "\<And>s'. good s' \<Longrightarrow> cells s' = put_over (cells s) n (pkt_header p) \<Longrightarrow> settings s' = settings s \<Longrightarrow>
           Q (Some (of_nat n + hdr_len (16 \<le> pkt_offset p) - 1)) s'"
  shows "wp (hal_EfusePgPacketWriteHeader H EFUSE_WIFI (of_nat n) pkt pseudo) Q s"
proof -
  have n: "unat (of_nat n :: u16) = n" "unat (of_nat n + 1 :: u16) = n + 1"
    using assms(3) by (simp_all add: small_addr unat_word_ariths)
  note len = cells_length [OF assms(1)]
  have blank: "cells s ! n = 0xFF" "cells s ! (n + 1) = 0xFF" using assms(2,3) len by (simp_all add: blank_from_def)
  have ok: "pkt_en p < 15" "pkt_offset p < 128" using assms(4) by (simp_all add: pkt_ok_def)
  show ?thesis
  proof (cases "pkt_offset p < 16")
    case True
    have e: "(16 \<le> pkt_offset p) = False" using True by simp
    show ?thesis
      unfolding hal_EfusePgPacketWriteHeader_def hal_EfusePgPacketWrite1ByteHeader_def assms(5,6) EFUSE_MAX_SECTION_BASE_def
        e if_False Let_def wp_bind high_nibble
      by (rule header_byte_wp [OF assms(1)])
        (use assms(3,7) n blank True e header_used [OF assms(4)] in \<open>simp_all add: pkt_header_def hdr_len_def\<close>)
  next
    case False
    let ?h = "push_bit 5 (pkt_offset p AND 0x07) OR 0x0F" and ?x = "push_bit 1 (pkt_offset p AND 0x78) OR pkt_en p"
    have e: "(16 \<le> pkt_offset p) = True" using False by simp
    have h: "of_nat n + hdr_len True - 1 = of_nat n + 1" by (simp add: hdr_len_def)
    have lt: "(of_nat n :: u16) < 221" using assms(3) n by (simp add: word_less_nat_alt)
    have x: "?x AND 0x0F \<noteq> 0x0F" "?x \<noteq> 0xFF"
      using header2(1) [OF ok] ok(1) enabled_header(2) [OF header2(1) [OF ok] ok(1)] by auto
    have second: "wp (write_header_byte H pseudo (of_nat n + 1) ?x ?h 0)
        (\<lambda>r. wp (case r of None \<Rightarrow> State_Monad.return None
           | Some repeatcnt \<Rightarrow> if ?x AND 0x0F = 0x0F
               then (if repeatcnt > 3 then State_Monad.return None
                     else header2_walk H EFUSE_WIFI (of_nat n + 2) pkt pseudo ?x (repeatcnt + 1))
               else State_Monad.return (Some (of_nat n + 1))) Q) t"
      if t: "good t" "cells t = put_over (cells s) n [?h]" "settings t = settings s" for t
    proof (rule header_byte_wp [OF t(1) _ _ x(2)])
      show "unat (of_nat n + 1 :: u16) < 512" using n(2) assms(3) by simp
      show "cells t ! unat (of_nat n + 1 :: u16) = 0xFF"
        using blank(2) n(2) len assms(3) by (simp add: t(2) put_over_other)
    qed (use assms(3) assms(7) [unfolded e h] n x t False len put_over_append [of n "[?h]" "[?x]" "cells s"] in
        \<open>simp_all add: pkt_header_def not_less\<close>)
    have walk: "wp (header2_walk H EFUSE_WIFI (of_nat n) pkt pseudo 0 0) Q s"
      unfolding header2_walk.simps [of H EFUSE_WIFI "of_nat n" pkt pseudo 0 0] wifi_room if_P [OF lt] assms(5,6) Let_def wp_bind
    proof (rule header_byte_wp [OF assms(1)], goal_cases)
      case (4 t)
      then show ?case unfolding option.case wp_bind n(1) by (rule second)
    qed (use assms(3) n blank ext_first_used in simp_all)
    show ?thesis
      using walk linorder_not_le [THEN iffD2, OF lt] e
      by (simp add: hal_EfusePgPacketWriteHeader_def hal_EfusePgPacketWrite2ByteHeader_def assms(5) EFUSE_MAX_SECTION_BASE_def
          wifi_room del: Hal_GetEfuseDefinition.simps)
  qed
qed

lemma write_data_wp:
  assumes "good s" and "blank_from n (cells s)" and "n + length (enabled_bytes en d) \<le> 512" and "n < 256"
    and "map (word_at en d') [0..<4] = map (word_at en d) [0..<4]"
    and "\<And>s'. good s' \<Longrightarrow> cells s' = put_over (cells s) n (enabled_bytes en d) \<Longrightarrow> settings s' = settings s \<Longrightarrow> Q 0x0F s'"
  shows "wp (Hal_EfuseWordEnableDataWrite H (of_nat n) en d' pseudo) Q s"
  unfolding Hal_EfuseWordEnableDataWrite_def
proof (rule word_writes_wp [OF assms(1)], unfold assms(5) small_addr [OF assms(4)] enabled_bytes_def [symmetric])
qed (use assms(2,3,6) in auto)

lemma pg_write:
  assumes "good s" and "log_ready pseudo cells ps s" and "length (log_bytes ps) < 221" and "pkt_ok (Packet off en d)"
  shows "\<exists>s'. Hal_EfusePgPacketWrite H off en d pseudo s = Some (True, s') \<and> good s' \<and>
     log_ready pseudo cells (ps @ [Packet off en d]) s' \<and> mask_cfg s' = mask_cfg s"
proof -
  let ?n = "length (log_bytes ps)" and ?p = "Packet off en d" and ?pkt = "hal_EfuseConstructPGPkt off en d"
  let ?h = "length (pkt_header ?p)"
  note ready = log_readyD [OF assms(2)] and len = cells_length [OF assms(1)]
  have pkt: "pg_off ?pkt = off" "pg_word_en ?pkt = en" by (simp_all add: hal_EfuseConstructPGPkt_def)
  have d: "length d = 8" using assms(4) by (simp add: pkt_ok_def)
  have size: "?n + length (pkt_bytes ?p) < 256" "?h \<le> 2" "0 < ?h" "length (pkt_bytes ?p) = ?h + length (enabled_bytes en d)"
    using assms(3) pkt_nonempty(2) [of ?p] by (auto simp: pkt_bytes_def pkt_header_def)
  have hdr: "wp (pg_prepare H EFUSE_WIFI ?pkt pseudo)
      (\<lambda>r t. r = Some (of_nat (?n + ?h - 1)) \<and> good t \<and> cells t = put_over (cells s) ?n (pkt_header ?p) \<and>
             mask_cfg t = mask_cfg s \<and> used_bytes pseudo t = of_nat ?n) s"
  proof (rule prepare_room_wp [OF assms(1-3)])
    fix t
    assume t: "good t" "cells t = cells s" "mask_cfg t = mask_cfg s" "used_bytes pseudo t = of_nat ?n"
    have a: "(of_nat ?n + hdr_len (16 \<le> pkt_offset ?p) - 1 :: u16) = of_nat (?n + ?h - 1)"
      using size(3) by (simp add: pkt_header_def hdr_len_def not_le)
    show "wp (hal_EfusePgPacketWriteHeader H EFUSE_WIFI (of_nat ?n) ?pkt pseudo)
        (\<lambda>r t. r = Some (of_nat (?n + ?h - 1)) \<and> good t \<and> cells t = put_over (cells s) ?n (pkt_header ?p) \<and>
               mask_cfg t = mask_cfg s \<and> used_bytes pseudo t = of_nat ?n) t"
    proof (rule write_header_wp [OF t(1) _ assms(3,4)])
      fix u
      assume "good u" "cells u = put_over (cells t) ?n (pkt_header ?p)" and u: "settings u = settings t"
      then show "Some (of_nat ?n + hdr_len (16 \<le> pkt_offset ?p) - 1 :: u16) = Some (of_nat (?n + ?h - 1)) \<and> good u \<and>
          cells u = put_over (cells s) ?n (pkt_header ?p) \<and> mask_cfg u = mask_cfg s \<and> used_bytes pseudo u = of_nat ?n"
        using t a mask_cfg_settings [OF u] used_bytes_settings [OF u, of pseudo] by simp
    qed (use ready(2) t pkt in simp_all)
  qed
  obtain t where t: "run_state (pg_prepare H EFUSE_WIFI ?pkt pseudo) s = (Some (of_nat (?n + ?h - 1)), t)"
      "good t" "cells t = put_over (cells s) ?n (pkt_header ?p)" "mask_cfg t = mask_cfg s" "used_bytes pseudo t = of_nat ?n"
    using hdr by (auto simp: wp_def split: prod.splits)
  have after: "of_nat (?n + ?h - 1) + 1 = (of_nat (?n + ?h) :: u16)" 
  proof -
    have "Suc (?n + ?h - 1) = ?n + ?h" using size(3) by simp
    then show ?thesis by (metis of_nat_Suc add.commute)
  qed
  have blank: "blank_from (?n + ?h) (cells t)"
    using blank_from_put [OF ready(2), of "pkt_header ?p"] size len by (simp add: t(3))
  have c: "put_over (cells t) (?n + ?h) (enabled_bytes en d) = put_over (cells s) ?n (pkt_bytes ?p)"
    using put_over_append [of ?n "pkt_header ?p" "enabled_bytes en d" "cells s"] size len by (simp add: t(3) pkt_bytes_def)
  have "wp (Hal_EfuseWordEnableDataWrite H (of_nat (?n + ?h)) en (pg_data ?pkt) pseudo)
      (\<lambda>r u. r = 0x0F \<and> good u \<and> cells u = put_over (cells s) ?n (pkt_bytes ?p) \<and> settings u = settings t) t"
    by (rule write_data_wp [OF t(2) blank _ _ construct_data [OF d]]) (use size c in simp_all)
  then obtain u where u: "run_state (Hal_EfuseWordEnableDataWrite H (of_nat (?n + ?h)) en (pg_data ?pkt) pseudo) t = (0x0F, u)"
      "good u" "cells u = put_over (cells s) ?n (pkt_bytes ?p)" "settings u = settings t"
    by (auto simp: wp_def split: prod.splits)
  have "Hal_EfusePgPacketWrite H off en d pseudo s = Some (True, u)"
    by (subst Hal_EfusePgPacketWrite.simps) (simp only: t(1) u(1) pkt after Let_def prod.case option.case refl if_True)
  moreover have "log_ready pseudo cells (ps @ [?p]) u"
  proof -
    have h: "cells u ! ?n = hd (pkt_header ?p)"
      using put_over_at [of 0 "pkt_bytes ?p" ?n "cells s"] pkt_nonempty(1) [of ?p] size(1) len hd_pkt [of ?p "[]"]
      by (simp add: u(3) hd_conv_nth)
    have "unat (used_bytes pseudo u) = ?n"
      using used_bytes_settings [OF u(4), of pseudo] t(5) size(1) by (simp add: small_addr)
    moreover have "blank_from (?n + length (pkt_bytes ?p)) (cells u)"
      using blank_from_put [OF ready(2), of "pkt_bytes ?p"] size(1) len by (simp add: u(3))
    ultimately show ?thesis
      using holds_log_snoc [OF ready(1) assms(4) ready(2) len size(1)] h size(1) header_used [OF assms(4)]
      by (simp add: log_ready_def Let_def u(3))
  qed
  ultimately show ?thesis using u(2) mask_cfg_settings [OF u(4)] t(4) by auto
qed

end

end
