(* ===== verification/Ef_Chip.thy ===== *)
theory Ef_Chip
  imports Ef_Store
begin

text \<open>
  The one-time memory of the chip behind its registers. \<open>fuse_chip\<close> says of a kernel with a chip
  what the data sheet says of the registers: a write keeps what it says, the control register at 0x30
  reads or programs the byte it addresses, and a program only clears bits. From that the one-byte
  routines of \<open>Ef_Access\<close> are a \<open>fuse_memory\<close>, so what \<open>Ef_Store\<close> proves holds of the chip.
\<close>

section \<open>The chip\<close>

definition store_regs :: "(u16 \<Rightarrow> u8) \<Rightarrow> u16 \<Rightarrow> bytes \<Rightarrow> u16 \<Rightarrow> u8" where
  "store_regs r a b = (\<lambda>x. if unat (x - a) < length b then b ! unat (x - a) else r x)"

definition fuse_addr :: "u8 \<Rightarrow> u8 \<Rightarrow> nat" where
  "fuse_addr lo hi = unat lo + 256 * unat (hi AND 3)"

text \<open>
  The registers and the memory of a chip in the state \<open>h\<close> are \<open>reg h\<close> and \<open>fuses h\<close>. A
  command is done when the transfer is.
\<close>

definition fuse_chip :: "'h usb_host \<Rightarrow> ('h \<Rightarrow> u16 \<Rightarrow> u8) \<Rightarrow> ('h \<Rightarrow> bytes) \<Rightarrow> bool" where
  "fuse_chip H reg fuses \<longleftrightarrow> answering H \<and>
     (\<forall>us h. reg (os_delay H us h) = reg h \<and> fuses (os_delay H us h) = fuses h) \<and>
     (\<forall>a b h. reply H True a b h = map (\<lambda>i. reg h (a + of_nat i)) [0..<length b] \<and>
        reg (after H True a b h) = reg h \<and> fuses (after H True a b h) = fuses h) \<and>
     (\<forall>a b h. length b \<le> 4 \<longrightarrow> \<not> unat (0x33 - a) < length b \<longrightarrow>
        reg (after H False a b h) = store_regs (reg h) a b \<and> fuses (after H False a b h) = fuses h) \<and>
     (\<forall>v h. v AND 0x80 = 0 \<longrightarrow> reg h 0x35 AND 3 = 0 \<longrightarrow>
        reg (after H False 0x33 [v] h) =
          (reg h)(0x33 := v OR 0x80, 0x30 := fuses h ! fuse_addr (reg h 0x31) (reg h 0x32)) \<and>
        fuses (after H False 0x33 [v] h) = fuses h) \<and>
     (\<forall>b h. length b = 4 \<longrightarrow> b ! 3 AND 0x80 \<noteq> 0 \<longrightarrow> reg h 0x35 AND 3 = 0 \<longrightarrow>
        reg (after H False 0x30 b h) = store_regs (reg h) 0x30 (b[3 := b ! 3 AND 0x7F]) \<and>
        fuses (after H False 0x30 b h) =
          (let a = fuse_addr (b ! 1) (b ! 2) in (fuses h)[a := fuses h ! a AND b ! 0]))"

text \<open>What a device shows: whether it can be used, its registers and its memory.\<close>

definition chip_view :: "('h \<Rightarrow> u16 \<Rightarrow> u8) \<Rightarrow> ('h \<Rightarrow> bytes) \<Rightarrow> 'h usb_dev \<Rightarrow> bool \<times> (u16 \<Rightarrow> u8) \<times> bytes" where
  "chip_view reg fuses d = (RTW_CANNOT_IO d, reg (udev d), fuses (udev d))"

lemma wp_if [simp]: "wp (if c then m else m') Q = (if c then wp m Q else wp m' Q)"
  by simp

lemma fuse_chipD:
  assumes "fuse_chip H reg fuses"
  shows "answering H"
    and "\<And>us h. reg (os_delay H us h) = reg h" "\<And>us h. fuses (os_delay H us h) = fuses h"
    and "\<And>a b h. reply H True a b h = map (\<lambda>i. reg h (a + of_nat i)) [0..<length b]"
    and "\<And>a b h. reg (after H True a b h) = reg h" "\<And>a b h. fuses (after H True a b h) = fuses h"
    and "\<And>a b h. length b \<le> 4 \<Longrightarrow> \<not> unat (0x33 - a) < length b \<Longrightarrow>
           reg (after H False a b h) = store_regs (reg h) a b \<and> fuses (after H False a b h) = fuses h"
    and "\<And>v h. v AND 0x80 = 0 \<Longrightarrow> reg h 0x35 AND 3 = 0 \<Longrightarrow>
           reg (after H False 0x33 [v] h) =
             (reg h)(0x33 := v OR 0x80, 0x30 := fuses h ! fuse_addr (reg h 0x31) (reg h 0x32)) \<and>
           fuses (after H False 0x33 [v] h) = fuses h"
    and "\<And>b h. length b = 4 \<Longrightarrow> b ! 3 AND 0x80 \<noteq> 0 \<Longrightarrow> reg h 0x35 AND 3 = 0 \<Longrightarrow>
           reg (after H False 0x30 b h) = store_regs (reg h) 0x30 (b[3 := b ! 3 AND 0x7F]) \<and>
           fuses (after H False 0x30 b h) =
             (let a = fuse_addr (b ! 1) (b ! 2) in (fuses h)[a := fuses h ! a AND b ! 0])"
  using assms unfolding fuse_chip_def by blast+

section \<open>Registers over USB\<close>

lemma transfer_wp:
  assumes "answering H" and "\<not> RTW_CANNOT_IO d" and "length p \<le> MAX_VENDOR_REQ_CMD_SIZE"
    and "\<And>d'. RTW_CANNOT_IO d' = RTW_CANNOT_IO d \<Longrightarrow>
           udev d' = after H rd v (if rd then replicate (length p) 0 else p) (udev d) \<Longrightarrow>
           Q (int (length p), if rd then reply H rd v (replicate (length p) 0) (udev d) else p) d'"
  shows "wp (usbctrl_vendorreq H rd v p) Q d"
proof -
  have "udev (served H rd v b d) = after H rd v b (udev d)" for b by (simp add: served_def)
  then show ?thesis
    using assms(4) vendorreq_answered [OF assms(1-3), of rd v] by (cases rd) (simp_all add: wp_def Let_def)
qed

lemma read8_wp:
  assumes "fuse_chip H reg fuses" and "chip_view reg fuses d = (False, r, f)"
    and "\<And>d'. chip_view reg fuses d' = (False, r, f) \<Longrightarrow> Q (r (ucast a)) d'"
  shows "wp (rtw_read8 H a) Q d"
  unfolding rtw_read8_def wp_bind using assms fuse_chipD [OF assms(1)]
  by (intro transfer_wp) (auto simp: chip_view_def MAX_VENDOR_REQ_CMD_SIZE_def)

lemma read16_wp:
  assumes "fuse_chip H reg fuses" and "chip_view reg fuses d = (False, r, f)"
    and "\<And>d'. chip_view reg fuses d' = (False, r, f) \<Longrightarrow> Q (le16_read [r (ucast a), r (ucast a + 1)]) d'"
  shows "wp (rtw_read16 H a) Q d"
  unfolding rtw_read16_def wp_bind using assms fuse_chipD [OF assms(1)]
  by (intro transfer_wp) (auto simp: chip_view_def MAX_VENDOR_REQ_CMD_SIZE_def upt_rec)

lemma read32_wp:
  assumes "fuse_chip H reg fuses" and "chip_view reg fuses d = (False, r, f)"
    and "\<And>d'. chip_view reg fuses d' = (False, r, f) \<Longrightarrow>
           Q (le32_read [r (ucast a), r (ucast a + 1), r (ucast a + 2), r (ucast a + 3)]) d'"
  shows "wp (rtw_read32 H a) Q d"
  unfolding rtw_read32_def wp_bind using assms fuse_chipD [OF assms(1)]
  by (intro transfer_wp) (auto simp: chip_view_def MAX_VENDOR_REQ_CMD_SIZE_def upt_rec)

lemma write_regs_wp:
  assumes "fuse_chip H reg fuses" and "chip_view reg fuses d = (False, r, f)"
    and "length b \<le> 4" and "\<not> unat (0x33 - ucast a :: u16) < length b"
    and "\<And>d'. chip_view reg fuses d' = (False, store_regs r (ucast a) b, f) \<Longrightarrow> Q True d'"
  shows "wp (usbctrl_vendorreq H False (ucast a) b) (\<lambda>(status, _). Q (RTW_STATUS_CODE status)) d"
  using assms(2,3,5) fuse_chipD(7) [OF assms(1,3,4), of "udev d"]
  by (intro transfer_wp [OF fuse_chipD(1) [OF assms(1)]]) (auto simp: chip_view_def MAX_VENDOR_REQ_CMD_SIZE_def RTW_STATUS_CODE_def)

lemma write8_wp:
  assumes "fuse_chip H reg fuses" and "chip_view reg fuses d = (False, r, f)" and "ucast a \<noteq> (0x33 :: u16)"
    and "\<And>d'. chip_view reg fuses d' = (False, r(ucast a := v), f) \<Longrightarrow> Q True d'"
  shows "wp (rtw_write8 H a v) Q d"
proof -
  have "store_regs r (ucast a) [v] = r(ucast a := v)" by (auto simp: store_regs_def unat_eq_0)
  moreover have "\<not> unat (0x33 - ucast a :: u16) < length [v]" using assms(3) by (simp add: unat_eq_0)
  ultimately have "wp (usbctrl_vendorreq H False (ucast a) [v]) (\<lambda>(status, _). Q (RTW_STATUS_CODE status)) d"
    using assms(4) by (intro write_regs_wp [OF assms(1,2)]) simp_all
  then show ?thesis by (simp add: rtw_write8_def case_prod_unfold)
qed

lemma length_le16_bytes: "length (le16_bytes v) = 2"
  by (simp add: le16_bytes_def)

lemma write16_wp:
  assumes "fuse_chip H reg fuses" and "chip_view reg fuses d = (False, r, f)"
    and "\<not> unat (0x33 - ucast a :: u16) < 2"
    and "\<And>d'. chip_view reg fuses d' = (False, store_regs r (ucast a) (le16_bytes v), f) \<Longrightarrow> Q True d'"
  shows "wp (rtw_write16 H a v) Q d"
proof -
  have "wp (usbctrl_vendorreq H False (ucast a) (le16_bytes v)) (\<lambda>(status, _). Q (RTW_STATUS_CODE status)) d"
    using assms(3,4) by (intro write_regs_wp [OF assms(1,2)]) (simp_all add: length_le16_bytes)
  then show ?thesis by (simp add: rtw_write16_def case_prod_unfold)
qed

lemma write32_wp:
  assumes "fuse_chip H reg fuses" and "chip_view reg fuses d = (False, r, f)"
    and "\<not> unat (0x33 - ucast a :: u16) < 4"
    and "\<And>d'. chip_view reg fuses d' = (False, store_regs r (ucast a) (le32_bytes v), f) \<Longrightarrow> Q True d'"
  shows "wp (rtw_write32 H a v) Q d"
proof -
  have "wp (usbctrl_vendorreq H False (ucast a) (le32_bytes v)) (\<lambda>(status, _). Q (RTW_STATUS_CODE status)) d"
    using assms(3,4) by (intro write_regs_wp [OF assms(1,2)]) simp_all
  then show ?thesis by (simp add: rtw_write32_def case_prod_unfold)
qed

lemma delay_wp:
  assumes "fuse_chip H reg fuses" and "chip_view reg fuses d = (False, r, f)"
    and "\<And>d'. chip_view reg fuses d' = (False, r, f) \<Longrightarrow> Q () d'"
  shows "wp (rtw_udelay_os H us) Q d"
  using assms(2,3) fuse_chipD(2,3) [OF assms(1)]
  by (simp add: rtw_udelay_os_def wp_def chip_view_def RTW_CANNOT_IO_def)

text \<open>The command that reads, and the one that programs.\<close>

lemma write_read_command_wp:
  assumes "fuse_chip H reg fuses" and "chip_view reg fuses d = (False, r, f)" and "v AND 0x80 = 0" and "r 0x35 AND 3 = 0"
    and "\<And>d'. chip_view reg fuses d' = (False, r(0x33 := v OR 0x80, 0x30 := f ! fuse_addr (r 0x31) (r 0x32)), f) \<Longrightarrow> Q True d'"
  shows "wp (rtw_write8 H 0x33 v) Q d"
proof -
  have "wp (usbctrl_vendorreq H False 0x33 [v]) (\<lambda>(status, _). Q (RTW_STATUS_CODE status)) d"
    using assms(2-5) fuse_chipD(8) [OF assms(1,3), of "udev d"]
    by (intro transfer_wp [OF fuse_chipD(1) [OF assms(1)]])
      (auto simp: chip_view_def MAX_VENDOR_REQ_CMD_SIZE_def RTW_STATUS_CODE_def)
  then show ?thesis by (simp add: rtw_write8_def case_prod_unfold)
qed

lemma write_program_wp:
  assumes "fuse_chip H reg fuses" and "chip_view reg fuses d = (False, r, f)"
    and "le32_bytes v ! 3 AND 0x80 \<noteq> 0" and "r 0x35 AND 3 = 0"
    and "\<And>d'. chip_view reg fuses d' = (False, store_regs r 0x30 ((le32_bytes v)[3 := le32_bytes v ! 3 AND 0x7F]),
           f[fuse_addr (le32_bytes v ! 1) (le32_bytes v ! 2) :=
               f ! fuse_addr (le32_bytes v ! 1) (le32_bytes v ! 2) AND le32_bytes v ! 0]) \<Longrightarrow> Q True d'"
  shows "wp (rtw_write32 H 0x30 v) Q d"
proof -
  have "wp (usbctrl_vendorreq H False 0x30 (le32_bytes v)) (\<lambda>(status, _). Q (RTW_STATUS_CODE status)) d"
    using assms(2-5) fuse_chipD(9) [OF assms(1), of "le32_bytes v" "udev d"]
    by (intro transfer_wp [OF fuse_chipD(1) [OF assms(1)]])
      (auto simp: chip_view_def MAX_VENDOR_REQ_CMD_SIZE_def RTW_STATUS_CODE_def Let_def)
  then show ?thesis by (simp add: rtw_write32_def case_prod_unfold)
qed

section \<open>The routines on the chip\<close>

text \<open>Bank 0 is selected: bits 8 and 9 of the register at 0x34.\<close>

lemma and3: "(w :: u8) AND 3 = 0 \<longleftrightarrow> \<not> bit w 0 \<and> \<not> bit w 1"
proof -
  have m: "(3 :: u8) = mask 2" by (simp add: mask_eq_exp_minus_1)
  have "w AND mask 2 = 0 \<longleftrightarrow> (\<forall>n<8. \<not> bit (w AND mask 2) n)" using bit_eq_iff [of "w AND mask 2" 0] by simp
  then show ?thesis
    unfolding m by (auto simp: bit_simps less_2_cases_iff dest: spec [of _ 0] spec [of _ 1])
qed

lemma byte_bits: "\<not> bit (w :: u8) 8" "\<not> bit (w :: u8) 9"
  by (auto dest: bit_imp_le_length)

lemma bank_kept:
  fixes r :: "u16 \<Rightarrow> u8"
  assumes "r 0x35 AND 3 = 0" and "\<not> bit m 8" "\<not> bit m 9"
  shows "le32_bytes ((le32_read [r 0x34, r 0x35, r 0x36, r 0x37] AND NOT n) OR (x AND m)) ! 1 AND 3 = 0"
  using assms by (simp add: and3 le32_bytes_def le32_read_def bit_simps byte_bits)

lemma store_regs_nth: "unat (x - a) < length b \<Longrightarrow> store_regs r a b x = b ! unat (x - a)"
  "\<not> unat (x - a) < length b \<Longrightarrow> store_regs r a b x = r x"
  by (simp_all add: store_regs_def)

lemma set_test_wp:
  assumes "fuse_chip H reg fuses" and "chip_view reg fuses d = (False, r, f)" and "r 0x35 AND 3 = 0"
    and "\<not> bit m 8" "\<not> bit m 9" and "m \<noteq> bMaskDWord"
    and "\<And>r' d'. chip_view reg fuses d' = (False, r', f) \<Longrightarrow> r' 0x35 AND 3 = 0 \<Longrightarrow> Q () d'"
  shows "wp (PHY_SetBBReg_8188F H EFUSE_TEST m x) Q d"
  unfolding PHY_SetBBReg_8188F_def if_P [OF assms(6)] wp_bind wp_return EFUSE_TEST_def
proof (rule read32_wp [OF assms(1,2)], rule write32_wp [OF assms(1)], assumption)
  fix d1 d2
  let ?v = "le32_read [r (ucast (0x34 :: u32)), r (ucast (0x34 :: u32) + 1), r (ucast (0x34 :: u32) + 2), r (ucast (0x34 :: u32) + 3)]"
  assume d2: "chip_view reg fuses d2 = (False, store_regs r (ucast (0x34 :: u32))
      (le32_bytes ((?v AND NOT m) OR (push_bit (phy_CalculateBitShift m) x AND m))), f)"
  show "Q () d2"
    by (rule assms(7) [OF d2]) (use bank_kept [of r, OF assms(3-5)] in \<open>simp add: store_regs_nth\<close>)
qed (simp add: unsigned_minus_1_eq_mask mask_eq_exp_minus_1)

lemma test_masks: "\<not> bit BIT11 8" "\<not> bit BIT11 9" "BIT11 \<noteq> bMaskDWord" "\<not> bit BIT26 8" "\<not> bit BIT26 9" "BIT26 \<noteq> bMaskDWord"
  by (simp_all add: BIT11_def BIT26_def bMaskDWord_def)

lemma bank0_wp:
  assumes "fuse_chip H reg fuses" and "chip_view reg fuses d = (False, r, f)"
    and "\<And>r' d'. chip_view reg fuses d' = (False, r', f) \<Longrightarrow> r' 0x35 AND 3 = 0 \<Longrightarrow> Q True d'"
  shows "wp (do { value32 \<leftarrow> rtw_read32 H 0x34; _ \<leftarrow> rtw_write32 H 0x34 ((value32 AND NOT 0x300) OR 0); State_Monad.return True }) Q d"
  unfolding wp_bind wp_return
proof (rule read32_wp [OF assms(1,2)], rule write32_wp [OF assms(1)], assumption)
  fix d1 d2
  let ?v = "le32_read [r (ucast (0x34 :: u32)), r (ucast (0x34 :: u32) + 1), r (ucast (0x34 :: u32) + 2), r (ucast (0x34 :: u32) + 3)]"
  assume d2: "chip_view reg fuses d2 = (False, store_regs r (ucast (0x34 :: u32)) (le32_bytes ((?v AND NOT 0x300) OR 0)), f)"
  show "Q True d2"
    by (rule assms(3) [OF d2]) (simp add: store_regs_nth and3 le32_bytes_def bit_simps)
qed (simp add: unsigned_minus_1_eq_mask mask_eq_exp_minus_1)

lemma power_wp:
  assumes "fuse_chip H reg fuses" and "chip_view reg fuses d = (False, r, f)"
    and "\<And>r' d'. chip_view reg fuses d' = (False, r', f) \<Longrightarrow> r' 0x35 = r 0x35 \<Longrightarrow> Q () d'"
  shows "wp (Hal_EfusePowerSwitch H bWrite PwrState) Q d"
proof -
  have last: "wp (rtw_read8 H 0x37) (\<lambda>v. wp (rtw_write8 H 0x37 (g v)) (\<lambda>_. Q ())) e"
    if e: "chip_view reg fuses e = (False, r', f)" "r' 0x35 = r 0x35" for e r' g
    by (rule read8_wp [OF assms(1) e(1)], rule write8_wp [OF assms(1)], assumption, simp, rule assms(3), assumption)
      (simp add: e(2))
  have clk: "wp (rtw_read16 H 8) (\<lambda>v. if c v then wp (rtw_write16 H 8 (g v))
        (\<lambda>_. if bWrite then wp (rtw_read8 H 0x37) (\<lambda>v. wp (rtw_write8 H 0x37 (v OR 0x80)) (\<lambda>_. Q ())) else Q ())
      else (if bWrite then wp (rtw_read8 H 0x37) (\<lambda>v. wp (rtw_write8 H 0x37 (v OR 0x80)) (\<lambda>_. Q ())) else Q ())) e"
    if e: "chip_view reg fuses e = (False, r', f)" "r' 0x35 = r 0x35" for e r' c g
  proof (rule read16_wp [OF assms(1) e(1)])
    fix e1
    assume e1: "chip_view reg fuses e1 = (False, r', f)"
    have w: "wp (rtw_write16 H 8 v)
        (\<lambda>_. if bWrite then wp (rtw_read8 H 0x37) (\<lambda>v. wp (rtw_write8 H 0x37 (v OR 0x80)) (\<lambda>_. Q ())) else Q ()) e1" for v
    proof (rule write16_wp [OF assms(1) e1])
      fix e2
      assume e2: "chip_view reg fuses e2 = (False, store_regs r' (ucast (8 :: u32)) (le16_bytes v), f)"
      have "store_regs r' (ucast (8 :: u32)) (le16_bytes v) 0x35 = r 0x35"
        using e(2) by (simp add: store_regs_nth length_le16_bytes)
      then show "(if bWrite then wp (rtw_read8 H 0x37) (\<lambda>v. wp (rtw_write8 H 0x37 (v OR 0x80)) (\<lambda>_. Q ())) else Q ()) e2"
        using last [OF e2] assms(3) [OF e2] by simp
    qed simp
    show "(if c (le16_read [r' (ucast (8 :: u32)), r' (ucast (8 :: u32) + 1)]) then wp (rtw_write16 H 8 (g (le16_read [r' (ucast (8 :: u32)), r' (ucast (8 :: u32) + 1)])))
        (\<lambda>_. if bWrite then wp (rtw_read8 H 0x37) (\<lambda>v. wp (rtw_write8 H 0x37 (v OR 0x80)) (\<lambda>_. Q ())) else Q ())
      else (if bWrite then wp (rtw_read8 H 0x37) (\<lambda>v. wp (rtw_write8 H 0x37 (v OR 0x80)) (\<lambda>_. Q ())) else Q ())) e1"
      using w last [OF e1 e(2)] assms(3) [OF e1 e(2)] by simp
  qed
  show ?thesis
  proof (cases PwrState)
    case False
    have "wp (rtw_write8 H 0xCF 0) (\<lambda>_. if bWrite then wp (rtw_read8 H 0x37) (\<lambda>v. wp (rtw_write8 H 0x37 (v AND 0x7F)) (\<lambda>_. Q ())) else Q ()) d"
    proof (rule write8_wp [OF assms(1,2)])
      fix e
      assume e: "chip_view reg fuses e = (False, r(ucast (0xCF :: u32) := 0), f)"
      show "(if bWrite then wp (rtw_read8 H 0x37) (\<lambda>v. wp (rtw_write8 H 0x37 (v AND 0x7F)) (\<lambda>_. Q ())) else Q ()) e"
        using last [OF e] assms(3) [OF e] by simp
    qed simp
    then show ?thesis
      using False by (cases bWrite) (simp_all add: Hal_EfusePowerSwitch_def ef_regs EFUSE_ACCESS_OFF_def)
  next
    case True
    let ?K = "\<lambda>e. wp (rtw_read16 H 8) (\<lambda>v. if v AND LOADER_CLK_EN = 0 \<or> v AND ANA8M = 0 then wp (rtw_write16 H 8 (v OR (LOADER_CLK_EN OR ANA8M)))
        (\<lambda>_. if bWrite then wp (rtw_read8 H 0x37) (\<lambda>v. wp (rtw_write8 H 0x37 (v OR 0x80)) (\<lambda>_. Q ())) else Q ())
      else (if bWrite then wp (rtw_read8 H 0x37) (\<lambda>v. wp (rtw_write8 H 0x37 (v OR 0x80)) (\<lambda>_. Q ())) else Q ())) e"
    have "wp (rtw_write8 H 0xCF 0x69) (\<lambda>_. wp (rtw_read16 H 2)
        (\<lambda>v. if v AND FEN_ELDR = 0 then wp (rtw_write16 H 2 (v OR FEN_ELDR)) (\<lambda>_. ?K) else ?K)) d"
    proof (rule write8_wp [OF assms(1,2)], simp, rule read16_wp [OF assms(1)], assumption)
      fix e e1
      let ?r1 = "r(ucast (0xCF :: u32) := 0x69)"
      assume e1: "chip_view reg fuses e1 = (False, ?r1, f)"
      have "wp (rtw_write16 H 2 v) (\<lambda>_. ?K) e1" for v
      proof (rule write16_wp [OF assms(1) e1], simp)
        fix e2
        assume e2: "chip_view reg fuses e2 = (False, store_regs ?r1 (ucast (2 :: u32)) (le16_bytes v), f)"
        show "?K e2" by (rule clk [OF e2]) (simp add: store_regs_nth length_le16_bytes)
      qed
      moreover have "?K e1" by (rule clk [OF e1]) simp
      ultimately show "(if le16_read [?r1 (ucast (2 :: u32)), ?r1 (ucast (2 :: u32) + 1)] AND FEN_ELDR = 0
          then wp (rtw_write16 H 2 (le16_read [?r1 (ucast (2 :: u32)), ?r1 (ucast (2 :: u32) + 1)] OR FEN_ELDR)) (\<lambda>_. ?K) else ?K) e1"
        by simp
    qed
    then show ?thesis
      using True by (cases bWrite) (simp_all add: Hal_EfusePowerSwitch_def ef_regs EFUSE_ACCESS_ON_def cong del: if_weak_cong)
  qed
qed

text \<open>A byte is read.\<close>

lemma fuse_addr_split:
  assumes "unat (a :: u16) < 512"
  shows "fuse_addr (ucast a) ((ucast (drop_bit 8 a) AND 3) OR (x AND 0xfc)) = unat a"
proof -
  have m: "(3 :: u8) = mask 2" "(0xfc :: u8) = push_bit 2 (mask 6)" by (simp_all add: mask_eq_exp_minus_1)
  have "((ucast (drop_bit 8 a) AND 3) OR (x AND 0xfc)) AND 3 = (ucast (drop_bit 8 a) AND 3 :: u8)"
    unfolding m by (rule bit_word_eqI) (auto simp: bit_simps)
  moreover have "unat (ucast (drop_bit 8 a) AND 3 :: u8) = unat a div 256"
  proof -
    have "unat (drop_bit 8 a) = unat a div 2 ^ 8" by (simp add: drop_bit_eq_div unat_div)
    then have "unat (ucast (drop_bit 8 a) :: u8) = unat a div 256"
      using assms by (simp add: unsigned_ucast_eq take_bit_nat_eq_self)
    moreover have "unat (w AND mask 2 :: u8) = take_bit 2 (unat w)" for w
      by (simp only: take_bit_eq_mask [symmetric] unsigned_take_bit_eq)
    ultimately show ?thesis using assms by (simp add: m(1) take_bit_nat_eq_self)
  qed
  moreover have "unat (ucast a :: u8) = unat a mod 256" by (simp add: unsigned_ucast_eq take_bit_eq_mod)
  ultimately show ?thesis by (simp add: fuse_addr_def)
qed

lemma set_addr_wp:
  assumes "fuse_chip H reg fuses" and "chip_view reg fuses d = (False, r, f)"
    and "\<And>d' hi. chip_view reg fuses d' = (False, r(0x31 := ucast a, 0x32 := (ucast (drop_bit 8 a) AND 3) OR (hi AND 0xfc)), f) \<Longrightarrow> Q () d'"
  shows "wp (efuse_set_addr H a) Q d"
  unfolding efuse_set_addr_def wp_bind wp_return
  by (rule write8_wp [OF assms(1,2)], simp add: EFUSE_CTRL_def, rule read8_wp [OF assms(1)], assumption,
      rule write8_wp [OF assms(1)], assumption, simp add: EFUSE_CTRL_def, rule assms(3)) (simp add: EFUSE_CTRL_def)

lemma wait_wp:
  assumes "fuse_chip H reg fuses" and "chip_view reg fuses d = (False, r, f)" and "\<not> busy (r 0x33)"
    and "\<And>d'. chip_view reg fuses d' = (False, r, f) \<Longrightarrow> Q i d'"
  shows "wp (efuse_wait H busy n i) Q d"
proof -
  have a: "ucast (EFUSE_CTRL + 3) = (0x33 :: u16)" by (simp add: EFUSE_CTRL_def)
  show ?thesis
    by (cases n; simp; rule read8_wp [OF assms(1,2)], simp add: a assms(3,4))
qed

lemma read_hw_wp:
  assumes "fuse_chip H reg fuses" and "chip_view reg fuses d = (False, r, f)" and "r 0x35 AND 3 = 0" and "unat a < 512"
    and "\<And>r' d'. chip_view reg fuses d' = (False, r', f) \<Longrightarrow> r' 0x35 AND 3 = 0 \<Longrightarrow> Q (True, f ! unat a) d'"
  shows "wp (efuse_OneByteRead_hw H smic a) Q d"
proof -
  let ?rest = "do {
     _ \<leftarrow> efuse_set_addr H a;
     readbyte \<leftarrow> rtw_read8 H (EFUSE_CTRL + 3);
     _ \<leftarrow> rtw_write8 H (EFUSE_CTRL + 3) (readbyte AND 0x7f);
     tmpidx \<leftarrow> efuse_wait H (\<lambda>v. v AND 0x80 = 0) 1000 0;
     if tmpidx < 100 then do { v \<leftarrow> rtw_read8 H EFUSE_CTRL; State_Monad.return (True, v) }
     else State_Monad.return (False, 0xff) }"
  have ctrl: "EFUSE_CTRL + 3 = 0x33" "EFUSE_CTRL = 0x30" by (simp_all add: EFUSE_CTRL_def)
  have rest: "wp ?rest Q e" if e: "chip_view reg fuses e = (False, r', f)" "r' 0x35 AND 3 = 0" for e r'
    unfolding wp_bind ctrl(1)
  proof (rule set_addr_wp [OF assms(1) e(1)], rule read8_wp [OF assms(1)], assumption, rule write_read_command_wp [OF assms(1)], assumption)
    fix hi d1 d2 d3
    let ?r = "r'(0x31 := ucast a, 0x32 := (ucast (drop_bit 8 a) AND 3) OR (hi AND 0xfc))"
    let ?v = "?r (ucast (0x33 :: u32)) AND 0x7f"
    show "?v AND 0x80 = 0" by (simp add: and.assoc)
    show "?r 0x35 AND 3 = 0" using e(2) by simp
    let ?s = "?r(0x33 := ?v OR 0x80, 0x30 := f ! fuse_addr (?r 0x31) (?r 0x32))"
    assume d3: "chip_view reg fuses d3 = (False, ?s, f)"
    have data: "?s 0x30 = f ! unat a" using fuse_addr_split [OF assms(4)] by simp
    have idle: "\<not> ?s 0x33 AND 0x80 = 0"
    proof -
      have "(x OR 0x80) AND 0x80 = (0x80 :: u8)" for x by (rule bit_word_eqI) (auto simp: bit_simps)
      then show ?thesis by simp
    qed
    show "wp (efuse_wait H (\<lambda>v. v AND 0x80 = 0) 1000 0)
        (\<lambda>x. wp (if x < 100 then do { v \<leftarrow> rtw_read8 H EFUSE_CTRL; State_Monad.return (True, v) }
                 else State_Monad.return (False, 0xff)) Q) d3"
    proof (rule wait_wp [where busy = "\<lambda>v. v AND 0x80 = 0", OF assms(1) d3 idle])
      fix d4
      assume d4: "chip_view reg fuses d4 = (False, ?s, f)"
      have "wp (rtw_read8 H EFUSE_CTRL) (\<lambda>v. Q (True, v)) d4"
        by (rule read8_wp [OF assms(1) d4], unfold ctrl(2)) (use assms(5) e(2) data in simp)
      then show "wp (if (0 :: nat) < 100 then do { v \<leftarrow> rtw_read8 H EFUSE_CTRL; State_Monad.return (True, v) }
                 else State_Monad.return (False, 0xff)) Q d4" by simp
    qed
  qed
  have t: "EFUSE_TEST = 0x34" by (simp add: EFUSE_TEST_def)
  have pre: "wp (if smic then do { v \<leftarrow> rtw_read16 H EFUSE_TEST; rtw_write16 H EFUSE_TEST (v AND NOT (ucast BIT11)) }
      else State_Monad.return True) (\<lambda>_. wp ?rest Q) d"
  proof (cases smic)
    case True
    have "wp (rtw_read16 H 0x34) (\<lambda>v. wp (rtw_write16 H 0x34 (v AND NOT (ucast BIT11))) (\<lambda>_. wp ?rest Q)) d"
    proof (rule read16_wp [OF assms(1,2)], rule write16_wp [OF assms(1)], assumption)
      fix d1 d2
      let ?v = "le16_read [r (ucast (0x34 :: u32)), r (ucast (0x34 :: u32) + 1)]"
      assume d2: "chip_view reg fuses d2 = (False, store_regs r (ucast (0x34 :: u32)) (le16_bytes (?v AND NOT (ucast BIT11))), f)"
      show "wp ?rest Q d2"
        by (rule rest [OF d2])
          (use assms(3) in \<open>simp add: store_regs_nth length_le16_bytes, simp add: and3 le16_bytes_def le16_read_def bit_simps byte_bits\<close>)
    qed (simp add: unsigned_minus_1_eq_mask mask_eq_exp_minus_1)
    then show ?thesis using True by (simp add: t)
  next
    case False
    then show ?thesis using rest [OF assms(2,3)] by simp
  qed
  then show ?thesis by (simp add: efuse_OneByteRead_hw_def)
qed

text \<open>A byte is programmed.\<close>

lemma high_bits: "8 \<le> n \<Longrightarrow> \<not> bit (w :: u8) n"
  by (auto dest: bit_imp_le_length)

lemma program_word:
  assumes "\<And>n. n < 18 \<Longrightarrow> bit (v :: u32) n \<longleftrightarrow> bit (push_bit 8 (ucast (a :: u16)) OR ucast (b :: u8) :: u32) n"
    and "bit v 31" and "unat a < 512"
  shows "le32_bytes v ! 0 = b" "fuse_addr (le32_bytes v ! 1) (le32_bytes v ! 2) = unat a"
    "le32_bytes v ! 3 AND 0x80 \<noteq> 0"
proof -
  have m: "(3 :: u8) = mask 2" by (simp add: mask_eq_exp_minus_1)
  show "le32_bytes v ! 0 = b"
    by (rule bit_word_eqI) (auto simp: le32_bytes_def bit_simps assms(1) dest: bit_imp_le_length)
  have "le32_bytes v ! 1 = ucast a"
    by (rule bit_word_eqI) (auto simp: le32_bytes_def bit_simps assms(1) dest: bit_imp_le_length)
  moreover have "le32_bytes v ! 2 AND 3 = (ucast (drop_bit 8 a) AND 3 OR (0 AND 0xfc)) AND 3"
    unfolding m by (rule bit_word_eqI) (auto simp: le32_bytes_def bit_simps assms(1) high_bits)
  ultimately show "fuse_addr (le32_bytes v ! 1) (le32_bytes v ! 2) = unat a"
    using fuse_addr_split [OF assms(3), of 0] by (simp add: fuse_addr_def)
  have "bit (le32_bytes v ! 3 AND 0x80) 7"
    using assms(2) by (simp add: le32_bytes_def bit_simps)
  then show "le32_bytes v ! 3 AND 0x80 \<noteq> 0" by auto
qed

definition program_cmd :: "u16 \<Rightarrow> u8 \<Rightarrow> u32" where
  "program_cmd a b = push_bit 8 (ucast a) OR ucast b"

lemma program_cmd_bits:
  assumes "n < 18"
  shows "bit (0x90600000 OR program_cmd a b) n \<longleftrightarrow> bit (program_cmd a b) n"
    and "bit (((x OR 0x80200000) AND NOT 0x3FFFF) OR (program_cmd a b AND 0x3FFFF)) n \<longleftrightarrow> bit (program_cmd a b) n"
proof -
  have c: "0x90600000 = (push_bit 21 0x483 :: u32)" "0x80200000 = (push_bit 21 0x401 :: u32)" "0x3FFFF = (mask 18 :: u32)"
    by (simp_all add: mask_eq_exp_minus_1)
  show "bit (0x90600000 OR program_cmd a b) n \<longleftrightarrow> bit (program_cmd a b) n"
    "bit (((x OR 0x80200000) AND NOT 0x3FFFF) OR (program_cmd a b AND 0x3FFFF)) n \<longleftrightarrow> bit (program_cmd a b) n"
    unfolding c using assms
    by (simp_all only: bit_or_iff bit_and_iff bit_not_iff bit_mask_iff bit_push_bit_iff) simp_all
qed

lemma program_wp:
  assumes "fuse_chip H reg fuses" and "chip_view reg fuses d = (False, r, f)" and "r 0x35 AND 3 = 0" and "unat a < 512"
    and v: "\<And>n. n < 18 \<Longrightarrow> bit v n \<longleftrightarrow> bit (program_cmd a b) n" "bit v 31"
    and "\<And>r' d'. chip_view reg fuses d' = (False, r', f[unat a := f ! unat a AND b]) \<Longrightarrow>
           r' 0x35 AND 3 = 0 \<Longrightarrow> r' 0x33 AND 0x80 = 0 \<Longrightarrow> Q True d'"
  shows "wp (rtw_write32 H 0x30 v) Q d"
proof (rule write_program_wp [OF assms(1,2) _ assms(3)])
  note word = program_word [OF v [unfolded program_cmd_def] assms(4)]
  show "le32_bytes v ! 3 AND 0x80 \<noteq> 0" by (rule word(3))
  fix e
  let ?r = "store_regs r 0x30 ((le32_bytes v)[3 := le32_bytes v ! 3 AND 0x7F])"
  assume "chip_view reg fuses e = (False, ?r,
    f[fuse_addr (le32_bytes v ! 1) (le32_bytes v ! 2) := f ! fuse_addr (le32_bytes v ! 1) (le32_bytes v ! 2) AND le32_bytes v ! 0])"
  then have e: "chip_view reg fuses e = (False, ?r, f[unat a := f ! unat a AND b])" by (simp only: word(1,2))
  have "(le32_bytes v ! 3 AND 0x7F) AND 0x80 = (0 :: u8)" by (simp add: and.assoc)
  then show "Q True e" by (intro assms(7) [OF e]) (use assms(3) in \<open>simp_all add: store_regs_nth\<close>)
qed

lemma program_done_wp:
  assumes "fuse_chip H reg fuses" and "chip_view reg fuses d = (False, r, f)" and "r 0x35 AND 3 = 0" and "r 0x33 AND 0x80 = 0"
    and "\<And>r' d'. chip_view reg fuses d' = (False, r', f) \<Longrightarrow> r' 0x35 AND 3 = 0 \<Longrightarrow> Q True d'"
  shows "wp (do {
     tmpidx \<leftarrow> efuse_wait H (\<lambda>v. v AND 0x80 \<noteq> 0) 100 0;
     _ \<leftarrow> (if smic then PHY_SetBBReg_8188F H EFUSE_TEST BIT11 0 else State_Monad.return ());
     _ \<leftarrow> Hal_EfusePowerSwitch H True False;
     State_Monad.return (tmpidx < 100) }) Q d"
  unfolding wp_bind
proof (rule wait_wp [where busy = "\<lambda>v. v AND 0x80 \<noteq> 0", OF assms(1,2)])
  have off: "wp (Hal_EfusePowerSwitch H True False) (\<lambda>_. Q True) e"
    if e: "chip_view reg fuses e = (False, r', f)" "r' 0x35 AND 3 = 0" for e r'
    by (rule power_wp [OF assms(1) e(1)]) (use assms(5) e(2) in simp)
  fix e
  assume e: "chip_view reg fuses e = (False, r, f)"
  have "wp (PHY_SetBBReg_8188F H EFUSE_TEST BIT11 0) (\<lambda>_. wp (Hal_EfusePowerSwitch H True False) (\<lambda>_. Q True)) e"
    by (rule set_test_wp [OF assms(1) e assms(3) test_masks(1-3)]) (rule off)
  then show "wp (if smic then PHY_SetBBReg_8188F H EFUSE_TEST BIT11 0 else State_Monad.return ())
      (\<lambda>_. wp (Hal_EfusePowerSwitch H True False) (\<lambda>_. wp (State_Monad.return ((0 :: nat) < 100)) Q)) e"
    using off [OF e assms(3)] by simp
qed (use assms(4) in simp)

lemma write_hw_wp:
  assumes "fuse_chip H reg fuses" and "chip_view reg fuses d = (False, r, f)" and "r 0x35 AND 3 = 0" and "unat a < 512"
    and "\<And>r' d'. chip_view reg fuses d' = (False, r', f[unat a := f ! unat a AND b]) \<Longrightarrow> r' 0x35 AND 3 = 0 \<Longrightarrow> Q True d'"
  shows "wp (efuse_OneByteWrite_hw H smic a b) Q d"
proof -
  let ?rest = "do {
     tmpidx \<leftarrow> efuse_wait H (\<lambda>v. v AND 0x80 \<noteq> 0) 100 0;
     _ \<leftarrow> (if smic then PHY_SetBBReg_8188F H EFUSE_TEST BIT11 0 else State_Monad.return ());
     _ \<leftarrow> Hal_EfusePowerSwitch H True False;
     State_Monad.return (tmpidx < 100) }"
  have ctrl: "EFUSE_CTRL = 0x30" "EFUSE_TEST = 0x34" by (simp_all add: EFUSE_CTRL_def EFUSE_TEST_def)
  have prog: "wp (rtw_write32 H 0x30 v) (\<lambda>_. wp ?rest Q) e"
    if e: "chip_view reg fuses e = (False, r', f)" "r' 0x35 AND 3 = 0"
      and v: "\<And>n. n < 18 \<Longrightarrow> bit v n \<longleftrightarrow> bit (program_cmd a b) n" "bit v 31" for e r' v
    by (rule program_wp [OF assms(1) e assms(4) v], assumption) (rule program_done_wp [OF assms(1)]; assumption?; rule assms(5); assumption)
  have smic: "wp (rtw_read16 H 0x34) (\<lambda>v. wp (rtw_write16 H 0x34 (v OR ucast BIT11))
      (\<lambda>_. wp (rtw_write32 H 0x30 (0x90600000 OR program_cmd a b)) (\<lambda>_. wp ?rest Q))) e"
    if e: "chip_view reg fuses e = (False, r', f)" "r' 0x35 AND 3 = 0" for e r'
  proof (rule read16_wp [OF assms(1) e(1)], rule write16_wp [OF assms(1)], assumption, goal_cases)
    case (2 d1 d2)
    show ?case
      by (rule prog [OF 2(2) _ program_cmd_bits(1)])
        (use e(2) in \<open>simp_all add: store_regs_nth length_le16_bytes bit_simps\<close>,
         simp add: and3 le16_bytes_def le16_read_def bit_simps byte_bits BIT11_def)
  qed (simp add: unsigned_minus_1_eq_mask mask_eq_exp_minus_1)
  have plain: "wp (rtw_write32 H 0x30 (((x OR 0x80200000) AND NOT 0x3FFFF) OR (program_cmd a b AND 0x3FFFF))) (\<lambda>_. wp ?rest Q) e"
    if e: "chip_view reg fuses e = (False, r', f)" "r' 0x35 AND 3 = 0" for e r' x
    by (rule prog [OF e program_cmd_bits(2)]) (simp_all add: bit_simps)
  show ?thesis
    unfolding efuse_OneByteWrite_hw_def wp_bind wp_if Let_def ctrl program_cmd_def [symmetric]
    by (rule power_wp [OF assms(1,2)], rule read32_wp [OF assms(1)], assumption)
      (use smic plain assms(3) in \<open>cases smic; simp add: ctrl\<close>)
qed

section \<open>The memory the packet routines see\<close>

definition chip_ready :: "('h \<Rightarrow> u16 \<Rightarrow> u8) \<Rightarrow> ('h \<Rightarrow> bytes) \<Rightarrow> 'h ef_sys \<Rightarrow> bool" where
  "chip_ready reg fuses s \<longleftrightarrow> \<not> RTW_CANNOT_IO (ef_dev s) \<and> length (fuses (udev (ef_dev s))) = EFUSE_MAX_HW_SIZE \<and>
     reg (udev (ef_dev s)) 0x35 AND 3 = 0"

lemma chip_readyD:
  assumes "chip_ready reg fuses s"
  shows "chip_view reg fuses (ef_dev s) = (False, reg (udev (ef_dev s)), fuses (udev (ef_dev s)))"
    and "reg (udev (ef_dev s)) 0x35 AND 3 = 0"
  using assms by (simp_all add: chip_ready_def chip_view_def)

lemma chip_readyI:
  assumes "chip_view reg fuses d = (False, r, f)" and "r 0x35 AND 3 = 0" and "length f = 512"
  shows "chip_ready reg fuses (s\<lparr>ef_dev := d\<rparr>)" and "fuses (udev d) = f"
  using assms by (simp_all add: chip_ready_def chip_view_def EFUSE_MAX_HW_SIZE_def)

lemma chip_memory:
  assumes "fuse_chip H reg fuses"
  shows "fuse_memory H False (\<lambda>s. fuses (udev (ef_dev s))) (chip_ready reg fuses)"
proof (unfold_locales, goal_cases)
  case (4 s a old)
  have len: "length (fuses (udev (ef_dev s))) = 512" using 4 by (simp add: chip_ready_def EFUSE_MAX_HW_SIZE_def)
  have "wp (efuse_OneByteRead_hw H smic a) (\<lambda>r d. r = (True, fuses (udev (ef_dev s)) ! unat a) \<and> chip_ready reg fuses (s\<lparr>ef_dev := d\<rparr>) \<and>
      fuses (udev d) = fuses (udev (ef_dev s))) (ef_dev s)" for smic
    by (rule read_hw_wp [OF assms chip_readyD [OF 4(1)] 4(2)]) (simp add: chip_readyI len)
  then show ?case by (simp add: efuse_OneByteRead_def)
next
  case (5 s a v)
  have "(0xFF :: u8) = - 1" by simp
  then have ones: "0xFF AND v = v" by (simp only: and.left_neutral)
  have len: "length (fuses (udev (ef_dev s))) = 512" using 5 by (simp add: chip_ready_def EFUSE_MAX_HW_SIZE_def)
  have "wp (efuse_OneByteWrite_hw H smic a v) (\<lambda>r d. r \<and> chip_ready reg fuses (s\<lparr>ef_dev := d\<rparr>) \<and>
      fuses (udev d) = (fuses (udev (ef_dev s)))[unat a := v]) (ef_dev s)" for smic
    by (rule write_hw_wp [OF assms chip_readyD [OF 5(1)] 5(2)]) (simp add: chip_readyI len 5(3) ones)
  then show ?case by (simp add: efuse_OneByteWrite_def)
next
  case (6 s)
  have len: "length (fuses (udev (ef_dev s))) = 512" using 6 by (simp add: chip_ready_def EFUSE_MAX_HW_SIZE_def)
  have "wp (do { value32 \<leftarrow> rtw_read32 H 0x34; _ \<leftarrow> rtw_write32 H 0x34 ((value32 AND NOT 0x300) OR 0); State_Monad.return True })
      (\<lambda>r d. r \<and> chip_ready reg fuses (s\<lparr>ef_dev := d\<rparr>) \<and> fuses (udev d) = fuses (udev (ef_dev s))) (ef_dev s)"
    by (rule bank0_wp [OF assms chip_readyD(1) [OF 6]]) (simp add: chip_readyI len)
  then show ?case by (simp add: hal_EfuseSwitchToBank_def EFUSE_TEST_def)
next
  case (7 s v)
  have len: "length (fuses (udev (ef_dev s))) = 512" using 7 by (simp add: chip_ready_def EFUSE_MAX_HW_SIZE_def)
  have "wp (PHY_SetBBReg_8188F H EFUSE_TEST BIT26 v)
      (\<lambda>r d. chip_ready reg fuses (s\<lparr>ef_dev := d\<rparr>) \<and> fuses (udev d) = fuses (udev (ef_dev s))) (ef_dev s)"
    by (rule set_test_wp [OF assms chip_readyD [OF 7] test_masks(4-6)]) (simp add: chip_readyI len)
  then show ?case by (simp add: PHY_SetMacReg_def)
qed (simp_all add: chip_ready_def EFUSE_MAX_HW_SIZE_def)

text \<open>A chip, and a host that serves its registers.\<close>

definition chip_msg :: "bool \<Rightarrow> u16 \<Rightarrow> bytes \<Rightarrow> (u16 \<Rightarrow> u8) \<times> bytes \<Rightarrow> int \<times> bytes \<times> (u16 \<Rightarrow> u8) \<times> bytes" where
  "chip_msg rd a b h = (case h of (r, f) \<Rightarrow>
     (int (length b),
      if rd then map (\<lambda>i. r (a + of_nat i)) [0..<length b] else b,
      if rd then h
      else if a = 0x33 \<and> length b = 1 \<and> b ! 0 AND 0x80 = 0
      then (r(0x33 := b ! 0 OR 0x80, 0x30 := f ! fuse_addr (r 0x31) (r 0x32)), f)
      else if a = 0x30 \<and> length b = 4 \<and> b ! 3 AND 0x80 \<noteq> 0
      then (store_regs r 0x30 (b[3 := b ! 3 AND 0x7F]),
            let x = fuse_addr (b ! 1) (b ! 2) in f[x := f ! x AND b ! 0])
      else (store_regs r a b, f)))"

definition chip_host :: "((u16 \<Rightarrow> u8) \<times> bytes) usb_host" where
  "chip_host = \<lparr>usb_control_msg = chip_msg, os_delay = (\<lambda>_ h. h), jiffies = (\<lambda>_. 0), host_HZ = 100\<rparr>"

lemma chip_host_chip: "fuse_chip chip_host fst snd"
proof -
  have "\<not> (a = 0x33 \<and> length b = 1)" "\<not> (a = 0x30 \<and> length b = 4)" if "\<not> unat (0x33 - a :: u16) < length b" for a and b :: bytes
    using that by auto
  then show ?thesis
    by (auto simp: fuse_chip_def answering_def reply_def after_def chip_host_def chip_msg_def Let_def case_prod_unfold)
qed

end
