(* ===== verification/Ef_Shadow.thy ===== *)
theory Ef_Shadow
  imports Ef_Chip
begin

text \<open>
  What the rest of the driver uses of the one-time memory (\<open>core/efuse/rtw_efuse.c\<close>): raw
  access, reading a part of the map, the masks that hide or protect parts of it, writing a part
  of it, and the shadow copy in the HAL data. A buffer of the caller is an argument, and its contents
  afterwards a part of the result.
\<close>

section \<open>Raw access\<close>

text \<open>The loop over the bytes: the result so far, and the buffer.\<close>

fun access_walk :: "'h usb_host \<Rightarrow> bool \<Rightarrow> nat \<Rightarrow> u16 \<Rightarrow> nat \<Rightarrow> bool \<Rightarrow> bytes \<Rightarrow> ('h, bool \<times> bytes) ef" where
  "access_walk H bWrite 0 start_addr i res data = State_Monad.return (res, data)"
| "access_walk H bWrite (Suc n) start_addr i res data =
     (if start_addr \<ge> Hal_GetEfuseDefinition EFUSE_WIFI TYPE_EFUSE_REAL_CONTENT_LEN
      then State_Monad.return (False, data)
      else if bWrite
      then do {
        ok \<leftarrow> efuse_OneByteWrite H start_addr (data ! i) False;
        if ok then access_walk H bWrite n (start_addr + 1) (i + 1) True data
        else State_Monad.return (False, data) }
      else do {
        (ok, v) \<leftarrow> efuse_OneByteRead H start_addr (data ! i) False;
        if ok then access_walk H bWrite n (start_addr + 1) (i + 1) True (data[i := v])
        else State_Monad.return (False, data[i := v]) })"

definition rtw_efuse_access :: "'h usb_host \<Rightarrow> bool \<Rightarrow> u16 \<Rightarrow> u16 \<Rightarrow> bytes \<Rightarrow> ('h, bool \<times> bytes) ef" where
  "rtw_efuse_access H bWrite start_addr cnts data =
     (if start_addr > Hal_GetEfuseDefinition EFUSE_WIFI TYPE_EFUSE_REAL_CONTENT_LEN then State_Monad.return (False, data)
      else if bWrite \<and> unat start_addr + unat cnts > unat (Hal_GetEfuseDefinition EFUSE_WIFI TYPE_AVAILABLE_EFUSE_BYTES_TOTAL)
      then State_Monad.return (False, data)
      else do {
        _ \<leftarrow> Efuse_PowerSwitch H bWrite True;
        r \<leftarrow> access_walk H bWrite (unat cnts) start_addr 0 False data;
        _ \<leftarrow> Efuse_PowerSwitch H bWrite False;
        State_Monad.return r })"

section \<open>Sizes\<close>

definition efuse_GetMaxSize :: u16 where
  "efuse_GetMaxSize = Hal_GetEfuseDefinition EFUSE_WIFI TYPE_AVAILABLE_EFUSE_BYTES_TOTAL"

definition efuse_bt_GetMaxSize :: u16 where
  "efuse_bt_GetMaxSize = Hal_GetEfuseDefinition EFUSE_BT TYPE_AVAILABLE_EFUSE_BYTES_TOTAL"

definition efuse_GetCurrentSize :: "'h usb_host \<Rightarrow> ('h, u16) ef" where
  "efuse_GetCurrentSize H = do {
     _ \<leftarrow> Efuse_PowerSwitch H False True;
     size \<leftarrow> Hal_EfuseGetCurrentSize H EFUSE_WIFI False;
     _ \<leftarrow> Efuse_PowerSwitch H False False;
     State_Monad.return size }"

definition efuse_bt_GetCurrentSize :: "'h usb_host \<Rightarrow> ('h, u16) ef" where
  "efuse_bt_GetCurrentSize H = do {
     _ \<leftarrow> Efuse_PowerSwitch H False True;
     size \<leftarrow> Hal_EfuseGetCurrentSize H EFUSE_BT False;
     _ \<leftarrow> Efuse_PowerSwitch H False False;
     State_Monad.return size }"

section \<open>The map\<close>

text \<open>
  \<open>malloc_ok\<close> says whether the table of the reading routine can be allocated. When it cannot, the
  buffer is left alone and the result still says success.
\<close>

definition read_back :: "bytes option \<Rightarrow> nat \<Rightarrow> bytes \<Rightarrow> bytes" where
  "read_back r n data = (case r of Some d \<Rightarrow> d @ drop n data | None \<Rightarrow> data)"

definition rtw_efuse_map_read :: "'h usb_host \<Rightarrow> bool \<Rightarrow> u16 \<Rightarrow> u16 \<Rightarrow> bytes \<Rightarrow> ('h, bool \<times> bytes) ef" where
  "rtw_efuse_map_read H malloc_ok addr cnts data =
     (if unat addr + unat cnts > unat (Hal_GetEfuseDefinition EFUSE_WIFI TYPE_EFUSE_MAP_LEN)
      then State_Monad.return (False, data)
      else do {
        _ \<leftarrow> Efuse_PowerSwitch H False True;
        r \<leftarrow> Hal_ReadEFuse H malloc_ok EFUSE_WIFI addr cnts False;
        _ \<leftarrow> Efuse_PowerSwitch H False False;
        State_Monad.return (True, read_back r (unat cnts) data) })"

definition rtw_BT_efuse_map_read :: "'h usb_host \<Rightarrow> bool \<Rightarrow> u16 \<Rightarrow> u16 \<Rightarrow> bytes \<Rightarrow> ('h, bool \<times> bytes) ef" where
  "rtw_BT_efuse_map_read H malloc_ok addr cnts data =
     (if unat addr + unat cnts > unat (Hal_GetEfuseDefinition EFUSE_BT TYPE_EFUSE_MAP_LEN)
      then State_Monad.return (False, data)
      else do {
        _ \<leftarrow> Efuse_PowerSwitch H False True;
        r \<leftarrow> Hal_ReadEFuse H malloc_ok EFUSE_BT addr cnts False;
        _ \<leftarrow> Efuse_PowerSwitch H False False;
        State_Monad.return (True, read_back r (unat cnts) data) })"

section \<open>Masks\<close>

definition Array_MP_8188F_MUSB :: bytes where
  "Array_MP_8188F_MUSB =
     [0xFF, 0xF3, 0x00, 0x00, 0x00, 0x00, 0x00, 0x00, 0x00, 0x00, 0x00, 0x0F, 0xF1, 0xFF, 0xFF, 0xFF,
      0xFF, 0x70, 0x00, 0x12, 0x00, 0x00, 0x00, 0x00, 0x00, 0x00, 0x00, 0x00, 0x00, 0x00, 0x00, 0x00]"

text \<open>One byte of a mask for 16 bytes of the map: the upper nibble for the first four words.\<close>

definition mask_lookup :: "bytes \<Rightarrow> u16 \<Rightarrow> bool" where
  "mask_lookup tbl Offset =
     (let r = unat Offset div 16; c = unat Offset mod 16 div 2;
          result = (if c < 4 then tbl ! r AND push_bit c 0x10 else tbl ! r AND push_bit (c - 4) 0x01)
      in result = 0)"

definition EFUSE_IsAddressMasked_MP_8188F_MUSB :: "u16 \<Rightarrow> bool" where
  "EFUSE_IsAddressMasked_MP_8188F_MUSB Offset = mask_lookup Array_MP_8188F_MUSB Offset"

definition rtw_file_efuse_IsMasked :: "'h ef_sys \<Rightarrow> u16 \<Rightarrow> bool" where
  "rtw_file_efuse_IsMasked s Offset = (if boffefusemask s then False else mask_lookup (maskfileBuffer s) Offset)"

definition efuse_IsMasked :: "'h ef_sys \<Rightarrow> u16 \<Rightarrow> bool" where
  "efuse_IsMasked s Offset = (if boffefusemask s then False else EFUSE_IsAddressMasked_MP_8188F_MUSB Offset)"

text \<open>The mask that \<open>bFileMaskEfuse\<close> chooses, applied to the bytes from \<open>addr\<close> on.\<close>

definition map_masked :: "'h ef_sys \<Rightarrow> u16 \<Rightarrow> bool" where
  "map_masked s Offset = (if bFileMaskEfuse s then rtw_file_efuse_IsMasked s Offset else efuse_IsMasked s Offset)"

definition mask_data :: "'h ef_sys \<Rightarrow> u16 \<Rightarrow> nat \<Rightarrow> (nat \<Rightarrow> u8) \<Rightarrow> bytes \<Rightarrow> bytes" where
  "mask_data s addr cnts hidden data =
     (if boffefusemask s then data
      else fold (\<lambda>i data. if map_masked s (addr + of_nat i) then data[i := hidden i] else data) [0..<cnts] data)"

definition rtw_efuse_mask_map_read :: "'h usb_host \<Rightarrow> bool \<Rightarrow> u16 \<Rightarrow> u16 \<Rightarrow> bytes \<Rightarrow> ('h, bool \<times> bytes) ef" where
  "rtw_efuse_mask_map_read H malloc_ok addr cnts data = do {
     (ret, data) \<leftarrow> rtw_efuse_map_read H malloc_ok addr cnts data;
     data \<leftarrow> get_ef (\<lambda>s. mask_data s addr (unat cnts) (\<lambda>_. 0xff) data);
     State_Monad.return (ret, data) }"

section \<open>Writing the map\<close>

text \<open>
  The words of one section that differ: from byte \<open>i\<close> of the section and byte \<open>idx\<close> of the data
  on, the mask of the words to write and the eight bytes with the changes.
\<close>

function section_diff :: "u16 \<Rightarrow> nat \<Rightarrow> bytes \<Rightarrow> bytes \<Rightarrow> nat \<Rightarrow> nat \<Rightarrow> u8 \<Rightarrow> bytes \<Rightarrow> nat \<times> u8 \<times> bytes" where
  "section_diff addr cnts data m i idx word_en newdata =
     (if i < PGPKT_DATA_SIZE \<and> idx < cnts
      then (if data ! idx \<noteq> m ! (unat addr + idx)
            then section_diff addr cnts data m (i + 1) (idx + 1) (word_en AND NOT (push_bit (i div 2) 1)) (newdata[i := data ! idx])
            else section_diff addr cnts data m (i + 1) (idx + 1) word_en newdata)
      else (idx, word_en, newdata))"
  by pat_completeness auto
termination
  by (relation "measure (\<lambda>(addr, cnts, data, map, i, idx, en, nd). cnts - idx)") auto

declare section_diff.simps [simp del]

text \<open>The next section, whose number is \<open>offset\<close>: where its data ends, the mask and the eight bytes.\<close>

definition next_section :: "u16 \<Rightarrow> nat \<Rightarrow> bytes \<Rightarrow> bytes \<Rightarrow> nat \<Rightarrow> u8 \<Rightarrow> nat \<times> u8 \<times> bytes" where
  "next_section addr cnts data m idx offset =
     section_diff addr cnts data m ((unat addr + idx) mod 8) idx 0x0F
       (take PGPKT_DATA_SIZE (drop (8 * unat offset) m))"

lemma section_diff_idx: "idx \<le> fst (section_diff addr cnts data m i idx en nd)"
proof (induction addr cnts data m i idx en nd rule: section_diff.induct)
  case (1 addr cnts data m i idx en nd)
  show ?case
    unfolding section_diff.simps [of addr cnts data m i idx en nd]
    using 1 by (auto intro: Suc_leD)
qed

lemma next_section_less:
  assumes "(idx', en, nd) = next_section addr cnts data m idx offset" and "idx < cnts"
  shows "cnts - idx' < cnts - idx"
proof -
  let ?i = "(unat addr + idx) mod 8" and ?nd = "take PGPKT_DATA_SIZE (drop (8 * unat offset) m)"
  have "Suc idx \<le> fst (section_diff addr cnts data m ?i idx 0x0F ?nd)"
    unfolding section_diff.simps [of addr cnts data m ?i idx "0x0F" ?nd]
    using assms(2) section_diff_idx [of "Suc idx"] by (auto simp: PGPKT_DATA_SIZE_def)
  then have "idx < idx'" using arg_cong [OF assms(1), of fst] by (simp add: next_section_def)
  then show ?thesis using assms(2) by simp
qed

text \<open>The bytes the packets for the data need.\<close>

function chk_total_byte :: "u16 \<Rightarrow> nat \<Rightarrow> bytes \<Rightarrow> bytes \<Rightarrow> nat \<Rightarrow> u8 \<Rightarrow> nat \<Rightarrow> nat" where
  "chk_total_byte addr cnts data m idx offset acc =
     (if idx < cnts
      then (case next_section addr cnts data m idx offset of
              (idx', word_en, _) \<Rightarrow>
                chk_total_byte addr cnts data m idx' (offset + 1)
                  (if word_en \<noteq> 0x0F
                   then acc + unat (Efuse_CalculateWordCnts word_en) * 2 + (if offset \<ge> EFUSE_MAX_SECTION_BASE then 2 else 1)
                   else acc))
      else acc)"
  by pat_completeness auto
termination
  by (relation "measure (\<lambda>(addr, cnts, data, map, idx, offset, acc). cnts - idx)")
    (auto dest: next_section_less)

declare chk_total_byte.simps [simp del]

text \<open>
  The packets are written by \<open>W\<close>, which may not return (\<open>None\<close>). The first that fails ends the
  loop; \<open>ret\<close> is the result of the last one.
\<close>

function map_write_walk :: "(u8 \<Rightarrow> u8 \<Rightarrow> bytes \<Rightarrow> 's \<Rightarrow> (bool \<times> 's) option) \<Rightarrow> u16 \<Rightarrow> nat \<Rightarrow> bytes \<Rightarrow> bytes \<Rightarrow>
    nat \<Rightarrow> u8 \<Rightarrow> bool \<Rightarrow> 's \<Rightarrow> (bool \<times> 's) option" where
  "map_write_walk W addr cnts data m idx offset ret s =
     (if idx < cnts
      then (case next_section addr cnts data m idx offset of
              (idx', word_en, newdata) \<Rightarrow>
                if word_en \<noteq> 0x0F
                then (case W offset word_en newdata s of
                        None \<Rightarrow> None
                      | Some (ok, s') \<Rightarrow>
                          if ok then map_write_walk W addr cnts data m idx' (offset + 1) ok s' else Some (ok, s'))
                else map_write_walk W addr cnts data m idx' (offset + 1) ret s)
      else Some (ret, s))"
  by pat_completeness auto
termination
  by (relation "measure (\<lambda>(W, addr, cnts, data, m, idx, offset, ret, s). cnts - idx)")
    (auto dest: next_section_less)

declare map_write_walk.simps [simp del]

text \<open>\<open>HW_VAR_EFUSE_BYTES\<close>, or the search for the end when it is zero.\<close>

definition write_start :: "'h usb_host \<Rightarrow> ('h, u16) ef" where
  "write_start H = do {
     startAddr \<leftarrow> get_ef EfuseUsedBytes;
     if startAddr = 0 then Hal_EfuseGetCurrentSize H EFUSE_WIFI False else State_Monad.return startAddr }"

text \<open>The result, the data after the mask, and the state; \<open>map_ok\<close> is the allocation of the map.\<close>

definition rtw_efuse_map_write ::
    "'h usb_host \<Rightarrow> bool \<Rightarrow> bool \<Rightarrow> u16 \<Rightarrow> u16 \<Rightarrow> bytes \<Rightarrow> 'h ef_sys \<Rightarrow> (bool \<times> bytes \<times> 'h ef_sys) option" where
  "rtw_efuse_map_write H map_ok malloc_ok addr cnts data s =
     (let mapLen = Hal_GetEfuseDefinition EFUSE_WIFI TYPE_EFUSE_MAP_LEN;
          efuse_max_available_len = Hal_GetEfuseDefinition EFUSE_WIFI TYPE_AVAILABLE_EFUSE_BYTES_TOTAL
      in if unat addr + unat cnts > unat mapLen then Some (False, data, s)
         else if \<not> map_ok then Some (False, data, s)
         else case run_state (rtw_efuse_map_read H malloc_ok 0 mapLen (replicate (unat mapLen) 0xFF)) s of
           ((ret, m), s) \<Rightarrow>
             if \<not> ret then Some (False, data, s)
             else
               let data = mask_data s addr (unat cnts) (\<lambda>i. m ! (unat addr + i)) data;
                   offset = ucast (drop_bit 3 addr)
               in case run_state (write_start H) s of
                 (startAddr, s) \<Rightarrow>
                   if unat startAddr + chk_total_byte addr (unat cnts) data m 0 offset 0 \<ge> unat efuse_max_available_len
                   then Some (False, data, s)
                   else map_option (\<lambda>(ret, s). (ret, data, s))
                     (map_write_walk (\<lambda>offset word_en newdata. Hal_EfusePgPacketWrite H offset word_en newdata False)
                        addr (unat cnts) data m 0 offset True s))"

text \<open>The map of the Bluetooth part. Its buffer is zero where the reading routine leaves it alone.\<close>

definition rtw_BT_efuse_map_write ::
    "'h usb_host \<Rightarrow> bool \<Rightarrow> bool \<Rightarrow> u16 \<Rightarrow> u16 \<Rightarrow> bytes \<Rightarrow> 'h ef_sys \<Rightarrow> (bool \<times> 'h ef_sys) option" where
  "rtw_BT_efuse_map_write H map_ok malloc_ok addr cnts data s =
     (let mapLen = Hal_GetEfuseDefinition EFUSE_BT TYPE_EFUSE_MAP_LEN
      in if unat addr + unat cnts > unat mapLen then Some (False, s)
         else if \<not> map_ok then Some (False, s)
         else case run_state (rtw_BT_efuse_map_read H malloc_ok 0 mapLen (replicate (unat mapLen) 0)) s of
           ((ret, m), s) \<Rightarrow>
             if \<not> ret then Some (False, s)
             else case run_state (Efuse_PowerSwitch H True True) s of
               (_, s) \<Rightarrow>
                 (case map_write_walk (\<lambda>offset word_en newdata. Hal_EfusePgPacketWrite_BT H offset word_en newdata False)
                         addr (unat cnts) data m 0 (ucast (drop_bit 3 addr)) True s of
                    None \<Rightarrow> None
                  | Some (ret, s) \<Rightarrow> Some (ret, snd (run_state (Efuse_PowerSwitch H True False) s))))"

section \<open>The shadow copy\<close>

definition Efuse_ReadAllMap :: "'h usb_host \<Rightarrow> bool \<Rightarrow> u8 \<Rightarrow> bytes \<Rightarrow> bool \<Rightarrow> ('h, bytes) ef" where
  "Efuse_ReadAllMap H malloc_ok efuseType Efuse bPseudoTest = do {
     _ \<leftarrow> Efuse_PowerSwitch H False True;
     let mapLen = Hal_GetEfuseDefinition efuseType TYPE_EFUSE_MAP_LEN;
     r \<leftarrow> Hal_ReadEFuse H malloc_ok efuseType 0 mapLen bPseudoTest;
     _ \<leftarrow> Efuse_PowerSwitch H False False;
     State_Monad.return (read_back r (unat mapLen) Efuse) }"

definition EFUSE_ShadowMapUpdate :: "'h usb_host \<Rightarrow> bool \<Rightarrow> u8 \<Rightarrow> bool \<Rightarrow> ('h, unit) ef" where
  "EFUSE_ShadowMapUpdate H malloc_ok efuseType bPseudoTest = do {
     let mapLen = unat (Hal_GetEfuseDefinition efuseType TYPE_EFUSE_MAP_LEN);
     failed \<leftarrow> get_ef bautoload_fail_flag;
     if failed
     then upd_ef (\<lambda>s. s\<lparr>efuse_eeprom_data := replicate mapLen 0xFF @ drop mapLen (efuse_eeprom_data s)\<rparr>)
     else do {
       old \<leftarrow> get_ef efuse_eeprom_data;
       new \<leftarrow> Efuse_ReadAllMap H malloc_ok efuseType old bPseudoTest;
       upd_ef (\<lambda>s. s\<lparr>efuse_eeprom_data := new\<rparr>) } }"

text \<open>Reads and writes of 1, 2 or 4 bytes. A read sets the low bytes of the value only.\<close>

definition efuse_ShadowRead1Byte :: "'h ef_sys \<Rightarrow> u16 \<Rightarrow> u8" where
  "efuse_ShadowRead1Byte s Offset = efuse_eeprom_data s ! unat Offset"

definition efuse_ShadowRead2Byte :: "'h ef_sys \<Rightarrow> u16 \<Rightarrow> u16" where
  "efuse_ShadowRead2Byte s Offset =
     ucast (efuse_eeprom_data s ! unat Offset) OR push_bit 8 (ucast (efuse_eeprom_data s ! (unat Offset + 1)))"

definition efuse_ShadowRead4Byte :: "'h ef_sys \<Rightarrow> u16 \<Rightarrow> u32" where
  "efuse_ShadowRead4Byte s Offset =
     ucast (efuse_eeprom_data s ! unat Offset) OR push_bit 8 (ucast (efuse_eeprom_data s ! (unat Offset + 1))) OR
     push_bit 16 (ucast (efuse_eeprom_data s ! (unat Offset + 2))) OR push_bit 24 (ucast (efuse_eeprom_data s ! (unat Offset + 3)))"

definition EFUSE_ShadowRead :: "u8 \<Rightarrow> u16 \<Rightarrow> u32 \<Rightarrow> ('h, u32) ef" where
  "EFUSE_ShadowRead Type Offset Value = get_ef (\<lambda>s.
     if Type = 1 then (Value AND NOT 0xFF) OR ucast (efuse_ShadowRead1Byte s Offset)
     else if Type = 2 then (Value AND NOT 0xFFFF) OR ucast (efuse_ShadowRead2Byte s Offset)
     else if Type = 4 then efuse_ShadowRead4Byte s Offset
     else Value)"

definition efuse_ShadowWrite1Byte :: "u16 \<Rightarrow> u8 \<Rightarrow> bytes \<Rightarrow> bytes" where
  "efuse_ShadowWrite1Byte Offset Value d = d[unat Offset := Value]"

definition efuse_ShadowWrite2Byte :: "u16 \<Rightarrow> u16 \<Rightarrow> bytes \<Rightarrow> bytes" where
  "efuse_ShadowWrite2Byte Offset Value d = d[unat Offset := ucast Value, unat Offset + 1 := ucast (drop_bit 8 Value)]"

definition efuse_ShadowWrite4Byte :: "u16 \<Rightarrow> u32 \<Rightarrow> bytes \<Rightarrow> bytes" where
  "efuse_ShadowWrite4Byte Offset Value d =
     d[unat Offset := ucast Value, unat Offset + 1 := ucast (drop_bit 8 Value),
       unat Offset + 2 := ucast (drop_bit 16 Value), unat Offset + 3 := ucast (drop_bit 24 Value)]"

definition EFUSE_ShadowWrite :: "u8 \<Rightarrow> u16 \<Rightarrow> u32 \<Rightarrow> ('h, unit) ef" where
  "EFUSE_ShadowWrite Type Offset Value = upd_ef (\<lambda>s.
     if \<not> mp_mode s then s
     else s\<lparr>efuse_eeprom_data :=
       (if Type = 1 then efuse_ShadowWrite1Byte Offset (ucast Value) (efuse_eeprom_data s)
        else if Type = 2 then efuse_ShadowWrite2Byte Offset (ucast Value) (efuse_eeprom_data s)
        else if Type = 4 then efuse_ShadowWrite4Byte Offset Value (efuse_eeprom_data s)
        else efuse_eeprom_data s)\<rparr>)"

end
