(* ===== verification/Ef_Update.thy ===== *)
theory Ef_Update
  imports Ef_Shadow
begin

text \<open>
  What \<open>rtw_efuse_map_write\<close> does to the map. The packets it writes are \<open>section_packets\<close>; on a
  memory with a log and room for them the map is then the old one with the data put over it, and
  without room nothing is written. Reading the range back gives the data.
\<close>

section \<open>The difference of a section\<close>

definition differs :: "u16 \<Rightarrow> bytes \<Rightarrow> bytes \<Rightarrow> nat \<Rightarrow> bool" where
  "differs addr data m idx \<longleftrightarrow> data ! idx \<noteq> m ! (unat addr + idx)"

lemma section_diff_fst: "i \<le> 8 \<Longrightarrow> idx \<le> cnts \<Longrightarrow> fst (section_diff addr cnts data m i idx en nd) = idx + min (8 - i) (cnts - idx)"
proof (induction addr cnts data m i idx en nd rule: section_diff.induct)
  case (1 addr cnts data m i idx en nd)
  show ?case
    unfolding section_diff.simps [of addr cnts data m i idx en nd]
    using 1 by (auto simp: PGPKT_DATA_SIZE_def min_def)
qed

lemma section_diff_en:
  "bit (fst (snd (section_diff addr cnts data m i idx en nd))) b \<longleftrightarrow>
     bit en b \<and> (\<forall>k. i + k < 8 \<longrightarrow> idx + k < cnts \<longrightarrow> (i + k) div 2 = b \<longrightarrow> \<not> differs addr data m (idx + k))"
proof (induction addr cnts data m i idx en nd rule: section_diff.induct)
  case (1 addr cnts data m i idx en nd)
  show ?case
  proof (cases "i < 8 \<and> idx < cnts")
    case False
    then show ?thesis
      unfolding section_diff.simps [of addr cnts data m i idx en nd] by (auto simp: PGPKT_DATA_SIZE_def)
  next
    case True
    have split: "(\<forall>k. i + k < 8 \<longrightarrow> idx + k < cnts \<longrightarrow> (i + k) div 2 = b \<longrightarrow> \<not> differs addr data m (idx + k)) \<longleftrightarrow>
        (i div 2 = b \<longrightarrow> \<not> differs addr data m idx) \<and>
        (\<forall>k. Suc i + k < 8 \<longrightarrow> Suc idx + k < cnts \<longrightarrow> (Suc i + k) div 2 = b \<longrightarrow> \<not> differs addr data m (Suc idx + k))"
      (is "?L \<longleftrightarrow> ?H \<and> ?T")
    proof
      assume L: ?L
      have ?H using spec [OF L, of 0] True by simp
      moreover have ?T using L by (metis add_Suc add_Suc_right)
      ultimately show "?H \<and> ?T" by simp
    next
      assume R: "?H \<and> ?T"
      show ?L
      proof (intro allI impI, goal_cases)
        case (1 k)
        then show ?case using R by (cases k) auto
      qed
    qed
    have low: "i div 2 < 8" using True by (auto intro: le_less_trans [OF div_le_dividend])
    have "bit en b \<Longrightarrow> b < 8" using high_bits [of b en] by (auto simp: not_less [symmetric])
    then show ?thesis
      unfolding section_diff.simps [of addr cnts data m i idx en nd]
      using 1 True low unfolding split
      by (auto simp: PGPKT_DATA_SIZE_def differs_def bit_simps)
  qed
qed

lemma section_diff_length: "length (snd (snd (section_diff addr cnts data m i idx en nd))) = length nd"
proof (induction addr cnts data m i idx en nd rule: section_diff.induct)
  case (1 addr cnts data m i idx en nd)
  show ?case
    unfolding section_diff.simps [of addr cnts data m i idx en nd]
    using 1 by auto
qed

lemma section_diff_nth:
  "p < length nd \<Longrightarrow> snd (snd (section_diff addr cnts data m i idx en nd)) ! p =
     (if i \<le> p \<and> p < 8 \<and> idx + (p - i) < cnts \<and> differs addr data m (idx + (p - i)) then data ! (idx + (p - i)) else nd ! p)"
proof (induction addr cnts data m i idx en nd rule: section_diff.induct)
  case (1 addr cnts data m i idx en nd)
  show ?case
  proof (cases "i < 8 \<and> idx < cnts")
    case False
    then show ?thesis
      unfolding section_diff.simps [of addr cnts data m i idx en nd] by (auto simp: PGPKT_DATA_SIZE_def)
  next
    case True
    then consider "p < i" | "p = i" | "Suc i \<le> p" by linarith
    then show ?thesis
    proof cases
      case 3
      then have "idx + (p - i) = Suc idx + (p - Suc i)" by simp
      then show ?thesis
        unfolding section_diff.simps [of addr cnts data m i idx en nd]
        using 1 True 3 by (simp add: PGPKT_DATA_SIZE_def differs_def)
    qed (unfold section_diff.simps [of addr cnts data m i idx en nd],
         use 1 True in \<open>simp_all add: PGPKT_DATA_SIZE_def differs_def\<close>)
  qed
qed

text \<open>A packet over a map, byte by byte.\<close>

lemma put_word_nth:
  assumes "base + 8 \<le> length m" and "k < 4"
  shows "put_word en base d k m ! (base + j) = (if j div 2 = k \<and> \<not> bit en k then d ! j else m ! (base + j))"
    and "p < base \<Longrightarrow> put_word en base d k m ! p = m ! p"
proof -
  have "j div 2 = k \<longleftrightarrow> j = 2 * k \<or> j = 2 * k + 1" by arith
  then show "put_word en base d k m ! (base + j) = (if j div 2 = k \<and> \<not> bit en k then d ! j else m ! (base + j))"
    using assms by (auto simp: put_word_def nth_list_update)
qed (use assms in \<open>auto simp: put_word_def nth_list_update\<close>)

lemma overlay_nth:
  assumes "base + 8 \<le> length m"
  shows "overlay en base d m ! p =
     (if base \<le> p \<and> p < base + 8 \<and> \<not> bit en ((p - base) div 2) then d ! (p - base) else m ! p)"
proof (cases "base \<le> p")
  case True
  then obtain j where p: "p = base + j" by (metis le_add_diff_inverse)
  have j: "j < 8 \<longleftrightarrow> j div 2 = 0 \<or> j div 2 = 1 \<or> j div 2 = 2 \<or> j div 2 = 3" by arith
  show ?thesis
    unfolding p overlay_def upt4 using assms j
    by (simp add: put_word_nth(1) del: put_word_simps) auto
next
  case False
  then show ?thesis
    using assms by (simp add: overlay_def upt4 put_word_nth(2) del: put_word_simps)
qed

section \<open>The packets\<close>

function section_packets :: "u16 \<Rightarrow> nat \<Rightarrow> bytes \<Rightarrow> bytes \<Rightarrow> nat \<Rightarrow> u8 \<Rightarrow> packet list" where
  "section_packets addr cnts data m idx offset =
     (if idx < cnts
      then (case next_section addr cnts data m idx offset of
              (idx', word_en, newdata) \<Rightarrow>
                (if word_en \<noteq> 0x0F then [Packet offset word_en newdata] else []) @
                section_packets addr cnts data m idx' (offset + 1))
      else [])"
  by pat_completeness auto
termination
  by (relation "measure (\<lambda>(addr, cnts, data, m, idx, offset). cnts - idx)")
    (auto dest: next_section_less)

declare section_packets.simps [simp del]

lemma chk_total_byte_packets:
  "chk_total_byte addr cnts data m idx offset acc = acc + length (log_bytes (section_packets addr cnts data m idx offset))"
proof (induction addr cnts data m idx offset acc rule: chk_total_byte.induct)
  case (1 addr cnts data m idx offset acc)
  show ?case
  proof (cases "idx < cnts")
    case False
    then show ?thesis
      by (simp add: chk_total_byte.simps [of addr cnts data m idx offset acc] section_packets.simps [of addr cnts data m idx offset])
  next
    case True
    obtain idx' en nd where n: "next_section addr cnts data m idx offset = (idx', en, nd)" by (cases "next_section addr cnts data m idx offset")
    have w: "unat (word_bytes en) = unat (Efuse_CalculateWordCnts en) * 2"
      by (simp add: word_bytes_def Efuse_CalculateWordCnts_def)
    show ?thesis
      unfolding chk_total_byte.simps [of addr cnts data m idx offset acc] section_packets.simps [of addr cnts data m idx offset]
      using 1 [OF True n [symmetric]] True
      by (simp add: n length_pkt w unat_hdr_len EFUSE_MAX_SECTION_BASE_def)
  qed
qed

section \<open>What they do to the map\<close>

text \<open>The map with the first \<open>idx\<close> bytes of the data put over it.\<close>

definition updated :: "u16 \<Rightarrow> bytes \<Rightarrow> bytes \<Rightarrow> nat \<Rightarrow> bytes" where
  "updated addr data m idx = put_over m (unat addr) (take idx data)"

lemma updated_nth:
  assumes "unat addr + idx \<le> length m" and "idx \<le> length data"
  shows "updated addr data m idx ! p =
     (if unat addr \<le> p \<and> p < unat addr + idx then data ! (p - unat addr) else m ! p)"
  using assms put_over_at [of "p - unat addr" "take idx data" "unat addr" m]
    put_over_other [of p "unat addr" "take idx data" m]
  by (auto simp: updated_def)

lemma length_updated: "unat addr + idx \<le> length m \<Longrightarrow> idx \<le> length data \<Longrightarrow> length (updated addr data m idx) = length m"
  by (simp add: updated_def)

text \<open>The place of the loop: byte \<open>idx\<close> of the data is in section \<open>offset\<close>, at its start but for the first.\<close>

definition section_pos :: "u16 \<Rightarrow> nat \<Rightarrow> bytes \<Rightarrow> bytes \<Rightarrow> nat \<Rightarrow> u8 \<Rightarrow> bool" where
  "section_pos addr cnts data m idx offset \<longleftrightarrow> unat addr + cnts \<le> 512 \<and> length m = 512 \<and> length data = cnts \<and> idx < cnts \<and>
     unat offset = (unat addr + idx) div 8 \<and> (idx = 0 \<or> (unat addr + idx) mod 8 = 0)"

lemma section_out:
  assumes pos: "section_pos addr cnts data m idx offset" and n: "next_section addr cnts data m idx offset = (idx', en, nd)"
  defines "i \<equiv> (unat addr + idx) mod 8"
  shows "idx' = idx + min (8 - i) (cnts - idx)" and "length nd = 8"
    and "bit en w \<longleftrightarrow> w < 4 \<and> (\<forall>k. i + k < 8 \<longrightarrow> idx + k < cnts \<longrightarrow> (i + k) div 2 = w \<longrightarrow> \<not> differs addr data m (idx + k))"
    and "q < 8 \<Longrightarrow> nd ! q = (if i \<le> q \<and> idx + (q - i) < cnts \<and> differs addr data m (idx + (q - i))
           then data ! (idx + (q - i)) else m ! (8 * unat offset + q))"
proof -
  let ?nd = "take PGPKT_DATA_SIZE (drop (8 * unat offset) m)"
  have "unat addr + cnts \<le> 512" "unat offset = (unat addr + idx) div 8" and size: "length m = 512" "idx < cnts"
    using pos by (simp_all add: section_pos_def)
  then have off: "unat offset < 64" by linarith
  note diff = n [unfolded next_section_def, folded i_def]
  have i: "i \<le> 8" "idx \<le> cnts" using size(2) by (simp_all add: i_def)
  have len: "length ?nd = 8" using size off by (simp add: PGPKT_DATA_SIZE_def)
  show "idx' = idx + min (8 - i) (cnts - idx)"
    using section_diff_fst [OF i, of addr data m "0x0F" ?nd] by (simp only: diff fst_conv)
  show nd8: "length nd = 8"
    using section_diff_length [of addr cnts data m i idx "0x0F" ?nd] by (simp only: diff snd_conv len)
  have "bit (0x0F :: u8) w \<longleftrightarrow> w < 4" by (auto simp: header_masks bit_simps)
  then show "bit en w \<longleftrightarrow> w < 4 \<and> (\<forall>k. i + k < 8 \<longrightarrow> idx + k < cnts \<longrightarrow> (i + k) div 2 = w \<longrightarrow> \<not> differs addr data m (idx + k))"
    using section_diff_en [of addr cnts data m i idx "0x0F" ?nd w] by (simp only: diff fst_conv snd_conv)
  show "nd ! q = (if i \<le> q \<and> idx + (q - i) < cnts \<and> differs addr data m (idx + (q - i))
      then data ! (idx + (q - i)) else m ! (8 * unat offset + q))" if "q < 8"
  proof -
    have "?nd ! q = m ! (8 * unat offset + q)" using that size off by (simp add: PGPKT_DATA_SIZE_def)
    then show ?thesis
      using section_diff_nth [of q ?nd addr cnts data m i idx "0x0F"] that by (simp only: diff snd_conv len simp_thms)
  qed
qed

lemma section_step:
  assumes pos: "section_pos addr cnts data m idx offset" and n: "next_section addr cnts data m idx offset = (idx', en, nd)"
  shows "idx < idx'" "idx' \<le> cnts" "en \<noteq> 0x0F \<Longrightarrow> pkt_ok (Packet offset en nd)" "offset < 64"
    and "idx' < cnts \<Longrightarrow> section_pos addr cnts data m idx' (offset + 1)"
proof -
  let ?a = "unat addr" and ?i = "(unat addr + idx) mod 8"
  have size: "?a + cnts \<le> 512" "length m = 512" "length data = cnts" "idx < cnts" "unat offset = (?a + idx) div 8"
    using pos by (simp_all add: section_pos_def)
  note out = section_out [OF pos n]
  have off: "unat offset < 64" using size by linarith
  then show "offset < 64" by (simp add: word_less_nat_alt)
  have "?i < 8" by simp
  then show "idx < idx'" "idx' \<le> cnts" using size(4) out(1) by linarith+
  have en4: "en = take_bit 4 en" by (rule bit_word_eqI) (simp add: bit_take_bit_iff out(3))
  show "pkt_ok (Packet offset en nd)" if "en \<noteq> 0x0F"
  proof -
    have "unat en < 2 ^ 4" by (subst en4) (simp only: unsigned_take_bit_eq take_bit_nat_less_exp)
    moreover have "unat en \<noteq> 15" using that by (simp add: word_unat_eq_iff)
    ultimately show ?thesis using off out(2) by (simp add: pkt_ok_def word_less_nat_alt)
  qed
  show "section_pos addr cnts data m idx' (offset + 1)" if "idx' < cnts"
  proof -
    have "?a + idx = 8 * unat offset + ?i" using size(5) by simp
    moreover have "idx' = idx + (8 - ?i)" using out(1) that by (simp add: min_def split: if_splits)
    moreover have "a + idx = 8 * q + j \<Longrightarrow> y = idx + (8 - j) \<Longrightarrow> j < 8 \<Longrightarrow> a + y = 8 * (q + 1)" for a q j y :: nat
      by presburger
    ultimately have "?a + idx' = 8 * (unat offset + 1)" using \<open>?i < 8\<close> by blast
    moreover have "unat (offset + 1) = unat offset + 1" using off by (simp add: unat_word_ariths)
    ultimately show ?thesis using size that by (simp add: section_pos_def)
  qed
qed

lemma section_overlay:
  assumes pos: "section_pos addr cnts data m idx offset" and n: "next_section addr cnts data m idx offset = (idx', en, nd)"
  shows "overlay en (unat offset * 8) nd (updated addr data m idx) = updated addr data m idx'"
proof (rule nth_equalityI, goal_cases)
  let ?a = "unat addr" and ?b = "unat offset * 8" and ?i = "(unat addr + idx) mod 8"
  have size: "?a + cnts \<le> 512" "length m = 512" "length data = cnts" "idx < cnts" "unat offset = (?a + idx) div 8"
    and first: "idx = 0 \<or> ?i = 0"
    using pos by (simp_all add: section_pos_def)
  note out = section_out [OF pos n] and step = section_step [OF pos n]
  have b: "?a + idx = ?b + ?i" "?b + 8 \<le> 512" using size by simp_all
  have old: "updated addr data m idx ! p = (if ?a \<le> p \<and> p < ?a + idx then data ! (p - ?a) else m ! p)" for p
    by (rule updated_nth) (use size in simp_all)
  have new: "updated addr data m idx' ! p = (if ?a \<le> p \<and> p < ?a + idx' then data ! (p - ?a) else m ! p)" for p
    by (rule updated_nth) (use size step(2) in simp_all)
  case 1
  show ?case using size step(1,2) by (simp add: length_updated)
  case (2 p)
  have over: "overlay en ?b nd (updated addr data m idx) ! p =
      (if ?b \<le> p \<and> p < ?b + 8 \<and> \<not> bit en ((p - ?b) div 2) then nd ! (p - ?b) else updated addr data m idx ! p)"
    by (rule overlay_nth) (use size b step(1,2) in \<open>simp add: length_updated\<close>)
  show ?case
  proof (cases "?b + ?i \<le> p \<and> p < ?b + 8 \<and> p < ?a + cnts")
    case True
    define k where "k = p - (?a + idx)"
    have p: "p = ?a + idx + k" "p - ?b = ?i + k" "?i + k < 8" "idx + k < cnts" "p - ?a = idx + k"
      unfolding k_def using True b(1) by linarith+
    have "p < ?a + idx'" using p out(1) by linarith
    then have new_p: "updated addr data m idx' ! p = data ! (idx + k)" by (simp add: new p(5)) (simp add: p(1))
    have m: "m ! (8 * unat offset + (?i + k)) = m ! p" "m ! (?a + (idx + k)) = m ! p"
    proof -
      have "8 * unat offset + (?i + k) = p" "?a + (idx + k) = p" using p(1) b(1) by linarith+
      then show "m ! (8 * unat offset + (?i + k)) = m ! p" "m ! (?a + (idx + k)) = m ! p" by simp_all
    qed
    show ?thesis
    proof (cases "bit en ((?i + k) div 2)")
      case True
      then have "\<not> differs addr data m (idx + k)" using out(3) p by blast
      moreover have "updated addr data m idx ! p = m ! p" unfolding old using p(1) by simp
      ultimately show ?thesis using True m(2) by (simp add: over p(2) new_p differs_def)
    next
      case False
      have "nd ! (?i + k) = data ! (idx + k)"
        using out(4) [of "?i + k"] p m by (simp add: differs_def)
      then show ?thesis using False True p(2) by (simp add: over new_p)
    qed
  next
    case False
    have "nd ! (p - ?b) = m ! p" if "?b \<le> p" "p < ?b + 8"
      using out(4) [of "p - ?b"] that False b by (auto simp: mult.commute)
    moreover have "updated addr data m idx ! p = updated addr data m idx' ! p"
      unfolding old new using False first b step(1,2) out(1) by (auto simp: min_def split: if_splits)
    moreover have "updated addr data m idx' ! p = m ! p" if "?b \<le> p" "p < ?b + 8"
      unfolding new using False first b step(2) that by auto
    ultimately show ?thesis by (simp add: over)
  qed
qed

lemma section_packets_end: "\<not> idx < cnts \<Longrightarrow> section_packets addr cnts data m idx offset = []"
  by (simp add: section_packets.simps)

lemma section_packets_ok: "section_pos addr cnts data m idx offset \<Longrightarrow> list_all pkt_ok (section_packets addr cnts data m idx offset)"
proof (induction addr cnts data m idx offset rule: section_packets.induct)
  case (1 addr cnts data m idx offset)
  obtain idx' en nd where n: "next_section addr cnts data m idx offset = (idx', en, nd)" by (cases "next_section addr cnts data m idx offset")
  have "idx < cnts" using 1 by (simp add: section_pos_def)
  moreover have "list_all pkt_ok (section_packets addr cnts data m idx' (offset + 1))"
    using 1(1) [OF calculation n [symmetric] refl] section_step(5) [OF 1(2) n]
    by (cases "idx' < cnts") (simp_all add: section_packets_end)
  ultimately show ?case
    unfolding section_packets.simps [of addr cnts data m idx offset]
    using section_step(3) [OF 1(2) n] by (simp add: n)
qed

lemma section_packets_map:
  assumes "section_pos addr cnts data m idx offset"
  shows "fold (pkt_apply EFUSE_MAX_SECTION_8188F) (section_packets addr cnts data m idx offset) (updated addr data m idx) =
     updated addr data m cnts"
  using assms
proof (induction addr cnts data m idx offset rule: section_packets.induct)
  case (1 addr cnts data m idx offset)
  obtain idx' en nd where n: "next_section addr cnts data m idx offset = (idx', en, nd)" by (cases "next_section addr cnts data m idx offset")
  note step = section_step [OF 1(2) n] and over = section_overlay [OF 1(2) n]
  have idx: "idx < cnts" using 1 by (simp add: section_pos_def)
  have rest: "fold (pkt_apply EFUSE_MAX_SECTION_8188F) (section_packets addr cnts data m idx' (offset + 1)) (updated addr data m idx') =
      updated addr data m cnts"
    using 1(1) [OF idx n [symmetric] refl] step(2,5)
    by (cases "idx' < cnts") (simp_all add: section_packets_end)
  have first: "fold (pkt_apply EFUSE_MAX_SECTION_8188F) (if en \<noteq> 0x0F then [Packet offset en nd] else []) (updated addr data m idx) =
      updated addr data m idx'"
  proof (cases "en = 0x0F")
    case True
    have "overlay 0x0F (unat offset * 8) nd (updated addr data m idx) = updated addr data m idx"
      by (simp add: overlay_def upt4)
    then show ?thesis using True over by simp
  next
    case False
    then show ?thesis using over step(4) by (simp add: pkt_apply_def EFUSE_MAX_SECTION_8188F_def)
  qed
  show ?case
    unfolding section_packets.simps [of addr cnts data m idx offset] using idx rest first by (simp add: n)
qed

text \<open>From the start of the data on.\<close>

definition write_packets :: "u16 \<Rightarrow> bytes \<Rightarrow> bytes \<Rightarrow> packet list" where
  "write_packets addr data m = section_packets addr (length data) data m 0 (ucast (drop_bit 3 addr))"

lemma section_pos_start:
  assumes "unat addr + length data \<le> 512" and "length m = 512" and "data \<noteq> []"
  shows "section_pos addr (length data) data m 0 (ucast (drop_bit 3 addr))"
proof -
  have "unat (drop_bit 3 addr) = unat addr div 8" by (simp add: drop_bit_eq_div unat_div)
  moreover have "unat addr div 8 < 256" using assms(1) by simp
  ultimately have "unat (ucast (drop_bit 3 addr) :: u8) = unat addr div 8"
    by (simp add: unsigned_ucast_eq take_bit_nat_eq_self)
  then show ?thesis using assms by (simp add: section_pos_def)
qed

lemma length_pkt_apply: "length (pkt_apply k p m) = length m"
  by (simp add: pkt_apply_def)

lemma length_log_map: "length (log_map ps) = 512"
proof -
  have "length (fold (pkt_apply k) ps m) = length m" for k m
    by (induction ps arbitrary: m) (simp_all add: length_pkt_apply)
  then show ?thesis by (simp add: log_map_def)
qed

lemma log_map_write:
  assumes "unat addr + length data \<le> 512"
  shows "log_map (ps @ write_packets addr data (log_map ps)) = put_over (log_map ps) (unat addr) data"
proof (cases "data = []")
  case True
  then show ?thesis by (simp add: write_packets_def section_packets.simps)
next
  case False
  have "log_map (ps @ qs) = fold (pkt_apply EFUSE_MAX_SECTION_8188F) qs (log_map ps)" for qs by (simp add: log_map_def)
  then show ?thesis
    using section_packets_map [OF section_pos_start [OF assms length_log_map False], of ps]
    by (simp add: write_packets_def updated_def)
qed

section \<open>The routine\<close>

text \<open>A memory behind a power switch that leaves it alone.\<close>

lemma mask_data_cfg:
  assumes "mask_cfg s = mask_cfg t"
  shows "mask_data s = mask_data t"
proof -
  have "boffefusemask s = boffefusemask t" "bFileMaskEfuse s = bFileMaskEfuse t" "maskfileBuffer s = maskfileBuffer t"
    using assms by (simp_all add: mask_cfg_def)
  moreover from this have "map_masked s = map_masked t"
    by (intro ext) (simp add: map_masked_def rtw_file_efuse_IsMasked_def efuse_IsMasked_def)
  ultimately show ?thesis by (intro ext) (simp add: mask_data_def)
qed

lemma length_mask_data [simp]: "length (mask_data s addr n hidden data) = length data"
proof -
  have "length (fold (\<lambda>i data. if c i then data[i := hidden i] else data) is data) = length data" for c "is"
    by (induction "is" arbitrary: data) simp_all
  then show ?thesis by (simp add: mask_data_def)
qed

locale fuse_device = fuse_memory H False cells good
  for H :: "'h usb_host" and cells :: "'h ef_sys \<Rightarrow> bytes" and good :: "'h ef_sys \<Rightarrow> bool" +
  assumes switch_spec: "good s \<Longrightarrow>
      wp (Efuse_PowerSwitch H w p) (\<lambda>_ s'. good s' \<and> cells s' = cells s \<and> settings s' = settings s) s"
begin

lemma switch_wp:
  assumes "good s" and "\<And>s'. same_fuses cells good s s' \<Longrightarrow> Q () s'"
  shows "wp (Efuse_PowerSwitch H w p) Q s"
  by (rule wp_mono [OF switch_spec [OF assms(1)]]) (auto simp: same_fuses_def intro!: assms(2))

lemma read_back_wp:
  assumes "good s" and "holds_log ps (cells s)" and "unat a + unat n \<le> 512"
    and "\<And>s'. good s' \<Longrightarrow> cells s' = cells s \<Longrightarrow> mask_cfg s' = mask_cfg s \<Longrightarrow>
           used_bytes False s' = of_nat (length (log_bytes ps)) \<Longrightarrow>
           Q (True, take (unat n) (drop (unat a) (log_map ps)) @ drop (unat n) data) s'"
  shows "wp (rtw_efuse_map_read H True a n data) Q s"
proof -
  have fits: "\<not> unat a + unat n > unat (Hal_GetEfuseDefinition EFUSE_WIFI TYPE_EFUSE_MAP_LEN)"
    using assms(3) by (simp add: ef_sizes)
  show ?thesis
    unfolding rtw_efuse_map_read_def if_not_P [OF fits] wp_bind wp_return Hal_ReadEFuse_def if_P [OF refl]
  proof (rule switch_wp [OF assms(1)], rule read_map_wp [OF same_good _ assms(3)], assumption)
    fix s1 s2
    assume s1: "same_fuses cells good s s1"
    then show "holds_log ps (cells s1)" using assms(2) by (simp add: same_cells)
    assume s2: "good s2" "cells s2 = cells s1" "mask_cfg s2 = mask_cfg s1" "used_bytes False s2 = of_nat (length (log_bytes ps))"
    show "wp (Efuse_PowerSwitch H False False)
        (\<lambda>_. Q (True, read_back (Some (take (unat n) (drop (unat a) (log_map ps)))) (unat n) data)) s2"
    proof (rule switch_wp [OF s2(1)])
      fix s3
      assume s3: "same_fuses cells good s2 s3"
      show "Q (True, read_back (Some (take (unat n) (drop (unat a) (log_map ps)))) (unat n) data) s3"
        unfolding read_back_def option.case
        by (rule assms(4))
          (use s2 s3 same_cells [OF s1] mask_cfg_settings [OF same_settings [OF s1]] mask_cfg_settings [OF same_settings [OF s3]]
             used_bytes_settings [OF same_settings [OF s3], of False] in \<open>simp_all add: same_good same_cells\<close>)
    qed
  qed
qed

lemma start_wp:
  assumes "good s" and "holds_log ps (cells s)" and "used_bytes False s = of_nat (length (log_bytes ps))"
    and "\<And>s'. good s' \<Longrightarrow> cells s' = cells s \<Longrightarrow> mask_cfg s' = mask_cfg s \<Longrightarrow>
           used_bytes False s' = of_nat (length (log_bytes ps)) \<Longrightarrow> Q (of_nat (length (log_bytes ps))) s'"
  shows "wp (write_start H) Q s"
proof (cases "EfuseUsedBytes s = 0")
  case True
  have "wp (hal_EfuseGetCurrentSize_WiFi H False) Q s"
    by (rule get_size_wp [OF assms(1,2)]) (use assms(3,4) in simp_all)
  then show ?thesis using True by (simp add: write_start_def Hal_EfuseGetCurrentSize_def)
next
  case False
  then show ?thesis using assms(3) assms(4) [OF assms(1) refl refl assms(3)] by (simp add: write_start_def used_bytes_def)
qed

lemma write_loop:
  assumes "good s" and "log_ready False cells ps s" and "section_pos addr cnts data m idx offset"
    and "length (log_bytes ps) + length (log_bytes (section_packets addr cnts data m idx offset)) < 221"
  shows "\<exists>s'. map_write_walk (\<lambda>offset word_en newdata. Hal_EfusePgPacketWrite H offset word_en newdata False)
       addr cnts data m idx offset True s = Some (True, s') \<and> good s' \<and>
     log_ready False cells (ps @ section_packets addr cnts data m idx offset) s' \<and> mask_cfg s' = mask_cfg s"
  using assms
proof (induction addr cnts data m idx offset arbitrary: ps s rule: section_packets.induct)
  case (1 addr cnts data m idx offset)
  let ?W = "\<lambda>offset word_en newdata. Hal_EfusePgPacketWrite H offset word_en newdata False"
  obtain idx' en nd where n: "next_section addr cnts data m idx offset = (idx', en, nd)" by (cases "next_section addr cnts data m idx offset")
  let ?p = "if en \<noteq> 0x0F then [Packet offset en nd] else []" and ?rest = "section_packets addr cnts data m idx' (offset + 1)"
  note step = section_step [OF 1(4) n]
  have idx: "idx < cnts" using 1(4) by (simp add: section_pos_def)
  have pkts: "section_packets addr cnts data m idx offset = ?p @ ?rest"
    unfolding section_packets.simps [of addr cnts data m idx offset] using idx by (simp add: n)
  have size: "length (log_bytes ps) + length (log_bytes ?p) + length (log_bytes ?rest) < 221"
    using 1(5) by (simp add: pkts)
  obtain t where t: "good t" "log_ready False cells (ps @ ?p) t" "mask_cfg t = mask_cfg s"
      and W: "(if en \<noteq> 0x0F then ?W offset en nd s else Some (True, s)) = Some (True, t)"
  proof (cases "en = 0x0F")
    case True
    then show ?thesis using that 1(2,3) by simp
  next
    case False
    then show ?thesis
      using pg_write [OF 1(2,3) _ step(3)] size that by auto
  qed
  have walk: "map_write_walk ?W addr cnts data m idx offset True s = map_write_walk ?W addr cnts data m idx' (offset + 1) True t"
    unfolding map_write_walk.simps [of ?W addr cnts data m idx] using idx W by (auto simp: n split: if_splits)
  show ?case
  proof (cases "idx' < cnts")
    case True
    then show ?thesis
      using 1(1) [OF idx n [symmetric] refl t(1,2) step(5)] size t(3) by (simp add: walk pkts)
  next
    case False
    then show ?thesis
      unfolding walk pkts map_write_walk.simps [of ?W addr cnts data m idx'] using t by (simp add: section_packets_end)
  qed
qed

lemma map_write:
  assumes "good s" and "log_ready False cells ps s" and "unat addr + unat cnts \<le> 512" and "length data = unat cnts"
  defines "d \<equiv> mask_data s addr (unat cnts) (\<lambda>i. log_map ps ! (unat addr + i)) data"
  defines "new \<equiv> write_packets addr d (log_map ps)"
  shows "\<exists>s'. rtw_efuse_map_write H True True addr cnts data s = Some (length (log_bytes (ps @ new)) < 221, d, s') \<and>
     good s' \<and> mask_cfg s' = mask_cfg s \<and>
     log_ready False cells (if length (log_bytes (ps @ new)) < 221 then ps @ new else ps) s'"
proof -
  let ?n = "of_nat (length (log_bytes ps)) :: u16" and ?off = "ucast (drop_bit 3 addr) :: u8"
  let ?map = "log_map ps" and ?W = "\<lambda>offset word_en newdata. Hal_EfusePgPacketWrite H offset word_en newdata False"
  note ready = log_readyD [OF assms(2)]
  have sizes: "unat (Hal_GetEfuseDefinition EFUSE_WIFI TYPE_EFUSE_MAP_LEN) = 512"
    "unat (Hal_GetEfuseDefinition EFUSE_WIFI TYPE_AVAILABLE_EFUSE_BYTES_TOTAL) = 221" by (simp_all add: ef_sizes)
  have n: "unat ?n = length (log_bytes ps)" using ready(1) by (simp add: holds_log_def small_addr)
  have "wp (rtw_efuse_map_read H True 0 (Hal_GetEfuseDefinition EFUSE_WIFI TYPE_EFUSE_MAP_LEN) (replicate 512 0xFF))
      (\<lambda>r t. r = (True, ?map) \<and> good t \<and> cells t = cells s \<and> mask_cfg t = mask_cfg s \<and> used_bytes False t = ?n) s"
    by (rule read_back_wp [OF assms(1) ready(1)]) (simp_all only: sizes, simp_all add: length_log_map)
  then obtain t where t: "run_state (rtw_efuse_map_read H True 0 (Hal_GetEfuseDefinition EFUSE_WIFI TYPE_EFUSE_MAP_LEN) (replicate 512 0xFF)) s =
      ((True, ?map), t)" "good t" "cells t = cells s" "mask_cfg t = mask_cfg s" "used_bytes False t = ?n"
    by (auto simp: wp_def split: prod.splits)
  have "wp (write_start H) (\<lambda>r u. r = ?n \<and> good u \<and> cells u = cells s \<and> mask_cfg u = mask_cfg s \<and> used_bytes False u = ?n) t"
    by (rule start_wp [OF t(2) _ t(5)]) (use t ready(1) in simp_all)
  then obtain u where u: "run_state (write_start H) t = (?n, u)" "good u" "cells u = cells s" "mask_cfg u = mask_cfg s"
      "used_bytes False u = ?n"
    by (auto simp: wp_def split: prod.splits)
  have ready_u: "log_ready False cells ps u" using ready u(3,5) by (simp add: log_ready_def Let_def)
  have d: "mask_data t addr (unat cnts) (\<lambda>i. ?map ! (unat addr + i)) data = d"
    using mask_data_cfg [OF t(4)] by (simp add: d_def)
  have len: "length d = unat cnts" by (simp add: d_def assms(4))
  have fits: "\<not> unat addr + unat cnts > 512" using assms(3) by simp
  have total: "chk_total_byte addr (unat cnts) d ?map 0 ?off 0 = length (log_bytes new)"
    by (simp add: chk_total_byte_packets new_def write_packets_def len)
  have run: "rtw_efuse_map_write H True True addr cnts data s =
      (if length (log_bytes (ps @ new)) \<ge> 221 then Some (False, d, u)
       else map_option (\<lambda>(ret, s). (ret, d, s)) (map_write_walk ?W addr (unat cnts) d ?map 0 ?off True u))"
    unfolding rtw_efuse_map_write_def Let_def sizes if_not_P [OF fits] not_True_eq_False if_False t(1) prod.case d u(1) n total
    by simp
  show ?thesis
  proof (cases "length (log_bytes (ps @ new)) < 221")
    case True
    have "\<exists>s'. map_write_walk ?W addr (unat cnts) d ?map 0 ?off True u = Some (True, s') \<and> good s' \<and>
        log_ready False cells (ps @ new) s' \<and> mask_cfg s' = mask_cfg u"
    proof (cases "d = []")
      case True
      then show ?thesis
        using len u(2) ready_u by (simp add: map_write_walk.simps new_def write_packets_def section_packets_end)
    next
      case False
      then show ?thesis
        using write_loop [OF u(2) ready_u section_pos_start [of addr d, OF _ length_log_map False, of ps]] assms(3) True
        by (simp add: new_def write_packets_def len)
    qed
    then show ?thesis using True u(4) by (auto simp: run)
  next
    case False
    then show ?thesis using u(2,4) ready_u by (simp add: run not_less)
  qed
qed

end

text \<open>The chip is one.\<close>

lemma chip_device:
  assumes "fuse_chip H reg fuses"
  shows "fuse_device H (\<lambda>s. fuses (udev (ef_dev s))) (chip_ready reg fuses)"
proof (intro fuse_device.intro chip_memory [OF assms] fuse_device_axioms.intro, goal_cases)
  case (1 s w p)
  have len: "length (fuses (udev (ef_dev s))) = 512" using 1 by (simp add: chip_ready_def EFUSE_MAX_HW_SIZE_def)
  have "wp (Hal_EfusePowerSwitch H w p) (\<lambda>_ d. chip_ready reg fuses (s\<lparr>ef_dev := d\<rparr>) \<and> fuses (udev d) = fuses (udev (ef_dev s))) (ef_dev s)"
    by (rule power_wp [OF assms chip_readyD(1) [OF 1]]) (use chip_readyD(2) [OF 1] in \<open>simp add: chip_readyI len\<close>)
  then show ?case by (simp add: Efuse_PowerSwitch_def)
qed

interpretation chip: fuse_device chip_host "\<lambda>s. snd (udev (ef_dev s))" "chip_ready fst snd"
  by (rule chip_device [OF chip_host_chip])

end
