(* ===== verification/Ef_Claims.thy ===== *)
theory Ef_Claims
  imports Ef_Update
begin

text \<open>
  The properties of the one-time memory, for every chip that serves its registers as \<open>fuse_chip\<close>
  says, and for the arrays of the pseudo test: what writing and reading the map do, that masked bytes
  are kept, and that reading the Bluetooth part never gets to its second bank.
\<close>

section \<open>Masked bytes\<close>

text \<open>A masked byte of the data is the byte of the map, the others are kept.\<close>

lemma fold_mask_nth:
  "length data = n \<Longrightarrow> k \<le> n \<Longrightarrow> i < n \<Longrightarrow>
     fold (\<lambda>i data. if c i then data[i := hidden i] else data) [0..<k] data ! i = (if i < k \<and> c i then hidden i else data ! i)"
proof (induction k)
  case (Suc k)
  have "length (fold (\<lambda>i data. if c i then data[i := hidden i] else data) is data) = length data" for "is"
    by (induction "is" arbitrary: data) simp_all
  then show ?case using Suc by (auto simp: nth_list_update less_Suc_eq simp del: upt_rec_numeral)
qed simp

lemma mask_data_nth:
  "length data = n \<Longrightarrow> i < n \<Longrightarrow> mask_data s addr n hidden data ! i =
     (if \<not> boffefusemask s \<and> map_masked s (addr + of_nat i) then hidden i else data ! i)"
  by (simp add: mask_data_def fold_mask_nth)

lemma masked_byte_kept:
  assumes "unat addr + n \<le> length m" and "length data = n" and "\<not> boffefusemask s" and "map_masked s p"
  shows "put_over m (unat addr) (mask_data s addr n (\<lambda>i. m ! (unat addr + i)) data) ! unat p = m ! unat p"
proof (cases "unat addr \<le> unat p \<and> unat p < unat addr + n")
  case True
  define i where "i = unat p - unat addr"
  have i: "unat p = unat addr + i" "i < n" using True by (auto simp: i_def)
  have "p = of_nat (unat p)" by simp
  also have "\<dots> = addr + of_nat i" by (simp only: i(1) of_nat_add) simp
  finally have "addr + of_nat i = p" by (rule sym)
  then show ?thesis
    using put_over_at [of i "mask_data s addr n (\<lambda>i. m ! (unat addr + i)) data" "unat addr" m] assms i
    by (simp add: mask_data_nth)
next
  case False
  then show ?thesis using assms(1,2) by (intro put_over_other) auto
qed

section \<open>The Bluetooth part\<close>

text \<open>Reading stops after at most 256 bytes and one packet, so the first bank always looks unfinished.\<close>

lemma addr_step:
  assumes "AVAILABLE_EFUSE_ADDR a"
  shows "0 < unat (a + 1)" "unat (a + 1) \<le> 266" "0 < unat (a + 2)" "unat (a + 2) \<le> 266"
    "0 < unat (a + hdr_len e + word_bytes w)" "unat (a + hdr_len e + word_bytes w) \<le> 266"
proof -
  have a: "unat a < 256"
    using assms by (simp add: AVAILABLE_EFUSE_ADDR_def EFUSE_REAL_CONTENT_LEN_8188F_def word_less_nat_alt)
  then have n: "unat (a + 1) = unat a + 1" "unat (a + 2) = unat a + 2" by (simp_all add: unat_add_small)
  show "0 < unat (a + 1)" "unat (a + 1) \<le> 266" "0 < unat (a + 2)" "unat (a + 2) \<le> 266" using a by (simp_all add: n)
  show "0 < unat (a + hdr_len e + word_bytes w)" "unat (a + hdr_len e + word_bytes w) \<le> 266"
    using a unat_add_small [of a "hdr_len e + word_bytes w"] word_bytes_even [of w]
    by (auto simp: hdr_len_def add.assoc)
qed

lemma map_walk_short:
  "0 < unat a \<or> AVAILABLE_EFUSE_ADDR a \<Longrightarrow> unat a \<le> 266 \<Longrightarrow>
     wp (map_walk H b k a tbl) (\<lambda>r _. 0 < unat (fst r) \<and> unat (fst r) \<le> 266) s"
proof (induction "256 - unat a" arbitrary: a tbl s rule: less_induct)
  case less
  let ?Q = "\<lambda>r _. 0 < unat (fst r :: u16) \<and> unat (fst r) \<le> 266"
  show ?case
  proof (cases "AVAILABLE_EFUSE_ADDR a")
    case False
    then show ?thesis using less.prems by (simp add: map_walk.simps [of H b k a tbl])
  next
    case True
    note step = addr_step [OF True]
    have skip: "wp (map_walk H b k (a + 2) tbl') ?Q t" for tbl' t
      by (rule less.hyps) (use True addr_grows [OF True, of 2] step in simp_all)
    have go_on: "wp (map_walk H b k (a + hdr_len e + word_bytes w) tbl') ?Q t" for e w tbl' t
      by (rule less.hyps) (use next_addr_grows [OF True] step(5,6) in simp_all)
    have dec: "wp (case p of
            PgEmpty \<Rightarrow> map_walk H b k (a + 2) tbl
          | PgHdr ext offset wden \<Rightarrow>
              if offset < k
              then do {
                tbl \<leftarrow> read_words H b wden (unat offset * PGPKT_DATA_SIZE) [0..<EFUSE_MAX_WORD_UNIT] (a + hdr_len ext) tbl;
                map_walk H b k (a + hdr_len ext + word_bytes wden) tbl }
              else map_walk H b k (a + hdr_len ext + word_bytes wden) tbl) ?Q t" for p t
      using skip go_on by (cases p) (simp_all add: wp_all)
    have body: "wp (if hdr = 0xFF then State_Monad.return (a + 1, tbl)
        else do {
          p \<leftarrow> pg_decode H b hdr a;
          case p of
            PgEmpty \<Rightarrow> map_walk H b k (a + 2) tbl
          | PgHdr ext offset wden \<Rightarrow>
              if offset < k
              then do {
                tbl \<leftarrow> read_words H b wden (unat offset * PGPKT_DATA_SIZE) [0..<EFUSE_MAX_WORD_UNIT] (a + hdr_len ext) tbl;
                map_walk H b k (a + hdr_len ext + word_bytes wden) tbl }
              else map_walk H b k (a + hdr_len ext + word_bytes wden) tbl }) ?Q t" for hdr t
      using step(1,2) dec by (simp add: wp_all del: One_nat_def)
    show ?thesis
      unfolding map_walk.simps [of H b k a tbl] if_P [OF True] wp_bind by (rule wp_all) (simp only: case_prod_unfold body [unfolded wp_bind])
  qed
qed

lemma bank_switched: "bank \<le> 3 \<Longrightarrow> wp (hal_EfuseSwitchToBank H bank b) (\<lambda>r _. r) s"
  by (simp add: hal_EfuseSwitchToBank_def wp_all)

lemma bt_first_bank:
  "wp (bt_banks H b (Hal_GetEfuseDefinition EFUSE_BT TYPE_AVAILABLE_EFUSE_BYTES_BANK) [1, 2] 0 tbl)
     (\<lambda>r _. \<exists>addr tbl'. r = Some (1, addr, tbl') \<and> unat addr \<le> 266) s"
proof -
  let ?len = "Hal_GetEfuseDefinition EFUSE_BT TYPE_AVAILABLE_EFUSE_BYTES_BANK"
  let ?Q = "\<lambda>r _. \<exists>addr tbl'. r = Some (1 :: u8, addr :: u16, tbl' :: bytes) \<and> unat addr \<le> 266"
  have short: "addr - 1 < ?len" if "0 < unat addr" "unat addr \<le> 266" for addr :: u16
  proof -
    have "unat (addr - 1) = unat addr - 1" using that(1) by (intro unat_minus_one) auto
    then show ?thesis using that(2) by (simp add: ef_sizes word_less_nat_alt)
  qed
  have walk: "wp (map_walk H b EFUSE_BT_MAX_SECTION 0 tbl)
      (\<lambda>x. wp (case x of (addr, tbl) \<Rightarrow> if addr - 1 < ?len then State_Monad.return (Some (1, addr, tbl))
               else bt_banks H b ?len [2] addr tbl) ?Q) t" for t
    by (rule wp_mono [OF map_walk_short [of 0]])
      (use short in \<open>auto simp: AVAILABLE_EFUSE_ADDR_def EFUSE_REAL_CONTENT_LEN_8188F_def\<close>)
  have "wp (hal_EfuseSwitchToBank H 1 b) (\<lambda>ok. wp (if \<not> ok then State_Monad.return None
      else do {
        (addr, tbl) \<leftarrow> map_walk H b EFUSE_BT_MAX_SECTION 0 tbl;
        if addr - 1 < ?len then State_Monad.return (Some (1, addr, tbl))
        else bt_banks H b ?len [2] addr tbl }) ?Q) s"
    by (rule wp_mono [OF bank_switched]) (use walk in simp_all)
  then show ?thesis by (simp only: bt_banks.simps(2) wp_bind)
qed

section \<open>A chip to try it on\<close>

text \<open>The state after power on: a blank chip, the mask of the driver switched off or on.\<close>

definition blank_chip :: "bool \<Rightarrow> ((u16 \<Rightarrow> u8) \<times> bytes) ef_sys" where
  "blank_chip unmasked =
     \<lparr>ef_dev = \<lparr>udev = (\<lambda>_. 0, replicate 512 0xFF), continual_io_error = 0, bSurpriseRemoved = False, disable_func = 0, io_log = []\<rparr>,
      vendor_smic = False, EfuseUsedBytes = 0, EfuseUsedPercentage = 0,
      EfuseHal = \<lparr>fakeEfuseBank = 0, fakeEfuseUsedBytes = 0, BTEfuseUsedBytes = 0, BTEfuseUsedPercentage = 0, fakeBTEfuseUsedBytes = 0\<rparr>,
      bautoload_fail_flag = False, efuse_eeprom_data = replicate 512 0, boffefusemask = unmasked, bFileMaskEfuse = False, mp_mode = False,
      glob_fakeEfuseBank = 0, fakeEfuseContent = replicate 512 0xFF, fakeBTEfuseContent = replicate 3 (replicate 512 0xFF),
      maskfileBuffer = replicate 32 0\<rparr>"

lemma blank_chip_sel:
  "udev (ef_dev (blank_chip m)) = (\<lambda>_. 0, replicate 512 0xFF)" "RTW_CANNOT_IO (ef_dev (blank_chip m)) = False"
  "EfuseUsedBytes (blank_chip m) = 0" "boffefusemask (blank_chip m) = m" "bFileMaskEfuse (blank_chip m) = False"
  by (simp_all add: blank_chip_def RTW_CANNOT_IO_def)

lemma blank_chip_ready: "chip_ready fst snd (blank_chip m)"
  "log_ready False (\<lambda>s. snd (udev (ef_dev s))) [] (blank_chip m)"
proof -
  show "chip_ready fst snd (blank_chip m)"
    unfolding chip_ready_def blank_chip_sel EFUSE_MAX_HW_SIZE_def by simp
  show "log_ready False (\<lambda>s. snd (udev (ef_dev s))) [] (blank_chip m)"
    unfolding log_ready_def Let_def used_bytes_def blank_chip_sel holds_log_def blank_from_def
    by (simp add: take_Suc)
qed

lemma blank_map: "log_map [] = replicate 512 0xFF"
  by (simp add: log_map_def)

lemma one_byte_total: "chk_total_byte 0 1 [0x5A] (replicate 512 0xFF) 0 0 0 = 3"
proof -
  let ?m = "replicate 512 (0xFF :: u8)"
  have "section_diff 0 1 [0x5A] ?m 1 1 en nd = (1, en, nd)" for en nd
    by (simp add: section_diff.simps)
  moreover have "?m ! 0 \<noteq> 0x5A" by (simp add: nth_replicate)
  ultimately have "next_section 0 1 [0x5A] ?m 0 0 = (1, 0x0E, (take PGPKT_DATA_SIZE (drop 0 ?m))[0 := 0x5A])"
    by (simp add: next_section_def section_diff.simps [of 0 "Suc 0" "[0x5A]" ?m 0 0] PGPKT_DATA_SIZE_def)
  then show ?thesis
    by (simp add: chk_total_byte.simps [of 0 "Suc 0" "[0x5A]" ?m 0] chk_total_byte.simps [of 0 "Suc 0" "[0x5A]" ?m "Suc 0"]
        Efuse_CalculateWordCnts_def EFUSE_MAX_SECTION_BASE_def)
qed

lemma one_byte_mask: "[0x5A] = mask_data (blank_chip True) 0 (unat 1) (\<lambda>i. log_map [] ! (unat 0 + i)) [0x5A]"
  by (simp add: mask_data_def blank_chip_sel)

lemma put_one_byte: "put_over (replicate 512 0xFF) 0 [0x5A] = (0x5A :: u8) # replicate 511 0xFF"
  by (simp add: put_over_def drop_replicate)

section \<open>Writing the map of a chip\<close>

text \<open>The update, and the packets that make it.\<close>

lemma map_write_chip:
  assumes "fuse_chip H reg fuses" and "chip_ready reg fuses s" and "log_ready False (\<lambda>s. fuses (udev (ef_dev s))) ps s"
    and "unat addr + unat cnts \<le> 512" and "length data = unat cnts"
    and d: "d = mask_data s addr (unat cnts) (\<lambda>i. log_map ps ! (unat addr + i)) data"
    and ok: "ok \<longleftrightarrow> length (log_bytes ps) + chk_total_byte addr (unat cnts) d (log_map ps) 0 (ucast (drop_bit 3 addr)) 0 < 221"
  obtains s' ps' where "rtw_efuse_map_write H True True addr cnts data s = Some (ok, d, s')"
    and "chip_ready reg fuses s'" and "log_ready False (\<lambda>s. fuses (udev (ef_dev s))) ps' s'" and "mask_cfg s' = mask_cfg s"
    and "log_map ps' = (if ok then put_over (log_map ps) (unat addr) d else log_map ps)"
proof -
  let ?new = "write_packets addr d (log_map ps)"
  have len: "length d = unat cnts" by (simp add: d assms(5))
  have "length (log_bytes (ps @ ?new)) =
      length (log_bytes ps) + chk_total_byte addr (unat cnts) d (log_map ps) 0 (ucast (drop_bit 3 addr)) 0"
    by (simp add: chk_total_byte_packets write_packets_def len)
  then have "length (log_bytes (ps @ ?new)) < 221 \<longleftrightarrow> ok" by (simp add: ok)
  then show thesis
    using fuse_device.map_write [OF chip_device [OF assms(1)] assms(2-5), folded d]
      log_map_write [of addr d ps] assms(4) len that by (auto split: if_splits)
qed

text \<open>
  C8: \<open>rtw_efuse_map_write\<close> implements an update of the map. On a chip whose memory holds a log of
  packets and is blank behind it, the call returns; the data, after the mask, is put over the map if
  the packets for the difference fit into the 221 bytes, and the call reports success exactly then;
  otherwise the log stays as it was.
\<close>

theorem efuse_map_write:
  assumes "fuse_chip H reg fuses" and "chip_ready reg fuses s" and "log_ready False (\<lambda>s. fuses (udev (ef_dev s))) ps s"
    and "unat addr + unat cnts \<le> 512" and "length data = unat cnts"
    and d: "d = mask_data s addr (unat cnts) (\<lambda>i. log_map ps ! (unat addr + i)) data"
  shows "\<exists>ok s' ps'. rtw_efuse_map_write H True True addr cnts data s = Some (ok, d, s') \<and>
     (ok \<longleftrightarrow> length (log_bytes ps) + chk_total_byte addr (unat cnts) d (log_map ps) 0 (ucast (drop_bit 3 addr)) 0 < 221) \<and>
     chip_ready reg fuses s' \<and> log_ready False (\<lambda>s. fuses (udev (ef_dev s))) ps' s' \<and> mask_cfg s' = mask_cfg s \<and>
     log_map ps' = (if ok then put_over (log_map ps) (unat addr) d else log_map ps)"
  by (rule map_write_chip [OF assms(1-5) d refl]) auto

theorem efuse_map_write_witness:
  "\<exists>s' ps'. rtw_efuse_map_write chip_host True True 0 1 [0x5A] (blank_chip True) = Some (True, [0x5A], s') \<and>
     log_ready False (\<lambda>s. snd (udev (ef_dev s))) ps' s' \<and> log_map ps' = 0x5A # replicate 511 0xFF"
  using efuse_map_write [OF chip_host_chip blank_chip_ready _ _ one_byte_mask] one_byte_total put_one_byte
  by (auto simp: blank_map)

text \<open>
  C9: what is written is read back. With the mask switched off, and room for the packets,
  \<open>rtw_efuse_map_write\<close> succeeds and a \<open>rtw_efuse_map_read\<close> of the same range after it fills the
  caller's buffer with the data.
\<close>

theorem efuse_write_then_read:
  assumes "fuse_chip H reg fuses" and "chip_ready reg fuses s" and "log_ready False (\<lambda>s. fuses (udev (ef_dev s))) ps s"
    and "unat addr + unat cnts \<le> 512" and "length data = unat cnts" and "boffefusemask s"
    and "length (log_bytes ps) + chk_total_byte addr (unat cnts) data (log_map ps) 0 (ucast (drop_bit 3 addr)) 0 < 221"
    and "length buf = unat cnts"
  shows "\<exists>s'. rtw_efuse_map_write H True True addr cnts data s = Some (True, data, s') \<and>
     fst (run_state (rtw_efuse_map_read H True addr cnts buf) s') = (True, data)"
proof -
  have d: "data = mask_data s addr (unat cnts) (\<lambda>i. log_map ps ! (unat addr + i)) data"
    using assms(6) by (simp add: mask_data_def)
  obtain s' ps' where w: "rtw_efuse_map_write H True True addr cnts data s = Some (True, data, s')"
    and s': "chip_ready reg fuses s'" "log_ready False (\<lambda>s. fuses (udev (ef_dev s))) ps' s'"
    and m: "log_map ps' = (if True then put_over (log_map ps) (unat addr) data else log_map ps)"
    by (rule map_write_chip [OF assms(1-5) d, where ok = True]) (use assms(7) in auto)
  have "take (unat cnts) (drop (unat addr) (put_over (log_map ps) (unat addr) data)) = data"
    using assms(4,5) by (simp add: put_over_def length_log_map)
  then have "wp (rtw_efuse_map_read H True addr cnts buf) (\<lambda>r _. r = (True, data)) s'"
    using m assms(8)
    by (intro fuse_device.read_back_wp [OF chip_device [OF assms(1)] s'(1) log_readyD(1) [OF s'(2)] assms(4)]) simp
  then show ?thesis using w by (auto simp: wp_def split: prod.splits)
qed

theorem efuse_write_then_read_witness:
  "\<exists>s'. rtw_efuse_map_write chip_host True True 0 1 [0x5A] (blank_chip True) = Some (True, [0x5A], s') \<and>
     fst (run_state (rtw_efuse_map_read chip_host True 0 1 [0]) s') = (True, [0x5A])"
  by (rule efuse_write_then_read [OF chip_host_chip blank_chip_ready])
    (simp_all add: blank_chip_sel blank_map one_byte_total del: One_nat_def)

text \<open>
  C10: the mask protects. With the mask on, a call of \<open>rtw_efuse_map_write\<close> with any data leaves every
  masked byte of the map as it was.
\<close>

theorem efuse_mask_protects:
  assumes "fuse_chip H reg fuses" and "chip_ready reg fuses s" and "log_ready False (\<lambda>s. fuses (udev (ef_dev s))) ps s"
    and "unat addr + unat cnts \<le> 512" and "length data = unat cnts" and "\<not> boffefusemask s"
  shows "\<exists>ok d s' ps'. rtw_efuse_map_write H True True addr cnts data s = Some (ok, d, s') \<and>
     log_ready False (\<lambda>s. fuses (udev (ef_dev s))) ps' s' \<and>
     (\<forall>p. map_masked s p \<longrightarrow> log_map ps' ! unat p = log_map ps ! unat p)"
proof -
  obtain s' ps' where w: "rtw_efuse_map_write H True True addr cnts data s = Some (length (log_bytes ps) +
        chk_total_byte addr (unat cnts) (mask_data s addr (unat cnts) (\<lambda>i. log_map ps ! (unat addr + i)) data) (log_map ps) 0
          (ucast (drop_bit 3 addr)) 0 < 221, mask_data s addr (unat cnts) (\<lambda>i. log_map ps ! (unat addr + i)) data, s')"
    and s': "log_ready False (\<lambda>s. fuses (udev (ef_dev s))) ps' s'"
    and m: "log_map ps' = (if length (log_bytes ps) +
        chk_total_byte addr (unat cnts) (mask_data s addr (unat cnts) (\<lambda>i. log_map ps ! (unat addr + i)) data) (log_map ps) 0
          (ucast (drop_bit 3 addr)) 0 < 221
        then put_over (log_map ps) (unat addr) (mask_data s addr (unat cnts) (\<lambda>i. log_map ps ! (unat addr + i)) data) else log_map ps)"
    by (rule map_write_chip [OF assms(1-5) refl refl])
  have "log_map ps' ! unat p = log_map ps ! unat p" if "map_masked s p" for p
    using masked_byte_kept [OF _ assms(5,6) that, of addr "log_map ps"] assms(4) by (simp add: m length_log_map)
  then show ?thesis using w s' by blast
qed

theorem efuse_mask_protects_witness:
  "\<exists>ok d s' ps'. rtw_efuse_map_write chip_host True True 0x20 1 [0x5A] (blank_chip False) = Some (ok, d, s') \<and>
     log_ready False (\<lambda>s. snd (udev (ef_dev s))) ps' s' \<and> log_map ps' ! 0x20 = 0xFF"
proof -
  have "map_masked (blank_chip False) 0x20"
    by (simp add: map_masked_def blank_chip_sel efuse_IsMasked_def EFUSE_IsAddressMasked_MP_8188F_MUSB_def mask_lookup_def
        Array_MP_8188F_MUSB_def Let_def)
  moreover obtain ok d s' ps' where "rtw_efuse_map_write chip_host True True 0x20 1 [0x5A] (blank_chip False) = Some (ok, d, s')"
      "log_ready False (\<lambda>s. snd (udev (ef_dev s))) ps' s'"
      "\<forall>p. map_masked (blank_chip False) p \<longrightarrow> log_map ps' ! unat p = log_map [] ! unat p"
    using efuse_mask_protects [OF chip_host_chip blank_chip_ready, of "0x20" 1 "[0x5A]" False]
    by (auto simp: blank_chip_sel)
  moreover have "log_map [] ! 0x20 = 0xFF" by (simp add: blank_map)
  moreover have "unat (0x20 :: u16) = 0x20" by simp
  ultimately show ?thesis by metis
qed

section \<open>The pseudo test\<close>

text \<open>
  in a pseudo test, with the arrays of the driver for the chip and whatever the device does, a
  packet that starts below the protected bytes is written behind the log, and reading the whole map
  gives the old one with the words of the packet put over it.
\<close>

theorem efuse_pseudo_packet:
  assumes "fake_ready s" and "log_ready True fakeEfuseContent ps s" and "length (log_bytes ps) < 221"
    and "pkt_ok (Packet offset word_en data)"
  shows "\<exists>s'. Hal_EfusePgPacketWrite H offset word_en data True s = Some (True, s') \<and>
     fst (run_state (Hal_ReadEFuse H True EFUSE_WIFI 0 512 True) s') =
       Some (pkt_apply EFUSE_MAX_SECTION_8188F (Packet offset word_en data) (log_map ps))"
proof -
  obtain s' where w: "Hal_EfusePgPacketWrite H offset word_en data True s = Some (True, s')" "fake_ready s'"
      "log_ready True fakeEfuseContent (ps @ [Packet offset word_en data]) s'"
    using fake.pg_write [OF assms] by blast
  have "wp (hal_ReadEFuse_WiFi H True 0 512 True) (\<lambda>r _. r = Some (log_map (ps @ [Packet offset word_en data]))) s'"
    by (rule fake.read_map_wp [OF w(2) log_readyD(1) [OF w(3)]]) (simp_all add: length_log_map)
  then show ?thesis
    using w(1) by (auto simp: wp_def Hal_ReadEFuse_def log_map_def split: prod.splits)
qed

lemma blank_fake: "fake_ready (blank_chip m)" "log_ready True fakeEfuseContent [] (blank_chip m)"
proof -
  have c: "fakeEfuseContent (blank_chip m) = replicate 512 0xFF" "glob_fakeEfuseBank (blank_chip m) = 0"
    "fakeEfuseUsedBytes (EfuseHal (blank_chip m)) = 0"
    by (simp_all add: blank_chip_def)
  show "fake_ready (blank_chip m)" by (simp add: fake_ready_def c EFUSE_MAX_HW_SIZE_def)
  show "log_ready True fakeEfuseContent [] (blank_chip m)"
    unfolding log_ready_def Let_def used_bytes_def c holds_log_def blank_from_def by (simp add: take_Suc)
qed

theorem efuse_pseudo_packet_witness:
  "\<exists>s'. Hal_EfusePgPacketWrite chip_host 2 0x0E [1, 2, 3, 4, 5, 6, 7, 8] True (blank_chip True) = Some (True, s') \<and>
     fst (run_state (Hal_ReadEFuse chip_host True EFUSE_WIFI 0 512 True) s') =
       Some (pkt_apply EFUSE_MAX_SECTION_8188F (Packet 2 0x0E [1, 2, 3, 4, 5, 6, 7, 8]) (log_map []))"
  by (rule efuse_pseudo_packet [OF blank_fake]) (simp_all add: pkt_ok_def)

section \<open>The second bank\<close>

text \<open>
  \<open>hal_ReadEFuse_BT\<close> never reads its second bank. Whatever the device answers, its loop over
  the banks ends with the first one, at most 266 bytes into it, since the bound of the inner loop is
  that of the memory of the WiFi part.
\<close>

theorem efuse_bt_first_bank_only:
  "\<exists>addr tbl'. fst (run_state (bt_banks H bPseudoTest (Hal_GetEfuseDefinition EFUSE_BT TYPE_AVAILABLE_EFUSE_BYTES_BANK)
        [1, 2] 0 tbl) s) = Some (1, addr, tbl') \<and> unat addr \<le> 266"
  by (rule wp_run [OF bt_first_bank surjective_pairing])

end
