(* ===== verification/Ps_Mail.thy ===== *)
theory Ps_Mail
  imports Hal_Power
begin

text \<open>
  Commands from the driver to the firmware (\<open>hal/rtl8188f/rtl8188f_cmd.c\<close>): the four mailboxes
  with their flags, and the commands that are packed into them. A command is up to seven bytes of
  parameters; the first three go into the box behind the number of the command, the others into the
  extension of the box, which is written first. \<open>Ps_Box\<close> shows what the firmware finds there.
\<close>

section \<open>Registers and numbers\<close>

definition REG_HMEBOX_0 :: u32 where "REG_HMEBOX_0 = 0x1D0"
definition REG_HMEBOX_EXT0_8188F :: u32 where "REG_HMEBOX_EXT0_8188F = 0x1F0"
definition REG_DUAL_TSF_RST :: u32 where "REG_DUAL_TSF_RST = 0x553"
definition REG_P2P_CTWIN :: u32 where "REG_P2P_CTWIN = 0x572"
definition REG_NOA_DESC_SEL :: u32 where "REG_NOA_DESC_SEL = 0x5CF"
definition REG_NOA_DESC_DURATION :: u32 where "REG_NOA_DESC_DURATION = 0x5E0"
definition REG_NOA_DESC_INTERVAL :: u32 where "REG_NOA_DESC_INTERVAL = 0x5E4"
definition REG_NOA_DESC_START :: u32 where "REG_NOA_DESC_START = 0x5E8"
definition REG_NOA_DESC_COUNT :: u32 where "REG_NOA_DESC_COUNT = 0x5EC"
definition MAX_H2C_BOX_NUMS :: u8 where "MAX_H2C_BOX_NUMS = 4"
definition MESSAGE_BOX_SIZE :: u32 where "MESSAGE_BOX_SIZE = 4"
definition RTL8188F_MAX_CMD_LEN :: nat where "RTL8188F_MAX_CMD_LEN = 7"
definition RTL8188F_EX_MESSAGE_BOX_SIZE :: u32 where "RTL8188F_EX_MESSAGE_BOX_SIZE = 4"

lemmas box_regs = REG_HMEBOX_0_def REG_HMEBOX_EXT0_8188F_def MESSAGE_BOX_SIZE_def RTL8188F_EX_MESSAGE_BOX_SIZE_def

definition H2C_8188F_RSVD_PAGE :: u8 where "H2C_8188F_RSVD_PAGE = 0x00"
definition H2C_8188F_KEEP_ALIVE :: u8 where "H2C_8188F_KEEP_ALIVE = 0x03"
definition H2C_8188F_DISCON_DECISION :: u8 where "H2C_8188F_DISCON_DECISION = 0x04"
definition H2C_8188F_SET_PWR_MODE :: u8 where "H2C_8188F_SET_PWR_MODE = 0x20"
definition H2C_8188F_PS_TUNING_PARA :: u8 where "H2C_8188F_PS_TUNING_PARA = 0x21"
definition H2C_8188F_P2P_PS_OFFLOAD :: u8 where "H2C_8188F_P2P_PS_OFFLOAD = 0x24"
definition H2C_8188F_FWLPS_IN_IPS :: u8 where "H2C_8188F_FWLPS_IN_IPS = 0x28"
definition H2C_8188F_MACID_CFG :: u8 where "H2C_8188F_MACID_CFG = 0x40"
definition H2C_8188F_RSSI_SETTING :: u8 where "H2C_8188F_RSSI_SETTING = 0x42"
definition H2C_8188F_AP_REQ_TXRPT :: u8 where "H2C_8188F_AP_REQ_TXRPT = 0x43"
definition H2C_8188F_BT_MP_OPER :: u8 where "H2C_8188F_BT_MP_OPER = 0x67"

definition rtw_msleep_os :: "'h usb_host \<Rightarrow> nat \<Rightarrow> ('h, unit) io" where
  "rtw_msleep_os H ms = rtw_udelay_os H (1000 * ms)"

section \<open>The mailboxes\<close>

text \<open>
  The wait for the firmware to have read box \<open>msgbox_num\<close>: its flag is cleared. The first
  argument is \<open>retry_cnts\<close>, so that 101 reads are made at most.
\<close>

fun fw_read_wait :: "nat \<Rightarrow> 'h usb_host \<Rightarrow> u8 \<Rightarrow> ('h, bool) io" where
  "fw_read_wait retry_cnts H msgbox_num = do {
     v \<leftarrow> rtw_read8 H REG_HMETFR;
     if v AND push_bit (unat msgbox_num) 1 = 0 then State_Monad.return True
     else do {
       _ \<leftarrow> rtw_msleep_os H 1;
       case retry_cnts of 0 \<Rightarrow> State_Monad.return False | Suc n \<Rightarrow> fw_read_wait n H msgbox_num } }"

declare fw_read_wait.simps [simp del]

definition is_fw_read_cmd_down :: "'h usb_host \<Rightarrow> u8 \<Rightarrow> ('h, bool) io" where
  "is_fw_read_cmd_down H msgbox_num = fw_read_wait 100 H msgbox_num"

text \<open>\<open>_rtw_memcpy\<close> into a buffer that is large enough.\<close>

definition memcpy_at :: "bytes \<Rightarrow> nat \<Rightarrow> bytes \<Rightarrow> bytes" where
  "memcpy_at buf off src = take off buf @ src @ drop (off + length src) buf"

text \<open>The words \<open>h2c_cmd\<close> and \<open>h2c_cmd_ex\<close>, built byte by byte.\<close>

definition h2c_cmd_word :: "u8 \<Rightarrow> bytes \<Rightarrow> u32" where
  "h2c_cmd_word ElementID p =
     (let b = memcpy_at [0, 0, 0, 0] 1 (take 3 p) in le32_read (b[0 := b ! 0 OR ElementID]))"

definition h2c_ex_word :: "bytes \<Rightarrow> u32" where
  "h2c_ex_word p = le32_read (memcpy_at [0, 0, 0, 0] 0 (drop 3 p))"

text \<open>The extension, for more than three bytes, and the box. The results are not looked at.\<close>

definition write_h2c_box :: "'h usb_host \<Rightarrow> u8 \<Rightarrow> u8 \<Rightarrow> bytes \<Rightarrow> ('h, unit) io" where
  "write_h2c_box H h2c_box_num ElementID p = do {
     _ \<leftarrow> (if length p > 3
           then rtw_write32 H (REG_HMEBOX_EXT0_8188F + ucast h2c_box_num * RTL8188F_EX_MESSAGE_BOX_SIZE) (h2c_ex_word p)
           else State_Monad.return True);
     _ \<leftarrow> rtw_write32 H (REG_HMEBOX_0 + ucast h2c_box_num * MESSAGE_BOX_SIZE) (h2c_cmd_word ElementID p);
     State_Monad.return () }"

text \<open>A buffer is given with its length.\<close>

definition FillH2CCmd8188F :: "'h usb_host \<Rightarrow> fw_hal \<Rightarrow> u8 \<Rightarrow> bytes option \<Rightarrow> ('h, bool \<times> fw_hal) io" where
  "FillH2CCmd8188F H h ElementID pCmdBuffer =
     (case pCmdBuffer of
        None \<Rightarrow> State_Monad.return (False, h)
      | Some p \<Rightarrow>
          if length p > RTL8188F_MAX_CMD_LEN then State_Monad.return (False, h)
          else do {
            gone \<leftarrow> State (\<lambda>d. (bSurpriseRemoved d, d));
            if gone then State_Monad.return (False, h)
            else do {
              let h2c_box_num = LastHMEBoxNum h;
              down \<leftarrow> is_fw_read_cmd_down H h2c_box_num;
              if \<not> down then State_Monad.return (False, h)
              else do {
                _ \<leftarrow> write_h2c_box H h2c_box_num ElementID p;
                State_Monad.return (True, h\<lparr>LastHMEBoxNum := (h2c_box_num + 1) mod MAX_H2C_BOX_NUMS\<rparr>) } } })"

text \<open>A command whose result is not looked at.\<close>

definition post_h2c :: "'h usb_host \<Rightarrow> fw_hal \<Rightarrow> u8 \<Rightarrow> bytes \<Rightarrow> ('h, fw_hal) io" where
  "post_h2c H h ElementID p = do { (_, h) \<leftarrow> FillH2CCmd8188F H h ElementID (Some p); State_Monad.return h }"

section \<open>Parameters of the commands\<close>

text \<open>\<open>SET_BITS_TO_LE_1BYTE\<close> on byte \<open>i\<close> of the parameters.\<close>

definition bits_to_byte :: "nat \<Rightarrow> nat \<Rightarrow> u8 \<Rightarrow> u8 \<Rightarrow> u8" where
  "bits_to_byte off len v b =
     (if off = 0 \<and> len = 8 then v else (b AND NOT (push_bit off (mask len))) OR push_bit off (v AND mask len))"

definition SET_BITS :: "nat \<Rightarrow> nat \<Rightarrow> nat \<Rightarrow> u8 \<Rightarrow> bytes \<Rightarrow> bytes" where
  "SET_BITS i off len v p = p[i := bits_to_byte off len v (p ! i)]"

record rsvdpage_loc =
  LocProbeRsp :: u8
  LocPsPoll :: u8
  LocNullData :: u8
  LocQosNull :: u8
  LocBTQosNull :: u8

definition FwRsvdPage_parm :: "rsvdpage_loc \<Rightarrow> bytes" where
  "FwRsvdPage_parm l =
     SET_BITS 4 0 8 (LocBTQosNull l) (SET_BITS 3 0 8 (LocQosNull l) (SET_BITS 2 0 8 (LocNullData l)
       (SET_BITS 1 0 8 (LocPsPoll l) (SET_BITS 0 0 8 (LocProbeRsp l) (replicate 5 0)))))"

definition FwKeepAlive_parm :: "u8 \<Rightarrow> u8 \<Rightarrow> bytes" where
  "FwKeepAlive_parm benable pkt_type =
     SET_BITS 1 0 8 5 (SET_BITS 0 2 1 pkt_type (SET_BITS 0 1 1 1 (SET_BITS 0 0 1 benable (replicate 2 0))))"

definition FwDisconDecision_parm :: "u8 \<Rightarrow> bytes" where
  "FwDisconDecision_parm benable =
     SET_BITS 2 0 8 0 (SET_BITS 1 0 8 10 (SET_BITS 0 1 1 1 (SET_BITS 0 0 1 benable (replicate 3 0))))"

definition FwMacIdConfig_parm :: "bool \<Rightarrow> u8 \<Rightarrow> u8 \<Rightarrow> u8 \<Rightarrow> u8 \<Rightarrow> u32 \<Rightarrow> bytes" where
  "FwMacIdConfig_parm disable_pt mac_id raid bw sgi msk =
     (let p = SET_BITS 2 0 2 bw (SET_BITS 1 7 1 (if sgi \<noteq> 0 then 1 else 0)
                (SET_BITS 1 0 5 raid (SET_BITS 0 0 8 mac_id (replicate 7 0))));
          p = (if disable_pt then SET_BITS 2 6 1 1 p else p)
      in SET_BITS 6 0 8 (ucast (drop_bit 24 (msk AND 0xff000000)))
           (SET_BITS 5 0 8 (ucast (drop_bit 16 (msk AND 0x00ff0000)))
             (SET_BITS 4 0 8 (ucast (drop_bit 8 (msk AND 0x0000ff00)))
               (SET_BITS 3 0 8 (ucast (msk AND 0x000000ff)) p))))"

definition FwRssiSetting_parm :: "u8 \<Rightarrow> u8 \<Rightarrow> bytes" where
  "FwRssiSetting_parm mac_id rssi =
     SET_BITS 3 0 8 0 (SET_BITS 2 0 7 rssi (SET_BITS 0 0 8 mac_id (replicate 4 0)))"

definition FwAPReqRPT_parm :: bytes where
  "FwAPReqRPT_parm = SET_BITS 1 0 8 0 (SET_BITS 0 0 8 1 (replicate 2 0))"

definition FwPsTuneParam_parm :: bytes where
  "FwPsTuneParam_parm =
     SET_BITS 3 0 8 3 (SET_BITS 2 0 1 1 (SET_BITS 2 1 7 20 (SET_BITS 1 0 8 5 (SET_BITS 0 0 8 10 (replicate 4 0)))))"

definition FwBtMpOper_parm :: "u8 \<Rightarrow> u8 \<Rightarrow> u8 \<Rightarrow> u8 \<Rightarrow> u8 \<Rightarrow> u8 \<Rightarrow> bytes" where
  "FwBtMpOper_parm idx ver reqnum param0 param1 param2 =
     SET_BITS 4 0 8 param2 (SET_BITS 3 0 8 param1 (SET_BITS 2 0 8 param0
       (SET_BITS 1 0 8 idx (SET_BITS 0 4 4 reqnum (SET_BITS 0 0 4 ver (replicate 5 0))))))"

definition PS_MODE_ACTIVE :: u8 where "PS_MODE_ACTIVE = 0"
definition PS_MODE_MIN :: u8 where "PS_MODE_MIN = 1"
definition PS_MODE_MAX :: u8 where "PS_MODE_MAX = 2"
definition PS_MODE_DTIM :: u8 where "PS_MODE_DTIM = 3"
definition PM_Card_Disable :: u8 where "PM_Card_Disable = 10"
definition PS_MODE_NUM :: u8 where "PS_MODE_NUM = 11"

lemmas ps_modes = PS_MODE_ACTIVE_def PS_MODE_MIN_def PS_MODE_MAX_def PS_MODE_DTIM_def PM_Card_Disable_def PS_MODE_NUM_def

text \<open>The listen behaviour (RLBM) and the awake interval of a mode.\<close>

definition psmode_timing :: "u8 \<Rightarrow> u8 \<Rightarrow> bool \<Rightarrow> bool \<Rightarrow> u8 \<times> u8" where
  "psmode_timing psmode dtim p2p_on wifi_spec =
     (let (rlbm, awake_intvl) =
            (if psmode = PS_MODE_MIN then (0, 2)
             else if psmode = PS_MODE_MAX then (1, 2)
             else if psmode = PS_MODE_DTIM then (2, if dtim > 0 \<and> dtim < 16 then dtim + 1 else 4)
             else (2, 4))
      in if p2p_on \<or> wifi_spec then (1, 2) else (rlbm, awake_intvl))"

definition FwPwrMode_parm :: "u8 \<Rightarrow> u8 \<Rightarrow> u8 \<Rightarrow> bool \<Rightarrow> bool \<Rightarrow> u8 \<Rightarrow> bytes" where
  "FwPwrMode_parm psmode smart_ps dtim p2p_on wifi_spec uapsd_enable =
     (let (rlbm, awake_intvl) = psmode_timing psmode dtim p2p_on wifi_spec;
          (PowerState, byte5) = (if psmode > 0 then (0x00, 0x40) else (0x0C, 0x40))
      in SET_BITS 5 0 8 byte5 (SET_BITS 4 0 8 PowerState (SET_BITS 3 0 8 uapsd_enable
           (SET_BITS 2 0 8 awake_intvl (SET_BITS 1 0 4 rlbm (SET_BITS 1 4 4 smart_ps
             (SET_BITS 0 0 8 (if psmode > 0 then 1 else 0) (replicate 7 0))))))))"

section \<open>The commands\<close>

definition rtl8188f_set_FwRsvdPage_cmd :: "'h usb_host \<Rightarrow> fw_hal \<Rightarrow> rsvdpage_loc \<Rightarrow> ('h, fw_hal) io" where
  "rtl8188f_set_FwRsvdPage_cmd H h l = post_h2c H h H2C_8188F_RSVD_PAGE (FwRsvdPage_parm l)"

definition rtl8188f_set_FwKeepAlive_cmd :: "'h usb_host \<Rightarrow> fw_hal \<Rightarrow> u8 \<Rightarrow> u8 \<Rightarrow> ('h, fw_hal) io" where
  "rtl8188f_set_FwKeepAlive_cmd H h benable pkt_type =
     post_h2c H h H2C_8188F_KEEP_ALIVE (FwKeepAlive_parm benable pkt_type)"

definition rtl8188f_set_FwDisconDecision_cmd :: "'h usb_host \<Rightarrow> fw_hal \<Rightarrow> u8 \<Rightarrow> ('h, fw_hal) io" where
  "rtl8188f_set_FwDisconDecision_cmd H h benable =
     post_h2c H h H2C_8188F_DISCON_DECISION (FwDisconDecision_parm benable)"

text \<open>Power training is switched off by the driver or by its dynamic mechanisms.\<close>

definition rtl8188f_set_FwMacIdConfig_cmd ::
    "'h usb_host \<Rightarrow> fw_hal \<Rightarrow> bool \<Rightarrow> bool \<Rightarrow> u8 \<Rightarrow> u8 \<Rightarrow> u8 \<Rightarrow> u8 \<Rightarrow> u32 \<Rightarrow> ('h, fw_hal) io" where
  "rtl8188f_set_FwMacIdConfig_cmd H h bDisableTXPowerTraining bDisablePowerTraining mac_id raid bw sgi msk =
     post_h2c H h H2C_8188F_MACID_CFG
       (FwMacIdConfig_parm (bDisableTXPowerTraining \<or> bDisablePowerTraining) mac_id raid bw sgi msk)"

text \<open>The parameters are the number of the station, a byte not used and the signal strength.\<close>

definition rtl8188f_set_FwRssiSetting_cmd :: "'h usb_host \<Rightarrow> fw_hal \<Rightarrow> bytes \<Rightarrow> ('h, fw_hal) io" where
  "rtl8188f_set_FwRssiSetting_cmd H h param =
     post_h2c H h H2C_8188F_RSSI_SETTING (FwRssiSetting_parm (param ! 0) (param ! 2))"

definition rtl8188f_set_FwAPReqRPT_cmd :: "'h usb_host \<Rightarrow> fw_hal \<Rightarrow> ('h, fw_hal) io" where
  "rtl8188f_set_FwAPReqRPT_cmd H h = post_h2c H h H2C_8188F_AP_REQ_TXRPT FwAPReqRPT_parm"

definition rtl8188f_set_FwPwrMode_cmd ::
    "'h usb_host \<Rightarrow> fw_hal \<Rightarrow> u8 \<Rightarrow> u8 \<Rightarrow> bool \<Rightarrow> bool \<Rightarrow> u8 \<Rightarrow> u8 \<Rightarrow> ('h, fw_hal) io" where
  "rtl8188f_set_FwPwrMode_cmd H h smart_ps dtim p2p_on wifi_spec uapsd_enable psmode =
     post_h2c H h H2C_8188F_SET_PWR_MODE (FwPwrMode_parm psmode smart_ps dtim p2p_on wifi_spec uapsd_enable)"

definition rtl8188f_set_FwPsTuneParam_cmd :: "'h usb_host \<Rightarrow> fw_hal \<Rightarrow> ('h, fw_hal) io" where
  "rtl8188f_set_FwPsTuneParam_cmd H h = post_h2c H h H2C_8188F_PS_TUNING_PARA FwPsTuneParam_parm"

definition rtl8188f_set_FwBtMpOper_cmd :: "'h usb_host \<Rightarrow> fw_hal \<Rightarrow> u8 \<Rightarrow> u8 \<Rightarrow> u8 \<Rightarrow> bytes \<Rightarrow> ('h, fw_hal) io" where
  "rtl8188f_set_FwBtMpOper_cmd H h idx ver reqnum param =
     post_h2c H h H2C_8188F_BT_MP_OPER (FwBtMpOper_parm idx ver reqnum (param ! 0) (param ! 1) (param ! 2))"

definition rtl8188f_set_FwPwrModeInIPS_cmd :: "'h usb_host \<Rightarrow> fw_hal \<Rightarrow> u8 \<Rightarrow> ('h, fw_hal) io" where
  "rtl8188f_set_FwPwrModeInIPS_cmd H h cmd_param = post_h2c H h H2C_8188F_FWLPS_IN_IPS [cmd_param]"

section \<open>Power saving of Wi-Fi Direct\<close>

datatype P2P_ROLE = P2P_ROLE_DISABLE | P2P_ROLE_DEVICE | P2P_ROLE_CLIENT | P2P_ROLE_GO

datatype P2P_STATE = P2P_STATE_NONE | P2P_STATE_IDLE | P2P_STATE_LISTEN | P2P_STATE_SCAN
  | P2P_STATE_FIND_PHASE_LISTEN | P2P_STATE_FIND_PHASE_SEARCH | P2P_STATE_TX_PROVISION_DIS_REQ
  | P2P_STATE_RX_PROVISION_DIS_RSP | P2P_STATE_RX_PROVISION_DIS_REQ | P2P_STATE_GONEGO_ING
  | P2P_STATE_GONEGO_OK | P2P_STATE_GONEGO_FAIL | P2P_STATE_RECV_INVITE_REQ_MATCH
  | P2P_STATE_PROVISIONING_ING | P2P_STATE_PROVISIONING_DONE | P2P_STATE_TX_INVITE_REQ
  | P2P_STATE_RX_INVITE_RESP_OK | P2P_STATE_RECV_INVITE_REQ_DISMATCH | P2P_STATE_RECV_INVITE_REQ_GO
  | P2P_STATE_RECV_INVITE_REQ_JOIN | P2P_STATE_RX_INVITE_RESP_FAIL | P2P_STATE_RX_INFOR_NOREADY
  | P2P_STATE_TX_INFOR_NOREADY

datatype P2P_PS_STATE = P2P_PS_DISABLE | P2P_PS_ENABLE | P2P_PS_SCAN | P2P_PS_SCAN_DONE | P2P_PS_ALLSTASLEEP

datatype P2P_PS_MODE = P2P_PS_NONE | P2P_PS_CTWINDOW | P2P_PS_NOA | P2P_PS_MIX

record wifidirect_info =
  p2p_role :: P2P_ROLE
  p2p_state :: P2P_STATE
  p2p_ps_mode :: P2P_PS_MODE
  p2p_ps_state :: P2P_PS_STATE
  noa_index :: u8
  ctwindow :: u8
  opp_ps :: u8
  noa_num :: u8
  noa_count :: bytes
  noa_duration :: "u32 list"
  noa_interval :: "u32 list"
  noa_start_time :: "u32 list"

text \<open>The fields of the byte \<open>P2P_PS_Offload_t\<close>, from the low end.\<close>

definition Offload_En :: "u8 \<Rightarrow> u8 \<Rightarrow> u8" where "Offload_En = bits_to_byte 0 1"
definition offload_role :: "u8 \<Rightarrow> u8 \<Rightarrow> u8" where "offload_role = bits_to_byte 1 1"
definition CTWindow_En :: "u8 \<Rightarrow> u8 \<Rightarrow> u8" where "CTWindow_En = bits_to_byte 2 1"
definition NoA0_En :: "u8 \<Rightarrow> u8 \<Rightarrow> u8" where "NoA0_En = bits_to_byte 3 1"
definition NoA1_En :: "u8 \<Rightarrow> u8 \<Rightarrow> u8" where "NoA1_En = bits_to_byte 4 1"
definition AllStaSleep :: "u8 \<Rightarrow> u8 \<Rightarrow> u8" where "AllStaSleep = bits_to_byte 5 1"
definition offload_discovery :: "u8 \<Rightarrow> u8 \<Rightarrow> u8" where "offload_discovery = bits_to_byte 6 1"

text \<open>The registers of one notice of absence.\<close>

definition noa_descriptor :: "'h usb_host \<Rightarrow> wifidirect_info \<Rightarrow> nat \<Rightarrow> ('h, unit) io" where
  "noa_descriptor H w i = do {
     _ \<leftarrow> rtw_write8 H REG_NOA_DESC_SEL (push_bit 4 (of_nat i));
     _ \<leftarrow> rtw_write32 H REG_NOA_DESC_DURATION (noa_duration w ! i);
     _ \<leftarrow> rtw_write32 H REG_NOA_DESC_INTERVAL (noa_interval w ! i);
     _ \<leftarrow> rtw_write32 H REG_NOA_DESC_START (noa_start_time w ! i);
     _ \<leftarrow> rtw_write8 H REG_NOA_DESC_COUNT (noa_count w ! i);
     State_Monad.return () }"

fun noa_loop :: "'h usb_host \<Rightarrow> wifidirect_info \<Rightarrow> nat list \<Rightarrow> u8 \<Rightarrow> ('h, u8) io" where
  "noa_loop H w [] off = State_Monad.return off"
| "noa_loop H w (i # is) off = do {
     _ \<leftarrow> noa_descriptor H w i;
     noa_loop H w is (if i = 0 then NoA0_En 1 off else NoA1_En 1 off) }"

text \<open>The result is the byte sent, which the HAL keeps, and the state of Wi-Fi Direct.\<close>

definition p2p_ps_offload_byte ::
    "'h usb_host \<Rightarrow> wifidirect_info \<Rightarrow> u8 \<Rightarrow> P2P_PS_STATE \<Rightarrow> ('h, u8 \<times> wifidirect_info) io" where
  "p2p_ps_offload_byte H w off st =
     (case st of
        P2P_PS_DISABLE \<Rightarrow> State_Monad.return (0, w)
      | P2P_PS_ENABLE \<Rightarrow> do {
          off \<leftarrow> (if ctwindow w > 0
                 then do { _ \<leftarrow> rtw_write8 H REG_P2P_CTWIN (ctwindow w); State_Monad.return (CTWindow_En 1 off) }
                 else State_Monad.return off);
          off \<leftarrow> noa_loop H w [0..<unat (noa_num w)] off;
          if opp_ps w = 1 \<or> noa_num w > 0
          then do {
            _ \<leftarrow> rtw_write8 H REG_DUAL_TSF_RST 0x10;
            let off = Offload_En 1 off;
            let off = (if p2p_role w = P2P_ROLE_GO then AllStaSleep 0 (offload_role 1 off) else offload_role 0 off);
            State_Monad.return (offload_discovery 0 off, w) }
          else State_Monad.return (off, w) }
      | P2P_PS_SCAN \<Rightarrow> State_Monad.return (offload_discovery 1 off, w)
      | P2P_PS_SCAN_DONE \<Rightarrow> State_Monad.return (offload_discovery 0 off, w\<lparr>p2p_ps_state := P2P_PS_ENABLE\<rparr>)
      | P2P_PS_ALLSTASLEEP \<Rightarrow> State_Monad.return (off, w))"

definition rtl8188f_set_p2p_ps_offload_cmd ::
    "'h usb_host \<Rightarrow> fw_hal \<Rightarrow> wifidirect_info \<Rightarrow> u8 \<Rightarrow> P2P_PS_STATE \<Rightarrow> ('h, fw_hal \<times> wifidirect_info \<times> u8) io" where
  "rtl8188f_set_p2p_ps_offload_cmd H h w off st = do {
     (off, w) \<leftarrow> p2p_ps_offload_byte H w off st;
     h \<leftarrow> post_h2c H h H2C_8188F_P2P_PS_OFFLOAD [off];
     State_Monad.return (h, w, off) }"

end
