(* ===== verification/Ps_Box.thy ===== *)
theory Ps_Box
  imports Ps_Mail
begin

text \<open>
  What the firmware finds in the mailboxes: a command is posted only into a box whose flag has been
  seen clear, the extension before the box, and both together hold the number and the parameters of
  the command; the boxes are used in turn.
\<close>

section \<open>Transfers\<close>

lemma answered_write32:
  "answering H \<Longrightarrow> \<not> RTW_CANNOT_IO d \<Longrightarrow> run_state (rtw_write32 H a x) d = (True, served H False (ucast a) (le32_bytes x) d)"
  by (simp add: rtw_write32_def vendorreq_answered MAX_VENDOR_REQ_CMD_SIZE_def RTW_STATUS_CODE_def Let_def)

lemma served_kept [simp]:
  "io_log (served H False v b d) = io_log d @ [Ctl False v b (int (length b))]"
  "bSurpriseRemoved (served H rd v b d) = bSurpriseRemoved d" "RTW_CANNOT_IO (served H rd v b d) = RTW_CANNOT_IO d"
  by (simp_all add: served_def RTW_CANNOT_IO_def)

lemma served_read8:
  assumes "host_ok H"
  shows "io_log (served H True v [0] d) = io_log d @ [Ctl True v [reply H True v [0] (udev d) ! 0] 1]"
proof -
  have "length (reply H True v [0] (udev d)) = length ([0] :: bytes)"
    using assms unfolding host_ok_def reply_def by blast
  then have "reply H True v [0] (udev d) = [reply H True v [0] (udev d) ! 0]"
    by (cases "reply H True v [0] (udev d)") auto
  then show ?thesis by (simp add: served_def)
qed

lemma delay_kept [simp]:
  "io_log (snd (run_state (rtw_udelay_os H us) d)) = io_log d"
  "RTW_CANNOT_IO (snd (run_state (rtw_udelay_os H us) d)) = RTW_CANNOT_IO d"
  "bSurpriseRemoved (snd (run_state (rtw_udelay_os H us) d)) = bSurpriseRemoved d"
  by (simp_all add: rtw_udelay_os_def RTW_CANNOT_IO_def)

lemma byte_end: "\<not> bit (w :: u8) (8 + n)" "\<not> bit (w :: u8) (16 + n)" "\<not> bit (w :: u8) (24 + n)"
  by (auto dest: bit_imp_le_length)

lemma le32_bytes_read:
  "le32_bytes (le32_read [a, b, c, d]) = [a, b, c, d]"
  by (auto simp: le32_bytes_def le32_read_def bit_simps byte_end intro!: bit_word_eqI)

section \<open>The words of a command\<close>

definition padded :: "nat \<Rightarrow> bytes \<Rightarrow> bytes" where
  "padded n p = p @ replicate (n - length p) 0"

lemma length_padded [simp]: "length p \<le> n \<Longrightarrow> length (padded n p) = n"
  by (simp add: padded_def)

lemma short_list_cases:
  assumes "length q \<le> 4"
  obtains "q = []" | a where "q = [a]" | a b where "q = [a, b]" | a b c where "q = [a, b, c]"
    | a b c d where "q = [a, b, c, d]"
proof (cases q rule: remdups_adj.cases)
  case (3 a b xs)
  then show thesis using assms that(3,4,5) by (cases xs rule: remdups_adj.cases) auto
qed (use that in auto)

lemma box_bytes: "le32_bytes (h2c_cmd_word e p) = e # padded 3 (take 3 p)"
proof -
  have "length (take 3 p) \<le> 3" by simp
  moreover have "length (take 3 p) \<le> 4" by simp
  ultimately show ?thesis
    by (rule_tac short_list_cases [of "take 3 p"])
      (auto simp: h2c_cmd_word_def memcpy_at_def padded_def le32_bytes_read eval_nat_numeral dest: arg_cong [of _ _ length])
qed

lemma ex_bytes:
  assumes "length p \<le> 7"
  shows "le32_bytes (h2c_ex_word p) = padded 4 (drop 3 p)"
proof -
  have "length (drop 3 p) \<le> 4" using assms by simp
  then show ?thesis
    by (rule short_list_cases) (simp_all add: h2c_ex_word_def memcpy_at_def padded_def le32_bytes_read eval_nat_numeral)
qed

section \<open>Posting a command\<close>

definition flag_read :: "u8 \<Rightarrow> ctl_event" where
  "flag_read v = Ctl True 0x1CC [v] 1"

definition box_write :: "nat \<Rightarrow> u8 \<Rightarrow> bytes \<Rightarrow> ctl_event list" where
  "box_write n e p =
     (if length p > 3 then [Ctl False (0x1F0 + 4 * of_nat n) (padded 4 (drop 3 p)) 4] else []) @
     [Ctl False (0x1D0 + 4 * of_nat n) (e # padded 3 (take 3 p)) 4]"

text \<open>The flags \<open>vs\<close> as they are read while waiting for box \<open>n\<close>, with the result.\<close>

definition waits :: "nat \<Rightarrow> nat \<Rightarrow> u8 list \<Rightarrow> bool \<Rightarrow> bool" where
  "waits k n vs ok \<longleftrightarrow> vs \<noteq> [] \<and> length vs \<le> Suc k \<and> (\<forall>v\<in>set (butlast vs). bit v n) \<and>
     (if ok then \<not> bit (last vs) n else bit (last vs) n \<and> length vs = Suc k)"

lemma waits_simps [simp]:
  "waits k n [v] ok \<longleftrightarrow> (if ok then \<not> bit v n else bit v n \<and> k = 0)"
  "waits (Suc k) n (v # w # vs) ok \<longleftrightarrow> bit v n \<and> waits k n (w # vs) ok"
  by (auto simp: waits_def)

lemma fw_read_wait_run:
  assumes "host_ok H" and "answering H" and "\<not> RTW_CANNOT_IO d"
  shows "\<exists>vs ok d'. run_state (fw_read_wait k H n) d = (ok, d') \<and> waits k (unat n) vs ok \<and>
     io_log d' = io_log d @ map flag_read vs \<and> \<not> RTW_CANNOT_IO d' \<and> bSurpriseRemoved d' = bSurpriseRemoved d"
  using assms(3)
proof (induction k arbitrary: d)
  case (0 d)
  let ?v = "reply H True 0x1CC [0] (udev d) ! 0"
  show ?case
    using 0 answered_read8 [OF assms(2) 0, of REG_HMETFR] served_read8 [OF assms(1), of "0x1CC" d]
    by (intro exI [of _ "[?v]"])
      (auto simp: fw_read_wait.simps [of 0] rtw_msleep_os_def flag_read_def REG_HMETFR_def case_prod_beta bit_iff_and_push_bit_not_eq_0)
next
  case (Suc k d)
  let ?v = "reply H True 0x1CC [0] (udev d) ! 0"
  let ?d1 = "served H True 0x1CC [0] d"
  let ?d2 = "snd (run_state (rtw_udelay_os H 1000) ?d1)"
  have r: "run_state (rtw_read8 H REG_HMETFR) d = (?v, ?d1)"
    using answered_read8 [OF assms(2) Suc.prems, of REG_HMETFR] by (simp add: REG_HMETFR_def)
  have l1: "io_log ?d1 = io_log d @ [flag_read ?v]"
    using served_read8 [OF assms(1)] by (simp add: flag_read_def)
  show ?case
  proof (cases "bit ?v (unat n)")
    case False
    then show ?thesis
      using Suc.prems r l1
      by (intro exI [of _ "[?v]"]) (auto simp: fw_read_wait.simps [of "Suc k"] bit_iff_and_push_bit_not_eq_0)
  next
    case True
    have "\<not> RTW_CANNOT_IO ?d2" using Suc.prems by simp
    from Suc.IH [OF this] obtain vs ok d' where IH: "run_state (fw_read_wait k H n) ?d2 = (ok, d')"
        "waits k (unat n) vs ok" "io_log d' = io_log ?d2 @ map flag_read vs" "\<not> RTW_CANNOT_IO d'"
        "bSurpriseRemoved d' = bSurpriseRemoved ?d2" by blast
    obtain w ws where vs: "vs = w # ws" using IH(2) by (cases vs) (auto simp: waits_def)
    have "run_state (fw_read_wait (Suc k) H n) d = (ok, d')"
      using r True IH(1) by (simp add: fw_read_wait.simps [of "Suc k"] rtw_msleep_os_def case_prod_beta bit_iff_and_push_bit_not_eq_0)
    then show ?thesis using True IH(2-5) l1 vs by (intro exI [of _ "?v # vs"]) auto
  qed
qed

lemma box_number: "b < (4 :: u8) \<Longrightarrow> b = 0 \<or> b = 1 \<or> b = 2 \<or> b = 3"
  by (auto simp: word_less_nat_alt word_unat_eq_iff)

lemma box_address:
  assumes "b < (4 :: u8)"
  shows "ucast (REG_HMEBOX_0 + ucast b * MESSAGE_BOX_SIZE) = (0x1D0 + 4 * of_nat (unat b) :: u16)"
    "ucast (REG_HMEBOX_EXT0_8188F + ucast b * RTL8188F_EX_MESSAGE_BOX_SIZE) = (0x1F0 + 4 * of_nat (unat b) :: u16)"
  using box_number [OF assms] by (auto simp: box_regs)

lemma box_writes_run:
  assumes "answering H" and "\<not> RTW_CANNOT_IO d" and "b < (4 :: u8)" and "length p \<le> 7"
  shows "\<exists>d'. run_state (write_h2c_box H b e p) d = ((), d') \<and> io_log d' = io_log d @ box_write (unat b) e p \<and>
     \<not> RTW_CANNOT_IO d'"
  using assms box_address [OF assms(3)]
  by (auto simp: write_h2c_box_def answered_write32 box_write_def box_bytes ex_bytes)

text \<open>What posting a command amounts to, with the device still there.\<close>

lemma post_run:
  assumes "host_ok H" and "answering H" and "\<not> RTW_CANNOT_IO d"
    and "LastHMEBoxNum h < 4" and "length p \<le> 7"
  shows "\<exists>vs ok d'. run_state (FillH2CCmd8188F H h e (Some p)) d =
       ((ok, if ok then h\<lparr>LastHMEBoxNum := (LastHMEBoxNum h + 1) mod 4\<rparr> else h), d') \<and>
     waits 100 (unat (LastHMEBoxNum h)) vs ok \<and>
     io_log d' = io_log d @ map flag_read vs @ (if ok then box_write (unat (LastHMEBoxNum h)) e p else []) \<and> \<not> RTW_CANNOT_IO d'"
proof -
  let ?b = "LastHMEBoxNum h"
  obtain vs ok d1 where w: "run_state (fw_read_wait 100 H ?b) d = (ok, d1)" "waits 100 (unat ?b) vs ok"
      "io_log d1 = io_log d @ map flag_read vs" "\<not> RTW_CANNOT_IO d1"
    using fw_read_wait_run [OF assms(1-3)] by blast
  obtain d2 where p: "run_state (write_h2c_box H ?b e p) d1 = ((), d2)" "io_log d2 = io_log d1 @ box_write (unat ?b) e p"
      "\<not> RTW_CANNOT_IO d2"
    using box_writes_run [OF assms(2) w(4) assms(4,5)] by blast
  have "\<not> bSurpriseRemoved d" "\<not> length p > RTL8188F_MAX_CMD_LEN"
    using assms(3,5) by (simp_all add: RTW_CANNOT_IO_def RTL8188F_MAX_CMD_LEN_def)
  then have "run_state (FillH2CCmd8188F H h e (Some p)) d =
      (if ok then ((True, h\<lparr>LastHMEBoxNum := (?b + 1) mod 4\<rparr>), d2) else ((False, h), d1))"
    using w(1) p(1) by (simp add: FillH2CCmd8188F_def is_fw_read_cmd_down_def MAX_H2C_BOX_NUMS_def Let_def)
  then show ?thesis
    using w(2-4) p(2,3) by (cases ok) (simp_all, blast+)
qed

text \<open>
  C7: A command is posted only into a box whose flag has been read clear; then the extension (for
  more than three bytes) is written before the box, together they are the number of the command and
  its parameters, padded with zeros, and the next command goes to the next of the four boxes. When the
  flag stays set, 101 reads are made and nothing is written.
\<close>

theorem h2c_posted:
  assumes "host_ok H" and "answering H" and "\<not> RTW_CANNOT_IO d"
    and "LastHMEBoxNum h < 4" and "length p \<le> 7"
  shows "\<exists>vs ok d'. run_state (FillH2CCmd8188F H h e (Some p)) d =
       ((ok, if ok then h\<lparr>LastHMEBoxNum := (LastHMEBoxNum h + 1) mod 4\<rparr> else h), d') \<and>
     waits 100 (unat (LastHMEBoxNum h)) vs ok \<and>
     io_log d' = io_log d @ map flag_read vs @ (if ok then box_write (unat (LastHMEBoxNum h)) e p else [])"
  using post_run [OF assms, of e] by blast

definition fw_hal_ex :: fw_hal where
  "fw_hal_ex = \<lparr>FirmwareVersion = 1, FirmwareSubVersion = 0, FirmwareSignature = 0x88F1, bFWReady = True,
     bFwCurrentInPSMode = False, LastHMEBoxNum = 3\<rparr>"

theorem h2c_posted_witness:
  "\<exists>vs ok d'. run_state (FillH2CCmd8188F echo_host fw_hal_ex 0x20 (Some [1, 0x21, 2, 0, 0, 0x40, 0])) (usb_dev_ex ()) =
       ((ok, if ok then fw_hal_ex\<lparr>LastHMEBoxNum := 0\<rparr> else fw_hal_ex), d') \<and>
     waits 100 3 vs ok \<and>
     io_log d' = map flag_read vs @ (if ok then [Ctl False 0x1FC [0, 0, 0x40, 0] 4, Ctl False 0x1DC [0x20, 1, 0x21, 2] 4] else [])"
proof -
  have a: "host_ok echo_host" "answering echo_host" "\<not> RTW_CANNOT_IO (usb_dev_ex ())"
    by (simp_all add: host_ok_def answering_def echo_host_def usb_dev_ex_def RTW_CANNOT_IO_def)
  have n: "LastHMEBoxNum fw_hal_ex = 3" "unat (3 :: u8) = 3" "(3 + 1 :: u8) mod 4 = 0" "(3 :: u8) < 4"
      "io_log (usb_dev_ex ()) = []" by (simp_all add: fw_hal_ex_def usb_dev_ex_def)
  have b: "box_write 3 0x20 [1, 0x21, 2, 0, 0, 0x40, 0] = [Ctl False 0x1FC [0, 0, 0x40, 0] 4, Ctl False 0x1DC [0x20, 1, 0x21, 2] 4]"
    by (simp add: box_write_def padded_def)
  have "LastHMEBoxNum fw_hal_ex < 4" "length [1, 0x21, 2, 0, 0, 0x40, 0 :: u8] \<le> 7" by (simp_all add: n)
  from h2c_posted [OF a this, of "0x20"] show ?thesis unfolding n b append_Nil .
qed

section \<open>The fields of the power mode\<close>

text \<open>What the firmware reads back out of the parameters of the command that sets the mode.\<close>

lemma nibbles: "bits_to_byte 0 4 r (bits_to_byte 4 4 s 0) AND 0x0F = r AND 0x0F"
  "drop_bit 4 (bits_to_byte 0 4 r (bits_to_byte 4 4 s 0)) = s AND 0x0F"
proof -
  have m: "(0x0F :: u8) = mask 4" by (simp add: mask_eq_exp_minus_1)
  show "bits_to_byte 0 4 r (bits_to_byte 4 4 s 0) AND 0x0F = r AND 0x0F"
    unfolding m by (rule bit_word_eqI) (auto simp: bits_to_byte_def bit_simps)
  show "drop_bit 4 (bits_to_byte 0 4 r (bits_to_byte 4 4 s 0)) = s AND 0x0F"
    unfolding m by (rule bit_word_eqI) (auto simp: bits_to_byte_def bit_simps)
qed

lemma psmode_timing_bounds: "psmode_timing m d p w = (r, a) \<Longrightarrow> r \<le> 2 \<and> 2 \<le> a \<and> a \<le> 16"
  by (auto simp: psmode_timing_def Let_def word_le_nat_alt word_less_nat_alt unat_word_ariths split: if_splits)

lemma FwPwrMode_fields:
  assumes "psmode_timing m dt p2p spec = (r, a)"
  shows "length (FwPwrMode_parm m sps dt p2p spec u) = 7"
    "FwPwrMode_parm m sps dt p2p spec u ! 0 = (if m > 0 then 1 else 0)"
    "FwPwrMode_parm m sps dt p2p spec u ! 1 AND 0x0F = r"
    "drop_bit 4 (FwPwrMode_parm m sps dt p2p spec u ! 1) = sps AND 0x0F"
    "FwPwrMode_parm m sps dt p2p spec u ! 2 = a"
    "FwPwrMode_parm m sps dt p2p spec u ! 4 = (if m > 0 then 0 else 0x0C)"
proof -
  have r: "r = 0 \<or> r = 1 \<or> r = 2" using psmode_timing_bounds [OF assms] by (auto simp: word_le_nat_alt word_unat_eq_iff)
  then have "r AND 0x0F = r" by auto
  then show "length (FwPwrMode_parm m sps dt p2p spec u) = 7"
    "FwPwrMode_parm m sps dt p2p spec u ! 0 = (if m > 0 then 1 else 0)"
    "FwPwrMode_parm m sps dt p2p spec u ! 1 AND 0x0F = r"
    "drop_bit 4 (FwPwrMode_parm m sps dt p2p spec u ! 1) = sps AND 0x0F"
    "FwPwrMode_parm m sps dt p2p spec u ! 2 = a"
    "FwPwrMode_parm m sps dt p2p spec u ! 4 = (if m > 0 then 0 else 0x0C)"
    using assms nibbles [of r sps]
    by (simp_all add: FwPwrMode_parm_def SET_BITS_def bits_to_byte_def [of 0 8] split: prod.splits)
qed

end
