(* ===== verification/Ps_State.thy ===== *)
theory Ps_State
  imports Ps_Box
begin

text \<open>
  The state of power saving: \<open>struct pwrctrl_priv\<close> (\<open>include/rtw_pwrctrl.h\<close>) with what
  the code reads of the adapter, the queue of commands it sends to its own thread, and the requests
  it makes of the HAL (\<open>rtw_hal_set_hwreg\<close> for this chip).
\<close>

section \<open>State\<close>

datatype rt_rf_power_state = rf_on | rf_sleep | rf_off

definition IPS_NONE :: u8 where "IPS_NONE = 0"
definition IPS_NORMAL :: u8 where "IPS_NORMAL = 1"
definition IPS_LEVEL_2 :: u8 where "IPS_LEVEL_2 = 2"

definition PS_STATE_S0 :: u8 where "PS_STATE_S0 = 0x1"
definition PS_STATE_S2 :: u8 where "PS_STATE_S2 = 0x2"
definition PS_STATE_S4 :: u8 where "PS_STATE_S4 = 0xC"

lemmas ps_levels = PS_STATE_S0_def PS_STATE_S2_def PS_STATE_S4_def

text \<open>
  \<open>bFwCurrentInPSMode\<close> is in the record \<open>fw_hal\<close>, which the download of the firmware resets.
  The interval of the check is an \<open>int\<close> of the source.
\<close>

record pwrctrl_priv =
  rpwm :: u8
  cpwm :: u8
  tog :: u8
  pwr_mode :: u8
  smart_ps :: u8
  bcn_ant_mode :: u8
  dtim :: u8
  bpower_saving :: bool
  ips_enter_cnts :: u32
  ips_leave_cnts :: u32
  lps_enter_cnts :: u32
  lps_leave_cnts :: u32
  ips_mode :: u8
  ips_mode_req :: u8
  bips_processing :: bool
  ips_deny_time :: u32
  ps_deny :: u32
  ps_processing :: bool
  bLeisurePs :: bool
  LpsIdleCount :: u8
  power_mgnt :: u8
  DelayLPSLastTimeStamp :: u32
  bInternalAutoSuspend :: bool
  bInSuspend :: bool
  pwr_state_check_interval :: u32
  pwr_state_check_cnts :: u8
  rf_pwrstate :: rt_rf_power_state
  change_rfpwrstate :: rt_rf_power_state
  bkeepfwalive :: bool
  bHWPwrPindetect :: bool
  bHWPowerdown :: bool
  wowlan_mode :: bool
  wowlan_ap_mode :: bool
  wowlan_p2p_mode :: bool

record link_detect =
  NumTxOkInPeriod :: u32
  NumRxOkInPeriod :: u32
  NumRxUnicastOkInPeriod :: u32
  bBusyTraffic :: bool
  bTxBusyTraffic :: bool
  bRxBusyTraffic :: bool
  bHigherBusyTraffic :: bool
  bHigherBusyRxTraffic :: bool
  bHigherBusyTxTraffic :: bool
  TrafficTransitionCount :: u8
  LowPowerTransitionCount :: u32

datatype LPS_CTRL_TYPE = LPS_CTRL_SCAN | LPS_CTRL_JOINBSS | LPS_CTRL_CONNECT | LPS_CTRL_DISCONNECT
  | LPS_CTRL_SPECIAL_PACKET | LPS_CTRL_LEAVE | LPS_CTRL_TRAFFIC_BUSY | LPS_CTRL_TX_TRAFFIC_LEAVE
  | LPS_CTRL_RX_TRAFFIC_LEAVE | LPS_CTRL_ENTER | LPS_CTRL_LEAVE_CFG80211_PWRMGMT

text \<open>The commands of this component in the queue of the command thread.\<close>

datatype ps_cmd = POWER_SAVING_CTRL_WK | LPS_CTRL_WK LPS_CTRL_TYPE | P2P_PS_WK P2P_PS_STATE
  | LPS_CHANGE_DTIM u8 | DM_IN_LPS_WK

text \<open>
  Calls of code that is not modelled. What such a call does to the registers is not part of the
  log of transfers.
\<close>

datatype ps_call = ODM_RF_Saving | ODM_DMReset | rtw_hal_def_value_init | fifo_clean_up | intf_start | intf_stop
  | rtw_led_control string | rtw_sec_restore_wep_key | init_hw_mlme_ext | rtw_hal_init_opmode | rtw_bb_rf_gain_offset
  | rtl8188f_download_rsvd_page | mlmeext_set_scan_state | rtw_set_signal_stat_timer | session_tracker_chk
  | rtw_lock_traffic_suspend | dm_in_lps | notch_filter

record 'h ps_sys =
  ps_dev :: "'h usb_dev"
  ps_hal :: fw_hal
  bMacPwrCtrlOn :: bool
  hw_init_completed :: bool
  p2p_ps_offload :: u8
  pwrctl :: pwrctrl_priv
  wdinfo :: wifidirect_info
  LinkDetectInfo :: link_detect
  bDriverStopped :: bool
  bup :: bool
  net_closed :: bool
  bLinkInfoDump :: u8
  fw_state :: u32
  scan_deny :: bool
  is_ro_ch :: bool
  last_ro_ch_time :: u32
  auth_8021X :: bool
  binstallGrpkey :: bool
  power_mgmt :: bool
  tx_pkts :: u64
  rx_pkts :: u64
  free_xmitbuf_cnt :: u32
  free_xmit_extbuf_cnt :: u32
  reg_ips_mode :: u8
  reg_power_mgnt :: u8
  reg_smart_ps :: u8
  reg_uapsd_enable :: u8
  reg_mp_mode :: bool
  reg_wifi_spec :: bool
  reg_notch_filter :: bool
  pwr_state_check_timer :: "u32 option"
  dynamic_chk_timer :: "u32 option"
  cmdthd_running :: bool
  cmd_queue :: "ps_cmd list"
  ps_calls :: "ps_call list"

text \<open>
  The surroundings: the kernel; whether the two allocations of a command succeed; a sleep of so many
  milliseconds, during which other contexts may change the state; and \<open>HalFunc.hal_init\<close>.
\<close>

record 'h ps_env =
  env_host :: "'h usb_host"
  env_zmalloc :: "'h ps_sys \<Rightarrow> bool"
  env_msleep :: "nat \<Rightarrow> 'h ps_sys \<Rightarrow> 'h ps_sys"
  env_hal_init :: "'h ps_sys \<Rightarrow> bool \<times> 'h ps_sys"

section \<open>Access\<close>

text \<open>An operation on the device, and one that also changes the record of the firmware.\<close>

definition dev_op :: "('h, 'a) io \<Rightarrow> 'h ps_sys \<Rightarrow> 'a \<times> 'h ps_sys" where
  "dev_op m s = (case run_state m (ps_dev s) of (x, d) \<Rightarrow> (x, s\<lparr>ps_dev := d\<rparr>))"

definition hal_op :: "(fw_hal \<Rightarrow> ('h, fw_hal) io) \<Rightarrow> 'h ps_sys \<Rightarrow> 'h ps_sys" where
  "hal_op f s = (case dev_op (f (ps_hal s)) s of (h, s) \<Rightarrow> s\<lparr>ps_hal := h\<rparr>)"

definition upd_pwr :: "(pwrctrl_priv \<Rightarrow> pwrctrl_priv) \<Rightarrow> 'h ps_sys \<Rightarrow> 'h ps_sys" where
  "upd_pwr f s = s\<lparr>pwrctl := f (pwrctl s)\<rparr>"

definition upd_wdinfo :: "(wifidirect_info \<Rightarrow> wifidirect_info) \<Rightarrow> 'h ps_sys \<Rightarrow> 'h ps_sys" where
  "upd_wdinfo f s = s\<lparr>wdinfo := f (wdinfo s)\<rparr>"

definition ps_log :: "ps_call \<Rightarrow> 'h ps_sys \<Rightarrow> 'h ps_sys" where
  "ps_log c s = s\<lparr>ps_calls := ps_calls s @ [c]\<rparr>"

definition get_current_time :: "'h usb_host \<Rightarrow> 'h ps_sys \<Rightarrow> u32" where
  "get_current_time H s = jiffies H (udev (ps_dev s))"

definition ms_to_systime :: "'h usb_host \<Rightarrow> u32 \<Rightarrow> u32" where
  "ms_to_systime H ms = ms * of_nat (host_HZ H) div 1000"

definition passed_ms :: "'h usb_host \<Rightarrow> u32 \<Rightarrow> 'h ps_sys \<Rightarrow> int" where
  "passed_ms H start s = sint (passing_ms H start (ps_dev s))"

definition set_pwr_state_check_timer :: "'h ps_sys \<Rightarrow> 'h ps_sys" where
  "set_pwr_state_check_timer s = s\<lparr>pwr_state_check_timer := Some (pwr_state_check_interval (pwrctl s))\<rparr>"

section \<open>The state of the connection\<close>

definition WIFI_ASOC_STATE :: u32 where "WIFI_ASOC_STATE = 0x1"
definition WIFI_AP_STATE :: u32 where "WIFI_AP_STATE = 0x10"
definition WIFI_ADHOC_STATE :: u32 where "WIFI_ADHOC_STATE = 0x20"
definition WIFI_ADHOC_MASTER_STATE :: u32 where "WIFI_ADHOC_MASTER_STATE = 0x40"
definition WIFI_UNDER_LINKING :: u32 where "WIFI_UNDER_LINKING = 0x80"
definition WIFI_UNDER_WPS :: u32 where "WIFI_UNDER_WPS = 0x100"
definition WIFI_SITE_MONITOR :: u32 where "WIFI_SITE_MONITOR = 0x800"

lemmas fw_states = WIFI_ASOC_STATE_def WIFI_AP_STATE_def WIFI_ADHOC_STATE_def WIFI_ADHOC_MASTER_STATE_def
  WIFI_UNDER_LINKING_def WIFI_UNDER_WPS_def WIFI_SITE_MONITOR_def

definition check_fwstate :: "'h ps_sys \<Rightarrow> u32 \<Rightarrow> bool" where
  "check_fwstate s st \<longleftrightarrow> fw_state s AND st \<noteq> 0"

text \<open>The driver is built for one interface: the loop over the interfaces has one round.\<close>

definition n_assoc_iface :: "'h ps_sys \<Rightarrow> nat" where
  "n_assoc_iface s = (if check_fwstate s WIFI_ASOC_STATE then 1 else 0)"

section \<open>Requests of the HAL\<close>

definition REG_USB_HRPWM :: u32 where "REG_USB_HRPWM = 0xFE58"
definition REG_RCR :: u32 where "REG_RCR = 0x608"

definition set_hwreg_SET_RPWM :: "'h usb_host \<Rightarrow> u8 \<Rightarrow> 'h ps_sys \<Rightarrow> 'h ps_sys" where
  "set_hwreg_SET_RPWM H val s = snd (dev_op (rtw_write8 H REG_USB_HRPWM val) s)"

definition set_hwreg_H2C_FW_PWRMODE :: "'h usb_host \<Rightarrow> u8 \<Rightarrow> 'h ps_sys \<Rightarrow> 'h ps_sys" where
  "set_hwreg_H2C_FW_PWRMODE H psmode s =
     (let s = (if psmode \<noteq> PS_MODE_ACTIVE then ps_log ODM_RF_Saving s else s)
      in hal_op (\<lambda>h. rtl8188f_set_FwPwrMode_cmd H h (smart_ps (pwrctl s)) (dtim (pwrctl s))
                  (p2p_state (wdinfo s) \<noteq> P2P_STATE_NONE) (reg_wifi_spec s) (reg_uapsd_enable s) psmode) s)"

definition rtl8188f_set_FwJoinBssRpt_cmd :: "u8 \<Rightarrow> 'h ps_sys \<Rightarrow> 'h ps_sys" where
  "rtl8188f_set_FwJoinBssRpt_cmd mstatus s = (if mstatus = 1 then ps_log rtl8188f_download_rsvd_page s else s)"

definition set_hwreg_H2C_FW_P2P_PS_OFFLOAD :: "'h usb_host \<Rightarrow> P2P_PS_STATE \<Rightarrow> 'h ps_sys \<Rightarrow> 'h ps_sys" where
  "set_hwreg_H2C_FW_P2P_PS_OFFLOAD H st s =
     (case dev_op (rtl8188f_set_p2p_ps_offload_cmd H (ps_hal s) (wdinfo s) (p2p_ps_offload s) st) s of
        ((h, w, off), s) \<Rightarrow> s\<lparr>ps_hal := h, wdinfo := w, p2p_ps_offload := off\<rparr>)"

definition get_hwreg_FWLPS_RF_ON :: "'h usb_host \<Rightarrow> 'h ps_sys \<Rightarrow> bool \<times> 'h ps_sys" where
  "get_hwreg_FWLPS_RF_ON H s =
     (if bSurpriseRemoved (ps_dev s) \<or> rf_pwrstate (pwrctl s) = rf_off then (True, s)
      else (case dev_op (rtw_read32 H REG_RCR) s of (valRCR, s) \<Rightarrow> (valRCR AND 0x00070000 = 0, s)))"

section \<open>The queue of commands\<close>

text \<open>\<open>rtw_cmd_filter\<close> for the commands of this component, none of which is marked \<open>no_io\<close>.\<close>

definition rtw_cmd_filter :: "'h ps_sys \<Rightarrow> bool" where
  "rtw_cmd_filter s \<longleftrightarrow> hw_init_completed s \<and> cmdthd_running s"

definition rtw_enqueue_cmd :: "ps_cmd \<Rightarrow> 'h ps_sys \<Rightarrow> bool \<times> 'h ps_sys" where
  "rtw_enqueue_cmd c s = (if \<not> rtw_cmd_filter s then (False, s) else (True, s\<lparr>cmd_queue := cmd_queue s @ [c]\<rparr>))"

text \<open>What the functions \<open>rtw_..._cmd\<close> have in common: allocate, fill in, enqueue.\<close>

definition alloc_and_enqueue :: "'h ps_env \<Rightarrow> ps_cmd \<Rightarrow> 'h ps_sys \<Rightarrow> bool \<times> 'h ps_sys" where
  "alloc_and_enqueue E c s = (if \<not> env_zmalloc E s then (False, s) else rtw_enqueue_cmd c s)"

definition rtw_ps_cmd :: "'h ps_env \<Rightarrow> 'h ps_sys \<Rightarrow> bool \<times> 'h ps_sys" where
  "rtw_ps_cmd E s = alloc_and_enqueue E POWER_SAVING_CTRL_WK s"

definition rtw_dm_in_lps_wk_cmd :: "'h ps_env \<Rightarrow> 'h ps_sys \<Rightarrow> bool \<times> 'h ps_sys" where
  "rtw_dm_in_lps_wk_cmd E s = alloc_and_enqueue E DM_IN_LPS_WK s"

definition rtw_lps_change_dtim_cmd :: "'h ps_env \<Rightarrow> u8 \<Rightarrow> 'h ps_sys \<Rightarrow> bool \<times> 'h ps_sys" where
  "rtw_lps_change_dtim_cmd E d s = alloc_and_enqueue E (LPS_CHANGE_DTIM d) s"

definition rtw_dm_in_lps_hdl :: "'h ps_sys \<Rightarrow> 'h ps_sys" where
  "rtw_dm_in_lps_hdl s = ps_log dm_in_lps s"

text \<open>The handler of the timer; the timer is then no longer armed.\<close>

definition pwr_state_check_handler :: "'h ps_env \<Rightarrow> 'h ps_sys \<Rightarrow> 'h ps_sys" where
  "pwr_state_check_handler E s = snd (rtw_ps_cmd E (s\<lparr>pwr_state_check_timer := None\<rparr>))"

section \<open>Initialisation and reasons to refrain\<close>

definition RTW_PWR_STATE_CHK_INTERVAL :: u32 where "RTW_PWR_STATE_CHK_INTERVAL = 2000"

definition rtw_init_pwrctrl_priv :: "'h ps_sys \<Rightarrow> 'h ps_sys" where
  "rtw_init_pwrctrl_priv s =
     (let pm = (if reg_mp_mode s then PS_MODE_ACTIVE else reg_power_mgnt s)
      in upd_pwr (\<lambda>p. p\<lparr>rf_pwrstate := rf_on, ips_enter_cnts := 0, ips_leave_cnts := 0, lps_enter_cnts := 0,
           lps_leave_cnts := 0, bips_processing := False, ips_mode := reg_ips_mode s, ips_mode_req := reg_ips_mode s,
           pwr_state_check_interval := RTW_PWR_STATE_CHK_INTERVAL, pwr_state_check_cnts := 0,
           bInternalAutoSuspend := False, bInSuspend := False, bkeepfwalive := False, LpsIdleCount := 0,
           power_mgnt := pm, bLeisurePs := PS_MODE_ACTIVE \<noteq> pm, rpwm := 0, cpwm := PS_STATE_S4,
           pwr_mode := PS_MODE_ACTIVE, smart_ps := reg_smart_ps s, bcn_ant_mode := 0, dtim := 0, tog := 0x80,
           wowlan_mode := False, wowlan_ap_mode := False, wowlan_p2p_mode := False\<rparr>)
         (s\<lparr>ps_hal := (ps_hal s)\<lparr>bFwCurrentInPSMode := False\<rparr>, pwr_state_check_timer := None\<rparr>))"

text \<open>The last two reasons have the same number.\<close>

datatype PS_DENY_REASON = PS_DENY_DRV_INITIAL | PS_DENY_SCAN | PS_DENY_JOIN | PS_DENY_DISCONNECT | PS_DENY_SUSPEND
  | PS_DENY_IOCTL | PS_DENY_MGNT_TX | PS_DENY_DRV_REMOVE | PS_DENY_MONITOR_MODE | PS_DENY_OTHERS

fun deny_bit :: "PS_DENY_REASON \<Rightarrow> nat" where
  "deny_bit PS_DENY_DRV_INITIAL = 0"
| "deny_bit PS_DENY_SCAN = 1"
| "deny_bit PS_DENY_JOIN = 2"
| "deny_bit PS_DENY_DISCONNECT = 3"
| "deny_bit PS_DENY_SUSPEND = 4"
| "deny_bit PS_DENY_IOCTL = 5"
| "deny_bit PS_DENY_MGNT_TX = 6"
| "deny_bit PS_DENY_DRV_REMOVE = 30"
| "deny_bit PS_DENY_MONITOR_MODE = 31"
| "deny_bit PS_DENY_OTHERS = 31"

definition rtw_ps_deny :: "PS_DENY_REASON \<Rightarrow> 'h ps_sys \<Rightarrow> 'h ps_sys" where
  "rtw_ps_deny reason = upd_pwr (\<lambda>p. p\<lparr>ps_deny := ps_deny p OR push_bit (deny_bit reason) 1\<rparr>)"

definition rtw_ps_deny_cancel :: "PS_DENY_REASON \<Rightarrow> 'h ps_sys \<Rightarrow> 'h ps_sys" where
  "rtw_ps_deny_cancel reason = upd_pwr (\<lambda>p. p\<lparr>ps_deny := ps_deny p AND NOT (push_bit (deny_bit reason) 1)\<rparr>)"

definition rtw_ps_deny_get :: "'h ps_sys \<Rightarrow> u32" where
  "rtw_ps_deny_get s = ps_deny (pwrctl s)"

definition rtw_set_ips_deny :: "'h usb_host \<Rightarrow> u32 \<Rightarrow> 'h ps_sys \<Rightarrow> 'h ps_sys" where
  "rtw_set_ips_deny H ms s = upd_pwr (\<lambda>p. p\<lparr>ips_deny_time := get_current_time H s + ms_to_systime H ms\<rparr>) s"

section \<open>An example\<close>

text \<open>A connected station, initialised, whose chip answers and echoes, with the modes as configured.\<close>

definition pwrctrl_ex :: pwrctrl_priv where
  "pwrctrl_ex = \<lparr>rpwm = 0, cpwm = PS_STATE_S4, tog = 0x80, pwr_mode = PS_MODE_ACTIVE, smart_ps = 2, bcn_ant_mode = 0,
     dtim = 0, bpower_saving = False, ips_enter_cnts = 0, ips_leave_cnts = 0, lps_enter_cnts = 0, lps_leave_cnts = 0,
     ips_mode = IPS_NORMAL, ips_mode_req = IPS_NORMAL, bips_processing = False, ips_deny_time = 0, ps_deny = 0,
     ps_processing = False, bLeisurePs = True, LpsIdleCount = 0, power_mgnt = PS_MODE_MIN,
     DelayLPSLastTimeStamp = - 1000, bInternalAutoSuspend = False, bInSuspend = False,
     pwr_state_check_interval = 2000, pwr_state_check_cnts = 0, rf_pwrstate = rf_on, change_rfpwrstate = rf_on,
     bkeepfwalive = False, bHWPwrPindetect = False, bHWPowerdown = False, wowlan_mode = False,
     wowlan_ap_mode = False, wowlan_p2p_mode = False\<rparr>"

definition wdinfo_ex :: wifidirect_info where
  "wdinfo_ex = \<lparr>p2p_role = P2P_ROLE_CLIENT, p2p_state = P2P_STATE_GONEGO_OK, p2p_ps_mode = P2P_PS_NONE,
     p2p_ps_state = P2P_PS_DISABLE, noa_index = 0, ctwindow = 0, opp_ps = 0, noa_num = 0, noa_count = [0, 0],
     noa_duration = [0, 0], noa_interval = [0, 0], noa_start_time = [0, 0]\<rparr>"

definition link_ex :: link_detect where
  "link_ex = \<lparr>NumTxOkInPeriod = 0, NumRxOkInPeriod = 0, NumRxUnicastOkInPeriod = 0, bBusyTraffic = False,
     bTxBusyTraffic = False, bRxBusyTraffic = False, bHigherBusyTraffic = False, bHigherBusyRxTraffic = False,
     bHigherBusyTxTraffic = False, TrafficTransitionCount = 0, LowPowerTransitionCount = 0\<rparr>"

definition ps_at :: "'h \<Rightarrow> 'h ps_sys" where
  "ps_at h = \<lparr>ps_dev = usb_dev_ex h, ps_hal = fw_hal_ex, bMacPwrCtrlOn = True, hw_init_completed = True,
     p2p_ps_offload = 0, pwrctl = pwrctrl_ex, wdinfo = wdinfo_ex, LinkDetectInfo = link_ex, bDriverStopped = False,
     bup = True, net_closed = False, bLinkInfoDump = 0, fw_state = WIFI_ASOC_STATE, scan_deny = False, is_ro_ch = False,
     last_ro_ch_time = 0, auth_8021X = False, binstallGrpkey = True, power_mgmt = True, tx_pkts = 0, rx_pkts = 0,
     free_xmitbuf_cnt = 4, free_xmit_extbuf_cnt = 32, reg_ips_mode = IPS_NORMAL, reg_power_mgnt = PS_MODE_MIN,
     reg_smart_ps = 2, reg_uapsd_enable = 0, reg_mp_mode = False, reg_wifi_spec = False, reg_notch_filter = False,
     pwr_state_check_timer = Some 2000, dynamic_chk_timer = Some 2000, cmdthd_running = True, cmd_queue = [],
     ps_calls = []\<rparr>"

abbreviation ps_ex :: "unit ps_sys" where "ps_ex \<equiv> ps_at ()"

definition ps_env_ex :: "unit ps_env" where
  "ps_env_ex = \<lparr>env_host = echo_host, env_zmalloc = (\<lambda>_. True), env_msleep = (\<lambda>_ s. s), env_hal_init = (\<lambda>s. (True, s))\<rparr>"

end
