(* ===== verification/Ps_Lps.thy ===== *)
theory Ps_Lps
  imports Ps_State
begin

text \<open>
  Leisure power save (\<open>core/rtw_pwrctrl.c\<close>, \<open>core/rtw_cmd.c\<close>, \<open>core/rtw_p2p.c\<close>): the
  firmware sleeps between beacons of an access point. The request register (RPWM), the mode with the
  commands to the firmware, entering and leaving, the commands that ask for it, and the watchdog
  that decides by the traffic.
\<close>

section \<open>The request register\<close>

definition rtw_set_rpwm :: "'h usb_host \<Rightarrow> u8 \<Rightarrow> 'h ps_sys \<Rightarrow> 'h ps_sys" where
  "rtw_set_rpwm H level s =
     (let pslv = 0x0F AND level
      in if rpwm (pwrctl s) = pslv then s
         else if bSurpriseRemoved (ps_dev s) \<or> \<not> hw_init_completed s
         then upd_pwr (\<lambda>p. p\<lparr>cpwm := PS_STATE_S4\<rparr>) s
         else if bDriverStopped s \<and> pslv < PS_STATE_S2 then s
         else
           (let rpwm_val = pslv OR tog (pwrctl s);
                s = upd_pwr (\<lambda>p. p\<lparr>rpwm := pslv\<rparr>) s;
                s = set_hwreg_SET_RPWM H rpwm_val s;
                s = upd_pwr (\<lambda>p. p\<lparr>tog := tog p + 0x80\<rparr>) s
            in upd_pwr (\<lambda>p. p\<lparr>cpwm := pslv\<rparr>) s))"

section \<open>Power saving of Wi-Fi Direct\<close>

definition p2p_ps_wk_hdl :: "'h usb_host \<Rightarrow> P2P_PS_STATE \<Rightarrow> 'h ps_sys \<Rightarrow> 'h ps_sys" where
  "p2p_ps_wk_hdl H st s =
     (case st of
        P2P_PS_DISABLE \<Rightarrow>
          (let s = upd_wdinfo (\<lambda>w. w\<lparr>p2p_ps_state := st\<rparr>) s;
               s = set_hwreg_H2C_FW_P2P_PS_OFFLOAD H st s;
               s = upd_wdinfo (\<lambda>w. w\<lparr>noa_index := 0, ctwindow := 0, opp_ps := 0, noa_num := 0, p2p_ps_mode := P2P_PS_NONE\<rparr>) s
           in if bFwCurrentInPSMode (ps_hal s) \<and> smart_ps (pwrctl s) = 0
              then (let s = upd_pwr (\<lambda>p. p\<lparr>smart_ps := 2\<rparr>) s in set_hwreg_H2C_FW_PWRMODE H (pwr_mode (pwrctl s)) s)
              else s)
      | P2P_PS_ENABLE \<Rightarrow>
          if p2p_ps_mode (wdinfo s) = P2P_PS_NONE then s
          else
            (let s = upd_wdinfo (\<lambda>w. w\<lparr>p2p_ps_state := st\<rparr>) s;
                 s = (if ctwindow (wdinfo s) > 0 \<and> smart_ps (pwrctl s) \<noteq> 0
                      then (let s = upd_pwr (\<lambda>p. p\<lparr>smart_ps := 0\<rparr>) s
                            in set_hwreg_H2C_FW_PWRMODE H (pwr_mode (pwrctl s)) s)
                      else s)
             in set_hwreg_H2C_FW_P2P_PS_OFFLOAD H st s)
      | _ \<Rightarrow>
          if p2p_ps_mode (wdinfo s) = P2P_PS_NONE then s
          else set_hwreg_H2C_FW_P2P_PS_OFFLOAD H st (upd_wdinfo (\<lambda>w. w\<lparr>p2p_ps_state := st\<rparr>) s))"

definition p2p_ps_wk_cmd :: "'h ps_env \<Rightarrow> P2P_PS_STATE \<Rightarrow> bool \<Rightarrow> 'h ps_sys \<Rightarrow> bool \<times> 'h ps_sys" where
  "p2p_ps_wk_cmd E st enqueue s =
     (if p2p_state (wdinfo s) = P2P_STATE_NONE then (True, s)
      else if enqueue then alloc_and_enqueue E (P2P_PS_WK st) s
      else (True, p2p_ps_wk_hdl (env_host E) st s))"

section \<open>The mode\<close>

definition PS_RDY_CHECK :: "'h usb_host \<Rightarrow> 'h ps_sys \<Rightarrow> bool" where
  "PS_RDY_CHECK H s \<longleftrightarrow>
     \<not> bInSuspend (pwrctl s) \<and>
     \<not> get_current_time H s - DelayLPSLastTimeStamp (pwrctl s) < of_nat (host_HZ H) \<and>
     \<not> (check_fwstate s WIFI_SITE_MONITOR \<or> check_fwstate s (WIFI_UNDER_LINKING OR WIFI_UNDER_WPS) \<or>
        check_fwstate s WIFI_AP_STATE \<or> check_fwstate s (WIFI_ADHOC_MASTER_STATE OR WIFI_ADHOC_STATE) \<or>
        is_ro_ch s \<or> scan_deny s) \<and>
     \<not> (auth_8021X s \<and> \<not> binstallGrpkey s) \<and>
     power_mgmt s"

text \<open>A counter that starts again at its end.\<close>

definition count_up :: "u32 \<Rightarrow> u32" where
  "count_up n = (if n < 0xFFFFFFFF then n + 1 else 0)"

definition rtw_set_ps_mode :: "'h ps_env \<Rightarrow> u8 \<Rightarrow> u8 \<Rightarrow> u8 \<Rightarrow> 'h ps_sys \<Rightarrow> 'h ps_sys" where
  "rtw_set_ps_mode E ps_mode sps bam s =
     (let H = env_host E
      in if ps_mode > PM_Card_Disable then s
         else if pwr_mode (pwrctl s) = ps_mode \<and>
           (PS_MODE_ACTIVE = ps_mode \<or> smart_ps (pwrctl s) = sps \<and> bcn_ant_mode (pwrctl s) = bam) then s
         else if ps_mode = PS_MODE_ACTIVE then
           (if opp_ps (wdinfo s) = 0 then
              (let s = upd_pwr (\<lambda>p. p\<lparr>lps_leave_cnts := count_up (lps_leave_cnts p), pwr_mode := ps_mode\<rparr>) s;
                   s = rtw_set_rpwm H PS_STATE_S4 s;
                   s = set_hwreg_H2C_FW_PWRMODE H ps_mode s
               in s\<lparr>ps_hal := (ps_hal s)\<lparr>bFwCurrentInPSMode := False\<rparr>\<rparr>)
            else s)
         else if PS_RDY_CHECK H s \<and> check_fwstate s WIFI_ASOC_STATE then
           (let s = upd_pwr (\<lambda>p. p\<lparr>lps_enter_cnts := count_up (lps_enter_cnts p)\<rparr>) s;
                s = s\<lparr>ps_hal := (ps_hal s)\<lparr>bFwCurrentInPSMode := True\<rparr>\<rparr>;
                s = upd_pwr (\<lambda>p. p\<lparr>pwr_mode := ps_mode, smart_ps := sps, bcn_ant_mode := bam\<rparr>) s;
                s = set_hwreg_H2C_FW_PWRMODE H ps_mode s;
                s = (if opp_ps (wdinfo s) = 1 then snd (p2p_ps_wk_cmd E P2P_PS_ENABLE False s) else s)
            in rtw_set_rpwm H PS_STATE_S2 s)
         else s)"

text \<open>
  The wait for the firmware to be awake; the value \<open>None\<close> says that it does not end. The codes
  are 0, -1 (timeout) and -2 (removed).
\<close>

partial_function (option) LPS_RF_ON_loop :: "'h usb_host \<Rightarrow> u32 \<Rightarrow> u32 \<Rightarrow> 'h ps_sys \<Rightarrow> (int \<times> 'h ps_sys) option" where
  "LPS_RF_ON_loop H start_time delay_ms s =
     (case get_hwreg_FWLPS_RF_ON H s of
        (bAwake, s) \<Rightarrow>
          if bAwake then Some (0, s)
          else if bSurpriseRemoved (ps_dev s) then Some (- 2, s)
          else if passing_ms H start_time (ps_dev s) > delay_ms then Some (- 1, s)
          else LPS_RF_ON_loop H start_time delay_ms (snd (dev_op (rtw_udelay_os H 100) s)))"

definition LPS_RF_ON_check :: "'h usb_host \<Rightarrow> u32 \<Rightarrow> 'h ps_sys \<Rightarrow> (int \<times> 'h ps_sys) option" where
  "LPS_RF_ON_check H delay_ms s = LPS_RF_ON_loop H (get_current_time H s) delay_ms s"

section \<open>Entering and leaving\<close>

definition LPS_Enter :: "'h ps_env \<Rightarrow> 'h ps_sys \<Rightarrow> 'h ps_sys" where
  "LPS_Enter E s =
     (if n_assoc_iface s \<noteq> 1 \<or> \<not> PS_RDY_CHECK (env_host E) s \<or> p2p_ps_mode (wdinfo s) = P2P_PS_NOA then s
      else if bLeisurePs (pwrctl s) then
        (if LpsIdleCount (pwrctl s) \<ge> 2 then
           (if pwr_mode (pwrctl s) = PS_MODE_ACTIVE
            then (let s = upd_pwr (\<lambda>p. p\<lparr>bpower_saving := True\<rparr>) s
                  in rtw_set_ps_mode E (power_mgnt (pwrctl s)) (reg_smart_ps s) 0 s)
            else s)
         else upd_pwr (\<lambda>p. p\<lparr>LpsIdleCount := LpsIdleCount p + 1\<rparr>) s)
      else s)"

definition LPS_LEAVE_TIMEOUT_MS :: u32 where "LPS_LEAVE_TIMEOUT_MS = 100"

definition LPS_Leave :: "'h ps_env \<Rightarrow> 'h ps_sys \<Rightarrow> 'h ps_sys option" where
  "LPS_Leave E s =
     map_option (upd_pwr (\<lambda>p. p\<lparr>bpower_saving := False\<rparr>))
       (if bLeisurePs (pwrctl s) \<and> pwr_mode (pwrctl s) \<noteq> PS_MODE_ACTIVE
        then (let s = rtw_set_ps_mode E PS_MODE_ACTIVE 0 0 s
              in if pwr_mode (pwrctl s) = PS_MODE_ACTIVE
                 then map_option snd (LPS_RF_ON_check (env_host E) LPS_LEAVE_TIMEOUT_MS s)
                 else Some s)
        else Some s)"

fun lps_ctrl :: "'h ps_env \<Rightarrow> LPS_CTRL_TYPE \<Rightarrow> 'h ps_sys \<Rightarrow> 'h ps_sys option" where
  "lps_ctrl E LPS_CTRL_SCAN s = (if check_fwstate s WIFI_ASOC_STATE then LPS_Leave E s else Some s)"
| "lps_ctrl E LPS_CTRL_CONNECT s = Some (rtl8188f_set_FwJoinBssRpt_cmd 1 (upd_pwr (\<lambda>p. p\<lparr>LpsIdleCount := 0\<rparr>) s))"
| "lps_ctrl E LPS_CTRL_DISCONNECT s = map_option (rtl8188f_set_FwJoinBssRpt_cmd 0) (LPS_Leave E s)"
| "lps_ctrl E LPS_CTRL_SPECIAL_PACKET s =
     LPS_Leave E (upd_pwr (\<lambda>p. p\<lparr>DelayLPSLastTimeStamp := get_current_time (env_host E) s\<rparr>) s)"
| "lps_ctrl E LPS_CTRL_ENTER s = Some (LPS_Enter E s)"
| "lps_ctrl E t s = LPS_Leave E s"

definition lps_ctrl_wk_hdl :: "'h ps_env \<Rightarrow> LPS_CTRL_TYPE \<Rightarrow> 'h ps_sys \<Rightarrow> 'h ps_sys option" where
  "lps_ctrl_wk_hdl E lps_ctrl_type s =
     (if check_fwstate s WIFI_ADHOC_MASTER_STATE \<or> check_fwstate s WIFI_ADHOC_STATE then Some s
      else lps_ctrl E lps_ctrl_type s)"

definition rtw_lps_ctrl_wk_cmd :: "'h ps_env \<Rightarrow> LPS_CTRL_TYPE \<Rightarrow> bool \<Rightarrow> 'h ps_sys \<Rightarrow> (bool \<times> 'h ps_sys) option" where
  "rtw_lps_ctrl_wk_cmd E lps_ctrl_type enqueue s =
     (if enqueue then Some (alloc_and_enqueue E (LPS_CTRL_WK lps_ctrl_type) s)
      else map_option (\<lambda>s. (True, s)) (lps_ctrl_wk_hdl E lps_ctrl_type s))"

definition rtw_lps_change_dtim_hdl :: "'h usb_host \<Rightarrow> u8 \<Rightarrow> 'h ps_sys \<Rightarrow> 'h ps_sys" where
  "rtw_lps_change_dtim_hdl H d s =
     (if d \<le> 0 \<or> d > 16 then s
      else
        (let s = (if dtim (pwrctl s) \<noteq> d then upd_pwr (\<lambda>p. p\<lparr>dtim := d\<rparr>) s else s)
         in if bFwCurrentInPSMode (ps_hal s) \<and> pwr_mode (pwrctl s) > PS_MODE_ACTIVE
            then set_hwreg_H2C_FW_PWRMODE H (pwr_mode (pwrctl s)) s
            else s))"

text \<open>\<open>cfg80211_rtw_set_power_mgmt\<close>: the user switches power saving on or off.\<close>

definition cfg80211_rtw_set_power_mgmt :: "'h ps_env \<Rightarrow> bool \<Rightarrow> 'h ps_sys \<Rightarrow> 'h ps_sys option" where
  "cfg80211_rtw_set_power_mgmt E enabled s =
     (let s = s\<lparr>power_mgmt := enabled\<rparr>
      in if enabled then Some s
         else map_option snd (rtw_lps_ctrl_wk_cmd E LPS_CTRL_LEAVE_CFG80211_PWRMGMT True s))"

section \<open>The watchdog\<close>

definition TX_ACTIVE_TH :: u32 where "TX_ACTIVE_TH = 10"
definition RX_ACTIVE_TH :: u32 where "RX_ACTIVE_TH = 20"

text \<open>Whether a direction is above a threshold, and which of the two has more: any, receive, transmit.\<close>

definition busy_flags :: "link_detect \<Rightarrow> u32 \<Rightarrow> bool \<times> bool \<times> bool" where
  "busy_flags l threshold =
     (let busy = NumRxOkInPeriod l > threshold \<or> NumTxOkInPeriod l > threshold;
          rx = NumRxOkInPeriod l > NumTxOkInPeriod l
      in (busy, busy \<and> rx, busy \<and> \<not> rx))"

definition lps_traffic_low :: "link_detect \<Rightarrow> bool" where
  "lps_traffic_low l \<longleftrightarrow>
     \<not> (NumRxUnicastOkInPeriod l + NumTxOkInPeriod l > 8 \<or> NumRxUnicastOkInPeriod l > 4)"

text \<open>
  \<open>traffic_status_watchdog\<close> without the statistics of throughput; the result is
  \<open>bEnterPS\<close>.
\<close>

definition traffic_status_watchdog :: "'h ps_env \<Rightarrow> bool \<Rightarrow> 'h ps_sys \<Rightarrow> (bool \<times> 'h ps_sys) option" where
  "traffic_status_watchdog E from_timer s =
     (let l = LinkDetectInfo s;
          linked = check_fwstate s WIFI_ASOC_STATE;
          (busy, rx_busy, tx_busy) =
            (if linked then busy_flags l (if bBusyTraffic l then 75 else 100) else (False, False, False));
          (high, rx_high, tx_high) = (if linked then busy_flags l 4000 else (False, False, False));
          bEnterPS = (linked \<and> lps_traffic_low l);
          s = (if linked \<and> (NumTxOkInPeriod l > TX_ACTIVE_TH \<or> NumRxUnicastOkInPeriod l > RX_ACTIVE_TH)
               then ps_log rtw_lock_traffic_suspend s else s)
      in map_option (\<lambda>s. (bEnterPS, (ps_log session_tracker_chk s)\<lparr>LinkDetectInfo := (LinkDetectInfo s)\<lparr>
             NumRxOkInPeriod := 0, NumTxOkInPeriod := 0, NumRxUnicastOkInPeriod := 0, bBusyTraffic := busy,
             bTxBusyTraffic := tx_busy, bRxBusyTraffic := rx_busy, bHigherBusyTraffic := high,
             bHigherBusyRxTraffic := rx_high, bHigherBusyTxTraffic := tx_high\<rparr>\<rparr>))
           (if linked then
              (if bEnterPS then (if \<not> from_timer then Some (LPS_Enter E s) else Some s)
               else if \<not> from_timer then LPS_Leave E s
               else map_option snd (rtw_lps_ctrl_wk_cmd E LPS_CTRL_TRAFFIC_BUSY True s))
            else if \<not> from_timer \<and> n_assoc_iface s = 0 then LPS_Leave E s
            else Some s))"

end
