(* ===== verification/Ps_Ips.thy ===== *)
theory Ps_Ips
  imports Ps_Lps
begin

text \<open>
  Inactive power save: the card is switched off while the driver has no connection and nothing to do,
  and on again when it is needed (\<open>core/rtw_pwrctrl.c\<close>, with the ways down and up of
  \<open>os_dep/linux/os_intfs.c\<close> and \<open>hal/hal_intf.c\<close>); and the entry points that leave every
  kind of power saving.
\<close>

section \<open>Down and up\<close>

text \<open>\<open>rtw_hal_deinit\<close>; \<open>rtl8188fu_hal_deinit\<close> always succeeds.\<close>

definition rtw_hal_deinit :: "'h usb_host \<Rightarrow> 'h ps_sys \<Rightarrow> 'h ps_sys" where
  "rtw_hal_deinit H s =
     (case dev_op (rtl8188fu_hal_deinit H (hw_init_completed s) (bHWPwrPindetect (pwrctl s)) (bHWPowerdown (pwrctl s)) (ps_hal s)) s of
        ((h, on), s) \<Rightarrow>
          (ps_log (rtw_led_control ''POWER_OFF'') (s\<lparr>ps_hal := h, bMacPwrCtrlOn := on\<rparr>))\<lparr>hw_init_completed := False\<rparr>)"

definition rtw_hal_init :: "'h ps_env \<Rightarrow> 'h ps_sys \<Rightarrow> bool \<times> 'h ps_sys" where
  "rtw_hal_init E s =
     (case env_hal_init E s of
        (status, s) \<Rightarrow>
          if status then
            (let s = s\<lparr>hw_init_completed := True\<rparr>;
                 s = (if reg_notch_filter s then ps_log notch_filter s else s);
                 s = ps_log rtw_sec_restore_wep_key s;
                 s = ps_log (rtw_led_control ''POWER_ON'') s;
                 s = ps_log init_hw_mlme_ext s;
                 s = ps_log rtw_hal_init_opmode s
             in (True, ps_log rtw_bb_rf_gain_offset s))
          else (False, s\<lparr>hw_init_completed := False\<rparr>))"

definition rtw_ips_dev_unload :: "'h usb_host \<Rightarrow> 'h ps_sys \<Rightarrow> 'h ps_sys" where
  "rtw_ips_dev_unload H s =
     (let s = ps_log intf_stop (ps_log fifo_clean_up s)
      in if \<not> bSurpriseRemoved (ps_dev s) then rtw_hal_deinit H s else s)"

definition rtw_ips_pwr_down :: "'h usb_host \<Rightarrow> 'h ps_sys \<Rightarrow> 'h ps_sys" where
  "rtw_ips_pwr_down H s = rtw_ips_dev_unload H (s\<lparr>net_closed := True\<rparr>)"

definition ips_netdrv_open :: "'h ps_env \<Rightarrow> 'h ps_sys \<Rightarrow> bool \<times> 'h ps_sys" where
  "ips_netdrv_open E s =
     (case rtw_hal_init E (s\<lparr>net_closed := False, bDriverStopped := False\<rparr>) of
        (status, s) \<Rightarrow>
          if \<not> status then (False, s)
          else (True, (set_pwr_state_check_timer (ps_log intf_start s))\<lparr>dynamic_chk_timer := Some 2000\<rparr>))"

definition DF_TX_BIT :: u32 where "DF_TX_BIT = 0x1"
definition DF_RX_BIT :: u32 where "DF_RX_BIT = 0x2"

definition rtw_reset_drv_sw :: "'h ps_sys \<Rightarrow> 'h ps_sys" where
  "rtw_reset_drv_sw s =
     (let s = ps_log rtw_hal_def_value_init s;
          s = s\<lparr>ps_dev := (ps_dev s)\<lparr>disable_func := disable_func (ps_dev s) AND NOT DF_RX_BIT AND NOT DF_TX_BIT\<rparr>\<rparr>;
          s = s\<lparr>bLinkInfoDump := 0, tx_pkts := 0, rx_pkts := 0\<rparr>;
          s = s\<lparr>LinkDetectInfo := (LinkDetectInfo s)\<lparr>bBusyTraffic := False, TrafficTransitionCount := 0,
                 LowPowerTransitionCount := 0\<rparr>\<rparr>;
          s = s\<lparr>fw_state := fw_state s AND NOT (WIFI_SITE_MONITOR OR WIFI_UNDER_LINKING)\<rparr>;
          s = upd_pwr (\<lambda>p. p\<lparr>pwr_state_check_cnts := 0\<rparr>) s;
          s = ps_log mlmeext_set_scan_state s
      in ps_log rtw_set_signal_stat_timer s)"

definition rtw_ips_pwr_up :: "'h ps_env \<Rightarrow> 'h ps_sys \<Rightarrow> bool \<times> 'h ps_sys" where
  "rtw_ips_pwr_up E s =
     (case ips_netdrv_open E (rtw_reset_drv_sw s) of
        (result, s) \<Rightarrow> (result, ps_log (rtw_led_control ''NO_LINK'') s))"

section \<open>Entering and leaving\<close>

definition ips_enter :: "'h usb_host \<Rightarrow> 'h ps_sys \<Rightarrow> 'h ps_sys" where
  "ips_enter H s =
     (let s = upd_pwr (\<lambda>p. p\<lparr>bips_processing := True, ips_mode := ips_mode_req p, ips_enter_cnts := ips_enter_cnts p + 1\<rparr>) s;
          s = (if change_rfpwrstate (pwrctl s) = rf_off
               then (let s = upd_pwr (\<lambda>p. p\<lparr>bpower_saving := True,
                               bkeepfwalive := (if ips_mode p = IPS_LEVEL_2 then True else bkeepfwalive p)\<rparr>) s;
                         s = rtw_ips_pwr_down H s
                     in upd_pwr (\<lambda>p. p\<lparr>rf_pwrstate := rf_off\<rparr>) s)
               else s)
      in upd_pwr (\<lambda>p. p\<lparr>bips_processing := False\<rparr>) s)"

definition ips_leave_locked :: "'h ps_env \<Rightarrow> 'h ps_sys \<Rightarrow> bool \<times> 'h ps_sys" where
  "ips_leave_locked E s =
     (if rf_pwrstate (pwrctl s) = rf_off \<and> \<not> bips_processing (pwrctl s)
      then
        (let s = upd_pwr (\<lambda>p. p\<lparr>bips_processing := True, change_rfpwrstate := rf_on, ips_leave_cnts := ips_leave_cnts p + 1\<rparr>) s
         in case rtw_ips_pwr_up E s of
              (result, s) \<Rightarrow>
                (let s = (if result then upd_pwr (\<lambda>p. p\<lparr>rf_pwrstate := rf_on\<rparr>) s else s)
                 in (result, upd_pwr (\<lambda>p. p\<lparr>bips_processing := False, bkeepfwalive := False, bpower_saving := False\<rparr>) s)))
      else (True, s))"

definition ips_leave :: "'h ps_env \<Rightarrow> 'h ps_sys \<Rightarrow> bool \<times> 'h ps_sys" where
  "ips_leave E s =
     (case ips_leave_locked E s of (ret, s) \<Rightarrow> (ret, if ret then ps_log ODM_DMReset s else s))"

section \<open>When to enter\<close>

definition NR_XMITBUFF :: u32 where "NR_XMITBUFF = 4"
definition NR_XMIT_EXTBUFF :: u32 where "NR_XMIT_EXTBUFF = 32"

definition rtw_pwr_unassociated_idle :: "'h usb_host \<Rightarrow> 'h ps_sys \<Rightarrow> bool" where
  "rtw_pwr_unassociated_idle H s \<longleftrightarrow>
     \<not> bpower_saving (pwrctl s) \<and>
     \<not> ips_deny_time (pwrctl s) \<ge> get_current_time H s \<and>
     \<not> (check_fwstate s (WIFI_ASOC_STATE OR WIFI_SITE_MONITOR) \<or> check_fwstate s (WIFI_UNDER_LINKING OR WIFI_UNDER_WPS) \<or>
        check_fwstate s WIFI_AP_STATE \<or> check_fwstate s (WIFI_ADHOC_MASTER_STATE OR WIFI_ADHOC_STATE) \<or>
        is_ro_ch s \<or> passed_ms H (last_ro_ch_time s) s < 3000) \<and>
     \<not> reg_mp_mode s \<and>
     free_xmitbuf_cnt s = NR_XMITBUFF \<and> free_xmit_extbuf_cnt s = NR_XMIT_EXTBUFF"

text \<open>While the system is suspended nothing is done, and the timer is not armed again.\<close>

definition rtw_ps_processor :: "'h usb_host \<Rightarrow> 'h ps_sys \<Rightarrow> 'h ps_sys" where
  "rtw_ps_processor H s =
     (let leave = (\<lambda>s. upd_pwr (\<lambda>p. p\<lparr>ps_processing := False\<rparr>) (set_pwr_state_check_timer s))
      in if rtw_ps_deny_get s \<noteq> 0 then leave s
         else if bInSuspend (pwrctl s) then s
         else
           (let s = upd_pwr (\<lambda>p. p\<lparr>ps_processing := True\<rparr>) s
            in if ips_mode_req (pwrctl s) = IPS_NONE then leave s
               else if \<not> rtw_pwr_unassociated_idle H s then leave s
               else if rf_pwrstate (pwrctl s) = rf_on \<and> pwr_state_check_cnts (pwrctl s) mod 4 = 0
               then leave (ips_enter H (upd_pwr (\<lambda>p. p\<lparr>change_rfpwrstate := rf_off\<rparr>) s))
               else leave s))"

section \<open>Leaving everything\<close>

definition LeaveAllPowerSaveModeDirect :: "'h ps_env \<Rightarrow> 'h ps_sys \<Rightarrow> 'h ps_sys option" where
  "LeaveAllPowerSaveModeDirect E s =
     (if bSurpriseRemoved (ps_dev s) then Some s
      else if check_fwstate s WIFI_ASOC_STATE then
        (if pwr_mode (pwrctl s) = PS_MODE_ACTIVE then Some s
         else
           (let s = snd (p2p_ps_wk_cmd E P2P_PS_DISABLE False s)
            in map_option snd (rtw_lps_ctrl_wk_cmd E LPS_CTRL_LEAVE False s)))
      else Some s)"

definition LeaveAllPowerSaveMode :: "'h ps_env \<Rightarrow> 'h ps_sys \<Rightarrow> 'h ps_sys option" where
  "LeaveAllPowerSaveMode E s =
     (if \<not> bup s then Some s
      else if bSurpriseRemoved (ps_dev s) then Some s
      else if n_assoc_iface s \<noteq> 0 then
        (let s = snd (p2p_ps_wk_cmd E P2P_PS_DISABLE False s)
         in map_option snd (rtw_lps_ctrl_wk_cmd E LPS_CTRL_LEAVE False s))
      else Some s)"

text \<open>A wait for another context, in sleeps of 10 ms for as long as \<open>go\<close>.\<close>

partial_function (option) wait_while :: "'h ps_env \<Rightarrow> ('h ps_sys \<Rightarrow> bool) \<Rightarrow> 'h ps_sys \<Rightarrow> 'h ps_sys option" where
  "wait_while E go s = (if go s then wait_while E go (env_msleep E 10 s) else Some s)"

definition extend_ips_deny :: "'h usb_host \<Rightarrow> u32 \<Rightarrow> 'h ps_sys \<Rightarrow> 'h ps_sys" where
  "extend_ips_deny H ms s =
     (if ips_deny_time (pwrctl s) < get_current_time H s + ms_to_systime H ms
      then upd_pwr (\<lambda>p. p\<lparr>ips_deny_time := get_current_time H s + ms_to_systime H ms\<rparr>) s
      else s)"

text \<open>What \<open>_rtw_pwr_wakeup\<close> does after its waits.\<close>

definition pwr_wakeup_card :: "'h ps_env \<Rightarrow> 'h ps_sys \<Rightarrow> bool \<times> 'h ps_sys" where
  "pwr_wakeup_card E s =
     (if \<not> bInternalAutoSuspend (pwrctl s) \<and> bInSuspend (pwrctl s) then (False, s)
      else if bInternalAutoSuspend (pwrctl s) \<and> net_closed s then (False, s)
      else if check_fwstate s WIFI_ASOC_STATE then (True, s)
      else
        (case (if rf_pwrstate (pwrctl s) = rf_off then ips_leave E s else (True, s)) of
           (left, s) \<Rightarrow>
             if \<not> left then (False, s)
             else if bDriverStopped s \<or> \<not> bup s \<or> \<not> hw_init_completed s then (False, s)
             else (True, s)))"

definition rtw_pwr_wakeup_ex :: "'h ps_env \<Rightarrow> u32 \<Rightarrow> 'h ps_sys \<Rightarrow> (bool \<times> 'h ps_sys) option" where
  "rtw_pwr_wakeup_ex E ips_deffer_ms s =
     (let H = env_host E; start = get_current_time H s
      in do {
        s \<leftarrow> LeaveAllPowerSaveMode E s;
        let s = extend_ips_deny H ips_deffer_ms s;
        s \<leftarrow> wait_while E (\<lambda>s. ps_processing (pwrctl s) \<and> passed_ms H start s \<le> 3000) s;
        s \<leftarrow> (if \<not> bInternalAutoSuspend (pwrctl s) \<and> bInSuspend (pwrctl s)
             then wait_while E (\<lambda>s. bInSuspend (pwrctl s) \<and> passed_ms H start s \<le> 3000) s else Some s);
        let (ret, s) = pwr_wakeup_card E s;
        Some (ret, extend_ips_deny H ips_deffer_ms s) })"

definition rtw_pwr_wakeup :: "'h ps_env \<Rightarrow> 'h ps_sys \<Rightarrow> (bool \<times> 'h ps_sys) option" where
  "rtw_pwr_wakeup E = rtw_pwr_wakeup_ex E RTW_PWR_STATE_CHK_INTERVAL"

definition EFAULT :: int where "EFAULT = 14"

definition rtw_pm_set_lps :: "'h ps_env \<Rightarrow> u8 \<Rightarrow> 'h ps_sys \<Rightarrow> (int \<times> 'h ps_sys) option" where
  "rtw_pm_set_lps E mode s =
     (if mode < PS_MODE_NUM then
        (if power_mgnt (pwrctl s) \<noteq> mode then
           map_option (\<lambda>s. (0, upd_pwr (\<lambda>p. p\<lparr>power_mgnt := mode, bLeisurePs := PS_MODE_ACTIVE \<noteq> mode\<rparr>) s))
             (if PS_MODE_ACTIVE = mode then LeaveAllPowerSaveMode E s
              else Some (upd_pwr (\<lambda>p. p\<lparr>LpsIdleCount := 2\<rparr>) s))
         else Some (0, s))
      else Some (- EINVAL, s))"

definition rtw_pm_set_ips :: "'h ps_env \<Rightarrow> u8 \<Rightarrow> 'h ps_sys \<Rightarrow> (int \<times> 'h ps_sys) option" where
  "rtw_pm_set_ips E mode s =
     (if mode = IPS_NORMAL \<or> mode = IPS_LEVEL_2 then Some (0, upd_pwr (\<lambda>p. p\<lparr>ips_mode_req := mode\<rparr>) s)
      else if mode = IPS_NONE then
        (let s = upd_pwr (\<lambda>p. p\<lparr>ips_mode_req := mode\<rparr>) s
         in if bSurpriseRemoved (ps_dev s) then Some (0, s)
            else map_option (\<lambda>(ok, s). (if ok then 0 else - EFAULT, s)) (rtw_pwr_wakeup E s))
      else Some (- EINVAL, s))"

section \<open>The commands\<close>

definition run_ps_cmd :: "'h ps_env \<Rightarrow> ps_cmd \<Rightarrow> 'h ps_sys \<Rightarrow> 'h ps_sys option" where
  "run_ps_cmd E c s =
     (case c of
        POWER_SAVING_CTRL_WK \<Rightarrow> Some (rtw_ps_processor (env_host E) s)
      | LPS_CTRL_WK t \<Rightarrow> lps_ctrl_wk_hdl E t s
      | P2P_PS_WK st \<Rightarrow> Some (p2p_ps_wk_hdl (env_host E) st s)
      | LPS_CHANGE_DTIM d \<Rightarrow> Some (rtw_lps_change_dtim_hdl (env_host E) d s)
      | DM_IN_LPS_WK \<Rightarrow> Some (rtw_dm_in_lps_hdl s))"

text \<open>
  One round of \<open>rtw_cmd_thread\<close> for these commands: the first of the queue is taken and run, or
  dropped when the hardware is not initialised.
\<close>

definition ps_cmd_thread_round :: "'h ps_env \<Rightarrow> 'h ps_sys \<Rightarrow> 'h ps_sys option" where
  "ps_cmd_thread_round E s =
     (if bSurpriseRemoved (ps_dev s) \<or> bDriverStopped s then Some s
      else
        (case cmd_queue s of
           [] \<Rightarrow> Some s
         | c # cs \<Rightarrow> (let s = s\<lparr>cmd_queue := cs\<rparr> in if rtw_cmd_filter s then run_ps_cmd E c s else Some s)))"

end
