(* ===== verification/Ps_Noa.thy ===== *)
theory Ps_Noa
  imports Ps_Ips Ie_Vendor
begin

text \<open>
  The notices of absence in the beacons of a Wi-Fi Direct group (\<open>process_p2p_ps_ie\<close> in
  \<open>core/rtw_p2p.c\<close>): the attribute is copied out of the P2P element and its descriptors are
  stored in arrays of two, however many there are. The property says when that stays in memory.
\<close>

section \<open>The code\<close>

definition MAX_P2P_IE_LEN :: nat where "MAX_P2P_IE_LEN = 256"
definition BEACON_IE_OFFSET :: nat where "BEACON_IE_OFFSET = 12"
definition P2P_ATTR_NOA :: u8 where "P2P_ATTR_NOA = 0x0C"

definition put_at :: "'a list \<Rightarrow> nat \<Rightarrow> 'a \<Rightarrow> 'a list option" where
  "put_at xs i v = (if i < length xs then Some (xs[i := v]) else None)"

text \<open>Four bytes of the attribute as a word.\<close>

definition word_at :: "bytes \<Rightarrow> u8 \<Rightarrow> u32 option" where
  "word_at m off = map_option le32_read (mem_rd m (unat off) 4)"

text \<open>One descriptor of 13 bytes, from \<open>noa_offset\<close> on, an 8-bit number as all the indices here.\<close>

definition store_noa :: "bytes \<Rightarrow> u8 \<Rightarrow> u8 \<Rightarrow> wifidirect_info \<Rightarrow> wifidirect_info option" where
  "store_noa noa_attr noa_offset n w = do {
     c \<leftarrow> byte_at noa_attr (unat noa_offset);
     counts \<leftarrow> put_at (noa_count w) (unat n) c;
     d \<leftarrow> word_at noa_attr (noa_offset + 1);
     durations \<leftarrow> put_at (noa_duration w) (unat n) d;
     i \<leftarrow> word_at noa_attr (noa_offset + 5);
     intervals \<leftarrow> put_at (noa_interval w) (unat n) i;
     t \<leftarrow> word_at noa_attr (noa_offset + 9);
     starts \<leftarrow> put_at (noa_start_time w) (unat n) t;
     Some (w\<lparr>noa_count := counts, noa_duration := durations, noa_interval := intervals, noa_start_time := starts\<rparr>) }"

text \<open>
  The outer \<open>None\<close> says that the loop does not return, the inner one that it accesses memory
  outside a buffer.
\<close>

partial_function (option) noa_fill ::
    "bytes \<Rightarrow> u32 \<Rightarrow> u8 \<Rightarrow> u8 \<Rightarrow> wifidirect_info \<Rightarrow> (u8 \<times> wifidirect_info) option option" where
  "noa_fill noa_attr attr_contentlen noa_offset n w =
     (if ucast noa_offset < attr_contentlen then
        (case store_noa noa_attr noa_offset n w of
           None \<Rightarrow> Some None
         | Some w \<Rightarrow> noa_fill noa_attr attr_contentlen (noa_offset + 13) (n + 1) w)
      else Some (Some (n, w)))"

definition noa_update :: "bytes \<Rightarrow> u32 \<Rightarrow> wifidirect_info \<Rightarrow> wifidirect_info option option" where
  "noa_update noa_attr attr_contentlen w =
     (let w = w\<lparr>noa_index := noa_attr ! 0, opp_ps := drop_bit 7 (noa_attr ! 1), ctwindow := noa_attr ! 1 AND 0x7F\<rparr>
      in map_option (map_option (\<lambda>(n, w). w\<lparr>noa_num := n\<rparr>))
           (if attr_contentlen > 2 then noa_fill noa_attr attr_contentlen 2 0 w else Some (Some (0, w))))"

definition noa_commands :: "'h ps_env \<Rightarrow> 'h ps_sys \<Rightarrow> 'h ps_sys" where
  "noa_commands E s =
     (if opp_ps (wdinfo s) = 1 then
        (let s = upd_wdinfo (\<lambda>w. w\<lparr>p2p_ps_mode := P2P_PS_CTWINDOW\<rparr>) s
         in if bFwCurrentInPSMode (ps_hal s) then snd (p2p_ps_wk_cmd E P2P_PS_ENABLE True s) else s)
      else if noa_num (wdinfo s) > 0 then
        snd (p2p_ps_wk_cmd E P2P_PS_ENABLE True (upd_wdinfo (\<lambda>w. w\<lparr>p2p_ps_mode := P2P_PS_NOA\<rparr>) s))
      else if p2p_ps_mode (wdinfo s) \<noteq> P2P_PS_NONE then snd (p2p_ps_wk_cmd E P2P_PS_DISABLE True s)
      else s)"

text \<open>An attribute that is found: nothing happens while its index stays the same.\<close>

definition noa_found :: "'h ps_env \<Rightarrow> bytes \<Rightarrow> u32 \<Rightarrow> 'h ps_sys \<Rightarrow> 'h ps_sys option option" where
  "noa_found E noa_attr attr_contentlen s =
     (if p2p_ps_mode (wdinfo s) = P2P_PS_NONE \<or> noa_attr ! 0 \<noteq> noa_index (wdinfo s)
      then map_option (map_option (\<lambda>w. noa_commands E (s\<lparr>wdinfo := w\<rparr>))) (noa_update noa_attr attr_contentlen (wdinfo s))
      else Some (Some s))"

text \<open>The loop over the P2P elements; the first result is \<open>find_p2p_ps\<close>.\<close>

partial_function (option) noa_search ::
    "'h ps_env \<Rightarrow> bytes \<Rightarrow> nat \<Rightarrow> u32 \<Rightarrow> nat option \<Rightarrow> u32 \<Rightarrow> bytes \<Rightarrow> 'h ps_sys \<Rightarrow> (bool \<times> 'h ps_sys) option option" where
  "noa_search E m ies ies_len p2p_ie p2p_ielen noa_attr s =
     (case p2p_ie of
        None \<Rightarrow> Some (Some (False, s))
      | Some p \<Rightarrow>
          (case rtw_get_p2p_attr_content m (Some p) p2p_ielen P2P_ATTR_NOA (Some noa_attr) of
             None \<Rightarrow> None
           | Some r \<Rightarrow>
          (case r of
             None \<Rightarrow> Some None
           | Some (content, attr_contentlen, buf) \<Rightarrow>
               (case content of
                  Some _ \<Rightarrow> map_option (map_option (\<lambda>s. (True, s))) (noa_found E (the buf) attr_contentlen s)
                | None \<Rightarrow>
                    (case rtw_get_p2p_ie m (Some (p + unat p2p_ielen))
                            (int (unat ies_len) - (int p - int ies + uint p2p_ielen)) None of
                       None \<Rightarrow> Some None
                     | Some (next, next_len, _) \<Rightarrow> noa_search E m ies ies_len next next_len (the buf) s)))))"

definition process_p2p_ps_ie :: "'h ps_env \<Rightarrow> bytes \<Rightarrow> u32 \<Rightarrow> 'h ps_sys \<Rightarrow> 'h ps_sys option option" where
  "process_p2p_ps_ie E m ie_length s =
     (if p2p_state (wdinfo s) = P2P_STATE_NONE \<or> ie_length \<le> of_nat BEACON_IE_OFFSET then Some (Some s)
      else
        (let ies_len = ie_length - of_nat BEACON_IE_OFFSET
         in case rtw_get_p2p_ie m (Some BEACON_IE_OFFSET) (sint ies_len) None of
              None \<Rightarrow> Some None
            | Some (p2p_ie, p2p_ielen, _) \<Rightarrow>
                map_option (map_option (\<lambda>(find_p2p_ps, s).
                    if p2p_ie \<noteq> None \<and> p2p_ps_mode (wdinfo s) \<noteq> P2P_PS_NONE \<and> \<not> find_p2p_ps
                    then snd (p2p_ps_wk_cmd E P2P_PS_DISABLE True s) else s))
                  (noa_search E m BEACON_IE_OFFSET ies_len p2p_ie p2p_ielen (replicate MAX_P2P_IE_LEN 0) s)))"

section \<open>How many descriptors\<close>

text \<open>The number of descriptors in a content of \<open>n\<close> bytes, the last of which may be cut short.\<close>

definition noa_descriptors :: "nat \<Rightarrow> nat" where
  "noa_descriptors n = (n - 2 + 12) div 13"

definition noa_arrays :: "wifidirect_info \<Rightarrow> bool" where
  "noa_arrays w \<longleftrightarrow> length (noa_count w) = 2 \<and> length (noa_duration w) = 2 \<and> length (noa_interval w) = 2 \<and>
     length (noa_start_time w) = 2"

lemma store_noa_ok:
  assumes "noa_arrays w" and "length m = 256" and "j < 2"
  shows "\<exists>w'. store_noa m (of_nat (2 + 13 * j)) (of_nat j) w = Some w' \<and> noa_arrays w' \<and>
     opp_ps w' = opp_ps w \<and> ctwindow w' = ctwindow w \<and> p2p_state w' = p2p_state w \<and> noa_index w' = noa_index w"
proof -
  have "j = 0 \<or> j = 1" using assms(3) by auto
  then show ?thesis
    using assms by (auto simp: store_noa_def put_at_def word_at_def byte_at_def mem_rd_def noa_arrays_def)
qed

lemma store_noa_third: "noa_arrays w \<Longrightarrow> length m = 256 \<Longrightarrow> store_noa m 28 2 w = None"
  by (simp add: store_noa_def put_at_def byte_at_def noa_arrays_def)

lemma noa_fill_third:
  "noa_arrays w \<Longrightarrow> length m = 256 \<Longrightarrow> 28 < len \<Longrightarrow> noa_fill m len 28 2 w = Some None"
  by (subst noa_fill.simps) (simp add: store_noa_third)

definition same_p2p :: "wifidirect_info \<Rightarrow> wifidirect_info \<Rightarrow> bool" where
  "same_p2p w w' \<longleftrightarrow> opp_ps w' = opp_ps w \<and> ctwindow w' = ctwindow w \<and> p2p_state w' = p2p_state w \<and> noa_index w' = noa_index w"

lemma noa_fill_step:
  assumes "noa_arrays w" and "length m = 256"
  shows "\<exists>w'. noa_arrays w' \<and> same_p2p w w' \<and>
     noa_fill m len 2 0 w = (if 2 < len then noa_fill m len 15 1 w' else Some (Some (0, w)))"
    and "\<exists>w'. noa_arrays w' \<and> same_p2p w w' \<and>
     noa_fill m len 15 1 w = (if 15 < len then noa_fill m len 28 2 w' else Some (Some (1, w)))"
proof -
  obtain w' where "store_noa m 2 0 w = Some w'" "noa_arrays w'" "same_p2p w w'"
    using store_noa_ok [OF assms, of 0] by (auto simp: same_p2p_def)
  then show "\<exists>w'. noa_arrays w' \<and> same_p2p w w' \<and>
     noa_fill m len 2 0 w = (if 2 < len then noa_fill m len 15 1 w' else Some (Some (0, w)))"
    by (intro exI [of _ w'], subst noa_fill.simps) simp
  obtain w' where "store_noa m 15 1 w = Some w'" "noa_arrays w'" "same_p2p w w'"
    using store_noa_ok [OF assms, of 1] by (auto simp: same_p2p_def)
  then show "\<exists>w'. noa_arrays w' \<and> same_p2p w w' \<and>
     noa_fill m len 15 1 w = (if 15 < len then noa_fill m len 28 2 w' else Some (Some (1, w)))"
    by (intro exI [of _ w'], subst noa_fill.simps) simp
qed

lemma noa_fill_all:
  assumes "noa_arrays w" and "length m = 256" and "n \<le> 256" and "2 < n"
  shows "\<exists>w'. noa_arrays w' \<and> same_p2p w w' \<and>
     noa_fill m (of_nat n) 2 0 w = (if n \<le> 28 then Some (Some (of_nat (noa_descriptors n), w')) else Some None)"
proof -
  have lt: "((of_nat k :: u32) < of_nat n) = (k < n)" if "k \<le> 28" for k
    using that assms(3) by (simp add: word_less_nat_alt unat_of_nat take_bit_nat_eq_self)
  obtain w1 where w1: "noa_arrays w1" "same_p2p w w1" "noa_fill m (of_nat n) 2 0 w = noa_fill m (of_nat n) 15 1 w1"
    using noa_fill_step(1) [OF assms(1,2), of "of_nat n"] lt [of 2] assms(4) by auto
  obtain w2 where w2: "noa_arrays w2" "same_p2p w1 w2"
      "noa_fill m (of_nat n) 15 1 w1 = (if 15 < n then noa_fill m (of_nat n) 28 2 w2 else Some (Some (1, w1)))"
    using noa_fill_step(2) [OF w1(1) assms(2), of "of_nat n"] lt [of 15] by auto
  consider "n \<le> 15" | "15 < n" "n \<le> 28" | "28 < n" by linarith
  then show ?thesis
  proof cases
    case 1
    then have "noa_descriptors n = 1" using assms(4) by (simp add: noa_descriptors_def)
    then show ?thesis using 1 w1 w2(3) by auto
  next
    case 2
    have "noa_fill m (of_nat n) 28 2 w2 = Some (Some (2, w2))"
      using 2 lt [of 28] by (subst noa_fill.simps) simp
    moreover have "noa_descriptors n = 2" using 2 by (simp add: noa_descriptors_def)
    ultimately show ?thesis using 2 w1 w2 by (auto simp: same_p2p_def)
  next
    case 3
    then have "noa_fill m (of_nat n) 28 2 w2 = Some None"
      using lt [of 28] by (intro noa_fill_third [OF w2(1) assms(2)]) simp
    then show ?thesis using 3 w1 w2 by (intro exI [of _ w1]) auto
  qed
qed

lemma noa_update_all:
  assumes "noa_arrays w" and "length m = 256" and "n \<le> 256" and "2 \<le> n"
  shows "\<exists>w'. p2p_state w' = p2p_state w \<and> noa_index w' = m ! 0 \<and> opp_ps w' = drop_bit 7 (m ! 1) \<and>
     ctwindow w' = m ! 1 AND 0x7F \<and> noa_num w' = of_nat (noa_descriptors n) \<and>
     noa_update m (of_nat n) w = (if n \<le> 28 then Some (Some w') else Some None)"
proof -
  let ?w = "w\<lparr>noa_index := m ! 0, opp_ps := drop_bit 7 (m ! 1), ctwindow := m ! 1 AND 0x7F\<rparr>"
  have gt: "((of_nat n :: u32) > 2) = (n > 2)"
    using assms(3) by (simp add: word_less_nat_alt unat_of_nat take_bit_nat_eq_self)
  show ?thesis
  proof (cases "n = 2")
    case True
    then show ?thesis
      using gt by (intro exI [of _ "?w\<lparr>noa_num := 0\<rparr>"]) (simp add: noa_update_def noa_descriptors_def)
  next
    case False
    have "noa_arrays ?w" using assms(1) by (simp add: noa_arrays_def)
    from noa_fill_all [OF this assms(2,3)] obtain w' where w': "same_p2p ?w w'"
        "noa_fill m (of_nat n) 2 0 ?w = (if n \<le> 28 then Some (Some (of_nat (noa_descriptors n), w')) else Some None)"
      using False assms(4) by auto
    then show ?thesis
      using gt False assms(4)
      by (intro exI [of _ "w'\<lparr>noa_num := of_nat (noa_descriptors n)\<rparr>"]) (simp add: noa_update_def same_p2p_def)
  qed
qed

section \<open>A beacon\<close>

lemma sint_after_header:
  assumes "12 \<le> n" and "n < 2 ^ 31"
  shows "sint (of_nat n - 12 :: u32) = int n - 12"
proof -
  have w: "of_nat n - 12 = (word_of_int (int n - 12) :: u32)" by simp
  have "int n < 2 ^ 31" using assms(2) by (simp only: of_nat_less_numeral_power_cancel_iff)
  then have "signed_take_bit 31 (int n - 12) = int n - 12" using assms(1) by (intro signed_take_bit_int_eq_self) linarith+
  then show ?thesis unfolding w by (simp only: sint_sbintrunc') simp
qed

lemma p2p_ie_first:
  assumes "5 < n"
  shows "rtw_get_p2p_ie (pre @ (WLAN_EID_VENDOR_SPECIFIC # l # p2p_oui) @ rest) (Some (length pre)) n None =
     Some (Some (length pre), ucast l + 2, None)"
proof -
  let ?m = "pre @ (WLAN_EID_VENDOR_SPECIFIC # l # p2p_oui) @ rest"
  have "byte_at ?m (length pre + 0) = Some WLAN_EID_VENDOR_SPECIFIC" "byte_at ?m (length pre + 0 + 1) = Some l"
    by (simp_all add: byte_at_def nth_append)
  moreover have "rtw_memcmp ?m (length pre + 0 + 2) p2p_oui = Some True"
    using mem_rd_append [of "pre @ [WLAN_EID_VENDOR_SPECIFIC, l]" p2p_oui rest] by (simp add: rtw_memcmp_def)
  moreover have "0 + 1 + 4 < nat n" "\<not> 0 + 1 + 4 \<ge> MAX_IE_SZ" using assms by (simp_all add: MAX_IE_SZ_def)
  ultimately show ?thesis
    using assms by (simp add: rtw_get_p2p_ie_def oui_ie_loop.simps [of _ _ _ _ _ 0] copy_out_def)
qed

lemma noa_content_found:
  assumes "\<forall>e \<in> set es1. fst e \<noteq> P2P_ATTR_NOA" and "es = es1 @ (P2P_ATTR_NOA, c) # es2"
    and "unat l = 4 + length (tlv_enc p2p_hdr es)" and "length buf = 256"
  shows "\<exists>p. rtw_get_p2p_attr_content (pre @ (WLAN_EID_VENDOR_SPECIFIC # (l :: u8) # p2p_oui) @ tlv_enc p2p_hdr es @ post)
     (Some (length pre)) (ucast l + 2) P2P_ATTR_NOA (Some buf) =
       Some (Some (Some p, of_nat (length c), Some (c @ drop (length c) buf)))"
proof -
  let ?A = "(pre @ WLAN_EID_VENDOR_SPECIFIC # l # p2p_oui) @ tlv_enc p2p_hdr es1 @ p2p_hdr P2P_ATTR_NOA (length c)"
  let ?m = "pre @ (WLAN_EID_VENDOR_SPECIFIC # l # p2p_oui) @ tlv_enc p2p_hdr es @ post"
  let ?q = "length pre + 6 + length (tlv_enc p2p_hdr es1)"
  have small: "length (tlv_enc p2p_hdr es) \<le> 251" using assms(3) unsigned_less [of l, where 'a = nat] by simp
  have len: "length (snd e) \<le> 251" if "e \<in> set es" for e
    using that small member_le_sum_list [of "3 + length (snd e)" "map (\<lambda>e. 3 + length (snd e)) es"]
    by (simp add: p2p.enc_length)
  have u: "unat (ucast l + 2 :: u32) = 6 + length (tlv_enc p2p_hdr es)"
    using assms(3) small unat_add_lem [of "ucast l :: u32" 2] by (simp add: unat_ucast_up)
  have tf: "tlv_first 3 (\<lambda>e. fst e = P2P_ATTR_NOA) es k = Some (k + length (tlv_enc p2p_hdr es1), (P2P_ATTR_NOA, c))" for k
    using assms(1) unfolding assms(2)
    by (induction es1 arbitrary: k) (auto simp: p2p.enc_length)
  have attr: "rtw_get_p2p_attr ?m (Some (length pre)) (ucast l + 2) P2P_ATTR_NOA None =
      Some (Some (Some ?q, of_nat (length c) + 3, None))"
  proof -
    have e: "\<forall>e \<in> set es. length (snd e) < 65533" "es \<noteq> []"
      by (intro ballI, drule len, simp) (simp add: assms(2))
    show ?thesis
      unfolding p2p_attr_finds_first [OF e u] tf [of "length pre + 6"] by simp
  qed
  have c: "length c \<le> 251" using len [of "(P2P_ATTR_NOA, c)"] assms(2) by simp
  then have n: "(of_nat (length c) + 3 :: u32) \<noteq> 0" "unat (of_nat (length c) :: u32) = length c"
    by (simp_all add: unat_of_nat take_bit_nat_eq_self word_unat_eq_iff unat_word_ariths)
  have m: "?m = ?A @ c @ tlv_enc p2p_hdr es2 @ post"
    by (simp add: assms(2) p2p.enc_append p2p.enc_Cons)
  have A: "length ?A = ?q + 3" by (simp add: p2p_oui_def p2p.hdr_length)
  have "mem_rd ?m (?q + 3) (length c) = Some c"
    unfolding m A [symmetric] by (rule mem_rd_append)
  moreover have "mem_wr buf 0 c = Some (c @ drop (length c) buf)"
    using c assms(4) by (simp add: mem_wr_def)
  ultimately have "copy_out ?m (?q + 3) (length c) (Some buf) = Some (Some (c @ drop (length c) buf))"
    by (simp add: copy_out_def)
  then show ?thesis
    by (simp only: rtw_get_p2p_attr_content_def attr) (simp add: attr_content_def n)
qed

lemma queued_keeps_wdinfo [simp]: "wdinfo (snd (p2p_ps_wk_cmd E st True s)) = wdinfo s"
  by (simp add: p2p_ps_wk_cmd_def alloc_and_enqueue_def rtw_enqueue_cmd_def)

lemma noa_commands_keep:
  "noa_index (wdinfo (noa_commands E s)) = noa_index (wdinfo s) \<and> opp_ps (wdinfo (noa_commands E s)) = opp_ps (wdinfo s) \<and>
   ctwindow (wdinfo (noa_commands E s)) = ctwindow (wdinfo s) \<and> noa_num (wdinfo (noa_commands E s)) = noa_num (wdinfo s)"
  by (simp add: noa_commands_def upd_wdinfo_def Let_def)

text \<open>
  C6: A beacon of the group that a station is connected to, whose first element is a P2P element with
  a notice of absence that is new, is read in memory exactly when the notice has at most 28 bytes; then
  the index, the flag, the window and the number of descriptors are those of the notice. A longer one
  makes the driver write behind its arrays.
\<close>

theorem beacon_noa_memory:
  assumes "\<forall>e \<in> set es1. fst e \<noteq> P2P_ATTR_NOA" and "es = es1 @ (P2P_ATTR_NOA, c) # es2" and "2 \<le> length c"
    and "unat l = 4 + length (tlv_enc p2p_hdr es)" and "length pre = 12"
    and "m = pre @ (WLAN_EID_VENDOR_SPECIFIC # (l :: u8) # p2p_oui) @ tlv_enc p2p_hdr es @ post" and "length m < 2 ^ 31"
    and "p2p_state (wdinfo s) \<noteq> P2P_STATE_NONE" and "noa_arrays (wdinfo s)"
    and "p2p_ps_mode (wdinfo s) = P2P_PS_NONE \<or> c ! 0 \<noteq> noa_index (wdinfo s)"
  shows "\<exists>s'. process_p2p_ps_ie E m (of_nat (length m)) s = (if length c \<le> 28 then Some (Some s') else Some None) \<and>
     noa_index (wdinfo s') = c ! 0 \<and> opp_ps (wdinfo s') = drop_bit 7 (c ! 1) \<and> ctwindow (wdinfo s') = c ! 1 AND 0x7F \<and>
     noa_num (wdinfo s') = of_nat (noa_descriptors (length c))"
proof -
  let ?buf = "c @ drop (length c) (replicate 256 0)"
  have c: "length c \<le> 251"
    using assms(4) unsigned_less [of l, where 'a = nat] by (simp add: assms(2) p2p.enc_append p2p.enc_Cons p2p.hdr_length)
  have b: "?buf ! 0 = c ! 0" "?buf ! 1 = c ! 1" "length ?buf = 256"
    using assms(3) c by (auto simp: nth_append)
  obtain w' where w': "noa_index w' = c ! 0" "opp_ps w' = drop_bit 7 (c ! 1)" "ctwindow w' = c ! 1 AND 0x7F"
      "noa_num w' = of_nat (noa_descriptors (length c))"
      "noa_update ?buf (of_nat (length c)) (wdinfo s) = (if length c \<le> 28 then Some (Some w') else Some None)"
    using noa_update_all [OF assms(9) b(3) _ assms(3)] c b(1,2) by auto
  let ?s' = "noa_commands E (s\<lparr>wdinfo := w'\<rparr>)"
  have found: "noa_found E ?buf (of_nat (length c)) s = (if length c \<le> 28 then Some (Some ?s') else Some None)"
    using assms(10) b(1) w'(5) by (auto simp: noa_found_def)
  obtain p where p: "rtw_get_p2p_attr_content m (Some 12) (ucast l + 2) P2P_ATTR_NOA (Some (replicate 256 0)) =
      Some (Some (Some p, of_nat (length c), Some ?buf))"
    using noa_content_found [OF assms(1,2,4), of "replicate 256 0" pre post] assms(5,6) by auto
  have n: "unat (of_nat (length m) :: u32) = length m" using assms(7) by (simp add: unat_of_nat take_bit_nat_eq_self)
  have l: "length m \<ge> 12 + 6 + 3" by (simp add: assms(2,5,6) p2p_oui_def p2p.enc_append p2p.enc_Cons p2p.hdr_length)
  have "sint (of_nat (length m) - 12 :: u32) = int (length m) - 12" by (rule sint_after_header) (use l assms(7) in simp_all)
  then have first: "rtw_get_p2p_ie m (Some 12) (sint (of_nat (length m) - 12 :: u32)) None = Some (Some 12, ucast l + 2, None)"
    using p2p_ie_first [of "int (length m) - 12" pre l] assms(5,6) l by simp
  have "\<not> of_nat (length m) \<le> (12 :: u32)" using n l by (simp add: word_le_nat_alt)
  then have "process_p2p_ps_ie E m (of_nat (length m)) s = (if length c \<le> 28 then Some (Some ?s') else Some None)"
    using assms(8) first p found
    by (subst process_p2p_ps_ie_def) (simp add: BEACON_IE_OFFSET_def MAX_P2P_IE_LEN_def noa_search.simps [of _ _ _ _ "Some 12"])
  moreover have "noa_index (wdinfo ?s') = noa_index w' \<and> opp_ps (wdinfo ?s') = opp_ps w' \<and>
      ctwindow (wdinfo ?s') = ctwindow w' \<and> noa_num (wdinfo ?s') = noa_num w'"
    by (simp add: noa_commands_keep)
  ultimately show ?thesis using w'(1-4) by (intro exI [of _ ?s']) simp
qed

text \<open>Two descriptors are stored; a third is written behind the arrays.\<close>

definition noa_beacon_ex :: "u8 \<Rightarrow> bytes \<Rightarrow> bytes" where
  "noa_beacon_ex l c = replicate 12 0 @ (WLAN_EID_VENDOR_SPECIFIC # l # p2p_oui) @ tlv_enc p2p_hdr [(P2P_ATTR_NOA, c)] @ []"

lemma beacon_noa_memory_witness:
  "(\<exists>s'. process_p2p_ps_ie ps_env_ex (noa_beacon_ex 35 (5 # 0x8A # replicate 26 1)) 49 ps_ex = Some (Some s') \<and>
      noa_index (wdinfo s') = 5 \<and> opp_ps (wdinfo s') = 1 \<and> ctwindow (wdinfo s') = 10 \<and> noa_num (wdinfo s') = 2) \<and>
   process_p2p_ps_ie ps_env_ex (noa_beacon_ex 46 (5 # 0x8A # replicate 37 1)) 60 ps_ex = Some None"
proof -
  have s: "p2p_state (wdinfo ps_ex) \<noteq> P2P_STATE_NONE" "noa_arrays (wdinfo ps_ex)"
    "p2p_ps_mode (wdinfo ps_ex) = P2P_PS_NONE \<or> c ! 0 \<noteq> noa_index (wdinfo ps_ex)" for c :: bytes
    by (simp_all add: ps_at_def wdinfo_ex_def noa_arrays_def)
  have n: "noa_descriptors 28 = 2" by (simp add: noa_descriptors_def)
  have l: "length (noa_beacon_ex l c) = 21 + length c" for l c
    by (simp add: noa_beacon_ex_def p2p_oui_def p2p.enc_Cons p2p.hdr_length tlv_enc_def)
  note run = beacon_noa_memory [OF _ _ _ _ _ refl _ s(1,2) s(3), of "[]" "[(P2P_ATTR_NOA, c)]" c "[]" l "replicate 12 0" "[]" ps_env_ex
     for c l, folded noa_beacon_ex_def, unfolded l, simplified]
  show ?thesis
    using run [of "5 # 0x8A # replicate 26 1" 35] run [of "5 # 0x8A # replicate 37 1" 46]
    by (simp add: p2p.enc_Cons p2p.hdr_length tlv_enc_def n)
qed

end
