(* ===== verification/Ps_Run.thy ===== *)
theory Ps_Run
  imports Ps_Noa
begin

text \<open>
  Runs of the power saving code: a step relation over all its entry points, interleaved with what
  other parts of the driver do to the state they share, and an invariant of every state that is
  reached. What the surroundings may do while the code sleeps, or between its steps, is a relation on
  states that keeps the fields the component owns.
\<close>

section \<open>The invariant\<close>

definition mode_ok :: "pwrctrl_priv \<Rightarrow> bool" where
  "mode_ok p \<longleftrightarrow> (bLeisurePs p \<longleftrightarrow> power_mgnt p \<noteq> PS_MODE_ACTIVE) \<and> pwr_mode p < PS_MODE_NUM \<and>
     (tog p = 0 \<or> tog p = 0x80) \<and> rpwm p \<le> 0x0F \<and> cpwm p \<le> 0x0F"

definition noa_ok :: "wifidirect_info \<Rightarrow> bool" where
  "noa_ok w \<longleftrightarrow> noa_arrays w \<and> noa_num w \<le> 2"

text \<open>The last two conditions are on the marks that an operation sets while it runs.\<close>

definition ps_good :: "bool \<Rightarrow> bool \<Rightarrow> 'h ps_sys \<Rightarrow> bool" where
  "ps_good ips ps s \<longleftrightarrow> mode_ok (pwrctl s) \<and> noa_ok (wdinfo s) \<and> LastHMEBoxNum (ps_hal s) < MAX_H2C_BOX_NUMS \<and>
     (bFwCurrentInPSMode (ps_hal s) \<longrightarrow> pwr_mode (pwrctl s) \<noteq> PS_MODE_ACTIVE) \<and>
     (bips_processing (pwrctl s) \<longrightarrow> ips) \<and> (ps_processing (pwrctl s) \<longrightarrow> ps)"

text \<open>What other contexts leave alone.\<close>

definition ps_rely :: "'h ps_sys \<Rightarrow> 'h ps_sys \<Rightarrow> bool" where
  "ps_rely s s' \<longleftrightarrow>
     (let p = pwrctl s; p' = pwrctl s'
      in power_mgnt p' = power_mgnt p \<and> bLeisurePs p' = bLeisurePs p \<and> pwr_mode p' = pwr_mode p \<and>
         tog p' = tog p \<and> rpwm p' = rpwm p \<and> cpwm p' = cpwm p \<and>
         (bips_processing p' \<longrightarrow> bips_processing p) \<and> (ps_processing p' \<longrightarrow> ps_processing p) \<and>
         (bFwCurrentInPSMode (ps_hal s') \<longrightarrow> bFwCurrentInPSMode (ps_hal s)) \<and>
         (LastHMEBoxNum (ps_hal s') = LastHMEBoxNum (ps_hal s) \<or> LastHMEBoxNum (ps_hal s') = 0) \<and>
         noa_arrays (wdinfo s') = noa_arrays (wdinfo s) \<and>
         (noa_num (wdinfo s') = noa_num (wdinfo s) \<or> noa_num (wdinfo s') = 0))"

definition env_ok :: "'h ps_env \<Rightarrow> bool" where
  "env_ok E \<longleftrightarrow> (\<forall>n s. ps_rely s (env_msleep E n s)) \<and> (\<forall>s. ps_rely s (snd (env_hal_init E s)))"

lemma ps_rely_good:
  assumes "ps_rely s s'" and "ps_good i p s"
  shows "ps_good i p s'"
proof -
  note r = assms(1) [unfolded ps_rely_def Let_def]
  have "mode_ok (pwrctl s')" using r assms(2) by (simp add: ps_good_def mode_ok_def)
  moreover have "noa_num (wdinfo s') \<le> 2" using r assms(2) by (elim conjE disjE) (simp_all add: ps_good_def noa_ok_def)
  then have "noa_ok (wdinfo s')" using r assms(2) by (simp add: ps_good_def noa_ok_def)
  moreover have "LastHMEBoxNum (ps_hal s') < MAX_H2C_BOX_NUMS"
    using r assms(2) by (elim conjE disjE) (simp_all add: ps_good_def MAX_H2C_BOX_NUMS_def)
  ultimately show ?thesis using r assms(2) by (simp add: ps_good_def)
qed

named_theorems good_intros

section \<open>Operations on the device\<close>

text \<open>What a field of the state is after one.\<close>

lemma dev_op_fields [simp]:
  "pwrctl (snd (dev_op m s)) = pwrctl s" "wdinfo (snd (dev_op m s)) = wdinfo s" "ps_hal (snd (dev_op m s)) = ps_hal s"
  "hw_init_completed (snd (dev_op m s)) = hw_init_completed s" "fw_state (snd (dev_op m s)) = fw_state s"
  "pwr_state_check_timer (snd (dev_op m s)) = pwr_state_check_timer s"
  by (simp_all add: dev_op_def split: prod.splits)

lemma dev_op_good [good_intros]: "ps_good i p s \<Longrightarrow> ps_good i p (snd (dev_op m s))"
  by (simp add: ps_good_def)

text \<open>A command changes nothing in the record of the firmware but the number of the next box.\<close>

definition box_step :: "fw_hal \<Rightarrow> fw_hal \<Rightarrow> bool" where
  "box_step h h' \<longleftrightarrow> h' = h \<or> h' = h\<lparr>LastHMEBoxNum := (LastHMEBoxNum h + 1) mod MAX_H2C_BOX_NUMS\<rparr>"

lemma FillH2CCmd_box: "box_step h (snd (fst (run_state (FillH2CCmd8188F H h e p) d)))"
  by (simp add: FillH2CCmd8188F_def box_step_def Let_def split: option.splits prod.splits)

lemma post_h2c_box: "box_step h (fst (run_state (post_h2c H h e p) d))"
  using FillH2CCmd_box [of h H e "Some p" d] by (auto simp: post_h2c_def split: prod.splits)

lemma box_step_good:
  assumes "ps_good i p s" and "box_step (ps_hal s) h"
  shows "ps_good i p (s\<lparr>ps_hal := h\<rparr>)"
proof -
  have "(n + 1) mod 4 < (4 :: u8)" for n :: u8 by (simp add: word_mod_less_divisor)
  then show ?thesis using assms by (auto simp: ps_good_def box_step_def MAX_H2C_BOX_NUMS_def)
qed

section \<open>Each operation\<close>

lemma good_other_fields [simp]:
  "ps_good i p (s\<lparr>bMacPwrCtrlOn := b\<rparr>) = ps_good i p s" "ps_good i p (s\<lparr>hw_init_completed := b\<rparr>) = ps_good i p s"
  "ps_good i p (s\<lparr>p2p_ps_offload := o8\<rparr>) = ps_good i p s" "ps_good i p (s\<lparr>LinkDetectInfo := l\<rparr>) = ps_good i p s"
  "ps_good i p (s\<lparr>bDriverStopped := b\<rparr>) = ps_good i p s" "ps_good i p (s\<lparr>net_closed := b\<rparr>) = ps_good i p s"
  "ps_good i p (s\<lparr>bLinkInfoDump := o8\<rparr>) = ps_good i p s" "ps_good i p (s\<lparr>fw_state := w\<rparr>) = ps_good i p s"
  "ps_good i p (s\<lparr>power_mgmt := b\<rparr>) = ps_good i p s" "ps_good i p (s\<lparr>tx_pkts := q\<rparr>) = ps_good i p s"
  "ps_good i p (s\<lparr>rx_pkts := q\<rparr>) = ps_good i p s" "ps_good i p (s\<lparr>pwr_state_check_timer := t\<rparr>) = ps_good i p s"
  "ps_good i p (s\<lparr>dynamic_chk_timer := t\<rparr>) = ps_good i p s" "ps_good i p (s\<lparr>cmd_queue := cs\<rparr>) = ps_good i p s"
  "ps_good i p (s\<lparr>ps_calls := cl\<rparr>) = ps_good i p s" "ps_good i p (s\<lparr>ps_dev := d\<rparr>) = ps_good i p s"
  by (simp_all add: ps_good_def)

lemma good_logged [simp]: "ps_good i p (ps_log c s) = ps_good i p s" "ps_good i p (set_pwr_state_check_timer s) = ps_good i p s"
  by (simp_all add: ps_log_def set_pwr_state_check_timer_def)

text \<open>Changes of the fields of \<open>struct pwrctrl_priv\<close> and of the state of Wi-Fi Direct.\<close>

lemma good_upd_pwr:
  assumes "ps_good i p s" and "mode_ok (pwrctl s) \<Longrightarrow> mode_ok (f (pwrctl s))"
    and "pwr_mode (f (pwrctl s)) = PS_MODE_ACTIVE \<longrightarrow> pwr_mode (pwrctl s) = PS_MODE_ACTIVE"
    and "bips_processing (f (pwrctl s)) \<longrightarrow> j" and "ps_processing (f (pwrctl s)) \<longrightarrow> q"
  shows "ps_good j q (upd_pwr f s)"
  using assms by (auto simp: ps_good_def upd_pwr_def)

lemma good_upd_wdinfo: "ps_good i p s \<Longrightarrow> noa_ok (f (wdinfo s)) \<Longrightarrow> ps_good i p (upd_wdinfo f s)"
  by (simp add: ps_good_def upd_wdinfo_def)

lemma ps_goodD: "ps_good i p s \<Longrightarrow> bips_processing (pwrctl s) \<longrightarrow> i" "ps_good i p s \<Longrightarrow> ps_processing (pwrctl s) \<longrightarrow> p"
  "ps_good i p s \<Longrightarrow> mode_ok (pwrctl s)" "ps_good i p s \<Longrightarrow> noa_ok (wdinfo s)"
  by (simp_all add: ps_good_def)

lemma hal_op_box_good:
  assumes "ps_good i p s" and "\<And>d. box_step (ps_hal s) (fst (run_state (f (ps_hal s)) d))"
  shows "ps_good i p (hal_op f s)"
proof -
  have "hal_op f s = (snd (dev_op (f (ps_hal s)) s))\<lparr>ps_hal := fst (run_state (f (ps_hal s)) (ps_dev s))\<rparr>"
    by (simp add: hal_op_def dev_op_def split: prod.splits)
  then show ?thesis by (simp only:) (rule box_step_good [OF dev_op_good [OF assms(1)]], simp add: assms(2))
qed

lemma set_hwreg_SET_RPWM_good [good_intros]: "ps_good i p s \<Longrightarrow> ps_good i p (set_hwreg_SET_RPWM H v s)"
  by (simp add: set_hwreg_SET_RPWM_def dev_op_good)

lemma set_hwreg_PWRMODE_good [good_intros]: "ps_good i p s \<Longrightarrow> ps_good i p (set_hwreg_H2C_FW_PWRMODE H m s)"
  by (simp add: set_hwreg_H2C_FW_PWRMODE_def Let_def, intro conjI impI hal_op_box_good)
    (simp_all add: rtl8188f_set_FwPwrMode_cmd_def post_h2c_box)

text \<open>The registers of the notices are written, and the command is posted.\<close>

lemma p2p_offload_byte_keeps:
  "\<exists>st'. snd (fst (run_state (p2p_ps_offload_byte H w off st) d)) = w\<lparr>p2p_ps_state := st'\<rparr>"
  by (cases st) (auto simp: p2p_ps_offload_byte_def Let_def split: prod.splits intro: exI [of _ "p2p_ps_state w"])

lemma set_hwreg_P2P_good [good_intros]:
  assumes "ps_good i p s"
  shows "ps_good i p (set_hwreg_H2C_FW_P2P_PS_OFFLOAD H st s)"
proof -
  let ?r = "run_state (p2p_ps_offload_byte H (wdinfo s) (p2p_ps_offload s) st) (ps_dev s)"
  let ?h = "run_state (post_h2c H (ps_hal s) H2C_8188F_P2P_PS_OFFLOAD [fst (fst ?r)]) (snd ?r)"
  have "set_hwreg_H2C_FW_P2P_PS_OFFLOAD H st s =
      (s\<lparr>ps_dev := snd ?h, ps_hal := fst ?h\<rparr>)\<lparr>wdinfo := snd (fst ?r), p2p_ps_offload := fst (fst ?r)\<rparr>"
    by (simp add: set_hwreg_H2C_FW_P2P_PS_OFFLOAD_def rtl8188f_set_p2p_ps_offload_cmd_def dev_op_def split: prod.splits)
  moreover have "ps_good i p (s\<lparr>ps_dev := snd ?h, ps_hal := fst ?h\<rparr>)"
    using box_step_good [OF dev_op_good [OF assms] post_h2c_box] assms box_step_good [of i p "s\<lparr>ps_dev := snd ?h\<rparr>" "fst ?h"]
    by (simp add: post_h2c_box)
  moreover obtain st' where "snd (fst ?r) = (wdinfo s)\<lparr>p2p_ps_state := st'\<rparr>" using p2p_offload_byte_keeps by blast
  ultimately show ?thesis by (simp add: ps_good_def noa_ok_def noa_arrays_def)
qed

lemma rtw_set_rpwm_good [good_intros]:
  assumes "ps_good i p s"
  shows "ps_good i p (rtw_set_rpwm H level s)"
proof -
  have n: "0x0F AND level \<le> (0x0F :: u8)" by (simp add: word_and_le2 word_and_le1)
  note pwr = good_upd_pwr [where i = i and j = i and p = p and q = p]
  note marks = ps_goodD(1,2) [of i p]
  let ?a = "upd_pwr (\<lambda>p. p\<lparr>rpwm := 0x0F AND level\<rparr>) s"
  let ?b = "set_hwreg_SET_RPWM H ((0x0F AND level) OR tog (pwrctl s)) ?a"
  let ?c = "upd_pwr (\<lambda>p. p\<lparr>tog := tog p + 0x80\<rparr>) ?b"
  have "ps_good i p ?a" by (rule pwr [OF assms]) (use n marks [OF assms] in \<open>simp_all add: mode_ok_def\<close>)
  then have b: "ps_good i p ?b" by (rule good_intros)
  have c: "ps_good i p ?c" by (rule pwr [OF b]) (use marks [OF b] in \<open>auto simp: mode_ok_def\<close>)
  have "ps_good i p (upd_pwr (\<lambda>p. p\<lparr>cpwm := 0x0F AND level\<rparr>) ?c)"
    by (rule pwr [OF c]) (use n marks [OF c] in \<open>simp_all add: mode_ok_def\<close>)
  moreover have "ps_good i p (upd_pwr (\<lambda>p. p\<lparr>cpwm := PS_STATE_S4\<rparr>) s)"
    by (rule pwr [OF assms]) (use marks [OF assms] in \<open>simp_all add: mode_ok_def PS_STATE_S4_def\<close>)
  ultimately show ?thesis using assms by (simp add: rtw_set_rpwm_def Let_def)
qed

lemma smart_ps_good [good_intros]: "ps_good i p s \<Longrightarrow> ps_good i p (upd_pwr (\<lambda>p. p\<lparr>smart_ps := v\<rparr>) s)"
  by (simp add: ps_good_def upd_pwr_def mode_ok_def)

lemma p2p_state_good [good_intros]: "ps_good i p s \<Longrightarrow> ps_good i p (upd_wdinfo (\<lambda>w. w\<lparr>p2p_ps_state := st\<rparr>) s)"
  by (rule good_upd_wdinfo) (simp_all add: ps_good_def noa_ok_def noa_arrays_def)

lemma p2p_reset_good [good_intros]:
  "ps_good i p s \<Longrightarrow>
   ps_good i p (upd_wdinfo (\<lambda>w. w\<lparr>noa_index := 0, ctwindow := 0, opp_ps := 0, noa_num := 0, p2p_ps_mode := P2P_PS_NONE\<rparr>) s)"
  by (rule good_upd_wdinfo) (simp_all add: ps_good_def noa_ok_def noa_arrays_def)

lemma p2p_ps_wk_hdl_good [good_intros]: "ps_good i p s \<Longrightarrow> ps_good i p (p2p_ps_wk_hdl H st s)"
  by (simp add: p2p_ps_wk_hdl_def Let_def good_intros split: P2P_PS_STATE.split)

lemma enqueue_good [good_intros]: "ps_good i p s \<Longrightarrow> ps_good i p (snd (alloc_and_enqueue E c s))"
  by (simp add: alloc_and_enqueue_def rtw_enqueue_cmd_def)

lemma p2p_ps_wk_cmd_good [good_intros]: "ps_good i p s \<Longrightarrow> ps_good i p (snd (p2p_ps_wk_cmd E st enq s))"
  by (simp add: p2p_ps_wk_cmd_def good_intros)

text \<open>A new mode: the mark of the firmware is set after the mode, and cleared with it.\<close>

lemma fw_awake_good: "ps_good i p s \<Longrightarrow> ps_good i p (s\<lparr>ps_hal := (ps_hal s)\<lparr>bFwCurrentInPSMode := False\<rparr>\<rparr>)"
  by (simp add: ps_good_def)

definition ps_marked :: "u8 \<Rightarrow> u8 \<Rightarrow> u8 \<Rightarrow> 'h ps_sys \<Rightarrow> 'h ps_sys" where
  "ps_marked m sps bam s =
     upd_pwr (\<lambda>p. p\<lparr>pwr_mode := m, smart_ps := sps, bcn_ant_mode := bam\<rparr>)
       ((upd_pwr (\<lambda>p. p\<lparr>lps_enter_cnts := count_up (lps_enter_cnts p)\<rparr>) s)\<lparr>ps_hal := (ps_hal s)\<lparr>bFwCurrentInPSMode := True\<rparr>\<rparr>)"

lemma ps_marked_good: "ps_good i p s \<Longrightarrow> m \<noteq> PS_MODE_ACTIVE \<Longrightarrow> m < PS_MODE_NUM \<Longrightarrow> ps_good i p (ps_marked m sps bam s)"
  by (simp add: ps_marked_def ps_good_def mode_ok_def upd_pwr_def)

lemma hal_op_split: "hal_op f s = s\<lparr>ps_dev := snd (run_state (f (ps_hal s)) (ps_dev s)), ps_hal := fst (run_state (f (ps_hal s)) (ps_dev s))\<rparr>"
  by (simp add: hal_op_def dev_op_def split: prod.splits)

lemma set_hwreg_PWRMODE_fields:
  "pwrctl (set_hwreg_H2C_FW_PWRMODE H m s) = pwrctl s" "wdinfo (set_hwreg_H2C_FW_PWRMODE H m s) = wdinfo s"
  "box_step (ps_hal s) (ps_hal (set_hwreg_H2C_FW_PWRMODE H m s))"
  by (simp_all add: set_hwreg_H2C_FW_PWRMODE_def hal_op_split ps_log_def rtl8188f_set_FwPwrMode_cmd_def Let_def post_h2c_box)

lemma rtw_set_rpwm_hal: "rtw_set_rpwm H level (s\<lparr>ps_hal := h\<rparr>) = (rtw_set_rpwm H level s)\<lparr>ps_hal := h\<rparr>"
  by (simp add: rtw_set_rpwm_def set_hwreg_SET_RPWM_def upd_pwr_def dev_op_def Let_def split: prod.splits)

lemma rtw_set_rpwm_fields [simp]:
  "ps_hal (rtw_set_rpwm H level s) = ps_hal s" "wdinfo (rtw_set_rpwm H level s) = wdinfo s"
  "pwr_mode (pwrctl (rtw_set_rpwm H level s)) = pwr_mode (pwrctl s)"
  by (simp_all add: rtw_set_rpwm_def set_hwreg_SET_RPWM_def upd_pwr_def Let_def)

lemma wake_good:
  assumes "ps_good i p (s\<lparr>ps_hal := (ps_hal s)\<lparr>bFwCurrentInPSMode := False\<rparr>\<rparr>)"
  shows "ps_good i p ((set_hwreg_H2C_FW_PWRMODE H m s)\<lparr>ps_hal := (ps_hal (set_hwreg_H2C_FW_PWRMODE H m s))\<lparr>bFwCurrentInPSMode := False\<rparr>\<rparr>)"
proof -
  have "box_step (ps_hal s) h \<Longrightarrow> LastHMEBoxNum h < MAX_H2C_BOX_NUMS" for h
    using box_step_good [OF assms, of "h\<lparr>bFwCurrentInPSMode := False\<rparr>"] by (auto simp: ps_good_def box_step_def)
  then show ?thesis using assms set_hwreg_PWRMODE_fields [where H = H and m = m and s = s] by (simp add: ps_good_def)
qed

lemma rtw_set_ps_mode_good [good_intros]:
  assumes "ps_good i p s"
  shows "ps_good i p (rtw_set_ps_mode E m sps bam s)"
proof -
  let ?off = "\<lambda>s. s\<lparr>ps_hal := (ps_hal s)\<lparr>bFwCurrentInPSMode := False\<rparr>\<rparr>"
  let ?a = "upd_pwr (\<lambda>p. p\<lparr>lps_leave_cnts := count_up (lps_leave_cnts p), pwr_mode := PS_MODE_ACTIVE\<rparr>) s"
  have "ps_good i p (?off ?a)" using assms by (simp add: ps_good_def upd_pwr_def mode_ok_def ps_modes)
  from rtw_set_rpwm_good [OF this, of "env_host E" PS_STATE_S4]
  have "ps_good i p (?off (rtw_set_rpwm (env_host E) PS_STATE_S4 ?a))"
    by (simp add: rtw_set_rpwm_hal)
  note wake = wake_good [OF this, of "env_host E" PS_MODE_ACTIVE]
  have "m \<noteq> PS_MODE_ACTIVE \<Longrightarrow> \<not> m > PM_Card_Disable \<Longrightarrow> ps_good i p (ps_marked m sps bam s)"
    by (rule ps_marked_good [OF assms]) (auto simp: ps_modes word_le_nat_alt word_less_nat_alt)
  then show ?thesis
    using assms wake by (auto simp: rtw_set_ps_mode_def Let_def ps_marked_def upd_pwr_def intro!: good_intros)
qed

text \<open>Counters and marks that the invariant does not speak of.\<close>

lemma count_good [good_intros]:
  "ps_good i p s \<Longrightarrow> ps_good i p (upd_pwr (\<lambda>p. p\<lparr>bpower_saving := b\<rparr>) s)"
  "ps_good i p s \<Longrightarrow> ps_good i p (upd_pwr (\<lambda>p. p\<lparr>LpsIdleCount := LpsIdleCount p + 1\<rparr>) s)"
  "ps_good i p s \<Longrightarrow> ps_good i p (upd_pwr (\<lambda>p. p\<lparr>LpsIdleCount := k\<rparr>) s)"
  "ps_good i p s \<Longrightarrow> ps_good i p (upd_pwr (\<lambda>p. p\<lparr>DelayLPSLastTimeStamp := t\<rparr>) s)"
  "ps_good i p s \<Longrightarrow> ps_good i p (upd_pwr (\<lambda>p. p\<lparr>dtim := d\<rparr>) s)"
  "ps_good i p s \<Longrightarrow> ps_good i p (upd_pwr (\<lambda>p. p\<lparr>pwr_state_check_cnts := 0\<rparr>) s)"
  "ps_good i p s \<Longrightarrow> ps_good i p (upd_pwr (\<lambda>p. p\<lparr>rf_pwrstate := r\<rparr>) s)"
  "ps_good i p s \<Longrightarrow> ps_good i p (upd_pwr (\<lambda>p. p\<lparr>change_rfpwrstate := r\<rparr>) s)"
  "ps_good i p s \<Longrightarrow> ps_good i p (upd_pwr (\<lambda>p. p\<lparr>ips_deny_time := t\<rparr>) s)"
  "ps_good i p s \<Longrightarrow> ps_good i p (upd_pwr (\<lambda>p. p\<lparr>ips_mode_req := k\<rparr>) s)"
  "ps_good i p s \<Longrightarrow> ps_good i p (upd_pwr (\<lambda>p. p\<lparr>ps_deny := g (ps_deny p)\<rparr>) s)"
  by (simp_all add: ps_good_def upd_pwr_def mode_ok_def)

lemma LPS_Enter_good [good_intros]: "ps_good i p s \<Longrightarrow> ps_good i p (LPS_Enter E s)"
  by (simp add: LPS_Enter_def Let_def good_intros)

lemma get_RF_ON_good: "ps_good i p s \<Longrightarrow> ps_good i p (snd (get_hwreg_FWLPS_RF_ON H s))"
  using dev_op_good [of i p s "rtw_read32 H REG_RCR"]
  by (auto simp: get_hwreg_FWLPS_RF_ON_def split: prod.splits)

lemma LPS_RF_ON_loop_good:
  assumes "LPS_RF_ON_loop H t ms s = Some r" and "ps_good i p s"
  shows "ps_good i p (snd r)"
proof -
  have "ps_good i p s \<longrightarrow> ps_good i p (snd r)"
  proof (rule LPS_RF_ON_loop.raw_induct [where P = "\<lambda>H t ms s r. ps_good i p s \<longrightarrow> ps_good i p (snd r)", OF _ assms(1)], goal_cases)
    case (1 f H t ms s r)
    obtain b s1 where g: "get_hwreg_FWLPS_RF_ON H s = (b, s1)" by (cases "get_hwreg_FWLPS_RF_ON H s")
    show ?case
    proof
      assume "ps_good i p s"
      from get_RF_ON_good [OF this, of H] have s1: "ps_good i p s1" by (simp add: g)
      show "ps_good i p (snd r)"
        using 1(2) 1(1) [of H t ms "snd (dev_op (rtw_udelay_os H 100) s1)" r] s1 dev_op_good [OF s1]
        by (auto simp: g split: if_splits)
    qed
  qed
  then show ?thesis using assms(2) by blast
qed

text \<open>Operations that may not return keep the invariant when they do.\<close>

lemma LPS_Leave_good:
  assumes "LPS_Leave E s = Some s'" and "ps_good i p s"
  shows "ps_good i p s'"
proof -
  note mode = rtw_set_ps_mode_good [OF assms(2), of E PS_MODE_ACTIVE 0 0]
  have "ps_good i p (snd r)" if "LPS_RF_ON_check (env_host E) LPS_LEAVE_TIMEOUT_MS (rtw_set_ps_mode E PS_MODE_ACTIVE 0 0 s) = Some r" for r
    using LPS_RF_ON_loop_good [OF that [unfolded LPS_RF_ON_check_def] mode] .
  then show ?thesis
    using assms mode by (auto simp: LPS_Leave_def Let_def intro!: count_good split: if_splits)
qed

lemma lps_ctrl_wk_hdl_good:
  assumes "lps_ctrl_wk_hdl E t s = Some s'" and "ps_good i p s"
  shows "ps_good i p s'"
proof -
  have "ps_good i p (upd_pwr (\<lambda>p. p\<lparr>DelayLPSLastTimeStamp := get_current_time (env_host E) s\<rparr>) s)"
    by (rule count_good [OF assms(2)])
  note special = LPS_Leave_good [OF _ this]
  show ?thesis
    using assms LPS_Leave_good [OF _ assms(2)] special
    by (cases t) (auto simp: lps_ctrl_wk_hdl_def rtl8188f_set_FwJoinBssRpt_cmd_def intro!: good_intros split: if_splits)
qed

lemma rtw_lps_ctrl_wk_cmd_good:
  "rtw_lps_ctrl_wk_cmd E t enq s = Some r \<Longrightarrow> ps_good i p s \<Longrightarrow> ps_good i p (snd r)"
  by (auto simp: rtw_lps_ctrl_wk_cmd_def intro: enqueue_good lps_ctrl_wk_hdl_good split: if_splits)

lemma dtim_good [good_intros]: "ps_good i p s \<Longrightarrow> ps_good i p (rtw_lps_change_dtim_hdl H d s)"
  by (simp add: rtw_lps_change_dtim_hdl_def Let_def good_intros)

lemma traffic_status_watchdog_good:
  assumes "traffic_status_watchdog E from_timer s = Some r" and "ps_good i p s"
  shows "ps_good i p (snd r)"
proof -
  have logged: "ps_good i p (ps_log c s)" for c using assms(2) by simp
  note cmd = rtw_lps_ctrl_wk_cmd_good [where r = "(b, x)" for b x, simplified]
  note k = logged LPS_Leave_good [OF _ logged] LPS_Leave_good [OF _ assms(2)] cmd [OF _ assms(2)]
     cmd [OF _ logged] LPS_Enter_good [OF logged] LPS_Enter_good [OF assms(2)]
  show ?thesis
    using assms by (auto simp: traffic_status_watchdog_def Let_def intro: k split: if_splits prod.splits)
qed

section \<open>Inactive power save\<close>

lemma hal_deinit_keeps:
  "fst (fst (run_state (rtl8188fu_hal_deinit H hw pin down h) d)) \<in> {h, h\<lparr>bFWReady := False\<rparr>}"
  by (simp add: rtl8188fu_hal_deinit_def CardDisableRTL8188FU_def split: prod.splits)

lemma rtw_hal_deinit_good [good_intros]:
  assumes "ps_good i p s"
  shows "ps_good i p (rtw_hal_deinit H s)"
proof -
  let ?r = "run_state (rtl8188fu_hal_deinit H (hw_init_completed s) (bHWPwrPindetect (pwrctl s)) (bHWPowerdown (pwrctl s)) (ps_hal s)) (ps_dev s)"
  have "ps_good i p (s\<lparr>ps_dev := snd ?r, ps_hal := fst (fst ?r)\<rparr>)"
    using assms hal_deinit_keeps [of H "hw_init_completed s" "bHWPwrPindetect (pwrctl s)" "bHWPowerdown (pwrctl s)" "ps_hal s" "ps_dev s"]
    by (auto simp: ps_good_def)
  then show ?thesis by (auto simp: rtw_hal_deinit_def dev_op_def split: prod.splits)
qed

lemma rtw_ips_pwr_down_good [good_intros]: "ps_good i p s \<Longrightarrow> ps_good i p (rtw_ips_pwr_down H s)"
  by (simp add: rtw_ips_pwr_down_def rtw_ips_dev_unload_def Let_def good_intros)

lemma rtw_hal_init_good:
  assumes "env_ok E" and "ps_good i p s"
  shows "ps_good i p (snd (rtw_hal_init E s))"
proof -
  have "ps_good i p (snd (env_hal_init E s))"
    using assms ps_rely_good unfolding env_ok_def by blast
  then show ?thesis by (auto simp: rtw_hal_init_def Let_def split: prod.splits)
qed

lemma rtw_ips_pwr_up_good:
  assumes "env_ok E" and "ps_good i p s"
  shows "ps_good i p (snd (rtw_ips_pwr_up E s))"
proof -
  have "ps_good i p (rtw_reset_drv_sw s)"
    using assms(2) by (simp add: rtw_reset_drv_sw_def Let_def count_good)
  then have "ps_good i p ((rtw_reset_drv_sw s)\<lparr>net_closed := False, bDriverStopped := False\<rparr>)" by simp
  from rtw_hal_init_good [OF assms(1) this] show ?thesis
    by (auto simp: rtw_ips_pwr_up_def ips_netdrv_open_def split: prod.splits)
qed

text \<open>The marks are set on entry and cleared at the end.\<close>

lemma ips_mark_good:
  "ps_good i p s \<Longrightarrow> ps_good True p (upd_pwr (\<lambda>p. p\<lparr>bips_processing := True, ips_mode := ips_mode_req p, ips_enter_cnts := n p\<rparr>) s)"
  "ps_good i p s \<Longrightarrow> ps_good True p (upd_pwr (\<lambda>p. p\<lparr>bips_processing := True, change_rfpwrstate := r, ips_leave_cnts := n p\<rparr>) s)"
  "ps_good i p s \<Longrightarrow> ps_good i p (upd_pwr (\<lambda>p. p\<lparr>bpower_saving := b, bkeepfwalive := k p\<rparr>) s)"
  "ps_good True p s \<Longrightarrow> ps_good i p (upd_pwr (\<lambda>p. p\<lparr>bips_processing := False\<rparr>) s)"
  "ps_good True p s \<Longrightarrow> ps_good i p (upd_pwr (\<lambda>p. p\<lparr>bips_processing := False, bkeepfwalive := a, bpower_saving := b\<rparr>) s)"
  "ps_good i p s \<Longrightarrow> ps_good i True (upd_pwr (\<lambda>p. p\<lparr>ps_processing := True\<rparr>) s)"
  "ps_good i True s \<Longrightarrow> ps_good i p (upd_pwr (\<lambda>p. p\<lparr>ps_processing := False\<rparr>) s)"
  by (simp_all add: ps_good_def upd_pwr_def mode_ok_def)

lemma ips_enter_good:
  assumes "ps_good i p s"
  shows "ps_good i p (ips_enter H s)"
proof -
  note mark = ips_mark_good(1) [OF assms, of "\<lambda>p. ips_enter_cnts p + 1"]
  note down = count_good(7) [OF rtw_ips_pwr_down_good [OF ips_mark_good(3) [OF mark]]]
  show ?thesis unfolding ips_enter_def Let_def by (rule ips_mark_good(4)) (simp add: mark down)
qed

lemma ips_leave_good:
  assumes "env_ok E" and "ps_good i p s"
  shows "ps_good i p (snd (ips_leave E s))"
proof -
  note up = rtw_ips_pwr_up_good [OF assms(1) ips_mark_good(2) [OF assms(2), of "\<lambda>p. ips_leave_cnts p + 1" rf_on]]
  note fin = ips_mark_good(5) [OF up] ips_mark_good(5) [OF count_good(7) [OF up]]
  show ?thesis
    using assms(2) fin by (auto simp: ips_leave_def ips_leave_locked_def Let_def split: prod.splits)
qed

lemma rtw_ps_processor_good:
  assumes "ps_good i p s"
  shows "ps_good i p (rtw_ps_processor H s)"
proof -
  have u: "ps_good i True s" using assms by (simp add: ps_good_def)
  note mark = ips_mark_good(6) [OF assms]
  note enter = ips_enter_good [OF count_good(8) [OF mark]]
  show ?thesis
    using assms u mark enter by (auto simp: rtw_ps_processor_def Let_def intro!: ips_mark_good(7))
qed

section \<open>Leaving everything\<close>

lemma LeaveAll_good:
  "LeaveAllPowerSaveModeDirect E s = Some s' \<Longrightarrow> ps_good i p s \<Longrightarrow> ps_good i p s'"
  "LeaveAllPowerSaveMode E s = Some s' \<Longrightarrow> ps_good i p s \<Longrightarrow> ps_good i p s'"
  using rtw_lps_ctrl_wk_cmd_good [of E LPS_CTRL_LEAVE False] p2p_ps_wk_cmd_good [of i p s E P2P_PS_DISABLE False]
  by (auto simp: LeaveAllPowerSaveModeDirect_def LeaveAllPowerSaveMode_def Let_def split: if_splits)

lemma wait_while_good:
  assumes "env_ok E" and "wait_while E go s = Some s'" and "ps_good i p s"
  shows "ps_good i p s'"
proof -
  have "E = E \<longrightarrow> ps_good i p s \<longrightarrow> ps_good i p s'"
  proof (rule wait_while.raw_induct [where P = "\<lambda>E' go s s'. E' = E \<longrightarrow> ps_good i p s \<longrightarrow> ps_good i p s'", OF _ assms(2)], goal_cases)
    case (1 f E' go s s')
    then show ?case
      using assms(1) ps_rely_good [of s "env_msleep E 10 s"] by (auto simp: env_ok_def split: if_splits)
  qed
  then show ?thesis using assms(3) by blast
qed

lemma extend_ips_deny_good [good_intros]: "ps_good i p s \<Longrightarrow> ps_good i p (extend_ips_deny H ms s)"
  by (simp add: extend_ips_deny_def good_intros)

lemma pwr_wakeup_card_good: "env_ok E \<Longrightarrow> ps_good i p s \<Longrightarrow> ps_good i p (snd (pwr_wakeup_card E s))"
  using ips_leave_good [of E i p s] by (auto simp: pwr_wakeup_card_def split: prod.splits)

lemma rtw_pwr_wakeup_ex_good:
  assumes "env_ok E" and "rtw_pwr_wakeup_ex E ms s = Some r" and "ps_good i p s"
  shows "ps_good i p (snd r)"
proof -
  let ?x = "extend_ips_deny (env_host E) ms"
  obtain s1 s2 s3 g g' where s1: "LeaveAllPowerSaveMode E s = Some s1" and s2: "wait_while E g (?x s1) = Some s2"
    and s3: "(if \<not> bInternalAutoSuspend (pwrctl s2) \<and> bInSuspend (pwrctl s2) then wait_while E g' s2 else Some s2) = Some s3" and r: "snd r = ?x (snd (pwr_wakeup_card E s3))"
    using assms(2) by (auto simp: rtw_pwr_wakeup_ex_def Let_def bind_eq_Some_conv case_prod_beta)
  have "ps_good i p s2" using wait_while_good [OF assms(1) s2] LeaveAll_good(2) [OF s1 assms(3)] by (simp add: extend_ips_deny_good)
  then have "ps_good i p s3" using wait_while_good [OF assms(1), of g' s2 s3] s3 by (auto split: if_splits)
  then show ?thesis unfolding r by (intro extend_ips_deny_good pwr_wakeup_card_good [OF assms(1)])
qed

lemma rtw_pm_set_good:
  assumes "ps_good i p s"
  shows "rtw_pm_set_lps E m s = Some r \<Longrightarrow> ps_good i p (snd r)"
    and "env_ok E \<Longrightarrow> rtw_pm_set_ips E m s = Some r \<Longrightarrow> ps_good i p (snd r)"
proof -
  have upd: "ps_good i p t \<Longrightarrow> ps_good i p (upd_pwr (\<lambda>p. p\<lparr>power_mgnt := m, bLeisurePs := PS_MODE_ACTIVE \<noteq> m\<rparr>) t)" for t
    by (auto simp: ps_good_def upd_pwr_def mode_ok_def)
  have left: "rtw_pm_set_lps E m s = Some r \<Longrightarrow> PS_MODE_ACTIVE = m \<Longrightarrow> LeaveAllPowerSaveMode E s = Some s' \<Longrightarrow> ps_good i p (snd r)" for s'
    using assms upd [OF LeaveAll_good(2) [OF _ assms], of E s'] by (auto simp: rtw_pm_set_lps_def split: if_splits)
  show "rtw_pm_set_lps E m s = Some r \<Longrightarrow> ps_good i p (snd r)"
    using assms left upd [OF count_good(3) [OF assms]]
    by (cases "PS_MODE_ACTIVE = m"; cases "LeaveAllPowerSaveMode E s") (auto simp: rtw_pm_set_lps_def split: if_splits)
  show "env_ok E \<Longrightarrow> rtw_pm_set_ips E m s = Some r \<Longrightarrow> ps_good i p (snd r)"
    using assms count_good(10) [OF assms] rtw_pwr_wakeup_ex_good [of E _ _ _ i p]
    by (fastforce simp: rtw_pm_set_ips_def rtw_pwr_wakeup_def Let_def split: if_splits)
qed

section \<open>Commands and beacons\<close>

lemma ps_cmd_thread_round_good:
  assumes "ps_cmd_thread_round E s = Some s'" and "ps_good i p s"
  shows "ps_good i p s'"
proof -
  have "ps_good i p (s\<lparr>cmd_queue := cs\<rparr>)" for cs using assms(2) by simp
  note k = this rtw_ps_processor_good [OF this] lps_ctrl_wk_hdl_good [OF _ this] p2p_ps_wk_hdl_good [OF this] dtim_good [OF this]
  show ?thesis
    using assms k by (auto simp: ps_cmd_thread_round_def run_ps_cmd_def rtw_dm_in_lps_hdl_def Let_def split: if_splits list.splits ps_cmd.splits)
qed

lemma store_noa_good: "store_noa m off n w = Some w' \<Longrightarrow> noa_arrays w \<Longrightarrow> noa_arrays w' \<and> n < 2"
  by (auto simp: store_noa_def put_at_def noa_arrays_def bind_eq_Some_conv word_less_nat_alt split: if_splits)

lemma noa_fill_good:
  assumes "noa_fill m len off n w = Some (Some (k, w'))" and "noa_arrays w" and "n \<le> 2"
  shows "noa_arrays w' \<and> k \<le> 2"
proof -
  let ?P = "\<lambda>(m :: bytes) (len :: u32) (off :: u8) n w r. noa_arrays w \<longrightarrow> n \<le> 2 \<longrightarrow> (\<forall>k w'. r = Some (k, w') \<longrightarrow> noa_arrays w' \<and> k \<le> 2)"
  have "?P m len off n w (Some (k, w'))"
  proof (rule noa_fill.raw_induct [where P = ?P, OF _ assms(1)], goal_cases)
    case (1 f m len off n w r)
    show ?case
    proof (intro impI)
      assume w: "noa_arrays w" "n \<le> 2"
      have up: "n < 2 \<Longrightarrow> n + 1 \<le> 2" by (simp add: inc_le)
      show "\<forall>k w'. r = Some (k, w') \<longrightarrow> noa_arrays w' \<and> k \<le> 2"
      proof (cases "ucast off < len")
        case False
        then show ?thesis using 1(2) w by auto
      next
        case True
        show ?thesis
        proof (cases "store_noa m off n w")
          case None
          then show ?thesis using 1(2) True by simp
        next
          case (Some w1)
          then have "?P m len (off + 13) (n + 1) w1 r" using 1(1) [of m len "off + 13" "n + 1" w1 r] 1(2) True by simp
          then show ?thesis using store_noa_good [OF Some w(1)] up by blast
        qed
      qed
    qed
  qed
  then show ?thesis using assms(2,3) by blast
qed

lemma noa_commands_good:
  assumes "ps_good i p s"
  shows "ps_good i p (noa_commands E s)"
proof -
  have "ps_good i p (upd_wdinfo (\<lambda>w. w\<lparr>p2p_ps_mode := m\<rparr>) s)" for m
    using assms by (intro good_upd_wdinfo) (simp_all add: ps_good_def noa_ok_def noa_arrays_def)
  then show ?thesis using assms by (simp add: noa_commands_def Let_def p2p_ps_wk_cmd_good)
qed

lemma noa_found_good:
  assumes "noa_found E buf len s = Some (Some s')" and "ps_good i p s"
  shows "ps_good i p s'"
proof -
  have u: "ps_good i p (s\<lparr>wdinfo := w'\<rparr>)" if "noa_update buf len (wdinfo s) = Some (Some w')" for w'
  proof -
    let ?w = "(wdinfo s)\<lparr>noa_index := buf ! 0, opp_ps := drop_bit 7 (buf ! 1), ctwindow := buf ! 1 AND 0x7F\<rparr>"
    have "noa_arrays ?w" using assms(2) by (simp add: ps_good_def noa_ok_def noa_arrays_def)
    then have "noa_ok w'"
      using that noa_fill_good [of buf len 2 0 ?w]
      by (auto simp: noa_update_def Let_def noa_ok_def noa_arrays_def split: if_splits)
    then show ?thesis using assms(2) by (simp add: ps_good_def)
  qed
  then show ?thesis using assms noa_commands_good by (fastforce simp: noa_found_def split: if_splits)
qed

lemma noa_search_good:
  assumes "noa_search E m ies ies_len q len buf s = Some (Some (b, s'))" and "ps_good i p s"
  shows "ps_good i p s'"
proof -
  let ?P = "\<lambda>(E :: 'a ps_env) (m :: bytes) (ies :: nat) (ies_len :: u32) (q :: nat option) (len :: u32) (buf :: bytes) s r.
      ps_good i p s \<longrightarrow> (\<forall>b s'. r = Some (b, s') \<longrightarrow> ps_good i p s')"
  have "?P E m ies ies_len q len buf s (Some (b, s'))"
  proof (rule noa_search.raw_induct [where P = ?P, OF _ assms(1)], goal_cases)
    case (1 f E m ies ies_len q len buf s r)
    show ?case
    proof (cases "ps_good i p s \<and> q \<noteq> None")
      case False
      then show ?thesis using 1(2) by (cases q) auto
    next
      case True
      then obtain a where q: "q = Some a" by auto
      show ?thesis
      proof (cases "rtw_get_p2p_attr_content m (Some a) len P2P_ATTR_NOA (Some buf)")
        case None
        then show ?thesis using 1(2) q by simp
      next
        case (Some c)
        show ?thesis
        proof (cases c)
          case None
          then show ?thesis using 1(2) q Some by auto
        next
          case c: (Some t)
          obtain content n nbuf where t: "t = (content, n, nbuf)" by (cases t)
          show ?thesis
          proof (cases content)
            case None
            then show ?thesis using 1(2) 1(1) q Some c t True by (auto split: option.splits)
          next
            case found: (Some x)
            then show ?thesis
              using 1(2) q Some c t True noa_found_good [of E "the nbuf" n s _ i p] by (auto split: option.splits)
          qed
        qed
      qed
    qed
  qed
  then show ?thesis using assms(2) by blast
qed

lemma process_p2p_ps_ie_good:
  assumes "process_p2p_ps_ie E m n s = Some (Some s')" and "ps_good i p s"
  shows "ps_good i p s'"
  using assms noa_search_good [of E m _ _ _ _ _ s _ _ i p]
  by (auto simp: process_p2p_ps_ie_def Let_def p2p_ps_wk_cmd_good split: if_splits option.splits)

section \<open>Runs\<close>

text \<open>
  One step is one of the entry points that returns, the expiry of the timer, a round of the command
  thread, or whatever other contexts do.
\<close>

inductive ps_step :: "'h ps_env \<Rightarrow> 'h ps_sys \<Rightarrow> 'h ps_sys \<Rightarrow> bool" for E where
  Timer: "pwr_state_check_timer s \<noteq> None \<Longrightarrow> ps_step E s (pwr_state_check_handler E s)"
| Thread: "ps_cmd_thread_round E s = Some s' \<Longrightarrow> ps_step E s s'"
| Watchdog: "traffic_status_watchdog E from_timer s = Some r \<Longrightarrow> ps_step E s (snd r)"
| LpsCtrl: "rtw_lps_ctrl_wk_cmd E t enqueue s = Some r \<Longrightarrow> ps_step E s (snd r)"
| Dtim: "ps_step E s (snd (rtw_lps_change_dtim_cmd E d s))"
| DmInLps: "ps_step E s (snd (rtw_dm_in_lps_wk_cmd E s))"
| P2p: "ps_step E s (snd (p2p_ps_wk_cmd E st enqueue s))"
| Beacon: "process_p2p_ps_ie E m n s = Some (Some s') \<Longrightarrow> ps_step E s s'"
| Wakeup: "rtw_pwr_wakeup_ex E ms s = Some r \<Longrightarrow> ps_step E s (snd r)"
| LeaveAll: "LeaveAllPowerSaveMode E s = Some s' \<Longrightarrow> ps_step E s s'"
| LeaveAllDirect: "LeaveAllPowerSaveModeDirect E s = Some s' \<Longrightarrow> ps_step E s s'"
| SetLps: "rtw_pm_set_lps E m s = Some r \<Longrightarrow> ps_step E s (snd r)"
| SetIps: "rtw_pm_set_ips E m s = Some r \<Longrightarrow> ps_step E s (snd r)"
| PowerMgmt: "cfg80211_rtw_set_power_mgmt E enabled s = Some s' \<Longrightarrow> ps_step E s s'"
| Deny: "ps_step E s (rtw_ps_deny reason s)"
| DenyCancel: "ps_step E s (rtw_ps_deny_cancel reason s)"
| IpsDeny: "ps_step E s (rtw_set_ips_deny (env_host E) ms s)"
| Others: "ps_rely s s' \<Longrightarrow> ps_step E s s'"

lemma deny_good:
  "ps_good i p s \<Longrightarrow> ps_good i p (rtw_ps_deny reason s)" "ps_good i p s \<Longrightarrow> ps_good i p (rtw_ps_deny_cancel reason s)"
  unfolding rtw_ps_deny_def rtw_ps_deny_cancel_def by (rule count_good, assumption)+

lemma ps_step_good:
  assumes "env_ok E" and "ps_step E s s'" and "ps_good i p s"
  shows "ps_good i p s'"
  using assms(2)
proof cases
  case Timer
  have "ps_good i p (s\<lparr>pwr_state_check_timer := None\<rparr>)" using assms(3) by simp
  then show ?thesis unfolding Timer pwr_state_check_handler_def rtw_ps_cmd_def by (rule enqueue_good)
next
  case (PowerMgmt enabled)
  have on: "ps_good i p (s\<lparr>power_mgmt := enabled\<rparr>)" using assms(3) by simp
  show ?thesis
    using PowerMgmt on rtw_lps_ctrl_wk_cmd_good [OF _ on] by (auto simp: cfg80211_rtw_set_power_mgmt_def Let_def split: if_splits)
qed (use assms(3) in \<open>simp_all add: ps_cmd_thread_round_good traffic_status_watchdog_good rtw_lps_ctrl_wk_cmd_good
       rtw_lps_change_dtim_cmd_def rtw_dm_in_lps_wk_cmd_def enqueue_good p2p_ps_wk_cmd_good process_p2p_ps_ie_good
       rtw_pwr_wakeup_ex_good [OF assms(1)] LeaveAll_good rtw_pm_set_good(1) rtw_pm_set_good(2) [OF _ assms(1)]
       deny_good rtw_set_ips_deny_def count_good ps_rely_good\<close>)



end
