(* ===== verification/Ps_Sleep.thy ===== *)
theory Ps_Sleep
  imports Ps_Run
begin

text \<open>
  Leisure power save in the air: when it is entered and what the chip is told, that leaving it returns
  on a kernel whose clock runs, and the way in which the two ends can disagree for good.
\<close>

section \<open>Entering\<close>

text \<open>The conditions under which \<open>LPS_Enter\<close> goes beyond its guards.\<close>

definition lps_ready :: "'h ps_env \<Rightarrow> 'h ps_sys \<Rightarrow> bool" where
  "lps_ready E s \<longleftrightarrow> n_assoc_iface s = 1 \<and> PS_RDY_CHECK (env_host E) s \<and> p2p_ps_mode (wdinfo s) \<noteq> P2P_PS_NOA \<and> bLeisurePs (pwrctl s)"

text \<open>The parameters of the power mode for a state.\<close>

definition mode_parm :: "u8 \<Rightarrow> 'h ps_sys \<Rightarrow> bytes" where
  "mode_parm m s = FwPwrMode_parm m (smart_ps (pwrctl s)) (dtim (pwrctl s)) (p2p_state (wdinfo s) \<noteq> P2P_STATE_NONE)
     (reg_wifi_spec s) (reg_uapsd_enable s)"

lemma mode_posted:
  assumes "host_ok H" and "answering H" and "\<not> RTW_CANNOT_IO (ps_dev s)" and "LastHMEBoxNum (ps_hal s) < 4"
  shows "\<exists>vs ok. waits 100 (unat (LastHMEBoxNum (ps_hal s))) vs ok \<and>
     io_log (ps_dev (set_hwreg_H2C_FW_PWRMODE H m s)) = io_log (ps_dev s) @ map flag_read vs @
       (if ok then box_write (unat (LastHMEBoxNum (ps_hal s))) H2C_8188F_SET_PWR_MODE (mode_parm m s) else []) \<and>
     \<not> RTW_CANNOT_IO (ps_dev (set_hwreg_H2C_FW_PWRMODE H m s))"
proof -
  have "length (mode_parm m s) \<le> 7" by (simp add: mode_parm_def FwPwrMode_parm_def SET_BITS_def split: prod.splits)
  from post_run [OF assms this, of H2C_8188F_SET_PWR_MODE] obtain vs ok d' where
    r: "run_state (FillH2CCmd8188F H (ps_hal s) H2C_8188F_SET_PWR_MODE (Some (mode_parm m s))) (ps_dev s) =
        ((ok, if ok then (ps_hal s)\<lparr>LastHMEBoxNum := (LastHMEBoxNum (ps_hal s) + 1) mod 4\<rparr> else ps_hal s), d')"
    and w: "waits 100 (unat (LastHMEBoxNum (ps_hal s))) vs ok" "\<not> RTW_CANNOT_IO d'"
      "io_log d' = io_log (ps_dev s) @ map flag_read vs @ (if ok then box_write (unat (LastHMEBoxNum (ps_hal s))) H2C_8188F_SET_PWR_MODE (mode_parm m s) else [])"
    by blast
  have "ps_dev (set_hwreg_H2C_FW_PWRMODE H m s) = d'"
    using r by (cases "m = PS_MODE_ACTIVE")
      (simp_all add: set_hwreg_H2C_FW_PWRMODE_def hal_op_split ps_log_def rtl8188f_set_FwPwrMode_cmd_def post_h2c_def mode_parm_def Let_def)
  then show ?thesis using w by blast
qed

lemma rpwm_requested:
  assumes "answering H" and "\<not> RTW_CANNOT_IO (ps_dev s)" and "hw_init_completed s" and "rpwm (pwrctl s) \<noteq> PS_STATE_S2"
  shows "io_log (ps_dev (rtw_set_rpwm H PS_STATE_S2 s)) = io_log (ps_dev s) @ [Ctl False 0xFE58 [PS_STATE_S2 OR tog (pwrctl s)] 1]"
    "rpwm (pwrctl (rtw_set_rpwm H PS_STATE_S2 s)) = PS_STATE_S2"
  using assms
  by (simp_all add: rtw_set_rpwm_def PS_STATE_S2_def set_hwreg_SET_RPWM_def upd_pwr_def dev_op_def answered_write8
      REG_USB_HRPWM_def RTW_CANNOT_IO_def [of "ps_dev s"] Let_def)

lemma LPS_Enter_counts:
  "lps_ready E s \<Longrightarrow> LpsIdleCount (pwrctl s) < 2 \<Longrightarrow> LPS_Enter E s = upd_pwr (\<lambda>p. p\<lparr>LpsIdleCount := LpsIdleCount p + 1\<rparr>) s"
  by (simp add: lps_ready_def LPS_Enter_def)

lemma LPS_Enter_enters:
  assumes "lps_ready E s" and "2 \<le> LpsIdleCount (pwrctl s)" and "pwr_mode (pwrctl s) = PS_MODE_ACTIVE"
    and "power_mgnt (pwrctl s) \<noteq> PS_MODE_ACTIVE" and "power_mgnt (pwrctl s) \<le> PM_Card_Disable" and "opp_ps (wdinfo s) \<noteq> 1"
  shows "LPS_Enter E s =
    (let m = power_mgnt (pwrctl s); s = ps_marked m (reg_smart_ps s) 0 (upd_pwr (\<lambda>p. p\<lparr>bpower_saving := True\<rparr>) s)
     in rtw_set_rpwm (env_host E) PS_STATE_S2 (set_hwreg_H2C_FW_PWRMODE (env_host E) m s))"
proof -
  let ?s = "upd_pwr (\<lambda>p. p\<lparr>bpower_saving := True\<rparr>) s"
  have "PS_RDY_CHECK (env_host E) ?s" "check_fwstate ?s WIFI_ASOC_STATE"
    using assms(1) by (simp_all add: lps_ready_def PS_RDY_CHECK_def upd_pwr_def get_current_time_def check_fwstate_def n_assoc_iface_def split: if_splits)
  then show ?thesis
    using assms by (simp add: lps_ready_def LPS_Enter_def rtw_set_ps_mode_def ps_marked_def upd_pwr_def set_hwreg_PWRMODE_fields Let_def)
qed


definition counted_ex :: "u8 \<Rightarrow> unit ps_sys" where
  "counted_ex k = ps_ex\<lparr>pwrctl := pwrctrl_ex\<lparr>LpsIdleCount := k\<rparr>\<rparr>"

lemma counted_ready: "lps_ready ps_env_ex (counted_ex k)"
  by (simp add: lps_ready_def counted_ex_def PS_RDY_CHECK_def n_assoc_iface_def check_fwstate_def get_current_time_def
      ps_at_def pwrctrl_ex_def wdinfo_ex_def ps_env_ex_def echo_host_def fw_states)

lemma counted_next: "k < 2 \<Longrightarrow> LPS_Enter ps_env_ex (counted_ex k) = counted_ex (k + 1)"
  by (subst LPS_Enter_counts [OF counted_ready]) (simp_all add: counted_ex_def upd_pwr_def ps_at_def pwrctrl_ex_def)


section \<open>Leaving\<close>

text \<open>
  What is assumed of the kernel: there is a time in microseconds that the jiffies count, a delay takes at least what is
  asked for, and neither a delay nor a control transfer takes more than ten seconds.
\<close>

definition keeps_time :: "'h usb_host \<Rightarrow> ('h \<Rightarrow> nat) \<Rightarrow> bool" where
  "keeps_time H t \<longleftrightarrow> 100 \<le> host_HZ H \<and> host_HZ H \<le> 1000 \<and> (\<forall>h. jiffies H h = of_nat (t h * host_HZ H div 1000000)) \<and>
     (\<forall>h. t h + 100 \<le> t (os_delay H 100 h) \<and> t (os_delay H 100 h) \<le> t h + 10000000) \<and>
     (\<forall>rd v b h. t h \<le> t (after H rd v b h) \<and> t (after H rd v b h) \<le> t h + 10000000)"

lemma vendorreq_loop_time:
  assumes "keeps_time H t"
  shows "t (udev d) \<le> t (udev (snd (vendorreq_loop n H rd v p st d))) \<and>
    t (udev (snd (vendorreq_loop n H rd v p st d))) \<le> t (udev d) + n * 10000000"
proof (induction n arbitrary: p st d)
  case 0
  then show ?case by simp
next
  case (Suc n)
  obtain status buf h where m: "usb_control_msg H rd v (if rd then replicate (length p) 0 else p) (udev d) = (status, buf, h)"
    by (metis prod_cases3)
  then have h: "t (udev d) \<le> t h" "t h \<le> t (udev d) + 10000000"
    using assms unfolding keeps_time_def after_def by (metis snd_conv)+
  have rest: "t (udev d) \<le> t (udev (snd (vendorreq_loop n H rd v p' st' d'))) \<and>
      t (udev (snd (vendorreq_loop n H rd v p' st' d'))) \<le> t (udev d) + Suc n * 10000000" if "udev d' = h" for p' st' d'
    using Suc [of d' p' st'] h that by auto
  show ?case
    using h rest by (simp add: ctl_msg_def m rtw_reset_continual_io_error_def rtw_inc_and_chk_continual_io_error_def Let_def)
qed

lemma read32_time:
  assumes "keeps_time H t"
  shows "t (udev d) \<le> t (udev (snd (run_state (rtw_read32 H a) d)))" "t (udev (snd (run_state (rtw_read32 H a) d))) \<le> t (udev d) + 100000000"
proof -
  have "snd (run_state (rtw_read32 H a) d) =
      (if RTW_CANNOT_IO d then d else snd (vendorreq_loop MAX_USBCTRL_VENDORREQ_TIMES H True (ucast a) [0, 0, 0, 0] 0 d))"
    by (simp add: rtw_read32_def usbctrl_vendorreq_def MAX_VENDOR_REQ_CMD_SIZE_def split: prod.splits)
  moreover note vendorreq_loop_time [OF assms, of d MAX_USBCTRL_VENDORREQ_TIMES True "ucast a" "[0, 0, 0, 0]" 0]
  moreover have "MAX_USBCTRL_VENDORREQ_TIMES * 10000000 = 100000000" by (simp add: MAX_USBCTRL_VENDORREQ_TIMES_def)
  ultimately show "t (udev d) \<le> t (udev (snd (run_state (rtw_read32 H a) d)))"
    and "t (udev (snd (run_state (rtw_read32 H a) d))) \<le> t (udev d) + 100000000" by simp_all
qed

text \<open>The time a wait has taken, as the loop sees it: after 200 ms it is over.\<close>

lemma elapsed_ms:
  fixes hz :: nat
  assumes "100 \<le> hz" and "hz \<le> 1000" and "x + 200000 \<le> y" and "y \<le> x + 1000000000"
  defines "n \<equiv> y * hz div 1000000 - x * hz div 1000000"
  shows "100 < n * 1000 div hz" and "n * 1000 < 2 ^ 32" and "x * hz div 1000000 \<le> y * hz div 1000000"
proof -
  have "x * hz + 200000 * hz \<le> y * hz" using mult_le_mono1 [OF assms(3), of hz] by (simp add: add_mult_distrib)
  moreover have "y * hz \<le> x * hz + 1000000000 * hz" using mult_le_mono1 [OF assms(4), of hz] by (simp add: add_mult_distrib)
  ultimately have n: "hz \<le> 5 * n + 10" "n \<le> 1000 * hz + 1" and le: "x * hz div 1000000 \<le> y * hz div 1000000"
    unfolding n_def by (linarith, linarith, linarith)
  have "101 * hz \<le> n * 1000" using n(1) assms(1) by linarith
  then have "101 * hz div hz \<le> n * 1000 div hz" by (rule div_le_mono)
  then show "100 < n * 1000 div hz" using assms(1) by simp
  show "n * 1000 < 2 ^ 32" using n(2) assms(2) by simp
  show "x * hz div 1000000 \<le> y * hz div 1000000" by (rule le)
qed

lemma waited_enough:
  assumes "keeps_time H t" and "t h0 + 200000 \<le> t (udev d)" and "t (udev d) \<le> t h0 + 1000000000"
  shows "passing_ms H (jiffies H h0) d > LPS_LEAVE_TIMEOUT_MS"
proof -
  let ?hz = "host_HZ H"
  let ?n = "t (udev d) * ?hz div 1000000 - t h0 * ?hz div 1000000"
  have hz: "100 \<le> ?hz" "?hz \<le> 1000" using assms(1) by (simp_all add: keeps_time_def)
  note e = elapsed_ms [OF hz assms(2,3)]
  have "jiffies H (udev d) - jiffies H h0 = (of_nat ?n :: u32)"
    using assms(1) e(3) by (simp add: keeps_time_def of_nat_diff)
  then have p: "passing_ms H (jiffies H h0) d = of_nat (?n * 1000) div of_nat ?hz" by (simp add: passing_ms_def)
  have word: "unat (of_nat k :: u32) = k" if "k < 2 ^ 32" for k
    using that by (simp add: unat_of_nat take_bit_nat_eq_self)
  have "unat (of_nat (?n * 1000) :: u32) = ?n * 1000" "unat (of_nat ?hz :: u32) = ?hz"
    by (rule word [OF e(2)], rule word) (use hz(2) in simp)
  then have "unat (passing_ms H (jiffies H h0) d) = ?n * 1000 div ?hz" by (simp only: p unat_div)
  then show ?thesis using e(1) by (simp add: LPS_LEAVE_TIMEOUT_MS_def word_less_nat_alt)
qed

lemma get_RF_ON_keeps:
  "pwrctl (snd (get_hwreg_FWLPS_RF_ON H s)) = pwrctl s" "ps_hal (snd (get_hwreg_FWLPS_RF_ON H s)) = ps_hal s"
  by (simp_all add: get_hwreg_FWLPS_RF_ON_def dev_op_def split: prod.splits)

lemma get_RF_ON_time:
  assumes "keeps_time H t"
  shows "t (udev (ps_dev s)) \<le> t (udev (ps_dev (snd (get_hwreg_FWLPS_RF_ON H s))))"
    "t (udev (ps_dev (snd (get_hwreg_FWLPS_RF_ON H s)))) \<le> t (udev (ps_dev s)) + 100000000"
  using read32_time [OF assms, where d = "ps_dev s" and a = REG_RCR]
  by (auto simp: get_hwreg_FWLPS_RF_ON_def dev_op_def split: prod.splits)

lemma LPS_RF_ON_loop_returns:
  assumes "keeps_time H t" and "t (udev (ps_dev s)) \<le> t h0 + 10200000" and "t h0 \<le> t (udev (ps_dev s))"
  shows "\<exists>r. LPS_RF_ON_loop H (jiffies H h0) LPS_LEAVE_TIMEOUT_MS s = Some r \<and> pwrctl (snd r) = pwrctl s \<and> ps_hal (snd r) = ps_hal s"
  using assms(2,3)
proof (induction "t h0 + 200000 - t (udev (ps_dev s))" arbitrary: s rule: less_induct)
  case (less s)
  obtain b s1 where g: "get_hwreg_FWLPS_RF_ON H s = (b, s1)" by (cases "get_hwreg_FWLPS_RF_ON H s")
  have k: "pwrctl s1 = pwrctl s" "ps_hal s1 = ps_hal s" "t (udev (ps_dev s)) \<le> t (udev (ps_dev s1))"
      "t (udev (ps_dev s1)) \<le> t (udev (ps_dev s)) + 100000000"
    using get_RF_ON_keeps [of H s] get_RF_ON_time [OF assms(1), of s] by (simp_all add: g)
  let ?s2 = "snd (dev_op (rtw_udelay_os H 100) s1)"
  show ?case
  proof (cases "b \<or> bSurpriseRemoved (ps_dev s1) \<or> passing_ms H (jiffies H h0) (ps_dev s1) > LPS_LEAVE_TIMEOUT_MS")
    case True
    then show ?thesis using k(1,2) by (subst LPS_RF_ON_loop.simps) (auto simp: g)
  next
    case False
    then have early: "t (udev (ps_dev s1)) < t h0 + 200000"
      using waited_enough [OF assms(1), of h0 "ps_dev s1"] less.prems k(4) by fastforce
    have d: "t (udev (ps_dev s1)) + 100 \<le> t (udev (ps_dev ?s2))" "t (udev (ps_dev ?s2)) \<le> t (udev (ps_dev s1)) + 10000000"
      using assms(1) by (simp_all add: keeps_time_def dev_op_def rtw_udelay_os_def)
    have "LPS_RF_ON_loop H (jiffies H h0) LPS_LEAVE_TIMEOUT_MS s = LPS_RF_ON_loop H (jiffies H h0) LPS_LEAVE_TIMEOUT_MS ?s2"
      using False by (subst LPS_RF_ON_loop.simps) (simp add: g)
    moreover have "t h0 + 200000 - t (udev (ps_dev ?s2)) < t h0 + 200000 - t (udev (ps_dev s))"
      "t (udev (ps_dev ?s2)) \<le> t h0 + 10200000" "t h0 \<le> t (udev (ps_dev ?s2))"
      using early d k(3) less.prems by linarith+
    from less.hyps [OF this] obtain r where "LPS_RF_ON_loop H (jiffies H h0) LPS_LEAVE_TIMEOUT_MS ?s2 = Some r"
        "pwrctl (snd r) = pwrctl ?s2" "ps_hal (snd r) = ps_hal ?s2" by blast
    ultimately show ?thesis using k(1,2) by (intro exI [of _ r]) simp
  qed
qed

text \<open>
  C34: On a kernel whose clock runs, leaving leisure power save returns, whatever the chip answers and
  even if it never says that it is awake. Then power saving is over; and when leisure power save is on,
  the mode is not the active one and no opportunistic power saving of Wi-Fi Direct is on, the mode is
  active and the firmware is no longer marked asleep.
\<close>

theorem lps_leave_returns:
  assumes "keeps_time (env_host E) t"
  shows "\<exists>s'. LPS_Leave E s = Some s' \<and> \<not> bpower_saving (pwrctl s') \<and>
     (bLeisurePs (pwrctl s) \<and> pwr_mode (pwrctl s) \<noteq> PS_MODE_ACTIVE \<and> opp_ps (wdinfo s) = 0 \<longrightarrow>
        pwr_mode (pwrctl s') = PS_MODE_ACTIVE \<and> \<not> bFwCurrentInPSMode (ps_hal s'))"
proof -
  let ?H = "env_host E"
  let ?w = "rtw_set_ps_mode E PS_MODE_ACTIVE 0 0 s"
  obtain r where r: "LPS_RF_ON_check ?H LPS_LEAVE_TIMEOUT_MS ?w = Some r" "pwrctl (snd r) = pwrctl ?w" "ps_hal (snd r) = ps_hal ?w"
    using LPS_RF_ON_loop_returns [OF assms, of ?w "udev (ps_dev ?w)"] by (auto simp: LPS_RF_ON_check_def get_current_time_def)
  have w: "pwr_mode (pwrctl ?w) = PS_MODE_ACTIVE \<and> \<not> bFwCurrentInPSMode (ps_hal ?w)"
    if "pwr_mode (pwrctl s) \<noteq> PS_MODE_ACTIVE" "opp_ps (wdinfo s) = 0"
    using that by (simp add: rtw_set_ps_mode_def ps_modes Let_def set_hwreg_PWRMODE_fields upd_pwr_def)
  show ?thesis
    using r w by (auto simp: LPS_Leave_def upd_pwr_def Let_def)
qed

text \<open>Here the chip is never awake, and the wait ends with the time.\<close>

definition clock_host :: "nat usb_host" where
  "clock_host = \<lparr>usb_control_msg = (\<lambda>rd v b h. (int (length b), replicate (length b) 0xFF, h + 100)),
     os_delay = (\<lambda>us h. h + us), jiffies = (\<lambda>h. of_nat (h * 100 div 1000000)), host_HZ = 100\<rparr>"

definition clock_env :: "nat ps_env" where
  "clock_env = \<lparr>env_host = clock_host, env_zmalloc = (\<lambda>_. True), env_msleep = (\<lambda>n s. s), env_hal_init = (\<lambda>s. (True, s))\<rparr>"

definition asleep_ex :: "'h \<Rightarrow> 'h ps_sys" where
  "asleep_ex h = (ps_at h)\<lparr>pwrctl := pwrctrl_ex\<lparr>pwr_mode := PS_MODE_MIN, bpower_saving := True\<rparr>,
     ps_hal := fw_hal_ex\<lparr>bFwCurrentInPSMode := True\<rparr>\<rparr>"

lemma lps_leave_returns_witness:
  "\<exists>s'. LPS_Leave clock_env (asleep_ex 5) = Some s' \<and> pwr_mode (pwrctl s') = PS_MODE_ACTIVE \<and>
     \<not> bFwCurrentInPSMode (ps_hal s') \<and> \<not> bpower_saving (pwrctl s')"
proof -
  have "keeps_time (env_host clock_env) id"
    by (simp add: keeps_time_def clock_env_def clock_host_def after_def)
  from lps_leave_returns [OF this, of "asleep_ex 5"] show ?thesis
    by (auto simp: asleep_ex_def ps_at_def pwrctrl_ex_def wdinfo_ex_def ps_modes)
qed

section \<open>Stuck\<close>

lemma upd_pwr_same: "f (pwrctl s) = pwrctl s \<Longrightarrow> upd_pwr f s = s"
  by (simp add: upd_pwr_def)

text \<open>
  C37: When a user switches leisure power save off after the connection is gone and before the command
  for the loss of the connection has run, that command no longer leaves the mode: the driver ends with
  leisure power save off, in a mode other than active and with the firmware marked asleep as before,
  without a transfer to the chip; and as long as it stays off, neither entering nor leaving changes
  anything.
\<close>

theorem lps_stuck:
  assumes "\<not> check_fwstate s WIFI_ASOC_STATE" and "\<not> check_fwstate s WIFI_ADHOC_MASTER_STATE" and "\<not> check_fwstate s WIFI_ADHOC_STATE"
    and "pwr_mode (pwrctl s) \<noteq> PS_MODE_ACTIVE" and "power_mgnt (pwrctl s) \<noteq> PS_MODE_ACTIVE"
    and "cmd_queue s = [LPS_CTRL_WK LPS_CTRL_DISCONNECT]" and "rtw_cmd_filter s"
    and "\<not> bDriverStopped s" and "\<not> bSurpriseRemoved (ps_dev s)"
  shows "\<exists>s1 s2. rtw_pm_set_lps E PS_MODE_ACTIVE s = Some (0, s1) \<and> ps_cmd_thread_round E s1 = Some s2 \<and> cmd_queue s2 = [] \<and>
     \<not> bLeisurePs (pwrctl s2) \<and> \<not> bpower_saving (pwrctl s2) \<and> pwr_mode (pwrctl s2) = pwr_mode (pwrctl s) \<and>
     ps_hal s2 = ps_hal s \<and> ps_dev s2 = ps_dev s \<and>
     (\<forall>t. pwrctl t = pwrctl s2 \<longrightarrow> LPS_Leave E t = Some t \<and> LPS_Enter E t = t)"
proof -
  let ?p = "(pwrctl s)\<lparr>power_mgnt := PS_MODE_ACTIVE, bLeisurePs := False\<rparr>"
  let ?s1 = "s\<lparr>pwrctl := ?p\<rparr>" let ?s2 = "s\<lparr>pwrctl := ?p\<lparr>bpower_saving := False\<rparr>, cmd_queue := []\<rparr>"
  have "LeaveAllPowerSaveMode E s = Some s"
    using assms(1,9) by (simp add: LeaveAllPowerSaveMode_def n_assoc_iface_def)
  then have "rtw_pm_set_lps E PS_MODE_ACTIVE s = Some (0, ?s1)"
    using assms(5) by (simp add: rtw_pm_set_lps_def ps_modes upd_pwr_def)
  moreover have "ps_cmd_thread_round E ?s1 = Some ?s2"
    using assms(2,3,6-9) by (simp add: ps_cmd_thread_round_def run_ps_cmd_def lps_ctrl_wk_hdl_def LPS_Leave_def upd_pwr_def
        rtw_cmd_filter_def check_fwstate_def rtl8188f_set_FwJoinBssRpt_cmd_def)
  moreover have "LPS_Leave E t = Some t \<and> LPS_Enter E t = t" if "pwrctl t = pwrctl ?s2" for t
    using that by (auto simp: LPS_Leave_def LPS_Enter_def intro!: upd_pwr_same)
  ultimately show ?thesis by (intro exI [of _ ?s1] exI [of _ ?s2]) simp
qed

lemma lps_stuck_witness:
  "\<exists>s1 s2. rtw_pm_set_lps ps_env_ex PS_MODE_ACTIVE ((asleep_ex ())\<lparr>fw_state := 0, cmd_queue := [LPS_CTRL_WK LPS_CTRL_DISCONNECT]\<rparr>) = Some (0, s1) \<and>
     ps_cmd_thread_round ps_env_ex s1 = Some s2 \<and> pwr_mode (pwrctl s2) = PS_MODE_MIN \<and> bFwCurrentInPSMode (ps_hal s2)"
proof -
  let ?s = "(asleep_ex ())\<lparr>fw_state := 0, cmd_queue := [LPS_CTRL_WK LPS_CTRL_DISCONNECT]\<rparr>"
  have "\<not> check_fwstate ?s WIFI_ASOC_STATE" "\<not> check_fwstate ?s WIFI_ADHOC_MASTER_STATE" "\<not> check_fwstate ?s WIFI_ADHOC_STATE"
    "pwr_mode (pwrctl ?s) \<noteq> PS_MODE_ACTIVE" "power_mgnt (pwrctl ?s) \<noteq> PS_MODE_ACTIVE"
    "cmd_queue ?s = [LPS_CTRL_WK LPS_CTRL_DISCONNECT]" "rtw_cmd_filter ?s" "\<not> bDriverStopped ?s" "\<not> bSurpriseRemoved (ps_dev ?s)"
    by (simp_all add: asleep_ex_def ps_at_def pwrctrl_ex_def check_fwstate_def rtw_cmd_filter_def usb_dev_ex_def ps_modes)
  from lps_stuck [OF this, of ps_env_ex] show ?thesis by (auto simp: asleep_ex_def)
qed

end
