(* ===== verification/Ps_Cycle.thy ===== *)
theory Ps_Cycle
  imports Ps_Sleep
begin

text \<open>
  Inactive power save as it comes and goes: the chain of the timer that drives it, switching the card
  off and on again, and what the 32-bit clock does to a request to stay awake.
\<close>

section \<open>The timer\<close>

lemma ips_enter_fields:
  "pwr_state_check_interval (pwrctl (ips_enter H s)) = pwr_state_check_interval (pwrctl s)"
  by (simp add: ips_enter_def rtw_ips_pwr_down_def rtw_ips_dev_unload_def rtw_hal_deinit_def dev_op_def ps_log_def upd_pwr_def Let_def
      split: prod.splits)

lemma processor_timer:
  "pwr_state_check_timer (rtw_ps_processor H s) =
     (if ps_deny (pwrctl s) \<noteq> 0 \<or> \<not> bInSuspend (pwrctl s) then Some (pwr_state_check_interval (pwrctl s)) else pwr_state_check_timer s)"
proof -
  have "pwr_state_check_interval (pwrctl (ips_enter H (upd_pwr (\<lambda>p. p\<lparr>change_rfpwrstate := rf_off\<rparr>) (upd_pwr (\<lambda>p. p\<lparr>ps_processing := True\<rparr>) s)))) =
      pwr_state_check_interval (pwrctl s)"
    by (simp add: ips_enter_fields) (simp add: upd_pwr_def)
  then show ?thesis
    by (simp add: rtw_ps_processor_def rtw_ps_deny_get_def set_pwr_state_check_timer_def Let_def) (simp add: upd_pwr_def)
qed

text \<open>
  C36: The timer that drives inactive power save is armed again after it expires exactly when the
  memory for its command can be allocated, the card is initialised, the command thread runs and is not
  stopped, and the system is not suspended or power saving is denied. Otherwise it is never armed again
  by its own chain: a single failed allocation ends it.
\<close>

theorem ps_timer_chain:
  assumes "cmd_queue s = []"
  shows "\<exists>s'. ps_cmd_thread_round E (pwr_state_check_handler E s) = Some s' \<and>
     pwr_state_check_timer s' =
       (if env_zmalloc E (s\<lparr>pwr_state_check_timer := None\<rparr>) \<and> rtw_cmd_filter s \<and> \<not> bSurpriseRemoved (ps_dev s) \<and>
           \<not> bDriverStopped s \<and> (ps_deny (pwrctl s) \<noteq> 0 \<or> \<not> bInSuspend (pwrctl s))
        then Some (pwr_state_check_interval (pwrctl s)) else None)"
proof -
  let ?t = "s\<lparr>pwr_state_check_timer := None\<rparr>"
  have cmd: "pwr_state_check_handler E s =
      (if env_zmalloc E ?t \<and> rtw_cmd_filter s then ?t\<lparr>cmd_queue := [POWER_SAVING_CTRL_WK]\<rparr> else ?t)"
    using assms by (simp add: pwr_state_check_handler_def rtw_ps_cmd_def alloc_and_enqueue_def rtw_enqueue_cmd_def rtw_cmd_filter_def)
  show ?thesis
  proof (cases "env_zmalloc E ?t \<and> rtw_cmd_filter s")
    case False
    then show ?thesis using assms by (auto simp: cmd ps_cmd_thread_round_def)
  next
    case True
    then have f: "rtw_cmd_filter (?t\<lparr>cmd_queue := []\<rparr>)" by (simp add: rtw_cmd_filter_def)
    show ?thesis
    proof (cases "bSurpriseRemoved (ps_dev s) \<or> bDriverStopped s")
      case gone: True
      then show ?thesis using True by (auto simp: cmd ps_cmd_thread_round_def)
    next
      case here: False
      then show ?thesis
        using True f by (simp add: cmd ps_cmd_thread_round_def run_ps_cmd_def processor_timer)
    qed
  qed
qed

lemma ps_timer_chain_witness:
  "(\<exists>s'. ps_cmd_thread_round ps_env_ex (pwr_state_check_handler ps_env_ex ps_ex) = Some s' \<and> pwr_state_check_timer s' = Some 2000) \<and>
   (\<exists>s'. ps_cmd_thread_round (ps_env_ex\<lparr>env_zmalloc := \<lambda>_. False\<rparr>)
       (pwr_state_check_handler (ps_env_ex\<lparr>env_zmalloc := \<lambda>_. False\<rparr>) ps_ex) = Some s' \<and> pwr_state_check_timer s' = None)"
proof -
  have q: "cmd_queue ps_ex = []" by (simp add: ps_at_def)
  have "env_zmalloc ps_env_ex s" "rtw_cmd_filter ps_ex" "\<not> bSurpriseRemoved (ps_dev ps_ex)" "\<not> bDriverStopped ps_ex"
      "\<not> bInSuspend (pwrctl ps_ex)" "pwr_state_check_interval (pwrctl ps_ex) = 2000" for s
    by (simp_all add: ps_env_ex_def ps_at_def rtw_cmd_filter_def usb_dev_ex_def pwrctrl_ex_def)
  then show ?thesis
    using ps_timer_chain [OF q, of ps_env_ex] ps_timer_chain [OF q, of "ps_env_ex\<lparr>env_zmalloc := \<lambda>_. False\<rparr>"] by auto
qed

section \<open>Off and on\<close>

text \<open>What is assumed of \<open>HalFunc.hal_init\<close>: it succeeds, and leaves the power control and the flags of the driver alone.\<close>

definition hal_init_succeeds :: "'h ps_env \<Rightarrow> bool" where
  "hal_init_succeeds E \<longleftrightarrow>
     (\<forall>s. fst (env_hal_init E s) \<and> (let s' = snd (env_hal_init E s) in pwrctl s' = pwrctl s \<and> bup s' = bup s \<and>
        bDriverStopped s' = bDriverStopped s \<and> net_closed s' = net_closed s))"

lemma hal_init_run:
  assumes "hal_init_succeeds E"
  obtains s' where "rtw_hal_init E s = (True, s')" "hw_init_completed s'" "pwrctl s' = pwrctl s" "bup s' = bup s"
    "bDriverStopped s' = bDriverStopped s" "net_closed s' = net_closed s"
proof -
  obtain s1 where s1: "env_hal_init E s = (True, s1)" "pwrctl s1 = pwrctl s" "bup s1 = bup s"
      "bDriverStopped s1 = bDriverStopped s" "net_closed s1 = net_closed s"
    using assms unfolding hal_init_succeeds_def Let_def by (metis (full_types) prod.collapse)
  show thesis by (rule that [of "snd (rtw_hal_init E s)"]) (use s1 in \<open>simp_all add: rtw_hal_init_def ps_log_def Let_def\<close>)
qed

text \<open>The card off, as the processor of the timer leaves it.\<close>

lemma ips_enter_off:
  assumes "change_rfpwrstate (pwrctl s) = rf_off" and "\<not> bSurpriseRemoved (ps_dev s)"
  shows "pwrctl (ips_enter H s) = (pwrctl s)\<lparr>bips_processing := False, ips_mode := ips_mode_req (pwrctl s),
      ips_enter_cnts := ips_enter_cnts (pwrctl s) + 1, bpower_saving := True,
      bkeepfwalive := (ips_mode_req (pwrctl s) = IPS_LEVEL_2 \<or> bkeepfwalive (pwrctl s)), rf_pwrstate := rf_off\<rparr>"
    "\<not> hw_init_completed (ips_enter H s)" "net_closed (ips_enter H s)" "fw_state (ips_enter H s) = fw_state s"
    "bup (ips_enter H s) = bup s"
  using assms by (simp_all add: ips_enter_def rtw_ips_pwr_down_def rtw_ips_dev_unload_def rtw_hal_deinit_def dev_op_def ps_log_def
      upd_pwr_def Let_def split: prod.splits)

lemma ips_leave_on:
  assumes "hal_init_succeeds E" and "rf_pwrstate (pwrctl s) = rf_off" and "\<not> bips_processing (pwrctl s)"
  shows "\<exists>s'. ips_leave E s = (True, s') \<and>
     pwrctl s' = (pwrctl s)\<lparr>bips_processing := False, change_rfpwrstate := rf_on, ips_leave_cnts := ips_leave_cnts (pwrctl s) + 1,
        pwr_state_check_cnts := 0, rf_pwrstate := rf_on, bkeepfwalive := False, bpower_saving := False\<rparr> \<and>
     hw_init_completed s' \<and> \<not> net_closed s' \<and> \<not> bDriverStopped s' \<and> bup s' = bup s \<and>
     pwr_state_check_timer s' = Some (pwr_state_check_interval (pwrctl s)) \<and> dynamic_chk_timer s' = Some 2000"
proof -
  let ?a = "upd_pwr (\<lambda>p. p\<lparr>bips_processing := True, change_rfpwrstate := rf_on, ips_leave_cnts := ips_leave_cnts p + 1\<rparr>) s"
  let ?b = "(rtw_reset_drv_sw ?a)\<lparr>net_closed := False, bDriverStopped := False\<rparr>"
  have b: "pwrctl ?b = (pwrctl ?a)\<lparr>pwr_state_check_cnts := 0\<rparr>" "bup ?b = bup s"
    by (simp_all add: rtw_reset_drv_sw_def ps_log_def upd_pwr_def Let_def)
  obtain c where c: "rtw_hal_init E ?b = (True, c)" "hw_init_completed c" "pwrctl c = pwrctl ?b" "bup c = bup ?b"
      "bDriverStopped c = bDriverStopped ?b" "net_closed c = net_closed ?b"
    using hal_init_run [OF assms(1)] by blast
  show ?thesis
    using c b assms(2,3)
    by (simp add: ips_leave_def ips_leave_locked_def rtw_ips_pwr_up_def ips_netdrv_open_def set_pwr_state_check_timer_def ps_log_def
        upd_pwr_def Let_def)
qed

text \<open>The conditions under which the processor of the timer switches the card off.\<close>

definition ips_due :: "'h usb_host \<Rightarrow> 'h ps_sys \<Rightarrow> bool" where
  "ips_due H s \<longleftrightarrow> ps_deny (pwrctl s) = 0 \<and> \<not> bInSuspend (pwrctl s) \<and> ips_mode_req (pwrctl s) \<noteq> IPS_NONE \<and>
     rtw_pwr_unassociated_idle H s \<and> rf_pwrstate (pwrctl s) = rf_on \<and> pwr_state_check_cnts (pwrctl s) mod 4 = 0"

lemma processor_enters:
  assumes "ips_due H s"
  shows "rtw_ps_processor H s = upd_pwr (\<lambda>p. p\<lparr>ps_processing := False\<rparr>) (set_pwr_state_check_timer
     (ips_enter H (s\<lparr>pwrctl := (pwrctl s)\<lparr>ps_processing := True, change_rfpwrstate := rf_off\<rparr>\<rparr>)))"
proof -
  have "rtw_pwr_unassociated_idle H (upd_pwr (\<lambda>p. p\<lparr>ps_processing := True\<rparr>) s)"
    using assms by (simp add: ips_due_def rtw_pwr_unassociated_idle_def upd_pwr_def get_current_time_def check_fwstate_def passed_ms_def)
  then show ?thesis
    using assms by (simp add: rtw_ps_processor_def rtw_ps_deny_get_def ips_due_def Let_def) (simp add: upd_pwr_def)
qed

lemma idle_not_linked:
  assumes "rtw_pwr_unassociated_idle H s"
  shows "\<not> check_fwstate s WIFI_ASOC_STATE" and "\<not> bpower_saving (pwrctl s)"
proof -
  have "fw_state s AND (WIFI_ASOC_STATE OR WIFI_SITE_MONITOR) = 0"
    using assms by (simp add: rtw_pwr_unassociated_idle_def check_fwstate_def)
  then show "\<not> check_fwstate s WIFI_ASOC_STATE" by (simp add: check_fwstate_def bit.conj_disj_distrib or_eq_0_iff)
  show "\<not> bpower_saving (pwrctl s)" using assms by (simp add: rtw_pwr_unassociated_idle_def)
qed

lemma wakeup_unlinked:
  assumes "\<not> check_fwstate s WIFI_ASOC_STATE" and "\<not> ps_processing (pwrctl s)" and "\<not> bInSuspend (pwrctl s)"
    and "\<not> bInternalAutoSuspend (pwrctl s)" and "rf_pwrstate (pwrctl s) = rf_off"
    and "ips_leave E (extend_ips_deny (env_host E) ms s) = (True, s')" and "\<not> bDriverStopped s'" and "bup s'" and "hw_init_completed s'"
  shows "rtw_pwr_wakeup_ex E ms s = Some (True, extend_ips_deny (env_host E) ms s')"
proof -
  let ?x = "extend_ips_deny (env_host E) ms s"
  have x: "check_fwstate ?x = check_fwstate s" "ps_processing (pwrctl ?x) = ps_processing (pwrctl s)" "bInSuspend (pwrctl ?x) = bInSuspend (pwrctl s)"
      "bInternalAutoSuspend (pwrctl ?x) = bInternalAutoSuspend (pwrctl s)" "rf_pwrstate (pwrctl ?x) = rf_pwrstate (pwrctl s)"
    by (simp_all add: extend_ips_deny_def upd_pwr_def check_fwstate_def fun_eq_iff)
  have "LeaveAllPowerSaveMode E s = Some s" using assms(1) by (simp add: LeaveAllPowerSaveMode_def n_assoc_iface_def)
  moreover have "wait_while E (\<lambda>s. ps_processing (pwrctl s) \<and> P s) ?x = Some ?x" for P
    using assms(2) x by (simp add: wait_while.simps)
  moreover have "pwr_wakeup_card E ?x = (True, s')"
    using assms x by (simp add: pwr_wakeup_card_def)
  ultimately show ?thesis using assms(3) x(3) by (simp add: rtw_pwr_wakeup_ex_def Let_def)
qed


definition idle_ex :: "nat ps_sys" where
  "idle_ex = (ps_at 1000000000)\<lparr>fw_state := 0\<rparr>"


section \<open>The clock\<close>

text \<open>
  A request not to enter inactive power save for so many milliseconds is kept as the time it ends, in
  jiffies of 32 bits, and compared as it is: when the sum passes the end of the clock, the request has
  no effect at all.
\<close>

lemma ips_deny_wraps:
  assumes "rtw_pwr_unassociated_idle H s"
  shows "rtw_pwr_unassociated_idle H (rtw_set_ips_deny H ms s) \<longleftrightarrow>
     get_current_time H s + ms_to_systime H ms < get_current_time H s"
  using assms
  by (simp add: rtw_pwr_unassociated_idle_def rtw_set_ips_deny_def upd_pwr_def get_current_time_def check_fwstate_def passed_ms_def not_le)

end
