(* ===== verification/Spec2Isabelle.thy ===== *)
theory Spec2Isabelle
  imports Sta_Safe Rx_Fragments Rx_Guard Hal_Image Hal_Power Ie_Elems Ie_Sec Ie_Vendor Ie_Gen Ef_Claims Ps_Cycle
begin

text \<open>
  A verification library for the RTL8188FU driver, a Linux kernel module in C for a USB wireless
  adapter. Paths are relative to \<open>src/\<close>.

  \<^bold>\<open>The program.\<close> A frame received over USB becomes a \<open>recv_frame\<close>; \<open>recv_func\<close>
  (\<open>core/rtw_recv.c\<close>) validates its header against the state of the connection and the table of
  stations (\<open>core/rtw_sta_mgt.c\<close>), decrypts it (\<open>core/rtw_security.c\<close>), joins fragments,
  checks the Michael code and the 802.1X port, puts it in order by its sequence number and passes
  Ethernet packets up (\<open>os_dep/linux/recv_linux.c\<close>). Packets seen on the way feed a tracker of
  TCP sessions (\<open>core/rtw_cmd.c\<close>). The chip is reached through registers over USB
  (\<open>core/rtw_io.c\<close>, \<open>hal/hal_hci/hal_usb.c\<close>, \<open>os_dep/linux/usb_ops_linux.c\<close>); it is
  switched on by tables of register commands (\<open>hal/HalPwrSeqCmd.c\<close>) and is given its firmware
  through a window of registers (\<open>hal/rtl8188f/rtl8188f_hal_init.c\<close>). Calibration and address
  are in its one-time memory, a log of packets that is replayed into a map
  (\<open>core/efuse/rtw_efuse.c\<close> and the same file of the hal). The bodies of management
  frames are lists of information elements, written, searched and parsed by
  \<open>core/rtw_ieee80211.c\<close> from bytes that anybody in reach may have sent. To save power
  (\<open>core/rtw_pwrctrl.c\<close>) the driver lets the firmware sleep between the beacons of its access
  point, or switches the card off while it has no connection; it talks to the firmware through four
  mailboxes (\<open>hal/rtl8188f/rtl8188f_cmd.c\<close>), and a timer, the watchdog, the user and the
  beacons of a Wi-Fi Direct group put commands for it into the queue of the command thread
  (\<open>core/rtw_cmd.c\<close>).

  \<^bold>\<open>The theories.\<close>

  \<^item> \<open>Drv_Prelude\<close>: the integer types as words, byte buffers with checked access (the locale
    \<open>byte_store\<close>), loops that may fault, little-endian values.
  \<^item> \<open>Sec_Arc4\<close>, \<open>Sec_Crc32\<close>, \<open>Sec_Wep\<close>, \<open>Sec_Michael\<close>, \<open>Sec_Tkip\<close>,
    \<open>Sec_Aes\<close>, \<open>Sec_Ccmp\<close>: \<open>core/rtw_security.c\<close>, one cipher or code each, from the
    tables to the routines that seal and open a frame. The references are RC4 as a permutation and a
    stream (the locale \<open>stream_cipher\<close>), the shift register of CRC-32, Michael over words,
    GF(256) for AES. The lemmas end in round trips of WEP, TKIP and CCMP and in what a receiver
    accepts.
  \<^item> \<open>Mac_Id\<close>, \<open>Sta_Mgt\<close>, \<open>Sta_Table\<close>, \<open>Sta_Safe\<close>: the table of stations and the
    firmware's numbers for them. \<open>Sta_Table\<close> gives the abstract view (slots, buckets, lookup;
    the locale \<open>station_table\<close>), \<open>Sta_Safe\<close> the reachable states and their invariant.
  \<^item> \<open>St_Ctl\<close>, \<open>St_Cmd\<close>: the session tracker, refined to a finite map.
  \<^item> \<open>Rx_Frame\<close>: a receive frame in its buffer, the conversion to Ethernet, aggregates.
    \<open>Rx_Window\<close>, \<open>Rx_Reorder\<close>, \<open>Rx_Order\<close>: the reorder window as an abstract buffer (the
    locale \<open>ordered_source\<close>), the code, and the refinement between them.
  \<^item> \<open>Rx_Valid\<close>, \<open>Rx_Secure\<close>, \<open>Rx_Defrag\<close>, \<open>Rx_Path\<close>: the stages of
    \<open>recv_func\<close> over the state \<open>rx_path\<close>; \<open>Rx_Fragments\<close> and \<open>Rx_Guard\<close>: what the
    stages guarantee together, and what gets past them.
  \<^item> \<open>Usb_Io\<close>: register access in the state monad, over a kernel given as the parameter
    \<open>usb_host\<close>. \<open>Hal_PwrSeq\<close>: the tables and their interpreter against a big-step semantics;
    \<open>Hal_Fw\<close> and \<open>Hal_Image\<close>: the download and what the chip then holds (the locale
    \<open>block_writer\<close>); \<open>Hal_Power\<close>: switching on and off.
  \<^item> \<open>Ie_List\<close>: lists of elements as the encoding of a list of pairs (the locale
    \<open>tlv_format\<close>), with the operations that write, find and remove an element.
    \<open>Ie_Elems\<close>: the parser that records where each element lies, and that all it records lies in
    the buffer. \<open>Ie_Rsn\<close>: the WPA and RSN elements, printed and parsed back. \<open>Ie_Sec\<close>: the
    search for the security elements, whose trace loop ends for some lengths only, and the ciphers of
    a beacon. \<open>Ie_Vendor\<close>: elements of WPS, P2P and WFD and the attributes in them (the locale
    \<open>attr_format\<close>). \<open>Ie_Gen\<close>: rates, channels and the elements of a new network.
  \<^item> \<open>Ef_Access\<close>: the one-time memory byte by byte, on the chip or in the arrays of a pseudo
    test; the contract of both is the locale \<open>fuse_memory\<close>. \<open>Ef_Map\<close>: replaying the log into
    the map and finding its end. \<open>Ef_Log\<close>: the log as a list of packets, and what the readers make
    of it. \<open>Ef_Write\<close>, \<open>Ef_Store\<close>: writing a packet, and that it is appended to the log.
    \<open>Ef_Chip\<close>: from the registers of a chip to the contract. \<open>Ef_Shadow\<close>, \<open>Ef_Update\<close>: what the
    driver does with the map, and that writing a part of it is an update (the locale
    \<open>fuse_device\<close>). \<open>Ef_Claims\<close>: the properties.
  \<^item> \<open>Ps_Mail\<close>: the mailboxes, with the parameters of each command (\<open>rtl8188f_cmd.c\<close>);
    \<open>Ps_Box\<close>: what is written into a box, and when. \<open>Ps_State\<close>: \<open>struct pwrctrl_priv\<close> and
    what is read of the adapter as the record \<open>ps_sys\<close>, the queue of commands, the requests of the
    HAL. \<open>Ps_Lps\<close>: leisure power save, the power saving of Wi-Fi Direct (\<open>core/rtw_p2p.c\<close>)
    and the watchdog. \<open>Ps_Ips\<close>: inactive power save, with the way down and up of the card
    (\<open>os_dep/linux/os_intfs.c\<close>, \<open>hal/hal_intf.c\<close>), the wake-up, the settings of the user
    and a round of the command thread. \<open>Ps_Noa\<close>: the notices of absence in beacons, and when
    reading one stays in memory. \<open>Ps_Run\<close>: the runs of all of these as a step relation, with its
    invariant. \<open>Ps_Sleep\<close> and \<open>Ps_Cycle\<close>: when leisure power save is entered, that leaving
    it returns, how it can be left half; the chain of the timer, and the card off and on again.

  \<^bold>\<open>Conventions.\<close> A function of the source keeps its name, less a leading underscore. A read or
  write outside a buffer, which C leaves undefined, is \<open>None\<close>; errors of the source are values.
  What the source does by calling another component that is not modelled is an entry in the log
  \<open>drv_calls\<close> of the adapter. Loops are recursive with a proof of termination. Some are partial
  functions whose value \<open>None\<close> says that they do not return: the two waits for the firmware and the
  loop of download rounds, the wait for the firmware to be awake and the waits of the wake-up, which
  end by the clock; the loops over elements and attributes whose step
  may be zero (the trace of the security elements, the attribute searches, the removals) or whose
  index may wrap around (the notices of absence); and
  \<open>Hal_EfusePgPacketWrite\<close>, which calls itself for the words that went wrong. Where such a loop may
  also read outside its buffer the value is an option inside the option, the outer one for returning.
  No fuel is used: where a loop has a counter in the source (retries, polling, rounds) the counter is
  the argument of the recursion.

  \<^bold>\<open>Parameters.\<close> \<open>usb_control_msg\<close>, the delays and the clock of the kernel, allocation of
  memory and the answer of \<open>request_firmware\<close> are arguments of the model. The hypotheses on them
  are that a transfer keeps the length of its buffer (\<open>host_ok\<close>), is complete or an error
  (\<open>no_short\<close>), or is answered (\<open>answering\<close>); and, for the one-time memory, that the registers
  behind the transfers keep what is written to them, that the control register reads or programs the
  byte it addresses, and that programming only clears bits (\<open>fuse_chip\<close>). Power saving has its
  surroundings as the record \<open>ps_env\<close>: the kernel, whether the memory for a command can be
  allocated, what the state is after a sleep, and \<open>HalFunc.hal_init\<close>. The hypotheses are that
  other contexts keep what they may not change (\<open>env_ok\<close>), that the clock goes on
  (\<open>keeps_time\<close>), and that the initialisation of the card succeeds (\<open>hal_init_succeeds\<close>).
  Each has an instance.

  \<^bold>\<open>Configuration.\<close> The code is read as the \<open>Makefile\<close> and \<open>include/autoconf.h\<close>
  build it for USB: one interface, Wi-Fi Direct and both kinds of power saving on, without
  \<open>CONFIG_LPS_LCLK\<close>, USB autosuspend, Bluetooth coexistence, TDLS and WAPI.

  \<^bold>\<open>Not modelled.\<close> Locks and the interleaving of contexts (an operation runs under its lock in one
  step), trace output and counters for debugging, the fault injection of the debug files. Management
  and control frames, association and the access point, the transmit path,
  the dynamic mechanisms of the radio, Bluetooth coexistence (not built for this chip), test
  mode and the interface to the kernel are named as components in the manifest with the reason. Of
  the commands of the command thread those of power saving and of the session tracker are modelled. Of
  \<open>core/rtw_ieee80211.c\<close> the routines that only print (\<open>dump_ies\<close> and the like) are left out.
\<close>

end
